(* ===== verification/Mbb_Prelude.thy ===== *)
theory Mbb_Prelude
  imports Main "HOL-Library.Word"
begin

unbundle bit_operations_syntax

text \<open>
  Shared material of the development: the machine types of the C sources, the C string
  primitives (reading the current character of a NUL-terminated string, ASCII
  classification, decimal printing as done by printf), and generic lemmas on lists,
  options and words that the components use.
\<close>

section \<open>Collections of rewrite rules\<close>

named_theorems mbb_defs \<open>definitions of small operations unfolded in component proofs\<close>
named_theorems mbb_simps \<open>characteristic equations of component operations\<close>

section \<open>Machine types\<close>

text \<open>
  The server runs on an LP64 platform: pointers and \<open>time_t\<close> have 64 bits, \<open>gint\<close> and
  \<open>guint\<close> 32. Times are only compared, so they are plain integers; they get a width
  where they are stored in a pointer.
\<close>

type_synonym gpointer = "64 word"
type_synonym ipv4_t = "32 word"
type_synonym byte_t = "8 word"
type_synonym guint32 = "32 word"
type_synonym guint64 = "64 word"
type_synonym time_t = int
type_synonym gint = int

text \<open>Conversion of a wide integer to a 32 bit \<open>gint\<close> (two's complement truncation).\<close>

definition to_gint :: "int \<Rightarrow> gint" where
  "to_gint n = signed_take_bit 31 n"

lemma to_gint_id [simp]: "- (2 ^ 31) \<le> n \<Longrightarrow> n < 2 ^ 31 \<Longrightarrow> to_gint n = n"
  by (simp add: to_gint_def signed_take_bit_int_eq_self)

section \<open>C strings\<close>

text \<open>
  A NUL-terminated string is the list of its characters without the terminator; reading
  at the end yields the terminator.
\<close>

definition peek :: "string \<Rightarrow> char" where
  "peek s = (case s of [] \<Rightarrow> CHR 0x00 | c # _ \<Rightarrow> c)"

lemma peek_simps [simp]: "peek [] = CHR 0x00" "peek (c # s) = c"
  by (simp_all add: peek_def)

definition ascii_isdigit :: "char \<Rightarrow> bool" where
  "ascii_isdigit c \<longleftrightarrow> 48 \<le> (of_char c :: nat) \<and> (of_char c :: nat) \<le> 57"

definition ascii_digit_value :: "char \<Rightarrow> nat" where
  "ascii_digit_value c = of_char c - 48"

definition ascii_isgraph :: "char \<Rightarrow> bool" where
  "ascii_isgraph c \<longleftrightarrow> 33 \<le> (of_char c :: nat) \<and> (of_char c :: nat) \<le> 126"

lemma ascii_isdigit_NUL [simp]: "\<not> ascii_isdigit (CHR 0x00)"
  by (simp add: ascii_isdigit_def)

lemma ascii_isgraph_NUL [simp]: "\<not> ascii_isgraph (CHR 0x00)"
  by (simp add: ascii_isgraph_def)

text \<open>Decimal digits and the unsigned decimal conversion of printf.\<close>

definition digit_char :: "nat \<Rightarrow> char" where
  "digit_char d = char_of (48 + d)"

lemma digit_char_isdigit [simp]: "d < 10 \<Longrightarrow> ascii_isdigit (digit_char d)"
  by (simp add: ascii_isdigit_def digit_char_def)

lemma digit_char_value [simp]: "d < 10 \<Longrightarrow> ascii_digit_value (digit_char d) = d"
  by (simp add: ascii_digit_value_def digit_char_def)

fun dec_of_nat :: "nat \<Rightarrow> string" where
  "dec_of_nat n = (if n < 10 then [digit_char n]
                   else dec_of_nat (n div 10) @ [digit_char (n mod 10)])"

declare dec_of_nat.simps [simp del]

definition dec_of_int :: "int \<Rightarrow> string" where
  "dec_of_int i = (if i < 0 then CHR ''-'' # dec_of_nat (nat (- i)) else dec_of_nat (nat i))"

lemma dec_of_nat_nonempty [simp]: "dec_of_nat n \<noteq> []"
  by (subst dec_of_nat.simps) simp

lemma dec_of_nat_digits: "c \<in> set (dec_of_nat n) \<Longrightarrow> ascii_isdigit c"
proof (induction n rule: dec_of_nat.induct)
  case (1 n)
  show ?case
  proof (cases "n < 10")
    case True
    with "1.prems" show ?thesis by (simp add: dec_of_nat.simps [of n])
  next
    case False
    with "1" show ?thesis by (auto simp: dec_of_nat.simps [of n])
  qed
qed

lemma peek_dec_of_nat_isdigit [simp]: "ascii_isdigit (peek (dec_of_nat n @ r))"
proof -
  obtain c cs where "dec_of_nat n = c # cs"
    by (cases "dec_of_nat n") auto
  with dec_of_nat_digits [of c n] show ?thesis by simp
qed

lemma length_dec_of_nat_byte: "n < 256 \<Longrightarrow> length (dec_of_nat n) \<le> 3"
  by (subst dec_of_nat.simps, subst dec_of_nat.simps, subst dec_of_nat.simps) auto

text \<open>The value a run of decimal digits denotes, most significant digit first.\<close>

definition dec_value :: "nat \<Rightarrow> string \<Rightarrow> nat" where
  "dec_value acc s = foldl (\<lambda>n c. n * 10 + ascii_digit_value c) acc s"

lemma dec_value_simps [simp]:
  "dec_value acc [] = acc"
  "dec_value acc (c # s) = dec_value (acc * 10 + ascii_digit_value c) s"
  "dec_value acc (s @ [c]) = dec_value acc s * 10 + ascii_digit_value c"
  by (simp_all add: dec_value_def)

lemma dec_value_dec_of_nat [simp]: "dec_value 0 (dec_of_nat n) = n"
proof (induction n rule: dec_of_nat.induct)
  case (1 n)
  show ?case
  proof (cases "n < 10")
    case True
    then show ?thesis by (simp add: dec_of_nat.simps [of n])
  next
    case False
    with "1" show ?thesis by (simp add: dec_of_nat.simps [of n])
  qed
qed

lemma dec_value_mono: "acc \<le> dec_value acc s"
proof (induction s arbitrary: acc)
  case (Cons c s)
  have "acc \<le> acc * 10 + ascii_digit_value c" by simp
  also have "\<dots> \<le> dec_value (acc * 10 + ascii_digit_value c) s" by (rule Cons.IH)
  finally show ?case by simp
qed simp

lemma dec_of_nat_inj [simp]: "dec_of_nat m = dec_of_nat n \<longleftrightarrow> m = n"
  by (metis dec_value_dec_of_nat)

section \<open>Words\<close>

lemma unat_ucast_up_byte [simp]: "unat (ucast (b :: byte_t) :: ipv4_t) = unat b"
  by (simp add: unsigned_ucast_eq take_bit_nat_eq_self_iff order.strict_trans [OF unsigned_less])

lemma unat_less_256: "unat (b :: byte_t) < 256"
  using unsigned_less [of b, where ?'a = nat] by simp

lemma take_bit_unat_ipv4 [simp]: "take_bit 32 (unat (w :: ipv4_t)) = unat w"
  using unsigned_less [of w, where ?'a = nat] by (simp add: take_bit_nat_eq_self)

end
