(* ===== verification/Inet.thy ===== *)
theory Inet
  imports Mbb_Prelude
begin

unbundle bit_operations_syntax

text \<open>
  The address layer, \<open>mbbd/inet.c\<close> and \<open>mbbd/range.c\<close>: parsing and printing of IPv4
  addresses and networks, and the closed address range a network covers. Parsers return
  \<open>None\<close> where the C functions return -1 or NULL, and otherwise the value with the rest
  of the input (the \<open>endptr\<close> of the source). The properties: printing then parsing
  is the identity, the printed text fits the fixed buffers, a parsed mask is at most 32,
  and a network's range is exactly the set of addresses with the same prefix.
\<close>

section \<open>Definitions\<close>

record inet =
  addr :: ipv4_t
  mask :: byte_t

record range =
  r_min :: ipv4_t
  r_max :: ipv4_t

subsection \<open>Printing\<close>

definition ipv4toa :: "ipv4_t \<Rightarrow> string" where
  "ipv4toa ip =
     (let b0 = ucast ip :: byte_t; ip = drop_bit 8 ip;
          b1 = ucast ip :: byte_t; ip = drop_bit 8 ip;
          b2 = ucast ip :: byte_t; ip = drop_bit 8 ip;
          b3 = ucast ip :: byte_t
      in dec_of_nat (unat b3) @ ''.'' @ dec_of_nat (unat b2) @ ''.'' @
         dec_of_nat (unat b1) @ ''.'' @ dec_of_nat (unat b0))"

definition inettoa :: "inet \<Rightarrow> string" where
  "inettoa i =
     (if mask i < 32 then ipv4toa (addr i) @ ''/'' @ dec_of_nat (unat (mask i))
      else ipv4toa (addr i))"

subsection \<open>Parsing\<close>

fun read_byte_loop :: "nat \<Rightarrow> string \<Rightarrow> (nat \<times> string) option" where
  "read_byte_loop num [] = Some (num, [])"
| "read_byte_loop num (ch # p) =
     (if ascii_isdigit ch
      then (let num = num * 10 + ascii_digit_value ch
            in if num > 255 then None else read_byte_loop num p)
      else Some (num, ch # p))"

definition read_byte :: "string \<Rightarrow> (byte_t \<times> string) option" where
  "read_byte p =
     (if \<not> ascii_isdigit (peek p) then None
      else map_option (\<lambda>(num, p). (of_nat num, p)) (read_byte_loop 0 p))"

function strtoipv4_loop :: "nat \<Rightarrow> string \<Rightarrow> ipv4_t \<Rightarrow> (ipv4_t \<times> string) option" where
  "strtoipv4_loop n p ip =
     (if n < 4
      then (if n \<noteq> 0 \<and> peek p \<noteq> CHR ''.'' then None
            else (case read_byte (if n \<noteq> 0 then tl p else p) of
                    None \<Rightarrow> None
                  | Some (byte, p) \<Rightarrow>
                      strtoipv4_loop (Suc n) p (push_bit 8 ip OR ucast byte)))
      else Some (ip, p))"
  by pat_completeness auto
termination
  by (relation "measure (\<lambda>(n, p, ip). 4 - n)") auto

declare strtoipv4_loop.simps [simp del]

definition strtoipv4 :: "string \<Rightarrow> (ipv4_t \<times> string) option" where
  "strtoipv4 buf = strtoipv4_loop 0 buf 0"

definition strtoinet :: "string \<Rightarrow> (inet \<times> string) option" where
  "strtoinet buf =
     (case strtoipv4 buf of
        None \<Rightarrow> None
      | Some (ip, p) \<Rightarrow>
          if peek p \<noteq> CHR ''/'' then Some (\<lparr>addr = ip, mask = 32\<rparr>, p)
          else (case read_byte (tl p) of
                  None \<Rightarrow> None
                | Some (m, p) \<Rightarrow>
                    if m > 32 then None else Some (\<lparr>addr = ip, mask = m\<rparr>, p)))"

definition atoipv4 :: "string \<Rightarrow> inet option" where
  "atoipv4 buf =
     (case strtoipv4 buf of
        None \<Rightarrow> None
      | Some (a, p) \<Rightarrow>
          if ascii_isgraph (peek p) then None else Some \<lparr>addr = a, mask = 32\<rparr>)"

definition atoinet :: "string \<Rightarrow> inet option" where
  "atoinet buf =
     (case strtoinet buf of
        None \<Rightarrow> None
      | Some (i, p) \<Rightarrow> if ascii_isgraph (peek p) then None else Some i)"

subsection \<open>Hash keys\<close>

definition inet_hash :: "inet \<Rightarrow> guint32" where
  "inet_hash i = addr i"

definition inet_equal :: "inet \<Rightarrow> inet \<Rightarrow> bool" where
  "inet_equal a b = (if addr a = addr b \<and> mask a = mask b then True else False)"

definition ipv4_hash :: "ipv4_t \<Rightarrow> guint32" where
  "ipv4_hash v = v"

definition ipv4_equal :: "ipv4_t \<Rightarrow> ipv4_t \<Rightarrow> bool" where
  "ipv4_equal v1 v2 \<longleftrightarrow> v1 = v2"

subsection \<open>Ranges\<close>

text \<open>
  The debug build of \<open>range_new\<close> terminates the process when its arguments are out of
  order; the release build stores them. The model is the release build.
\<close>

definition range_new_uno :: "ipv4_t \<Rightarrow> range" where
  "range_new_uno v = \<lparr>r_min = v, r_max = v\<rparr>"

definition range_new :: "ipv4_t \<Rightarrow> ipv4_t \<Rightarrow> range" where
  "range_new mn mx = \<lparr>r_min = mn, r_max = mx\<rparr>"

definition inet2range :: "inet \<Rightarrow> range" where
  "inet2range i =
     (if mask i \<ge> 32 then range_new_uno (addr i)
      else (let tmp = drop_bit (unat (mask i)) (0xffffffff :: ipv4_t);
                m = NOT tmp;
                ip = addr i AND m
            in range_new ip (ip OR tmp)))"

definition range_cmp :: "range \<Rightarrow> range \<Rightarrow> gint" where
  "range_cmp ra rb =
     (if r_max ra < r_min rb then -1 else if r_min ra > r_max rb then 1 else 0)"

definition range_ipcmp :: "range \<Rightarrow> ipv4_t \<Rightarrow> gint" where
  "range_ipcmp r ip =
     (if ip < r_min r then 1 else if r_max r < ip then -1 else 0)"

text \<open>
  \<open>rangetoa\<close> takes the caller's buffer (\<open>None\<close> for NULL, otherwise its contents) and
  returns the contents of the buffer it returns. The two addresses are formatted into
  the local array \<open>range_buf\<close> on every call, so a caller's buffer keeps what it held.
\<close>

definition rangetoa :: "string option \<Rightarrow> range \<Rightarrow> string" where
  "rangetoa buf r =
     (if r_min r = r_max r then ipv4toa (r_min r)
      else (let range_buf = ipv4toa (r_min r) @ ''-'' @ ipv4toa (r_max r)
            in (case buf of None \<Rightarrow> range_buf | Some contents \<Rightarrow> contents)))"

section \<open>Reading one byte\<close>

lemma read_byte_loop_digits:
  assumes "\<forall>c \<in> set ds. ascii_isdigit c" and "dec_value num ds < 256"
    and "\<not> ascii_isdigit (peek r)"
  shows "read_byte_loop num (ds @ r) = Some (dec_value num ds, r)"
  using assms
proof (induction ds arbitrary: num)
  case Nil
  then show ?case by (cases r) auto
next
  case (Cons c ds)
  have "num * 10 + ascii_digit_value c < 256"
    using Cons.prems(2) dec_value_mono [of "num * 10 + ascii_digit_value c" ds] by simp
  with Cons show ?case by simp
qed

lemma read_byte_loop_bound:
  "num < 256 \<Longrightarrow> read_byte_loop num p = Some (v, r) \<Longrightarrow> v < 256"
  by (induction num p rule: read_byte_loop.induct) (auto simp: Let_def split: if_splits)

lemma read_byte_print [simp]:
  assumes "\<not> ascii_isdigit (peek r)"
  shows "read_byte (dec_of_nat (unat (b :: byte_t)) @ r) = Some (b, r)"
proof -
  have "read_byte_loop 0 (dec_of_nat (unat b) @ r) = Some (unat b, r)"
    using read_byte_loop_digits [of "dec_of_nat (unat b)" 0 r] assms
    by (simp add: dec_of_nat_digits unat_less_256)
  then show ?thesis by (simp add: read_byte_def)
qed

section \<open>Addresses as four bytes\<close>

lemma ipv4_rebuild:
  fixes ip :: ipv4_t
  shows "((push_bit 24 (ucast (ucast (drop_bit 24 ip) :: byte_t)) OR
           push_bit 16 (ucast (ucast (drop_bit 16 ip) :: byte_t))) OR
           push_bit 8 (ucast (ucast (drop_bit 8 ip) :: byte_t))) OR
           ucast (ucast ip :: byte_t) = ip" (is "?L = ip")
proof (rule bit_word_eqI)
  fix n assume "n < LENGTH(32)"
  then consider "n < 8" | "8 \<le> n" "n < 16" | "16 \<le> n" "n < 24" | "24 \<le> n" "n < 32"
    by fastforce
  then show "bit ?L n = bit ip n"
    by cases (auto simp: bit_simps)
qed

lemma isdigit_dot [simp]: "\<not> ascii_isdigit (CHR ''.'')" "\<not> ascii_isdigit (CHR ''/'')"
  by (simp_all add: ascii_isdigit_def)

lemma strtoipv4_ipv4toa:
  assumes "\<not> ascii_isdigit (peek r)"
  shows "strtoipv4 (ipv4toa ip @ r) = Some (ip, r)"
  unfolding strtoipv4_def ipv4toa_def Let_def
  by (simp add: strtoipv4_loop.simps [of 0] strtoipv4_loop.simps [of "Suc 0"]
      strtoipv4_loop.simps [of "Suc (Suc 0)"] strtoipv4_loop.simps [of "Suc (Suc (Suc 0))"]
      strtoipv4_loop.simps [of "Suc (Suc (Suc (Suc 0)))"] assms ipv4_rebuild)

text \<open>
  What one decimal byte of the input is: a non-empty run of digits whose value is the
  byte. Leading zeros are accepted, as \<open>read_byte\<close> accepts them.
\<close>

definition dec_byte :: "string \<Rightarrow> byte_t \<Rightarrow> bool" where
  "dec_byte ds b \<longleftrightarrow> ds \<noteq> [] \<and> (\<forall>c \<in> set ds. ascii_isdigit c) \<and> dec_value 0 ds = unat b"

lemma read_byte_loop_SomeD:
  "read_byte_loop num p = Some (v, r) \<Longrightarrow> num < 256 \<Longrightarrow>
     \<exists>ds. p = ds @ r \<and> (\<forall>c \<in> set ds. ascii_isdigit c) \<and> dec_value num ds = v \<and>
          v < 256 \<and> \<not> ascii_isdigit (peek r)"
proof (induction num p rule: read_byte_loop.induct)
  case (1 num)
  then show ?case by (intro exI [of _ "[]"]) simp
next
  case (2 num ch p)
  show ?case
  proof (cases "ascii_isdigit ch")
    case True
    with 2 obtain ds where "p = ds @ r" "\<forall>c \<in> set ds. ascii_isdigit c"
        "dec_value (num * 10 + ascii_digit_value ch) ds = v" "v < 256" "\<not> ascii_isdigit (peek r)"
      by (auto simp: Let_def split: if_splits)
    with True show ?thesis by (intro exI [of _ "ch # ds"]) simp
  next
    case False
    with 2 show ?thesis by (intro exI [of _ "[]"]) auto
  qed
qed

lemma read_byte_iff:
  "read_byte p = Some (b, r) \<longleftrightarrow>
     (\<exists>ds. p = ds @ r \<and> dec_byte ds b \<and> \<not> ascii_isdigit (peek r))"
proof
  assume *: "read_byte p = Some (b, r)"
  then obtain v where v: "read_byte_loop 0 p = Some (v, r)" "b = of_nat v" "ascii_isdigit (peek p)"
    by (auto simp: read_byte_def split: if_splits)
  from read_byte_loop_SomeD [OF v(1)] obtain ds where
    ds: "p = ds @ r" "\<forall>c \<in> set ds. ascii_isdigit c" "dec_value 0 ds = v" "v < 256"
        "\<not> ascii_isdigit (peek r)" by auto
  have "ds \<noteq> []" using ds(1,5) v(3) by auto
  moreover have "unat b = v" using v(2) ds(4) by (simp add: unat_of_nat take_bit_nat_eq_self)
  ultimately show "\<exists>ds. p = ds @ r \<and> dec_byte ds b \<and> \<not> ascii_isdigit (peek r)"
    using ds by (auto simp: dec_byte_def)
next
  assume "\<exists>ds. p = ds @ r \<and> dec_byte ds b \<and> \<not> ascii_isdigit (peek r)"
  then obtain ds where ds: "p = ds @ r" "dec_byte ds b" "\<not> ascii_isdigit (peek r)" by blast
  then have "read_byte_loop 0 p = Some (unat b, r)"
    using read_byte_loop_digits [of ds 0 r] by (auto simp: dec_byte_def unat_less_256)
  moreover have "ascii_isdigit (peek p)"
    using ds(1,2) by (cases ds) (auto simp: dec_byte_def)
  ultimately show "read_byte p = Some (b, r)" by (simp add: read_byte_def)
qed

section \<open>Properties of the parsers and printers\<close>

lemma read_byte_bind_iff:
  "(case read_byte q of None \<Rightarrow> None | Some (b, p) \<Rightarrow> F b p) = Some x \<longleftrightarrow>
     (\<exists>ds b p. q = ds @ p \<and> dec_byte ds b \<and> \<not> ascii_isdigit (peek p) \<and> F b p = Some x)"
proof -
  have "(case read_byte q of None \<Rightarrow> None | Some (b, p) \<Rightarrow> F b p) = Some x \<longleftrightarrow>
          (\<exists>b p. read_byte q = Some (b, p) \<and> F b p = Some x)"
    by (auto split: option.splits)
  then show ?thesis by (auto simp: read_byte_iff)
qed

lemma strtoipv4_loop_first:
  "strtoipv4_loop 0 p ip = Some x \<longleftrightarrow>
     (\<exists>ds b p'. p = ds @ p' \<and> dec_byte ds b \<and> \<not> ascii_isdigit (peek p') \<and>
        strtoipv4_loop 1 p' (push_bit 8 ip OR ucast b) = Some x)"
  by (simp add: strtoipv4_loop.simps [of 0] read_byte_bind_iff)

lemma strtoipv4_loop_next:
  assumes "0 < n" "n < 4"
  shows "strtoipv4_loop n p ip = Some x \<longleftrightarrow>
     (\<exists>ds b p'. p = ''.'' @ ds @ p' \<and> dec_byte ds b \<and> \<not> ascii_isdigit (peek p') \<and>
        strtoipv4_loop (Suc n) p' (push_bit 8 ip OR ucast b) = Some x)"
  using assms
  by (cases p) (auto simp: strtoipv4_loop.simps [of n] read_byte_bind_iff)

lemma strtoipv4_loop_end: "strtoipv4_loop 4 p ip = Some (v, r) \<longleftrightarrow> v = ip \<and> r = p"
  by (auto simp: strtoipv4_loop.simps [of 4])

definition ipv4_of_bytes :: "byte_t \<Rightarrow> byte_t \<Rightarrow> byte_t \<Rightarrow> byte_t \<Rightarrow> ipv4_t" where
  "ipv4_of_bytes a b c d =
     of_nat (unat a * 2 ^ 24 + unat b * 2 ^ 16 + unat c * 2 ^ 8 + unat d)"

lemma push_or_byte:
  assumes "unat ip < 2 ^ 24"
  shows "unat (push_bit 8 ip OR ucast (b :: byte_t) :: ipv4_t) = unat ip * 256 + unat b"
proof -
  have "push_bit 8 ip AND (ucast b :: ipv4_t) = 0"
    by (rule bit_word_eqI) (auto simp: bit_simps dest: bit_imp_le_length)
  then have "push_bit 8 ip OR ucast b = push_bit 8 ip + (ucast b :: ipv4_t)"
    by (simp add: disjunctive_add_eq_or)
  moreover have "unat (push_bit 8 ip) = unat ip * 256"
    using assms by (simp add: unsigned_push_bit_eq take_bit_nat_eq_self del: push_bit_numeral_minus_1)
      (simp add: push_bit_eq_mult take_bit_nat_eq_self)
  moreover have "unat ip * 256 + unat b < 2 ^ 32"
    using assms unat_less_256 [of b] by simp
  ultimately show ?thesis
    by (simp add: unat_word_ariths)
qed

lemma ipv4_of_bytes_shift:
  "push_bit 8 (push_bit 8 (push_bit 8 (push_bit 8 (0 :: ipv4_t) OR ucast a) OR ucast b) OR ucast c)
     OR ucast d = ipv4_of_bytes a b c d" (is "?L = _")
proof -
  let ?A = "push_bit 8 (0 :: ipv4_t) OR ucast a"
  let ?B = "push_bit 8 ?A OR ucast b" and ?C = "push_bit 8 (push_bit 8 ?A OR ucast b) OR ucast c"
  have A: "unat ?A = unat a" using push_or_byte [of 0 a] by simp
  then have B: "unat ?B = unat a * 256 + unat b"
    using push_or_byte [of ?A b] unat_less_256 [of a] by simp
  then have C: "unat ?C = (unat a * 256 + unat b) * 256 + unat c"
    using push_or_byte [of ?B c] unat_less_256 [of a] unat_less_256 [of b] by simp
  then have "unat ?L = ((unat a * 256 + unat b) * 256 + unat c) * 256 + unat d"
    using push_or_byte [of ?C d] unat_less_256 [of a] unat_less_256 [of b] unat_less_256 [of c]
    by simp
  moreover have "\<dots> < 2 ^ 32"
    using unat_less_256 [of a] unat_less_256 [of b] unat_less_256 [of c] unat_less_256 [of d]
    by simp
  moreover have of_nat: "unat (of_nat n :: ipv4_t) = n" if "n < 2 ^ 32" for n
    using that by (simp add: unat_of_nat take_bit_nat_eq_self)
  ultimately have "unat ?L = unat (ipv4_of_bytes a b c d)"
    unfolding ipv4_of_bytes_def by (subst of_nat) (simp_all add: algebra_simps)
  then show ?thesis by (simp add: word_unat_eq_iff)
qed

text \<open>\<open>strtoipv4\<close> accepts exactly the inputs that start with four decimal bytes
  separated by dots, and returns the address with the first byte as the most
  significant one and the input that follows the last digit.\<close>

theorem strtoipv4_iff:
  "strtoipv4 s = Some (ip, r) \<longleftrightarrow>
     (\<exists>da db dc dd a b c d.
        s = da @ ''.'' @ db @ ''.'' @ dc @ ''.'' @ dd @ r \<and>
        dec_byte da a \<and> dec_byte db b \<and> dec_byte dc c \<and> dec_byte dd d \<and>
        \<not> ascii_isdigit (peek r) \<and> ip = ipv4_of_bytes a b c d)"
proof -
  have l1: "strtoipv4_loop 1 p i = Some x \<longleftrightarrow> (\<exists>ds b p'. p = ''.'' @ ds @ p' \<and> dec_byte ds b \<and>
      \<not> ascii_isdigit (peek p') \<and> strtoipv4_loop 2 p' (push_bit 8 i OR ucast b) = Some x)" for p i x
    using strtoipv4_loop_next [of 1 p i x] by (simp add: numeral_2_eq_2)
  have l2: "strtoipv4_loop 2 p i = Some x \<longleftrightarrow> (\<exists>ds b p'. p = ''.'' @ ds @ p' \<and> dec_byte ds b \<and>
      \<not> ascii_isdigit (peek p') \<and> strtoipv4_loop 3 p' (push_bit 8 i OR ucast b) = Some x)" for p i x
    using strtoipv4_loop_next [of 2 p i x] by (simp add: numeral_3_eq_3 numeral_2_eq_2)
  have l3: "strtoipv4_loop 3 p i = Some (v, q) \<longleftrightarrow> (\<exists>ds b. p = ''.'' @ ds @ q \<and> dec_byte ds b \<and>
      \<not> ascii_isdigit (peek q) \<and> v = push_bit 8 i OR ucast b)" for p i v q
    using strtoipv4_loop_next [of 3 p i "(v, q)"] strtoipv4_loop_end by (auto simp: eval_nat_numeral)
  show ?thesis
    unfolding strtoipv4_def strtoipv4_loop_first l1 l2 l3 ipv4_of_bytes_shift [symmetric]
    by (rule iffI; clarify; intro exI conjI; (rule refl | assumption | simp)+)
qed

lemma strtoinet_printed:
  assumes "mask i \<le> 32" "\<not> ascii_isdigit (peek r)" "peek r \<noteq> CHR ''/''"
  shows "strtoinet (inettoa i @ r) = Some (i, r)"
proof (cases "mask i < 32")
  case True
  then show ?thesis
    using assms by (simp add: strtoinet_def inettoa_def strtoipv4_ipv4toa order.strict_implies_order leD)
next
  case False
  with assms(1) have "mask i = 32" by simp
  with assms show ?thesis
    by (cases i) (simp add: strtoinet_def inettoa_def strtoipv4_ipv4toa)
qed

lemma atoinet_inettoa: "mask i \<le> 32 \<Longrightarrow> atoinet (inettoa i) = Some i"
  using strtoinet_printed [of i "[]"] by (simp add: atoinet_def)

text \<open>C27. Every network with a mask of at most 32 is parsed back from its printed form,
  whatever text follows it as long as that text does not continue the number or start
  a mask; in particular \<open>atoinet\<close> inverts \<open>inettoa\<close>.\<close>

theorem strtoinet_inettoa:
  assumes "mask i \<le> 32" and "\<not> ascii_isdigit (peek r)" and "peek r \<noteq> CHR ''/''"
  shows "strtoinet (inettoa i @ r) = Some (i, r) \<and> atoinet (inettoa i) = Some i"
  using strtoinet_printed [OF assms] atoinet_inettoa [OF assms(1)] by blast

theorem strtoinet_inettoa_witness:
  "strtoinet (inettoa \<lparr>addr = 0xC0A80000, mask = 16\<rparr> @ '' x'') =
     Some (\<lparr>addr = 0xC0A80000, mask = 16\<rparr>, '' x'') \<and>
   atoinet (inettoa \<lparr>addr = 0xC0A80000, mask = 16\<rparr>) = Some \<lparr>addr = 0xC0A80000, mask = 16\<rparr>"
  by (rule strtoinet_inettoa) (simp_all add: ascii_isdigit_def)

text \<open>A successfully parsed network never has a mask above 32.\<close>

lemma strtoinet_mask: "strtoinet s = Some (i, r) \<Longrightarrow> mask i \<le> 32"
  by (auto simp: strtoinet_def not_less split: option.splits if_splits)


section \<open>Networks as ranges\<close>

lemma word_div_eq_range:
  fixes x a p :: nat
  assumes "0 < p"
  shows "p * (a div p) \<le> x \<and> x \<le> p * (a div p) + (p - 1) \<longleftrightarrow> x div p = a div p"
proof
  assume *: "p * (a div p) \<le> x \<and> x \<le> p * (a div p) + (p - 1)"
  then have "x < p * Suc (a div p)" using assms by (simp, linarith)
  with * show "x div p = a div p" by (intro div_nat_eqI) (auto simp: mult.commute)
next
  assume "x div p = a div p"
  then show "p * (a div p) \<le> x \<and> x \<le> p * (a div p) + (p - 1)"
    using assms div_mult_mod_eq [of x p] mod_less_divisor [of p x]
    by (metis Nat.add_0_right add.commute add_le_mono1 less_eq_Suc_le mult.commute nat_minus_add_max
        Suc_pred' le_add2 less_Suc_eq_le)
qed

lemma drop_bit_minus_one_ipv4:
  "m \<le> 32 \<Longrightarrow> drop_bit m (- 1 :: ipv4_t) = Bit_Operations.mask (32 - m)"
  by (rule bit_word_eqI) (auto simp: bit_simps)

lemma unat_mask_prefix:
  fixes a :: ipv4_t
  assumes "m \<le> 32"
  defines "tmp \<equiv> drop_bit m (0xffffffff :: ipv4_t)"
  shows "unat tmp = 2 ^ (32 - m) - 1"
    and "unat (a AND NOT tmp) = 2 ^ (32 - m) * (unat a div 2 ^ (32 - m))"
    and "unat (a AND NOT tmp OR tmp) = 2 ^ (32 - m) * (unat a div 2 ^ (32 - m)) + (2 ^ (32 - m) - 1)"
proof -
  let ?k = "32 - m"
  have tmp: "tmp = Bit_Operations.mask ?k"
  proof -
    have "(0xffffffff :: ipv4_t) = - 1" by simp
    then show ?thesis
      unfolding tmp_def by (metis (no_types) assms(1) drop_bit_minus_one_ipv4)
  qed
  have "unat (Bit_Operations.mask ?k :: ipv4_t) = Bit_Operations.mask ?k"
    by (rule bit_eqI) (auto simp: bit_simps)
  then show t: "unat tmp = 2 ^ ?k - 1" by (simp add: tmp mask_eq_exp_minus_1)
  have "a AND NOT tmp = push_bit ?k (drop_bit ?k a)"
    unfolding tmp by (rule bit_word_eqI) (auto simp: bit_simps)
  moreover have "unat (push_bit ?k (drop_bit ?k a)) = 2 ^ ?k * (unat a div 2 ^ ?k)"
  proof -
    have "unat a div 2 ^ ?k * 2 ^ ?k < 2 ^ 32"
      by (rule le_less_trans [OF div_times_less_eq_dividend]) (use unsigned_less [of a, where ?'a = nat] in simp)
    then show ?thesis
      by (simp add: unsigned_push_bit_eq unsigned_drop_bit_eq push_bit_eq_mult [where 'a = nat]
          drop_bit_eq_div [where 'a = nat] take_bit_nat_eq_self mult.commute)
  qed
  ultimately show a: "unat (a AND NOT tmp) = 2 ^ ?k * (unat a div 2 ^ ?k)" by simp
  have "(a AND NOT tmp) AND tmp = 0" by (simp add: and.assoc)
  then have "a AND NOT tmp OR tmp = (a AND NOT tmp) + tmp" by (simp add: disjunctive_add_eq_or)
  moreover have "unat (a AND NOT tmp) + unat tmp < 2 ^ 32"
  proof -
    have "unat a div 2 ^ ?k < 2 ^ m"
      using unsigned_less [of a, where ?'a = nat] assms(1)
      by (simp add: div_less_iff_less_mult flip: power_add)
    then have "2 ^ ?k * Suc (unat a div 2 ^ ?k) \<le> 2 ^ ?k * 2 ^ m"
      by (intro mult_le_mono2) simp
    also have "\<dots> = 2 ^ 32" using assms(1) by (simp flip: power_add)
    finally have "2 ^ ?k * (unat a div 2 ^ ?k) + 2 ^ ?k \<le> (2 ^ 32 :: nat)" by simp
    moreover have "(0 :: nat) < 2 ^ ?k" by simp
    ultimately show ?thesis unfolding a t by linarith
  qed
  ultimately show "unat (a AND NOT tmp OR tmp) = 2 ^ ?k * (unat a div 2 ^ ?k) + (2 ^ ?k - 1)"
    using a t by (simp add: unat_word_ariths)
qed

lemma inet2range_unat:
  assumes "mask i \<le> 32"
  defines "p \<equiv> 2 ^ (32 - unat (mask i)) :: nat"
  shows "unat (r_min (inet2range i)) = p * (unat (addr i) div p)"
    and "unat (r_max (inet2range i)) = p * (unat (addr i) div p) + (p - 1)"
proof -
  have m: "unat (mask i) \<le> 32" using assms(1) by (simp add: word_le_nat_alt)
  show "unat (r_min (inet2range i)) = p * (unat (addr i) div p)"
    using unat_mask_prefix(2,3) [OF m, of "addr i"] assms(1)
    by (auto simp: inet2range_def range_new_def range_new_uno_def Let_def p_def)
  show "unat (r_max (inet2range i)) = p * (unat (addr i) div p) + (p - 1)"
    using unat_mask_prefix(2,3) [OF m, of "addr i"] assms(1)
    by (auto simp: inet2range_def range_new_def range_new_uno_def Let_def p_def)
qed

text \<open>The range of a network is exactly its set of addresses: an address lies between
  the two ends if and only if it agrees with the network's address on the leading
  \<open>mask\<close> bits, the network's own address included.\<close>

theorem inet2range_members:
  assumes "mask i \<le> 32"
  shows "(r_min (inet2range i) \<le> x \<and> x \<le> r_max (inet2range i)) \<longleftrightarrow>
         drop_bit (32 - unat (mask i)) x = drop_bit (32 - unat (mask i)) (addr i)"
proof -
  let ?p = "2 ^ (32 - unat (mask i)) :: nat"
  have "(r_min (inet2range i) \<le> x \<and> x \<le> r_max (inet2range i)) \<longleftrightarrow>
        ?p * (unat (addr i) div ?p) \<le> unat x \<and>
        unat x \<le> ?p * (unat (addr i) div ?p) + (?p - 1)"
    by (simp add: word_le_nat_alt inet2range_unat [OF assms])
  also have "\<dots> \<longleftrightarrow> unat x div ?p = unat (addr i) div ?p"
    by (rule word_div_eq_range) simp
  also have "\<dots> \<longleftrightarrow> drop_bit (32 - unat (mask i)) x = drop_bit (32 - unat (mask i)) (addr i)"
    by (simp add: word_unat_eq_iff unsigned_drop_bit_eq drop_bit_eq_div [where 'a = nat])
  finally show ?thesis .
qed

theorem inet2range_members_witness:
  "(0xC0A80000 :: ipv4_t) \<le> 0xC0A8FE01 \<and> 0xC0A8FE01 \<le> (0xC0A8FFFF :: ipv4_t) \<and>
   ((r_min (inet2range \<lparr>addr = 0xC0A80101, mask = 16\<rparr>) \<le> 0xC0A8FE01 \<and>
     0xC0A8FE01 \<le> r_max (inet2range \<lparr>addr = 0xC0A80101, mask = 16\<rparr>)) \<longleftrightarrow>
    drop_bit 16 (0xC0A8FE01 :: ipv4_t) = drop_bit 16 0xC0A80101)"
  using inet2range_members [of "\<lparr>addr = 0xC0A80101, mask = 16\<rparr>" "0xC0A8FE01"] by simp

lemma inet2range_ordered: "r_min (inet2range i) \<le> r_max (inet2range i)"
proof (cases "mask i \<le> 32")
  case True
  show ?thesis
    unfolding word_le_nat_alt inet2range_unat [OF True] by (rule le_add1)
next
  case False
  then have "32 \<le> mask i" by simp
  then show ?thesis by (simp add: inet2range_def range_new_uno_def)
qed

text \<open>Comparing two ordered ranges yields 0 exactly when they share an address.\<close>

lemma range_cmp_zero_iff:
  assumes "r_min ra \<le> r_max ra" and "r_min rb \<le> r_max rb"
  shows "range_cmp ra rb = 0 \<longleftrightarrow>
         (\<exists>x. range_ipcmp ra x = 0 \<and> range_ipcmp rb x = 0)"
proof
  assume "range_cmp ra rb = 0"
  then have "r_min rb \<le> r_max ra" "r_min ra \<le> r_max rb"
    by (auto simp: range_cmp_def not_less split: if_splits)
  with assms show "\<exists>x. range_ipcmp ra x = 0 \<and> range_ipcmp rb x = 0"
    by (intro exI [of _ "max (r_min ra) (r_min rb)"]) (auto simp: range_ipcmp_def max_def)
next
  assume "\<exists>x. range_ipcmp ra x = 0 \<and> range_ipcmp rb x = 0"
  then show "range_cmp ra rb = 0"
    by (auto simp: range_cmp_def range_ipcmp_def split: if_splits)
qed

end
