(* ===== verification/Slice.thy ===== *)
theory Slice
  imports Inet
begin

text \<open>
  Slices: closed intervals of keys with NULL as an open end, from the first part of
  \<open>mbbd/slicer.c\<close>, and the two key types the server uses, times
  (\<open>mbbd/timeslicer.c\<close>) and IPv4 addresses (\<open>mbbd/inetslicer.c\<close>). Keys are pointers; a key
  whose pointer is 0 is NULL, which begins a slice at the least key and ends it at the
  greatest. The locale \<open>key_order\<close> states what the slicer relies on of a
  \<open>slice_ops\<close> table: on the keys below a limit, \<open>cmp\<close> has the sign of the difference and
  \<open>inc\<close> and \<open>dec\<close> step by one. It is interpreted for both tables of the program.
\<close>

section \<open>Definitions\<close>

record slice =
  s_begin :: gpointer
  s_end :: gpointer

record slice_ops =
  sop_cmp :: "gpointer \<Rightarrow> gpointer \<Rightarrow> gint"
  sop_dup :: "gpointer \<Rightarrow> gpointer"
  sop_inc :: "gpointer \<Rightarrow> gpointer"
  sop_dec :: "gpointer \<Rightarrow> gpointer"

definition slicer_dup_dummy :: "gpointer \<Rightarrow> gpointer" where
  "slicer_dup_dummy data = data"

definition begin_end_cmp :: "slice_ops \<Rightarrow> gpointer \<Rightarrow> gpointer \<Rightarrow> gint" where
  "begin_end_cmp sops b e = (if b = 0 \<or> e = 0 then -1 else sop_cmp sops b e)"

definition end_begin_cmp :: "slice_ops \<Rightarrow> gpointer \<Rightarrow> gpointer \<Rightarrow> gint" where
  "end_begin_cmp sops e b = (if e = 0 \<or> b = 0 then 1 else sop_cmp sops e b)"

definition begin_begin_cmp :: "slice_ops \<Rightarrow> gpointer \<Rightarrow> gpointer \<Rightarrow> gint" where
  "begin_begin_cmp sops b1 b2 =
     (if b1 = 0 \<and> b2 = 0 then 0 else if b1 = 0 then -1 else if b2 = 0 then 1
      else sop_cmp sops b1 b2)"

definition end_end_cmp :: "slice_ops \<Rightarrow> gpointer \<Rightarrow> gpointer \<Rightarrow> gint" where
  "end_end_cmp sops e1 e2 =
     (if e1 = 0 \<and> e2 = 0 then 0 else if e1 = 0 then 1 else if e2 = 0 then -1
      else sop_cmp sops e1 e2)"

definition slice_cmp :: "slice \<Rightarrow> slice \<Rightarrow> slice_ops \<Rightarrow> gint" where
  "slice_cmp a b sops =
     (if end_begin_cmp sops (s_end a) (s_begin b) < 0 then -1
      else if begin_end_cmp sops (s_begin a) (s_end b) > 0 then 1
      else 0)"

definition slice_cmp_point :: "slice \<Rightarrow> gpointer \<Rightarrow> slice_ops \<Rightarrow> gint" where
  "slice_cmp_point sl point sops =
     (if s_begin sl \<noteq> 0 \<and> sop_cmp sops point (s_begin sl) < 0 then 1
      else if s_end sl \<noteq> 0 \<and> sop_cmp sops (s_end sl) point < 0 then -1
      else 0)"

text \<open>
  \<open>slice_cross\<close> receives an array of three pointers, NULL for a part the caller does not
  want, and leaves NULL for a part that does not exist: the flags say which parts are
  wanted, the result holds the part of \<open>a\<close> before \<open>b\<close>, the common part and the part
  after.
\<close>

definition slice_cross ::
  "slice_ops \<Rightarrow> slice \<Rightarrow> slice \<Rightarrow> bool \<times> bool \<times> bool
     \<Rightarrow> slice option \<times> slice option \<times> slice option" where
  "slice_cross sops a b want =
     (case want of (w0, w1, w2) \<Rightarrow>
        if slice_cmp a b sops \<noteq> 0 then (None, None, None)
        else
          (let (bg, p0) =
                 (if begin_begin_cmp sops (s_begin a) (s_begin b) \<ge> 0 then (s_begin a, None)
                  else (s_begin b,
                        if w0 then Some \<lparr>s_begin = sop_dup sops (s_begin a),
                                         s_end = sop_dec sops (sop_dup sops (s_begin b))\<rparr>
                        else None));
               (en, p2) =
                 (if end_end_cmp sops (s_end b) (s_end a) \<ge> 0 then (s_end a, None)
                  else (s_end b,
                        if w2 then Some \<lparr>s_begin = sop_inc sops (sop_dup sops (s_end b)),
                                         s_end = sop_dup sops (s_end a)\<rparr>
                        else None));
               p1 = (if w1 then Some \<lparr>s_begin = sop_dup sops bg, s_end = sop_dup sops en\<rparr> else None)
           in (p0, p1, p2)))"

subsection \<open>Times and addresses as keys\<close>

definition TIME_TO_POINTER :: "time_t \<Rightarrow> gpointer" where
  "TIME_TO_POINTER t = word_of_int t"

definition GPOINTER_TO_TIME :: "gpointer \<Rightarrow> time_t" where
  "GPOINTER_TO_TIME p = sint p"

definition IPV4_TO_POINTER :: "ipv4_t \<Rightarrow> gpointer" where
  "IPV4_TO_POINTER i = ucast i"

definition GPOINTER_TO_IPV4 :: "gpointer \<Rightarrow> ipv4_t" where
  "GPOINTER_TO_IPV4 p = ucast p"

text \<open>The difference of two times is returned as a \<open>gint\<close>, which truncates it.\<close>

definition time_cmp :: "gpointer \<Rightarrow> gpointer \<Rightarrow> gint" where
  "time_cmp a b = to_gint (GPOINTER_TO_TIME a - GPOINTER_TO_TIME b)"

definition time_inc :: "gpointer \<Rightarrow> gpointer" where
  "time_inc p = TIME_TO_POINTER (GPOINTER_TO_TIME p + 1)"

definition time_dec :: "gpointer \<Rightarrow> gpointer" where
  "time_dec p =
     (let t = GPOINTER_TO_TIME p; t = (if t > 0 then t - 1 else t) in TIME_TO_POINTER t)"

definition time_ops :: slice_ops where
  "time_ops = \<lparr>sop_cmp = time_cmp, sop_dup = slicer_dup_dummy,
               sop_inc = time_inc, sop_dec = time_dec\<rparr>"

definition inet_cmp :: "gpointer \<Rightarrow> gpointer \<Rightarrow> gint" where
  "inet_cmp a b =
     (let ip1 = GPOINTER_TO_IPV4 a; ip2 = GPOINTER_TO_IPV4 b
      in if ip1 < ip2 then -1 else if ip1 > ip2 then 1 else 0)"

definition inet_inc :: "gpointer \<Rightarrow> gpointer" where
  "inet_inc p =
     (let ip = GPOINTER_TO_IPV4 p; ip = (if ip < 0xffffffff then ip + 1 else ip)
      in IPV4_TO_POINTER ip)"

definition inet_dec :: "gpointer \<Rightarrow> gpointer" where
  "inet_dec p =
     (let ip = GPOINTER_TO_IPV4 p; ip = (if ip > 0 then ip - 1 else ip)
      in IPV4_TO_POINTER ip)"

definition inet_ops :: slice_ops where
  "inet_ops = \<lparr>sop_cmp = inet_cmp, sop_dup = slicer_dup_dummy,
               sop_inc = inet_inc, sop_dec = inet_dec\<rparr>"

section \<open>The keys a slice holds\<close>

definition slice_mem :: "slice \<Rightarrow> nat \<Rightarrow> bool" where
  "slice_mem s x \<longleftrightarrow> (s_begin s = 0 \<or> unat (s_begin s) \<le> x) \<and> (s_end s = 0 \<or> x \<le> unat (s_end s))"

text \<open>A slice whose ends are keys below the limit and in order.\<close>

definition slice_ok :: "nat \<Rightarrow> slice \<Rightarrow> bool" where
  "slice_ok lim s \<longleftrightarrow> unat (s_begin s) < lim \<and> unat (s_end s) < lim \<and>
     (s_begin s = 0 \<or> s_end s = 0 \<or> s_begin s \<le> s_end s)"

lemma slice_mem_begin_le: "slice_mem s x \<Longrightarrow> unat (s_begin s) \<le> x"
  by (auto simp: slice_mem_def)

section \<open>The interface of a key table\<close>

locale key_order =
  fixes ops :: slice_ops and lim :: nat
  assumes cmp_sgn: "unat a < lim \<Longrightarrow> unat b < lim \<Longrightarrow>
      sgn (sop_cmp ops a b) = sgn (int (unat a) - int (unat b))"
    and inc_unat: "Suc (unat k) < lim \<Longrightarrow> unat (sop_inc ops k) = Suc (unat k)"
    and dec_unat: "unat k < lim \<Longrightarrow> 0 < unat k \<Longrightarrow> unat (sop_dec ops k) = unat k - 1"
    and dup_id: "sop_dup ops k = k"
begin

lemma cmp_less: "unat a < lim \<Longrightarrow> unat b < lim \<Longrightarrow> sop_cmp ops a b < 0 \<longleftrightarrow> unat a < unat b"
  using cmp_sgn [of a b] by (auto simp: sgn_if simp del: of_nat_unat split: if_splits)

lemma cmp_greater: "unat a < lim \<Longrightarrow> unat b < lim \<Longrightarrow> 0 < sop_cmp ops a b \<longleftrightarrow> unat b < unat a"
  using cmp_sgn [of a b] by (auto simp: sgn_if simp del: of_nat_unat split: if_splits)

lemma cmp_ge: "unat a < lim \<Longrightarrow> unat b < lim \<Longrightarrow> 0 \<le> sop_cmp ops a b \<longleftrightarrow> unat b \<le> unat a"
  using cmp_less [of a b] by linarith

lemma slice_cmp_before:
  assumes "slice_ok lim a" and "slice_ok lim b"
  shows "slice_cmp a b ops < 0 \<longleftrightarrow> s_end a \<noteq> 0 \<and> unat (s_end a) < unat (s_begin b)"
  using assms
  by (auto simp: slice_cmp_def end_begin_cmp_def begin_end_cmp_def slice_ok_def cmp_less)

lemma slice_cmp_after:
  assumes "slice_ok lim a" and "slice_ok lim b"
  shows "0 < slice_cmp a b ops \<longleftrightarrow> s_end b \<noteq> 0 \<and> unat (s_end b) < unat (s_begin a)"
  using assms
  by (auto simp: slice_cmp_def end_begin_cmp_def begin_end_cmp_def slice_ok_def cmp_less cmp_greater
      word_le_nat_alt)

text \<open>A comparison yields 0 exactly when the slices have a key in common.\<close>

lemma slice_cmp_zero:
  assumes "slice_ok lim a" and "slice_ok lim b"
  shows "slice_cmp a b ops = 0 \<longleftrightarrow> (\<exists>x < lim. slice_mem a x \<and> slice_mem b x)"
proof -
  have "slice_cmp a b ops = 0 \<longleftrightarrow>
      (s_end a = 0 \<or> unat (s_begin b) \<le> unat (s_end a)) \<and>
      (s_end b = 0 \<or> unat (s_begin a) \<le> unat (s_end b))"
    using slice_cmp_before [OF assms] slice_cmp_after [OF assms] by linarith
  also have "\<dots> \<longleftrightarrow> (\<exists>x < lim. slice_mem a x \<and> slice_mem b x)" (is "?L \<longleftrightarrow> ?R")
  proof
    assume ?L
    with assms show ?R
      by (intro exI [of _ "max (unat (s_begin a)) (unat (s_begin b))"])
        (auto simp: slice_mem_def slice_ok_def word_le_nat_alt)
  next
    assume ?R
    then show ?L by (auto simp: slice_mem_def)
  qed
  finally show ?thesis .
qed

lemma slice_cmp_point_sgn:
  assumes "slice_ok lim s" and "unat k < lim"
  shows "slice_cmp_point s k ops = 0 \<longleftrightarrow> slice_mem s (unat k)"
    and "slice_cmp_point s k ops > 0 \<longleftrightarrow> unat k < unat (s_begin s)"
  using assms
  by (auto simp: slice_cmp_point_def slice_mem_def slice_ok_def cmp_less word_le_nat_alt)

end

text \<open>
  Both key tables satisfy the interface: times below $2^{31}$ seconds (beyond that the
  truncated difference may have the wrong sign) and all addresses.
\<close>

lemma uint_less_of_unat: "unat (p :: gpointer) < 2 ^ 31 \<Longrightarrow> uint p < 2 ^ 31"
  by (simp add: uint_nat del: of_nat_unat)

lemma sint_small: "unat (p :: gpointer) < 2 ^ 31 \<Longrightarrow> sint p = int (unat p)"
proof -
  assume "unat p < 2 ^ 31"
  with uint_less_of_unat [of p] have "- (2 ^ 63) \<le> uint p" "uint p < 2 ^ 63"
    using order_trans [of "- (2 ^ 63)" 0 "uint p"] by simp_all
  then show ?thesis by (simp add: sint_uint signed_take_bit_int_eq_self)
qed

lemma unat_word_of_int_small: "0 \<le> i \<Longrightarrow> i < 2 ^ 64 \<Longrightarrow> unat (word_of_int i :: gpointer) = nat i"
  by (simp add: unsigned_of_int take_bit_int_eq_self)

interpretation time_keys: key_order time_ops "2 ^ 31"
proof
  fix a b k :: gpointer
  show "sgn (sop_cmp time_ops a b) = sgn (int (unat a) - int (unat b))"
    if "unat a < 2 ^ 31" "unat b < 2 ^ 31"
    using that by (simp add: time_ops_def time_cmp_def GPOINTER_TO_TIME_def sint_small
        del: of_nat_unat)
  show "unat (sop_inc time_ops k) = Suc (unat k)" if "Suc (unat k) < 2 ^ 31"
    using that by (simp add: time_ops_def time_inc_def GPOINTER_TO_TIME_def TIME_TO_POINTER_def
        sint_small unat_word_of_int_small nat_add_distrib del: of_nat_unat of_int_add)
  show "unat (sop_dec time_ops k) = unat k - 1" if "unat k < 2 ^ 31" "0 < unat k"
    using that by (simp add: time_ops_def time_dec_def GPOINTER_TO_TIME_def TIME_TO_POINTER_def
        Let_def sint_small unat_word_of_int_small nat_diff_distrib del: of_nat_unat of_int_diff)
  show "sop_dup time_ops k = k" by (simp add: time_ops_def slicer_dup_dummy_def)
qed

lemma unat_to_ipv4: "unat (p :: gpointer) < 2 ^ 32 \<Longrightarrow> unat (GPOINTER_TO_IPV4 p) = unat p"
  by (simp add: GPOINTER_TO_IPV4_def unsigned_ucast_eq take_bit_nat_eq_self)

lemma unat_of_ipv4 [simp]: "unat (IPV4_TO_POINTER i) = unat i"
  by (simp add: IPV4_TO_POINTER_def unsigned_ucast_eq take_bit_nat_eq_self
      order.strict_trans [OF unsigned_less])

interpretation inet_keys: key_order inet_ops "2 ^ 32"
proof
  fix a b k :: gpointer
  show "sgn (sop_cmp inet_ops a b) = sgn (int (unat a) - int (unat b))"
    if "unat a < 2 ^ 32" "unat b < 2 ^ 32"
    using that by (simp add: inet_ops_def inet_cmp_def Let_def word_less_nat_alt unat_to_ipv4
        sgn_if del: of_nat_unat)
  show "unat (sop_inc inet_ops k) = Suc (unat k)" if "Suc (unat k) < 2 ^ 32"
    using that by (simp add: inet_ops_def inet_inc_def Let_def word_less_nat_alt unat_to_ipv4
        unat_word_ariths)
  show "unat (sop_dec inet_ops k) = unat k - 1" if "unat k < 2 ^ 32" "0 < unat k"
  proof -
    have "0 < GPOINTER_TO_IPV4 k" using that by (simp add: word_less_nat_alt unat_to_ipv4)
    with that show ?thesis
      by (simp add: inet_ops_def inet_dec_def Let_def unat_minus_one unat_to_ipv4)
  qed
  show "sop_dup inet_ops k = k" by (simp add: inet_ops_def slicer_dup_dummy_def)
qed

section \<open>Tilings\<close>

lemma slice_mem_alt: "slice_mem s x \<longleftrightarrow> unat (s_begin s) \<le> x \<and> (s_end s = 0 \<or> x \<le> unat (s_end s))"
  by (auto simp: slice_mem_def)

text \<open>
  \<open>tiles E lo ss\<close>: the slices cover the keys from \<open>lo\<close> to the end \<open>E\<close> (NULL for no end),
  each starting where the one before stops. This is the shape of a slicer's queue.
\<close>

fun tiles :: "gpointer \<Rightarrow> nat \<Rightarrow> slice list \<Rightarrow> bool" where
  "tiles E lo [] \<longleftrightarrow> False"
| "tiles E lo [s] \<longleftrightarrow> unat (s_begin s) = lo \<and> s_end s = E \<and> (E = 0 \<or> lo \<le> unat E)"
| "tiles E lo (s # t # ts) \<longleftrightarrow>
     unat (s_begin s) = lo \<and> s_end s \<noteq> 0 \<and> lo \<le> unat (s_end s) \<and>
     tiles E (Suc (unat (s_end s))) (t # ts)"

lemma tiles_Cons:
  "ts \<noteq> [] \<Longrightarrow> tiles E lo (s # ts) \<longleftrightarrow>
     unat (s_begin s) = lo \<and> s_end s \<noteq> 0 \<and> lo \<le> unat (s_end s) \<and>
     tiles E (Suc (unat (s_end s))) ts"
  by (cases ts) auto

lemma tiles_nonempty: "tiles E lo ss \<Longrightarrow> ss \<noteq> []"
  by auto

lemma tiles_append:
  "xs \<noteq> [] \<Longrightarrow> ys \<noteq> [] \<Longrightarrow>
     tiles E lo (xs @ ys) \<longleftrightarrow> (\<exists>m. m \<noteq> 0 \<and> tiles m lo xs \<and> tiles E (Suc (unat m)) ys)"
proof (induction xs arbitrary: lo)
  case (Cons s xs)
  show ?case
  proof (cases "xs = []")
    case True
    with Cons.prems show ?thesis by (auto simp: tiles_Cons)
  next
    case False
    with Cons show ?thesis by (auto simp: tiles_Cons)
  qed
qed simp

lemma tiles_begin: "tiles E lo (s # ss) \<Longrightarrow> unat (s_begin s) = lo"
  by (cases ss) auto

lemma tiles_last: "tiles E lo ss \<Longrightarrow> s_end (last ss) = E"
  by (induction E lo ss rule: tiles.induct) auto

lemma tiles_range: "tiles E lo ss \<Longrightarrow> E = 0 \<or> lo \<le> unat E"
  by (induction E lo ss rule: tiles.induct) auto

lemma tiles_mem_iff:
  "tiles E lo ss \<Longrightarrow> (\<exists>s \<in> set ss. slice_mem s x) \<longleftrightarrow> lo \<le> x \<and> (E = 0 \<or> x \<le> unat E)"
proof (induction E lo ss rule: tiles.induct)
  case (2 E lo s)
  then show ?case by (auto simp: slice_mem_def)
next
  case (3 E lo s t ts)
  then have IH: "(\<exists>s \<in> set (t # ts). slice_mem s x) \<longleftrightarrow> Suc (unat (s_end s)) \<le> x \<and> (E = 0 \<or> x \<le> unat E)"
    by simp
  have "E = 0 \<or> Suc (unat (s_end s)) \<le> unat E"
    using 3 tiles_range by auto
  moreover have "slice_mem s x \<longleftrightarrow> lo \<le> x \<and> x \<le> unat (s_end s)"
    using "3.prems" by (auto simp: slice_mem_def)
  moreover have "(\<exists>s' \<in> set (s # t # ts). slice_mem s' x) \<longleftrightarrow>
      slice_mem s x \<or> (\<exists>s \<in> set (t # ts). slice_mem s x)" by auto
  ultimately show ?case using IH "3.prems" by auto
qed simp

text \<open>Replacing one tile by tiles of the same extent keeps a tiling.\<close>

lemma tiles_replace:
  assumes "tiles E lo (xs @ s # ys)" and "tiles (s_end s) (unat (s_begin s)) ps"
  shows "tiles E lo (xs @ ps @ ys)"
proof -
  have ps: "ps \<noteq> []" using assms(2) by auto
  have mid: "tiles E l (ps @ ys)" if "tiles E l (s # ys)" for l
  proof (cases "ys = []")
    case True
    with that assms(2) show ?thesis by auto
  next
    case False
    with that assms(2) ps show ?thesis by (auto simp: tiles_Cons tiles_append)
  qed
  show ?thesis
  proof (cases "xs = []")
    case True
    with assms(1) mid show ?thesis by simp
  next
    case False
    with assms(1) mid ps show ?thesis by (auto simp: tiles_append)
  qed
qed

section \<open>Crossing two slices\<close>

text \<open>
  The slices a slicer can be changed on. \<open>slice_cross\<close> writes the key before \<open>s_begin b\<close> as
  the end of the left part, and that key is NULL when \<open>s_begin b\<close> is 1; it writes the key
  after \<open>s_end b\<close> as the begin of the right part, which must be a key. \<open>E\<close> is the end of
  the key space, NULL when it is open.
\<close>

definition cut_ok :: "nat \<Rightarrow> gpointer \<Rightarrow> slice \<Rightarrow> bool" where
  "cut_ok lim E b \<longleftrightarrow> slice_ok lim b \<and> s_begin b \<noteq> 1 \<and> (E \<noteq> 0 \<or> Suc (unat (s_end b)) < lim)"

definition opt_list :: "'a option \<Rightarrow> 'a list" where
  "opt_list x = (case x of None \<Rightarrow> [] | Some y \<Rightarrow> [y])"

lemma opt_list_simps [simp]: "opt_list None = []" "opt_list (Some y) = [y]"
  by (simp_all add: opt_list_def)

context key_order
begin

lemma begin_begin_ge:
  "unat b1 < lim \<Longrightarrow> unat b2 < lim \<Longrightarrow> 0 \<le> begin_begin_cmp ops b1 b2 \<longleftrightarrow> unat b2 \<le> unat b1"
  by (auto simp: begin_begin_cmp_def cmp_ge unat_eq_0)

lemma end_end_ge:
  "unat e1 < lim \<Longrightarrow> unat e2 < lim \<Longrightarrow>
     0 \<le> end_end_cmp ops e1 e2 \<longleftrightarrow> e1 = 0 \<or> e2 \<noteq> 0 \<and> unat e2 \<le> unat e1"
  by (auto simp: end_end_cmp_def cmp_ge)

text \<open>The parts, in terms of key order.\<close>

lemma slice_cross_eq:
  assumes "slice_ok lim a" and "slice_ok lim b" and "slice_cmp a b ops = 0"
  shows "slice_cross ops a b (True, True, True) =
     (if unat (s_begin b) \<le> unat (s_begin a) then None
      else Some \<lparr>s_begin = s_begin a, s_end = sop_dec ops (s_begin b)\<rparr>,
      Some \<lparr>s_begin = (if unat (s_begin b) \<le> unat (s_begin a) then s_begin a else s_begin b),
            s_end = (if s_end b = 0 \<or> s_end a \<noteq> 0 \<and> unat (s_end a) \<le> unat (s_end b)
                     then s_end a else s_end b)\<rparr>,
      if s_end b = 0 \<or> s_end a \<noteq> 0 \<and> unat (s_end a) \<le> unat (s_end b) then None
      else Some \<lparr>s_begin = sop_inc ops (s_end b), s_end = s_end a\<rparr>)"
  using assms
  by (simp add: slice_cross_def dup_id begin_begin_ge end_end_ge slice_ok_def)

lemma slice_cross_tiles:
  assumes a: "slice_ok lim a" and b: "cut_ok lim E b" and c: "slice_cmp a b ops = 0"
    and E: "s_end a = 0 \<Longrightarrow> E = 0"
  obtains l m r where "slice_cross ops a b (True, True, True) = (l, Some m, r)"
    and "tiles (s_end a) (unat (s_begin a)) (opt_list l @ m # opt_list r)"
    and "\<And>x. slice_mem m x \<longleftrightarrow> slice_mem a x \<and> slice_mem b x"
    and "\<And>s x. s \<in> set (opt_list l @ opt_list r) \<Longrightarrow> slice_mem s x \<Longrightarrow> slice_mem a x \<and> \<not> slice_mem b x"
    and "\<forall>s \<in> set (opt_list l @ m # opt_list r). slice_ok lim s"
proof -
  have ov: "s_end a = 0 \<or> unat (s_begin b) \<le> unat (s_end a)"
           "s_end b = 0 \<or> unat (s_begin a) \<le> unat (s_end b)"
    using slice_cmp_before [of a b] slice_cmp_after [of a b] a b c by (auto simp: cut_ok_def)
  have lims: "unat (s_begin a) < lim" "unat (s_end a) < lim" "unat (s_begin b) < lim" "unat (s_end b) < lim"
    "s_begin a = 0 \<or> s_end a = 0 \<or> unat (s_begin a) \<le> unat (s_end a)"
    "s_begin b = 0 \<or> s_end b = 0 \<or> unat (s_begin b) \<le> unat (s_end b)"
    using a b by (auto simp: slice_ok_def cut_ok_def word_le_nat_alt)
  let ?left = "\<not> unat (s_begin b) \<le> unat (s_begin a)"
  let ?right = "\<not> (s_end b = 0 \<or> s_end a \<noteq> 0 \<and> unat (s_end a) \<le> unat (s_end b))"
  let ?m = "\<lparr>s_begin = (if ?left then s_begin b else s_begin a),
              s_end = (if ?right then s_end b else s_end a)\<rparr>"
  let ?l = "if ?left then Some \<lparr>s_begin = s_begin a, s_end = sop_dec ops (s_begin b)\<rparr> else None"
  let ?r = "if ?right then Some \<lparr>s_begin = sop_inc ops (s_end b), s_end = s_end a\<rparr> else None"
  have decb: "unat (sop_dec ops (s_begin b)) = unat (s_begin b) - 1" "sop_dec ops (s_begin b) \<noteq> 0"
    if ?left
  proof -
    show d: "unat (sop_dec ops (s_begin b)) = unat (s_begin b) - 1"
      using that lims by (intro dec_unat) auto
    have "unat (s_begin b) \<noteq> 1"
      using b by (auto simp: cut_ok_def word_unat_eq_iff)
    with d that show "sop_dec ops (s_begin b) \<noteq> 0"
      by (auto simp: word_unat_eq_iff)
  qed
  have ince: "unat (sop_inc ops (s_end b)) = Suc (unat (s_end b))" "Suc (unat (s_end b)) < lim" if ?right
  proof -
    show i: "Suc (unat (s_end b)) < lim"
      using that E b lims by (auto simp: cut_ok_def)
    then show "unat (sop_inc ops (s_end b)) = Suc (unat (s_end b))" by (rule inc_unat)
  qed
  have ne: "unat k = 0 \<longleftrightarrow> k = 0" for k :: gpointer by (simp add: unat_eq_0)
  show ?thesis
  proof (rule that [of ?l ?m ?r])
    show "slice_cross ops a b (True, True, True) = (?l, Some ?m, ?r)"
      using slice_cross_eq [OF a _ c] b by (simp add: cut_ok_def)
    show "tiles (s_end a) (unat (s_begin a)) (opt_list ?l @ ?m # opt_list ?r)"
      using lims(5,6) ov decb ince by (cases ?left; cases ?right) (simp_all add: ne [symmetric], linarith+)
    show "slice_mem ?m x \<longleftrightarrow> slice_mem a x \<and> slice_mem b x" for x
      using lims(5,6) ov by (cases ?left; cases ?right) (auto simp: slice_mem_alt)
    show "slice_mem a x \<and> \<not> slice_mem b x"
      if "s \<in> set (opt_list ?l @ opt_list ?r)" "slice_mem s x" for s x
    proof -
      from that(1) consider ?left "s = \<lparr>s_begin = s_begin a, s_end = sop_dec ops (s_begin b)\<rparr>"
        | ?right "s = \<lparr>s_begin = sop_inc ops (s_end b), s_end = s_end a\<rparr>"
        by (auto simp: opt_list_def split: if_splits option.splits)
      then show ?thesis
      proof cases
        case 1
        with that(2) decb ov(1) show ?thesis by (auto simp: slice_mem_alt)
      next
        case 2
        with that(2) ince ov(2) show ?thesis by (auto simp: slice_mem_alt)
      qed
    qed
    show "\<forall>s \<in> set (opt_list ?l @ ?m # opt_list ?r). slice_ok lim s"
      using lims ov decb ince by (cases ?left; cases ?right) (auto simp: slice_ok_def word_le_nat_alt)
  qed
qed

end

end
