(* ===== verification/Slicer.thy ===== *)
theory Slicer
  imports Slice
begin

text \<open>
  The slicer of \<open>mbbd/slicer.c\<close>: a queue of consecutive slices, each with a datum or
  NULL, that is split where an insertion or a deletion begins and ends. The queue is a
  list; a \<open>GList\<close> position in it is a split of the list. The balanced tree over the same
  nodes (GLib's \<open>GTree\<close>, kept in step with the queue by every function that changes
  it) only serves to find a node, and which of several matching nodes it finds depends
  on its shape: it is the parameter \<open>tree\<close>, of which the code relies on
  \<open>tree_search_ok\<close>. The operations on data (\<open>slice_data_ops\<close>) may have effects of their
  own, a state of type \<open>'s\<close> that is passed through. A failed \<open>g_assert\<close> is \<open>None\<close>.
  Memory management has no counterpart: entries are values.
\<close>

section \<open>Definitions\<close>

record 'd slicer_entry =
  e_slice :: slice
  e_data :: "'d option"

record ('d, 'e, 's) slice_data_ops =
  sdo_add :: "'s \<Rightarrow> 'd option \<Rightarrow> 'e \<Rightarrow> 's \<times> 'd option"
  sdo_del :: "'s \<Rightarrow> 'd option \<Rightarrow> 'e \<Rightarrow> 's \<times> 'd option"
  sdo_dup :: "'s \<Rightarrow> 'd option \<Rightarrow> 's \<times> 'd option"
  sdo_free :: "('s \<Rightarrow> 'd \<Rightarrow> 's) option"
  sdo_is_null :: "('d option \<Rightarrow> bool) option"

record ('d, 'e, 's) slicer =
  queue :: "'d slicer_entry list"
  count :: gint
  sops :: slice_ops
  sdops :: "('d, 'e, 's) slice_data_ops"

text \<open>
  Searching the tree: the comparison of the searched key with a node (negative: go left,
  positive: go right) and the nodes' slices in order; the result is a node's position.
\<close>

type_synonym tree_search = "(slice \<Rightarrow> gint) \<Rightarrow> slice list \<Rightarrow> nat option"

definition slicer_new ::
  "slice_ops \<Rightarrow> ('d, 'e, 's) slice_data_ops \<Rightarrow> ('d, 'e, 's) slicer" where
  "slicer_new so sd = \<lparr>queue = [], count = 0, sops = so, sdops = sd\<rparr>"

definition slicer_init ::
  "('d, 'e, 's) slicer \<Rightarrow> 's \<Rightarrow> 'd option \<Rightarrow> gpointer \<Rightarrow> gpointer \<Rightarrow> 's \<times> ('d, 'e, 's) slicer" where
  "slicer_init sl s data b e =
     (if length (queue sl) = 0
      then (let b = (if b \<noteq> 0 then sop_dup (sops sl) b else b);
                e = (if e \<noteq> 0 then sop_dup (sops sl) e else e);
                (s, data) = (if data \<noteq> None then sdo_dup (sdops sl) s data else (s, data))
            in (s, sl\<lparr>queue := [\<lparr>e_slice = \<lparr>s_begin = b, s_end = e\<rparr>, e_data = data\<rparr>]\<rparr>))
      else (s, sl))"

definition slicer_entry_free ::
  "('d, 'e, 's) slice_data_ops \<Rightarrow> 's \<times> gint \<Rightarrow> 'd slicer_entry \<Rightarrow> 's \<times> gint" where
  "slicer_entry_free sd sc entry =
     (case (sc, e_data entry) of
        ((s, cnt), None) \<Rightarrow> (s, cnt)
      | ((s, cnt), Some d) \<Rightarrow>
          ((case sdo_free sd of None \<Rightarrow> s | Some free \<Rightarrow> free s d), cnt - 1))"

definition slicer_destroy :: "('d, 'e, 's) slicer \<Rightarrow> 's \<Rightarrow> 's" where
  "slicer_destroy sl s =
     fst (foldl (slicer_entry_free (sdops sl)) (s, count sl) (queue sl))"

subsection \<open>Insertion and deletion\<close>

definition insert_dup ::
  "('d, 'e, 's) slice_data_ops \<Rightarrow> 's \<times> gint \<Rightarrow> 'd option \<Rightarrow> slice
     \<Rightarrow> ('s \<times> gint) \<times> 'd slicer_entry" where
  "insert_dup sd sc data sl =
     (case sc of (s, cnt) \<Rightarrow>
        let (s, data) = sdo_dup sd s data
        in ((s, if data \<noteq> None then cnt + 1 else cnt), \<lparr>e_slice = sl, e_data = data\<rparr>))"

definition insert_add ::
  "('d, 'e, 's) slice_data_ops \<Rightarrow> 's \<times> gint \<Rightarrow> 'd option \<Rightarrow> 'e \<Rightarrow> slice
     \<Rightarrow> ('s \<times> gint) \<times> 'd slicer_entry" where
  "insert_add sd sc cur_data new_data sl =
     (case sc of (s, cnt) \<Rightarrow>
        let (s, data) = sdo_dup sd s cur_data;
            (s, data) = sdo_add sd s data new_data
        in ((s, cnt + 1), \<lparr>e_slice = sl, e_data = data\<rparr>))"

definition insert_del ::
  "('d, 'e, 's) slice_data_ops \<Rightarrow> 's \<times> gint \<Rightarrow> 'd option \<Rightarrow> 'e \<Rightarrow> slice
     \<Rightarrow> ('s \<times> gint) \<times> 'd slicer_entry" where
  "insert_del sd sc cur_data new_data sl =
     (case sc of (s, cnt) \<Rightarrow>
        let (s, data) = sdo_dup sd s cur_data;
            (s, data) = sdo_del sd s data new_data
        in ((s, if data \<noteq> None then cnt + 1 else cnt), \<lparr>e_slice = sl, e_data = data\<rparr>))"

type_synonym ('d, 'e, 's) op_func =
  "('d, 'e, 's) slice_data_ops \<Rightarrow> 's \<times> gint \<Rightarrow> 'd option \<Rightarrow> 'e \<Rightarrow> slice
     \<Rightarrow> ('s \<times> gint) \<times> 'd slicer_entry"

definition insert_part ::
  "('d, 'e, 's) slice_data_ops \<Rightarrow> 's \<times> gint \<Rightarrow> 'd option \<Rightarrow> slice option
     \<Rightarrow> ('s \<times> gint) \<times> 'd slicer_entry list" where
  "insert_part sd sc data part =
     (case part of
        None \<Rightarrow> (sc, [])
      | Some sl \<Rightarrow> (let (sc, en) = insert_dup sd sc data sl in (sc, [en])))"

text \<open>
  \<open>change_data\<close> on one node: \<open>None\<close> when the node's slice does not meet the new one (the
  source returns 0), otherwise the entries that replace the node, in queue order. The
  source asserts that the common part exists, which \<open>slice_cross\<close> guarantees here.
\<close>

definition change_data ::
  "slice_ops \<Rightarrow> ('d, 'e, 's) slice_data_ops \<Rightarrow> 'e \<Rightarrow> slice \<Rightarrow> ('d, 'e, 's) op_func
     \<Rightarrow> 's \<times> gint \<Rightarrow> 'd slicer_entry \<Rightarrow> (('s \<times> gint) \<times> 'd slicer_entry list) option" where
  "change_data so sd new_data new_slice func sc entry =
     (let cur_slice = e_slice entry; cur_data = e_data entry
      in if slice_cmp cur_slice new_slice so \<noteq> 0 then None
         else (case slice_cross so cur_slice new_slice (True, True, True) of
                 (_, None, _) \<Rightarrow> None
               | (s0, Some s1, s2) \<Rightarrow>
                   (let (sc, left) = insert_part sd sc cur_data s0;
                        (sc, mid) = func sd sc cur_data new_data s1;
                        (sc, right) = insert_part sd sc cur_data s2;
                        sc = slicer_entry_free sd sc entry
                    in Some (sc, left @ mid # right))))"

text \<open>
  The two loops of \<open>slicer_apply_change\<close>: from the node found to the end of the queue, and
  from its predecessor to the head (the list then holds the nodes nearest first).
\<close>

fun change_fwd ::
  "('c \<Rightarrow> 'n \<Rightarrow> ('c \<times> 'n list) option) \<Rightarrow> 'c \<Rightarrow> 'n list \<Rightarrow> 'c \<times> 'n list" where
  "change_fwd ch sc [] = (sc, [])"
| "change_fwd ch sc (e # es) =
     (case ch sc e of
        None \<Rightarrow> (sc, e # es)
      | Some (sc, new) \<Rightarrow> (let (sc, rest) = change_fwd ch sc es in (sc, new @ rest)))"

fun change_bwd ::
  "('c \<Rightarrow> 'n \<Rightarrow> ('c \<times> 'n list) option) \<Rightarrow> 'c \<Rightarrow> 'n list \<Rightarrow> 'c \<times> 'n list" where
  "change_bwd ch sc [] = (sc, [])"
| "change_bwd ch sc (e # es) =
     (case ch sc e of
        None \<Rightarrow> (sc, rev (e # es))
      | Some (sc, new) \<Rightarrow> (let (sc, front) = change_bwd ch sc es in (sc, front @ new)))"

definition slicer_apply_change ::
  "tree_search \<Rightarrow> ('d, 'e, 's) slicer \<Rightarrow> 's \<Rightarrow> 'e \<Rightarrow> gpointer \<Rightarrow> gpointer
     \<Rightarrow> ('d, 'e, 's) op_func \<Rightarrow> ('s \<times> ('d, 'e, 's) slicer) option" where
  "slicer_apply_change tree sl s data b e func =
     (let sli = \<lparr>s_begin = b, s_end = e\<rparr>;
          ch = change_data (sops sl) (sdops sl) data sli func
      in if begin_end_cmp (sops sl) b e > 0 then Some (s, sl)
         else (case tree (\<lambda>n. slice_cmp sli n (sops sl)) (map e_slice (queue sl)) of
                 None \<Rightarrow> None
               | Some i \<Rightarrow>
                   (let (sc, back) = change_fwd ch (s, count sl) (drop i (queue sl));
                        (sc, front) = change_bwd ch sc (rev (take i (queue sl)))
                    in Some (fst sc, sl\<lparr>queue := front @ back, count := snd sc\<rparr>))))"

definition slicer_insert ::
  "tree_search \<Rightarrow> ('d, 'e, 's) slicer \<Rightarrow> 's \<Rightarrow> 'e \<Rightarrow> gpointer \<Rightarrow> gpointer
     \<Rightarrow> ('s \<times> ('d, 'e, 's) slicer) option" where
  "slicer_insert tree sl s data b e = slicer_apply_change tree sl s data b e insert_add"

definition slicer_delete ::
  "tree_search \<Rightarrow> ('d, 'e, 's) slicer \<Rightarrow> 's \<Rightarrow> 'e \<Rightarrow> gpointer \<Rightarrow> gpointer
     \<Rightarrow> ('s \<times> ('d, 'e, 's) slicer) option" where
  "slicer_delete tree sl s data b e = slicer_apply_change tree sl s data b e insert_del"

subsection \<open>Traversal and lookup\<close>

text \<open>
  The callback of \<open>slicer_foreach\<close> may change the datum it is given in place; the slice is
  a copy.
\<close>

fun foreach_queue ::
  "('c \<Rightarrow> 'd \<Rightarrow> slice \<Rightarrow> 'c \<times> 'd) \<Rightarrow> 'c \<Rightarrow> 'd slicer_entry list \<Rightarrow> 'c \<times> 'd slicer_entry list" where
  "foreach_queue func c [] = (c, [])"
| "foreach_queue func c (en # es) =
     (case e_data en of
        None \<Rightarrow> (let (c, es) = foreach_queue func c es in (c, en # es))
      | Some d \<Rightarrow>
          (let (c, d) = func c d (e_slice en);
               (c, es) = foreach_queue func c es
           in (c, en\<lparr>e_data := Some d\<rparr> # es)))"

definition slicer_foreach ::
  "('d, 'e, 's) slicer \<Rightarrow> ('c \<Rightarrow> 'd \<Rightarrow> slice \<Rightarrow> 'c \<times> 'd) \<Rightarrow> 'c \<Rightarrow> 'c \<times> ('d, 'e, 's) slicer" where
  "slicer_foreach sl func c =
     (let (c, q) = foreach_queue func c (queue sl) in (c, sl\<lparr>queue := q\<rparr>))"

definition slicer_foreach_all ::
  "('d, 'e, 's) slicer \<Rightarrow> ('c \<Rightarrow> 'd option \<Rightarrow> slice \<Rightarrow> 'c) \<Rightarrow> 'c \<Rightarrow> 'c" where
  "slicer_foreach_all sl func c =
     foldl (\<lambda>c en. func c (e_data en) (e_slice en)) c (queue sl)"

text \<open>An iterator is the part of the queue still to visit.\<close>

definition slicer_iter_init :: "('d, 'e, 's) slicer option \<Rightarrow> 'd slicer_entry list" where
  "slicer_iter_init sl = (case sl of None \<Rightarrow> [] | Some sl \<Rightarrow> queue sl)"

definition slicer_iter_next ::
  "'d slicer_entry list \<Rightarrow> (('d option \<times> slice) \<times> 'd slicer_entry list) option" where
  "slicer_iter_next it =
     (case it of [] \<Rightarrow> None | en # rest \<Rightarrow> Some ((e_data en, e_slice en), rest))"

definition slicer_count :: "('d, 'e, 's) slicer \<Rightarrow> gint" where
  "slicer_count sl = count sl"

definition point_cmp_func :: "slice_ops \<Rightarrow> gpointer \<Rightarrow> slice \<Rightarrow> gint" where
  "point_cmp_func so point sl = - slice_cmp_point sl point so"

definition slicer_find :: "tree_search \<Rightarrow> ('d, 'e, 's) slicer \<Rightarrow> gpointer \<Rightarrow> 'd option" where
  "slicer_find tree sl point =
     (case tree (point_cmp_func (sops sl) point) (map e_slice (queue sl)) of
        None \<Rightarrow> None
      | Some i \<Rightarrow> e_data (queue sl ! i))"

text \<open>
  \<open>slicer_search\<close> returns the data that meet a slice; an empty result is the source's NULL
  queue, \<open>None\<close> the failed assertion.
\<close>

fun search_run :: "(slice \<Rightarrow> gint) \<Rightarrow> 'd slicer_entry list \<Rightarrow> 'd list" where
  "search_run cmp [] = []"
| "search_run cmp (en # es) =
     (if cmp (e_slice en) \<noteq> 0 then []
      else (case e_data en of None \<Rightarrow> search_run cmp es | Some d \<Rightarrow> d # search_run cmp es))"

definition slicer_search ::
  "tree_search \<Rightarrow> ('d, 'e, 's) slicer \<Rightarrow> gpointer \<Rightarrow> gpointer \<Rightarrow> 'd list option" where
  "slicer_search tree sl b e =
     (let sli = \<lparr>s_begin = b, s_end = e\<rparr>; cmp = (\<lambda>n. slice_cmp sli n (sops sl))
      in (case tree cmp (map e_slice (queue sl)) of
            None \<Rightarrow> None
          | Some i \<Rightarrow>
              (let found = (case e_data (queue sl ! i) of None \<Rightarrow> [] | Some d \<Rightarrow> [d]);
                   after = search_run cmp (drop (Suc i) (queue sl));
                   before = search_run cmp (rev (take i (queue sl)))
               in Some (rev before @ found @ after))))"

subsection \<open>Gluing empty neighbours\<close>

text \<open>
  \<open>slicer_glue\<close> on the nodes \<open>from\<close> to \<open>to\<close>; \<open>slicer_glue_null\<close> keeps the current run of null
  nodes, which is what its two pointers delimit (one node: \<open>to\<close> is NULL).
\<close>

definition slicer_glue ::
  "slice_ops \<Rightarrow> ('d, 'e, 's) slice_data_ops \<Rightarrow> 's \<times> gint \<Rightarrow> 'd slicer_entry list
     \<Rightarrow> ('s \<times> gint) \<times> 'd slicer_entry list" where
  "slicer_glue so sd sc run =
     (if length run \<le> 1 then (sc, run)
      else (let b = sop_dup so (s_begin (e_slice (hd run)));
                e = sop_dup so (s_end (e_slice (last run)));
                sc = foldl (slicer_entry_free sd) sc run
            in (sc, [\<lparr>e_slice = \<lparr>s_begin = b, s_end = e\<rparr>, e_data = None\<rparr>])))"

fun glue_loop ::
  "slice_ops \<Rightarrow> ('d, 'e, 's) slice_data_ops \<Rightarrow> ('d option \<Rightarrow> bool) \<Rightarrow> 's \<times> gint
     \<Rightarrow> 'd slicer_entry list \<Rightarrow> 'd slicer_entry list \<Rightarrow> ('s \<times> gint) \<times> 'd slicer_entry list" where
  "glue_loop so sd is_null sc run [] = slicer_glue so sd sc run"
| "glue_loop so sd is_null sc run (en # es) =
     (if is_null (e_data en) then glue_loop so sd is_null sc (run @ [en]) es
      else (let (sc, glued) = slicer_glue so sd sc run;
                (sc, rest) = glue_loop so sd is_null sc [] es
            in (sc, glued @ en # rest)))"

definition slicer_glue_null :: "('d, 'e, 's) slicer \<Rightarrow> 's \<Rightarrow> 's \<times> ('d, 'e, 's) slicer" where
  "slicer_glue_null sl s =
     (case sdo_is_null (sdops sl) of
        None \<Rightarrow> (s, sl)
      | Some is_null \<Rightarrow>
          (let ((s, cnt), q) = glue_loop (sops sl) (sdops sl) is_null (s, count sl) [] (queue sl)
           in (s, sl\<lparr>queue := q, count := cnt\<rparr>)))"

subsection \<open>The slicers of the program\<close>

definition time_slicer_new :: "('d, 'e, 's) slice_data_ops \<Rightarrow> 's \<Rightarrow> 's \<times> ('d, 'e, 's) slicer" where
  "time_slicer_new sd s = slicer_init (slicer_new time_ops sd) s None 0 0"

definition inet_slicer_new :: "('d, 'e, 's) slice_data_ops \<Rightarrow> 's \<Rightarrow> 's \<times> ('d, 'e, 's) slicer" where
  "inet_slicer_new sd s =
     slicer_init (slicer_new inet_ops sd) s None 0 (IPV4_TO_POINTER 0xffffffff)"

section \<open>What the code relies on of the tree\<close>

text \<open>
  GLib's tree search, given a comparison that goes from positive over zero to negative
  along the nodes in order, finds a node that compares as zero if there is one.
\<close>

definition tree_search_ok :: "tree_search \<Rightarrow> bool" where
  "tree_search_ok tree \<longleftrightarrow>
     (\<forall>cmp xs. sorted_wrt (\<lambda>x y. sgn (cmp y) \<le> sgn (cmp x)) xs \<longrightarrow>
        (case tree cmp xs of
           None \<Rightarrow> \<forall>x \<in> set xs. cmp x \<noteq> 0
         | Some i \<Rightarrow> i < length xs \<and> cmp (xs ! i) = 0))"

text \<open>A search that meets the requirement, for concrete evaluations.\<close>

fun linear_search :: tree_search where
  "linear_search cmp [] = None"
| "linear_search cmp (x # xs) =
     (if cmp x = 0 then Some 0 else map_option Suc (linear_search cmp xs))"

lemma linear_search_spec:
  "case linear_search cmp xs of
     None \<Rightarrow> \<forall>x \<in> set xs. cmp x \<noteq> 0
   | Some i \<Rightarrow> i < length xs \<and> cmp (xs ! i) = 0"
  by (induction xs) (auto split: option.splits)

lemma linear_search_ok [simp]: "tree_search_ok linear_search"
  unfolding tree_search_ok_def using linear_search_spec by blast

section \<open>The invariant and the abstraction\<close>

text \<open>
  The queue tiles the key space from its first key to its end \<open>E\<close>; the counter is the
  number of entries that hold data. Abstractly a slicer is a function from keys to data.
\<close>

definition slicer_inv :: "nat \<Rightarrow> gpointer \<Rightarrow> ('d, 'e, 's) slicer \<Rightarrow> bool" where
  "slicer_inv lim E sl \<longleftrightarrow> tiles E 0 (map e_slice (queue sl)) \<and>
     (\<forall>en \<in> set (queue sl). slice_ok lim (e_slice en))"

definition nonnull :: "'d slicer_entry list \<Rightarrow> int" where
  "nonnull q = int (length (filter (\<lambda>en. e_data en \<noteq> None) q))"

definition count_ok :: "('d, 'e, 's) slicer \<Rightarrow> bool" where
  "count_ok sl \<longleftrightarrow> count sl = nonnull (queue sl)"

definition queue_at :: "'d slicer_entry list \<Rightarrow> nat \<Rightarrow> 'd option" where
  "queue_at q x = (case find (\<lambda>en. slice_mem (e_slice en) x) q of None \<Rightarrow> None | Some en \<Rightarrow> e_data en)"

definition slicer_at :: "('d, 'e, 's) slicer \<Rightarrow> nat \<Rightarrow> 'd option" where
  "slicer_at sl x = queue_at (queue sl) x"

lemma nonnull_simps [simp]:
  "nonnull [] = 0"
  "nonnull (en # q) = (if e_data en = None then 0 else 1) + nonnull q"
  "nonnull (q @ r) = nonnull q + nonnull r"
  by (simp_all add: nonnull_def)

lemma nonnull_rev [simp]: "nonnull (rev q) = nonnull q"
  by (induction q) auto

section \<open>Tilings in order\<close>

definition before :: "slice \<Rightarrow> slice \<Rightarrow> bool" where
  "before s t \<longleftrightarrow> s_end s \<noteq> 0 \<and> unat (s_end s) < unat (s_begin t)"

lemma tiles_begin_ge: "tiles E lo ss \<Longrightarrow> s \<in> set ss \<Longrightarrow> lo \<le> unat (s_begin s)"
  by (induction E lo ss rule: tiles.induct) fastforce+

lemma tiles_sorted: "tiles E lo ss \<Longrightarrow> sorted_wrt before ss"
proof (induction E lo ss rule: tiles.induct)
  case (3 E lo s t ts)
  then have "before s u" if "u \<in> set (t # ts)" for u
    using that tiles_begin_ge [of E "Suc (unat (s_end s))" "t # ts" u] by (auto simp: before_def)
  with 3 show ?case by simp
qed auto

section \<open>The loops of an update\<close>

text \<open>
  A node is changed or not by what it is, and the unchanged nodes follow the changed ones
  in the direction of the loop. Then each loop replaces every changed node by the
  entries \<open>change_data\<close> gave for it, and nothing else; a property of the running state
  that cannot come back once lost holds at every step when it holds at the end.
\<close>

definition step_of :: "('c \<Rightarrow> bool) \<Rightarrow> ('c \<Rightarrow> 'n \<Rightarrow> ('c \<times> 'n list) option) \<Rightarrow> ('n \<Rightarrow> bool) \<Rightarrow> 'n \<Rightarrow> 'n list \<Rightarrow> bool" where
  "step_of P ch ov e ps \<longleftrightarrow>
     (if ov e then \<exists>sc sc'. P sc \<and> P sc' \<and> ch sc e = Some (sc', ps) else ps = [e])"

lemma change_fwd_none: "(\<And>sc e. e \<in> set es \<Longrightarrow> ch sc e = None) \<Longrightarrow> change_fwd ch sc es = (sc, es)"
  by (cases es) auto

lemma change_bwd_none: "(\<And>sc e. e \<in> set es \<Longrightarrow> ch sc e = None) \<Longrightarrow> change_bwd ch sc es = (sc, rev es)"
  by (cases es) auto

lemma list_all2_unchanged: "(\<And>e. e \<in> set es \<Longrightarrow> \<not> ov e) \<Longrightarrow> list_all2 (step_of P ch ov) es (map (\<lambda>e. [e]) es)"
  by (induction es) (auto simp: step_of_def)

lemma concat_map_single: "concat (map (\<lambda>e. [e]) es) = es"
  by (induction es) auto

lemma change_fwd_steps:
  assumes none: "\<And>sc e. ch sc e = None \<longleftrightarrow> \<not> ov e"
    and keep: "\<And>sc e sc' ps. ch sc e = Some (sc', ps) \<Longrightarrow> P sc' \<Longrightarrow> P sc"
  shows "sorted_wrt (\<lambda>e f. ov f \<longrightarrow> ov e) es \<Longrightarrow> change_fwd ch sc es = (sc', rest) \<Longrightarrow> P sc' \<Longrightarrow>
     P sc \<and> (\<exists>bs. rest = concat bs \<and> list_all2 (step_of P ch ov) es bs)"
proof (induction es arbitrary: sc rest)
  case (Cons e es)
  show ?case
  proof (cases "ov e")
    case True
    then obtain sc1 new where ch: "ch sc e = Some (sc1, new)" using none [of sc e] by auto
    with Cons.prems(2) obtain rest1 where r: "change_fwd ch sc1 es = (sc', rest1)" "rest = new @ rest1"
      by (auto split: prod.splits)
    with Cons.IH [OF _ r(1)] Cons.prems obtain bs where
      "P sc1" "rest1 = concat bs" "list_all2 (step_of P ch ov) es bs" by auto
    with True ch r keep [OF ch] show ?thesis
      by (intro conjI exI [of _ "new # bs"]) (auto simp: step_of_def [of P ch ov e])
  next
    case False
    then have no: "\<not> ov f" if "f \<in> set (e # es)" for f using that Cons.prems(1) by auto
    then have "change_fwd ch sc (e # es) = (sc, e # es)"
      by (intro change_fwd_none) (simp add: none)
    with Cons.prems no show ?thesis
      by (intro conjI exI [of _ "map (\<lambda>e. [e]) (e # es)"])
        (auto simp: concat_map_single intro: list_all2_unchanged simp del: list.map)
  qed
qed auto

lemma change_bwd_steps:
  assumes none: "\<And>sc e. ch sc e = None \<longleftrightarrow> \<not> ov e"
    and keep: "\<And>sc e sc' ps. ch sc e = Some (sc', ps) \<Longrightarrow> P sc' \<Longrightarrow> P sc"
  shows "sorted_wrt (\<lambda>e f. ov f \<longrightarrow> ov e) es \<Longrightarrow> change_bwd ch sc es = (sc', front) \<Longrightarrow> P sc' \<Longrightarrow>
     P sc \<and> (\<exists>bs. front = concat (rev bs) \<and> list_all2 (step_of P ch ov) es bs)"
proof (induction es arbitrary: sc front)
  case (Cons e es)
  show ?case
  proof (cases "ov e")
    case True
    then obtain sc1 new where ch: "ch sc e = Some (sc1, new)" using none [of sc e] by auto
    with Cons.prems(2) obtain f1 where r: "change_bwd ch sc1 es = (sc', f1)" "front = f1 @ new"
      by (auto split: prod.splits)
    with Cons.IH [OF _ r(1)] Cons.prems obtain bs where
      "P sc1" "f1 = concat (rev bs)" "list_all2 (step_of P ch ov) es bs" by auto
    with True ch r keep [OF ch] show ?thesis
      by (intro conjI exI [of _ "new # bs"]) (auto simp: step_of_def [of P ch ov e])
  next
    case False
    then have no: "\<not> ov f" if "f \<in> set (e # es)" for f using that Cons.prems(1) by auto
    then have "change_bwd ch sc (e # es) = (sc, rev (e # es))"
      by (intro change_bwd_none) (simp add: none)
    with Cons.prems no show ?thesis
      by (intro conjI exI [of _ "map (\<lambda>e. [e]) (e # es)"])
        (auto simp: concat_map_single rev_map intro: list_all2_unchanged simp del: list.map)
  qed
qed auto

section \<open>Replacing nodes by blocks\<close>

definition block_ok :: "nat \<Rightarrow> 'd slicer_entry \<Rightarrow> 'd slicer_entry list \<Rightarrow> bool" where
  "block_ok lim e ps \<longleftrightarrow>
     tiles (s_end (e_slice e)) (unat (s_begin (e_slice e))) (map e_slice ps) \<and>
     (\<forall>p \<in> set ps. slice_ok lim (e_slice p))"

lemma block_ok_nonempty: "block_ok lim e ps \<Longrightarrow> ps \<noteq> []"
  by (auto simp: block_ok_def)

lemma blocks_tiles:
  "list_all2 (block_ok lim) q bs \<Longrightarrow> tiles E lo (map e_slice q) \<Longrightarrow> tiles E lo (map e_slice (concat bs))"
proof (induction q bs arbitrary: lo rule: list_all2_induct)
  case (Cons e q ps bs)
  have ps: "tiles (s_end (e_slice e)) (unat (s_begin (e_slice e))) (map e_slice ps)" "ps \<noteq> []"
    using Cons.hyps(1) block_ok_nonempty by (auto simp: block_ok_def)
  show ?case
  proof (cases "q = []")
    case True
    with Cons ps show ?thesis by auto
  next
    case False
    with Cons.hyps obtain p ps' bs' where "bs = (p # ps') # bs'"
      using block_ok_nonempty by (cases bs; cases "hd bs") (auto simp: list_all2_Cons2)
    then have ne: "concat bs \<noteq> []" by simp
    from Cons.prems False have e: "unat (s_begin (e_slice e)) = lo" "s_end (e_slice e) \<noteq> 0"
        "tiles E (Suc (unat (s_end (e_slice e)))) (map e_slice q)"
      by (auto simp: tiles_Cons)
    with Cons.IH ps ne show ?thesis by (auto simp: tiles_append)
  qed
qed simp

lemma block_mem_iff:
  "block_ok lim e ps \<Longrightarrow> (\<exists>p \<in> set ps. slice_mem (e_slice p) x) \<longleftrightarrow> slice_mem (e_slice e) x"
  using tiles_mem_iff [of "s_end (e_slice e)" "unat (s_begin (e_slice e))" "map e_slice ps" x]
  by (auto simp: block_ok_def slice_mem_alt)

lemma find_concat_blocks:
  "list_all2 (\<lambda>e ps. block_ok lim e ps \<and> Q e ps) q bs \<Longrightarrow>
     find (\<lambda>en. slice_mem (e_slice en) x) q = Some e \<Longrightarrow>
     \<exists>ps. Q e ps \<and> find (\<lambda>en. slice_mem (e_slice en) x) (concat bs) =
                    find (\<lambda>en. slice_mem (e_slice en) x) ps"
proof (induction q bs rule: list_all2_induct)
  case (Cons e' q ps bs)
  have find_app: "find P (xs @ ys) = (case find P xs of None \<Rightarrow> find P ys | Some z \<Rightarrow> Some z)"
    for P xs and ys :: "'a slicer_entry list"
    by (induction xs) auto
  have blk: "(\<exists>p \<in> set ps. slice_mem (e_slice p) x) \<longleftrightarrow> slice_mem (e_slice e') x"
    using Cons.hyps(1) block_mem_iff by blast
  show ?case
  proof (cases "slice_mem (e_slice e') x")
    case True
    with blk have "find (\<lambda>en. slice_mem (e_slice en) x) ps \<noteq> None"
      by (auto simp: find_None_iff)
    with True Cons show ?thesis by (auto simp: find_app)
  next
    case False
    with blk have "find (\<lambda>en. slice_mem (e_slice en) x) ps = None"
      by (auto simp: find_None_iff)
    with False Cons show ?thesis by (auto simp: find_app)
  qed
qed simp

lemma queue_at_found:
  "p \<in> set q \<Longrightarrow> slice_mem (e_slice p) x \<Longrightarrow>
     \<exists>p \<in> set q. slice_mem (e_slice p) x \<and> queue_at q x = e_data p"
  by (induction q) (auto simp: queue_at_def)

section \<open>Changing one node\<close>

text \<open>
  The data operations as the slicer uses them: \<open>func\<close> duplicates the datum, applies
  \<open>val\<close> to it and adjusts the counter. The laws: duplicating keeps the value, and a
  property \<open>P\<close> of the state that is lost once is lost for good.
\<close>

definition func_is ::
  "('d, 'e, 's) slice_data_ops \<Rightarrow> ('d, 'e, 's) op_func \<Rightarrow> 'e \<Rightarrow> ('s \<Rightarrow> 'd option \<Rightarrow> 's \<times> 'd option) \<Rightarrow> bool" where
  "func_is sd func new val \<longleftrightarrow>
     (\<forall>s cnt cur sl. \<exists>cnt'. func sd (s, cnt) cur new sl =
        ((fst (val (fst (sdo_dup sd s cur)) (snd (sdo_dup sd s cur))), cnt'),
         \<lparr>e_slice = sl, e_data = snd (val (fst (sdo_dup sd s cur)) (snd (sdo_dup sd s cur)))\<rparr>))"

lemma insert_add_is: "func_is sd insert_add new (\<lambda>s d. sdo_add sd s d new)"
  by (auto simp: func_is_def insert_add_def Let_def split: prod.splits)

lemma insert_del_is: "func_is sd insert_del new (\<lambda>s d. sdo_del sd s d new)"
  by (auto simp: func_is_def insert_del_def Let_def split: prod.splits)

definition data_laws :: "('d, 'e, 's) slice_data_ops \<Rightarrow> ('s \<Rightarrow> 'd option \<Rightarrow> 's \<times> 'd option) \<Rightarrow> ('s \<Rightarrow> bool) \<Rightarrow> bool" where
  "data_laws sd val P \<longleftrightarrow>
     (\<forall>s d. snd (sdo_dup sd s d) = d \<and> (P (fst (sdo_dup sd s d)) \<longrightarrow> P s)) \<and>
     (\<forall>s d. P (fst (val s d)) \<longrightarrow> P s) \<and>
     (\<forall>free s d. sdo_free sd = Some free \<longrightarrow> P (free s d) \<longrightarrow> P s)"

lemma data_lawsD:
  assumes "data_laws sd val P"
  shows "snd (sdo_dup sd s d) = d" and "P (fst (sdo_dup sd s d)) \<Longrightarrow> P s"
    and "P (fst (val s d)) \<Longrightarrow> P s" and "sdo_free sd = Some free \<Longrightarrow> P (free s x) \<Longrightarrow> P s"
  using assms unfolding data_laws_def by blast+

lemma insert_part_simps [simp]:
  "insert_part sd sc data None = (sc, [])"
  "insert_part sd (s, cnt) data (Some sl) =
     ((fst (sdo_dup sd s data), if snd (sdo_dup sd s data) \<noteq> None then cnt + 1 else cnt),
      [\<lparr>e_slice = sl, e_data = snd (sdo_dup sd s data)\<rparr>])"
  by (simp_all add: insert_part_def insert_dup_def Let_def case_prod_unfold)

lemma insert_part_keeps:
  assumes laws: "data_laws sd val P" and ins: "insert_part sd sc data part = (sc', ps)"
  shows "map e_slice ps = opt_list part" and "\<forall>p \<in> set ps. e_data p = data" and "P (fst sc') \<Longrightarrow> P (fst sc)"
proof -
  obtain s cnt where sc: "sc = (s, cnt)" by (cases sc)
  note dup = data_lawsD(1,2) [OF laws, of s data]
  show "map e_slice ps = opt_list part" "\<forall>p \<in> set ps. e_data p = data" "P (fst sc') \<Longrightarrow> P (fst sc)"
    using ins dup by (cases part; auto simp: sc)+
qed

lemma slicer_entry_free_keeps:
  "data_laws sd val P \<Longrightarrow> P (fst (slicer_entry_free sd sc en)) \<Longrightarrow> P (fst sc)"
  using data_lawsD(4) [of sd val P]
  by (cases sc) (auto simp: slicer_entry_free_def split: option.splits)

context key_order
begin

lemma change_data_none:
  assumes "slice_ok lim (e_slice e)" and "slice_ok lim b"
  shows "change_data ops sd new b func sc e = None \<longleftrightarrow> slice_cmp (e_slice e) b ops \<noteq> 0"
proof (cases "slice_cmp (e_slice e) b ops = 0")
  case True
  with slice_cross_eq [OF assms True] show ?thesis
    by (simp add: change_data_def Let_def case_prod_unfold)
next
  case False
  then show ?thesis by (simp add: change_data_def)
qed

lemma change_data_block:
  assumes e: "slice_ok lim (e_slice e)" and b: "cut_ok lim E b"
    and E: "s_end (e_slice e) = 0 \<Longrightarrow> E = 0"
    and laws: "data_laws sd val P" and func: "func_is sd func new val"
    and ch: "change_data ops sd new b func sc e = Some (sc', ps)"
  shows "block_ok lim e ps"
    and "P (fst sc') \<Longrightarrow> P (fst sc)"
    and "slice_mem (e_slice e) x \<Longrightarrow> \<not> slice_mem b x \<Longrightarrow> queue_at ps x = e_data e"
    and "slice_mem (e_slice e) x \<Longrightarrow> slice_mem b x \<Longrightarrow> P (fst sc') \<Longrightarrow>
           \<exists>s. P s \<and> P (fst (val s (e_data e))) \<and> queue_at ps x = snd (val s (e_data e))"
proof -
  have c: "slice_cmp (e_slice e) b ops = 0" using ch by (auto simp: change_data_def Let_def split: if_splits)
  obtain l m r where cr: "slice_cross ops (e_slice e) b (True, True, True) = (l, Some m, r)"
    and t: "tiles (s_end (e_slice e)) (unat (s_begin (e_slice e))) (opt_list l @ m # opt_list r)"
    and mm: "\<And>x. slice_mem m x \<longleftrightarrow> slice_mem (e_slice e) x \<and> slice_mem b x"
    and out: "\<And>s x. s \<in> set (opt_list l @ opt_list r) \<Longrightarrow> slice_mem s x \<Longrightarrow> slice_mem (e_slice e) x \<and> \<not> slice_mem b x"
    and ok: "\<forall>s \<in> set (opt_list l @ m # opt_list r). slice_ok lim s"
    using slice_cross_tiles [OF e b c E] by metis
  obtain sc1 left sc2 mid sc3 right where
    p0: "insert_part sd sc (e_data e) l = (sc1, left)" and
    p1: "func sd sc1 (e_data e) new m = (sc2, mid)" and
    p2: "insert_part sd sc2 (e_data e) r = (sc3, right)" and
    res: "ps = left @ mid # right" "sc' = slicer_entry_free sd sc3 e"
    using ch cr c by (auto simp: change_data_def Let_def split: prod.splits)
  obtain s1 c1 where sc1: "sc1 = (s1, c1)" by (cases sc1)
  note dup = data_lawsD(1,2) [OF laws, of s1 "e_data e"]
  let ?s = "fst (sdo_dup sd s1 (e_data e))"
  from func p1 dup(1) have mid: "mid = \<lparr>e_slice = m, e_data = snd (val ?s (e_data e))\<rparr>"
      "fst sc2 = fst (val ?s (e_data e))"
    unfolding func_is_def sc1 by (metis fst_conv prod.inject)+
  note val = data_lawsD(3) [OF laws]
  note left = insert_part_keeps [OF laws p0] and right = insert_part_keeps [OF laws p2]
  have slices: "map e_slice ps = opt_list l @ m # opt_list r"
    using res left right mid by simp
  show "block_ok lim e ps"
    using t ok slices unfolding block_ok_def by (metis image_eqI list.set_map)
  have P2: "P (fst sc') \<Longrightarrow> P (fst sc2)"
    using res(2) right(3) slicer_entry_free_keeps [OF laws] by blast
  then show "P (fst sc') \<Longrightarrow> P (fst sc)"
    using mid(2) val dup(2) left(3) sc1 by fastforce
  have sides: "e_data p = e_data e" "slice_mem (e_slice p) x \<Longrightarrow> \<not> slice_mem b x"
    if "p \<in> set (left @ right)" for p x
  proof -
    show "e_data p = e_data e" using that left(2) right(2) by auto
    have "e_slice p \<in> set (opt_list l @ opt_list r)"
      using that left(1) right(1) by (metis image_eqI list.set_map map_append)
    then show "slice_mem (e_slice p) x \<Longrightarrow> \<not> slice_mem b x" using out by blast
  qed
  have found: "\<exists>p \<in> set ps. slice_mem (e_slice p) x \<and> queue_at ps x = e_data p"
    if "slice_mem (e_slice e) x"
    using that block_mem_iff [OF \<open>block_ok lim e ps\<close>] queue_at_found by blast
  show "slice_mem (e_slice e) x \<Longrightarrow> \<not> slice_mem b x \<Longrightarrow> queue_at ps x = e_data e"
    using found sides(1) mm mid(1) res(1) by fastforce
  show "\<exists>s. P s \<and> P (fst (val s (e_data e))) \<and> queue_at ps x = snd (val s (e_data e))"
    if "slice_mem (e_slice e) x" "slice_mem b x" "P (fst sc')"
  proof -
    from found that sides(2) res(1) have "queue_at ps x = e_data mid" by fastforce
    with mid P2 that(3) val show ?thesis by (intro exI [of _ ?s]) auto
  qed
qed

end

section \<open>Updates\<close>

lemma slice_cross_mid: "\<exists>l m r. slice_cross so a b (True, True, True) = (l, m, r) \<and> (m = None \<longleftrightarrow> slice_cmp a b so \<noteq> 0)"
  by (auto simp: slice_cross_def Let_def)

lemma change_data_none_iff: "change_data so sd new b func sc e = None \<longleftrightarrow> slice_cmp (e_slice e) b so \<noteq> 0"
  using slice_cross_mid [of so "e_slice e" b]
  by (auto simp: change_data_def Let_def split: prod.splits option.splits)

lemma change_data_keeps:
  assumes laws: "data_laws sd val P" and func: "func_is sd func new val"
    and ch: "change_data so sd new b func sc e = Some (sc', ps)" and P: "P (fst sc')"
  shows "P (fst sc)"
proof -
  obtain l m r sc1 left sc2 mid sc3 right where
    p0: "insert_part sd sc (e_data e) l = (sc1, left)" and
    p1: "func sd sc1 (e_data e) new m = (sc2, mid)" and
    p2: "insert_part sd sc2 (e_data e) r = (sc3, right)" and
    res: "sc' = slicer_entry_free sd sc3 e"
    using ch by (auto simp: change_data_def Let_def split: prod.splits option.splits if_splits)
  have "P (fst sc2)"
    using P res slicer_entry_free_keeps [OF laws] insert_part_keeps(3) [OF laws p2] by blast
  moreover obtain s1 c1 where sc1: "sc1 = (s1, c1)" by (cases sc1)
  moreover from func p1 have "fst sc2 = fst (val (fst (sdo_dup sd s1 (e_data e))) (snd (sdo_dup sd s1 (e_data e))))"
    unfolding func_is_def sc1 by (metis fst_conv prod.inject)
  ultimately have "P s1" using data_lawsD(2,3) [OF laws] by metis
  with sc1 insert_part_keeps(3) [OF laws p0] show ?thesis by simp
qed

text \<open>The counter follows the number of entries that hold data.\<close>

definition counts :: "('d, 'e, 's) slice_data_ops \<Rightarrow> ('d, 'e, 's) op_func \<Rightarrow> 'e \<Rightarrow> bool" where
  "counts sd func new \<longleftrightarrow>
     (\<forall>s cnt cur sl. let r = func sd (s, cnt) cur new sl in snd (fst r) = cnt + nonnull [snd r])"

lemma insert_add_counts:
  "(\<And>s d. snd (sdo_add sd s d new) \<noteq> None) \<Longrightarrow> counts sd insert_add new"
  by (auto simp: counts_def insert_add_def Let_def case_prod_unfold)

lemma insert_del_counts: "counts sd insert_del new"
  by (auto simp: counts_def insert_del_def Let_def case_prod_unfold)

lemma change_data_counts:
  assumes "counts sd func new" and "change_data so sd new b func sc e = Some (sc', ps)"
  shows "snd sc' + nonnull [e] = snd sc + nonnull ps"
proof -
  have part: "insert_part sd sc d l = (sc1, es) \<Longrightarrow> snd sc1 = snd sc + nonnull es" for sc d l sc1 es
    by (cases sc; cases l) auto
  have free: "snd (slicer_entry_free sd sc e) = snd sc - nonnull [e]" for sc
    by (cases sc) (auto simp: slicer_entry_free_def split: option.splits)
  have fn: "func sd sc d new m = (sc1, en) \<Longrightarrow> snd sc1 = snd sc + nonnull [en]" for sc d m sc1 en
    using assms(1) by (cases sc) (metis counts_def fst_conv snd_conv)
  obtain l m r sc1 left sc2 mid sc3 right where
    p: "insert_part sd sc (e_data e) l = (sc1, left)" "func sd sc1 (e_data e) new m = (sc2, mid)"
      "insert_part sd sc2 (e_data e) r = (sc3, right)" and
    res: "sc' = slicer_entry_free sd sc3 e" "ps = left @ mid # right"
    using assms(2) by (auto simp: change_data_def Let_def split: prod.splits option.splits if_splits)
  show ?thesis
    using part [OF p(1)] fn [OF p(2)] part [OF p(3)] free [of sc3] res by simp
qed

lemma change_fwd_counts:
  assumes "\<And>sc e sc' ps. ch sc e = Some (sc', ps) \<Longrightarrow> snd sc' + nonnull [e] = snd sc + nonnull ps"
  shows "change_fwd ch sc es = (sc', rest) \<Longrightarrow> snd sc' + nonnull es = snd sc + nonnull rest"
proof (induction es arbitrary: sc rest)
  case (Cons e es)
  show ?case
  proof (cases "ch sc e")
    case (Some a)
    then obtain sc1 new rest1 where "ch sc e = Some (sc1, new)"
      and "change_fwd ch sc1 es = (sc', rest1)" "rest = new @ rest1"
      using Cons.prems by (auto split: prod.splits)
    with Cons.IH assms [of sc e sc1 new] show ?thesis by fastforce
  qed (use Cons.prems in auto)
qed auto

lemma change_bwd_counts:
  assumes "\<And>sc e sc' ps. ch sc e = Some (sc', ps) \<Longrightarrow> snd sc' + nonnull [e] = snd sc + nonnull ps"
  shows "change_bwd ch sc es = (sc', front) \<Longrightarrow> snd sc' + nonnull es = snd sc + nonnull front"
proof (induction es arbitrary: sc front)
  case (Cons e es)
  show ?case
  proof (cases "ch sc e")
    case (Some a)
    then obtain sc1 new front1 where "ch sc e = Some (sc1, new)"
      and "change_bwd ch sc1 es = (sc', front1)" "front = front1 @ new"
      using Cons.prems by (auto split: prod.splits)
    with Cons.IH assms [of sc e sc1 new] show ?thesis by fastforce
  qed (use Cons.prems in auto)
qed auto

text \<open>Whatever the tree finds, an update keeps the counter right.\<close>

lemma slicer_apply_change_counts:
  assumes "counts (sdops sl) func data" and "count_ok sl"
    and "slicer_apply_change tree sl s data b e func = Some (s', sl')"
  shows "count_ok sl'"
proof -
  let ?ch = "change_data (sops sl) (sdops sl) data \<lparr>s_begin = b, s_end = e\<rparr> func"
  have one: "?ch sc en = Some (sc', ps) \<Longrightarrow> snd sc' + nonnull [en] = snd sc + nonnull ps" for sc en sc' ps
    by (rule change_data_counts [OF assms(1)])
  show ?thesis
  proof (cases "begin_end_cmp (sops sl) b e > 0")
    case True
    with assms show ?thesis by (simp add: slicer_apply_change_def Let_def)
  next
    case False
    with assms(3) obtain i where "tree (\<lambda>n. slice_cmp \<lparr>s_begin = b, s_end = e\<rparr> n (sops sl)) (map e_slice (queue sl)) = Some i"
      by (cases "tree (\<lambda>n. slice_cmp \<lparr>s_begin = b, s_end = e\<rparr> n (sops sl)) (map e_slice (queue sl))")
        (simp_all add: slicer_apply_change_def Let_def)
    moreover obtain sc1 bk where fw: "change_fwd ?ch (s, count sl) (drop i (queue sl)) = (sc1, bk)" by fastforce
    moreover obtain sc2 fr where bw: "change_bwd ?ch sc1 (rev (take i (queue sl))) = (sc2, fr)" by fastforce
    ultimately have sl': "sl' = sl\<lparr>queue := fr @ bk, count := snd sc2\<rparr>"
      using False assms(3) by (simp add: slicer_apply_change_def Let_def)
    have "nonnull (take i (queue sl)) + nonnull (drop i (queue sl)) = nonnull (queue sl)"
      by (metis append_take_drop_id nonnull_simps(3))
    with change_fwd_counts [of ?ch, OF one fw] change_bwd_counts [of ?ch, OF one bw]
    have "snd sc2 + nonnull (queue sl) = count sl + nonnull (fr @ bk)"
      unfolding nonnull_simps nonnull_rev fst_conv snd_conv by linarith
    with assms(2) sl' show ?thesis by (simp add: count_ok_def)
  qed
qed

lemma tree_search_okD:
  "tree_search_ok tree \<Longrightarrow> sorted_wrt (\<lambda>x y. sgn (cmp y) \<le> sgn (cmp x)) xs \<Longrightarrow>
     case tree cmp xs of None \<Rightarrow> \<forall>x \<in> set xs. cmp x \<noteq> 0 | Some i \<Rightarrow> i < length xs \<and> cmp (xs ! i) = 0"
  by (auto simp: tree_search_ok_def)

text \<open>
  A key space: a key table with the end of its space, which is NULL (open) or the last
  key.
\<close>

locale key_space = key_order +
  fixes E :: gpointer
  assumes end_key: "unat E < lim" and end_last: "E \<noteq> 0 \<Longrightarrow> lim \<le> Suc (unat E)"
begin

lemma space_covers: "tiles E 0 ss \<Longrightarrow> x < lim \<Longrightarrow> \<exists>s \<in> set ss. slice_mem s x"
  using tiles_mem_iff [of E 0 ss x] end_last by auto

text \<open>Along the queue a comparison with a slice or a point falls, as the tree needs it.\<close>

lemma slice_cmp_falls:
  assumes "slice_ok lim a" and "slice_ok lim s" and "slice_ok lim t" and "before s t"
  shows "sgn (slice_cmp a t ops) \<le> sgn (slice_cmp a s ops)"
proof -
  have b: "slice_cmp a s ops < 0 \<Longrightarrow> slice_cmp a t ops < 0"
    using assms by (auto simp: slice_cmp_before before_def slice_ok_def word_le_nat_alt)
  have a: "slice_cmp a t ops > 0 \<Longrightarrow> slice_cmp a s ops > 0"
    using assms by (auto simp: slice_cmp_after before_def slice_ok_def word_le_nat_alt)
  show ?thesis
    using a b by (cases "slice_cmp a s ops" "0 :: int" rule: linorder_cases;
        cases "slice_cmp a t ops" "0 :: int" rule: linorder_cases) auto
qed

lemma queue_falls:
  assumes "slicer_inv lim E sl" and "slice_ok lim a"
  shows "sorted_wrt (\<lambda>s t. sgn (slice_cmp a t ops) \<le> sgn (slice_cmp a s ops)) (map e_slice (queue sl))"
proof (rule sorted_wrt_mono_rel)
  show "sorted_wrt before (map e_slice (queue sl))"
    using assms by (auto simp: slicer_inv_def intro: tiles_sorted)
  show "sgn (slice_cmp a t ops) \<le> sgn (slice_cmp a s ops)"
    if "s \<in> set (map e_slice (queue sl))" "t \<in> set (map e_slice (queue sl))" "before s t" for s t
    using that assms by (intro slice_cmp_falls) (auto simp: slicer_inv_def)
qed

lemma tree_finds:
  assumes inv: "slicer_inv lim E sl" and tree: "tree_search_ok tree" and a: "slice_ok lim a"
  obtains i where "tree (\<lambda>n. slice_cmp a n ops) (map e_slice (queue sl)) = Some i"
    and "i < length (queue sl)" and "slice_cmp a (e_slice (queue sl ! i)) ops = 0"
proof -
  have falls: "case tree (\<lambda>n. slice_cmp a n ops) (map e_slice (queue sl)) of
        None \<Rightarrow> \<forall>x \<in> set (map e_slice (queue sl)). slice_cmp a x ops \<noteq> 0
      | Some i \<Rightarrow> i < length (map e_slice (queue sl)) \<and> slice_cmp a (map e_slice (queue sl) ! i) ops = 0"
    using tree_search_okD [of tree "\<lambda>n. slice_cmp a n ops"] tree queue_falls [OF inv a] by simp
  have bgn: "unat (s_begin a) < lim" "slice_mem a (unat (s_begin a))"
    using a by (auto simp: slice_ok_def slice_mem_def word_le_nat_alt)
  then obtain n where n: "n \<in> set (map e_slice (queue sl))" "slice_mem n (unat (s_begin a))"
    using inv space_covers unfolding slicer_inv_def by blast
  moreover have "slice_ok lim n" using n inv by (auto simp: slicer_inv_def)
  ultimately have "slice_cmp a n ops = 0" using slice_cmp_zero [OF a] bgn by blast
  with n falls show thesis by (cases "tree (\<lambda>n. slice_cmp a n ops) (map e_slice (queue sl))") (auto intro: that)
qed

text \<open>The nodes that meet a slice are consecutive.\<close>

lemma overlap_convex:
  assumes "slice_ok lim a" "slice_ok lim b" "slice_ok lim c" "slice_ok lim x"
    and "before a b" "before b c" "slice_cmp x a ops = 0" "slice_cmp x c ops = 0"
  shows "slice_cmp x b ops = 0"
  using slice_cmp_falls [OF assms(4,1,2,5)] slice_cmp_falls [OF assms(4,2,3,6)] assms(7,8)
  by (simp add: sgn_if split: if_splits)

lemma slice_cmp_sym_zero:
  "slice_ok lim a \<Longrightarrow> slice_ok lim b \<Longrightarrow> slice_cmp a b ops = 0 \<longleftrightarrow> slice_cmp b a ops = 0"
  by (auto simp: slice_cmp_zero)

end

lemma tiles_open: "tiles E lo ss \<Longrightarrow> s \<in> set ss \<Longrightarrow> s_end s = 0 \<Longrightarrow> E = 0"
  by (induction E lo ss rule: tiles.induct) auto

lemma blocks_slice_ok: "list_all2 (block_ok lim) q bs \<Longrightarrow> p \<in> set (concat bs) \<Longrightarrow> slice_ok lim (e_slice p)"
  by (induction q bs rule: list_all2_induct) (auto simp: block_ok_def)

context key_space
begin

definition meets :: "slice \<Rightarrow> 'd slicer_entry \<Rightarrow> bool" where
  "meets a en \<longleftrightarrow> slice_cmp (e_slice en) a ops = 0"

lemma meets_from_node:
  assumes inv: "slicer_inv lim E sl" and a: "slice_ok lim a"
    and i: "i < length (queue sl)" "slice_cmp a (e_slice (queue sl ! i)) ops = 0"
  shows "sorted_wrt (\<lambda>e f. meets a f \<longrightarrow> meets a e) (drop i (queue sl))"
    and "sorted_wrt (\<lambda>e f. meets a f \<longrightarrow> meets a e) (rev (take i (queue sl)))"
proof -
  let ?q = "queue sl"
  have srt: "sorted_wrt (\<lambda>e f. before (e_slice e) (e_slice f)) ?q"
    using inv tiles_sorted [of E 0 "map e_slice ?q"] by (simp add: slicer_inv_def sorted_wrt_map)
  have ok: "j < length ?q \<Longrightarrow> slice_ok lim (e_slice (?q ! j))" for j
    using inv by (auto simp: slicer_inv_def)
  have bef: "j < k \<Longrightarrow> k < length ?q \<Longrightarrow> before (e_slice (?q ! j)) (e_slice (?q ! k))" for j k
    using srt by (auto simp: sorted_wrt_iff_nth_less)
  have m: "j < length ?q \<Longrightarrow> meets a (?q ! j) \<longleftrightarrow> slice_cmp a (e_slice (?q ! j)) ops = 0" for j
    using slice_cmp_sym_zero ok a by (auto simp: meets_def)
  have conv: "slice_cmp a (e_slice (?q ! k)) ops = 0"
    if "j < k" "k < l" "l < length ?q" "slice_cmp a (e_slice (?q ! j)) ops = 0" "slice_cmp a (e_slice (?q ! l)) ops = 0"
    for j k l
    using that overlap_convex [OF ok ok ok a bef bef] by simp
  have fw: "meets a (?q ! k)" if "i \<le> k" "k < l" "l < length ?q" "meets a (?q ! l)" for k l
    using that conv [of i k l] i m by (cases "i = k") auto
  have bw: "meets a (?q ! k)" if "k < i" "l < k" "meets a (?q ! l)" for k l
    using that conv [of l k i] i m by auto
  show "sorted_wrt (\<lambda>e f. meets a f \<longrightarrow> meets a e) (drop i ?q)"
    using fw [of "i + k" "i + l" for k l] by (auto simp: sorted_wrt_iff_nth_less)
  have "sorted_wrt (\<lambda>e f. meets a e \<longrightarrow> meets a f) (take i ?q)"
    using bw i(1) by (auto simp: sorted_wrt_iff_nth_less)
  then show "sorted_wrt (\<lambda>e f. meets a f \<longrightarrow> meets a e) (rev (take i ?q))"
    by (simp add: sorted_wrt_rev)
qed

lemma apply_change_defined:
  assumes "slicer_inv lim E sl" and "sops sl = ops" and "tree_search_ok tree"
    and "slice_ok lim \<lparr>s_begin = b, s_end = e\<rparr>"
  shows "\<exists>s' sl'. slicer_apply_change tree sl s data b e func = Some (s', sl')"
proof -
  obtain i where "tree (\<lambda>n. slice_cmp \<lparr>s_begin = b, s_end = e\<rparr> n ops) (map e_slice (queue sl)) = Some i"
    using tree_finds [OF assms(1,3,4)] by metis
  with assms(2) show ?thesis
    by (simp add: slicer_apply_change_def Let_def case_prod_unfold)
qed

lemma apply_change_steps:
  assumes inv: "slicer_inv lim E sl" and so: "sops sl = ops" and tree: "tree_search_ok tree"
    and a: "slice_ok lim \<lparr>s_begin = b, s_end = e\<rparr>"
    and laws: "data_laws (sdops sl) val P" and func: "func_is (sdops sl) func data val"
    and res: "slicer_apply_change tree sl s data b e func = Some (s', sl')" and P: "P s'"
  shows "P s" and "sops sl' = ops" and "sdops sl' = sdops sl"
    and "\<exists>bs. queue sl' = concat bs \<and>
           list_all2 (step_of (\<lambda>sc. P (fst sc)) (change_data ops (sdops sl) data \<lparr>s_begin = b, s_end = e\<rparr> func)
                       (meets \<lparr>s_begin = b, s_end = e\<rparr>)) (queue sl) bs"
proof -
  let ?a = "\<lparr>s_begin = b, s_end = e\<rparr>"
  let ?ch = "change_data ops (sdops sl) data ?a func"
  let ?step = "step_of (\<lambda>sc. P (fst sc)) ?ch (meets ?a)"
  obtain i where i: "tree (\<lambda>n. slice_cmp ?a n ops) (map e_slice (queue sl)) = Some i"
      "i < length (queue sl)" "slice_cmp ?a (e_slice (queue sl ! i)) ops = 0"
    using tree_finds [OF inv tree a] by metis
  have le: "\<not> begin_end_cmp ops b e > 0"
    using a cmp_greater [of b e] by (auto simp: begin_end_cmp_def slice_ok_def word_le_nat_alt)
  obtain sc1 bk where fw: "change_fwd ?ch (s, count sl) (drop i (queue sl)) = (sc1, bk)" by fastforce
  obtain sc2 fr where bw: "change_bwd ?ch sc1 (rev (take i (queue sl))) = (sc2, fr)" by fastforce
  have eq: "s' = fst sc2" "sl' = sl\<lparr>queue := fr @ bk, count := snd sc2\<rparr>"
    using res i(1) le so fw bw by (simp_all add: slicer_apply_change_def Let_def)
  have none: "?ch sc en = None \<longleftrightarrow> \<not> meets ?a en" for sc en
    by (simp add: change_data_none_iff meets_def)
  have keep: "?ch sc en = Some (sc', ps) \<Longrightarrow> P (fst sc') \<Longrightarrow> P (fst sc)" for sc en sc' ps
    by (rule change_data_keeps [OF laws func])
  note srt = meets_from_node [OF inv a i(2,3)]
  have bws: "P (fst sc1) \<and> (\<exists>bs. fr = concat (rev bs) \<and> list_all2 ?step (rev (take i (queue sl))) bs)"
    using change_bwd_steps [of ?ch "meets ?a" "\<lambda>sc. P (fst sc)", OF none keep srt(2) bw] P eq by simp
  then have fws: "P (fst (s, count sl)) \<and> (\<exists>bs. bk = concat bs \<and> list_all2 ?step (drop i (queue sl)) bs)"
    using change_fwd_steps [of ?ch "meets ?a" "\<lambda>sc. P (fst sc)", OF none keep srt(1) fw] by simp
  then show "P s" by simp
  show "sops sl' = ops" "sdops sl' = sdops sl" using eq so by simp_all
  from bws fws obtain bs1 bs2 where
    "fr = concat (rev bs1)" "list_all2 ?step (take i (queue sl)) (rev bs1)"
    "bk = concat bs2" "list_all2 ?step (drop i (queue sl)) bs2"
    by (metis list_all2_rev rev_rev_ident)
  then have "queue sl' = concat (rev bs1 @ bs2)" "list_all2 ?step (take i (queue sl) @ drop i (queue sl)) (rev bs1 @ bs2)"
    using eq by (simp_all add: list_all2_appendI del: append_take_drop_id)
  then show "\<exists>bs. queue sl' = concat bs \<and> list_all2 ?step (queue sl) bs" by fastforce
qed

text \<open>What an update leaves at the keys of one node.\<close>

definition node_result ::
  "('s \<Rightarrow> 'd option \<Rightarrow> 's \<times> 'd option) \<Rightarrow> ('s \<Rightarrow> bool) \<Rightarrow> slice \<Rightarrow> 'd slicer_entry \<Rightarrow> 'd slicer_entry list \<Rightarrow> bool" where
  "node_result val Q a en ps \<longleftrightarrow>
     (\<forall>x < lim. slice_mem (e_slice en) x \<longrightarrow>
        (if slice_mem a x
         then \<exists>s. Q s \<and> Q (fst (val s (e_data en))) \<and> queue_at ps x = snd (val s (e_data en))
         else queue_at ps x = e_data en))"

lemma step_block:
  assumes cut: "cut_ok lim E a" and en: "slice_ok lim (e_slice en)" "s_end (e_slice en) = 0 \<Longrightarrow> E = 0"
    and laws: "data_laws sd val Q" and func: "func_is sd func data val"
    and st: "step_of (\<lambda>sc. Q (fst sc)) (change_data ops sd data a func) (meets a) en ps"
  shows "block_ok lim en ps \<and> node_result val Q a en ps"
proof (cases "meets a en")
  case True
  then obtain sc sc' where ch: "Q (fst sc')" "change_data ops sd data a func sc en = Some (sc', ps)"
    using st by (auto simp: step_of_def)
  then show ?thesis
    using change_data_block [OF en(1) cut en(2) laws func ch(2)] by (auto simp: node_result_def)
next
  case False
  then have "ps = [en]" using st by (simp add: step_of_def)
  moreover have "\<not> slice_mem a x" if "x < lim" "slice_mem (e_slice en) x" for x
    using that False slice_cmp_zero [of "e_slice en" a] en cut by (auto simp: meets_def cut_ok_def)
  ultimately show ?thesis
    using en by (auto simp: node_result_def block_ok_def queue_at_def slice_ok_def word_le_nat_alt)
qed

lemma apply_change_blocks:
  assumes inv: "slicer_inv lim E sl" and so: "sops sl = ops" and tree: "tree_search_ok tree"
    and cut: "cut_ok lim E \<lparr>s_begin = b, s_end = e\<rparr>"
    and laws: "data_laws (sdops sl) val Q" and func: "func_is (sdops sl) func data val"
    and res: "slicer_apply_change tree sl s data b e func = Some (s', sl')" and Q: "Q s'"
  obtains bs where "queue sl' = concat bs" and
    "list_all2 (\<lambda>en ps. block_ok lim en ps \<and> node_result val Q \<lparr>s_begin = b, s_end = e\<rparr> en ps) (queue sl) bs"
proof -
  let ?a = "\<lparr>s_begin = b, s_end = e\<rparr>"
  have a: "slice_ok lim ?a" using cut by (simp add: cut_ok_def)
  obtain bs where q: "queue sl' = concat bs" and
    st: "list_all2 (step_of (\<lambda>sc. Q (fst sc)) (change_data ops (sdops sl) data ?a func) (meets ?a)) (queue sl) bs"
    using apply_change_steps(4) [OF inv so tree a laws func res Q] by blast
  have ends: "en \<in> set (queue sl) \<Longrightarrow> s_end (e_slice en) = 0 \<Longrightarrow> E = 0" for en
    using inv tiles_open [of E 0 "map e_slice (queue sl)"] by (auto simp: slicer_inv_def)
  have "slice_ok lim (e_slice en)" if "en \<in> set (queue sl)" for en
    using that inv by (auto simp: slicer_inv_def)
  then have "list_all2 (\<lambda>en ps. block_ok lim en ps \<and> node_result val Q ?a en ps) (queue sl) bs"
    using step_block [OF cut _ ends laws func] by (intro list.rel_mono_strong [OF st]) blast
  with q that show thesis by blast
qed

lemma apply_change_inv:
  assumes inv: "slicer_inv lim E sl" and so: "sops sl = ops" and tree: "tree_search_ok tree"
    and cut: "cut_ok lim E \<lparr>s_begin = b, s_end = e\<rparr>"
    and laws: "data_laws (sdops sl) val Q" and func: "func_is (sdops sl) func data val"
    and res: "slicer_apply_change tree sl s data b e func = Some (s', sl')" and Q: "Q s'"
  shows "slicer_inv lim E sl'" and "x < lim \<Longrightarrow>
      (if slice_mem \<lparr>s_begin = b, s_end = e\<rparr> x
       then \<exists>s1. Q s1 \<and> Q (fst (val s1 (slicer_at sl x))) \<and> slicer_at sl' x = snd (val s1 (slicer_at sl x))
       else slicer_at sl' x = slicer_at sl x)"
proof -
  let ?a = "\<lparr>s_begin = b, s_end = e\<rparr>"
  obtain bs where q: "queue sl' = concat bs" and
    bs: "list_all2 (\<lambda>en ps. block_ok lim en ps \<and> node_result val Q ?a en ps) (queue sl) bs"
    using apply_change_blocks [OF assms] by blast
  have "list_all2 (block_ok lim) (queue sl) bs" using bs by (rule list_all2_mono) simp
  then show "slicer_inv lim E sl'"
    using inv q blocks_tiles [of lim "queue sl" bs E 0] blocks_slice_ok [of lim "queue sl" bs]
    by (auto simp: slicer_inv_def)
  show "if slice_mem ?a x
       then \<exists>s1. Q s1 \<and> Q (fst (val s1 (slicer_at sl x))) \<and> slicer_at sl' x = snd (val s1 (slicer_at sl x))
       else slicer_at sl' x = slicer_at sl x" if x: "x < lim"
  proof -
    obtain n where "n \<in> set (map e_slice (queue sl))" "slice_mem n x"
      using inv x space_covers unfolding slicer_inv_def by blast
    then obtain en where en: "find (\<lambda>en. slice_mem (e_slice en) x) (queue sl) = Some en"
      by (cases "find (\<lambda>en. slice_mem (e_slice en) x) (queue sl)") (auto simp: find_None_iff)
    from find_concat_blocks [OF bs en] obtain ps where "node_result val Q ?a en ps"
      "queue_at (concat bs) x = queue_at ps x" by (auto simp: queue_at_def)
    moreover have "slice_mem (e_slice en) x" using en by (auto simp: find_Some_iff)
    moreover have "slicer_at sl x = e_data en" using en by (simp add: slicer_at_def queue_at_def)
    ultimately show ?thesis using x q by (auto simp: node_result_def slicer_at_def)
  qed
qed

end

section \<open>Lookup\<close>

lemma queue_at_nth:
  assumes "sorted_wrt before (map e_slice q)" and "i < length q" and "slice_mem (e_slice (q ! i)) x"
  shows "queue_at q x = e_data (q ! i)"
proof -
  have "\<not> slice_mem (e_slice (q ! j)) x" if "j < i" for j
  proof -
    have "before (e_slice (q ! j)) (e_slice (q ! i))"
      using assms(1,2) that by (auto simp: sorted_wrt_iff_nth_less)
    with assms(3) show ?thesis by (auto simp: before_def slice_mem_alt)
  qed
  with assms(2,3) have "find (\<lambda>en. slice_mem (e_slice en) x) q = Some (q ! i)"
    by (auto simp: find_Some_iff)
  then show ?thesis by (simp add: queue_at_def)
qed

lemma search_run_takeWhile:
  "search_run cmp es = List.map_filter e_data (takeWhile (\<lambda>en. cmp (e_slice en) = 0) es)"
  by (induction es) (auto simp: List.map_filter_def split: option.splits)

lemma takeWhile_sorted_filter:
  "sorted_wrt (\<lambda>e f. P f \<longrightarrow> P e) es \<Longrightarrow> takeWhile P es = filter P es"
  by (induction es) (auto simp: filter_empty_conv)

lemma map_filter_rev: "List.map_filter f (rev xs) = rev (List.map_filter f xs)"
  by (simp add: List.map_filter_def rev_map rev_filter)

context key_space
begin

lemma find_at:
  assumes inv: "slicer_inv lim E sl" and so: "sops sl = ops" and tree: "tree_search_ok tree"
    and k: "unat k < lim"
  shows "slicer_find tree sl k = slicer_at sl (unat k)"
proof -
  let ?cmp = "point_cmp_func ops k"
  let ?ss = "map e_slice (queue sl)"
  have ok: "s \<in> set ?ss \<Longrightarrow> slice_ok lim s" for s using inv by (auto simp: slicer_inv_def)
  have srt: "sorted_wrt before ?ss" using inv by (auto simp: slicer_inv_def intro: tiles_sorted)
  have zero: "s \<in> set ?ss \<Longrightarrow> ?cmp s = 0 \<longleftrightarrow> slice_mem s (unat k)" for s
    using slice_cmp_point_sgn(1) [OF ok k] by (simp add: point_cmp_func_def)
  have "sorted_wrt (\<lambda>s t. sgn (?cmp t) \<le> sgn (?cmp s)) ?ss"
  proof (rule sorted_wrt_mono_rel [OF _ srt])
    show "sgn (?cmp t) \<le> sgn (?cmp s)" if "s \<in> set ?ss" "t \<in> set ?ss" "before s t" for s t
    proof -
      have "slice_cmp_point s k ops \<le> 0 \<or> slice_cmp_point t k ops > 0"
        "slice_cmp_point s k ops < 0 \<or> slice_cmp_point t k ops > 0"
        using slice_cmp_point_sgn [OF ok [OF that(1)] k] slice_cmp_point_sgn [OF ok [OF that(2)] k]
          ok [OF that(1)] that(3)
        by (auto simp: before_def slice_mem_alt slice_ok_def word_le_nat_alt)
      then show ?thesis by (auto simp: point_cmp_func_def sgn_if)
    qed
  qed
  then have res: "case tree ?cmp ?ss of None \<Rightarrow> \<forall>s \<in> set ?ss. ?cmp s \<noteq> 0
      | Some i \<Rightarrow> i < length ?ss \<and> ?cmp (?ss ! i) = 0"
    using tree_search_okD [OF tree] by blast
  obtain s where "s \<in> set ?ss" "slice_mem s (unat k)"
    using inv k space_covers unfolding slicer_inv_def by blast
  with zero res obtain i where "tree ?cmp ?ss = Some i" "i < length (queue sl)" "slice_mem (e_slice (queue sl ! i)) (unat k)"
    by (cases "tree ?cmp ?ss") auto
  then show ?thesis using queue_at_nth [OF srt] so by (simp add: slicer_find_def slicer_at_def)
qed

text \<open>A search returns the data of the nodes that meet the slice, in order.\<close>

lemma search_data:
  assumes inv: "slicer_inv lim E sl" and so: "sops sl = ops" and tree: "tree_search_ok tree"
    and a: "slice_ok lim \<lparr>s_begin = b, s_end = e\<rparr>"
  shows "slicer_search tree sl b e =
     Some (List.map_filter e_data (filter (\<lambda>en. \<exists>x < lim. slice_mem (e_slice en) x \<and> slice_mem \<lparr>s_begin = b, s_end = e\<rparr> x) (queue sl)))"
proof -
  let ?a = "\<lparr>s_begin = b, s_end = e\<rparr>" and ?q = "queue sl"
  let ?P = "\<lambda>en :: 'a slicer_entry. slice_cmp ?a (e_slice en) ops = 0"
  obtain i where i: "tree (\<lambda>n. slice_cmp ?a n ops) (map e_slice ?q) = Some i"
      "i < length ?q" "slice_cmp ?a (e_slice (?q ! i)) ops = 0"
    using tree_finds [OF inv tree a] by metis
  have meets: "en \<in> set ?q \<Longrightarrow> meets ?a en \<longleftrightarrow> ?P en" for en
    using inv a slice_cmp_sym_zero by (auto simp: meets_def slicer_inv_def)
  have mem: "en \<in> set ?q \<Longrightarrow> ?P en \<longleftrightarrow> (\<exists>x < lim. slice_mem (e_slice en) x \<and> slice_mem ?a x)" for en
    using inv a slice_cmp_zero [of ?a "e_slice en"] by (auto simp: slicer_inv_def)
  note srt = meets_from_node [OF inv a i(2,3)]
  have run: "search_run (\<lambda>n. slice_cmp ?a n ops) es = List.map_filter e_data (filter ?P es)"
    if "sorted_wrt (\<lambda>e f. meets ?a f \<longrightarrow> meets ?a e) es" "set es \<subseteq> set ?q" for es
  proof -
    have "takeWhile ?P es = takeWhile (meets ?a) es" "filter ?P es = filter (meets ?a) es"
      using meets that(2) by (auto intro!: takeWhile_cong filter_cong)
    with takeWhile_sorted_filter [OF that(1)] show ?thesis by (simp add: search_run_takeWhile)
  qed
  have split: "?q = take i ?q @ ?q ! i # drop (Suc i) ?q" using i(2) by (rule id_take_nth_drop)
  have fw: "sorted_wrt (\<lambda>e f. meets ?a f \<longrightarrow> meets ?a e) (drop (Suc i) ?q)"
    using srt(1) i(2) by (simp add: Cons_nth_drop_Suc [symmetric])
  have "slicer_search tree sl b e = Some (rev (search_run (\<lambda>n. slice_cmp ?a n ops) (rev (take i ?q))) @
      (case e_data (?q ! i) of None \<Rightarrow> [] | Some d \<Rightarrow> [d]) @ search_run (\<lambda>n. slice_cmp ?a n ops) (drop (Suc i) ?q))"
    using i(1) so by (simp add: slicer_search_def Let_def)
  also have "\<dots> = Some (List.map_filter e_data (filter ?P (take i ?q)) @
      List.map_filter e_data (filter ?P [?q ! i]) @ List.map_filter e_data (filter ?P (drop (Suc i) ?q)))"
    using run [OF fw] run [OF srt(2)] i(3) set_drop_subset [of "Suc i" ?q] set_take_subset [of i ?q]
    by (auto simp: map_filter_rev rev_filter [symmetric] List.map_filter_simps
        dest: in_set_dropD in_set_takeD split: option.splits)
  also have "\<dots> = Some (List.map_filter e_data (filter ?P (take i ?q @ ?q ! i # drop (Suc i) ?q)))"
    by (simp add: List.map_filter_def)
  also have "\<dots> = Some (List.map_filter e_data (filter ?P ?q))" using split by simp
  also have "filter ?P ?q = filter (\<lambda>en. \<exists>x < lim. slice_mem (e_slice en) x \<and> slice_mem ?a x) ?q"
    by (rule filter_cong [OF refl mem])
  finally show ?thesis .
qed

end

section \<open>Properties that no node's change destroys\<close>

lemma change_fwd_forward:
  "(\<And>sc e sc' ps. e \<in> set es \<Longrightarrow> ch sc e = Some (sc', ps) \<Longrightarrow> P sc \<Longrightarrow> P sc') \<Longrightarrow>
     change_fwd ch sc es = (sc', rest) \<Longrightarrow> P sc \<Longrightarrow> P sc'"
proof (induction es arbitrary: sc rest)
  case (Cons e es)
  show ?case
  proof (cases "ch sc e")
    case (Some a)
    then obtain sc1 new rest1 where c: "ch sc e = Some (sc1, new)" "change_fwd ch sc1 es = (sc', rest1)"
      using Cons.prems(2) by (auto split: prod.splits)
    with Cons.prems(1) [of e sc sc1 new] Cons.prems(3) have "P sc1" by simp
    with c(2) show ?thesis using Cons.IH [of sc1 rest1] Cons.prems(1) by (meson list.set_intros(2))
  qed (use Cons.prems in auto)
qed auto

lemma change_bwd_forward:
  "(\<And>sc e sc' ps. e \<in> set es \<Longrightarrow> ch sc e = Some (sc', ps) \<Longrightarrow> P sc \<Longrightarrow> P sc') \<Longrightarrow>
     change_bwd ch sc es = (sc', front) \<Longrightarrow> P sc \<Longrightarrow> P sc'"
proof (induction es arbitrary: sc front)
  case (Cons e es)
  show ?case
  proof (cases "ch sc e")
    case (Some a)
    then obtain sc1 new front1 where c: "ch sc e = Some (sc1, new)" "change_bwd ch sc1 es = (sc', front1)"
      using Cons.prems(2) by (auto split: prod.splits)
    with Cons.prems(1) [of e sc sc1 new] Cons.prems(3) have "P sc1" by simp
    with c(2) show ?thesis using Cons.IH [of sc1 front1] Cons.prems(1) by (meson list.set_intros(2))
  qed (use Cons.prems in auto)
qed auto

lemma apply_change_forward:
  assumes step: "\<And>sc en sc' ps. en \<in> set (queue sl) \<Longrightarrow>
      change_data (sops sl) (sdops sl) data \<lparr>s_begin = b, s_end = e\<rparr> func sc en = Some (sc', ps) \<Longrightarrow>
      P (fst sc) \<Longrightarrow> P (fst sc')"
    and res: "slicer_apply_change tree sl s data b e func = Some (s', sl')" and P: "P s"
  shows "P s'"
proof (cases "begin_end_cmp (sops sl) b e > 0")
  case True
  with res P show ?thesis by (simp add: slicer_apply_change_def Let_def)
next
  case False
  let ?ch = "change_data (sops sl) (sdops sl) data \<lparr>s_begin = b, s_end = e\<rparr> func"
  obtain i where "tree (\<lambda>n. slice_cmp \<lparr>s_begin = b, s_end = e\<rparr> n (sops sl)) (map e_slice (queue sl)) = Some i"
    using False res
    by (cases "tree (\<lambda>n. slice_cmp \<lparr>s_begin = b, s_end = e\<rparr> n (sops sl)) (map e_slice (queue sl))")
      (simp_all add: slicer_apply_change_def Let_def)
  moreover obtain sc1 bk where fw: "change_fwd ?ch (s, count sl) (drop i (queue sl)) = (sc1, bk)" by fastforce
  moreover obtain sc2 fr where bw: "change_bwd ?ch sc1 (rev (take i (queue sl))) = (sc2, fr)" by fastforce
  ultimately have s': "s' = fst sc2" using False res by (simp add: slicer_apply_change_def Let_def)
  have "P (fst sc1)"
  proof (rule change_fwd_forward [where P = "\<lambda>sc. P (fst sc)", OF _ fw])
    show "P (fst sc')" if "en \<in> set (drop i (queue sl))" "?ch sc en = Some (sc', ps)" "P (fst sc)" for sc en sc' ps
      by (rule step [OF in_set_dropD [OF that(1)] that(2,3)])
  qed (use P in simp)
  have "P (fst sc2)"
  proof (rule change_bwd_forward [where P = "\<lambda>sc. P (fst sc)", OF _ bw])
    show "P (fst sc')" if "en \<in> set (rev (take i (queue sl)))" "?ch sc en = Some (sc', ps)" "P (fst sc)" for sc en sc' ps
    proof (rule step [OF _ that(2,3)])
      show "en \<in> set (queue sl)" using that(1) in_set_takeD [of en i "queue sl"] by simp
    qed
  qed fact
  with s' show ?thesis by simp
qed

section \<open>Gluing\<close>

text \<open>
  Gluing replaces runs of nodes with null data by one node with no data; the value at a
  key changes from a null datum to no datum, nowhere else.
\<close>

lemma glue_run_block:
  assumes "tiles m lo (map e_slice run)" and "\<forall>en \<in> set run. slice_ok lim (e_slice en)"
    and dup: "\<And>k. sop_dup so k = k" and "slicer_glue so sd sc run = (sc', ps)"
  shows "tiles m lo (map e_slice ps)" and "\<forall>en \<in> set ps. slice_ok lim (e_slice en)"
    and "ps = run \<or> (\<forall>p \<in> set ps. e_data p = None)"
proof -
  have ne: "run \<noteq> []" using assms(1) by auto
  have lst: "s_end (e_slice (last run)) = m" using tiles_last [OF assms(1)] ne by (simp add: last_map)
  obtain r rs where r: "run = r # rs" using ne by (cases run) auto
  then have fst: "unat (s_begin (e_slice (hd run))) = lo"
    using assms(1) tiles_begin [of m lo "e_slice r" "map e_slice rs"] by simp
  note ends = fst lst
  have rng: "m = 0 \<or> lo \<le> unat m" using tiles_range [OF assms(1)] .
  have oks: "slice_ok lim (e_slice (hd run))" "slice_ok lim (e_slice (last run))"
    using assms(2) ne by auto
  let ?one = "[\<lparr>e_slice = \<lparr>s_begin = s_begin (e_slice (hd run)), s_end = s_end (e_slice (last run))\<rparr>, e_data = None\<rparr>]"
  have cs: "ps = run \<or> ps = ?one"
    using assms(4) unfolding slicer_glue_def dup Let_def by (metis prod.inject)
  have "tiles m lo (map e_slice ?one)" using ends rng by simp
  with cs assms(1) show "tiles m lo (map e_slice ps)" by metis
  have "\<forall>en \<in> set ?one. slice_ok lim (e_slice en)"
    using ends rng oks by (auto simp: slice_ok_def word_le_nat_alt)
  with cs assms(2) show "\<forall>en \<in> set ps. slice_ok lim (e_slice en)" by metis
  show "ps = run \<or> (\<forall>p \<in> set ps. e_data p = None)" using cs by auto
qed

lemma queue_at_append:
  "queue_at (xs @ ys) x = (if \<exists>p \<in> set xs. slice_mem (e_slice p) x then queue_at xs x else queue_at ys x)"
  by (induction xs) (auto simp: queue_at_def)

lemma queue_at_Cons: "queue_at (en # q) x = (if slice_mem (e_slice en) x then e_data en else queue_at q x)"
  by (simp add: queue_at_def)

lemma queue_at_none: "\<not> (\<exists>p \<in> set q. slice_mem (e_slice p) x) \<Longrightarrow> queue_at q x = None"
  by (induction q) (auto simp: queue_at_def)

lemma tiles_prefix:
  assumes "tiles E lo (xs @ ys)" and "xs \<noteq> []" and "xs' \<noteq> []" and "\<And>m. tiles m lo xs \<Longrightarrow> tiles m lo xs'"
  shows "tiles E lo (xs' @ ys)"
  using assms by (cases "ys = []") (auto simp: tiles_append)

lemma tiles_suffix:
  assumes "tiles E lo (xs @ ys)" and "ys \<noteq> []" and "ys' \<noteq> []" and "\<And>lo. tiles E lo ys \<Longrightarrow> tiles E lo ys'"
  shows "tiles E lo (xs @ ys')"
  using assms by (cases "xs = []") (auto simp: tiles_append)

definition same_upto :: "('d option \<Rightarrow> bool) \<Rightarrow> 'd option \<Rightarrow> 'd option \<Rightarrow> bool" where
  "same_upto is_null a b \<longleftrightarrow> a = b \<or> b = None \<and> is_null a"

lemma glue_run_same:
  assumes t: "run \<noteq> [] \<Longrightarrow> tiles m lo (map e_slice run)" and ok: "\<forall>en \<in> set run. slice_ok lim (e_slice en)"
    and dup: "\<And>k. sop_dup so k = k" and g: "slicer_glue so sd sc run = (sc', ps)"
    and null: "\<forall>en \<in> set run. is_null (e_data en)"
  shows "ps = [] \<longleftrightarrow> run = []" and "\<forall>en \<in> set ps. slice_ok lim (e_slice en)"
    and "run \<noteq> [] \<Longrightarrow> tiles m lo (map e_slice ps)"
    and "(\<exists>p \<in> set ps. slice_mem (e_slice p) x) \<longleftrightarrow> (\<exists>p \<in> set run. slice_mem (e_slice p) x)"
    and "same_upto is_null (queue_at run x) (queue_at ps x)"
proof -
  have emp: "run = [] \<Longrightarrow> ps = []" using g by (simp add: slicer_glue_def)
  note b = glue_run_block [OF t ok dup g]
  show ne: "ps = [] \<longleftrightarrow> run = []"
    using emp b(1) tiles_nonempty by blast
  show "\<forall>en \<in> set ps. slice_ok lim (e_slice en)" using emp b(2) by (cases "run = []") auto
  show "run \<noteq> [] \<Longrightarrow> tiles m lo (map e_slice ps)" by (rule b(1))
  show mem: "(\<exists>p \<in> set ps. slice_mem (e_slice p) x) \<longleftrightarrow> (\<exists>p \<in> set run. slice_mem (e_slice p) x)" for x
    using tiles_mem_iff [OF t, of x] tiles_mem_iff [OF b(1), of x] ne by (cases "run = []") auto
  show "same_upto is_null (queue_at run x) (queue_at ps x)"
  proof (cases "ps = run")
    case False
    then have "run \<noteq> []" using emp by auto
    with b(3) False have none: "\<forall>p \<in> set ps. e_data p = None" by auto
    show ?thesis
    proof (cases "\<exists>p \<in> set run. slice_mem (e_slice p) x")
      case True
      with mem obtain p q where "p \<in> set run" "queue_at run x = e_data p" "q \<in> set ps" "queue_at ps x = e_data q"
        using queue_at_found [of _ run x] queue_at_found [of _ ps x] by blast
      with none null show ?thesis by (auto simp: same_upto_def)
    next
      case no: False
      with mem have "queue_at run x = None" "queue_at ps x = None"
        using queue_at_none by blast+
      then show ?thesis by (simp add: same_upto_def)
    qed
  qed (simp add: same_upto_def)
qed

lemma glue_loop_same:
  assumes dup: "\<And>k. sop_dup so k = k"
  shows "glue_loop so sd is_null sc run es = (sc', q) \<Longrightarrow> \<forall>en \<in> set run. is_null (e_data en) \<Longrightarrow>
     (run @ es \<noteq> [] \<Longrightarrow> tiles E lo (map e_slice (run @ es))) \<Longrightarrow>
     \<forall>en \<in> set (run @ es). slice_ok lim (e_slice en) \<Longrightarrow>
     (q = [] \<longleftrightarrow> run @ es = []) \<and> (run @ es \<noteq> [] \<longrightarrow> tiles E lo (map e_slice q)) \<and>
     (\<forall>en \<in> set q. slice_ok lim (e_slice en)) \<and>
     (\<forall>x. same_upto is_null (queue_at (run @ es) x) (queue_at q x))"
proof (induction es arbitrary: sc run lo q)
  case Nil
  then show ?case
    using glue_run_same [of run E lo lim so sd sc sc' q is_null, OF _ _ dup] by simp
next
  case (Cons en es)
  show ?case
  proof (cases "is_null (e_data en)")
    case True
    then show ?thesis using Cons.IH [of sc "run @ [en]" q lo] Cons.prems by simp
  next
    case False
    obtain sc1 glued where g: "slicer_glue so sd sc run = (sc1, glued)" by fastforce
    obtain rest where r: "glue_loop so sd is_null sc1 [] es = (sc', rest)" "q = glued @ en # rest"
      using Cons.prems(1) False g by (auto split: prod.splits)
    have t: "tiles E lo (map e_slice run @ map e_slice (en # es))" using Cons.prems(3) by simp
    have ok: "\<forall>en \<in> set run. slice_ok lim (e_slice en)" "\<forall>en \<in> set es. slice_ok lim (e_slice en)"
        "slice_ok lim (e_slice en)"
      using Cons.prems(4) by simp_all
    have grun: "(glued = [] \<longleftrightarrow> run = []) \<and> (\<forall>en \<in> set glued. slice_ok lim (e_slice en)) \<and>
        (\<forall>m. run \<noteq> [] \<longrightarrow> tiles m lo (map e_slice run) \<longrightarrow> tiles m lo (map e_slice glued)) \<and>
        (\<forall>x. (\<exists>p \<in> set glued. slice_mem (e_slice p) x) \<longleftrightarrow> (\<exists>p \<in> set run. slice_mem (e_slice p) x)) \<and>
        (\<forall>x. same_upto is_null (queue_at run x) (queue_at glued x))"
    proof -
      obtain m where m: "run \<noteq> [] \<Longrightarrow> tiles m lo (map e_slice run)"
        using t tiles_append [of "map e_slice run" "map e_slice (en # es)" E lo] by auto
      have "run \<noteq> [] \<longrightarrow> tiles m' lo (map e_slice run) \<longrightarrow> tiles m' lo (map e_slice glued)" for m'
        using glue_run_block(1) [OF _ ok(1) dup g] by blast
      then show ?thesis using glue_run_same [OF m ok(1) dup g Cons.prems(2)] by blast
    qed
    have IH: "(rest = [] \<longleftrightarrow> es = []) \<and> (es \<noteq> [] \<longrightarrow> tiles E l (map e_slice rest)) \<and>
        (\<forall>en \<in> set rest. slice_ok lim (e_slice en)) \<and> (\<forall>x. same_upto is_null (queue_at es x) (queue_at rest x))"
      if "es \<noteq> [] \<Longrightarrow> tiles E l (map e_slice es)" for l
      using Cons.IH [of sc1 "[]" rest l] r(1) ok(2) that by simp
    obtain l where l: "es \<noteq> [] \<Longrightarrow> tiles E l (map e_slice es)"
      using t by (cases "es = []"; cases "run = []") (auto simp: tiles_append tiles_Cons)
    have "tiles E lo (map e_slice glued @ map e_slice (en # es))"
      using t grun tiles_prefix [of E lo "map e_slice run" "map e_slice (en # es)" "map e_slice glued"]
      by (cases "run = []") auto
    then have "tiles E lo ((map e_slice glued @ [e_slice en]) @ map e_slice es)" by simp
    then have tq: "tiles E lo (map e_slice q)"
      using IH IH [OF l] tiles_suffix [of E lo "map e_slice glued @ [e_slice en]" "map e_slice es" "map e_slice rest"] r(2)
      by (cases "es = []") auto
    have "same_upto is_null (queue_at (run @ en # es) x) (queue_at q x)" for x
      using grun IH [OF l] r(2)
      by (auto simp: queue_at_append queue_at_Cons same_upto_def)
    with tq grun IH [OF l] ok r(2) show ?thesis by (simp add: ball_Un)
  qed
qed

section \<open>Slicers of times and of addresses\<close>

interpretation time_space: key_space time_ops "2 ^ 31" 0
  by unfold_locales simp_all

interpretation inet_space: key_space inet_ops "2 ^ 32" "IPV4_TO_POINTER 0xffffffff"
  by unfold_locales simp_all

abbreviation time_inv :: "('d, 'e, 's) slicer \<Rightarrow> bool" where
  "time_inv sl \<equiv> slicer_inv (2 ^ 31) 0 sl \<and> sops sl = time_ops"

abbreviation inet_inv :: "('d, 'e, 's) slicer \<Rightarrow> bool" where
  "inet_inv sl \<equiv> slicer_inv (2 ^ 32) (IPV4_TO_POINTER 0xffffffff) sl \<and> sops sl = inet_ops"

text \<open>A new slicer of times or of addresses covers every key with no data.\<close>

lemma slicer_new_empty:
  "time_inv (snd (time_slicer_new sd s)) \<and> inet_inv (snd (inet_slicer_new sd s)) \<and>
   count_ok (snd (time_slicer_new sd s)) \<and> count_ok (snd (inet_slicer_new sd s)) \<and>
   slicer_at (snd (time_slicer_new sd s)) x = None \<and> slicer_at (snd (inet_slicer_new sd s)) x = None"
  by (simp add: time_slicer_new_def inet_slicer_new_def slicer_init_def slicer_new_def Let_def
      slicer_inv_def slice_ok_def count_ok_def slicer_at_def queue_at_def inet_ops_def slicer_dup_dummy_def
      split: option.splits)

text \<open>The contract of an update, for operations on data whose values do not depend on the state.\<close>

definition pure_data :: "('d, 'e, 's) slice_data_ops \<Rightarrow> ('s \<Rightarrow> 'd option \<Rightarrow> 'e \<Rightarrow> 's \<times> 'd option) \<Rightarrow> 'e \<Rightarrow> ('d option \<Rightarrow> 'd option) \<Rightarrow> bool" where
  "pure_data sd op data f \<longleftrightarrow> (\<forall>s d. snd (sdo_dup sd s d) = d) \<and> (\<forall>s d. snd (op s d data) = f d)"

lemma pure_data_laws: "pure_data sd op data f \<Longrightarrow> data_laws sd (\<lambda>s d. op s d data) (\<lambda>_. True)"
  by (simp add: pure_data_def data_laws_def)

definition updated :: "('d, 'e, 's) slicer \<Rightarrow> nat \<Rightarrow> gpointer \<Rightarrow> slice \<Rightarrow> ('d option \<Rightarrow> 'd option) \<Rightarrow> ('s \<times> ('d, 'e, 's) slicer) option \<Rightarrow> bool" where
  "updated sl lim E a f r \<longleftrightarrow>
     (case r of None \<Rightarrow> False
      | Some (s', sl') \<Rightarrow> slicer_inv lim E sl' \<and> sops sl' = sops sl \<and> sdops sl' = sdops sl \<and>
          (\<forall>x < lim. slicer_at sl' x = (if slice_mem a x then f (slicer_at sl x) else slicer_at sl x)))"

context key_space
begin

lemma apply_change_updated:
  assumes inv: "slicer_inv lim E sl" and so: "sops sl = ops" and tree: "tree_search_ok tree"
    and cut: "cut_ok lim E \<lparr>s_begin = b, s_end = e\<rparr>"
    and p: "pure_data (sdops sl) op data f" and func: "func_is (sdops sl) func data (\<lambda>s d. op s d data)"
  shows "updated sl lim E \<lparr>s_begin = b, s_end = e\<rparr> f (slicer_apply_change tree sl s data b e func)"
proof -
  have a: "slice_ok lim \<lparr>s_begin = b, s_end = e\<rparr>" using cut by (simp add: cut_ok_def)
  obtain s' sl' where res: "slicer_apply_change tree sl s data b e func = Some (s', sl')"
    using apply_change_defined [OF inv so tree a] by blast
  note laws = pure_data_laws [OF p]
  have val: "snd (op s d data) = f d" for s d using p by (simp add: pure_data_def)
  have "slicer_at sl' x = (if slice_mem \<lparr>s_begin = b, s_end = e\<rparr> x then f (slicer_at sl x) else slicer_at sl x)"
    if "x < lim" for x
    using apply_change_inv(2) [OF inv so tree cut laws func res TrueI that] val by (auto split: if_splits)
  with res show ?thesis
    using apply_change_inv(1) [OF inv so tree cut laws func res TrueI] so
      apply_change_steps(2,3) [OF inv so tree a laws func res TrueI]
    by (simp add: updated_def)
qed

lemma insert_updated:
  assumes "slicer_inv lim E sl" and "sops sl = ops" and "tree_search_ok tree"
    and "cut_ok lim E \<lparr>s_begin = b, s_end = e\<rparr>" and "pure_data (sdops sl) (sdo_add (sdops sl)) data f"
  shows "updated sl lim E \<lparr>s_begin = b, s_end = e\<rparr> f (slicer_insert tree sl s data b e)"
  unfolding slicer_insert_def by (rule apply_change_updated [OF assms insert_add_is])

lemma delete_updated:
  assumes "slicer_inv lim E sl" and "sops sl = ops" and "tree_search_ok tree"
    and "cut_ok lim E \<lparr>s_begin = b, s_end = e\<rparr>" and "pure_data (sdops sl) (sdo_del (sdops sl)) data f"
  shows "updated sl lim E \<lparr>s_begin = b, s_end = e\<rparr> f (slicer_delete tree sl s data b e)"
  unfolding slicer_delete_def by (rule apply_change_updated [OF assms insert_del_is])

end

section \<open>Properties of the slicers\<close>

text \<open>A small table of operations on data, for concrete runs: lists of numbers.\<close>

definition list_data :: "(nat list, nat, nat) slice_data_ops" where
  "list_data = \<lparr>
     sdo_add = \<lambda>s d x. (s + 1, Some (case d of None \<Rightarrow> [x] | Some xs \<Rightarrow> xs @ [x])),
     sdo_del = \<lambda>s d x. (s, case d of None \<Rightarrow> None
                          | Some xs \<Rightarrow> (case remove1 x xs of [] \<Rightarrow> None | ys \<Rightarrow> Some ys)),
     sdo_dup = \<lambda>s d. (s, d), sdo_free = None, sdo_is_null = Some (\<lambda>d. d = None)\<rparr>"

lemma list_data_pure:
  "pure_data list_data (sdo_add list_data) x (\<lambda>d. Some (case d of None \<Rightarrow> [x] | Some xs \<Rightarrow> xs @ [x]))"
  "pure_data list_data (sdo_del list_data) x
     (\<lambda>d. case d of None \<Rightarrow> None | Some xs \<Rightarrow> (case remove1 x xs of [] \<Rightarrow> None | ys \<Rightarrow> Some ys))"
  by (simp_all add: pure_data_def list_data_def)

lemma new_list_slicers:
  "time_inv (snd (time_slicer_new list_data 0))" "sdops (snd (time_slicer_new list_data 0)) = list_data"
  "inet_inv (snd (inet_slicer_new list_data 0))" "sdops (snd (inet_slicer_new list_data 0)) = list_data"
  by (simp_all add: time_slicer_new_def inet_slicer_new_def slicer_init_def slicer_new_def Let_def
      slicer_inv_def slice_ok_def inet_ops_def slicer_dup_dummy_def)





text \<open>
  Looking up a point yields the datum of the slice that holds it, for times and for
  addresses.
\<close>

theorem slicer_find_at:
  assumes "tree_search_ok tree"
  shows "(time_inv tsl \<and> unat t < 2 ^ 31 \<longrightarrow> slicer_find tree tsl t = slicer_at tsl (unat t)) \<and>
         (inet_inv asl \<longrightarrow> slicer_find tree asl (IPV4_TO_POINTER ip) = slicer_at asl (unat ip))"
proof -
  have "unat (IPV4_TO_POINTER ip) < 2 ^ 32" using unsigned_less [of ip] by simp
  with assms time_space.find_at [of tsl tree t] inet_space.find_at [of asl tree "IPV4_TO_POINTER ip"]
  show ?thesis by simp
qed

theorem slicer_find_at_witness:
  "slicer_find linear_search (snd (time_slicer_new list_data 0)) 15 = slicer_at (snd (time_slicer_new list_data 0)) 15 \<and>
   slicer_find linear_search (snd (inet_slicer_new list_data 0)) (IPV4_TO_POINTER 5) = slicer_at (snd (inet_slicer_new list_data 0)) 5"
  using slicer_find_at [OF linear_search_ok, of "snd (time_slicer_new list_data 0)" 15
      "snd (inet_slicer_new list_data 0)" 5] new_list_slicers by simp

text \<open>
  A search over a slice returns the data of the nodes that have an address in common
  with it, in address order, each once, and nothing else.
\<close>

theorem inet_slicer_search:
  assumes "inet_inv sl" and "tree_search_ok tree" and "slice_ok (2 ^ 32) \<lparr>s_begin = b, s_end = e\<rparr>"
  shows "slicer_search tree sl b e =
     Some (List.map_filter e_data (filter (\<lambda>en. \<exists>x < 2 ^ 32. slice_mem (e_slice en) x \<and> slice_mem \<lparr>s_begin = b, s_end = e\<rparr> x) (queue sl)))"
  using assms inet_space.search_data by blast

theorem inet_slicer_search_witness:
  "slicer_search linear_search (snd (inet_slicer_new list_data 0)) 5 9 = Some []"
proof -
  have "slice_ok (2 ^ 32) \<lparr>s_begin = 5, s_end = 9\<rparr>" by (simp add: slice_ok_def)
  from inet_slicer_search [OF new_list_slicers(3) linear_search_ok this]
  show ?thesis
    by (simp add: inet_slicer_new_def slicer_init_def slicer_new_def Let_def List.map_filter_def)
qed

text \<open>
  The counter of a slicer is the number of its nodes that hold data, after every
  insertion whose \<open>add\<close> yields a datum and after every deletion, whatever the tree finds.
\<close>

theorem slicer_count_kept:
  assumes "count_ok sl" and "\<forall>s d. snd (sdo_add (sdops sl) s d data) \<noteq> None"
    and "slicer_insert tree sl s data b e = Some (s1, sl1)" and "slicer_delete tree sl s data b e = Some (s2, sl2)"
  shows "slicer_count sl1 = nonnull (queue sl1) \<and> slicer_count sl2 = nonnull (queue sl2)"
proof -
  have "counts (sdops sl) insert_add data" using assms(2) by (intro insert_add_counts) auto
  with assms show ?thesis
    using slicer_apply_change_counts [OF _ assms(1)] insert_del_counts
    unfolding slicer_insert_def slicer_delete_def slicer_count_def count_ok_def by metis
qed

lemma list_data_updates:
  obtains s1 sl1 s2 sl2 where
    "slicer_insert linear_search (snd (time_slicer_new list_data 0)) 0 7 10 20 = Some (s1, sl1)"
    "slicer_delete linear_search (snd (time_slicer_new list_data 0)) 0 7 10 20 = Some (s2, sl2)"
proof -
  have cut: "cut_ok (2 ^ 31) 0 \<lparr>s_begin = 10, s_end = 20\<rparr>" by (simp add: cut_ok_def slice_ok_def)
  note inv = new_list_slicers(1) [THEN conjunct1] new_list_slicers(1) [THEN conjunct2]
  show thesis
    using time_space.insert_updated [OF inv linear_search_ok cut, unfolded new_list_slicers(2), OF list_data_pure(1), of 7 0]
      time_space.delete_updated [OF inv linear_search_ok cut, unfolded new_list_slicers(2), OF list_data_pure(2), of 7 0]
    by (auto simp: updated_def split: option.splits intro: that)
qed

theorem slicer_count_kept_witness:
  "\<exists>s1 sl1. slicer_insert linear_search (snd (time_slicer_new list_data 0)) 0 7 10 20 = Some (s1, sl1) \<and>
     slicer_count sl1 = nonnull (queue sl1)"
proof -
  obtain s1 sl1 s2 sl2 where
    r: "slicer_insert linear_search (snd (time_slicer_new list_data 0)) 0 7 10 20 = Some (s1, sl1)"
       "slicer_delete linear_search (snd (time_slicer_new list_data 0)) 0 7 10 20 = Some (s2, sl2)"
    by (rule list_data_updates)
  have "count_ok (snd (time_slicer_new list_data 0))"
    by (simp add: count_ok_def time_slicer_new_def slicer_init_def slicer_new_def)
  moreover have "\<forall>s d. snd (sdo_add (sdops (snd (time_slicer_new list_data 0))) s d 7) \<noteq> None"
    by (simp add: new_list_slicers(2)) (simp add: list_data_def)
  ultimately show ?thesis using slicer_count_kept [OF _ _ r] r by blast
qed

text \<open>
  Gluing the neighbouring null nodes of a slicer keeps the partition of the key space
  and every datum that is not null; a null datum may become NULL.
\<close>

theorem slicer_glue_null_keeps:
  assumes "slicer_inv lim E sl" and "\<forall>k. sop_dup (sops sl) k = k" and "sdo_is_null (sdops sl) = Some is_null"
  shows "slicer_inv lim E (snd (slicer_glue_null sl s)) \<and>
         same_upto is_null (slicer_at sl x) (slicer_at (snd (slicer_glue_null sl s)) x)"
proof -
  obtain s' cnt q where g: "glue_loop (sops sl) (sdops sl) is_null (s, count sl) [] (queue sl) = ((s', cnt), q)"
    by (metis prod.collapse)
  have "tiles E 0 (map e_slice q) \<and> (\<forall>en \<in> set q. slice_ok lim (e_slice en)) \<and>
      (\<forall>x. same_upto is_null (queue_at (queue sl) x) (queue_at q x))"
    using glue_loop_same [OF _ g, of E 0 lim] assms(1,2) by (auto simp: slicer_inv_def)
  with g assms(3) show ?thesis
    by (simp add: slicer_glue_null_def slicer_inv_def slicer_at_def)
qed

theorem slicer_glue_null_keeps_witness:
  "slicer_inv (2 ^ 31) 0 (snd (slicer_glue_null (snd (time_slicer_new list_data 0)) 0)) \<and>
   same_upto (\<lambda>d. d = None) (slicer_at (snd (time_slicer_new list_data 0)) 5)
     (slicer_at (snd (slicer_glue_null (snd (time_slicer_new list_data 0)) 0)) 5)"
proof (rule slicer_glue_null_keeps)
  show "slicer_inv (2 ^ 31) 0 (snd (time_slicer_new list_data 0))" using new_list_slicers by simp
  show "\<forall>k. sop_dup (sops (snd (time_slicer_new list_data 0))) k = k"
    using new_list_slicers by (simp add: time_keys.dup_id)
  show "sdo_is_null (sdops (snd (time_slicer_new list_data 0))) = Some (\<lambda>d. d = None)"
    using new_list_slicers by (simp add: list_data_def)
qed

end
