(* ===== verification/Mbb_Map.thy ===== *)
theory Mbb_Map
  imports Slicer
begin

text \<open>
  Two-dimensional maps, \<open>mbbd/map.c\<close> and \<open>mbbd/vmap.h\<close>: a slicer over one key whose data are
  queues of entries, each a slice of the second key (\<open>dkey\<close>) with a pointer. An inet map is
  keyed by address and then by time, a time map by time and then by address. Insertion
  reports the first entry that already holds part of the new rectangle (\<open>map_cross\<close>).
  The node callbacks of a map receive each qu position that is created or dropped;
  they are modelled by the trace of their calls, kept with the crossing in the state
  that the slicer's data operations pass along. Reference counts only govern when memory
  is released and have no counterpart.
\<close>

section \<open>Definitions\<close>

record map_entry =
  me_slice :: slice
  me_data :: gpointer

record map_cross =
  c_slice :: slice
  c_data :: gpointer
  c_found :: bool

datatype node_event = Node_Add map_entry | Node_Del map_entry

record map_ctx =
  mc_cross :: map_cross
  mc_events :: "node_event list"

record map_data =
  md_entry :: map_entry
  md_ops :: slice_ops
  md_node_add :: bool
  md_node_del :: bool

definition map_entry_new :: "gpointer \<Rightarrow> gpointer \<Rightarrow> gpointer \<Rightarrow> map_entry" where
  "map_entry_new pa pb data = \<lparr>me_slice = \<lparr>s_begin = pa, s_end = pb\<rparr>, me_data = data\<rparr>"

definition map_node_handle_add :: "bool \<Rightarrow> map_ctx \<Rightarrow> map_entry \<Rightarrow> map_ctx" where
  "map_node_handle_add node_add s en =
     (if node_add then s\<lparr>mc_events := mc_events s @ [Node_Add en]\<rparr> else s)"

definition map_node_handle_del :: "bool \<Rightarrow> map_ctx \<Rightarrow> map_entry \<Rightarrow> map_ctx" where
  "map_node_handle_del node_del s en =
     (if node_del then s\<lparr>mc_events := mc_events s @ [Node_Del en]\<rparr> else s)"

text \<open>\<open>map_data_split\<close> joins two entries of the same datum: the entry to store, if they join.\<close>

definition map_data_split :: "slice_ops \<Rightarrow> map_entry \<Rightarrow> map_entry \<Rightarrow> map_entry option" where
  "map_data_split ops mea meb =
     (if me_data mea \<noteq> me_data meb then None
      else if sop_cmp ops (s_begin (me_slice meb)) (s_end (me_slice mea)) \<noteq> 1 then None
      else Some (map_entry_new (sop_dup ops (s_begin (me_slice mea)))
                   (sop_dup ops (s_end (me_slice meb))) (me_data mea)))"

text \<open>
  The search for the place of the new entry: the entries before it (last first) and the
  rest, or the entry it crosses.
\<close>

fun add_scan ::
  "slice_ops \<Rightarrow> map_entry \<Rightarrow> map_entry list \<Rightarrow> map_entry list \<Rightarrow> map_entry + map_entry list \<times> map_entry list" where
  "add_scan ops cur prev [] = Inr (prev, [])"
| "add_scan ops cur prev (en # es) =
     (let n = slice_cmp (me_slice cur) (me_slice en) ops
      in if n > 0 then add_scan ops cur (en # prev) es
         else if n < 0 then Inr (prev, en # es)
         else Inl en)"

text \<open>Storing the entry at its place; the flag tells that a queue position was created for it.\<close>

fun add_place :: "slice_ops \<Rightarrow> map_entry \<Rightarrow> map_entry list \<Rightarrow> map_entry list \<Rightarrow> map_entry list \<times> bool" where
  "add_place ops cur [] [] = ([cur], True)"
| "add_place ops cur (p # ps) [] =
     (case map_data_split ops p cur of
        Some m \<Rightarrow> (rev (m # ps), False)
      | None \<Rightarrow> (rev (cur # p # ps), True))"
| "add_place ops cur [] (r # rs) =
     (case map_data_split ops cur r of
        Some m \<Rightarrow> (m # rs, False)
      | None \<Rightarrow> (cur # r # rs, True))"
| "add_place ops cur (p # ps) (r # rs) =
     (case map_data_split ops cur r of
        Some m \<Rightarrow>
          (case map_data_split ops p m of
             Some m2 \<Rightarrow> (rev ps @ m2 # rs, False)
           | None \<Rightarrow> (rev ps @ p # m # rs, False))
      | None \<Rightarrow>
          (case map_data_split ops p cur of
             Some m \<Rightarrow> (rev ps @ m # r # rs, False)
           | None \<Rightarrow> (rev ps @ p # cur # r # rs, True)))"

definition map_data_add ::
  "map_ctx \<Rightarrow> map_entry list option \<Rightarrow> map_data \<Rightarrow> map_ctx \<times> map_entry list option" where
  "map_data_add s qu data =
     (if c_found (mc_cross s) then (s, qu)
      else
        (let cur = md_entry data; ops = md_ops data;
             q = (case qu of None \<Rightarrow> [] | Some q \<Rightarrow> q)
         in case add_scan ops cur [] q of
              Inl en \<Rightarrow>
                (s\<lparr>mc_cross := \<lparr>c_slice = \<lparr>s_begin = sop_dup ops (s_begin (me_slice en)),
                                           s_end = sop_dup ops (s_end (me_slice en))\<rparr>,
                                c_data = me_data en, c_found = True\<rparr>\<rparr>, Some q)
            | Inr (prev, rest) \<Rightarrow>
                (let (q, created) = add_place ops cur prev rest
                 in (if created then map_node_handle_add (md_node_add data) s cur else s, Some q))))"

text \<open>One pass of \<open>map_data_del\<close> over the qu.\<close>

fun del_loop :: "map_data \<Rightarrow> map_ctx \<Rightarrow> map_entry list \<Rightarrow> map_ctx \<times> map_entry list" where
  "del_loop data s [] = (s, [])"
| "del_loop data s (en # es) =
     (let cur = md_entry data; ops = md_ops data
      in if me_data cur \<noteq> 0 \<and> me_data cur \<noteq> me_data en \<or> slice_cmp (me_slice en) (me_slice cur) ops \<noteq> 0
         then (let (s, rest) = del_loop data s es in (s, en # rest))
         else
           (let (l, _, r) = slice_cross ops (me_slice en) (me_slice cur) (True, False, True);
                s = map_node_handle_del (md_node_del data) s en;
                left = map (\<lambda>p. map_entry_new (s_begin p) (s_end p) (me_data en)) (opt_list l);
                right = map (\<lambda>p. map_entry_new (s_begin p) (s_end p) (me_data en)) (opt_list r);
                s = foldl (map_node_handle_add (md_node_add data)) s (left @ right);
                (s, rest) = del_loop data s es
            in (s, left @ right @ rest)))"

definition map_data_del ::
  "map_ctx \<Rightarrow> map_entry list option \<Rightarrow> map_data \<Rightarrow> map_ctx \<times> map_entry list option" where
  "map_data_del s qu data =
     (case qu of
        None \<Rightarrow> (s, None)
      | Some q \<Rightarrow>
          (let (s, q) = del_loop data s q in (s, if length q = 0 then None else Some q)))"

definition map_data_dup :: "bool \<Rightarrow> map_ctx \<Rightarrow> map_entry list option \<Rightarrow> map_ctx \<times> map_entry list option" where
  "map_data_dup node_add s qu =
     (case qu of
        None \<Rightarrow> (s, None)
      | Some q \<Rightarrow> (foldl (map_node_handle_add node_add) s q, Some q))"

definition map_data_free :: "bool \<Rightarrow> map_ctx \<Rightarrow> map_entry list \<Rightarrow> map_ctx" where
  "map_data_free node_del s qu = foldl (map_node_handle_del node_del) s qu"

definition map_data_is_null :: "map_entry list option \<Rightarrow> bool" where
  "map_data_is_null qu = (case qu of None \<Rightarrow> True | Some q \<Rightarrow> length q = 0)"

text \<open>The operations table; the map that is the slicer's user data only matters for its callbacks.\<close>

definition map_data_ops :: "bool \<Rightarrow> bool \<Rightarrow> (map_entry list, map_data, map_ctx) slice_data_ops" where
  "map_data_ops node_add node_del = \<lparr>
     sdo_add = map_data_add,
     sdo_del = map_data_del,
     sdo_dup = map_data_dup node_add,
     sdo_free = Some (map_data_free node_del),
     sdo_is_null = Some map_data_is_null\<rparr>"

type_synonym map_slicer = "(map_entry list, map_data, map_ctx) slicer"

record mbb_map =
  m_slicer :: "map_slicer option"
  m_dkey_ops :: "slice_ops option"
  m_node_add :: bool
  m_node_del :: bool

definition map_init :: "mbb_map \<Rightarrow> slice_ops option \<Rightarrow> mbb_map" where
  "map_init m dkey_ops =
     (let m = m\<lparr>m_slicer := None, m_dkey_ops := dkey_ops\<rparr>
      in if dkey_ops = None then m\<lparr>m_node_add := False, m_node_del := False\<rparr> else m)"

text \<open>
  \<open>map_init_slicer\<close> on a creation function; the state is what the callbacks have seen.
\<close>

definition map_clear :: "map_ctx \<Rightarrow> mbb_map \<Rightarrow> map_ctx \<times> mbb_map" where
  "map_clear s m =
     (case m_slicer m of
        None \<Rightarrow> (s, m)
      | Some sl \<Rightarrow> (slicer_destroy sl s, m\<lparr>m_slicer := None\<rparr>))"

definition map_init_slicer ::
  "map_ctx \<Rightarrow> mbb_map
     \<Rightarrow> ((map_entry list, map_data, map_ctx) slice_data_ops \<Rightarrow> map_ctx \<Rightarrow> map_ctx \<times> map_slicer)
     \<Rightarrow> map_ctx \<times> mbb_map" where
  "map_init_slicer s m create =
     (let (s, m) = map_clear s m;
          (s, sl) = create (map_data_ops (m_node_add m) (m_node_del m)) s
      in (s, m\<lparr>m_slicer := Some sl\<rparr>))"

definition inet_map_init :: "map_ctx \<Rightarrow> mbb_map \<Rightarrow> map_ctx \<times> mbb_map" where
  "inet_map_init s m = map_init_slicer s (map_init m (Some time_ops)) inet_slicer_new"

definition time_map_init :: "map_ctx \<Rightarrow> mbb_map \<Rightarrow> map_ctx \<times> mbb_map" where
  "time_map_init s m = map_init_slicer s (map_init m (Some inet_ops)) time_slicer_new"

text \<open>
  \<open>map_move\<close> copies the source over the cleared target and makes the target the user data
  of the slicer; a source without slicer is not foreseen (\<open>None\<close>).
\<close>

definition map_move :: "map_ctx \<Rightarrow> mbb_map \<Rightarrow> mbb_map \<Rightarrow> (map_ctx \<times> mbb_map) option" where
  "map_move s dst src =
     (let (s, _) = map_clear s dst
      in case m_slicer src of None \<Rightarrow> None | Some _ \<Rightarrow> Some (s, src))"

subsection \<open>Updates\<close>

text \<open>
  A missing \<open>dkey_ops\<close> table is a NULL dereference (\<open>None\<close>); a missing slicer makes the
  slicer's own check return without effect.
\<close>

definition map_add ::
  "tree_search \<Rightarrow> map_ctx \<Rightarrow> mbb_map \<Rightarrow> slice \<Rightarrow> slice \<Rightarrow> gpointer \<Rightarrow> (map_ctx \<times> mbb_map) option" where
  "map_add tree s m key dkey ptr =
     (case m_dkey_ops m of
        None \<Rightarrow> None
      | Some ops \<Rightarrow>
          (let entry = map_entry_new (sop_dup ops (s_begin dkey)) (sop_dup ops (s_end dkey)) ptr;
               s = s\<lparr>mc_cross := (mc_cross s)\<lparr>c_found := False\<rparr>\<rparr>;
               data = \<lparr>md_entry = entry, md_ops = ops, md_node_add = m_node_add m, md_node_del = m_node_del m\<rparr>
           in case m_slicer m of
                None \<Rightarrow> Some (s, m)
              | Some sl \<Rightarrow>
                  map_option (\<lambda>(s, sl). (s, m\<lparr>m_slicer := Some sl\<rparr>))
                    (slicer_insert tree sl s data (s_begin key) (s_end key))))"

definition map_del ::
  "tree_search \<Rightarrow> map_ctx \<Rightarrow> mbb_map \<Rightarrow> slice \<Rightarrow> slice \<Rightarrow> gpointer \<Rightarrow> (map_ctx \<times> mbb_map) option" where
  "map_del tree s m key dkey ptr =
     (case m_dkey_ops m of
        None \<Rightarrow> None
      | Some ops \<Rightarrow>
          (let entry = map_entry_new (sop_dup ops (s_begin dkey)) (sop_dup ops (s_end dkey)) ptr;
               data = \<lparr>md_entry = entry, md_ops = ops, md_node_add = m_node_add m, md_node_del = m_node_del m\<rparr>
           in case m_slicer m of
                None \<Rightarrow> Some (s, m)
              | Some sl \<Rightarrow>
                  map_option (\<lambda>(s, sl). (s, m\<lparr>m_slicer := Some sl\<rparr>))
                    (slicer_delete tree sl s data (s_begin key) (s_end key))))"

definition map_data_remove_custom ::
  "(gpointer \<Rightarrow> bool) \<Rightarrow> unit \<Rightarrow> map_entry list \<Rightarrow> slice \<Rightarrow> unit \<times> map_entry list" where
  "map_data_remove_custom cmp u qu sl = (u, filter (\<lambda>en. \<not> cmp (me_data en)) qu)"

definition map_remove_custom :: "mbb_map option \<Rightarrow> (gpointer \<Rightarrow> bool) \<Rightarrow> mbb_map option" where
  "map_remove_custom m cmp =
     (case m of
        None \<Rightarrow> None
      | Some m \<Rightarrow>
          (case m_slicer m of
             None \<Rightarrow> Some m
           | Some sl \<Rightarrow>
               Some (m\<lparr>m_slicer := Some (snd (slicer_foreach sl (map_data_remove_custom cmp) ()))\<rparr>)))"

definition map_glue_null :: "map_ctx \<Rightarrow> mbb_map \<Rightarrow> map_ctx \<times> mbb_map" where
  "map_glue_null s m =
     (case m_slicer m of
        None \<Rightarrow> (s, m)
      | Some sl \<Rightarrow> (let (s, sl) = slicer_glue_null sl s in (s, m\<lparr>m_slicer := Some sl\<rparr>)))"

subsection \<open>Lookup and iteration\<close>

fun find_entry :: "slice_ops \<Rightarrow> gpointer \<Rightarrow> map_entry list \<Rightarrow> gpointer" where
  "find_entry ops dkey [] = 0"
| "find_entry ops dkey (en # es) =
     (let n = slice_cmp_point (me_slice en) dkey ops
      in if n = 0 then me_data en
         else if n > 0 then 0
         else find_entry ops dkey es)"

text \<open>The result of a lookup is a pointer, 0 for NULL; \<open>None\<close> is a map without tables.\<close>

definition map_find :: "tree_search \<Rightarrow> mbb_map \<Rightarrow> gpointer \<Rightarrow> gpointer \<Rightarrow> gpointer option" where
  "map_find tree m key dkey =
     (case (m_slicer m, m_dkey_ops m) of
        (Some sl, Some ops) \<Rightarrow>
          (case slicer_find tree sl key of
             None \<Rightarrow> Some 0
           | Some q \<Rightarrow> Some (find_entry ops dkey q))
      | _ \<Rightarrow> None)"

definition map_data_search ::
  "slice_ops \<Rightarrow> slice \<Rightarrow> gpointer list \<Rightarrow> map_entry list \<Rightarrow> gpointer list" where
  "map_data_search ops dkey found q =
     foldl (\<lambda>found en. if slice_cmp dkey (me_slice en) ops = 0 then me_data en # found else found) found q"

definition map_search :: "tree_search \<Rightarrow> mbb_map \<Rightarrow> slice \<Rightarrow> slice \<Rightarrow> gpointer list option" where
  "map_search tree m key dkey =
     (case (m_slicer m, m_dkey_ops m) of
        (Some sl, Some ops) \<Rightarrow>
          map_option (foldl (map_data_search ops dkey) []) (slicer_search tree sl (s_begin key) (s_end key))
      | _ \<Rightarrow> None)"

definition map_iter_init :: "mbb_map \<Rightarrow> map_entry list slicer_entry list" where
  "map_iter_init m = slicer_iter_init (m_slicer m)"

definition map_iter_last :: "'a list \<Rightarrow> 'a list" where
  "map_iter_last it = (if it = [] then [] else [last it])"

definition map_iter_next ::
  "map_entry list slicer_entry list
     \<Rightarrow> ((map_entry list \<times> slice) \<times> map_entry list slicer_entry list) option" where
  "map_iter_next it =
     (case slicer_iter_next it of
        None \<Rightarrow> None
      | Some ((qu, sl), it) \<Rightarrow> Some ((case qu of None \<Rightarrow> [] | Some q \<Rightarrow> q, sl), it))"

definition map_data_iter_next :: "map_entry list \<Rightarrow> ((gpointer \<times> slice) \<times> map_entry list) option" where
  "map_data_iter_next it =
     (case it of [] \<Rightarrow> None | en # rest \<Rightarrow> Some ((me_data en, me_slice en), rest))"

definition map_data_iter_is_null :: "map_entry list \<Rightarrow> bool" where
  "map_data_iter_is_null it = (it = [])"

text \<open>
  A map node is a position in the map: the slicer entry and the entry in its queue.
  Reading or removing a node that is not there is a stale pointer (\<open>None\<close>).
\<close>

type_synonym map_node = "nat \<times> nat"

definition map_node_entry :: "mbb_map \<Rightarrow> map_node \<Rightarrow> map_entry option" where
  "map_node_entry m node =
     (case (m_slicer m, node) of
        (Some sl, (i, j)) \<Rightarrow>
          (if i < length (queue sl) then
             (case e_data (queue sl ! i) of
                None \<Rightarrow> None
              | Some q \<Rightarrow> if j < length q then Some (q ! j) else None)
           else None)
      | (None, _) \<Rightarrow> None)"

definition map_node_get_data :: "mbb_map \<Rightarrow> map_node \<Rightarrow> gpointer option" where
  "map_node_get_data m node = map_option me_data (map_node_entry m node)"

definition map_node_get_slice :: "mbb_map \<Rightarrow> map_node \<Rightarrow> slice option" where
  "map_node_get_slice m node = map_option me_slice (map_node_entry m node)"

definition map_node_cmp :: "map_node \<Rightarrow> map_node \<Rightarrow> gint" where
  "map_node_cmp a b = (if fst a \<noteq> fst b then 1 else if snd a \<noteq> snd b then 1 else 0)"

definition map_node_data_cmp :: "mbb_map \<Rightarrow> map_node \<Rightarrow> map_node \<Rightarrow> gint option" where
  "map_node_data_cmp m a b =
     (case (map_node_entry m a, map_node_entry m b) of
        (Some pa, Some pb) \<Rightarrow> Some (if me_data pa \<noteq> me_data pb then 1 else 0)
      | _ \<Rightarrow> None)"

definition map_node_remove :: "mbb_map \<Rightarrow> map_node \<Rightarrow> mbb_map option" where
  "map_node_remove m node =
     (case (m_slicer m, node, map_node_entry m node) of
        (Some sl, (i, j), Some _) \<Rightarrow>
          Some (m\<lparr>m_slicer := Some (sl\<lparr>queue := (queue sl)[i :=
                   (queue sl ! i)\<lparr>e_data := map_option (\<lambda>q. take j q @ drop (Suc j) q) (e_data (queue sl ! i))\<rparr>]\<rparr>)\<rparr>)
      | _ \<Rightarrow> None)"

section \<open>Queues of entries\<close>

text \<open>
  The invariant of a queue: its slices are well formed, disjoint and in order. What a
  queue holds is a relation between keys and data, functional by the invariant.
\<close>

definition entries_ok :: "nat \<Rightarrow> map_entry list \<Rightarrow> bool" where
  "entries_ok lim q \<longleftrightarrow> sorted_wrt (\<lambda>a b. before (me_slice a) (me_slice b)) q \<and>
     (\<forall>en \<in> set q. slice_ok lim (me_slice en))"

definition holds :: "map_entry list \<Rightarrow> nat \<Rightarrow> gpointer \<Rightarrow> bool" where
  "holds q k d \<longleftrightarrow> (\<exists>en \<in> set q. slice_mem (me_slice en) k \<and> me_data en = d)"

lemma holds_simps [simp]:
  "\<not> holds [] k d"
  "holds (en # q) k d \<longleftrightarrow> slice_mem (me_slice en) k \<and> me_data en = d \<or> holds q k d"
  "holds (q @ r) k d \<longleftrightarrow> holds q k d \<or> holds r k d"
  "holds (rev q) k d \<longleftrightarrow> holds q k d"
  by (auto simp: holds_def)

lemma entries_ok_Nil [simp]: "entries_ok lim []"
  by (simp add: entries_ok_def)

lemma before_trans: "slice_ok lim b \<Longrightarrow> before a b \<Longrightarrow> before b c \<Longrightarrow> before a c"
  by (auto simp: before_def slice_ok_def word_le_nat_alt)

lemma before_disjoint: "before a b \<Longrightarrow> slice_mem a x \<Longrightarrow> slice_mem b x \<Longrightarrow> False"
  by (auto simp: before_def slice_mem_alt)

lemma holds_unique:
  assumes "entries_ok lim q" and "holds q k d" and "holds q k d'"
  shows "d = d'"
proof -
  from assms(2,3) obtain i j where ij: "i < length q" "j < length q" "slice_mem (me_slice (q ! i)) k"
      "slice_mem (me_slice (q ! j)) k" "me_data (q ! i) = d" "me_data (q ! j) = d'"
    by (auto simp: holds_def in_set_conv_nth)
  have "i = j"
    using assms(1) ij before_disjoint
    by (metis entries_ok_def linorder_neqE_nat sorted_wrt_nth_less)
  with ij show ?thesis by simp
qed

text \<open>
  The key tables whose comparison is 1 only for neighbours. The comparison of times is;
  that of addresses yields 1 for any greater address.
\<close>

locale key_exact = key_order +
  assumes cmp_one: "unat a < lim \<Longrightarrow> unat b < lim \<Longrightarrow> sop_cmp ops a b = 1 \<Longrightarrow> unat a = Suc (unat b)"
begin

lemma split_adjacent:
  assumes ok: "entries_ok lim (xs @ a # b # ys)" and sp: "map_data_split ops a b = Some m"
  shows "entries_ok lim (xs @ m # ys)" and "holds (xs @ m # ys) k d \<longleftrightarrow> holds (xs @ a # b # ys) k d"
proof -
  have m: "m = \<lparr>me_slice = \<lparr>s_begin = s_begin (me_slice a), s_end = s_end (me_slice b)\<rparr>, me_data = me_data a\<rparr>"
      "me_data a = me_data b" "sop_cmp ops (s_begin (me_slice b)) (s_end (me_slice a)) = 1"
    using sp by (auto simp: map_data_split_def map_entry_new_def dup_id split: if_splits)
  have ab: "slice_ok lim (me_slice a)" "slice_ok lim (me_slice b)" "before (me_slice a) (me_slice b)"
    using ok by (auto simp: entries_ok_def sorted_wrt_append)
  have adj: "unat (s_begin (me_slice b)) = Suc (unat (s_end (me_slice a)))"
    using m(3) ab by (intro cmp_one) (auto simp: slice_ok_def)
  have "slice_ok lim (me_slice m)" "before x (me_slice a) \<Longrightarrow> before x (me_slice m)"
      "before (me_slice b) x \<Longrightarrow> before (me_slice m) x" for x
    using m(1) ab adj by (auto simp: slice_ok_def before_def word_le_nat_alt)
  then show "entries_ok lim (xs @ m # ys)" using ok by (auto simp: entries_ok_def sorted_wrt_append)
  have "slice_mem (me_slice m) k \<longleftrightarrow> slice_mem (me_slice a) k \<or> slice_mem (me_slice b) k"
    using m(1) ab adj by (auto simp: slice_mem_alt slice_ok_def before_def word_le_nat_alt)
  then show "holds (xs @ m # ys) k d \<longleftrightarrow> holds (xs @ a # b # ys) k d"
    using m(1,2) by auto
qed

end

context key_order
begin

lemma slice_cmp_signs:
  assumes "slice_ok lim a" and "slice_ok lim b"
  shows "slice_cmp a b ops > 0 \<longleftrightarrow> before b a" and "slice_cmp a b ops < 0 \<longleftrightarrow> before a b"
  using slice_cmp_after [OF assms] slice_cmp_before [OF assms] by (auto simp: before_def)

lemma add_scan_spec:
  assumes "slice_ok lim (me_slice cur)"
  shows "entries_ok lim (rev prev @ q) \<Longrightarrow> \<forall>p \<in> set prev. before (me_slice p) (me_slice cur) \<Longrightarrow>
     (case add_scan ops cur prev q of
        Inl en \<Rightarrow> en \<in> set q \<and> slice_cmp (me_slice cur) (me_slice en) ops = 0
      | Inr (prev', rest) \<Rightarrow> rev prev @ q = rev prev' @ rest \<and> entries_ok lim (rev prev' @ cur # rest))"
proof (induction q arbitrary: prev)
  case Nil
  with assms show ?case by (auto simp: entries_ok_def sorted_wrt_append)
next
  case (Cons en q)
  have en: "slice_ok lim (me_slice en)" using Cons.prems by (simp add: entries_ok_def)
  note cmp = slice_cmp_signs [OF assms en]
  consider "slice_cmp (me_slice cur) (me_slice en) ops > 0" | "slice_cmp (me_slice cur) (me_slice en) ops = 0"
    | "slice_cmp (me_slice cur) (me_slice en) ops < 0" by linarith
  then show ?case
  proof cases
    case 1
    with Cons.IH [of "en # prev"] Cons.prems cmp show ?thesis by (auto split: sum.splits)
  next
    case 3
    then have "before (me_slice cur) (me_slice en)" using cmp by simp
    moreover have "\<forall>x \<in> set q. before (me_slice en) (me_slice x)"
      using Cons.prems(1) by (auto simp: entries_ok_def sorted_wrt_append)
    ultimately have "\<forall>x \<in> set (en # q). before (me_slice cur) (me_slice x)"
      using before_trans [OF en] by auto
    with 3 Cons.prems assms show ?thesis by (auto simp: entries_ok_def sorted_wrt_append)
  qed simp
qed

lemma no_overlap:
  assumes "entries_ok lim (rev prev @ cur # rest)" and "en \<in> set (rev prev @ rest)"
  shows "slice_cmp (me_slice cur) (me_slice en) ops \<noteq> 0"
  using assms slice_cmp_signs [of "me_slice cur" "me_slice en"]
  by (auto simp: entries_ok_def sorted_wrt_append)

end

context key_exact
begin

lemma add_place_spec:
  assumes ok: "entries_ok lim (rev prev @ cur # rest)" and q': "add_place ops cur prev rest = (q', created)"
  shows "entries_ok lim q' \<and> (\<forall>k d. holds q' k d \<longleftrightarrow> holds (rev prev @ cur # rest) k d)"
proof (cases prev; cases rest)
  assume "prev = []" "rest = []"
  with assms show ?thesis by auto
next
  fix p ps assume c: "prev = p # ps" "rest = []"
  with assms split_adjacent [of "rev ps" p cur "[]"] show ?thesis
    by (cases "map_data_split ops p cur") (auto simp del: holds_simps)
next
  fix r rs assume c: "prev = []" "rest = r # rs"
  with assms split_adjacent [of "[]" cur r rs] show ?thesis
    by (cases "map_data_split ops cur r") (auto simp del: holds_simps)
next
  fix p ps r rs assume c: "prev = p # ps" "rest = r # rs"
  show ?thesis
  proof (cases "map_data_split ops cur r")
    case None
    with assms c split_adjacent [of "rev ps" p cur "r # rs"] show ?thesis
      by (cases "map_data_split ops p cur") (auto simp del: holds_simps)
  next
    case (Some m)
    with ok c split_adjacent [of "rev ps @ [p]" cur r rs]
    have m: "entries_ok lim (rev ps @ p # m # rs)" "\<forall>k d. holds (rev ps @ p # m # rs) k d \<longleftrightarrow> holds (rev prev @ cur # rest) k d"
      by (auto simp del: holds_simps)
    with Some q' c split_adjacent [of "rev ps" p m rs] show ?thesis
      by (cases "map_data_split ops p m") (auto simp del: holds_simps)
  qed
qed

text \<open>Adding to a queue: what it then holds, or the entry in the way.\<close>

lemma map_data_add_spec:
  assumes ok: "entries_ok lim (case qu of None \<Rightarrow> [] | Some q \<Rightarrow> q)" and cur: "slice_ok lim (me_slice (md_entry data))"
    and ops: "md_ops data = ops" and s: "\<not> c_found (mc_cross s)" and r: "map_data_add s qu data = (s', qu')"
  shows "c_found (mc_cross s') \<longleftrightarrow>
      (\<exists>en \<in> set (case qu of None \<Rightarrow> [] | Some q \<Rightarrow> q). slice_cmp (me_slice (md_entry data)) (me_slice en) ops = 0)"
    and "\<exists>q'. qu' = Some q' \<and> entries_ok lim q' \<and>
      (\<forall>k d. holds q' k d \<longleftrightarrow> holds (case qu of None \<Rightarrow> [] | Some q \<Rightarrow> q) k d \<or>
         \<not> c_found (mc_cross s') \<and> slice_mem (me_slice (md_entry data)) k \<and> d = me_data (md_entry data))"
proof -
  let ?q = "case qu of None \<Rightarrow> [] | Some q \<Rightarrow> q" and ?cur = "md_entry data"
  have scan: "case add_scan ops ?cur [] ?q of
        Inl en \<Rightarrow> en \<in> set ?q \<and> slice_cmp (me_slice ?cur) (me_slice en) ops = 0
      | Inr (prev', rest) \<Rightarrow> ?q = rev prev' @ rest \<and> entries_ok lim (rev prev' @ ?cur # rest)"
    using add_scan_spec [OF cur, of "[]" ?q] ok by (auto split: sum.splits)
  have "(c_found (mc_cross s') \<longleftrightarrow> (\<exists>en \<in> set ?q. slice_cmp (me_slice ?cur) (me_slice en) ops = 0)) \<and>
     (\<exists>q'. qu' = Some q' \<and> entries_ok lim q' \<and>
      (\<forall>k d. holds q' k d \<longleftrightarrow> holds ?q k d \<or>
         \<not> c_found (mc_cross s') \<and> slice_mem (me_slice ?cur) k \<and> d = me_data ?cur))"
  proof (cases "add_scan ops ?cur [] ?q")
    case (Inl en)
    with scan ok r s ops show ?thesis by (auto simp: map_data_add_def Let_def)
  next
    case (Inr pr)
    then obtain prev rest where pr: "add_scan ops ?cur [] ?q = Inr (prev, rest)" by (cases pr) auto
    with scan have q: "?q = rev prev @ rest" and okc: "entries_ok lim (rev prev @ ?cur # rest)" by auto
    obtain q' created where place: "add_place ops ?cur prev rest = (q', created)" by fastforce
    have res: "s' = (if created then map_node_handle_add (md_node_add data) s ?cur else s)" "qu' = Some q'"
      using r s ops pr place by (simp_all add: map_data_add_def Let_def)
    then have "\<not> c_found (mc_cross s')" using s by (simp add: map_node_handle_add_def)
    moreover have "\<not> (\<exists>en \<in> set ?q. slice_cmp (me_slice ?cur) (me_slice en) ops = 0)"
      using no_overlap [OF okc] unfolding q by blast
    moreover have "entries_ok lim q' \<and> (\<forall>k d. holds q' k d \<longleftrightarrow> holds (rev prev @ ?cur # rest) k d)"
      by (rule add_place_spec [OF okc place])
    ultimately show ?thesis using res(2) unfolding q by auto
  qed
  then show "c_found (mc_cross s') \<longleftrightarrow> (\<exists>en \<in> set ?q. slice_cmp (me_slice ?cur) (me_slice en) ops = 0)"
    and "\<exists>q'. qu' = Some q' \<and> entries_ok lim q' \<and>
      (\<forall>k d. holds q' k d \<longleftrightarrow> holds ?q k d \<or>
         \<not> c_found (mc_cross s') \<and> slice_mem (me_slice ?cur) k \<and> d = me_data ?cur)"
    by blast+
qed

end

definition within :: "slice \<Rightarrow> slice \<Rightarrow> bool" where
  "within p a \<longleftrightarrow> unat (s_begin a) \<le> unat (s_begin p) \<and>
     (s_end a \<noteq> 0 \<longrightarrow> s_end p \<noteq> 0 \<and> unat (s_end p) \<le> unat (s_end a))"

lemma within_refl [simp]: "within a a"
  by (simp add: within_def)

lemma within_before: "within p a \<Longrightarrow> before a x \<Longrightarrow> before p x" "within p a \<Longrightarrow> before x a \<Longrightarrow> before x p"
  by (auto simp: within_def before_def)

lemma tiles_end_le: "tiles E lo ss \<Longrightarrow> s \<in> set ss \<Longrightarrow> E \<noteq> 0 \<Longrightarrow> s_end s \<noteq> 0 \<and> unat (s_end s) \<le> unat E"
proof (induction E lo ss rule: tiles.induct)
  case (3 E lo s' t ts)
  then show ?case using tiles_range [of E "Suc (unat (s_end s'))" "t # ts"] by auto
qed auto

lemma handle_keeps [simp]:
  "mc_cross (map_node_handle_add f s en) = mc_cross s" "mc_cross (map_node_handle_del f s en) = mc_cross s"
  "mc_cross (foldl (map_node_handle_add f) s ens) = mc_cross s"
  "mc_cross (foldl (map_node_handle_del f) s ens) = mc_cross s"
proof -
  show "mc_cross (foldl (map_node_handle_add f) s ens) = mc_cross s"
    by (induction ens arbitrary: s) (auto simp: map_node_handle_add_def)
  show "mc_cross (foldl (map_node_handle_del f) s ens) = mc_cross s"
    by (induction ens arbitrary: s) (auto simp: map_node_handle_del_def)
qed (simp_all add: map_node_handle_add_def map_node_handle_del_def)

context key_order
begin

lemma cross_outside:
  assumes a: "slice_ok lim a" and b: "cut_ok lim E b" and c: "slice_cmp a b ops = 0" and E: "s_end a = 0 \<Longrightarrow> E = 0"
    and r: "slice_cross ops a b (True, False, True) = (l, m, r)"
  shows "\<forall>s \<in> set (opt_list l @ opt_list r). slice_ok lim s"
    and "\<exists>s \<in> set (opt_list l @ opt_list r). slice_mem s x \<Longrightarrow> slice_mem a x \<and> \<not> slice_mem b x"
    and "slice_mem a x \<Longrightarrow> \<not> slice_mem b x \<Longrightarrow> \<exists>s \<in> set (opt_list l @ opt_list r). slice_mem s x"
    and "sorted_wrt before (opt_list l @ opt_list r)"
    and "\<forall>s \<in> set (opt_list l @ opt_list r). within s a"
proof -
  have lr: "\<exists>m'. slice_cross ops a b (True, True, True) = (l, m', r)"
    using r c by (auto simp: slice_cross_def Let_def)
  obtain l' m' r' where cr: "slice_cross ops a b (True, True, True) = (l', Some m', r')"
    and t: "tiles (s_end a) (unat (s_begin a)) (opt_list l' @ m' # opt_list r')"
    and mm: "\<And>x. slice_mem m' x \<longleftrightarrow> slice_mem a x \<and> slice_mem b x"
    and out: "\<And>s x. s \<in> set (opt_list l' @ opt_list r') \<Longrightarrow> slice_mem s x \<Longrightarrow> slice_mem a x \<and> \<not> slice_mem b x"
    and oks: "\<forall>s \<in> set (opt_list l' @ m' # opt_list r'). slice_ok lim s"
    using slice_cross_tiles [OF a b c E] by metis
  have eq: "l' = l" "r' = r" using cr lr by auto
  show "\<forall>s \<in> set (opt_list l @ opt_list r). slice_ok lim s" using oks eq by auto
  show "\<exists>s \<in> set (opt_list l @ opt_list r). slice_mem s x \<Longrightarrow> slice_mem a x \<and> \<not> slice_mem b x"
    using out eq by blast
  show "\<exists>s \<in> set (opt_list l @ opt_list r). slice_mem s x" if "slice_mem a x" "\<not> slice_mem b x"
  proof -
    have "\<exists>s \<in> set (opt_list l @ m' # opt_list r). slice_mem s x"
      using tiles_mem_iff [OF t, of x] that(1) eq by (auto simp: slice_mem_alt)
    with mm that show ?thesis by auto
  qed
  show "sorted_wrt before (opt_list l @ opt_list r)"
    using tiles_sorted [OF t] eq by (auto simp: sorted_wrt_append)
  show "\<forall>s \<in> set (opt_list l @ opt_list r). within s a"
    using tiles_begin_ge [OF t] tiles_end_le [OF t] eq by (auto simp: within_def)
qed

lemma del_loop_spec:
  assumes cut: "cut_ok lim E (me_slice (md_entry data))" and ops: "md_ops data = ops"
  shows "del_loop data s q = (s', q') \<Longrightarrow> entries_ok lim q \<Longrightarrow> \<forall>en \<in> set q. s_end (me_slice en) = 0 \<longrightarrow> E = 0 \<Longrightarrow>
     entries_ok lim q' \<and> mc_cross s' = mc_cross s \<and> (\<forall>p \<in> set q'. \<exists>en \<in> set q. within (me_slice p) (me_slice en)) \<and>
     (\<forall>k < lim. \<forall>d. holds q' k d \<longleftrightarrow> holds q k d \<and>
        \<not> (slice_mem (me_slice (md_entry data)) k \<and> (me_data (md_entry data) = 0 \<or> me_data (md_entry data) = d)))"
proof (induction q arbitrary: s q')
  case (Cons en q)
  let ?cur = "md_entry data"
  have en: "slice_ok lim (me_slice en)" "entries_ok lim q" "\<forall>x \<in> set q. before (me_slice en) (me_slice x)"
    using Cons.prems(2) by (auto simp: entries_ok_def)
  have cur: "slice_ok lim (me_slice ?cur)" using cut by (simp add: cut_ok_def)
  have ends: "\<forall>en \<in> set q. s_end (me_slice en) = 0 \<longrightarrow> E = 0" using Cons.prems(3) by simp
  show ?case
  proof (cases "me_data ?cur \<noteq> 0 \<and> me_data ?cur \<noteq> me_data en \<or> slice_cmp (me_slice en) (me_slice ?cur) ops \<noteq> 0")
    case True
    then obtain rest where r: "del_loop data s q = (s', rest)" "q' = en # rest"
      using Cons.prems(1) ops by (auto simp: Let_def split: prod.splits)
    note IH = Cons.IH [OF r(1) en(2) ends]
    have "\<not> (slice_mem (me_slice en) k \<and> slice_mem (me_slice ?cur) k \<and> (me_data ?cur = 0 \<or> me_data ?cur = me_data en))" if "k < lim" for k
      using True slice_cmp_zero [OF en(1) cur] that by auto
    moreover have "\<forall>p \<in> set rest. before (me_slice en) (me_slice p)"
      using IH en(3) within_before(2) by blast
    ultimately show ?thesis using IH r(2) en(1) by (auto simp: entries_ok_def)
  next
    case False
    then have c: "slice_cmp (me_slice en) (me_slice ?cur) ops = 0" by simp
    obtain l m r where cr: "slice_cross ops (me_slice en) (me_slice ?cur) (True, False, True) = (l, m, r)"
      by (metis prod_cases3)
    have "s_end (me_slice en) = 0 \<Longrightarrow> E = 0" using Cons.prems(3) by simp
    note x = cross_outside [OF en(1) cut c this cr]
    let ?new = "\<lambda>p. map_entry_new (s_begin p) (s_end p) (me_data en)"
    let ?ps = "map ?new (opt_list l @ opt_list r)"
    obtain s1 rest where r: "del_loop data s1 q = (s', rest)" "q' = ?ps @ rest" "mc_cross s1 = mc_cross s"
      using Cons.prems(1) False cr ops by (auto simp: Let_def handle_keeps split: prod.splits)
    note IH = Cons.IH [OF r(1) en(2) ends]
    have sl: "me_slice (?new p) = p" "me_data (?new p) = me_data en" for p by (simp_all add: map_entry_new_def)
    have "sorted_wrt (\<lambda>a b. before (me_slice a) (me_slice b)) ?ps" using x(4) by (simp add: sorted_wrt_map sl del: map_append)
    moreover have "\<forall>p \<in> set ?ps. \<forall>y \<in> set rest. before (me_slice p) (me_slice y)"
      using x(5) IH en(3) within_before by (fastforce simp: sl)
    moreover have "sorted_wrt (\<lambda>a b. before (me_slice a) (me_slice b)) rest" using IH by (simp add: entries_ok_def)
    ultimately have "sorted_wrt (\<lambda>a b. before (me_slice a) (me_slice b)) (?ps @ rest)"
      unfolding sorted_wrt_append by blast
    then have "entries_ok lim q'" using IH x(1) r(2) by (auto simp: entries_ok_def sl simp del: map_append)
    moreover have "\<forall>p \<in> set q'. \<exists>e \<in> set (en # q). within (me_slice p) (me_slice e)"
      using IH x(5) r(2) by (auto simp: sl)
    moreover have "holds ?ps k d \<longleftrightarrow> slice_mem (me_slice en) k \<and> \<not> slice_mem (me_slice ?cur) k \<and> me_data en = d" for k d
    proof -
      have "holds ?ps k d \<longleftrightarrow> (\<exists>p \<in> set (opt_list l @ opt_list r). slice_mem p k \<and> me_data en = d)"
        by (simp add: holds_def sl bex_Un del: map_append)
      with x(2,3) [of k] show ?thesis by blast
    qed
    moreover have "\<not> (slice_mem (me_slice en) k \<and> holds q k d)" for k d
      using en(3) before_disjoint by (auto simp: holds_def)
    ultimately show ?thesis using IH r False by (auto simp del: map_append)
  qed
qed auto

end

section \<open>Whole maps\<close>

definition map_holds :: "mbb_map \<Rightarrow> nat \<Rightarrow> nat \<Rightarrow> gpointer \<Rightarrow> bool" where
  "map_holds m x k d \<longleftrightarrow>
     (case m_slicer m of None \<Rightarrow> False
      | Some sl \<Rightarrow> (case slicer_at sl x of None \<Rightarrow> False | Some q \<Rightarrow> holds q k d))"

definition opt_queue :: "'a list option \<Rightarrow> 'a list" where
  "opt_queue qu = (case qu of None \<Rightarrow> [] | Some q \<Rightarrow> q)"

lemma opt_queue_simps [simp]: "opt_queue None = []" "opt_queue (Some q) = q"
  by (simp_all add: opt_queue_def)

lemma map_holds_at: "m_slicer m = Some sl \<Longrightarrow> map_holds m x k d \<longleftrightarrow> holds (opt_queue (slicer_at sl x)) k d"
  by (simp add: map_holds_def split: option.splits)

text \<open>The data operations meet the slicer's laws, with no crossing as the property that cannot come back.\<close>

lemma map_data_dup_id: "snd (map_data_dup f s qu) = qu" "mc_cross (fst (map_data_dup f s qu)) = mc_cross s"
  by (simp_all add: map_data_dup_def split: option.splits)

lemma map_add_laws:
  "data_laws (map_data_ops na nd) (\<lambda>s d. map_data_add s d data) (\<lambda>s. \<not> c_found (mc_cross s))"
  by (auto simp: data_laws_def map_data_ops_def map_data_dup_id map_data_free_def map_data_add_def)

lemma map_any_laws: "data_laws (map_data_ops na nd) val (\<lambda>_. True)"
  by (simp add: data_laws_def map_data_ops_def map_data_dup_id)

text \<open>The invariant of a map: that of its slicer, and every datum an ordered queue of disjoint slices.\<close>

definition map_inv :: "slice_ops \<Rightarrow> nat \<Rightarrow> gpointer \<Rightarrow> slice_ops \<Rightarrow> nat \<Rightarrow> mbb_map \<Rightarrow> bool" where
  "map_inv ops lim E dops dlim m \<longleftrightarrow> m_dkey_ops m = Some dops \<and>
     (case m_slicer m of None \<Rightarrow> False
      | Some sl \<Rightarrow> slicer_inv lim E sl \<and> sops sl = ops \<and> sdops sl = map_data_ops (m_node_add m) (m_node_del m) \<and>
          (\<forall>x < lim. entries_ok dlim (opt_queue (slicer_at sl x))))"

locale map_keys = outer: key_space ops lim E + inner: key_exact dops dlim
  for ops lim E dops dlim
begin

lemma overlap_holds:
  assumes "entries_ok dlim q" and "slice_ok dlim a"
  shows "(\<exists>en \<in> set q. slice_cmp a (me_slice en) dops = 0) \<longleftrightarrow> (\<exists>k < dlim. slice_mem a k \<and> (\<exists>d. holds q k d))"
  using assms inner.slice_cmp_zero [of a] by (auto simp: entries_ok_def holds_def)

lemma add_keeps_no_cross:
  assumes inv: "slicer_inv lim E sl" "sops sl = ops" "sdops sl = map_data_ops na nd"
    and q: "\<forall>x < lim. entries_ok dlim (opt_queue (slicer_at sl x))"
    and a: "slice_ok lim \<lparr>s_begin = b, s_end = e\<rparr>" and cur: "slice_ok dlim (me_slice (md_entry data))" "md_ops data = dops"
    and none: "\<not> (\<exists>x < lim. slice_mem \<lparr>s_begin = b, s_end = e\<rparr> x \<and>
        (\<exists>en \<in> set (opt_queue (slicer_at sl x)). slice_cmp (me_slice (md_entry data)) (me_slice en) dops = 0))"
    and res: "slicer_insert tree sl s data b e = Some (s', sl')" and s: "\<not> c_found (mc_cross s)"
  shows "\<not> c_found (mc_cross s')"
proof (rule apply_change_forward [where P = "\<lambda>s. \<not> c_found (mc_cross s)", OF _ res [unfolded slicer_insert_def] s])
  fix sc en sc' ps
  let ?a = "\<lparr>s_begin = b, s_end = e\<rparr>"
  assume en: "en \<in> set (queue sl)" and P: "\<not> c_found (mc_cross (fst sc))"
    and ch: "change_data (sops sl) (sdops sl) data ?a insert_add sc en = Some (sc', ps)"
  have "slice_cmp (e_slice en) ?a ops = 0"
    using ch inv(2) change_data_none_iff [of ops "sdops sl" data ?a insert_add sc en] by auto
  moreover have "slice_ok lim (e_slice en)" using en inv(1) by (simp add: slicer_inv_def)
  ultimately obtain x where x: "x < lim" "slice_mem (e_slice en) x" "slice_mem ?a x"
    using outer.slice_cmp_zero a by blast
  have "slicer_at sl x = e_data en"
    using en x(2) inv(1) queue_at_nth [of "queue sl"] tiles_sorted
    by (fastforce simp: slicer_at_def slicer_inv_def in_set_conv_nth)
  with x q none have dat: "entries_ok dlim (opt_queue (e_data en))"
    "\<not> (\<exists>y \<in> set (opt_queue (e_data en)). slice_cmp (me_slice (md_entry data)) (me_slice y) dops = 0)" by metis+
  have add: "\<not> c_found (mc_cross (fst (map_data_add s1 (e_data en) data)))" if "\<not> c_found (mc_cross s1)" for s1
    using inner.map_data_add_spec(1) [of "e_data en" data s1] dat cur that
    by (metis opt_queue_def prod.collapse)
  have part: "insert_part (map_data_ops na nd) sc d l = (sc1, es) \<Longrightarrow> mc_cross (fst sc1) = mc_cross (fst sc)" for sc d l sc1 es
    by (cases sc; cases l) (auto simp: map_data_ops_def map_data_dup_id)
  have func: "insert_add (map_data_ops na nd) sc1 (e_data en) data m = (sc2, mid) \<Longrightarrow>
      \<not> c_found (mc_cross (fst sc1)) \<Longrightarrow> \<not> c_found (mc_cross (fst sc2))" for sc1 m sc2 mid
    using add map_data_dup_id
    by (cases sc1) (auto simp: insert_add_def map_data_ops_def Let_def case_prod_unfold)
  have free: "mc_cross (fst (slicer_entry_free (map_data_ops na nd) sc3 en)) = mc_cross (fst sc3)" for sc3
    by (cases sc3) (auto simp: slicer_entry_free_def map_data_ops_def map_data_free_def split: option.splits)
  obtain l m r sc1 left sc2 mid sc3 right where
    "insert_part (map_data_ops na nd) sc (e_data en) l = (sc1, left)"
    "insert_add (map_data_ops na nd) sc1 (e_data en) data m = (sc2, mid)"
    "insert_part (map_data_ops na nd) sc2 (e_data en) r = (sc3, right)"
    "sc' = slicer_entry_free (map_data_ops na nd) sc3 en"
    using ch inv(3) by (auto simp: change_data_def Let_def split: prod.splits option.splits if_splits)
  with part func free P show "\<not> c_found (mc_cross (fst sc'))" by metis
qed

lemma add_queue:
  assumes ok: "entries_ok dlim (opt_queue qu)" and cur: "slice_ok dlim (me_slice (md_entry data))" "md_ops data = dops"
  shows "entries_ok dlim (opt_queue (snd (map_data_add s1 qu data)))"
    and "holds (opt_queue qu) k d \<Longrightarrow> holds (opt_queue (snd (map_data_add s1 qu data))) k d"
    and "holds (opt_queue (snd (map_data_add s1 qu data))) k d \<Longrightarrow>
           holds (opt_queue qu) k d \<or> slice_mem (me_slice (md_entry data)) k \<and> d = me_data (md_entry data)"
    and "\<not> c_found (mc_cross s1) \<Longrightarrow> \<not> c_found (mc_cross (fst (map_data_add s1 qu data))) \<Longrightarrow>
           slice_mem (me_slice (md_entry data)) k \<Longrightarrow>
           holds (opt_queue (snd (map_data_add s1 qu data))) k (me_data (md_entry data)) \<and>
           (k < dlim \<longrightarrow> \<not> holds (opt_queue qu) k d)"
proof -
  obtain s2 qu2 where r: "map_data_add s1 qu data = (s2, qu2)" by fastforce
  show "entries_ok dlim (opt_queue (snd (map_data_add s1 qu data)))"
    "holds (opt_queue qu) k d \<Longrightarrow> holds (opt_queue (snd (map_data_add s1 qu data))) k d"
    "holds (opt_queue (snd (map_data_add s1 qu data))) k d \<Longrightarrow>
       holds (opt_queue qu) k d \<or> slice_mem (me_slice (md_entry data)) k \<and> d = me_data (md_entry data)"
    using inner.map_data_add_spec(2) [OF _ cur _ r] ok r
    by (cases "c_found (mc_cross s1)"; auto simp: map_data_add_def opt_queue_def)+
  show "holds (opt_queue (snd (map_data_add s1 qu data))) k (me_data (md_entry data)) \<and>
      (k < dlim \<longrightarrow> \<not> holds (opt_queue qu) k d)"
    if "\<not> c_found (mc_cross s1)" "\<not> c_found (mc_cross (fst (map_data_add s1 qu data)))" "slice_mem (me_slice (md_entry data)) k"
    using inner.map_data_add_spec [OF _ cur that(1) r] overlap_holds [OF ok cur(1)] ok that r
    by (auto simp: opt_queue_def)
qed

lemma insert_holds:
  assumes sl: "slicer_inv lim E sl" "sops sl = ops" "sdops sl = map_data_ops na nd"
      "\<forall>x < lim. entries_ok dlim (opt_queue (slicer_at sl x))"
    and tree: "tree_search_ok tree" and key: "cut_ok lim E \<lparr>s_begin = b, s_end = e\<rparr>"
    and data: "slice_ok dlim (me_slice (md_entry data))" "md_ops data = dops"
    and res: "slicer_insert tree sl s data b e = Some (s', sl')" and s: "\<not> c_found (mc_cross s)"
  shows "slicer_inv lim E sl'" and "sops sl' = ops" and "sdops sl' = map_data_ops na nd"
    and "x < lim \<Longrightarrow> entries_ok dlim (opt_queue (slicer_at sl' x))"
    and "x < lim \<Longrightarrow> holds (opt_queue (slicer_at sl x)) k d \<Longrightarrow> holds (opt_queue (slicer_at sl' x)) k d"
    and "x < lim \<Longrightarrow> holds (opt_queue (slicer_at sl' x)) k d \<Longrightarrow> holds (opt_queue (slicer_at sl x)) k d \<or>
           slice_mem \<lparr>s_begin = b, s_end = e\<rparr> x \<and> slice_mem (me_slice (md_entry data)) k \<and> d = me_data (md_entry data)"
    and "\<not> c_found (mc_cross s') \<Longrightarrow> x < lim \<Longrightarrow> slice_mem \<lparr>s_begin = b, s_end = e\<rparr> x \<Longrightarrow>
           slice_mem (me_slice (md_entry data)) k \<Longrightarrow>
           holds (opt_queue (slicer_at sl' x)) k (me_data (md_entry data)) \<and>
           (k < dlim \<longrightarrow> \<not> holds (opt_queue (slicer_at sl x)) k d)"
    and "c_found (mc_cross s') \<Longrightarrow> \<exists>x < lim. \<exists>k < dlim. \<exists>d. slice_mem \<lparr>s_begin = b, s_end = e\<rparr> x \<and>
           slice_mem (me_slice (md_entry data)) k \<and> holds (opt_queue (slicer_at sl x)) k d"
proof -
  let ?a = "\<lparr>s_begin = b, s_end = e\<rparr>"
  have a: "slice_ok lim ?a" using key by (simp add: cut_ok_def)
  have func: "func_is (sdops sl) insert_add data (\<lambda>s d. map_data_add s d data)"
    using insert_add_is [of "sdops sl" data] sl(3) by (simp add: map_data_ops_def)
  note res' = res [unfolded slicer_insert_def]
  note laws = map_any_laws [of na nd, folded sl(3)] and laws' = map_add_laws [of na nd, folded sl(3)]
  note any = outer.apply_change_inv [OF sl(1,2) tree key laws func res' TrueI]
    and nof = outer.apply_change_inv(2) [OF sl(1,2) tree key laws' func res']
  show "slicer_inv lim E sl'" by (rule any(1))
  show "sops sl' = ops" "sdops sl' = map_data_ops na nd"
    using outer.apply_change_steps(2,3) [OF sl(1,2) tree a laws func res' TrueI] sl(3) by simp_all
  have at: "(\<exists>s1. slice_mem ?a x \<and> slicer_at sl' x = snd (map_data_add s1 (slicer_at sl x) data)) \<or>
      slicer_at sl' x = slicer_at sl x" if "x < lim" for x
    using any(2) [OF that] by (auto split: if_splits)
  note old = add_queue(1,2,3) [OF sl(4) [rule_format] data]
  show "entries_ok dlim (opt_queue (slicer_at sl' x))" if "x < lim"
    using at [OF that] old(1) [OF that] sl(4) that by metis
  show "holds (opt_queue (slicer_at sl x)) k d \<Longrightarrow> holds (opt_queue (slicer_at sl' x)) k d" if "x < lim"
    using at [OF that] old(2) [OF that] by metis
  show "holds (opt_queue (slicer_at sl' x)) k d \<Longrightarrow> holds (opt_queue (slicer_at sl x)) k d \<or>
      slice_mem ?a x \<and> slice_mem (me_slice (md_entry data)) k \<and> d = me_data (md_entry data)" if "x < lim"
    using at [OF that] old(3) [OF that] by metis
  show "holds (opt_queue (slicer_at sl' x)) k (me_data (md_entry data)) \<and>
      (k < dlim \<longrightarrow> \<not> holds (opt_queue (slicer_at sl x)) k d)"
    if f: "\<not> c_found (mc_cross s')" and x: "x < lim" and mem: "slice_mem ?a x" "slice_mem (me_slice (md_entry data)) k"
  proof -
    obtain s1 where "\<not> c_found (mc_cross s1)" "\<not> c_found (mc_cross (fst (map_data_add s1 (slicer_at sl x) data)))"
        "slicer_at sl' x = snd (map_data_add s1 (slicer_at sl x) data)"
      using nof [OF f x] mem(1) by auto
    with add_queue(4) [OF sl(4) [rule_format, OF x] data] mem(2) show ?thesis by simp
  qed
  show "\<exists>x < lim. \<exists>k < dlim. \<exists>d. slice_mem ?a x \<and> slice_mem (me_slice (md_entry data)) k \<and>
      holds (opt_queue (slicer_at sl x)) k d" if "c_found (mc_cross s')"
  proof (rule ccontr)
    assume no: "\<not> ?thesis"
    have "\<not> (\<exists>x < lim. slice_mem ?a x \<and>
        (\<exists>en \<in> set (opt_queue (slicer_at sl x)). slice_cmp (me_slice (md_entry data)) (me_slice en) dops = 0))"
      using no overlap_holds [OF sl(4) [rule_format] data(1)] by blast
    with add_keeps_no_cross [OF sl(1,2,3,4) a data _ res s] that show False by blast
  qed
qed

lemma add_spec:
  assumes inv: "map_inv ops lim E dops dlim m" and tree: "tree_search_ok tree"
    and key: "cut_ok lim E key" and dkey: "slice_ok dlim dkey"
  shows "\<exists>s' m'. map_add tree s m key dkey ptr = Some (s', m') \<and> map_inv ops lim E dops dlim m' \<and>
     (c_found (mc_cross s') \<longleftrightarrow> (\<exists>x < lim. \<exists>k < dlim. \<exists>d. slice_mem key x \<and> slice_mem dkey k \<and> map_holds m x k d)) \<and>
     (\<forall>x < lim. \<forall>k d. map_holds m x k d \<longrightarrow> map_holds m' x k d) \<and>
     (\<forall>x < lim. \<forall>k d. map_holds m' x k d \<longrightarrow>
        map_holds m x k d \<or> slice_mem key x \<and> slice_mem dkey k \<and> d = ptr) \<and>
     (\<not> c_found (mc_cross s') \<longrightarrow> (\<forall>x < lim. \<forall>k. slice_mem key x \<and> slice_mem dkey k \<longrightarrow> map_holds m' x k ptr))"
proof -
  obtain sl where sl: "slicer_inv lim E sl" "sops sl = ops"
      "sdops sl = map_data_ops (m_node_add m) (m_node_del m)" "\<forall>x < lim. entries_ok dlim (opt_queue (slicer_at sl x))"
      and m: "m_dkey_ops m = Some dops" "m_slicer m = Some sl"
    using inv by (auto simp: map_inv_def split: option.splits)
  define data where "data = \<lparr>md_entry = map_entry_new (s_begin dkey) (s_end dkey) ptr, md_ops = dops,
      md_node_add = m_node_add m, md_node_del = m_node_del m\<rparr>"
  let ?s = "s\<lparr>mc_cross := (mc_cross s)\<lparr>c_found := False\<rparr>\<rparr>"
  obtain b e where k: "key = \<lparr>s_begin = b, s_end = e\<rparr>" by (cases key)
  have cur: "me_slice (md_entry data) = dkey" "me_data (md_entry data) = ptr" "md_ops data = dops"
    by (simp_all add: data_def map_entry_new_def)
  have a: "slice_ok lim \<lparr>s_begin = b, s_end = e\<rparr>" using key k by (simp add: cut_ok_def)
  obtain s' sl' where res: "slicer_insert tree sl ?s data b e = Some (s', sl')"
    unfolding slicer_insert_def using outer.apply_change_defined [OF sl(1,2) tree a] by blast
  have "slice_ok dlim (me_slice (md_entry data))" using dkey cur by simp
  note ins = insert_holds [OF sl tree key [unfolded k] this cur(3) res, unfolded cur k [symmetric]]
  let ?m = "m\<lparr>m_slicer := Some sl'\<rparr>"
  have ex: "map_add tree s m key dkey ptr = Some (s', ?m)"
    using res m k by (simp add: map_add_def Let_def inner.dup_id data_def)
  have h: "map_holds m x k d \<longleftrightarrow> holds (opt_queue (slicer_at sl x)) k d"
    "map_holds ?m x k d \<longleftrightarrow> holds (opt_queue (slicer_at sl' x)) k d" for x k d
    using map_holds_at m by simp_all
  have inv': "map_inv ops lim E dops dlim ?m" using ins(1-4) m by (simp add: map_inv_def)
  have found: "c_found (mc_cross s') \<longleftrightarrow> (\<exists>x < lim. \<exists>k < dlim. \<exists>d. slice_mem key x \<and> slice_mem dkey k \<and> map_holds m x k d)"
    unfolding h using ins(7,8) by auto
  show ?thesis
    by (intro exI [of _ s'] exI [of _ ?m] conjI ex inv' found) (use ins(5-7) in \<open>auto simp: h\<close>)
qed

end

context map_keys
begin

lemma del_queue:
  assumes ok: "entries_ok dlim (opt_queue qu)" and cur: "cut_ok dlim 0 (me_slice (md_entry data))" "md_ops data = dops"
  shows "entries_ok dlim (opt_queue (snd (map_data_del s1 qu data)))"
    and "k < dlim \<Longrightarrow> holds (opt_queue (snd (map_data_del s1 qu data))) k d \<longleftrightarrow> holds (opt_queue qu) k d \<and>
        \<not> (slice_mem (me_slice (md_entry data)) k \<and> (me_data (md_entry data) = 0 \<or> me_data (md_entry data) = d))"
proof -
  obtain s2 q2 where r: "del_loop data s1 (opt_queue qu) = (s2, q2)" by fastforce
  have "opt_queue (snd (map_data_del s1 qu data)) = q2"
    using r by (cases qu) (auto simp: map_data_del_def)
  then show "entries_ok dlim (opt_queue (snd (map_data_del s1 qu data)))"
    "k < dlim \<Longrightarrow> holds (opt_queue (snd (map_data_del s1 qu data))) k d \<longleftrightarrow> holds (opt_queue qu) k d \<and>
        \<not> (slice_mem (me_slice (md_entry data)) k \<and> (me_data (md_entry data) = 0 \<or> me_data (md_entry data) = d))"
    using inner.del_loop_spec [OF cur r ok] by simp_all
qed

lemma del_spec:
  assumes inv: "map_inv ops lim E dops dlim m" and tree: "tree_search_ok tree"
    and key: "cut_ok lim E key" and dkey: "cut_ok dlim 0 dkey"
  shows "\<exists>s' m'. map_del tree s m key dkey ptr = Some (s', m') \<and> map_inv ops lim E dops dlim m' \<and>
     (\<forall>x < lim. \<forall>k < dlim. \<forall>d. map_holds m' x k d \<longleftrightarrow>
        map_holds m x k d \<and> \<not> (slice_mem key x \<and> slice_mem dkey k \<and> (ptr = 0 \<or> ptr = d)))"
proof -
  obtain sl where sl: "slicer_inv lim E sl" "sops sl = ops"
      "sdops sl = map_data_ops (m_node_add m) (m_node_del m)" "\<forall>x < lim. entries_ok dlim (opt_queue (slicer_at sl x))"
      and m: "m_dkey_ops m = Some dops" "m_slicer m = Some sl"
    using inv by (auto simp: map_inv_def split: option.splits)
  define data where "data = \<lparr>md_entry = map_entry_new (s_begin dkey) (s_end dkey) ptr, md_ops = dops,
      md_node_add = m_node_add m, md_node_del = m_node_del m\<rparr>"
  obtain b e where k: "key = \<lparr>s_begin = b, s_end = e\<rparr>" by (cases key)
  have cur: "me_slice (md_entry data) = dkey" "me_data (md_entry data) = ptr" "md_ops data = dops"
    by (simp_all add: data_def map_entry_new_def)
  have a: "slice_ok lim \<lparr>s_begin = b, s_end = e\<rparr>" using key k by (simp add: cut_ok_def)
  obtain s' sl' where res: "slicer_delete tree sl s data b e = Some (s', sl')"
    unfolding slicer_delete_def using outer.apply_change_defined [OF sl(1,2) tree a] by blast
  note res' = res [unfolded slicer_delete_def]
  have func: "func_is (sdops sl) insert_del data (\<lambda>s d. map_data_del s d data)"
    using insert_del_is [of "sdops sl" data] sl(3) by (simp add: map_data_ops_def)
  note laws = map_any_laws [of "m_node_add m" "m_node_del m", folded sl(3)]
  note any = outer.apply_change_inv [OF sl(1,2) tree key [unfolded k] laws func res' TrueI, folded k]
  have "cut_ok dlim 0 (me_slice (md_entry data))" using dkey cur by simp
  note q = del_queue [OF sl(4) [rule_format] this cur(3), unfolded cur]
  have ok: "entries_ok dlim (opt_queue (slicer_at sl' x))" if x: "x < lim" for x
    using any(2) [OF x] q(1) [OF x] sl(4) x by (metis (mono_tags))
  have eq: "holds (opt_queue (slicer_at sl' x)) k d \<longleftrightarrow> holds (opt_queue (slicer_at sl x)) k d \<and>
      \<not> (slice_mem key x \<and> slice_mem dkey k \<and> (ptr = 0 \<or> ptr = d))" if x: "x < lim" "k < dlim" for x k d
    using any(2) [OF x(1)] q(2) [OF x] by (cases "slice_mem key x") auto
  let ?m = "m\<lparr>m_slicer := Some sl'\<rparr>"
  have ex: "map_del tree s m key dkey ptr = Some (s', ?m)"
    using res m k by (simp add: map_del_def Let_def inner.dup_id data_def)
  have "map_inv ops lim E dops dlim ?m"
    using any(1) ok outer.apply_change_steps(2,3) [OF sl(1,2) tree a laws func res' TrueI] sl(3) m
    by (simp add: map_inv_def)
  moreover have "map_holds m x k d \<longleftrightarrow> holds (opt_queue (slicer_at sl x)) k d"
    "map_holds ?m x k d \<longleftrightarrow> holds (opt_queue (slicer_at sl' x)) k d" for x k d
    using map_holds_at m by simp_all
  ultimately show ?thesis using ex eq by auto
qed

lemma find_entry_spec:
  assumes k: "unat p < dlim"
  shows "entries_ok dlim q \<Longrightarrow> (holds q (unat p) d \<longrightarrow> find_entry dops p q = d) \<and>
     ((\<nexists>d. holds q (unat p) d) \<longrightarrow> find_entry dops p q = 0)"
proof (induction q)
  case (Cons en q)
  have en: "slice_ok dlim (me_slice en)" "entries_ok dlim q" "\<forall>x \<in> set q. before (me_slice en) (me_slice x)"
    using Cons.prems by (auto simp: entries_ok_def)
  note sg = inner.slice_cmp_point_sgn [OF en(1) k]
  show ?case
  proof (cases "slice_mem (me_slice en) (unat p)")
    case True
    with holds_unique [OF Cons.prems, of "unat p" "me_data en"] sg show ?thesis by auto
  next
    case False
    have "\<not> holds q (unat p) d'" if "unat p < unat (s_begin (me_slice en))" for d'
      using that en(1,3) by (auto simp: holds_def before_def slice_mem_alt slice_ok_def word_le_nat_alt)
    with False sg Cons.IH [OF en(2)] show ?thesis by (auto simp: Let_def)
  qed
qed simp

lemma find_spec:
  assumes inv: "map_inv ops lim E dops dlim m" and tree: "tree_search_ok tree"
    and key: "unat key < lim" and dkey: "unat dkey < dlim"
  shows "\<exists>p. map_find tree m key dkey = Some p \<and> (\<forall>d. map_holds m (unat key) (unat dkey) d \<longrightarrow> p = d) \<and>
     ((\<nexists>d. map_holds m (unat key) (unat dkey) d) \<longrightarrow> p = 0)"
proof -
  obtain sl where sl: "slicer_inv lim E sl" "sops sl = ops" "\<forall>x < lim. entries_ok dlim (opt_queue (slicer_at sl x))"
      and m: "m_dkey_ops m = Some dops" "m_slicer m = Some sl"
    using inv by (auto simp: map_inv_def split: option.splits)
  have "slicer_find tree sl key = slicer_at sl (unat key)" by (rule outer.find_at [OF sl(1,2) tree key])
  with m find_entry_spec [OF dkey sl(3) [rule_format, OF key]] show ?thesis
    by (cases "slicer_at sl (unat key)") (auto simp: map_find_def map_holds_def)
qed

end

section \<open>Properties of the maps of the program\<close>

interpretation time_exact: key_exact time_ops "2 ^ 31"
proof
  fix a b :: gpointer
  assume "unat a < 2 ^ 31" "unat b < 2 ^ 31" "sop_cmp time_ops a b = 1"
  then have "to_gint (int (unat a) - int (unat b)) = 1"
    by (simp add: time_ops_def time_cmp_def GPOINTER_TO_TIME_def sint_small del: of_nat_unat)
  moreover have "to_gint (int (unat a) - int (unat b)) = int (unat a) - int (unat b)"
    using \<open>unat a < 2 ^ 31\<close> \<open>unat b < 2 ^ 31\<close> by (intro to_gint_id) (simp_all del: of_nat_unat)
  ultimately show "unat a = Suc (unat b)" by linarith
qed

interpretation inet_map_keys: map_keys inet_ops "2 ^ 32" "IPV4_TO_POINTER 0xffffffff" time_ops "2 ^ 31"
  by unfold_locales

abbreviation inet_map_inv :: "mbb_map \<Rightarrow> bool" where
  "inet_map_inv \<equiv> map_inv inet_ops (2 ^ 32) (IPV4_TO_POINTER 0xffffffff) time_ops (2 ^ 31)"

abbreviation ip_cut :: "slice \<Rightarrow> bool" where
  "ip_cut \<equiv> cut_ok (2 ^ 32) (IPV4_TO_POINTER 0xffffffff)"

lemma inet_map_init_inv: "inet_map_inv (snd (inet_map_init s m))"
  by (simp add: inet_map_init_def map_init_slicer_def map_clear_def map_init_def inet_slicer_new_def
      slicer_init_def slicer_new_def Let_def map_inv_def slicer_inv_def slice_ok_def inet_ops_def
      slicer_dup_dummy_def slicer_at_def queue_at_def)


definition ctx0 :: map_ctx where
  "ctx0 = \<lparr>mc_cross = \<lparr>c_slice = \<lparr>s_begin = 0, s_end = 0\<rparr>, c_data = 0, c_found = False\<rparr>, mc_events = []\<rparr>"

definition map0 :: mbb_map where
  "map0 = \<lparr>m_slicer = None, m_dkey_ops = None, m_node_add = False, m_node_del = False\<rparr>"

lemma sample_slices:
  "ip_cut \<lparr>s_begin = 0x0a000000, s_end = 0x0affffff\<rparr>" "slice_ok (2 ^ 31) \<lparr>s_begin = 100, s_end = 200\<rparr>"
  "cut_ok (2 ^ 31) 0 \<lparr>s_begin = 100, s_end = 200\<rparr>"
  by (simp_all add: cut_ok_def slice_ok_def IPV4_TO_POINTER_def)






text \<open>
  The comparison of addresses never tells a neighbour from any greater address. So a queue
  keyed by address, as in a time map, joins two ranges of one datum whatever lies between
  them: after adding 10.0.0.16 to 10.0.0.31 next to 10.0.0.0 to 10.0.0.3, the queue also
  holds 10.0.0.8.
\<close>

lemma time_map_joins_gaps:
  fixes d :: gpointer
  defines "e1 \<equiv> \<lparr>me_slice = \<lparr>s_begin = 0x0a000000, s_end = 0x0a000003\<rparr>, me_data = d\<rparr>"
    and "e2 \<equiv> \<lparr>me_slice = \<lparr>s_begin = 0x0a000010, s_end = 0x0a00001f\<rparr>, me_data = d\<rparr>"
  shows "holds (opt_queue (snd (map_data_add ctx0 (Some [e1])
      \<lparr>md_entry = e2, md_ops = inet_ops, md_node_add = False, md_node_del = False\<rparr>))) 0x0a000008 d"
  by (simp add: e1_def e2_def ctx0_def map_data_add_def slice_cmp_def end_begin_cmp_def begin_end_cmp_def
      inet_ops_def inet_cmp_def GPOINTER_TO_IPV4_def slicer_dup_dummy_def map_data_split_def map_entry_new_def
      Let_def slice_mem_def)

end
