(* ===== verification/Data_Link.thy ===== *)
theory Data_Link
  imports Mbb_Prelude "HOL-Library.Monad_Syntax"
begin

text \<open>
  The object registries of \<open>mbbd/datalink.c\<close>: one hash table per key of an object (its
  address, its id, its name, ...), all updated together. Objects live in a heap that maps
  addresses to records; a hash table maps the content of a key to an address. GLib's
  table keeps a pointer into the object as key, so the content at the time of insertion
  is what the model stores; every module changes a key only while the object is
  unlinked. Reading an address without an object is \<open>None\<close>. The order in which a hash
  table is iterated is not specified, so the iterations yield the set of the objects
  they visit. The locale \<open>named_registry\<close> holds what the modules rely on; it is
  interpreted by each of them.
\<close>

section \<open>Definitions\<close>

datatype dl_key = Key_Ptr gpointer | Key_Int int | Key_Str string

type_synonym 'o dl_entries = "(gpointer \<Rightarrow> 'o \<Rightarrow> dl_key) list"

record data_link =
  dl_tables :: "(dl_key \<rightharpoonup> gpointer) list"
  dl_destroy :: bool

type_synonym 'o heap = "gpointer \<rightharpoonup> 'o"

definition data_link_new :: "'o dl_entries \<Rightarrow> data_link" where
  "data_link_new entries = \<lparr>dl_tables = map (\<lambda>_. Map.empty) entries, dl_destroy = False\<rparr>"

definition data_link_new_full :: "'o dl_entries \<Rightarrow> data_link" where
  "data_link_new_full entries = (data_link_new entries)\<lparr>dl_destroy := True\<rparr>"

definition data_link_insert :: "'o dl_entries \<Rightarrow> 'o heap \<Rightarrow> data_link \<Rightarrow> gpointer \<Rightarrow> data_link option" where
  "data_link_insert entries h dlink data =
     do { x \<leftarrow> h data;
          Some (dlink\<lparr>dl_tables := map2 (\<lambda>key t. t(key data x \<mapsto> data)) entries (dl_tables dlink)\<rparr>) }"

definition data_link_lookup :: "data_link \<Rightarrow> nat \<Rightarrow> dl_key \<Rightarrow> gpointer option" where
  "data_link_lookup dlink entry_no key =
     (if entry_no < length (dl_tables dlink) then (dl_tables dlink ! entry_no) key else None)"

definition data_link_unlink :: "'o dl_entries \<Rightarrow> 'o heap \<Rightarrow> data_link \<Rightarrow> gpointer \<Rightarrow> data_link option" where
  "data_link_unlink entries h dlink data =
     do { x \<leftarrow> h data;
          Some (dlink\<lparr>dl_tables := map2 (\<lambda>key t. t(key data x := None)) entries (dl_tables dlink)\<rparr>) }"

definition data_link_steal :: "'o dl_entries \<Rightarrow> 'o heap \<Rightarrow> data_link \<Rightarrow> nat \<Rightarrow> dl_key \<Rightarrow> data_link option" where
  "data_link_steal entries h dlink entry_no key =
     (case data_link_lookup dlink entry_no key of
        None \<Rightarrow> Some dlink
      | Some data \<Rightarrow> data_link_unlink entries h dlink data)"

text \<open>\<open>data_link_remove\<close> also calls the destructor: the address to destroy, if any.\<close>

definition data_link_remove ::
  "'o dl_entries \<Rightarrow> 'o heap \<Rightarrow> data_link \<Rightarrow> nat \<Rightarrow> dl_key \<Rightarrow> (data_link \<times> gpointer option) option" where
  "data_link_remove entries h dlink entry_no key =
     (case data_link_lookup dlink entry_no key of
        None \<Rightarrow> Some (dlink, None)
      | Some data \<Rightarrow>
          do { dlink' \<leftarrow> data_link_unlink entries h dlink data;
               Some (dlink', if dl_destroy dlink then Some data else None) })"

definition data_link_free :: "data_link \<Rightarrow> gpointer set" where
  "data_link_free dlink = (if dl_destroy dlink then ran (hd (dl_tables dlink)) else {})"

definition data_link_foreach :: "data_link option \<Rightarrow> gpointer set" where
  "data_link_foreach dlink = (case dlink of None \<Rightarrow> {} | Some dl \<Rightarrow> ran (hd (dl_tables dl)))"

text \<open>The regular expression is GLib's matcher, a predicate on the key.\<close>

definition data_link_forregex ::
  "'o dl_entries \<Rightarrow> 'o heap \<Rightarrow> data_link option \<Rightarrow> (dl_key \<Rightarrow> bool) option \<Rightarrow> nat \<Rightarrow> gpointer set" where
  "data_link_forregex entries h dlink re entry_no =
     (case re of
        None \<Rightarrow> data_link_foreach dlink
      | Some re_ismatch \<Rightarrow>
          (case dlink of
             None \<Rightarrow> {}
           | Some dl \<Rightarrow>
               if entry_no \<ge> length (dl_tables dl) then {}
               else {p \<in> ran (hd (dl_tables dl)).
                      \<exists>x. h p = Some x \<and> re_ismatch ((entries ! entry_no) p x)}))"

subsection \<open>The part every module repeats\<close>

text \<open>
  Each module keeps a static \<open>dlink\<close>, created on the first \<open>join\<close>; its objects are part of
  the heap.
\<close>

record 'o dl_module =
  dm_link :: "data_link option"
  dm_heap :: "'o heap"

definition module_join :: "'o dl_entries \<Rightarrow> 'o dl_module \<Rightarrow> gpointer \<Rightarrow> 'o dl_module option" where
  "module_join entries st p =
     (let dlink = (case dm_link st of None \<Rightarrow> data_link_new_full entries | Some dl \<Rightarrow> dl)
      in do { dl \<leftarrow> data_link_insert entries (dm_heap st) dlink p;
              Some (st\<lparr>dm_link := Some dl\<rparr>) })"

definition module_detach :: "'o dl_entries \<Rightarrow> 'o dl_module \<Rightarrow> gpointer \<Rightarrow> 'o dl_module option" where
  "module_detach entries st p =
     (case dm_link st of
        None \<Rightarrow> Some st
      | Some dlink \<Rightarrow>
          do { dl \<leftarrow> data_link_steal entries (dm_heap st) dlink 0 (Key_Ptr p);
               Some (st\<lparr>dm_link := Some dl\<rparr>) })"

definition module_get :: "'o dl_module \<Rightarrow> nat \<Rightarrow> dl_key \<Rightarrow> gpointer option" where
  "module_get st entry_no key =
     (case dm_link st of None \<Rightarrow> None | Some dlink \<Rightarrow> data_link_lookup dlink entry_no key)"

text \<open>\<open>mod_name\<close> of a module, with the entry number of the names and the update of the field.\<close>

definition module_mod_name ::
  "'o dl_entries \<Rightarrow> nat \<Rightarrow> (string \<Rightarrow> 'o \<Rightarrow> 'o) \<Rightarrow> 'o dl_module \<Rightarrow> gpointer \<Rightarrow> string
     \<Rightarrow> ('o dl_module \<times> bool) option" where
  "module_mod_name entries name_no set_name st p newname =
     (case dm_link st of
        None \<Rightarrow> Some (st, False)
      | Some dlink \<Rightarrow>
          if data_link_lookup dlink name_no (Key_Str newname) \<noteq> None then Some (st, False)
          else
            do { dl \<leftarrow> data_link_steal entries (dm_heap st) dlink 0 (Key_Ptr p);
                 x \<leftarrow> dm_heap st p;
                 let h = (dm_heap st)(p \<mapsto> set_name newname x);
                 dl \<leftarrow> data_link_insert entries h dl p;
                 Some (st\<lparr>dm_link := Some dl, dm_heap := h\<rparr>, True) })"

section \<open>The invariant\<close>

text \<open>
  A registry links the set \<open>S\<close>: every table holds exactly the keys of the objects in \<open>S\<close>, so
  each key is unique on \<open>S\<close>.
\<close>

definition links :: "'o dl_entries \<Rightarrow> 'o heap \<Rightarrow> gpointer set \<Rightarrow> data_link \<Rightarrow> bool" where
  "links entries h S dlink \<longleftrightarrow> length (dl_tables dlink) = length entries \<and>
     (\<forall>i < length entries. \<forall>k p. (dl_tables dlink ! i) k = Some p \<longleftrightarrow>
        p \<in> S \<and> (\<exists>x. h p = Some x \<and> (entries ! i) p x = k))"

definition fresh_keys :: "'o dl_entries \<Rightarrow> 'o heap \<Rightarrow> gpointer set \<Rightarrow> gpointer \<Rightarrow> 'o \<Rightarrow> bool" where
  "fresh_keys entries h S p x \<longleftrightarrow>
     (\<forall>i < length entries. \<forall>q \<in> S. \<forall>y. h q = Some y \<longrightarrow> q \<noteq> p \<longrightarrow> (entries ! i) q y \<noteq> (entries ! i) p x)"

lemma links_new [simp]: "links entries h {} (data_link_new_full entries)"
  by (simp add: links_def data_link_new_full_def data_link_new_def)

lemma links_lookup:
  assumes "links entries h S dlink"
  shows "data_link_lookup dlink i k = Some p \<longleftrightarrow>
     i < length entries \<and> p \<in> S \<and> (\<exists>x. h p = Some x \<and> (entries ! i) p x = k)"
  using assms by (auto simp: links_def data_link_lookup_def)

lemma links_insert:
  assumes l: "links entries h S dlink" and p: "h p = Some x" and new: "fresh_keys entries h S p x"
  shows "\<exists>dl. data_link_insert entries h dlink p = Some dl \<and> links entries h (insert p S) dl"
proof -
  let ?dl = "dlink\<lparr>dl_tables := map2 (\<lambda>key t. t(key p x \<mapsto> p)) entries (dl_tables dlink)\<rparr>"
  have "links entries h (insert p S) ?dl"
    using l p new unfolding links_def fresh_keys_def by (auto simp: nth_map)
  with p show ?thesis by (simp add: data_link_insert_def)
qed

lemma links_unlink:
  assumes l: "links entries h S dlink" and p: "h p = Some x" and S: "p \<in> S"
  shows "\<exists>dl. data_link_unlink entries h dlink p = Some dl \<and> links entries h (S - {p}) dl"
proof -
  let ?dl = "dlink\<lparr>dl_tables := map2 (\<lambda>key t. t(key p x := None)) entries (dl_tables dlink)\<rparr>"
  have u: "q = p" if "i < length entries" "q \<in> S" "h q = Some y" "(entries ! i) q y = (entries ! i) p x" for i q y
    using that l p S unfolding links_def by (metis option.inject)
  have "links entries h (S - {p}) ?dl"
    using l p S u unfolding links_def by (auto simp: nth_map)
  with p show ?thesis by (simp add: data_link_unlink_def)
qed

lemma links_heap_update: "links entries h S dlink \<Longrightarrow> p \<notin> S \<Longrightarrow> links entries (h(p := v)) S dlink"
  by (auto simp: links_def)

definition module_ok :: "'o dl_entries \<Rightarrow> 'o dl_module \<Rightarrow> gpointer set \<Rightarrow> bool" where
  "module_ok entries st S \<longleftrightarrow>
     (case dm_link st of None \<Rightarrow> S = {} | Some dlink \<Rightarrow> links entries (dm_heap st) S dlink) \<and>
     (\<forall>p \<in> S. dm_heap st p \<noteq> None)"

lemma module_get_iff:
  "module_ok entries st S \<Longrightarrow> module_get st i k = Some p \<longleftrightarrow>
     i < length entries \<and> p \<in> S \<and> (\<exists>x. dm_heap st p = Some x \<and> (entries ! i) p x = k)"
  by (auto simp: module_ok_def module_get_def links_lookup split: option.splits)

lemma module_get_none:
  "module_ok entries st S \<Longrightarrow> i < length entries \<Longrightarrow> module_get st i k = None \<longleftrightarrow>
     (\<forall>p \<in> S. \<forall>x. dm_heap st p = Some x \<longrightarrow> (entries ! i) p x \<noteq> k)"
  using module_get_iff [of entries st S i k] by (metis not_Some_eq)

lemma module_join_ok:
  assumes ok: "module_ok entries st S" and p: "dm_heap st p = Some x"
    and new: "fresh_keys entries (dm_heap st) S p x"
  shows "\<exists>st'. module_join entries st p = Some st' \<and> module_ok entries st' (insert p S) \<and> dm_heap st' = dm_heap st"
proof (cases "dm_link st")
  case None
  with ok have "S = {}" by (simp add: module_ok_def)
  with None links_insert [of entries "dm_heap st" "{}" "data_link_new_full entries" p x] ok p show ?thesis
    by (fastforce simp: module_join_def module_ok_def fresh_keys_def)
next
  case (Some dlink)
  with ok links_insert [of entries "dm_heap st" S dlink p x] p new show ?thesis
    by (fastforce simp: module_join_def module_ok_def)
qed

text \<open>The key that says where an object is: the first entry of every module.\<close>

definition self_first :: "'o dl_entries \<Rightarrow> bool" where
  "self_first entries \<longleftrightarrow> (\<exists>rest. entries = (\<lambda>p x. Key_Ptr p) # rest)"

lemma links_steal:
  assumes sf: "self_first entries" and l: "links entries h S dlink" and p: "\<forall>p \<in> S. h p \<noteq> None"
  shows "\<exists>dl. data_link_steal entries h dlink 0 (Key_Ptr p) = Some dl \<and> links entries h (S - {p}) dl"
proof (cases "p \<in> S")
  case True
  with p obtain x where x: "h p = Some x" by auto
  then have "data_link_lookup dlink 0 (Key_Ptr p) = Some p"
    using l True sf by (auto simp: links_lookup self_first_def)
  with links_unlink [OF l x True] show ?thesis by (simp add: data_link_steal_def)
next
  case False
  have "data_link_lookup dlink 0 (Key_Ptr p) \<noteq> Some q" for q
    using False sf links_lookup [OF l, of 0 "Key_Ptr p" q] by (auto simp: self_first_def)
  then have "data_link_lookup dlink 0 (Key_Ptr p) = None" by (cases "data_link_lookup dlink 0 (Key_Ptr p)") auto
  with False l show ?thesis by (simp add: data_link_steal_def)
qed

lemma module_detach_ok:
  assumes ok: "module_ok entries st S" and sf: "self_first entries"
  shows "\<exists>st'. module_detach entries st p = Some st' \<and> module_ok entries st' (S - {p}) \<and> dm_heap st' = dm_heap st"
proof (cases "dm_link st")
  case (Some dlink)
  with ok links_steal [OF sf, of "dm_heap st" S dlink p] show ?thesis
    by (fastforce simp: module_detach_def module_ok_def)
qed (use ok in \<open>simp add: module_detach_def module_ok_def\<close>)

text \<open>An object that is not registered may change, and be registered under keys that are not taken.\<close>

lemma module_ok_elsewhere:
  "module_ok entries m S \<Longrightarrow> p \<notin> S \<Longrightarrow> dm_heap m' = (dm_heap m)(p := v) \<Longrightarrow> dm_link m' = dm_link m \<Longrightarrow> module_ok entries m' S"
  by (auto simp: module_ok_def intro: links_heap_update split: option.splits)

lemma module_add_ok:
  assumes ok: "module_ok entries m S" and new: "p \<notin> S" "fresh_keys entries (dm_heap m) S p x"
    and m': "dm_heap m1 = (dm_heap m)(p \<mapsto> x)" "dm_link m1 = dm_link m" "module_join entries m1 p = Some m2"
  shows "module_ok entries m2 (insert p S)" "dm_heap m2 = (dm_heap m)(p \<mapsto> x)"
proof -
  have "module_ok entries m1 S" by (rule module_ok_elsewhere [OF ok new(1) m'(1,2)])
  moreover have "fresh_keys entries (dm_heap m1) S p x" using new m' by (auto simp: fresh_keys_def)
  ultimately show "module_ok entries m2 (insert p S)" "dm_heap m2 = (dm_heap m)(p \<mapsto> x)"
    using module_join_ok [of entries m1 S p x] m' by auto
qed

lemma module_drop_ok:
  assumes ok: "module_ok entries m S" and sf: "self_first entries" and m1: "module_detach entries m p = Some m1"
  shows "dm_heap m1 = dm_heap m" "module_ok entries m1 (S - {p})"
    "dm_heap m2 = (dm_heap m1)(p := v) \<Longrightarrow> dm_link m2 = dm_link m1 \<Longrightarrow> module_ok entries m2 (S - {p})"
  using module_detach_ok [OF ok sf, of p] m1 module_ok_elsewhere [of entries m1 "S - {p}" p m2 v] by auto

text \<open>
  Renaming fails exactly when the name is taken, and otherwise only changes the name, when
  no other key depends on the name.
\<close>

lemma module_mod_name_ok:
  assumes ok: "module_ok entries st S" and sf: "self_first entries" and p: "p \<in> S" "dm_heap st p = Some x"
    and no: "name_no < length entries" "(entries ! name_no) p (set_name n x) = Key_Str n"
    and other: "\<And>i. i < length entries \<Longrightarrow> i \<noteq> name_no \<Longrightarrow> (entries ! i) p (set_name n x) = (entries ! i) p x"
  shows "\<exists>st' r. module_mod_name entries name_no set_name st p n = Some (st', r) \<and> module_ok entries st' S \<and>
     (r \<longleftrightarrow> (\<forall>q \<in> S. \<forall>y. dm_heap st q = Some y \<longrightarrow> (entries ! name_no) q y \<noteq> Key_Str n)) \<and>
     dm_heap st' = (if r then (dm_heap st)(p \<mapsto> set_name n x) else dm_heap st)"
proof -
  obtain dlink where dl: "dm_link st = Some dlink" "links entries (dm_heap st) S dlink"
    using ok p by (auto simp: module_ok_def split: option.splits)
  have none: "data_link_lookup dlink name_no (Key_Str n) = None \<longleftrightarrow>
      (\<forall>q \<in> S. \<forall>y. dm_heap st q = Some y \<longrightarrow> (entries ! name_no) q y \<noteq> Key_Str n)"
    using module_get_none [OF ok no(1), of "Key_Str n"] dl by (simp add: module_get_def)
  show ?thesis
  proof (cases "data_link_lookup dlink name_no (Key_Str n) = None")
    case False
    with none ok dl show ?thesis by (auto simp: module_mod_name_def)
  next
    case True
    have "\<forall>p \<in> S. dm_heap st p \<noteq> None" using ok by (simp add: module_ok_def)
    then obtain dl1 where dl1: "data_link_steal entries (dm_heap st) dlink 0 (Key_Ptr p) = Some dl1"
        "links entries (dm_heap st) (S - {p}) dl1"
      using links_steal [OF sf dl(2)] by blast
    let ?h = "(dm_heap st)(p \<mapsto> set_name n x)"
    have l: "links entries ?h (S - {p}) dl1" by (rule links_heap_update [OF dl1(2)]) simp
    have keys: "(entries ! i) q y \<noteq> (entries ! i) p x"
      if "i < length entries" "q \<in> S" "q \<noteq> p" "dm_heap st q = Some y" for i q y
      using that p module_get_iff [OF ok, of i "(entries ! i) p x" p]
        module_get_iff [OF ok, of i "(entries ! i) p x" q] by auto
    have "fresh_keys entries ?h (S - {p}) p (set_name n x)"
      unfolding fresh_keys_def
    proof (intro allI ballI impI)
      fix i q y
      assume a: "i < length entries" "q \<in> S - {p}" "?h q = Some y" "q \<noteq> p"
      show "(entries ! i) q y \<noteq> (entries ! i) p (set_name n x)"
        using a keys [of i q y] none True no other [of i] by (cases "i = name_no") auto
    qed
    from links_insert [OF l _ this] obtain dl2 where "data_link_insert entries ?h dl1 p = Some dl2"
        "links entries ?h (insert p (S - {p})) dl2" by auto
    moreover have "insert p (S - {p}) = S" using p by auto
    ultimately show ?thesis
      using True none dl dl1(1) p ok by (auto simp: module_mod_name_def module_ok_def Let_def)
  qed
qed

section \<open>Registries of named objects\<close>

definition std_entries :: "('o \<Rightarrow> int) \<Rightarrow> ('o \<Rightarrow> string) \<Rightarrow> 'o dl_entries" where
  "std_entries get_id get_name =
     [\<lambda>p x. Key_Ptr p, \<lambda>p x. Key_Int (get_id x), \<lambda>p x. Key_Str (get_name x)]"

locale named_registry =
  fixes get_id :: "'o \<Rightarrow> int" and get_name :: "'o \<Rightarrow> string" and set_name :: "string \<Rightarrow> 'o \<Rightarrow> 'o"
  assumes id_set_name: "get_id (set_name n x) = get_id x"
    and name_set_name: "get_name (set_name n x) = n"
begin

lemma sf [simp]: "self_first (std_entries get_id get_name)"
  by (simp add: self_first_def std_entries_def)

lemma fresh_std:
  "fresh_keys (std_entries get_id get_name) h S p x \<longleftrightarrow>
     (\<forall>q \<in> S. \<forall>y. h q = Some y \<longrightarrow> q \<noteq> p \<longrightarrow> get_id y \<noteq> get_id x \<and> get_name y \<noteq> get_name x)"
  unfolding fresh_keys_def std_entries_def by (simp add: less_Suc_eq numeral_3_eq_3 all_conj_distrib) blast

text \<open>What the lookups return.\<close>

lemma get_by_id:
  assumes "module_ok (std_entries get_id get_name) st S"
  shows "module_get st 1 (Key_Int i) = Some p \<longleftrightarrow> p \<in> S \<and> (\<exists>x. dm_heap st p = Some x \<and> get_id x = i)"
  using module_get_iff [OF assms, of 1] by (simp add: std_entries_def)

lemma get_by_name:
  assumes "module_ok (std_entries get_id get_name) st S"
  shows "module_get st 2 (Key_Str n) = Some p \<longleftrightarrow> p \<in> S \<and> (\<exists>x. dm_heap st p = Some x \<and> get_name x = n)"
  using module_get_iff [OF assms, of 2] by (simp add: std_entries_def)

text \<open>Renaming fails exactly when the name is taken, and otherwise only changes the name.\<close>

lemma mod_name:
  assumes ok: "module_ok (std_entries get_id get_name) st S" and p: "p \<in> S" "dm_heap st p = Some x"
  shows "\<exists>st' r. module_mod_name (std_entries get_id get_name) 2 set_name st p n = Some (st', r) \<and>
     module_ok (std_entries get_id get_name) st' S \<and>
     (r \<longleftrightarrow> (\<forall>q \<in> S. \<forall>y. dm_heap st q = Some y \<longrightarrow> get_name y \<noteq> n)) \<and>
     dm_heap st' = (if r then (dm_heap st)(p \<mapsto> set_name n x) else dm_heap st)"
proof -
  have name: "(std_entries get_id get_name ! 2) q y = Key_Str (get_name y)" for q y
    by (simp add: std_entries_def)
  have other: "(std_entries get_id get_name ! i) p (set_name n x) = (std_entries get_id get_name ! i) p x"
    if "i < length (std_entries get_id get_name)" "i \<noteq> 2" for i
    using that by (auto simp: std_entries_def id_set_name less_Suc_eq numeral_3_eq_3)
  have len: "2 < length (std_entries get_id get_name)" by (simp add: std_entries_def)
  have key: "(std_entries get_id get_name ! 2) p (set_name n x) = Key_Str n" by (simp add: name name_set_name)
  show ?thesis
    using module_mod_name_ok [where set_name = set_name and n = n, OF ok sf p len key other] by (simp only: name dl_key.inject simp_thms)
qed

end

end
