(* ===== verification/User_Group.thy ===== *)
theory User_Group
  imports Data_Link
begin

text \<open>
  Users and groups: \<open>mbbd/mbbuser.c\<close>, \<open>mbbd/mbbgroup.c\<close> and the capability masks of
  \<open>mbbd/mbbcap.h\<close>. A grp is a capability: grp number \<open>n\<close> is bit \<open>n\<close> of the mask of its
  members, kept in step with the grp's table of users. The state holds both modules;
  users and groups are addressed by pointer. The lock of a user only orders threads and
  has no counterpart.
\<close>

section \<open>Definitions\<close>

subsection \<open>Capabilities\<close>

definition MBB_CAP_ROOT :: guint32 where "MBB_CAP_ROOT = 1"
definition MBB_CAP_WHEEL :: guint32 where "MBB_CAP_WHEEL = push_bit 1 1"
definition MBB_CAP_ADMIN :: guint32 where "MBB_CAP_ADMIN = push_bit 4 1"
definition MBB_CAP_LOG :: guint32 where "MBB_CAP_LOG = push_bit 10 1"
definition MBB_CAP_USER :: guint32 where "MBB_CAP_USER = push_bit 20 1"
definition MBB_CAP_CONS :: guint32 where "MBB_CAP_CONS = push_bit 26 1"
definition MBB_CAP_DUMMY :: guint32 where "MBB_CAP_DUMMY = push_bit 31 1"
definition MBB_CAP_ALL :: guint32 where "MBB_CAP_ALL = (- 1) XOR MBB_CAP_DUMMY"

definition MBB_CAP_IS_ROOT :: "guint32 \<Rightarrow> bool" where
  "MBB_CAP_IS_ROOT msk \<longleftrightarrow> msk AND MBB_CAP_ROOT \<noteq> 0"

definition MBB_CAP_IS_WHEEL :: "guint32 \<Rightarrow> bool" where
  "MBB_CAP_IS_WHEEL msk \<longleftrightarrow> msk AND MBB_CAP_WHEEL \<noteq> 0 \<or> MBB_CAP_IS_ROOT msk"

definition mbb_cap_check :: "guint32 \<Rightarrow> guint32 \<Rightarrow> bool" where
  "mbb_cap_check m msk \<longleftrightarrow>
     (if m = 0 then msk AND MBB_CAP_DUMMY \<noteq> 0 else MBB_CAP_IS_ROOT m \<or> m AND msk \<noteq> 0)"

subsection \<open>Users\<close>

record mbb_user =
  u_id :: int
  u_name :: string
  u_secret :: "string option"
  u_cap_mask :: guint32
  u_nref :: int
  u_childs :: "gpointer list"

record mbb_group =
  g_id :: int
  g_name :: string
  g_users :: "(int \<rightharpoonup> gpointer) option"

record acl =
  acl_users :: "mbb_user dl_module"
  acl_groups :: "mbb_group dl_module"

definition user_entries :: "mbb_user dl_entries" where
  "user_entries = std_entries u_id u_name"

definition group_entries :: "mbb_group dl_entries" where
  "group_entries = std_entries g_id g_name"

definition mbb_user_new :: "int \<Rightarrow> string \<Rightarrow> string option \<Rightarrow> mbb_user" where
  "mbb_user_new i name secret =
     \<lparr>u_id = i, u_name = name, u_secret = secret, u_cap_mask = 0, u_nref = 1, u_childs = []\<rparr>"

definition mbb_user_join :: "acl \<Rightarrow> gpointer \<Rightarrow> acl option" where
  "mbb_user_join st user =
     do { us \<leftarrow> module_join user_entries (acl_users st) user; Some (st\<lparr>acl_users := us\<rparr>) }"

definition mbb_user_get_by_id :: "acl \<Rightarrow> int \<Rightarrow> gpointer option" where
  "mbb_user_get_by_id st i = module_get (acl_users st) 1 (Key_Int i)"

definition mbb_user_get_by_name :: "acl \<Rightarrow> string \<Rightarrow> gpointer option" where
  "mbb_user_get_by_name st name = module_get (acl_users st) 2 (Key_Str name)"

definition mbb_user_mod_name :: "acl \<Rightarrow> gpointer \<Rightarrow> string \<Rightarrow> (acl \<times> bool) option" where
  "mbb_user_mod_name st user newname =
     do { (us, r) \<leftarrow> module_mod_name user_entries 2 (\<lambda>n u. u\<lparr>u_name := n\<rparr>) (acl_users st) user newname;
          Some (st\<lparr>acl_users := us\<rparr>, r) }"

text \<open>Reading and writing one user or group.\<close>

definition set_user :: "acl \<Rightarrow> gpointer \<Rightarrow> mbb_user option \<Rightarrow> acl" where
  "set_user st user x = st\<lparr>acl_users := (acl_users st)\<lparr>dm_heap := (dm_heap (acl_users st))(user := x)\<rparr>\<rparr>"

definition set_group :: "acl \<Rightarrow> gpointer \<Rightarrow> mbb_group option \<Rightarrow> acl" where
  "set_group st grp x = st\<lparr>acl_groups := (acl_groups st)\<lparr>dm_heap := (dm_heap (acl_groups st))(grp := x)\<rparr>\<rparr>"

definition mbb_user_mod_pass :: "acl \<Rightarrow> gpointer \<Rightarrow> string option \<Rightarrow> acl option" where
  "mbb_user_mod_pass st user newpass =
     do { u \<leftarrow> dm_heap (acl_users st) user; Some (set_user st user (Some (u\<lparr>u_secret := newpass\<rparr>))) }"

definition mbb_user_add_consumer :: "mbb_user \<Rightarrow> gpointer \<Rightarrow> mbb_user" where
  "mbb_user_add_consumer user con =
     (if con \<notin> set (u_childs user) then user\<lparr>u_childs := con # u_childs user\<rparr> else user)"

definition mbb_user_del_consumer :: "mbb_user \<Rightarrow> gpointer \<Rightarrow> mbb_user" where
  "mbb_user_del_consumer user con = user\<lparr>u_childs := remove1 con (u_childs user)\<rparr>"

definition mbb_user_has_consumer :: "mbb_user \<Rightarrow> gpointer \<Rightarrow> bool" where
  "mbb_user_has_consumer user con = (con \<in> set (u_childs user))"

function get_groups_loop :: "nat \<Rightarrow> guint32 \<Rightarrow> nat list \<Rightarrow> nat list" where
  "get_groups_loop n msk lst =
     (if msk = 0 then lst
      else get_groups_loop (n + 1) (drop_bit 1 msk) (if msk AND 1 \<noteq> 0 then n # lst else lst))"
  by auto
termination
  by (relation "measure (\<lambda>(n, msk, lst). unat msk)")
    (auto simp: drop_bit_Suc unat_div_distrib intro!: div_less_dividend simp: unat_gt_0)

definition mbb_user_get_groups :: "mbb_user \<Rightarrow> nat list" where
  "mbb_user_get_groups user = get_groups_loop 0 (u_cap_mask user) []"

subsection \<open>Groups\<close>

definition mbb_group_new :: "int \<Rightarrow> string \<Rightarrow> mbb_group" where
  "mbb_group_new i name = \<lparr>g_id = i, g_name = name, g_users = None\<rparr>"

definition mbb_group_join :: "acl \<Rightarrow> gpointer \<Rightarrow> acl option" where
  "mbb_group_join st grp =
     do { gs \<leftarrow> module_join group_entries (acl_groups st) grp; Some (st\<lparr>acl_groups := gs\<rparr>) }"

definition mbb_group_detach :: "acl \<Rightarrow> gpointer \<Rightarrow> acl option" where
  "mbb_group_detach st grp =
     do { gs \<leftarrow> module_detach group_entries (acl_groups st) grp; Some (st\<lparr>acl_groups := gs\<rparr>) }"

definition mbb_group_remove :: "acl \<Rightarrow> gpointer \<Rightarrow> acl option" where
  "mbb_group_remove st grp =
     do { st \<leftarrow> mbb_group_detach st grp; Some (set_group st grp None) }"

definition mbb_group_mod_name :: "acl \<Rightarrow> gpointer \<Rightarrow> string \<Rightarrow> (acl \<times> bool) option" where
  "mbb_group_mod_name st grp newname =
     do { (gs, r) \<leftarrow> module_mod_name group_entries 2 (\<lambda>n g. g\<lparr>g_name := n\<rparr>) (acl_groups st) grp newname;
          Some (st\<lparr>acl_groups := gs\<rparr>, r) }"

definition mbb_group_get_by_id :: "acl \<Rightarrow> int \<Rightarrow> gpointer option" where
  "mbb_group_get_by_id st i = module_get (acl_groups st) 1 (Key_Int i)"

definition mbb_group_get_by_name :: "acl \<Rightarrow> string \<Rightarrow> gpointer option" where
  "mbb_group_get_by_name st name = module_get (acl_groups st) 2 (Key_Str name)"

definition mbb_group_has_user :: "mbb_group \<Rightarrow> int \<Rightarrow> bool" where
  "mbb_group_has_user grp user_id =
     (case g_users grp of None \<Rightarrow> False | Some users \<Rightarrow> users user_id \<noteq> None)"

definition mbb_group_add_user :: "acl \<Rightarrow> gpointer \<Rightarrow> gpointer \<Rightarrow> acl option" where
  "mbb_group_add_user st grp user =
     do { g \<leftarrow> dm_heap (acl_groups st) grp;
          u \<leftarrow> dm_heap (acl_users st) user;
          let users = (case g_users g of None \<Rightarrow> Map.empty | Some users \<Rightarrow> users);
          if users (u_id u) \<noteq> None then Some st
          else Some (set_user (set_group st grp (Some (g\<lparr>g_users := Some (users(u_id u \<mapsto> user))\<rparr>)))
                       user (Some (u\<lparr>u_cap_mask := u_cap_mask u OR push_bit (nat (g_id g)) 1\<rparr>))) }"

definition mbb_group_del_user :: "acl \<Rightarrow> gpointer \<Rightarrow> gpointer \<Rightarrow> acl option" where
  "mbb_group_del_user st grp user =
     do { g \<leftarrow> dm_heap (acl_groups st) grp;
          u \<leftarrow> dm_heap (acl_users st) user;
          (case g_users g of
             None \<Rightarrow> Some st
           | Some users \<Rightarrow>
               if users (u_id u) \<noteq> None
               then Some (set_user (set_group st grp (Some (g\<lparr>g_users := Some (users(u_id u := None))\<rparr>)))
                       user (Some (u\<lparr>u_cap_mask := u_cap_mask u AND NOT (push_bit (nat (g_id g)) 1)\<rparr>)))
               else Some st) }"

subsection \<open>Detaching and removing a user\<close>

function detach_loop :: "gpointer \<Rightarrow> nat \<Rightarrow> guint32 \<Rightarrow> acl \<Rightarrow> acl option" where
  "detach_loop user n msk st =
     (if msk = 0 then Some st
      else
        (case (if msk AND 1 \<noteq> 0
               then (case mbb_group_get_by_id st (int n) of
                       None \<Rightarrow> Some st
                     | Some grp \<Rightarrow> mbb_group_del_user st grp user)
               else Some st) of
           None \<Rightarrow> None
         | Some st \<Rightarrow> detach_loop user (n + 1) (drop_bit 1 msk) st))"
  by auto
termination
  by (relation "measure (\<lambda>(user, n, msk, st). unat msk)")
    (auto simp: drop_bit_Suc unat_div_distrib intro!: div_less_dividend simp: unat_gt_0)

declare detach_loop.simps [simp del] get_groups_loop.simps [simp del]

definition mbb_user_detach :: "acl \<Rightarrow> gpointer \<Rightarrow> acl option" where
  "mbb_user_detach st user =
     (case dm_link (acl_users st) of
        None \<Rightarrow> Some st
      | Some _ \<Rightarrow>
          do { u \<leftarrow> dm_heap (acl_users st) user;
               st \<leftarrow> detach_loop user 0 (u_cap_mask u) st;
               us \<leftarrow> module_detach user_entries (acl_users st) user;
               Some (st\<lparr>acl_users := us\<rparr>) })"

definition mbb_user_unref :: "acl \<Rightarrow> gpointer \<Rightarrow> acl option" where
  "mbb_user_unref st user =
     do { u \<leftarrow> dm_heap (acl_users st) user;
          Some (set_user st user (if u_nref u = 1 then None else Some (u\<lparr>u_nref := u_nref u - 1\<rparr>))) }"

definition mbb_user_remove :: "acl \<Rightarrow> gpointer \<Rightarrow> acl option" where
  "mbb_user_remove st user =
     do { u \<leftarrow> dm_heap (acl_users st) user;
          let st = set_user st user (Some (u\<lparr>u_cap_mask := 0\<rparr>));
          st \<leftarrow> mbb_user_detach st user;
          mbb_user_unref st user }"

definition mbb_user_foreach :: "acl \<Rightarrow> gpointer set" where
  "mbb_user_foreach st = data_link_foreach (dm_link (acl_users st))"

definition mbb_user_forregex :: "acl \<Rightarrow> (dl_key \<Rightarrow> bool) option \<Rightarrow> gpointer set" where
  "mbb_user_forregex st re =
     data_link_forregex user_entries (dm_heap (acl_users st)) (dm_link (acl_users st)) re 2"

definition mbb_group_foreach :: "acl \<Rightarrow> gpointer set" where
  "mbb_group_foreach st = data_link_foreach (dm_link (acl_groups st))"

section \<open>Lookups and names\<close>

interpretation users: named_registry u_id u_name "\<lambda>n u. u\<lparr>u_name := n\<rparr>"
  by unfold_locales simp_all

interpretation groups: named_registry g_id g_name "\<lambda>n g. g\<lparr>g_name := n\<rparr>"
  by unfold_locales simp_all

definition acl_ok :: "acl \<Rightarrow> gpointer set \<Rightarrow> gpointer set \<Rightarrow> bool" where
  "acl_ok st U G \<longleftrightarrow> module_ok user_entries (acl_users st) U \<and> module_ok group_entries (acl_groups st) G"

text \<open>A group has a user exactly when the user's mask has the group's bit.\<close>

definition members_ok :: "acl \<Rightarrow> gpointer set \<Rightarrow> gpointer set \<Rightarrow> bool" where
  "members_ok st U G \<longleftrightarrow>
     (\<forall>group \<in> G. \<forall>user \<in> U. \<forall>g u. dm_heap (acl_groups st) group = Some g \<longrightarrow> dm_heap (acl_users st) user = Some u \<longrightarrow>
        0 \<le> g_id g \<and> g_id g < 32 \<and> (mbb_group_has_user g (u_id u) \<longleftrightarrow> bit (u_cap_mask u) (nat (g_id g))))"

lemma set_sel [simp]:
  "acl_groups (set_user st p x) = acl_groups st" "acl_users (set_group st p y) = acl_users st"
  "dm_heap (acl_users (set_user st p x)) = (dm_heap (acl_users st))(p := x)"
  "dm_heap (acl_groups (set_group st p y)) = (dm_heap (acl_groups st))(p := y)"
  "dm_link (acl_users (set_user st p x)) = dm_link (acl_users st)"
  "dm_link (acl_groups (set_group st p y)) = dm_link (acl_groups st)"
  by (simp_all add: set_user_def set_group_def)

text \<open>A change that keeps the keys of an object keeps its registry.\<close>

lemma module_ok_same_keys:
  assumes "module_ok entries m S" and "dm_heap m p = Some x" and "dm_heap m' = (dm_heap m)(p \<mapsto> x')"
    and "dm_link m' = dm_link m" and "\<And>i. i < length entries \<Longrightarrow> (entries ! i) p x' = (entries ! i) p x"
  shows "module_ok entries m' S"
  using assms by (auto simp: module_ok_def links_def split: option.splits)

lemma set_user_ok:
  assumes "acl_ok st U G" and "dm_heap (acl_users st) p = Some u" and "u_id u' = u_id u" and "u_name u' = u_name u"
  shows "acl_ok (set_user st p (Some u')) U G"
proof -
  have "module_ok user_entries (acl_users (set_user st p (Some u'))) U"
    by (rule module_ok_same_keys [of _ "acl_users st" _ p u _ u'])
      (use assms in \<open>auto simp: acl_ok_def user_entries_def std_entries_def less_Suc_eq numeral_3_eq_3\<close>)
  with assms(1) show ?thesis by (simp add: acl_ok_def)
qed

lemma set_group_ok:
  assumes "acl_ok st U G" and "dm_heap (acl_groups st) p = Some g" and "g_id g' = g_id g" and "g_name g' = g_name g"
  shows "acl_ok (set_group st p (Some g')) U G"
proof -
  have "module_ok group_entries (acl_groups (set_group st p (Some g'))) G"
    by (rule module_ok_same_keys [of _ "acl_groups st" _ p g _ g'])
      (use assms in \<open>auto simp: acl_ok_def group_entries_def std_entries_def less_Suc_eq numeral_3_eq_3\<close>)
  with assms(1) show ?thesis by (simp add: acl_ok_def)
qed

lemma bit_or_single: "i < 32 \<Longrightarrow> bit (m OR push_bit n 1 :: guint32) i \<longleftrightarrow> bit m i \<or> i = n"
  by (auto simp: bit_or_iff bit_push_bit_iff bit_exp_iff)

lemma bit_and_not_single: "i < 32 \<Longrightarrow> bit (m AND NOT (push_bit n 1) :: guint32) i \<longleftrightarrow> bit m i \<and> i \<noteq> n"
  by (auto simp: bit_and_iff bit_not_iff bit_push_bit_iff bit_exp_iff)

lemma group_ids_unique:
  assumes "acl_ok st U G" "p \<in> G" "q \<in> G" "dm_heap (acl_groups st) p = Some g" "dm_heap (acl_groups st) q = Some h"
    "g_id g = g_id h"
  shows "p = q"
  using assms groups.get_by_id [of "acl_groups st" G "g_id g" p] groups.get_by_id [of "acl_groups st" G "g_id g" q]
  by (auto simp: acl_ok_def group_entries_def)

lemma user_ids_unique:
  assumes "acl_ok st U G" "p \<in> U" "q \<in> U" "dm_heap (acl_users st) p = Some u" "dm_heap (acl_users st) q = Some v"
    "u_id u = u_id v"
  shows "p = q"
  using assms users.get_by_id [of "acl_users st" U "u_id u" p] users.get_by_id [of "acl_users st" U "u_id u" q]
  by (auto simp: acl_ok_def user_entries_def)

lemma user_names_unique:
  assumes "acl_ok st U G" "p \<in> U" "q \<in> U" "dm_heap (acl_users st) p = Some u" "dm_heap (acl_users st) q = Some v"
    "u_name u = u_name v"
  shows "p = q"
  using assms users.get_by_name [of "acl_users st" U "u_name u" p] users.get_by_name [of "acl_users st" U "u_name u" q]
  by (auto simp: acl_ok_def user_entries_def)

lemma change_membership:
  assumes ok: "acl_ok st U G" "members_ok st U G" and p: "grp \<in> G" "usr \<in> U"
    "dm_heap (acl_groups st) grp = Some g" "dm_heap (acl_users st) usr = Some u"
    and g': "g_id g' = g_id g" "\<And>j. mbb_group_has_user g' j \<longleftrightarrow> (if j = u_id u then v else mbb_group_has_user g j)"
    and u': "u_id u' = u_id u" "\<And>i. i < 32 \<Longrightarrow> bit (u_cap_mask u') i \<longleftrightarrow> (if i = nat (g_id g) then v else bit (u_cap_mask u) i)"
  shows "members_ok (set_user (set_group st grp (Some g')) usr (Some u')) U G"
  unfolding members_ok_def
proof (intro ballI allI impI)
  fix group user g3 u3
  assume q: "group \<in> G" "user \<in> U"
    and h: "dm_heap (acl_groups (set_user (set_group st grp (Some g')) usr (Some u'))) group = Some g3"
      "dm_heap (acl_users (set_user (set_group st grp (Some g')) usr (Some u'))) user = Some u3"
  obtain go uo where o: "dm_heap (acl_groups st) group = Some go" "dm_heap (acl_users st) user = Some uo"
      "g_id g3 = g_id go" "u_id u3 = u_id uo" "g3 = (if group = grp then g' else go)" "u3 = (if user = usr then u' else uo)"
    using h p g'(1) u'(1) by (auto split: if_splits)
  have old: "0 \<le> g_id go" "g_id go < 32" "mbb_group_has_user go (u_id uo) \<longleftrightarrow> bit (u_cap_mask uo) (nat (g_id go))"
    using ok(2) q o(1,2) by (auto simp: members_ok_def)
  have gid: "g_id go = g_id g \<longleftrightarrow> group = grp" using group_ids_unique [OF ok(1) q(1) p(1) o(1) p(3)] o(1) p(3) by auto
  have uid: "u_id uo = u_id u \<longleftrightarrow> user = usr" using user_ids_unique [OF ok(1) q(2) p(2) o(2) p(4)] o(2) p(4) by auto
  have g0: "0 \<le> g_id g" using ok(2) p by (auto simp: members_ok_def)
  have "nat (g_id go) = nat (g_id g) \<longleftrightarrow> group = grp" using gid old(1) g0 by auto
  then have "mbb_group_has_user g3 (u_id u3) \<longleftrightarrow> bit (u_cap_mask u3) (nat (g_id g3))"
    using old gid uid g' u' o p(3,4) by (cases "group = grp"; cases "user = usr") auto
  then show "0 \<le> g_id g3 \<and> g_id g3 < 32 \<and> (mbb_group_has_user g3 (u_id u3) \<longleftrightarrow> bit (u_cap_mask u3) (nat (g_id g3)))"
    using old o by simp
qed

lemma change_membership_ok:
  assumes "acl_ok st U G" "dm_heap (acl_groups st) grp = Some g" "dm_heap (acl_users st) usr = Some u"
    "g_id g' = g_id g" "g_name g' = g_name g" "u_id u' = u_id u" "u_name u' = u_name u"
  shows "acl_ok (set_user (set_group st grp (Some g')) usr (Some u')) U G"
  using assms by (intro set_user_ok set_group_ok) auto

lemma group_add_user_ok:
  assumes ok: "acl_ok st U G" "members_ok st U G" and p: "grp \<in> G" "usr \<in> U"
    "dm_heap (acl_groups st) grp = Some g" "dm_heap (acl_users st) usr = Some u"
  shows "\<exists>st' g'. mbb_group_add_user st grp usr = Some st' \<and> acl_ok st' U G \<and> members_ok st' U G \<and>
      dm_heap (acl_groups st') grp = Some g' \<and> mbb_group_has_user g' (u_id u)"
proof -
  let ?t = "case g_users g of None \<Rightarrow> Map.empty | Some users \<Rightarrow> users"
  let ?g = "g\<lparr>g_users := Some (?t(u_id u \<mapsto> usr))\<rparr>" and ?u = "u\<lparr>u_cap_mask := u_cap_mask u OR push_bit (nat (g_id g)) 1\<rparr>"
  have has: "mbb_group_has_user g j \<longleftrightarrow> ?t j \<noteq> None" for j
    by (simp add: mbb_group_has_user_def split: option.splits)
  have gr: "mbb_group_has_user ?g j \<longleftrightarrow> (if j = u_id u then True else mbb_group_has_user g j)" for j
    unfolding has by (simp add: mbb_group_has_user_def)
  show ?thesis
  proof (cases "?t (u_id u) = None")
    case True
    then have "mbb_group_add_user st grp usr = Some (set_user (set_group st grp (Some ?g)) usr (Some ?u))"
      using p by (simp add: mbb_group_add_user_def Let_def)
    moreover have "members_ok (set_user (set_group st grp (Some ?g)) usr (Some ?u)) U G"
      by (rule change_membership [OF ok p, where v = True]) (auto simp: gr bit_or_single [simplified])
    moreover have "acl_ok (set_user (set_group st grp (Some ?g)) usr (Some ?u)) U G"
      by (rule change_membership_ok [OF ok(1) p(3,4)]) simp_all
    ultimately show ?thesis using gr by auto
  next
    case False
    then show ?thesis using p ok has by (auto simp: mbb_group_add_user_def Let_def)
  qed
qed

lemma group_del_user_ok:
  assumes ok: "acl_ok st U G" "members_ok st U G" and p: "grp \<in> G" "usr \<in> U"
    "dm_heap (acl_groups st) grp = Some g" "dm_heap (acl_users st) usr = Some u"
  shows "\<exists>st' g'. mbb_group_del_user st grp usr = Some st' \<and> acl_ok st' U G \<and> members_ok st' U G \<and>
      dm_heap (acl_groups st') grp = Some g' \<and> \<not> mbb_group_has_user g' (u_id u)"
proof -
  let ?t = "case g_users g of None \<Rightarrow> Map.empty | Some users \<Rightarrow> users"
  let ?g = "g\<lparr>g_users := Some (?t(u_id u := None))\<rparr>" and ?u = "u\<lparr>u_cap_mask := u_cap_mask u AND NOT (push_bit (nat (g_id g)) 1)\<rparr>"
  have has: "mbb_group_has_user g j \<longleftrightarrow> ?t j \<noteq> None" for j
    by (simp add: mbb_group_has_user_def split: option.splits)
  have gr: "mbb_group_has_user ?g j \<longleftrightarrow> (if j = u_id u then False else mbb_group_has_user g j)" for j
    unfolding has by (simp add: mbb_group_has_user_def)
  show ?thesis
  proof (cases "?t (u_id u) = None")
    case False
    then have "mbb_group_del_user st grp usr = Some (set_user (set_group st grp (Some ?g)) usr (Some ?u))"
      using p by (auto simp: mbb_group_del_user_def split: option.splits)
    moreover have "members_ok (set_user (set_group st grp (Some ?g)) usr (Some ?u)) U G"
      by (rule change_membership [OF ok p, where v = False]) (auto simp: gr bit_and_not_single [simplified])
    moreover have "acl_ok (set_user (set_group st grp (Some ?g)) usr (Some ?u)) U G"
      by (rule change_membership_ok [OF ok(1) p(3,4)]) simp_all
    ultimately show ?thesis using gr by auto
  next
    case True
    then have "mbb_group_del_user st grp usr = Some st" "\<not> mbb_group_has_user g (u_id u)"
      using p has by (auto simp: mbb_group_del_user_def split: option.splits)
    then show ?thesis using p ok by auto
  qed
qed

text \<open>
  Adding a user to a group keeps the registries and the agreement between groups and
  masks, and the user is then in the group; deleting likewise, and the user is then not
  in the group.
\<close>

theorem group_membership:
  assumes ok: "acl_ok st U G" "members_ok st U G" and p: "grp \<in> G" "usr \<in> U"
    "dm_heap (acl_groups st) grp = Some g" "dm_heap (acl_users st) usr = Some u"
  shows "\<exists>st1 g1 st2 g2. mbb_group_add_user st grp usr = Some st1 \<and> acl_ok st1 U G \<and> members_ok st1 U G \<and>
       dm_heap (acl_groups st1) grp = Some g1 \<and> mbb_group_has_user g1 (u_id u) \<and>
     mbb_group_del_user st grp usr = Some st2 \<and> acl_ok st2 U G \<and> members_ok st2 U G \<and>
       dm_heap (acl_groups st2) grp = Some g2 \<and> \<not> mbb_group_has_user g2 (u_id u)"
  using group_add_user_ok [OF assms] group_del_user_ok [OF assms] by blast

section \<open>Detaching\<close>

text \<open>What a run of deletions leaves: ids stay, and users are only taken out of groups.\<close>

definition groups_without :: "acl \<Rightarrow> acl \<Rightarrow> gpointer set \<Rightarrow> (int \<Rightarrow> int \<Rightarrow> bool) \<Rightarrow> bool" where
  "groups_without st st' G D \<longleftrightarrow>
     (\<forall>p \<in> G. \<forall>g. dm_heap (acl_groups st) p = Some g \<longrightarrow>
        (\<exists>g'. dm_heap (acl_groups st') p = Some g' \<and> g_id g' = g_id g \<and>
          (\<forall>j. mbb_group_has_user g' j \<longleftrightarrow> mbb_group_has_user g j \<and> \<not> D (g_id g) j)))"

lemma and_one_bit: "(m :: guint32) AND 1 \<noteq> 0 \<longleftrightarrow> bit m 0"
  by (simp add: and_one_eq bit_0 mod_2_eq_odd)

lemma del_user_effect:
  assumes ok: "acl_ok st U G" and grp: "grp \<in> G" "dm_heap (acl_groups st) grp = Some g"
    and usr: "dm_heap (acl_users st) usr = Some u"
  shows "\<exists>st' u'. mbb_group_del_user st grp usr = Some st' \<and> acl_ok st' U G \<and>
     dm_heap (acl_users st') usr = Some u' \<and> u_id u' = u_id u \<and> u_name u' = u_name u \<and>
     groups_without st st' G (\<lambda>i j. i = g_id g \<and> j = u_id u)"
proof -
  have gid: "p = grp" if "p \<in> G" "dm_heap (acl_groups st) p = Some h" "g_id h = g_id g" for p h
    using group_ids_unique [OF ok that(1) grp(1) that(2) grp(2) that(3)] .
  show ?thesis
  proof (cases "mbb_group_has_user g (u_id u)")
    case False
    then have "mbb_group_del_user st grp usr = Some st"
      using grp usr by (auto simp: mbb_group_del_user_def mbb_group_has_user_def split: option.splits)
    moreover have "groups_without st st G (\<lambda>i j. i = g_id g \<and> j = u_id u)"
      using False gid grp(2) by (fastforce simp: groups_without_def)
    ultimately show ?thesis using ok usr by blast
  next
    case True
    then obtain t where t: "g_users g = Some t" "t (u_id u) \<noteq> None"
      by (auto simp: mbb_group_has_user_def split: option.splits)
    let ?g = "g\<lparr>g_users := Some (t(u_id u := None))\<rparr>"
    let ?u = "u\<lparr>u_cap_mask := u_cap_mask u AND NOT (push_bit (nat (g_id g)) 1)\<rparr>"
    let ?st = "set_user (set_group st grp (Some ?g)) usr (Some ?u)"
    have "mbb_group_del_user st grp usr = Some ?st"
      using grp usr t by (simp add: mbb_group_del_user_def)
    moreover have "acl_ok ?st U G"
      using ok grp usr by (intro set_user_ok set_group_ok) auto
    moreover have "groups_without st ?st G (\<lambda>i j. i = g_id g \<and> j = u_id u)"
      unfolding groups_without_def
    proof (intro ballI allI impI)
      fix p h assume p: "p \<in> G" "dm_heap (acl_groups st) p = Some h"
      show "\<exists>g'. dm_heap (acl_groups ?st) p = Some g' \<and> g_id g' = g_id h \<and>
          (\<forall>j. mbb_group_has_user g' j \<longleftrightarrow> mbb_group_has_user h j \<and> \<not> (g_id h = g_id g \<and> j = u_id u))"
        using p gid [OF p] grp(2) t by (cases "p = grp") (auto simp: mbb_group_has_user_def)
    qed
    ultimately show ?thesis by simp
  qed
qed

lemma groups_without_trans:
  "groups_without st st1 G D1 \<Longrightarrow> groups_without st1 st2 G D2 \<Longrightarrow> groups_without st st2 G (\<lambda>i j. D1 i j \<or> D2 i j)"
  by (fastforce simp: groups_without_def)

lemma groups_without_cong:
  assumes "groups_without st st' G D"
    and "\<And>p g j. p \<in> G \<Longrightarrow> dm_heap (acl_groups st) p = Some g \<Longrightarrow> D (g_id g) j \<longleftrightarrow> D' (g_id g) j"
  shows "groups_without st st' G D'"
  using assms by (fastforce simp: groups_without_def)

lemma detach_loop_effect:
  "acl_ok st U G \<Longrightarrow> dm_heap (acl_users st) usr = Some u \<Longrightarrow>
     \<exists>st' u'. detach_loop usr n msk st = Some st' \<and> acl_ok st' U G \<and>
       dm_heap (acl_users st') usr = Some u' \<and> u_id u' = u_id u \<and> u_name u' = u_name u \<and>
       groups_without st st' G (\<lambda>i j. j = u_id u \<and> int n \<le> i \<and> bit msk (nat i - n))"
proof (induction usr n msk st arbitrary: u rule: detach_loop.induct)
  case (1 usr n msk st)
  show ?case
  proof (cases "msk = 0")
    case True
    then have "detach_loop usr n msk st = Some st" using detach_loop.simps [of usr n 0 st] by simp
    with True "1.prems" show ?thesis by (auto simp: groups_without_def)
  next
    case False
    let ?body = "if msk AND 1 \<noteq> 0 then (case mbb_group_get_by_id st (int n) of None \<Rightarrow> Some st
        | Some grp \<Rightarrow> mbb_group_del_user st grp usr) else Some st"
    have body: "\<exists>st1 u1. ?body = Some st1 \<and> acl_ok st1 U G \<and> dm_heap (acl_users st1) usr = Some u1 \<and>
        u_id u1 = u_id u \<and> u_name u1 = u_name u \<and> groups_without st st1 G (\<lambda>i j. j = u_id u \<and> i = int n \<and> bit msk 0)"
    proof (cases "bit msk 0 \<and> mbb_group_get_by_id st (int n) \<noteq> None")
      case True
      then obtain grp where grp: "mbb_group_get_by_id st (int n) = Some grp" by auto
      then obtain g where g: "grp \<in> G" "dm_heap (acl_groups st) grp = Some g" "g_id g = int n"
        using "1.prems"(1) groups.get_by_id [of "acl_groups st" G "int n" grp]
        by (auto simp: acl_ok_def group_entries_def mbb_group_get_by_id_def)
      have "?body = mbb_group_del_user st grp usr" using True grp by (simp add: and_one_bit)
      moreover have "\<exists>st1 u1. mbb_group_del_user st grp usr = Some st1 \<and> acl_ok st1 U G \<and>
          dm_heap (acl_users st1) usr = Some u1 \<and> u_id u1 = u_id u \<and> u_name u1 = u_name u \<and>
          groups_without st st1 G (\<lambda>i j. i = g_id g \<and> j = u_id u)"
        by (rule del_user_effect [OF "1.prems"(1) g(1,2) "1.prems"(2)])
      ultimately show ?thesis using g(3) True by (auto elim: groups_without_cong)
    next
      case False
      have "groups_without st st G (\<lambda>i j. j = u_id u \<and> i = int n \<and> bit msk 0)"
        unfolding groups_without_def
      proof (intro ballI allI impI)
        fix p g assume p: "p \<in> G" "dm_heap (acl_groups st) p = Some g"
        have "\<not> (g_id g = int n \<and> bit msk 0)"
          using False p "1.prems"(1) groups.get_by_id [of "acl_groups st" G "int n" p]
          by (auto simp: acl_ok_def group_entries_def mbb_group_get_by_id_def)
        with p show "\<exists>g'. dm_heap (acl_groups st) p = Some g' \<and> g_id g' = g_id g \<and>
          (\<forall>j. mbb_group_has_user g' j \<longleftrightarrow> mbb_group_has_user g j \<and> \<not> (j = u_id u \<and> g_id g = int n \<and> bit msk 0))" by auto
      qed
      moreover have "?body = Some st" using False by (auto simp: and_one_bit split: option.splits)
      ultimately show ?thesis using "1.prems" by auto
    qed
    then obtain st1 u1 where b: "?body = Some st1" "acl_ok st1 U G" "dm_heap (acl_users st1) usr = Some u1"
        "u_id u1 = u_id u" "groups_without st st1 G (\<lambda>i j. j = u_id u \<and> i = int n \<and> bit msk 0)" "u_name u1 = u_name u"
      by blast
    from "1.IH" [OF False b(1,2,3)] obtain st2 u2 where
      r: "detach_loop usr (n + 1) (drop_bit 1 msk) st1 = Some st2" "acl_ok st2 U G" "dm_heap (acl_users st2) usr = Some u2"
        "u_id u2 = u_id u1"
        "groups_without st1 st2 G (\<lambda>i j. j = u_id u1 \<and> int (n + 1) \<le> i \<and> bit (drop_bit 1 msk) (nat i - (n + 1)))" "u_name u2 = u_name u1"
      by blast
    have "groups_without st st2 G (\<lambda>i j. j = u_id u \<and> int n \<le> i \<and> bit msk (nat i - n))"
    proof (rule groups_without_cong [OF groups_without_trans [OF b(5) r(5)]])
      fix p g j assume "p \<in> G" "dm_heap (acl_groups st) p = Some g"
      have "nat i - n = Suc (nat i - (n + 1))" if "int (n + 1) \<le> i" for i using that by linarith
      then show "(j = u_id u \<and> g_id g = int n \<and> bit msk 0 \<or>
            j = u_id u1 \<and> int (n + 1) \<le> g_id g \<and> bit (drop_bit 1 msk) (nat (g_id g) - (n + 1))) \<longleftrightarrow>
          (j = u_id u \<and> int n \<le> g_id g \<and> bit msk (nat (g_id g) - n))"
        using b(4) by (cases "g_id g = int n") (auto simp: bit_drop_bit_eq)
    qed
    with b(1,4,6) r False show ?thesis by (auto simp: detach_loop.simps [of usr n msk st])
  qed
qed

text \<open>
  C32. Detaching a user whose mask agrees with the groups takes the user out of every
  group and out of the registry: no linked group has the user afterwards, no lookup finds
  it, every other user stays linked, and no other user leaves a group.
\<close>

theorem mbb_user_detach_leaves_groups:
  assumes ok: "acl_ok st U G" "members_ok st U G" and usr: "usr \<in> U" "dm_heap (acl_users st) usr = Some u"
  shows "\<exists>st'. mbb_user_detach st usr = Some st' \<and> acl_ok st' (U - {usr}) G \<and>
     groups_without st st' G (\<lambda>i j. j = u_id u) \<and>
     mbb_user_get_by_id st' (u_id u) = None \<and> mbb_user_get_by_name st' (u_name u) = None"
proof -
  obtain st1 u1 where l: "detach_loop usr 0 (u_cap_mask u) st = Some st1" "acl_ok st1 U G"
      "dm_heap (acl_users st1) usr = Some u1" "u_id u1 = u_id u"
      "groups_without st st1 G (\<lambda>i j. j = u_id u \<and> int 0 \<le> i \<and> bit (u_cap_mask u) (nat i - 0))" "u_name u1 = u_name u"
    using detach_loop_effect [OF ok(1) usr(2)] by blast
  have "groups_without st st1 G (\<lambda>i j. j = u_id u)"
    unfolding groups_without_def
  proof (intro ballI allI impI)
    fix p g assume p: "p \<in> G" "dm_heap (acl_groups st) p = Some g"
    have "mbb_group_has_user g (u_id u) \<Longrightarrow> 0 \<le> g_id g \<and> bit (u_cap_mask u) (nat (g_id g))"
      using ok(2) p usr by (auto simp: members_ok_def)
    then show "\<exists>g'. dm_heap (acl_groups st1) p = Some g' \<and> g_id g' = g_id g \<and>
        (\<forall>j. mbb_group_has_user g' j \<longleftrightarrow> mbb_group_has_user g j \<and> \<not> j = u_id u)"
      using l(5) p by (fastforce simp: groups_without_def)
  qed
  moreover obtain us where us: "module_detach user_entries (acl_users st1) usr = Some us"
      "module_ok user_entries us (U - {usr})" "dm_heap us = dm_heap (acl_users st1)"
    using module_detach_ok [of user_entries "acl_users st1" U usr] l(2) by (auto simp: acl_ok_def user_entries_def)
  moreover have "dm_link (acl_users st) \<noteq> None"
    using ok(1) usr(1) by (auto simp: acl_ok_def module_ok_def split: option.splits)
  ultimately have st': "mbb_user_detach st usr = Some (st1\<lparr>acl_users := us\<rparr>)" "acl_ok (st1\<lparr>acl_users := us\<rparr>) (U - {usr}) G"
      "groups_without st (st1\<lparr>acl_users := us\<rparr>) G (\<lambda>i j. j = u_id u)"
    using l(1,2) usr(2) by (auto simp: mbb_user_detach_def acl_ok_def groups_without_def)
  have same: "u_id v \<noteq> u_id u \<and> u_name v \<noteq> u_name u" if "p \<in> U - {usr}" "dm_heap us p = Some v" for p v
    using that us(3) user_ids_unique [OF l(2), of p usr v u1] user_names_unique [OF l(2), of p usr v u1] usr(1) l(3,4,6) by auto
  have "mbb_user_get_by_id (st1\<lparr>acl_users := us\<rparr>) (u_id u) \<noteq> Some p"
    "mbb_user_get_by_name (st1\<lparr>acl_users := us\<rparr>) (u_name u) \<noteq> Some p" for p
    using same users.get_by_id [OF us(2) [unfolded user_entries_def], of "u_id u" p]
      users.get_by_name [OF us(2) [unfolded user_entries_def], of "u_name u" p]
    by (auto simp: mbb_user_get_by_id_def mbb_user_get_by_name_def)
  then show ?thesis using st' by (meson option.exhaust)
qed

text \<open>A state with one user in one group, for concrete runs.\<close>

definition bob :: mbb_user where
  "bob = \<lparr>u_id = 5, u_name = ''bob'', u_secret = Some ''s'', u_cap_mask = 16, u_nref = 1, u_childs = []\<rparr>"

definition admins :: mbb_group where
  "admins = \<lparr>g_id = 4, g_name = ''admin'', g_users = Some [5 \<mapsto> 100]\<rparr>"

definition acl0 :: acl where
  "acl0 = \<lparr>
     acl_users = \<lparr>dm_link = Some \<lparr>dl_tables = [[Key_Ptr 100 \<mapsto> 100], [Key_Int 5 \<mapsto> 100], [Key_Str ''bob'' \<mapsto> 100]],
                                   dl_destroy = True\<rparr>, dm_heap = [100 \<mapsto> bob]\<rparr>,
     acl_groups = \<lparr>dm_link = Some \<lparr>dl_tables = [[Key_Ptr 200 \<mapsto> 200], [Key_Int 4 \<mapsto> 200], [Key_Str ''admin'' \<mapsto> 200]],
                                    dl_destroy = True\<rparr>, dm_heap = [200 \<mapsto> admins]\<rparr>\<rparr>"

lemma acl0_ok: "acl_ok acl0 {100} {200}" "members_ok acl0 {100} {200}"
proof -
  show "acl_ok acl0 {100} {200}"
    by (auto simp: acl_ok_def acl0_def module_ok_def links_def user_entries_def group_entries_def std_entries_def
        bob_def admins_def less_Suc_eq numeral_3_eq_3)
  have "bit (16 :: guint32) 4" by (simp add: bit_numeral_rec)
  then show "members_ok acl0 {100} {200}"
    by (simp add: members_ok_def acl0_def bob_def admins_def mbb_group_has_user_def)
qed

theorem group_membership_witness:
  "\<exists>st1 g1 st2 g2. mbb_group_add_user acl0 200 100 = Some st1 \<and> members_ok st1 {100} {200} \<and>
     dm_heap (acl_groups st1) 200 = Some g1 \<and> mbb_group_has_user g1 5 \<and>
     mbb_group_del_user acl0 200 100 = Some st2 \<and> members_ok st2 {100} {200} \<and>
     dm_heap (acl_groups st2) 200 = Some g2 \<and> \<not> mbb_group_has_user g2 5"
proof -
  have "dm_heap (acl_groups acl0) 200 = Some admins" "dm_heap (acl_users acl0) 100 = Some bob" "u_id bob = 5"
    by (simp_all add: acl0_def bob_def)
  with group_membership [OF acl0_ok, of 200 100 admins bob] show ?thesis by auto
qed

theorem mbb_user_detach_leaves_groups_witness:
  "\<exists>st'. mbb_user_detach acl0 100 = Some st' \<and> groups_without acl0 st' {200} (\<lambda>i j. j = 5) \<and>
     mbb_user_get_by_id st' 5 = None"
proof -
  have "dm_heap (acl_users acl0) 100 = Some bob" "u_id bob = 5"
    by (simp_all add: acl0_def bob_def)
  with mbb_user_detach_leaves_groups [OF acl0_ok, of 100 bob] show ?thesis by auto
qed

text \<open>
  Removing a user clears the mask before detaching, so the loop over the groups has nothing
  to do: every group keeps the removed user.
\<close>

lemma mbb_user_remove_keeps_groups:
  assumes "mbb_user_remove st usr = Some st'"
  shows "acl_groups st' = acl_groups st"
  using assms
  by (auto simp: mbb_user_remove_def mbb_user_detach_def mbb_user_unref_def detach_loop.simps [of usr 0 0]
      Let_def split: option.splits bind_splits)

section \<open>Names, groups of a user, capability checks\<close>

text \<open>
  Renaming a user or a group fails exactly when the name is taken; otherwise the
  lookup by the new name finds the object, the lookup by id still does, and the registry
  stays consistent.
\<close>

theorem acl_mod_name:
  assumes ok: "acl_ok st U G" and u: "usr \<in> U" "dm_heap (acl_users st) usr = Some u"
    and g: "grp \<in> G" "dm_heap (acl_groups st) grp = Some g"
  shows "\<exists>st1 r1 st2 r2. mbb_user_mod_name st usr n = Some (st1, r1) \<and> acl_ok st1 U G \<and>
       (r1 \<longleftrightarrow> mbb_user_get_by_name st n = None) \<and> (r1 \<longrightarrow> mbb_user_get_by_name st1 n = Some usr) \<and>
       mbb_user_get_by_id st1 (u_id u) = Some usr \<and>
     mbb_group_mod_name st grp n = Some (st2, r2) \<and> acl_ok st2 U G \<and>
       (r2 \<longleftrightarrow> mbb_group_get_by_name st n = None) \<and> (r2 \<longrightarrow> mbb_group_get_by_name st2 n = Some grp) \<and>
       mbb_group_get_by_id st2 (g_id g) = Some grp"
proof -
  have uok: "module_ok (std_entries u_id u_name) (acl_users st) U"
    and gok: "module_ok (std_entries g_id g_name) (acl_groups st) G"
    using ok by (auto simp: acl_ok_def user_entries_def group_entries_def)
  obtain us r1 where r1: "module_mod_name (std_entries u_id u_name) 2 (\<lambda>n u. u\<lparr>u_name := n\<rparr>) (acl_users st) usr n = Some (us, r1)"
      "module_ok (std_entries u_id u_name) us U" "r1 \<longleftrightarrow> (\<forall>q \<in> U. \<forall>y. dm_heap (acl_users st) q = Some y \<longrightarrow> u_name y \<noteq> n)"
      "dm_heap us = (if r1 then (dm_heap (acl_users st))(usr \<mapsto> u\<lparr>u_name := n\<rparr>) else dm_heap (acl_users st))"
    using users.mod_name [OF uok u] by blast
  obtain gs r2 where r2: "module_mod_name (std_entries g_id g_name) 2 (\<lambda>n g. g\<lparr>g_name := n\<rparr>) (acl_groups st) grp n = Some (gs, r2)"
      "module_ok (std_entries g_id g_name) gs G" "r2 \<longleftrightarrow> (\<forall>q \<in> G. \<forall>y. dm_heap (acl_groups st) q = Some y \<longrightarrow> g_name y \<noteq> n)"
      "dm_heap gs = (if r2 then (dm_heap (acl_groups st))(grp \<mapsto> g\<lparr>g_name := n\<rparr>) else dm_heap (acl_groups st))"
    using groups.mod_name [OF gok g] by blast
  have "mbb_user_get_by_name st n = None \<longleftrightarrow> r1"
    using module_get_none [OF uok, of 2 "Key_Str n"] r1(3) by (simp add: mbb_user_get_by_name_def std_entries_def)
  moreover have "mbb_group_get_by_name st n = None \<longleftrightarrow> r2"
    using module_get_none [OF gok, of 2 "Key_Str n"] r2(3) by (simp add: mbb_group_get_by_name_def std_entries_def)
  moreover have "mbb_user_get_by_id (st\<lparr>acl_users := us\<rparr>) (u_id u) = Some usr"
      "r1 \<Longrightarrow> mbb_user_get_by_name (st\<lparr>acl_users := us\<rparr>) n = Some usr"
    using users.get_by_id [OF r1(2)] users.get_by_name [OF r1(2)] u r1(4)
    by (auto simp: mbb_user_get_by_id_def mbb_user_get_by_name_def)
  moreover have "mbb_group_get_by_id (st\<lparr>acl_groups := gs\<rparr>) (g_id g) = Some grp"
      "r2 \<Longrightarrow> mbb_group_get_by_name (st\<lparr>acl_groups := gs\<rparr>) n = Some grp"
    using groups.get_by_id [OF r2(2)] groups.get_by_name [OF r2(2)] g r2(4)
    by (auto simp: mbb_group_get_by_id_def mbb_group_get_by_name_def)
  ultimately show ?thesis
    using r1(1,2) r2(1,2) uok gok
    by (simp add: mbb_user_mod_name_def mbb_group_mod_name_def user_entries_def group_entries_def acl_ok_def)
qed

theorem acl_mod_name_witness:
  "\<exists>st1. mbb_user_mod_name acl0 100 ''eve'' = Some (st1, True) \<and> mbb_user_get_by_name st1 ''eve'' = Some 100"
proof -
  have "dm_heap (acl_groups acl0) 200 = Some admins" "dm_heap (acl_users acl0) 100 = Some bob"
      "mbb_user_get_by_name acl0 ''eve'' = None"
    by (simp_all add: acl0_def mbb_user_get_by_name_def module_get_def data_link_lookup_def)
  with acl_mod_name [OF acl0_ok(1), of 100 bob 200 admins "''eve''"] show ?thesis by auto
qed

lemma get_groups_loop_set: "set (get_groups_loop n msk lst) = set lst \<union> {n + i | i. bit msk i}"
proof (induction n msk lst rule: get_groups_loop.induct)
  case (1 n msk lst)
  show ?case
  proof (cases "msk = 0")
    case True
    then show ?thesis using get_groups_loop.simps [of n 0 lst] by simp
  next
    case False
    have "{n + i | i. bit msk i} = (if bit msk 0 then {n} else {}) \<union> {n + 1 + i | i. bit (drop_bit 1 msk) i}"
    proof -
      have "x \<in> {n + i | i. bit msk i} \<longleftrightarrow> x = n \<and> bit msk 0 \<or> (\<exists>i. x = n + 1 + i \<and> bit msk (Suc i))" for x
      proof -
        have "(\<exists>i. x = n + i \<and> bit msk i) \<longleftrightarrow> x = n + 0 \<and> bit msk 0 \<or> (\<exists>i. x = n + Suc i \<and> bit msk (Suc i))"
          by (metis not0_implies_Suc)
        then show ?thesis by auto
      qed
      then show ?thesis by (auto simp: bit_drop_bit_eq)
    qed
    with 1 False show ?thesis
      by (subst get_groups_loop.simps) (auto simp: and_one_bit)
  qed
qed

lemma get_groups_loop_sorted:
  "sorted_wrt (>) lst \<Longrightarrow> \<forall>x \<in> set lst. x < n \<Longrightarrow> sorted_wrt (>) (get_groups_loop n msk lst)"
proof (induction n msk lst rule: get_groups_loop.induct)
  case (1 n msk lst)
  show ?case
  proof (cases "msk = 0")
    case True
    then show ?thesis using get_groups_loop.simps [of n 0 lst] "1.prems" by simp
  next
    case False
    have "\<forall>x \<in> set lst. x < Suc n" using "1.prems"(2) by auto
    with 1 False show ?thesis by (subst get_groups_loop.simps) auto
  qed
qed

text \<open>
  The groups of a user are the bits of its mask, each once, highest first; and a
  capability check succeeds for root, for a common bit, and for an empty mask only when
  the required mask has the dummy bit.
\<close>

lemma user_groups_and_caps:
  "set (mbb_user_get_groups u) = {n. bit (u_cap_mask u) n} \<and> sorted_wrt (>) (mbb_user_get_groups u) \<and>
   (mbb_cap_check m req \<longleftrightarrow> m = 0 \<and> bit req 31 \<or> m \<noteq> 0 \<and> (bit m 0 \<or> (\<exists>i. bit m i \<and> bit req i)))"
proof -
  have "req AND MBB_CAP_DUMMY \<noteq> 0 \<longleftrightarrow> bit req 31"
    unfolding MBB_CAP_DUMMY_def bit_iff_and_push_bit_not_eq_0 by simp
  moreover have "m AND req \<noteq> 0 \<longleftrightarrow> (\<exists>i. bit m i \<and> bit req i)"
    using bit_imp_le_length by (fastforce simp: bit_eq_iff bit_and_iff)
  ultimately show ?thesis
    by (auto simp: mbb_user_get_groups_def get_groups_loop_set get_groups_loop_sorted mbb_cap_check_def
        MBB_CAP_IS_ROOT_def MBB_CAP_ROOT_def and_one_bit)
qed

end
