(* ===== verification/Mbb_Time.thy ===== *)
theory Mbb_Time
  imports Mbb_Prelude
begin

text \<open>
  Times and their order, \<open>mbbd/mbbtime.c\<close>. A time of 0 is no limit: no start before any
  time, no end after any time; a negative time stands for the time of the parent object.
  The numbered messages of the server (\<open>mbbxmlmsg.h\<close>) are declared here, where the first of them is used. Formatting a time
  (\<open>timetoa\<close>) and the server's clock depend on the C library and are not modelled.
\<close>

section \<open>Definitions\<close>

definition MBB_TIME_PARENT :: time_t where "MBB_TIME_PARENT = - 1"

definition timecmp :: "time_t \<Rightarrow> time_t \<Rightarrow> gint" where
  "timecmp a b = (if a < b then -1 else if a > b then 1 else 0)"

definition mbb_time_becmp :: "time_t \<Rightarrow> time_t \<Rightarrow> gint" where
  "mbb_time_becmp ta tb = (if ta = 0 \<or> tb = 0 then -1 else timecmp ta tb)"

definition mbb_time_pbecmp :: "time_t \<Rightarrow> time_t \<Rightarrow> time_t \<Rightarrow> time_t \<Rightarrow> gint" where
  "mbb_time_pbecmp ta tb pta ptb =
     (let ta = (if ta = MBB_TIME_PARENT then pta else ta);
          tb = (if tb = MBB_TIME_PARENT then ptb else tb)
      in mbb_time_becmp ta tb)"

definition mbb_time_ebcmp :: "time_t \<Rightarrow> time_t \<Rightarrow> gint" where
  "mbb_time_ebcmp ta tb = (if ta = 0 \<or> tb = 0 then 1 else timecmp ta tb)"

definition mbb_time_bbcmp :: "time_t \<Rightarrow> time_t \<Rightarrow> gint" where
  "mbb_time_bbcmp ta tb =
     (if ta = 0 \<and> tb = 0 then 0 else if ta = 0 then -1 else if tb = 0 then 1 else timecmp ta tb)"

definition mbb_time_eecmp :: "time_t \<Rightarrow> time_t \<Rightarrow> gint" where
  "mbb_time_eecmp ta tb =
     (if ta = 0 \<and> tb = 0 then 0 else if ta = 0 then 1 else if tb = 0 then -1 else timecmp ta tb)"

definition mbb_time_bmin :: "time_t \<Rightarrow> time_t \<Rightarrow> time_t" where
  "mbb_time_bmin ta tb = (if mbb_time_bbcmp ta tb < 0 then ta else tb)"

definition mbb_time_rcmp :: "time_t \<Rightarrow> time_t \<Rightarrow> time_t \<Rightarrow> gint" where
  "mbb_time_rcmp t ta tb =
     (if mbb_time_ebcmp t ta < 0 then -1 else if mbb_time_becmp t tb > 0 then 1 else 0)"

definition mbb_time_bmax :: "time_t \<Rightarrow> time_t \<Rightarrow> time_t" where
  "mbb_time_bmax ta tb = (if mbb_time_bbcmp ta tb > 0 then ta else tb)"

definition mbb_time_emin :: "time_t \<Rightarrow> time_t \<Rightarrow> time_t" where
  "mbb_time_emin ta tb = (if mbb_time_eecmp ta tb < 0 then ta else tb)"

definition mbb_time_emax :: "time_t \<Rightarrow> time_t \<Rightarrow> time_t" where
  "mbb_time_emax ta tb = (if mbb_time_eecmp ta tb > 0 then ta else tb)"

datatype mbb_msg_t =
  MBB_MSG_OK | MBB_MSG_EMPTY | MBB_MSG_UNKNOWN_METHOD | MBB_MSG_XTV_MISSED | MBB_MSG_XTV_INVALID
| MBB_MSG_TIME_MISSED | MBB_MSG_UNKNOWN_INET | MBB_MSG_UNKNOWN_UNIT | MBB_MSG_PSTART_MORE_END
| MBB_MSG_PEND_LESS_START | MBB_MSG_INVALID_TIME_ORDER | MBB_MSG_UNIT_FREEZED | MBB_MSG_NAME_EXISTS
| MBB_MSG_UNKNOWN_CONSUMER | MBB_MSG_HAS_CHILDS | MBB_MSG_UNPOSSIBLE | MBB_MSG_ORPHAN
| MBB_MSG_TIME_ORDER | MBB_MSG_TIME_COLLISION | MBB_MSG_UNKNOWN_GROUP | MBB_MSG_UNKNOWN_USER
| MBB_MSG_GROUP_HAS_USER | MBB_MSG_GROUP_HASNOT_USER | MBB_MSG_UNIT_HAS_CONSUMER
| MBB_MSG_CONSUMER_FREEZED | MBB_MSG_SELF_NOT_EXISTS | MBB_MSG_INVALID_PASS | MBB_MSG_NEED_PASS
| MBB_MSG_INET_COLLISION | MBB_MSG_INET_CROSS | MBB_MSG_AMBIGUOUS_REQUEST | MBB_MSG_UNKNOWN_VAR
| MBB_MSG_NOT_CAPABLE | MBB_MSG_INVALID_VALUE | MBB_MSG_VAR_READONLY | MBB_MSG_ADDR_EXISTS
| MBB_MSG_UNKNOWN_GATEWAY | MBB_MSG_UNKNOWN_OPERATOR | MBB_MSG_GW_HAS_LINK | MBB_MSG_UNKNOWN_GWLINK
| MBB_MSG_UNAUTHORIZED | MBB_MSG_HEADER_MISSED | MBB_MSG_INVALID_HEADER | MBB_MSG_VAR_NOT_INIT
| MBB_MSG_UNKNOWN_MODULE | MBB_MSG_UNKNOWN_TASK | MBB_MSG_TASK_CREATE_FAILED | MBB_MSG_TIME_NOPARENT
| MBB_MSG_ROOT_ONLY | MBB_MSG_UNKNOWN_SESSION

definition mbb_time_test_order :: "time_t \<Rightarrow> time_t \<Rightarrow> time_t \<Rightarrow> time_t \<Rightarrow> mbb_msg_t option" where
  "mbb_time_test_order a b pa pb =
     (if a < 0 \<and> b < 0 then None
      else if a < 0 then (if mbb_time_becmp pa b > 0 then Some MBB_MSG_PSTART_MORE_END else None)
      else if b < 0 then (if mbb_time_becmp a pb > 0 then Some MBB_MSG_PEND_LESS_START else None)
      else if mbb_time_becmp a b > 0 then Some MBB_MSG_INVALID_TIME_ORDER
      else None)"

section \<open>Properties\<close>

text \<open>The times that a start and an end admit, 0 being no limit.\<close>

definition admits :: "time_t \<Rightarrow> time_t \<Rightarrow> time_t \<Rightarrow> bool" where
  "admits start fin t \<longleftrightarrow> (start = 0 \<or> start \<le> t) \<and> (fin = 0 \<or> t \<le> fin)"

text \<open>The time of an object whose own time may be that of its parent.\<close>

definition effective :: "time_t \<Rightarrow> time_t \<Rightarrow> time_t" where
  "effective t pt = (if t < 0 then pt else t)"

lemma becmp_admits: "mbb_time_becmp a b \<le> 0 \<longleftrightarrow> (\<exists>t. admits a b t)"
proof
  assume "mbb_time_becmp a b \<le> 0"
  then have "admits a b (if a = 0 then b else a)"
    by (auto simp: admits_def mbb_time_becmp_def timecmp_def split: if_splits)
  then show "\<exists>t. admits a b t" by blast
qed (auto simp: admits_def mbb_time_becmp_def timecmp_def)

lemma admits_meet:
  "admits (mbb_time_bmax a c) (mbb_time_emin b d) t \<longleftrightarrow> admits a b t \<and> admits c d t"
  by (auto simp: admits_def mbb_time_bmax_def mbb_time_emin_def mbb_time_bbcmp_def mbb_time_eecmp_def timecmp_def)

lemma rcmp_admits: "t \<noteq> 0 \<Longrightarrow> mbb_time_rcmp t a b = 0 \<longleftrightarrow> admits a b t"
  by (auto simp: admits_def mbb_time_rcmp_def mbb_time_ebcmp_def mbb_time_becmp_def timecmp_def)

text \<open>
  The comparisons of starts and ends agree with the intervals they bound: a start and
  an end compare as ordered exactly when some time lies between them; the later start and
  the earlier end bound the common part of two intervals; the earlier start and the later
  end bound an interval that contains both; and a time compares as inside exactly when
  the interval admits it.
\<close>

theorem time_comparisons:
  "(mbb_time_becmp a b \<le> 0 \<longleftrightarrow> (\<exists>t. admits a b t)) \<and>
   (admits (mbb_time_bmax a c) (mbb_time_emin b d) t \<longleftrightarrow> admits a b t \<and> admits c d t) \<and>
   (admits a b t \<or> admits c d t \<longrightarrow> admits (mbb_time_bmin a c) (mbb_time_emax b d) t) \<and>
   (t \<noteq> 0 \<longrightarrow> (mbb_time_rcmp t a b = 0 \<longleftrightarrow> admits a b t))"
proof -
  have "mbb_time_becmp a b \<le> 0 \<longleftrightarrow> (\<exists>t. admits a b t)" by (rule becmp_admits)
  moreover have "admits a b t \<or> admits c d t \<longrightarrow> admits (mbb_time_bmin a c) (mbb_time_emax b d) t"
    by (auto simp: admits_def mbb_time_bmin_def mbb_time_emax_def mbb_time_bbcmp_def mbb_time_eecmp_def timecmp_def)
  ultimately show ?thesis using admits_meet rcmp_admits by blast
qed

theorem time_comparisons_witness:
  "mbb_time_rcmp 5 3 0 = 0 \<longleftrightarrow> admits 3 0 5"
  using time_comparisons [of 3 0 0 0 5] by simp

text \<open>
  The order check accepts new times of an object exactly when the object inherits both
  or some time lies between its effective start and end; the message tells which limit
  comes from the parent.
\<close>

theorem mbb_time_test_order_sound:
  "(mbb_time_test_order a b pa pb = None \<longleftrightarrow>
      a < 0 \<and> b < 0 \<or> (\<exists>t. admits (effective a pa) (effective b pb) t)) \<and>
   (mbb_time_test_order a b pa pb = Some MBB_MSG_PSTART_MORE_END \<longrightarrow> a < 0) \<and>
   (mbb_time_test_order a b pa pb = Some MBB_MSG_PEND_LESS_START \<longrightarrow> b < 0)"
proof -
  have be: "mbb_time_becmp x y > 0 \<longleftrightarrow> \<not> (\<exists>t. admits x y t)" for x y
    using becmp_admits [of x y] by (simp add: not_le [symmetric])
  show ?thesis by (auto simp: mbb_time_test_order_def effective_def be)
qed

theorem mbb_time_test_order_sound_witness:
  "mbb_time_test_order (- 1) 5 9 0 = Some MBB_MSG_PSTART_MORE_END \<and> (- 1 :: time_t) < 0"
  using mbb_time_test_order_sound [of "- 1" 5 9 0]
  by (simp add: mbb_time_test_order_def mbb_time_becmp_def timecmp_def)

end
