(* ===== verification/Inet_Pool.thy ===== *)
theory Inet_Pool
  imports Mbb_Time Mbb_Map
begin

text \<open>
  The pool of a unit's networks: the entries of \<open>mbbd/mbbinetpool.c\<close> and the ordered list of
  them, the separator of \<open>mbbd/separator.c\<close>. An entry gives a network to its owner
  (\<open>flag\<close> set) or takes it away, for a span of time that may be inherited; \<open>nice\<close> orders
  the entries. Entries are addressed by pointer and live in a heap. The owner is an
  \<open>mbb_object\<close>: a pointer with a table of methods.
\<close>

section \<open>Definitions\<close>

record mbb_object_interface =
  oi_get_id :: "gpointer \<Rightarrow> int"
  oi_get_start :: "gpointer \<Rightarrow> time_t"
  oi_get_end :: "gpointer \<Rightarrow> time_t"

record mbb_inet_pool_entry =
  pe_id :: int
  pe_inet :: inet
  pe_flag :: bool
  pe_start :: time_t
  pe_end :: time_t
  pe_nice :: nat
  pe_owner :: gpointer
  pe_nodes :: "map_node list"

type_synonym pool_heap = "gpointer \<rightharpoonup> mbb_inet_pool_entry"

definition mbb_inet_pool_entry_test_time :: "mbb_inet_pool_entry \<Rightarrow> time_t \<Rightarrow> time_t \<Rightarrow> bool" where
  "mbb_inet_pool_entry_test_time entry start fin =
     (mbb_time_pbecmp (pe_start entry) (pe_end entry) start fin \<le> 0)"

definition mbb_inet_pool_entry_get_start :: "mbb_object_interface \<Rightarrow> mbb_inet_pool_entry \<Rightarrow> time_t" where
  "mbb_inet_pool_entry_get_start methods entry =
     (if pe_start entry \<ge> 0 then pe_start entry else oi_get_start methods (pe_owner entry))"

definition mbb_inet_pool_entry_get_end :: "mbb_object_interface \<Rightarrow> mbb_inet_pool_entry \<Rightarrow> time_t" where
  "mbb_inet_pool_entry_get_end methods entry =
     (if pe_end entry \<ge> 0 then pe_end entry else oi_get_end methods (pe_owner entry))"

text \<open>The pool is a hash table from ids to entries; removing frees the entry.\<close>

type_synonym inet_pool = "int \<rightharpoonup> gpointer"

definition mbb_inet_pool_add :: "inet_pool \<Rightarrow> pool_heap \<Rightarrow> gpointer \<Rightarrow> inet_pool option" where
  "mbb_inet_pool_add pool h entry =
     (case h entry of None \<Rightarrow> None | Some x \<Rightarrow> Some (pool(pe_id x \<mapsto> entry)))"

definition mbb_inet_pool_del :: "inet_pool \<Rightarrow> pool_heap \<Rightarrow> int \<Rightarrow> inet_pool \<times> pool_heap" where
  "mbb_inet_pool_del pool h i =
     (case pool i of
        None \<Rightarrow> (pool, h)
      | Some entry \<Rightarrow> (pool(i := None), h(entry := None)))"

definition mbb_inet_pool_get :: "inet_pool option \<Rightarrow> int \<Rightarrow> gpointer option" where
  "mbb_inet_pool_get pool i = (case pool of None \<Rightarrow> None | Some ht \<Rightarrow> ht i)"

text \<open>The handlers of a map with nodes, on the entry of the node.\<close>

definition mbb_inet_pool_map_add_handler :: "mbb_inet_pool_entry \<Rightarrow> map_node \<Rightarrow> mbb_inet_pool_entry" where
  "mbb_inet_pool_map_add_handler entry node = entry\<lparr>pe_nodes := node # pe_nodes entry\<rparr>"

definition mbb_inet_pool_map_del_handler :: "mbb_inet_pool_entry \<Rightarrow> map_node \<Rightarrow> mbb_inet_pool_entry" where
  "mbb_inet_pool_map_del_handler entry node =
     (case find (\<lambda>n. map_node_cmp n node = 0) (pe_nodes entry) of
        None \<Rightarrow> entry
      | Some n \<Rightarrow> entry\<lparr>pe_nodes := remove1 n (pe_nodes entry)\<rparr>)"

subsection \<open>The separator\<close>

text \<open>
  \<open>nice\<close> is unsigned and compared as \<open>gint\<close>; the flags are 0 or 1.
\<close>

definition entry_cmp :: "mbb_inet_pool_entry \<Rightarrow> mbb_inet_pool_entry \<Rightarrow> gint" where
  "entry_cmp e1 e2 =
     (let d = to_gint (int (pe_nice e1)) - to_gint (int (pe_nice e2))
      in if d \<noteq> 0 then d else of_bool (pe_flag e2) - of_bool (pe_flag e1))"

text \<open>A separator is the queue of its entries; all of them are in the heap.\<close>

fun separator_add :: "(gpointer \<Rightarrow> mbb_inet_pool_entry) \<Rightarrow> gpointer list \<Rightarrow> gpointer \<Rightarrow> gpointer list" where
  "separator_add h [] entry = [entry]"
| "separator_add h (e # es) entry =
     (if entry_cmp (h entry) (h e) < 0 then entry # e # es else e # separator_add h es entry)"

definition separator_del :: "gpointer list \<Rightarrow> gpointer \<Rightarrow> gpointer list" where
  "separator_del sep entry = remove1 entry sep"

definition separator_has :: "gpointer list \<Rightarrow> gpointer \<Rightarrow> bool" where
  "separator_has sep entry = (entry \<in> set sep)"

definition separator_count :: "gpointer list \<Rightarrow> gint" where
  "separator_count sep = int (length sep)"

definition separator_copy :: "gpointer list option \<Rightarrow> gpointer list \<Rightarrow> gpointer \<Rightarrow> gpointer list" where
  "separator_copy dst src excl =
     foldl (\<lambda>q e. if e \<noteq> excl then e # q else q) (case dst of None \<Rightarrow> [] | Some q \<Rightarrow> q) (rev src)"

definition separator_move :: "gpointer list \<Rightarrow> gpointer list \<Rightarrow> gpointer list" where
  "separator_move dst src = src"

definition separator_clear :: "gpointer list \<Rightarrow> gpointer list" where
  "separator_clear sep = []"

section \<open>Properties\<close>

text \<open>The order of the entries: by \<open>nice\<close>, and of equal ones the giving before the taking.\<close>

definition entry_le :: "mbb_inet_pool_entry \<Rightarrow> mbb_inet_pool_entry \<Rightarrow> bool" where
  "entry_le a b \<longleftrightarrow> pe_nice a < pe_nice b \<or> pe_nice a = pe_nice b \<and> (pe_flag b \<longrightarrow> pe_flag a)"

lemma entry_cmp_le:
  assumes "pe_nice a < 2 ^ 31" and "pe_nice b < 2 ^ 31"
  shows "entry_cmp a b < 0 \<longleftrightarrow> \<not> entry_le b a"
proof -
  have "to_gint (int (pe_nice a)) = int (pe_nice a)" "to_gint (int (pe_nice b)) = int (pe_nice b)"
    using assms by auto
  then show ?thesis by (auto simp: entry_cmp_def entry_le_def Let_def)
qed

lemma entry_le_total: "entry_le a b \<or> entry_le b a"
  by (auto simp: entry_le_def)

lemma entry_le_trans: "entry_le a b \<Longrightarrow> entry_le b c \<Longrightarrow> entry_le a c"
  by (auto simp: entry_le_def)

definition sep_ok :: "(gpointer \<Rightarrow> mbb_inet_pool_entry) \<Rightarrow> gpointer list \<Rightarrow> bool" where
  "sep_ok h sep \<longleftrightarrow> sorted_wrt (\<lambda>a b. entry_le (h a) (h b)) sep \<and> (\<forall>e \<in> set sep. pe_nice (h e) < 2 ^ 31)"

lemma sorted_wrt_remove1: "sorted_wrt P xs \<Longrightarrow> sorted_wrt P (remove1 a xs)"
proof (induction xs)
  case (Cons x xs)
  then show ?case using set_remove1_subset [of a xs] by auto
qed simp

lemma separator_add_split:
  assumes "sep_ok h sep" and "pe_nice (h entry) < 2 ^ 31"
  shows "\<exists>xs ys. sep = xs @ ys \<and> separator_add h sep entry = xs @ entry # ys \<and>
     (\<forall>x \<in> set xs. entry_le (h x) (h entry)) \<and> (\<forall>y \<in> set ys. \<not> entry_le (h y) (h entry))"
  using assms
proof (induction sep)
  case (Cons e es)
  show ?case
  proof (cases "entry_cmp (h entry) (h e) < 0")
    case True
    then have "\<not> entry_le (h e) (h entry)" using Cons.prems entry_cmp_le by (simp add: sep_ok_def)
    moreover from this have "\<forall>y \<in> set es. \<not> entry_le (h y) (h entry)"
      using Cons.prems(1) entry_le_trans by (fastforce simp: sep_ok_def)
    ultimately show ?thesis using True by (intro exI [of _ "[]"] exI [of _ "e # es"]) simp
  next
    case False
    with Cons obtain xs ys where "es = xs @ ys" "separator_add h es entry = xs @ entry # ys"
        "\<forall>x \<in> set xs. entry_le (h x) (h entry)" "\<forall>y \<in> set ys. \<not> entry_le (h y) (h entry)"
      by (auto simp: sep_ok_def)
    moreover have "entry_le (h e) (h entry)"
      using False Cons.prems entry_cmp_le [of "h entry" "h e"] by (auto simp: sep_ok_def)
    ultimately show ?thesis using False by (intro exI [of _ "e # xs"] exI [of _ ys]) simp
  qed
qed simp

text \<open>
  Adding an entry to a separator puts it after every entry that is not greater and
  before every greater one, leaves the others in place and keeps the list ordered by
  \<open>nice\<close> with giving before taking; deleting keeps the order.
\<close>

lemma separator_order:
  assumes "sep_ok h sep" and "pe_nice (h entry) < 2 ^ 31"
  shows "sep_ok h (separator_add h sep entry) \<and> sep_ok h (separator_del sep entry) \<and>
     (\<exists>xs ys. sep = xs @ ys \<and> separator_add h sep entry = xs @ entry # ys \<and>
        (\<forall>x \<in> set xs. entry_le (h x) (h entry)) \<and> (\<forall>y \<in> set ys. \<not> entry_le (h y) (h entry)))"
proof -
  obtain xs ys where s: "sep = xs @ ys" "separator_add h sep entry = xs @ entry # ys"
      "\<forall>x \<in> set xs. entry_le (h x) (h entry)" "\<forall>y \<in> set ys. \<not> entry_le (h y) (h entry)"
    using separator_add_split [OF assms] by blast
  then have "sep_ok h (separator_add h sep entry)"
    using assms entry_le_total by (auto simp: sep_ok_def sorted_wrt_append)
  moreover have "sep_ok h (separator_del sep entry)"
    using assms(1) set_remove1_subset [of entry sep]
    by (auto simp: sep_ok_def separator_del_def sorted_wrt_remove1)
  ultimately show ?thesis using s by blast
qed

end
