(* ===== verification/Account.thy ===== *)
theory Account
  imports Data_Link Inet_Pool
begin

text \<open>
  Units and their consumers: \<open>mbbd/mbbunit.c\<close> and \<open>mbbd/mbbconsumer.c\<close>. A unit owns
  networks (its separator) and a time map built from them; it may belong to a consumer,
  whose times it inherits where its own are negative. The state holds the two registries,
  the heap of pool entries, the pool of networks and the table of local units. A NULL
  pointer is 0; following it or a freed pointer is \<open>None\<close>. Freeing a unit also withdraws
  its networks from the global map through the entries' node lists, which are not part of
  this model.
\<close>

section \<open>Definitions\<close>

record mbb_consumer =
  c_id :: int
  c_name :: string
  c_units :: "gpointer list"
  c_start :: time_t
  c_end :: time_t
  c_user :: gpointer

record mbb_unit =
  un_id :: int
  un_name :: string
  un_nref :: int
  un_con :: gpointer
  un_local :: bool
  un_start :: time_t
  un_end :: time_t
  un_sep :: "gpointer list"
  un_map :: mbb_map

record account =
  ac_units :: "mbb_unit dl_module"
  ac_cons :: "mbb_consumer dl_module"
  ac_entries :: pool_heap
  ac_pool :: "inet_pool option"
  ac_local :: "(int \<rightharpoonup> gpointer) option"

definition unit_entries :: "mbb_unit dl_entries" where
  "unit_entries = std_entries un_id un_name"

definition consumer_entries :: "mbb_consumer dl_entries" where
  "consumer_entries = std_entries c_id c_name"

definition get_unit :: "account \<Rightarrow> gpointer \<Rightarrow> mbb_unit option" where
  "get_unit st p = dm_heap (ac_units st) p"

definition get_con :: "account \<Rightarrow> gpointer \<Rightarrow> mbb_consumer option" where
  "get_con st p = dm_heap (ac_cons st) p"

definition set_unit :: "account \<Rightarrow> gpointer \<Rightarrow> mbb_unit \<Rightarrow> account" where
  "set_unit st p x = st\<lparr>ac_units := (ac_units st)\<lparr>dm_heap := (dm_heap (ac_units st))(p \<mapsto> x)\<rparr>\<rparr>"

definition set_con :: "account \<Rightarrow> gpointer \<Rightarrow> mbb_consumer option \<Rightarrow> account" where
  "set_con st p x = st\<lparr>ac_cons := (ac_cons st)\<lparr>dm_heap := (dm_heap (ac_cons st))(p := x)\<rparr>\<rparr>"

subsection \<open>Units\<close>

definition MAP_INIT :: mbb_map where
  "MAP_INIT = \<lparr>m_slicer = None, m_dkey_ops = None, m_node_add = False, m_node_del = False\<rparr>"

definition mbb_unit_new :: "int \<Rightarrow> string \<Rightarrow> time_t \<Rightarrow> time_t \<Rightarrow> mbb_unit" where
  "mbb_unit_new i name start fin =
     \<lparr>un_id = i, un_name = name, un_nref = 1, un_con = 0, un_local = False, un_start = start, un_end = fin,
      un_sep = [], un_map = MAP_INIT\<rparr>"

definition mbb_unit_local_add :: "account \<Rightarrow> gpointer \<Rightarrow> account option" where
  "mbb_unit_local_add st uni =
     do { u \<leftarrow> get_unit st uni;
          let ht = (case ac_local st of None \<Rightarrow> Map.empty | Some ht \<Rightarrow> ht);
          Some (set_unit (st\<lparr>ac_local := Some (ht(un_id u \<mapsto> uni))\<rparr>) uni (u\<lparr>un_local := True\<rparr>)) }"

definition mbb_unit_local_del :: "account \<Rightarrow> gpointer \<Rightarrow> account option" where
  "mbb_unit_local_del st uni =
     (case ac_local st of
        None \<Rightarrow> Some st
      | Some ht \<Rightarrow>
          do { u \<leftarrow> get_unit st uni;
               Some (set_unit (st\<lparr>ac_local := Some (ht(un_id u := None))\<rparr>) uni (u\<lparr>un_local := False\<rparr>)) })"

definition mbb_unit_join :: "account \<Rightarrow> gpointer \<Rightarrow> account option" where
  "mbb_unit_join st uni =
     do { us \<leftarrow> module_join unit_entries (ac_units st) uni;
          let st = st\<lparr>ac_units := us\<rparr>;
          u \<leftarrow> get_unit st uni;
          if un_local u then mbb_unit_local_add st uni else Some st }"

definition mbb_unit_detach :: "account \<Rightarrow> gpointer \<Rightarrow> account option" where
  "mbb_unit_detach st uni =
     (case dm_link (ac_units st) of
        None \<Rightarrow> Some st
      | Some _ \<Rightarrow>
          do { us \<leftarrow> module_detach unit_entries (ac_units st) uni;
               let st = st\<lparr>ac_units := us\<rparr>;
               u \<leftarrow> get_unit st uni;
               if un_local u then mbb_unit_local_del st uni else Some st })"

definition mbb_unit_get_id :: "account \<Rightarrow> gpointer \<Rightarrow> int option" where
  "mbb_unit_get_id st uni = do { u \<leftarrow> get_unit st uni; Some (un_id u) }"

definition mbb_unit_get_start :: "account \<Rightarrow> gpointer \<Rightarrow> time_t option" where
  "mbb_unit_get_start st uni =
     do { u \<leftarrow> get_unit st uni;
          if un_start u \<ge> 0 \<or> un_con u = 0 then Some (un_start u)
          else do { c \<leftarrow> get_con st (un_con u); Some (c_start c) } }"

definition mbb_unit_get_end :: "account \<Rightarrow> gpointer \<Rightarrow> time_t option" where
  "mbb_unit_get_end st uni =
     do { u \<leftarrow> get_unit st uni;
          if un_end u \<ge> 0 \<or> un_con u = 0 then Some (un_end u)
          else do { c \<leftarrow> get_con st (un_con u); Some (c_end c) } }"

definition mbb_unit_get_pool :: "account \<Rightarrow> inet_pool option" where
  "mbb_unit_get_pool st = ac_pool st"

definition mbb_unit_get_by_id :: "account \<Rightarrow> int \<Rightarrow> gpointer option" where
  "mbb_unit_get_by_id st i = module_get (ac_units st) 1 (Key_Int i)"

definition mbb_unit_get_by_name :: "account \<Rightarrow> string \<Rightarrow> gpointer option" where
  "mbb_unit_get_by_name st name = module_get (ac_units st) 2 (Key_Str name)"

definition mbb_unit_mod_name :: "account \<Rightarrow> gpointer \<Rightarrow> string \<Rightarrow> (account \<times> bool) option" where
  "mbb_unit_mod_name st uni newname =
     do { (us, r) \<leftarrow> module_mod_name unit_entries 2 (\<lambda>n u. u\<lparr>un_name := n\<rparr>) (ac_units st) uni newname;
          Some (st\<lparr>ac_units := us\<rparr>, r) }"

fun unit_test_inet_time :: "pool_heap \<Rightarrow> gpointer list \<Rightarrow> time_t \<Rightarrow> time_t \<Rightarrow> bool option" where
  "unit_test_inet_time h [] start fin = Some True"
| "unit_test_inet_time h (e # es) start fin =
     do { x \<leftarrow> h e;
          if \<not> mbb_inet_pool_entry_test_time x start fin then Some False
          else unit_test_inet_time h es start fin }"

definition mbb_unit_test_time :: "account \<Rightarrow> gpointer \<Rightarrow> time_t \<Rightarrow> time_t \<Rightarrow> bool option" where
  "mbb_unit_test_time st uni start fin =
     do { u \<leftarrow> get_unit st uni;
          let start = (if un_start u \<ge> 0 then un_start u else start);
          let fin = (if un_end u \<ge> 0 then un_end u else fin);
          if mbb_time_becmp start fin > 0 then Some False
          else unit_test_inet_time (ac_entries st) (un_sep u) start fin }"

definition mbb_unit_mod_time :: "account \<Rightarrow> gpointer \<Rightarrow> time_t \<Rightarrow> time_t \<Rightarrow> (account \<times> bool) option" where
  "mbb_unit_mod_time st uni start fin =
     do { u \<leftarrow> get_unit st uni;
          ts \<leftarrow> (if start < 0 then map_option c_start (get_con st (un_con u)) else Some start);
          te \<leftarrow> (if fin < 0 then map_option c_end (get_con st (un_con u)) else Some fin);
          ok \<leftarrow> unit_test_inet_time (ac_entries st) (un_sep u) ts te;
          if \<not> ok then Some (st, False)
          else Some (set_unit st uni (u\<lparr>un_start := start, un_end := fin\<rparr>), True) }"

definition mbb_unit_foreach :: "account \<Rightarrow> gpointer set" where
  "mbb_unit_foreach st = data_link_foreach (dm_link (ac_units st))"

definition mbb_unit_forregex :: "account \<Rightarrow> (dl_key \<Rightarrow> bool) option \<Rightarrow> gpointer set" where
  "mbb_unit_forregex st re =
     data_link_forregex unit_entries (dm_heap (ac_units st)) (dm_link (ac_units st)) re 2"

definition mbb_unit_local_forregex :: "account \<Rightarrow> (string \<Rightarrow> bool) option \<Rightarrow> gpointer set" where
  "mbb_unit_local_forregex st re =
     (case ac_local st of
        None \<Rightarrow> {}
      | Some ht \<Rightarrow>
          (case re of
             None \<Rightarrow> ran ht
           | Some re_ismatch \<Rightarrow> {p \<in> ran ht. \<exists>u. get_unit st p = Some u \<and> re_ismatch (un_name u)}))"

definition mbb_unit_inherit_time :: "account \<Rightarrow> gpointer \<Rightarrow> account option" where
  "mbb_unit_inherit_time st uni =
     do { u \<leftarrow> get_unit st uni;
          if un_con u = 0 then Some st
          else do { c \<leftarrow> get_con st (un_con u);
                    let u = (if un_start u < 0 then u\<lparr>un_start := c_start c\<rparr> else u);
                    let u = (if un_end u < 0 then u\<lparr>un_end := c_end c\<rparr> else u);
                    Some (set_unit st uni u) } }"

definition mbb_unit_unset_consumer :: "account \<Rightarrow> gpointer \<Rightarrow> (account \<times> bool) option" where
  "mbb_unit_unset_consumer st uni =
     do { u \<leftarrow> get_unit st uni;
          if un_start u < 0 \<or> un_end u < 0 then Some (st, False)
          else Some (set_unit st uni (u\<lparr>un_con := 0\<rparr>), True) }"

definition mbb_unit_set_consumer :: "account \<Rightarrow> gpointer \<Rightarrow> gpointer \<Rightarrow> account option" where
  "mbb_unit_set_consumer st uni con =
     do { u \<leftarrow> get_unit st uni; Some (set_unit st uni (u\<lparr>un_con := con\<rparr>)) }"

definition mbb_unit_add_inet :: "account \<Rightarrow> gpointer \<Rightarrow> gpointer \<Rightarrow> account option" where
  "mbb_unit_add_inet st uni entry =
     do { u \<leftarrow> get_unit st uni;
          if separator_has (un_sep u) entry then Some st
          else
            do { let sep = separator_add (\<lambda>p. the (ac_entries st p)) (un_sep u) entry;
                 let pool = (case ac_pool st of None \<Rightarrow> Map.empty | Some p \<Rightarrow> p);
                 pool \<leftarrow> mbb_inet_pool_add pool (ac_entries st) entry;
                 Some ((set_unit st uni (u\<lparr>un_sep := sep\<rparr>))\<lparr>ac_pool := Some pool\<rparr>) } }"

definition mbb_unit_sep_reorder :: "account \<Rightarrow> gpointer \<Rightarrow> account option" where
  "mbb_unit_sep_reorder st entry =
     do { x \<leftarrow> ac_entries st entry;
          u \<leftarrow> get_unit st (pe_owner x);
          let sep = separator_del (un_sep u) entry;
          let sep = separator_add (\<lambda>p. the (ac_entries st p)) sep entry;
          Some (set_unit st (pe_owner x) (u\<lparr>un_sep := sep\<rparr>)) }"

subsection \<open>The time map of a unit\<close>

text \<open>The method table through which an entry asks its owner for its times.\<close>

definition self_interface :: "account \<Rightarrow> mbb_object_interface" where
  "self_interface st = \<lparr>
     oi_get_id = (\<lambda>p. the (mbb_unit_get_id st p)),
     oi_get_start = (\<lambda>p. the (mbb_unit_get_start st p)),
     oi_get_end = (\<lambda>p. the (mbb_unit_get_end st p))\<rparr>"

definition unit_map_add_inet ::
  "tree_search \<Rightarrow> account \<Rightarrow> map_ctx \<Rightarrow> mbb_map \<Rightarrow> gpointer \<Rightarrow> ((map_ctx \<times> mbb_map) \<times> bool) option" where
  "unit_map_add_inet tree st s m entry =
     do { x \<leftarrow> ac_entries st entry;
          let r = inet2range (pe_inet x);
          let key = \<lparr>s_begin = TIME_TO_POINTER (mbb_inet_pool_entry_get_start (self_interface st) x),
                     s_end = TIME_TO_POINTER (mbb_inet_pool_entry_get_end (self_interface st) x)\<rparr>;
          let dkey = \<lparr>s_begin = IPV4_TO_POINTER (r_min r), s_end = IPV4_TO_POINTER (r_max r)\<rparr>;
          if pe_flag x
          then do { (s, m) \<leftarrow> map_add tree s m key dkey entry; Some ((s, m), \<not> c_found (mc_cross s)) }
          else do { (s, m) \<leftarrow> map_del tree s m key dkey 0;
                    let s = s\<lparr>mc_cross := (mc_cross s)\<lparr>c_found := False\<rparr>\<rparr>;
                    Some ((s, m), True) } }"

text \<open>The loop of \<open>mbb_unit_map_rebuild\<close>: the entry that failed and what it crossed, or the new map.\<close>

fun rebuild_loop ::
  "tree_search \<Rightarrow> account \<Rightarrow> map_ctx \<Rightarrow> mbb_map \<Rightarrow> gpointer list
     \<Rightarrow> ((map_ctx \<times> mbb_map) \<times> (gpointer \<times> gpointer) option) option" where
  "rebuild_loop tree st s m [] = Some ((s, m), None)"
| "rebuild_loop tree st s m (entry # es) =
     (case unit_map_add_inet tree st s m entry of
        None \<Rightarrow> None
      | Some ((s, m), ok) \<Rightarrow>
          if \<not> ok then Some ((s, m), Some (c_data (mc_cross s), entry))
          else rebuild_loop tree st s m es)"

definition mbb_unit_map_rebuild ::
  "tree_search \<Rightarrow> account \<Rightarrow> map_ctx \<Rightarrow> gpointer \<Rightarrow> (account \<times> map_ctx \<times> (gpointer \<times> gpointer) option) option" where
  "mbb_unit_map_rebuild tree st s uni =
     do { u \<leftarrow> get_unit st uni;
          if separator_count (un_sep u) = 0
          then do { let (s, m) = map_clear s (un_map u);
                    Some (set_unit st uni (u\<lparr>un_map := m\<rparr>), s, None) }
          else do { let m = map_init MAP_INIT None;
                    let (s, m) = time_map_init s m;
                    ((s, m), bad) \<leftarrow> rebuild_loop tree st s m (un_sep u);
                    if bad \<noteq> None then Some (st, fst (map_clear s m), bad)
                    else do { (s, m) \<leftarrow> map_move s (un_map u) m;
                              Some (set_unit st uni (u\<lparr>un_map := m\<rparr>), s, None) } } }"

fun unit_mapped_loop :: "pool_heap \<Rightarrow> gpointer list \<Rightarrow> bool option" where
  "unit_mapped_loop h [] = Some False"
| "unit_mapped_loop h (e # es) =
     do { x \<leftarrow> h e; if pe_nodes x \<noteq> [] then Some True else unit_mapped_loop h es }"

definition mbb_unit_mapped :: "account \<Rightarrow> gpointer \<Rightarrow> bool option" where
  "mbb_unit_mapped st uni = do { u \<leftarrow> get_unit st uni; unit_mapped_loop (ac_entries st) (un_sep u) }"

subsection \<open>Consumers\<close>

definition mbb_consumer_new :: "int \<Rightarrow> string \<Rightarrow> time_t \<Rightarrow> time_t \<Rightarrow> mbb_consumer" where
  "mbb_consumer_new i name start fin =
     \<lparr>c_id = i, c_name = name, c_units = [], c_start = start, c_end = fin, c_user = 0\<rparr>"

definition mbb_consumer_join :: "account \<Rightarrow> gpointer \<Rightarrow> account option" where
  "mbb_consumer_join st con =
     do { cs \<leftarrow> module_join consumer_entries (ac_cons st) con; Some (st\<lparr>ac_cons := cs\<rparr>) }"

definition mbb_consumer_detach :: "account \<Rightarrow> gpointer \<Rightarrow> account option" where
  "mbb_consumer_detach st con =
     do { cs \<leftarrow> module_detach consumer_entries (ac_cons st) con; Some (st\<lparr>ac_cons := cs\<rparr>) }"

definition mbb_consumer_remove :: "account \<Rightarrow> gpointer \<Rightarrow> account option" where
  "mbb_consumer_remove st con = do { st \<leftarrow> mbb_consumer_detach st con; Some (set_con st con None) }"

definition mbb_consumer_mod_name :: "account \<Rightarrow> gpointer \<Rightarrow> string \<Rightarrow> (account \<times> bool) option" where
  "mbb_consumer_mod_name st con newname =
     do { (cs, r) \<leftarrow> module_mod_name consumer_entries 2 (\<lambda>n c. c\<lparr>c_name := n\<rparr>) (ac_cons st) con newname;
          Some (st\<lparr>ac_cons := cs\<rparr>, r) }"

fun units_test_time :: "account \<Rightarrow> gpointer list \<Rightarrow> time_t \<Rightarrow> time_t \<Rightarrow> bool option" where
  "units_test_time st [] start fin = Some True"
| "units_test_time st (u # us) start fin =
     do { ok \<leftarrow> mbb_unit_test_time st u start fin;
          if \<not> ok then Some False else units_test_time st us start fin }"

definition mbb_consumer_mod_time :: "account \<Rightarrow> gpointer \<Rightarrow> time_t \<Rightarrow> time_t \<Rightarrow> (account \<times> bool) option" where
  "mbb_consumer_mod_time st con start fin =
     do { c \<leftarrow> get_con st con;
          if mbb_time_becmp start fin > 0 then Some (st, False)
          else do { ok \<leftarrow> units_test_time st (c_units c) start fin;
                    if \<not> ok then Some (st, False)
                    else Some (set_con st con (Some (c\<lparr>c_start := start, c_end := fin\<rparr>)), True) } }"

definition mbb_consumer_get_by_id :: "account \<Rightarrow> int \<Rightarrow> gpointer option" where
  "mbb_consumer_get_by_id st i = module_get (ac_cons st) 1 (Key_Int i)"

definition mbb_consumer_get_by_name :: "account \<Rightarrow> string \<Rightarrow> gpointer option" where
  "mbb_consumer_get_by_name st name = module_get (ac_cons st) 2 (Key_Str name)"

definition mbb_consumer_foreach :: "account \<Rightarrow> gpointer set" where
  "mbb_consumer_foreach st = data_link_foreach (dm_link (ac_cons st))"

definition mbb_consumer_forregex :: "account \<Rightarrow> (dl_key \<Rightarrow> bool) option \<Rightarrow> gpointer set" where
  "mbb_consumer_forregex st re =
     data_link_forregex consumer_entries (dm_heap (ac_cons st)) (dm_link (ac_cons st)) re 2"

definition mbb_consumer_add_unit :: "account \<Rightarrow> gpointer \<Rightarrow> gpointer \<Rightarrow> account option" where
  "mbb_consumer_add_unit st con uni =
     do { c \<leftarrow> get_con st con;
          Some (if uni \<notin> set (c_units c) then set_con st con (Some (c\<lparr>c_units := uni # c_units c\<rparr>)) else st) }"

definition mbb_consumer_del_unit :: "account \<Rightarrow> gpointer \<Rightarrow> gpointer \<Rightarrow> account option" where
  "mbb_consumer_del_unit st con uni =
     do { c \<leftarrow> get_con st con; Some (set_con st con (Some (c\<lparr>c_units := remove1 uni (c_units c)\<rparr>))) }"

definition mbb_consumer_has_unit :: "account \<Rightarrow> gpointer \<Rightarrow> gpointer \<Rightarrow> bool option" where
  "mbb_consumer_has_unit st con uni = do { c \<leftarrow> get_con st con; Some (uni \<in> set (c_units c)) }"

fun consumer_mapped_loop :: "account \<Rightarrow> gpointer list \<Rightarrow> bool option" where
  "consumer_mapped_loop st [] = Some False"
| "consumer_mapped_loop st (u # us) =
     do { m \<leftarrow> mbb_unit_mapped st u; if m then Some True else consumer_mapped_loop st us }"

definition mbb_consumer_mapped :: "account \<Rightarrow> gpointer \<Rightarrow> bool option" where
  "mbb_consumer_mapped st con = do { c \<leftarrow> get_con st con; consumer_mapped_loop st (c_units c) }"

section \<open>Properties\<close>

interpretation units: named_registry un_id un_name "\<lambda>n u. u\<lparr>un_name := n\<rparr>"
  by unfold_locales simp_all

interpretation consumers: named_registry c_id c_name "\<lambda>n c. c\<lparr>c_name := n\<rparr>"
  by unfold_locales simp_all

subsection \<open>Changing times\<close>

text \<open>
  A pool entry fits into a span when some time lies between its start and its end, each
  taken from the span where the entry says \<open>MBB_TIME_PARENT\<close>; a unit fits when it and all
  its entries do.
\<close>

definition entry_fits :: "mbb_inet_pool_entry \<Rightarrow> time_t \<Rightarrow> time_t \<Rightarrow> bool" where
  "entry_fits x start fin \<longleftrightarrow>
     (\<exists>t. admits (if pe_start x = -1 then start else pe_start x) (if pe_end x = -1 then fin else pe_end x) t)"

definition unit_fits :: "account \<Rightarrow> mbb_unit \<Rightarrow> time_t \<Rightarrow> time_t \<Rightarrow> bool" where
  "unit_fits st u start fin \<longleftrightarrow>
     (let s = effective (un_start u) start; f = effective (un_end u) fin
      in (\<exists>t. admits s f t) \<and> (\<forall>e \<in> set (un_sep u). \<forall>x. ac_entries st e = Some x \<longrightarrow> entry_fits x s f))"

text \<open>All pointers of a consumer lead to objects.\<close>

definition con_valid :: "account \<Rightarrow> mbb_consumer \<Rightarrow> bool" where
  "con_valid st c \<longleftrightarrow>
     (\<forall>p \<in> set (c_units c). \<exists>u. get_unit st p = Some u \<and> (\<forall>e \<in> set (un_sep u). ac_entries st e \<noteq> None))"

lemma entry_test_fits: "mbb_inet_pool_entry_test_time x start fin \<longleftrightarrow> entry_fits x start fin"
  by (simp add: mbb_inet_pool_entry_test_time_def mbb_time_pbecmp_def entry_fits_def MBB_TIME_PARENT_def
      becmp_admits Let_def)

lemma unit_test_inet_time_all:
  "\<forall>e \<in> set es. h e \<noteq> None \<Longrightarrow>
     unit_test_inet_time h es start fin = Some (\<forall>e \<in> set es. \<forall>x. h e = Some x \<longrightarrow> entry_fits x start fin)"
  by (induction es) (auto simp: entry_test_fits)

lemma unit_test_time_fits:
  assumes "get_unit st p = Some u" and "\<forall>e \<in> set (un_sep u). ac_entries st e \<noteq> None"
  shows "mbb_unit_test_time st p start fin = Some (unit_fits st u start fin)"
proof -
  have "mbb_time_becmp x y > 0 \<longleftrightarrow> \<not> (\<exists>t. admits x y t)" for x y
    unfolding becmp_admits [symmetric] by linarith
  then show ?thesis
    using assms by (auto simp: mbb_unit_test_time_def unit_fits_def effective_def Let_def unit_test_inet_time_all)
qed

lemma units_test_time_all:
  "\<forall>p \<in> set us. \<exists>u. get_unit st p = Some u \<and> (\<forall>e \<in> set (un_sep u). ac_entries st e \<noteq> None) \<Longrightarrow>
     units_test_time st us start fin = Some (\<forall>p \<in> set us. \<forall>u. get_unit st p = Some u \<longrightarrow> unit_fits st u start fin)"
proof (induction us)
  case (Cons p us)
  then obtain u where "get_unit st p = Some u" "\<forall>e \<in> set (un_sep u). ac_entries st e \<noteq> None" by auto
  with Cons show ?case by (simp add: unit_test_time_fits)
qed simp


text \<open>A consumer with one unit and one network, for concrete runs.\<close>

definition account0 :: account where
  "account0 = \<lparr>
     ac_units = \<lparr>dm_link = None, dm_heap = [10 \<mapsto> (mbb_unit_new 1 ''u'' (- 1) (- 1))\<lparr>un_con := 20, un_sep := [30]\<rparr>]\<rparr>,
     ac_cons = \<lparr>dm_link = None, dm_heap = [20 \<mapsto> (mbb_consumer_new 2 ''c'' 0 0)\<lparr>c_units := [10]\<rparr>]\<rparr>,
     ac_entries = [30 \<mapsto> \<lparr>pe_id = 3, pe_inet = \<lparr>addr = 0x0a000000, mask = 8\<rparr>, pe_flag = True, pe_start = 100,
                          pe_end = - 1, pe_nice = 0, pe_owner = 10, pe_nodes = []\<rparr>],
     ac_pool = None, ac_local = None\<rparr>"


text \<open>
  Changing the times of a unit is refused exactly when one of its networks would have
  no time left; then nothing changes. A granted change stores the two times, also where
  they are inherited, and nothing else.
\<close>

lemma unit_mod_time_checked:
  assumes u: "get_unit st uni = Some u" "\<forall>e \<in> set (un_sep u). ac_entries st e \<noteq> None"
    and c: "start < 0 \<or> fin < 0 \<Longrightarrow> get_con st (un_con u) = Some c"
  shows "\<exists>st' r. mbb_unit_mod_time st uni start fin = Some (st', r) \<and>
     (r \<longleftrightarrow> (\<forall>e \<in> set (un_sep u). \<forall>x. ac_entries st e = Some x \<longrightarrow>
        entry_fits x (effective start (c_start c)) (effective fin (c_end c)))) \<and>
     st' = (if r then set_unit st uni (u\<lparr>un_start := start, un_end := fin\<rparr>) else st)"
  using u c by (auto simp: mbb_unit_mod_time_def unit_test_inet_time_all effective_def)

subsection \<open>Networks and maps of a unit\<close>

text \<open>
  Adding a network to a unit puts it into the unit's ordered list and into the pool under
  its id; a network the unit already has changes nothing.
\<close>

lemma unit_add_inet_pooled:
  assumes u: "get_unit st uni = Some u" and x: "ac_entries st entry = Some x" "pe_nice x < 2 ^ 31"
    and ok: "sep_ok (\<lambda>p. the (ac_entries st p)) (un_sep u)"
  shows "\<exists>st' u'. mbb_unit_add_inet st uni entry = Some st' \<and> get_unit st' uni = Some u' \<and>
     sep_ok (\<lambda>p. the (ac_entries st' p)) (un_sep u') \<and> set (un_sep u') = insert entry (set (un_sep u)) \<and>
     (entry \<in> set (un_sep u) \<longrightarrow> st' = st) \<and>
     (entry \<notin> set (un_sep u) \<longrightarrow> mbb_inet_pool_get (mbb_unit_get_pool st') (pe_id x) = Some entry)"
proof (cases "entry \<in> set (un_sep u)")
  case True
  with u ok show ?thesis by (auto simp: mbb_unit_add_inet_def separator_has_def)
next
  case False
  let ?h = "\<lambda>p. the (ac_entries st p)"
  obtain xs ys where s: "un_sep u = xs @ ys" "separator_add ?h (un_sep u) entry = xs @ entry # ys"
      "\<forall>x \<in> set xs. entry_le (?h x) (?h entry)" "\<forall>y \<in> set ys. \<not> entry_le (?h y) (?h entry)"
    using separator_add_split [OF ok, of entry] x by (metis option.sel)
  then have "sep_ok ?h (xs @ entry # ys)"
    using ok x entry_le_total by (auto simp: sep_ok_def sorted_wrt_append)
  with False u x s show ?thesis
    by (auto simp: mbb_unit_add_inet_def separator_has_def mbb_inet_pool_add_def set_unit_def get_unit_def
        mbb_inet_pool_get_def mbb_unit_get_pool_def)
qed

lemma rebuild_loop_bad:
  "rebuild_loop tree st s m es = Some (r, Some (d, entry)) \<Longrightarrow> entry \<in> set es"
proof (induction es arbitrary: s m)
  case (Cons e es)
  then show ?case by (fastforce split: option.splits prod.splits if_splits)
qed simp



end
