(* ===== verification/Umap.thy ===== *)
theory Umap
  imports Account
begin

text \<open>
  The frozen map of \<open>mbbd/mbbinetmap.c\<close> that traffic is accounted against: an array of
  address ranges, each with the list of the units that own it over time, made from an
  inet map and searched by bisection. Also the copying of a unit's time map into the
  global inet map. The owner of a pool entry is the unit its \<open>owner\<close> field leads to. The
  request handlers of the file and the withdrawal of networks through their node lists
  are not part of this model.
\<close>

section \<open>Definitions\<close>

record umap_data_entry =
  ud_unit :: gpointer
  ud_min :: time_t
  ud_max :: time_t

record umap_entry =
  ue_data :: "umap_data_entry list"
  ue_min :: ipv4_t
  ue_max :: ipv4_t

text \<open>
  \<open>map_add_map\<close> visits every entry of a unit's time map; there the address slice is the
  inner key and becomes the outer key of the target map. The flag is the return value.
\<close>

fun add_data_entries ::
  "tree_search \<Rightarrow> map_ctx \<Rightarrow> mbb_map \<Rightarrow> slice \<Rightarrow> map_entry list \<Rightarrow> ((map_ctx \<times> mbb_map) \<times> bool) option" where
  "add_data_entries tree s m dkey [] = Some ((s, m), True)"
| "add_data_entries tree s m dkey (en # es) =
     (case map_add tree s m (me_slice en) dkey (me_data en) of
        None \<Rightarrow> None
      | Some (s, m) \<Rightarrow>
          if c_found (mc_cross s) then Some ((s, m), False)
          else add_data_entries tree s m dkey es)"

fun add_map_entries ::
  "tree_search \<Rightarrow> map_ctx \<Rightarrow> mbb_map \<Rightarrow> map_entry list slicer_entry list \<Rightarrow> ((map_ctx \<times> mbb_map) \<times> bool) option" where
  "add_map_entries tree s m [] = Some ((s, m), True)"
| "add_map_entries tree s m (en # es) =
     (case add_data_entries tree s m (e_slice en) (opt_queue (e_data en)) of
        None \<Rightarrow> None
      | Some ((s, m), ok) \<Rightarrow>
          if \<not> ok then Some ((s, m), False) else add_map_entries tree s m es)"

definition map_add_map ::
  "tree_search \<Rightarrow> map_ctx \<Rightarrow> mbb_map \<Rightarrow> mbb_map \<Rightarrow> ((map_ctx \<times> mbb_map) \<times> bool) option" where
  "map_add_map tree s m unit_map = add_map_entries tree s m (map_iter_init unit_map)"

definition umap_get_data :: "(gpointer \<Rightarrow> gpointer) \<Rightarrow> map_entry list \<Rightarrow> umap_data_entry list" where
  "umap_get_data owner q =
     foldl (\<lambda>data en. \<lparr>ud_unit = owner (me_data en),
                       ud_min = GPOINTER_TO_TIME (s_begin (me_slice en)),
                       ud_max = GPOINTER_TO_TIME (s_end (me_slice en))\<rparr> # data) [] q"

fun umap_loop :: "(gpointer \<Rightarrow> gpointer) \<Rightarrow> map_entry list slicer_entry list \<Rightarrow> umap_entry list" where
  "umap_loop owner [] = []"
| "umap_loop owner (en # es) =
     (let q = opt_queue (e_data en);
          data = umap_get_data owner q
      in if map_data_iter_is_null q then umap_loop owner es
         else if data \<noteq> []
         then \<lparr>ue_data = data, ue_min = GPOINTER_TO_IPV4 (s_begin (e_slice en)),
               ue_max = GPOINTER_TO_IPV4 (s_end (e_slice en))\<rparr> # umap_loop owner es
         else umap_loop owner es)"

definition umap_init :: "(gpointer \<Rightarrow> gpointer) \<Rightarrow> mbb_map \<Rightarrow> umap_entry list" where
  "umap_init owner m = umap_loop owner (map_iter_init m)"

definition mbb_umap_create :: "(gpointer \<Rightarrow> gpointer) \<Rightarrow> mbb_map \<Rightarrow> umap_entry list option" where
  "mbb_umap_create owner global_map =
     (case m_slicer global_map of
        None \<Rightarrow> None
      | Some sl \<Rightarrow>
          if slicer_count sl = 0 then None
          else (let array = umap_init owner global_map
                in if length array = 0 then None else Some array))"

definition mbb_umap_from_unit ::
  "tree_search \<Rightarrow> (gpointer \<Rightarrow> gpointer) \<Rightarrow> map_ctx \<Rightarrow> mbb_map \<Rightarrow> umap_entry list option option" where
  "mbb_umap_from_unit tree owner s unit_map =
     (case m_slicer unit_map of
        None \<Rightarrow> Some None
      | Some sl \<Rightarrow>
          if slicer_count sl = 0 then Some None
          else
            (let (s, imap) = inet_map_init s MAP_INIT
             in case map_add_map tree s imap unit_map of
                  None \<Rightarrow> None
                | Some ((s, imap), ok) \<Rightarrow>
                    if \<not> ok then Some None
                    else (let array = umap_init owner imap
                          in Some (if length array = 0 then None else Some array))))"

function bsearch_loop :: "umap_entry list \<Rightarrow> ipv4_t \<Rightarrow> int \<Rightarrow> int \<Rightarrow> umap_entry option" where
  "bsearch_loop base ip lo hi =
     (if lo \<le> hi then
        (let n = (lo + hi) div 2; entry = base ! nat n
         in if ip < ue_min entry then bsearch_loop base ip lo (n - 1)
            else if ip > ue_max entry then bsearch_loop base ip (n + 1) hi
            else Some entry)
      else None)"
  by auto
termination
  by (relation "measure (\<lambda>(base, ip, lo, hi). nat (hi - lo + 1))") auto

declare bsearch_loop.simps [simp del]

definition umap_bsearch :: "umap_entry list \<Rightarrow> ipv4_t \<Rightarrow> umap_entry option" where
  "umap_bsearch base ip = bsearch_loop base ip 0 (int (length base) - 1)"

fun data_search_loop :: "time_t \<Rightarrow> umap_data_entry list \<Rightarrow> gpointer option" where
  "data_search_loop t [] = None"
| "data_search_loop t (d # ds) =
     (if t > ud_max d then None
      else if t \<ge> ud_min d then Some (ud_unit d)
      else data_search_loop t ds)"

fun umap_data_search :: "umap_data_entry list \<Rightarrow> time_t \<Rightarrow> gpointer option" where
  "umap_data_search [] t = None"
| "umap_data_search (d # ds) t =
     (if ud_max d = 0
      then (if t \<ge> ud_min d then Some (ud_unit d) else data_search_loop t ds)
      else data_search_loop t (d # ds))"

definition mbb_umap_find :: "umap_entry list \<Rightarrow> ipv4_t \<Rightarrow> time_t \<Rightarrow> gpointer option" where
  "mbb_umap_find umap ip t =
     (case umap_bsearch umap ip of
        None \<Rightarrow> None
      | Some entry \<Rightarrow> umap_data_search (ue_data entry) t)"

section \<open>Bisection\<close>

definition umap_sorted :: "umap_entry list \<Rightarrow> bool" where
  "umap_sorted xs \<longleftrightarrow> sorted_wrt (\<lambda>a b. ue_max a < ue_min b) xs \<and> (\<forall>e \<in> set xs. ue_min e \<le> ue_max e)"

lemma bsearch_loop_spec:
  "umap_sorted base \<Longrightarrow> 0 \<le> lo \<Longrightarrow> hi < int (length base) \<Longrightarrow>
     (\<forall>i < length base. ue_min (base ! i) \<le> ip \<and> ip \<le> ue_max (base ! i) \<longrightarrow> lo \<le> int i \<and> int i \<le> hi) \<Longrightarrow>
     (case bsearch_loop base ip lo hi of
        None \<Rightarrow> \<forall>e \<in> set base. \<not> (ue_min e \<le> ip \<and> ip \<le> ue_max e)
      | Some e \<Rightarrow> e \<in> set base \<and> ue_min e \<le> ip \<and> ip \<le> ue_max e)"
proof (induction base ip lo hi rule: bsearch_loop.induct)
  case (1 base ip lo hi)
  have srt: "ue_max (base ! i) < ue_min (base ! j)" if "i < j" "j < length base" for i j
    using that "1.prems"(1) by (auto simp: umap_sorted_def sorted_wrt_iff_nth_less)
  have le: "ue_min (base ! i) \<le> ue_max (base ! i)" if "i < length base" for i
    using that "1.prems"(1) by (auto simp: umap_sorted_def)
  show ?case
  proof (cases "lo \<le> hi")
    case False
    with "1.prems"(4) show ?thesis by (fastforce simp: bsearch_loop.simps [of base ip lo hi] in_set_conv_nth)
  next
    case True
    define n where "n = (lo + hi) div 2"
    have n: "lo \<le> n" "n \<le> hi" "nat n < length base" "int (nat n) = n"
      using True "1.prems"(2,3) by (auto simp: n_def)
    consider "ip < ue_min (base ! nat n)" | "\<not> ip < ue_min (base ! nat n)" "ip > ue_max (base ! nat n)"
      | "\<not> ip < ue_min (base ! nat n)" "\<not> ip > ue_max (base ! nat n)" by blast
    then show ?thesis
    proof cases
      case 1
      have "\<forall>i < length base. ue_min (base ! i) \<le> ip \<and> ip \<le> ue_max (base ! i) \<longrightarrow> lo \<le> int i \<and> int i \<le> n - 1"
      proof (intro allI impI)
        fix i assume i: "i < length base" "ue_min (base ! i) \<le> ip \<and> ip \<le> ue_max (base ! i)"
        have "\<not> nat n \<le> i"
        proof
          assume "nat n \<le> i"
          then have "ue_min (base ! nat n) \<le> ue_min (base ! i)"
            using srt [of "nat n" i] le [OF n(3)] i(1) by (cases "nat n = i") auto
          with 1 i(2) show False by (meson leD order_trans)
        qed
        with "1.prems"(4) i n(4) show "lo \<le> int i \<and> int i \<le> n - 1" by auto
      qed
      with "1.IH"(1) [OF True n_def refl] 1 "1.prems" n True show ?thesis
        by (simp add: bsearch_loop.simps [of base ip lo hi] Let_def n_def [symmetric])
    next
      case 2
      have "\<forall>i < length base. ue_min (base ! i) \<le> ip \<and> ip \<le> ue_max (base ! i) \<longrightarrow> n + 1 \<le> int i \<and> int i \<le> hi"
      proof (intro allI impI)
        fix i assume i: "i < length base" "ue_min (base ! i) \<le> ip \<and> ip \<le> ue_max (base ! i)"
        have "\<not> i \<le> nat n"
        proof
          assume "i \<le> nat n"
          then have "ue_max (base ! i) \<le> ue_max (base ! nat n)"
            using srt [of i "nat n"] le [OF n(3)] n(3) by (cases "nat n = i") auto
          with 2 i(2) show False by (meson leD order_trans)
        qed
        with "1.prems"(4) i n(4) show "n + 1 \<le> int i \<and> int i \<le> hi" by auto
      qed
      with "1.IH"(2) [OF True n_def refl] 2 "1.prems" n True show ?thesis
        by (simp add: bsearch_loop.simps [of base ip lo hi] Let_def n_def [symmetric])
    next
      case 3
      with n True show ?thesis
        by (auto simp: bsearch_loop.simps [of base ip lo hi] Let_def n_def [symmetric])
    qed
  qed
qed

lemma umap_bsearch_spec:
  assumes "umap_sorted base"
  shows "case umap_bsearch base ip of
       None \<Rightarrow> \<forall>e \<in> set base. \<not> (ue_min e \<le> ip \<and> ip \<le> ue_max e)
     | Some e \<Rightarrow> e \<in> set base \<and> ue_min e \<le> ip \<and> ip \<le> ue_max e"
  unfolding umap_bsearch_def by (rule bsearch_loop_spec [OF assms]) auto

section \<open>Searching the times of a range\<close>

lemma umap_get_data_snoc:
  "umap_get_data owner (q @ [en]) =
     \<lparr>ud_unit = owner (me_data en), ud_min = GPOINTER_TO_TIME (s_begin (me_slice en)),
      ud_max = GPOINTER_TO_TIME (s_end (me_slice en))\<rparr> # umap_get_data owner q"
  by (simp add: umap_get_data_def)

lemma umap_get_data_empty [simp]: "umap_get_data owner q = [] \<longleftrightarrow> q = []"
proof (cases q rule: rev_cases)
  case Nil
  then show ?thesis by (simp add: umap_get_data_def)
qed (simp add: umap_get_data_snoc)

text \<open>What a search of the queue \<open>q\<close> for the time \<open>k\<close> should return.\<close>

definition owner_of :: "(gpointer \<Rightarrow> gpointer) \<Rightarrow> map_entry list \<Rightarrow> nat \<Rightarrow> gpointer option \<Rightarrow> bool" where
  "owner_of owner q k r \<longleftrightarrow>
     (\<forall>d. holds q k d \<longrightarrow> r = Some (owner d)) \<and> ((\<nexists>d. holds q k d) \<longrightarrow> r = None)"

lemma time_of_small: "unat p < 2 ^ 31 \<Longrightarrow> GPOINTER_TO_TIME p = int (unat p)"
  by (simp only: GPOINTER_TO_TIME_def sint_small)

lemma entries_ok_snoc:
  assumes "entries_ok lim (q @ [en])"
  shows "entries_ok lim q" and "slice_ok lim (me_slice en)"
    and "holds q k d \<Longrightarrow> k < unat (s_begin (me_slice en))"
    and "\<forall>x \<in> set q. s_end (me_slice x) \<noteq> 0"
  using assms by (auto simp: entries_ok_def sorted_wrt_append before_def holds_def slice_mem_alt)

lemma data_search_loop_owner:
  assumes t: "0 \<le> t"
  shows "entries_ok (2 ^ 31) q \<Longrightarrow> \<forall>en \<in> set q. s_end (me_slice en) \<noteq> 0 \<Longrightarrow>
     owner_of owner q (nat t) (data_search_loop t (umap_get_data owner q))"
proof (induction q rule: rev_induct)
  case Nil
  then show ?case by (simp add: owner_of_def umap_get_data_def)
next
  case (snoc en q)
  note sn = entries_ok_snoc [OF snoc.prems(1)]
  have e: "s_end (me_slice en) \<noteq> 0" using snoc.prems(2) by simp
  have b: "GPOINTER_TO_TIME (s_begin (me_slice en)) = int (unat (s_begin (me_slice en)))"
    "GPOINTER_TO_TIME (s_end (me_slice en)) = int (unat (s_end (me_slice en)))"
    "unat (s_begin (me_slice en)) \<le> unat (s_end (me_slice en))"
  proof -
    have "unat (s_begin (me_slice en)) < 2 ^ 31" "unat (s_end (me_slice en)) < 2 ^ 31"
      using sn(2) by (auto simp: slice_ok_def)
    then show "GPOINTER_TO_TIME (s_begin (me_slice en)) = int (unat (s_begin (me_slice en)))"
      "GPOINTER_TO_TIME (s_end (me_slice en)) = int (unat (s_end (me_slice en)))"
      by (simp_all only: time_of_small)
    show "unat (s_begin (me_slice en)) \<le> unat (s_end (me_slice en))"
      using sn(2) e by (auto simp: slice_ok_def word_le_nat_alt)
  qed
  have IH: "owner_of owner q (nat t) (data_search_loop t (umap_get_data owner q))"
    using snoc.IH sn(1) snoc.prems(2) by simp
  have mem: "slice_mem (me_slice en) (nat t) \<longleftrightarrow> int (unat (s_begin (me_slice en))) \<le> t \<and> t \<le> int (unat (s_end (me_slice en)))"
    using t e by (auto simp: slice_mem_alt simp del: of_nat_unat)
  have no: "int (unat (s_begin (me_slice en))) \<le> t \<Longrightarrow> \<not> holds q (nat t) d" for d
    using sn(3) [of "nat t" d] by (auto simp del: of_nat_unat)
  show ?case
    using IH mem no b by (auto simp: owner_of_def umap_get_data_snoc simp del: of_nat_unat)
qed

lemma umap_data_search_owner:
  assumes t: "0 \<le> t" and ok: "entries_ok (2 ^ 31) q"
  shows "owner_of owner q (nat t) (umap_data_search (umap_get_data owner q) t)"
proof (cases q rule: rev_cases)
  case Nil
  then show ?thesis by (simp add: owner_of_def umap_get_data_def)
next
  case (snoc q' en)
  note sn = entries_ok_snoc [OF ok [unfolded snoc]]
  note loop = data_search_loop_owner [OF t sn(1,4), of owner]
  have bnd: "unat (s_begin (me_slice en)) < 2 ^ 31" "unat (s_end (me_slice en)) < 2 ^ 31"
    using sn(2) by (auto simp: slice_ok_def)
  note tm = time_of_small [OF bnd(1)] time_of_small [OF bnd(2)]
  show ?thesis
  proof (cases "s_end (me_slice en) = 0")
    case True
    have mem: "slice_mem (me_slice en) (nat t) \<longleftrightarrow> int (unat (s_begin (me_slice en))) \<le> t"
      using t True by (auto simp: slice_mem_alt simp del: of_nat_unat)
    have no: "int (unat (s_begin (me_slice en))) \<le> t \<Longrightarrow> \<not> holds q' (nat t) d" for d
      using sn(3) [of "nat t" d] by (auto simp del: of_nat_unat)
    have "GPOINTER_TO_TIME (s_end (me_slice en)) = 0" using tm(2) True by simp
    with loop mem no tm(1) show ?thesis
      by (auto simp: snoc owner_of_def umap_get_data_snoc simp del: of_nat_unat)
  next
    case False
    then have "GPOINTER_TO_TIME (s_end (me_slice en)) \<noteq> 0"
      using tm(2) by (simp add: unat_eq_0 del: of_nat_unat)
    moreover have "owner_of owner q (nat t) (data_search_loop t (umap_get_data owner q))"
      using data_search_loop_owner [OF t ok] False sn(4) by (simp add: snoc)
    ultimately show ?thesis by (simp add: snoc umap_get_data_snoc)
  qed
qed

section \<open>The array of a map\<close>

definition umap_conv :: "(gpointer \<Rightarrow> gpointer) \<Rightarrow> map_entry list slicer_entry \<Rightarrow> umap_entry" where
  "umap_conv owner en = \<lparr>ue_data = umap_get_data owner (opt_queue (e_data en)),
     ue_min = GPOINTER_TO_IPV4 (s_begin (e_slice en)), ue_max = GPOINTER_TO_IPV4 (s_end (e_slice en))\<rparr>"

lemma umap_loop_eq:
  "umap_loop owner q = map (umap_conv owner) (filter (\<lambda>en. opt_queue (e_data en) \<noteq> []) q)"
  by (induction q) (auto simp: umap_conv_def map_data_iter_is_null_def Let_def)

lemma umap_range_mem:
  assumes "slice_ok (2 ^ 32) s" and "s_end s \<noteq> 0"
  shows "GPOINTER_TO_IPV4 (s_begin s) \<le> ip \<and> ip \<le> GPOINTER_TO_IPV4 (s_end s) \<longleftrightarrow> slice_mem s (unat ip)"
  using assms unat_to_ipv4 by (auto simp: word_le_nat_alt slice_ok_def slice_mem_alt)

lemma umap_init_sorted:
  assumes inv: "slicer_inv (2 ^ 32) E sl" and E: "E \<noteq> 0"
  shows "umap_sorted (umap_loop owner (queue sl))"
    and "en \<in> set (queue sl) \<Longrightarrow> s_end (e_slice en) \<noteq> 0"
proof -
  have t: "tiles E 0 (map e_slice (queue sl))" and ok: "\<forall>en \<in> set (queue sl). slice_ok (2 ^ 32) (e_slice en)"
    using inv by (auto simp: slicer_inv_def)
  show ends: "en \<in> set (queue sl) \<Longrightarrow> s_end (e_slice en) \<noteq> 0" for en
    using tiles_end_le [OF t _ E, of "e_slice en"] by auto
  have "sorted_wrt (\<lambda>a b. before (e_slice a) (e_slice b)) (queue sl)"
    using tiles_sorted [OF t] by (simp add: sorted_wrt_map)
  then have "sorted_wrt (\<lambda>a b. ue_max (umap_conv owner a) < ue_min (umap_conv owner b)) (queue sl)"
  proof (rule sorted_wrt_mono_rel [rotated])
    fix a b assume "a \<in> set (queue sl)" "b \<in> set (queue sl)" "before (e_slice a) (e_slice b)"
    with ok show "ue_max (umap_conv owner a) < ue_min (umap_conv owner b)"
      by (auto simp: umap_conv_def before_def slice_ok_def word_less_nat_alt unat_to_ipv4)
  qed
  moreover have "ue_min (umap_conv owner en) \<le> ue_max (umap_conv owner en)" if "en \<in> set (queue sl)" for en
    using that ok ends [OF that] by (auto simp: umap_conv_def slice_ok_def word_le_nat_alt unat_to_ipv4)
  ultimately show "umap_sorted (umap_loop owner (queue sl))"
    by (auto simp: umap_sorted_def umap_loop_eq sorted_wrt_map intro: sorted_wrt_filter)
qed

text \<open>
  C5. The frozen map answers like the map it was made from: for an inet map within its
  invariant, looking up an address and a time in the array of \<open>umap_init\<close> yields the owner
  of the network that the map holds there, and nothing where the map holds nothing.
\<close>

theorem umap_find_agrees:
  assumes inv: "inet_map_inv m" and t: "0 \<le> t"
  shows "(\<forall>d. map_holds m (unat ip) (nat t) d \<longrightarrow> mbb_umap_find (umap_init owner m) ip t = Some (owner d)) \<and>
     ((\<nexists>d. map_holds m (unat ip) (nat t) d) \<longrightarrow> mbb_umap_find (umap_init owner m) ip t = None)"
proof -
  obtain sl where sl: "m_slicer m = Some sl" "slicer_inv (2 ^ 32) (IPV4_TO_POINTER 0xffffffff) sl"
      "\<forall>x < 2 ^ 32. entries_ok (2 ^ 31) (opt_queue (slicer_at sl x))"
    using inv by (auto simp: map_inv_def split: option.splits)
  have E: "IPV4_TO_POINTER 0xffffffff \<noteq> 0" by (simp add: IPV4_TO_POINTER_def)
  let ?q = "opt_queue (slicer_at sl (unat ip))"
  have ip: "unat ip < 2 ^ 32" using unsigned_less [of ip] by simp
  have arr: "umap_init owner m = umap_loop owner (queue sl)"
    using sl(1) by (simp add: umap_init_def map_iter_init_def slicer_iter_init_def)
  note srt = umap_init_sorted [OF sl(2) E]
  have mem: "ue_min (umap_conv owner en) \<le> ip \<and> ip \<le> ue_max (umap_conv owner en) \<longleftrightarrow> slice_mem (e_slice en) (unat ip)"
    if "en \<in> set (queue sl)" for en
    using that sl(2) srt(2) [OF that] by (simp add: umap_conv_def umap_range_mem slicer_inv_def)
  have at: "slicer_at sl (unat ip) = e_data en" if "en \<in> set (queue sl)" "slice_mem (e_slice en) (unat ip)" for en
    using that sl(2) queue_at_nth [of "queue sl"] tiles_sorted
    by (fastforce simp: slicer_at_def slicer_inv_def in_set_conv_nth)
  have "owner_of owner ?q (nat t) (mbb_umap_find (umap_init owner m) ip t)"
  proof (cases "umap_bsearch (umap_loop owner (queue sl)) ip")
    case None
    then have none: "opt_queue (e_data en) = []" if "en \<in> set (queue sl)" "slice_mem (e_slice en) (unat ip)" for en
      using umap_bsearch_spec [OF srt(1) [of owner], of ip] that mem by (auto simp: umap_loop_eq)
    have "?q = []"
    proof (cases "\<exists>en \<in> set (queue sl). slice_mem (e_slice en) (unat ip)")
      case True
      with none at show ?thesis by metis
    next
      case False
      then show ?thesis by (simp add: slicer_at_def queue_at_none)
    qed
    with None arr show ?thesis by (simp add: owner_of_def mbb_umap_find_def)
  next
    case (Some e)
    then obtain en where en: "en \<in> set (queue sl)" "e = umap_conv owner en" "slice_mem (e_slice en) (unat ip)"
      using umap_bsearch_spec [OF srt(1) [of owner], of ip] mem by (auto simp: umap_loop_eq)
    then have "ue_data e = umap_get_data owner ?q" using at by (simp add: umap_conv_def)
    with Some arr umap_data_search_owner [OF t sl(3) [rule_format, OF ip]] show ?thesis
      by (simp add: mbb_umap_find_def)
  qed
  then show ?thesis using map_holds_at [OF sl(1)] by (simp add: owner_of_def)
qed

theorem umap_find_agrees_witness:
  "\<exists>s' m'. map_add linear_search ctx0 (snd (inet_map_init ctx0 map0)) \<lparr>s_begin = 0x0a000000, s_end = 0x0affffff\<rparr>
       \<lparr>s_begin = 100, s_end = 200\<rparr> 7 = Some (s', m') \<and>
     mbb_umap_find (umap_init (\<lambda>p. p + 1) m') 0x0a000001 150 = Some 8"
proof -
  have none: "\<not> map_holds (snd (inet_map_init ctx0 map0)) x k d" for x k d
    by (simp add: map_holds_def inet_map_init_def map_init_slicer_def map_clear_def map_init_def
        inet_slicer_new_def slicer_init_def slicer_new_def Let_def slicer_at_def queue_at_def)
  have "slice_mem \<lparr>s_begin = 0x0a000000, s_end = 0x0affffff\<rparr> 0x0a000001" "slice_mem \<lparr>s_begin = 100, s_end = 200\<rparr> 150"
    by (simp_all add: slice_mem_def)
  then obtain s' m' where m': "map_add linear_search ctx0 (snd (inet_map_init ctx0 map0))
        \<lparr>s_begin = 0x0a000000, s_end = 0x0affffff\<rparr> \<lparr>s_begin = 100, s_end = 200\<rparr> 7 = Some (s', m')"
      "inet_map_inv m'" "map_holds m' 0x0a000001 150 7"
    using inet_map_keys.add_spec [OF inet_map_init_inv [of ctx0 map0] linear_search_ok sample_slices(1,2), of ctx0 7] none
    by fastforce
  with umap_find_agrees [OF m'(2), of 150 "0x0a000001" "\<lambda>p. p + 1"] show ?thesis by auto
qed

section \<open>Copying a unit's map\<close>

text \<open>What is gained by copying entries: the given networks at the given times.\<close>

definition grown :: "mbb_map \<Rightarrow> mbb_map \<Rightarrow> (nat \<Rightarrow> nat \<Rightarrow> gpointer \<Rightarrow> bool) \<Rightarrow> bool \<Rightarrow> bool" where
  "grown m m' new ok \<longleftrightarrow>
     (\<forall>x < 2 ^ 32. \<forall>k d. map_holds m x k d \<longrightarrow> map_holds m' x k d) \<and>
     (\<forall>x < 2 ^ 32. \<forall>k d. map_holds m' x k d \<longrightarrow> map_holds m x k d \<or> new x k d) \<and>
     (ok \<longrightarrow> (\<forall>x < 2 ^ 32. \<forall>k d. new x k d \<longrightarrow> map_holds m' x k d))"

lemma grown_trans:
  "grown m m1 new1 True \<Longrightarrow> grown m1 m2 new2 ok \<Longrightarrow> grown m m2 (\<lambda>x k d. new1 x k d \<or> new2 x k d) ok"
  by (fastforce simp: grown_def)

lemma grown_weaken:
  "grown m m1 new1 False \<Longrightarrow> (\<And>x k d. new1 x k d \<Longrightarrow> new2 x k d) \<Longrightarrow> grown m m1 new2 False"
  by (fastforce simp: grown_def)

definition entries_new :: "slice \<Rightarrow> map_entry list \<Rightarrow> nat \<Rightarrow> nat \<Rightarrow> gpointer \<Rightarrow> bool" where
  "entries_new dkey es x k d \<longleftrightarrow> (\<exists>en \<in> set es. slice_mem (me_slice en) x \<and> slice_mem dkey k \<and> d = me_data en)"

lemma map_add_grown:
  assumes "inet_map_inv m" and "tree_search_ok tree" and "ip_cut key" and "slice_ok (2 ^ 31) dkey"
  shows "\<exists>s' m'. map_add tree s m key dkey ptr = Some (s', m') \<and> inet_map_inv m' \<and>
     grown m m' (\<lambda>x k d. slice_mem key x \<and> slice_mem dkey k \<and> d = ptr) (\<not> c_found (mc_cross s'))"
proof -
  obtain s' m' where "map_add tree s m key dkey ptr = Some (s', m')" "inet_map_inv m'"
     "\<forall>x < 2 ^ 32. \<forall>k d. map_holds m x k d \<longrightarrow> map_holds m' x k d"
     "\<forall>x < 2 ^ 32. \<forall>k d. map_holds m' x k d \<longrightarrow> map_holds m x k d \<or> slice_mem key x \<and> slice_mem dkey k \<and> d = ptr"
     "\<not> c_found (mc_cross s') \<longrightarrow> (\<forall>x < 2 ^ 32. \<forall>k. slice_mem key x \<and> slice_mem dkey k \<longrightarrow> map_holds m' x k ptr)"
    using inet_map_keys.add_spec [OF assms] by blast
  then show ?thesis unfolding grown_def by (intro exI conjI) simp_all
qed

lemma add_data_entries_grown:
  assumes tree: "tree_search_ok tree" and dkey: "slice_ok (2 ^ 31) dkey"
  shows "inet_map_inv m \<Longrightarrow> \<forall>en \<in> set es. ip_cut (me_slice en) \<Longrightarrow>
     \<exists>s' m' ok. add_data_entries tree s m dkey es = Some ((s', m'), ok) \<and> inet_map_inv m' \<and>
       grown m m' (entries_new dkey es) ok"
proof (induction es arbitrary: s m)
  case Nil
  then show ?case by (auto simp: grown_def entries_new_def)
next
  case (Cons en es)
  obtain s1 m1 where a: "map_add tree s m (me_slice en) dkey (me_data en) = Some (s1, m1)" "inet_map_inv m1"
      "grown m m1 (\<lambda>x k d. slice_mem (me_slice en) x \<and> slice_mem dkey k \<and> d = me_data en) (\<not> c_found (mc_cross s1))"
    using map_add_grown [OF Cons.prems(1) tree _ dkey] Cons.prems(2) by (metis list.set_intros(1))
  show ?case
  proof (cases "c_found (mc_cross s1)")
    case True
    with a have "grown m m1 (entries_new dkey (en # es)) False"
      by (auto elim!: grown_weaken simp: entries_new_def)
    with a True show ?thesis by auto
  next
    case False
    obtain s2 m2 ok where b: "add_data_entries tree s1 m1 dkey es = Some ((s2, m2), ok)" "inet_map_inv m2"
        "grown m1 m2 (entries_new dkey es) ok"
      using Cons.IH [OF a(2)] Cons.prems(2) by (metis list.set_intros(2))
    have "entries_new dkey (en # es) = (\<lambda>x k d. (slice_mem (me_slice en) x \<and> slice_mem dkey k \<and> d = me_data en) \<or> entries_new dkey es x k d)"
      by (auto simp: entries_new_def fun_eq_iff)
    with grown_trans [OF _ b(3)] a(3) False have "grown m m2 (entries_new dkey (en # es)) ok" by simp
    with a(1) b False show ?thesis by auto
  qed
qed

text \<open>The content of a time map, entry by entry: network addresses \<open>x\<close> at times \<open>k\<close>.\<close>

definition unit_new :: "map_entry list slicer_entry list \<Rightarrow> nat \<Rightarrow> nat \<Rightarrow> gpointer \<Rightarrow> bool" where
  "unit_new es x k d \<longleftrightarrow> (\<exists>en \<in> set es. entries_new (e_slice en) (opt_queue (e_data en)) x k d)"

definition copyable :: "map_entry list slicer_entry list \<Rightarrow> bool" where
  "copyable es \<longleftrightarrow> (\<forall>en \<in> set es. slice_ok (2 ^ 31) (e_slice en) \<and> (\<forall>x \<in> set (opt_queue (e_data en)). ip_cut (me_slice x)))"

lemma add_map_entries_grown:
  assumes tree: "tree_search_ok tree"
  shows "inet_map_inv m \<Longrightarrow> copyable es \<Longrightarrow>
     \<exists>s' m' ok. add_map_entries tree s m es = Some ((s', m'), ok) \<and> inet_map_inv m' \<and> grown m m' (unit_new es) ok"
proof (induction es arbitrary: s m)
  case Nil
  then show ?case by (auto simp: grown_def unit_new_def)
next
  case (Cons en es)
  obtain s1 m1 ok where a: "add_data_entries tree s m (e_slice en) (opt_queue (e_data en)) = Some ((s1, m1), ok)"
      "inet_map_inv m1" "grown m m1 (entries_new (e_slice en) (opt_queue (e_data en))) ok"
    using add_data_entries_grown [OF tree _ Cons.prems(1), of "e_slice en" "opt_queue (e_data en)" s] Cons.prems(2)
    by (auto simp: copyable_def)
  show ?case
  proof (cases ok)
    case False
    with a have "grown m m1 (unit_new (en # es)) False"
      by (auto elim!: grown_weaken simp: unit_new_def)
    with a False show ?thesis by auto
  next
    case True
    obtain s2 m2 ok2 where b: "add_map_entries tree s1 m1 es = Some ((s2, m2), ok2)" "inet_map_inv m2"
        "grown m1 m2 (unit_new es) ok2"
    proof -
      have "copyable es" using Cons.prems(2) by (simp add: copyable_def)
      with Cons.IH [OF a(2), of s1] that show thesis by blast
    qed
    have "unit_new (en # es) = (\<lambda>x k d. entries_new (e_slice en) (opt_queue (e_data en)) x k d \<or> unit_new es x k d)"
      by (auto simp: unit_new_def fun_eq_iff)
    with grown_trans [OF _ b(3)] a(3) True have "grown m m2 (unit_new (en # es)) ok2" by simp
    with a(1) b True show ?thesis by auto
  qed
qed



end
