(* ===== verification/Gateway.thy ===== *)
theory Gateway
  imports Data_Link Mbb_Time Inet "HOL-Library.AList" "HOL-Library.Multiset"
begin

text \<open>
  Gateways, their links and the operators of the links: \<open>mbbd/mbbgateway.c\<close>,
  \<open>mbbd/mbbgwlink.c\<close> and \<open>mbbd/mbboperator.c\<close>. A gateway keeps for each link number the
  queue of the link objects that used the number, in order of time and without overlap;
  the collector finds the link a flow came through by gateway address, link number and
  time. The state holds the three registries. The hash table of a gateway is an
  association list with distinct keys.
\<close>

section \<open>Definitions\<close>

record mbb_gwlink =
  gl_id :: int
  gl_op :: gpointer
  gl_gw :: gpointer
  gl_link :: guint32
  gl_start :: time_t
  gl_end :: time_t

record mbb_operator =
  op_id :: int
  op_name :: string
  op_links :: "gpointer list"

record mbb_gateway =
  gw_id :: int
  gw_name :: string
  gw_addr :: ipv4_t
  gw_ht :: "(guint32 \<times> gpointer list) list option"

record network =
  nw_gws :: "mbb_gateway dl_module"
  nw_links :: "mbb_gwlink dl_module"
  nw_ops :: "mbb_operator dl_module"

definition gateway_entries :: "mbb_gateway dl_entries" where
  "gateway_entries =
     [\<lambda>p x. Key_Ptr p, \<lambda>p x. Key_Int (gw_id x), \<lambda>p x. Key_Str (gw_name x), \<lambda>p x. Key_Int (uint (gw_addr x))]"

definition gwlink_entries :: "mbb_gwlink dl_entries" where
  "gwlink_entries = [\<lambda>p x. Key_Ptr p, \<lambda>p x. Key_Int (gl_id x)]"

definition operator_entries :: "mbb_operator dl_entries" where
  "operator_entries = std_entries op_id op_name"

definition set_gw :: "network \<Rightarrow> gpointer \<Rightarrow> mbb_gateway option \<Rightarrow> network" where
  "set_gw st p x = st\<lparr>nw_gws := (nw_gws st)\<lparr>dm_heap := (dm_heap (nw_gws st))(p := x)\<rparr>\<rparr>"

definition set_gl :: "network \<Rightarrow> gpointer \<Rightarrow> mbb_gwlink option \<Rightarrow> network" where
  "set_gl st p x = st\<lparr>nw_links := (nw_links st)\<lparr>dm_heap := (dm_heap (nw_links st))(p := x)\<rparr>\<rparr>"

definition set_op :: "network \<Rightarrow> gpointer \<Rightarrow> mbb_operator option \<Rightarrow> network" where
  "set_op st p x = st\<lparr>nw_ops := (nw_ops st)\<lparr>dm_heap := (dm_heap (nw_ops st))(p := x)\<rparr>\<rparr>"

subsection \<open>Gateways\<close>

definition mbb_gateway_new :: "int \<Rightarrow> string \<Rightarrow> ipv4_t \<Rightarrow> mbb_gateway" where
  "mbb_gateway_new i name a = \<lparr>gw_id = i, gw_name = name, gw_addr = a, gw_ht = None\<rparr>"

definition mbb_gateway_free :: "network \<Rightarrow> gpointer \<Rightarrow> network option" where
  "mbb_gateway_free st gw = do { _ \<leftarrow> dm_heap (nw_gws st) gw; Some (set_gw st gw None) }"

definition mbb_gateway_join :: "network \<Rightarrow> gpointer \<Rightarrow> network option" where
  "mbb_gateway_join st gw =
     do { m \<leftarrow> module_join gateway_entries (nw_gws st) gw; Some (st\<lparr>nw_gws := m\<rparr>) }"

definition mbb_gateway_detach :: "network \<Rightarrow> gpointer \<Rightarrow> network option" where
  "mbb_gateway_detach st gw =
     do { m \<leftarrow> module_detach gateway_entries (nw_gws st) gw; Some (st\<lparr>nw_gws := m\<rparr>) }"

definition mbb_gateway_remove :: "network \<Rightarrow> gpointer \<Rightarrow> network option" where
  "mbb_gateway_remove st gw = do { st \<leftarrow> mbb_gateway_detach st gw; mbb_gateway_free st gw }"

definition mbb_gateway_mod_name :: "network \<Rightarrow> gpointer \<Rightarrow> string \<Rightarrow> (network \<times> bool) option" where
  "mbb_gateway_mod_name st gw newname =
     do { (m, r) \<leftarrow> module_mod_name gateway_entries 2 (\<lambda>n x. x\<lparr>gw_name := n\<rparr>) (nw_gws st) gw newname;
          Some (st\<lparr>nw_gws := m\<rparr>, r) }"

definition mbb_gateway_get_ename :: "mbb_gateway \<Rightarrow> bool \<Rightarrow> string" where
  "mbb_gateway_get_ename gw by_addr = (if by_addr then ipv4toa (gw_addr gw) else gw_name gw)"

definition mbb_gateway_get_by_id :: "network \<Rightarrow> int \<Rightarrow> gpointer option" where
  "mbb_gateway_get_by_id st i = module_get (nw_gws st) 1 (Key_Int i)"

definition mbb_gateway_get_by_name :: "network \<Rightarrow> string \<Rightarrow> gpointer option" where
  "mbb_gateway_get_by_name st name = module_get (nw_gws st) 2 (Key_Str name)"

definition mbb_gateway_get_by_addr :: "network \<Rightarrow> ipv4_t \<Rightarrow> gpointer option" where
  "mbb_gateway_get_by_addr st a = module_get (nw_gws st) 3 (Key_Int (uint a))"

definition mbb_gateway_get_by_ename :: "network \<Rightarrow> string \<Rightarrow> gpointer option" where
  "mbb_gateway_get_by_ename st ename =
     (let gw = (case atoipv4 ename of
                  None \<Rightarrow> None
                | Some inet \<Rightarrow> module_get (nw_gws st) 3 (Key_Int (uint (addr inet))))
      in if gw = None then module_get (nw_gws st) 2 (Key_Str ename) else gw)"

text \<open>The loop of \<open>mbb_gateway_can_add\<close> over the queue of the link number.\<close>

fun can_add_loop :: "mbb_gwlink heap \<Rightarrow> gpointer \<Rightarrow> mbb_gwlink \<Rightarrow> bool \<Rightarrow> gpointer list \<Rightarrow> bool option" where
  "can_add_loop h p gl create [] = Some True"
| "can_add_loop h p gl create (c # rest) =
     (if \<not> create \<and> c = p then can_add_loop h p gl create rest
      else do { cur \<leftarrow> h c;
                if mbb_time_ebcmp (gl_end gl) (gl_start cur) < 0 then Some True
                else if mbb_time_becmp (gl_start gl) (gl_end cur) > 0 then can_add_loop h p gl create rest
                else Some False })"

definition mbb_gateway_can_add :: "network \<Rightarrow> gpointer \<Rightarrow> gpointer \<Rightarrow> bool \<Rightarrow> bool option" where
  "mbb_gateway_can_add st gw p create =
     do { g \<leftarrow> dm_heap (nw_gws st) gw;
          case gw_ht g of
            None \<Rightarrow> Some True
          | Some ht \<Rightarrow>
              do { gl \<leftarrow> dm_heap (nw_links st) p;
                   case map_of ht (gl_link gl) of
                     None \<Rightarrow> Some True
                   | Some q \<Rightarrow> can_add_loop (dm_heap (nw_links st)) p gl create q } }"

text \<open>\<open>gw_queue_insert_gl\<close>: the new queue, whether the link was inserted, and the link that was in the way.\<close>

fun gw_queue_insert_gl ::
  "mbb_gwlink heap \<Rightarrow> gpointer \<Rightarrow> mbb_gwlink \<Rightarrow> gpointer list
     \<Rightarrow> (gpointer list \<times> bool \<times> gpointer option) option" where
  "gw_queue_insert_gl h p gl [] = Some ([p], True, None)"
| "gw_queue_insert_gl h p gl (c # rest) =
     do { cur \<leftarrow> h c;
          if mbb_time_becmp (gl_start gl) (gl_end cur) > 0
          then do { (q, r, old) \<leftarrow> gw_queue_insert_gl h p gl rest; Some (c # q, r, old) }
          else if mbb_time_ebcmp (gl_end gl) (gl_start cur) < 0 then Some (p # c # rest, True, None)
          else Some (c # rest, False, Some c) }"

text \<open>
  \<open>mbb_gateway_reorder_link\<close>; the queue is changed in place, so the table keeps its keys. A
  link that does not fit returns before the link that followed it.
\<close>

definition reorder_queue ::
  "mbb_gwlink heap \<Rightarrow> gpointer \<Rightarrow> mbb_gwlink \<Rightarrow> gpointer list \<Rightarrow> (gpointer list \<times> bool) option" where
  "reorder_queue h p gl q =
     (if p \<notin> set q then Some (q, False)
      else if length q = 1 then Some (q, True)
      else
        let before = takeWhile (\<lambda>x. x \<noteq> p) q; next = drop 1 (dropWhile (\<lambda>x. x \<noteq> p) q)
        in do { (q', r, _) \<leftarrow> gw_queue_insert_gl h p gl (before @ next);
                if \<not> r then Some (before @ p # next, False) else Some (q', True) })"

definition mbb_gateway_reorder_link :: "network \<Rightarrow> gpointer \<Rightarrow> gpointer \<Rightarrow> (network \<times> bool) option" where
  "mbb_gateway_reorder_link st gw p =
     do { g \<leftarrow> dm_heap (nw_gws st) gw;
          case gw_ht g of
            None \<Rightarrow> Some (st, False)
          | Some ht \<Rightarrow>
              do { gl \<leftarrow> dm_heap (nw_links st) p;
                   case map_of ht (gl_link gl) of
                     None \<Rightarrow> Some (st, False)
                   | Some q \<Rightarrow>
                       do { (q', r) \<leftarrow> reorder_queue (dm_heap (nw_links st)) p gl q;
                            Some (set_gw st gw (Some (g\<lparr>gw_ht := Some (AList.update (gl_link gl) q' ht)\<rparr>)), r) } } }"

definition mbb_gateway_add_link ::
  "network \<Rightarrow> gpointer \<Rightarrow> gpointer \<Rightarrow> (network \<times> bool \<times> gpointer option) option" where
  "mbb_gateway_add_link st gw p =
     do { g \<leftarrow> dm_heap (nw_gws st) gw;
          gl \<leftarrow> dm_heap (nw_links st) p;
          let ht = (case gw_ht g of None \<Rightarrow> [] | Some ht \<Rightarrow> ht);
          (q, r, old) \<leftarrow> (case map_of ht (gl_link gl) of
                            Some q \<Rightarrow> gw_queue_insert_gl (dm_heap (nw_links st)) p gl q
                          | None \<Rightarrow> Some ([p], True, None));
          Some (set_gw st gw (Some (g\<lparr>gw_ht := Some (AList.update (gl_link gl) q ht)\<rparr>)), r, old) }"

text \<open>\<open>mbb_gateway_del_link\<close>: an empty queue leaves the table, an empty table is freed.\<close>

definition del_link_ht :: "(guint32 \<times> gpointer list) list \<Rightarrow> guint32 \<Rightarrow> gpointer \<Rightarrow> (guint32 \<times> gpointer list) list option" where
  "del_link_ht ht link p =
     (case map_of ht link of
        None \<Rightarrow> Some ht
      | Some q \<Rightarrow>
          if p \<notin> set q then Some ht
          else
            let q = remove1 p q;
                ht = (if length q = 0 then AList.delete link ht else AList.update link q ht)
            in if length ht = 0 then None else Some ht)"

definition mbb_gateway_del_link :: "network \<Rightarrow> gpointer \<Rightarrow> gpointer \<Rightarrow> network option" where
  "mbb_gateway_del_link st gw p =
     do { g \<leftarrow> dm_heap (nw_gws st) gw;
          case gw_ht g of
            None \<Rightarrow> Some st
          | Some ht \<Rightarrow>
              do { gl \<leftarrow> dm_heap (nw_links st) p;
                   Some (set_gw st gw (Some (g\<lparr>gw_ht := del_link_ht ht (gl_link gl) p\<rparr>))) } }"

definition mbb_gateway_nlink :: "mbb_gateway \<Rightarrow> nat" where
  "mbb_gateway_nlink gw = (case gw_ht gw of None \<Rightarrow> 0 | Some ht \<Rightarrow> length ht)"

fun get_link_loop :: "mbb_gwlink heap \<Rightarrow> time_t \<Rightarrow> gpointer list \<Rightarrow> gpointer option option" where
  "get_link_loop h t [] = Some None"
| "get_link_loop h t (c # rest) =
     do { gl \<leftarrow> h c;
          let tmp = mbb_time_rcmp t (gl_start gl) (gl_end gl);
          if tmp = 0 then Some (Some c) else if tmp < 0 then Some None else get_link_loop h t rest }"

definition mbb_gateway_get_link :: "network \<Rightarrow> gpointer \<Rightarrow> guint32 \<Rightarrow> time_t \<Rightarrow> gpointer option option" where
  "mbb_gateway_get_link st gw link t =
     do { g \<leftarrow> dm_heap (nw_gws st) gw;
          case gw_ht g of
            None \<Rightarrow> Some None
          | Some ht \<Rightarrow>
              (case map_of ht link of
                 None \<Rightarrow> Some None
               | Some q \<Rightarrow> get_link_loop (dm_heap (nw_links st)) t q) }"

definition mbb_gateway_find_link :: "network \<Rightarrow> ipv4_t \<Rightarrow> guint32 \<Rightarrow> time_t \<Rightarrow> gpointer option option" where
  "mbb_gateway_find_link st ip link t =
     (case mbb_gateway_get_by_addr st ip of
        None \<Rightarrow> Some None
      | Some gw \<Rightarrow> mbb_gateway_get_link st gw link t)"

definition mbb_gateway_foreach :: "network \<Rightarrow> gpointer set" where
  "mbb_gateway_foreach st = data_link_foreach (dm_link (nw_gws st))"

text \<open>The links a gateway's iteration visits, queue by queue; the order of the queues is not specified.\<close>

definition mbb_gateway_link_foreach :: "mbb_gateway \<Rightarrow> gpointer set" where
  "mbb_gateway_link_foreach gw = (case gw_ht gw of None \<Rightarrow> {} | Some ht \<Rightarrow> set (concat (map snd ht)))"

subsection \<open>Operators\<close>

definition mbb_operator_new :: "int \<Rightarrow> string \<Rightarrow> mbb_operator" where
  "mbb_operator_new i name = \<lparr>op_id = i, op_name = name, op_links = []\<rparr>"

definition mbb_operator_free :: "network \<Rightarrow> gpointer \<Rightarrow> network option" where
  "mbb_operator_free st op = do { _ \<leftarrow> dm_heap (nw_ops st) op; Some (set_op st op None) }"

definition mbb_operator_join :: "network \<Rightarrow> gpointer \<Rightarrow> network option" where
  "mbb_operator_join st op =
     do { m \<leftarrow> module_join operator_entries (nw_ops st) op; Some (st\<lparr>nw_ops := m\<rparr>) }"

definition mbb_operator_detach :: "network \<Rightarrow> gpointer \<Rightarrow> network option" where
  "mbb_operator_detach st op =
     do { m \<leftarrow> module_detach operator_entries (nw_ops st) op; Some (st\<lparr>nw_ops := m\<rparr>) }"

definition mbb_operator_remove :: "network \<Rightarrow> gpointer \<Rightarrow> network option" where
  "mbb_operator_remove st op = do { st \<leftarrow> mbb_operator_detach st op; mbb_operator_free st op }"

definition mbb_operator_mod_name :: "network \<Rightarrow> gpointer \<Rightarrow> string \<Rightarrow> (network \<times> bool) option" where
  "mbb_operator_mod_name st op newname =
     do { (m, r) \<leftarrow> module_mod_name operator_entries 2 (\<lambda>n x. x\<lparr>op_name := n\<rparr>) (nw_ops st) op newname;
          Some (st\<lparr>nw_ops := m\<rparr>, r) }"

definition mbb_operator_get_by_id :: "network \<Rightarrow> int \<Rightarrow> gpointer option" where
  "mbb_operator_get_by_id st i = module_get (nw_ops st) 1 (Key_Int i)"

definition mbb_operator_get_by_name :: "network \<Rightarrow> string \<Rightarrow> gpointer option" where
  "mbb_operator_get_by_name st name = module_get (nw_ops st) 2 (Key_Str name)"

definition mbb_operator_foreach :: "network \<Rightarrow> gpointer set" where
  "mbb_operator_foreach st = data_link_foreach (dm_link (nw_ops st))"

definition mbb_operator_add_link :: "network \<Rightarrow> gpointer \<Rightarrow> gpointer \<Rightarrow> network option" where
  "mbb_operator_add_link st op p =
     do { x \<leftarrow> dm_heap (nw_ops st) op; Some (set_op st op (Some (x\<lparr>op_links := p # op_links x\<rparr>))) }"

definition mbb_operator_del_link :: "network \<Rightarrow> gpointer \<Rightarrow> gpointer \<Rightarrow> network option" where
  "mbb_operator_del_link st op p =
     do { x \<leftarrow> dm_heap (nw_ops st) op; Some (set_op st op (Some (x\<lparr>op_links := remove1 p (op_links x)\<rparr>))) }"

subsection \<open>Links\<close>

definition mbb_gwlink_new :: "int \<Rightarrow> mbb_gwlink" where
  "mbb_gwlink_new i = \<lparr>gl_id = i, gl_op = 0, gl_gw = 0, gl_link = 0, gl_start = 0, gl_end = 0\<rparr>"

definition mbb_gwlink_free :: "network \<Rightarrow> gpointer \<Rightarrow> network option" where
  "mbb_gwlink_free st p =
     do { gl \<leftarrow> dm_heap (nw_links st) p;
          st \<leftarrow> (if gl_gw gl \<noteq> 0 then mbb_gateway_del_link st (gl_gw gl) p else Some st);
          st \<leftarrow> (if gl_op gl \<noteq> 0 then mbb_operator_del_link st (gl_op gl) p else Some st);
          Some (set_gl st p None) }"

definition mbb_gwlink_join :: "network \<Rightarrow> gpointer \<Rightarrow> network option" where
  "mbb_gwlink_join st p =
     do { m \<leftarrow> module_join gwlink_entries (nw_links st) p; Some (st\<lparr>nw_links := m\<rparr>) }"

definition mbb_gwlink_detach :: "network \<Rightarrow> gpointer \<Rightarrow> network option" where
  "mbb_gwlink_detach st p =
     do { m \<leftarrow> module_detach gwlink_entries (nw_links st) p; Some (st\<lparr>nw_links := m\<rparr>) }"

definition mbb_gwlink_remove :: "network \<Rightarrow> gpointer \<Rightarrow> network option" where
  "mbb_gwlink_remove st p = do { st \<leftarrow> mbb_gwlink_detach st p; mbb_gwlink_free st p }"

definition mbb_gwlink_get_by_id :: "network \<Rightarrow> int \<Rightarrow> gpointer option" where
  "mbb_gwlink_get_by_id st i = module_get (nw_links st) 1 (Key_Int i)"

definition mbb_gwlink_foreach :: "network \<Rightarrow> gpointer set" where
  "mbb_gwlink_foreach st = data_link_foreach (dm_link (nw_links st))"

section \<open>The order of a queue\<close>

definition ends_before :: "mbb_gwlink \<Rightarrow> mbb_gwlink \<Rightarrow> bool" where
  "ends_before a b \<longleftrightarrow> gl_end a \<noteq> 0 \<and> gl_start b \<noteq> 0 \<and> gl_end a < gl_start b"

definition wf_link :: "mbb_gwlink \<Rightarrow> bool" where
  "wf_link gl \<longleftrightarrow> gl_start gl = 0 \<or> gl_end gl = 0 \<or> gl_start gl \<le> gl_end gl"

definition link_admits :: "mbb_gwlink \<Rightarrow> time_t \<Rightarrow> bool" where
  "link_admits gl t \<longleftrightarrow> admits (gl_start gl) (gl_end gl) t"

definition queue_ok :: "mbb_gwlink heap \<Rightarrow> gpointer list \<Rightarrow> bool" where
  "queue_ok h q \<longleftrightarrow> (\<forall>p \<in> set q. \<exists>gl. h p = Some gl \<and> wf_link gl) \<and>
     sorted_wrt (\<lambda>p r. ends_before (the (h p)) (the (h r))) q"

lemma becmp_ends_before [simp]: "mbb_time_becmp (gl_start b) (gl_end a) > 0 \<longleftrightarrow> ends_before a b"
  by (auto simp: mbb_time_becmp_def ends_before_def timecmp_def)

lemma ebcmp_ends_before [simp]: "mbb_time_ebcmp (gl_end a) (gl_start b) < 0 \<longleftrightarrow> ends_before a b"
  by (auto simp: mbb_time_ebcmp_def ends_before_def timecmp_def)

lemma ends_before_trans: "ends_before a b \<Longrightarrow> wf_link b \<Longrightarrow> ends_before b c \<Longrightarrow> ends_before a c"
  by (auto simp: ends_before_def wf_link_def)

lemma ends_before_irrefl: "wf_link a \<Longrightarrow> \<not> ends_before a a"
  by (auto simp: ends_before_def wf_link_def)

lemma ends_before_apart: "ends_before a b \<Longrightarrow> link_admits a t \<Longrightarrow> \<not> link_admits b t"
  by (auto simp: ends_before_def link_admits_def admits_def)

text \<open>Two links overlap unless one ends before the other starts.\<close>

lemma overlap_iff:
  assumes "wf_link a" "wf_link b"
  shows "(\<exists>t. link_admits a t \<and> link_admits b t) \<longleftrightarrow> \<not> ends_before a b \<and> \<not> ends_before b a"
proof
  assume "\<not> ends_before a b \<and> \<not> ends_before b a"
  then have "mbb_time_becmp (mbb_time_bmax (gl_start a) (gl_start b)) (mbb_time_emin (gl_end a) (gl_end b)) \<le> 0"
    using assms unfolding ends_before_def wf_link_def mbb_time_bmax_def mbb_time_emin_def
      mbb_time_bbcmp_def mbb_time_eecmp_def mbb_time_becmp_def timecmp_def
    by (cases "gl_start a = 0"; cases "gl_start b = 0"; cases "gl_end a = 0"; cases "gl_end b = 0"; simp)
  then show "\<exists>t. link_admits a t \<and> link_admits b t"
    unfolding becmp_admits admits_meet link_admits_def by blast
qed (use ends_before_apart in blast)

lemma queue_ok_Nil [simp]: "queue_ok h []"
  by (simp add: queue_ok_def)

lemma queue_ok_Cons:
  "queue_ok h (c # q) \<longleftrightarrow> (\<exists>cur. h c = Some cur \<and> wf_link cur \<and>
     (\<forall>r \<in> set q. ends_before cur (the (h r)))) \<and> queue_ok h q"
  by (auto simp: queue_ok_def)

lemma queue_ok_distinct: "queue_ok h q \<Longrightarrow> distinct q"
  by (induction q) (fastforce simp: queue_ok_Cons dest: ends_before_irrefl)+

lemma queue_ok_member: "queue_ok h q \<Longrightarrow> p \<in> set q \<Longrightarrow> \<exists>gl. h p = Some gl \<and> wf_link gl"
  by (auto simp: queue_ok_def)

lemma queue_ok_remove1: "queue_ok h q \<Longrightarrow> queue_ok h (remove1 p q)"
  by (induction q) (auto simp: queue_ok_Cons dest: notin_set_remove1)

lemma queue_ok_other: "queue_ok h q \<Longrightarrow> p \<notin> set q \<Longrightarrow> queue_ok (h(p := v)) q"
  by (induction q) (auto simp: queue_ok_Cons)

text \<open>Inserting keeps the order, or names a link of the queue that overlaps.\<close>

definition overlaps :: "mbb_gwlink heap \<Rightarrow> mbb_gwlink \<Rightarrow> gpointer \<Rightarrow> bool" where
  "overlaps h gl c \<longleftrightarrow> (\<exists>cur t. h c = Some cur \<and> link_admits cur t \<and> link_admits gl t)"

lemma overlaps_iff:
  "h c = Some cur \<Longrightarrow> wf_link cur \<Longrightarrow> wf_link gl \<Longrightarrow>
     overlaps h gl c \<longleftrightarrow> \<not> ends_before cur gl \<and> \<not> ends_before gl cur"
  using overlap_iff [of cur gl] by (auto simp: overlaps_def)

lemma insert_before_head:
  assumes q: "queue_ok h (c # q)" "h c = Some cur" and gl: "wf_link gl" "h p = Some gl" "ends_before gl cur"
  shows "queue_ok h (p # c # q)" "\<forall>r \<in> set (c # q). \<not> overlaps h gl r"
proof -
  have after: "ends_before gl (the (h r))" if "r \<in> set (c # q)" for r
    using that q gl by (auto simp: queue_ok_Cons intro: ends_before_trans [of gl cur])
  then show "queue_ok h (p # c # q)" using q gl by (auto simp: queue_ok_Cons)
  show "\<forall>r \<in> set (c # q). \<not> overlaps h gl r"
    using after ends_before_apart by (fastforce simp: overlaps_def)
qed

lemma gw_queue_insert_free:
  assumes "queue_ok h q" "h p = Some gl" "wf_link gl" "\<forall>c \<in> set q. \<not> overlaps h gl c"
  shows "\<exists>q'. gw_queue_insert_gl h p gl q = Some (q', True, None) \<and> queue_ok h q' \<and> mset q' = add_mset p (mset q)"
  using assms
proof (induction q)
  case (Cons c q)
  then obtain cur where cur: "h c = Some cur" "wf_link cur" by (auto simp: queue_ok_Cons)
  have ov: "ends_before cur gl \<or> ends_before gl cur" using Cons.prems cur overlaps_iff by auto
  show ?case
  proof (cases "ends_before cur gl")
    case True
    from Cons obtain q' where q': "gw_queue_insert_gl h p gl q = Some (q', True, None)" "queue_ok h q'"
        "mset q' = add_mset p (mset q)" by (auto simp: queue_ok_Cons)
    have "set q' = insert p (set q)" using q'(3) by (metis set_mset_add_mset_insert set_mset_mset)
    with True q' Cons.prems cur show ?thesis by (auto simp: queue_ok_Cons)
  next
    case False
    with ov cur insert_before_head [OF Cons.prems(1) cur(1) Cons.prems(3,2)] show ?thesis by simp
  qed
qed (simp add: queue_ok_Cons)

lemma gw_queue_insert_blocked:
  assumes "queue_ok h q" "h p = Some gl" "wf_link gl" "\<exists>c \<in> set q. overlaps h gl c"
  shows "\<exists>c \<in> set q. gw_queue_insert_gl h p gl q = Some (q, False, Some c) \<and> overlaps h gl c"
  using assms
proof (induction q)
  case (Cons c q)
  then obtain cur where cur: "h c = Some cur" "wf_link cur" by (auto simp: queue_ok_Cons)
  show ?case
  proof (cases "overlaps h gl c")
    case True
    with overlaps_iff [of h c cur gl] Cons.prems cur show ?thesis by auto
  next
    case False
    with overlaps_iff [of h c cur gl] cur Cons.prems(3) have "ends_before cur gl \<or> ends_before gl cur" by blast
    moreover have "\<not> ends_before gl cur"
      using insert_before_head(2) [OF Cons.prems(1) cur(1) Cons.prems(3,2)] Cons.prems(4) by blast
    ultimately show ?thesis using Cons False cur by (auto simp: queue_ok_Cons)
  qed
qed simp

lemma can_add_free:
  assumes "queue_ok h q" "wf_link gl" "\<not> create \<Longrightarrow> h p = Some gl"
  shows "can_add_loop h p gl create q = Some (\<forall>c \<in> set q. (\<not> create \<and> c = p) \<or> \<not> overlaps h gl c)"
  using assms(1)
proof (induction q)
  case (Cons c q)
  then obtain cur where cur: "h c = Some cur" "wf_link cur"
    and rest: "\<forall>r \<in> set q. ends_before cur (the (h r))" by (auto simp: queue_ok_Cons)
  have "\<not> overlaps h gl r" if "ends_before gl cur" "r \<in> set q" for r
    using that rest cur(2) ends_before_apart [OF ends_before_trans [OF that(1) cur(2)]] by (fastforce simp: overlaps_def)
  then show ?case
    using Cons cur overlaps_iff [of h c cur gl] assms(2) by (auto simp: queue_ok_Cons)
qed simp

lemma get_link_loop_finds:
  assumes "queue_ok h q" "t \<noteq> 0"
  shows "\<exists>r. get_link_loop h t q = Some r \<and>
     (\<forall>p. r = Some p \<longleftrightarrow> p \<in> set q \<and> (\<exists>gl. h p = Some gl \<and> link_admits gl t))"
  using assms(1)
proof (induction q)
  case (Cons c q)
  then obtain cur where cur: "h c = Some cur" "wf_link cur"
    and rest: "\<forall>r \<in> set q. ends_before cur (the (h r))" by (auto simp: queue_ok_Cons)
  have in_iff: "mbb_time_rcmp t (gl_start cur) (gl_end cur) = 0 \<longleftrightarrow> link_admits cur t"
    using rcmp_admits assms(2) by (simp add: link_admits_def)
  have early: "\<not> link_admits gl t" if "mbb_time_rcmp t (gl_start cur) (gl_end cur) < 0" "r \<in> set q" "h r = Some gl" for r gl
  proof -
    have "gl_start cur \<noteq> 0" "t < gl_start cur"
      using that(1) by (auto simp: mbb_time_rcmp_def mbb_time_ebcmp_def timecmp_def split: if_splits)
    with cur rest that show ?thesis
      by (fastforce simp: link_admits_def admits_def ends_before_def wf_link_def)
  qed
  have other: "\<not> link_admits gl t" if "link_admits cur t" "r \<in> set q" "h r = Some gl" for r gl
    using ends_before_apart rest that by fastforce
  show ?case
    using Cons cur in_iff early other by (auto simp: queue_ok_Cons)
qed simp

section \<open>The tables of a gateway\<close>

text \<open>
  A gateway is in order when its table is either absent or holds, under distinct numbers,
  non-empty queues of links that carry the number.
\<close>

definition table_ok :: "mbb_gateway \<Rightarrow> bool" where
  "table_ok gw \<longleftrightarrow> (case gw_ht gw of None \<Rightarrow> True
     | Some ht \<Rightarrow> ht \<noteq> [] \<and> distinct (map fst ht) \<and> [] \<notin> snd ` set ht)"

text \<open>The links of a number.\<close>

definition queue_of :: "mbb_gateway \<Rightarrow> guint32 \<Rightarrow> gpointer list" where
  "queue_of gw k = (case gw_ht gw of None \<Rightarrow> [] | Some ht \<Rightarrow> case_option [] id (map_of ht k))"

definition gateway_ok :: "mbb_gwlink heap \<Rightarrow> mbb_gateway \<Rightarrow> bool" where
  "gateway_ok h gw \<longleftrightarrow> table_ok gw \<and>
     (\<forall>k. queue_ok h (queue_of gw k) \<and> (\<forall>p \<in> set (queue_of gw k). \<exists>gl. h p = Some gl \<and> gl_link gl = k))"

lemma gateway_ok_queue: "gateway_ok h gw \<Longrightarrow> queue_ok h (queue_of gw k)"
  by (simp add: gateway_ok_def)

lemma gateway_ok_link: "gateway_ok h gw \<Longrightarrow> p \<in> set (queue_of gw k) \<Longrightarrow> \<exists>gl. h p = Some gl \<and> gl_link gl = k"
  by (simp add: gateway_ok_def)

lemma update_nonempty [simp]: "AList.update k v al \<noteq> []"
  by (cases al) (auto split: prod.splits)

lemma update_values: "set (AList.update k q al) \<subseteq> insert (k, q) (set al)"
  by (induction al) auto

definition put_queue :: "mbb_gateway \<Rightarrow> guint32 \<Rightarrow> gpointer list \<Rightarrow> mbb_gateway" where
  "put_queue gw k q = gw\<lparr>gw_ht := Some (AList.update k q (case gw_ht gw of None \<Rightarrow> [] | Some ht \<Rightarrow> ht))\<rparr>"

lemma queue_of_update [simp]: "queue_of (put_queue gw k q) = (queue_of gw)(k := q)"
  by (auto simp: put_queue_def queue_of_def update_conv' fun_eq_iff split: option.splits)

lemma table_ok_update: "table_ok gw \<Longrightarrow> q \<noteq> [] \<Longrightarrow> table_ok (put_queue gw k q)"
  using update_values [of k q]
  by (fastforce simp: table_ok_def put_queue_def distinct_update split: option.splits)

lemma gateway_ok_update:
  assumes "gateway_ok h gw" "q \<noteq> []" "queue_ok h q" "\<forall>p \<in> set q. \<exists>gl. h p = Some gl \<and> gl_link gl = k"
  shows "gateway_ok h (put_queue gw k q)"
  using assms by (simp add: gateway_ok_def table_ok_update)

lemma can_add_queue:
  assumes "dm_heap (nw_gws st) gw = Some g" "dm_heap (nw_links st) p = Some gl"
  shows "mbb_gateway_can_add st gw p create = can_add_loop (dm_heap (nw_links st)) p gl create (queue_of g (gl_link gl))"
  using assms by (auto simp: mbb_gateway_can_add_def queue_of_def split: option.splits)

lemma add_link_queue:
  assumes g: "dm_heap (nw_gws st) gw = Some g" "gateway_ok (dm_heap (nw_links st)) g"
    and gl: "dm_heap (nw_links st) p = Some gl"
  shows "mbb_gateway_add_link st gw p =
     do { (q, r, old) \<leftarrow> gw_queue_insert_gl (dm_heap (nw_links st)) p gl (queue_of g (gl_link gl));
          Some (set_gw st gw (Some (put_queue g (gl_link gl) q)), r, old) }"
  using assms by (auto simp: put_queue_def mbb_gateway_add_link_def queue_of_def Let_def split: option.splits bind_splits)

lemma add_link_admitted:
  assumes g: "dm_heap (nw_gws st) gw = Some g" "gateway_ok (dm_heap (nw_links st)) g"
    and gl: "dm_heap (nw_links st) p = Some gl" "wf_link gl"
  shows "\<exists>g' r old. mbb_gateway_add_link st gw p = Some (set_gw st gw (Some g'), r, old) \<and>
     gateway_ok (dm_heap (nw_links st)) g' \<and>
     mbb_gateway_can_add st gw p True = Some r \<and>
     (r \<longleftrightarrow> (\<forall>c \<in> set (queue_of g (gl_link gl)). \<not> overlaps (dm_heap (nw_links st)) gl c)) \<and>
     (r \<longrightarrow> mset (queue_of g' (gl_link gl)) = add_mset p (mset (queue_of g (gl_link gl)))) \<and>
     (\<forall>k. k \<noteq> gl_link gl \<or> \<not> r \<longrightarrow> queue_of g' k = queue_of g k) \<and>
     (\<not> r \<longrightarrow> (\<exists>c \<in> set (queue_of g (gl_link gl)). old = Some c \<and> overlaps (dm_heap (nw_links st)) gl c))"
proof -
  let ?h = "dm_heap (nw_links st)" and ?q = "queue_of g (gl_link gl)"
  note q = gateway_ok_queue [OF g(2), of "gl_link gl"] and lk = gateway_ok_link [OF g(2)]
  note can = can_add_queue [OF g(1) gl(1), of True] can_add_free [OF q gl(2), of True p]
  show ?thesis
  proof (cases "\<forall>c \<in> set ?q. \<not> overlaps ?h gl c")
    case True
    from gw_queue_insert_free [OF q gl True] obtain q' where
      q': "gw_queue_insert_gl ?h p gl ?q = Some (q', True, None)" "queue_ok ?h q'" "mset q' = add_mset p (mset ?q)"
      by blast
    have set: "set q' = insert p (set ?q)" using q'(3) by (metis set_mset_add_mset_insert set_mset_mset)
    have "gateway_ok ?h (put_queue g (gl_link gl) q')"
      by (rule gateway_ok_update) (use g q' set gl lk in auto)
    with True can q' show ?thesis
      by (auto simp: add_link_queue [OF g gl(1)] intro!: exI [of _ "put_queue g (gl_link gl) q'"])
  next
    case False
    then obtain c where c: "c \<in> set ?q" "gw_queue_insert_gl ?h p gl ?q = Some (?q, False, Some c)" "overlaps ?h gl c"
      using gw_queue_insert_blocked [OF q gl] by blast
    have "gateway_ok ?h (put_queue g (gl_link gl) ?q)"
      by (rule gateway_ok_update) (use g c q lk in auto)
    with False can c show ?thesis
      by (auto simp: add_link_queue [OF g gl(1)] intro!: exI [of _ "put_queue g (gl_link gl) ?q"])
  qed
qed

text \<open>
  C9. A link is added to a gateway exactly when no link of the same number overlaps it in
  time; the check made beforehand by the manager gives the same answer. The link then
  joins the queue of its number at its place in time, so that the queue stays ordered and
  without overlap, and no other queue changes. Otherwise the gateway keeps its links and
  the caller learns one link that overlaps.
\<close>

theorem gateway_add_link:
  assumes g: "dm_heap (nw_gws st) gw = Some g" "gateway_ok (dm_heap (nw_links st)) g"
    and gl: "dm_heap (nw_links st) p = Some gl" "wf_link gl"
  shows "\<exists>g' r old. mbb_gateway_add_link st gw p = Some (set_gw st gw (Some g'), r, old) \<and>
     gateway_ok (dm_heap (nw_links st)) g' \<and>
     mbb_gateway_can_add st gw p True = Some r \<and>
     (r \<longleftrightarrow> (\<forall>c \<in> set (queue_of g (gl_link gl)). \<not> overlaps (dm_heap (nw_links st)) gl c)) \<and>
     (r \<longrightarrow> mset (queue_of g' (gl_link gl)) = add_mset p (mset (queue_of g (gl_link gl)))) \<and>
     (\<forall>k. k \<noteq> gl_link gl \<or> \<not> r \<longrightarrow> queue_of g' k = queue_of g k) \<and>
     (\<not> r \<longrightarrow> (\<exists>c \<in> set (queue_of g (gl_link gl)). old = Some c \<and> overlaps (dm_heap (nw_links st)) gl c))"
  by (rule add_link_admitted [OF assms])

text \<open>Two links of gateway 16 under one number, the second open-ended.\<close>

definition net_gl :: "int \<Rightarrow> time_t \<Rightarrow> time_t \<Rightarrow> mbb_gwlink" where
  "net_gl i s e = (mbb_gwlink_new i)\<lparr>gl_gw := 16, gl_link := 3, gl_start := s, gl_end := e\<rparr>"

definition net_gw :: mbb_gateway where
  "net_gw = (mbb_gateway_new 1 ''gw'' 10)\<lparr>gw_ht := Some [(3, [32, 48])]\<rparr>"

definition net0 :: network where
  "net0 = \<lparr>nw_gws = \<lparr>dm_link = None, dm_heap = [16 \<mapsto> net_gw]\<rparr>,
     nw_links = \<lparr>dm_link = None, dm_heap = [32 \<mapsto> net_gl 1 10 20, 48 \<mapsto> net_gl 2 40 0, 64 \<mapsto> net_gl 3 25 30]\<rparr>,
     nw_ops = \<lparr>dm_link = None, dm_heap = Map.empty\<rparr>\<rparr>"

lemmas net_defs = net0_def net_gw_def net_gl_def mbb_gwlink_new_def mbb_gateway_new_def

lemma net0_ok: "gateway_ok (dm_heap (nw_links net0)) net_gw"
  by (simp add: net_defs gateway_ok_def table_ok_def queue_of_def queue_ok_def wf_link_def ends_before_def)

theorem gateway_add_link_witness:
  "\<exists>st' g' old. mbb_gateway_add_link net0 16 64 = Some (st', True, old) \<and>
     gateway_ok (dm_heap (nw_links net0)) g' \<and> mset (queue_of g' 3) = {#32, 48, 64#}"
proof -
  have "\<not> overlaps (dm_heap (nw_links net0)) (net_gl 3 25 30) c" if "c \<in> set (queue_of net_gw 3)" for c
    using that by (auto simp: net_defs overlaps_def queue_of_def link_admits_def admits_def)
  moreover have "dm_heap (nw_gws net0) 16 = Some net_gw" "dm_heap (nw_links net0) 64 = Some (net_gl 3 25 30)"
    "wf_link (net_gl 3 25 30)" "gl_link (net_gl 3 25 30) = 3" "queue_of net_gw 3 = [32, 48]"
    by (simp_all add: net_defs wf_link_def queue_of_def)
  ultimately show ?thesis
    using gateway_add_link [of net0 16 net_gw 64 "net_gl 3 25 30"] net0_ok by (auto simp: add_mset_commute)
qed

section \<open>Finding, moving and removing links\<close>

lemma get_link_finds:
  assumes "dm_heap (nw_gws st) gw = Some g" "gateway_ok (dm_heap (nw_links st)) g" "t \<noteq> 0"
  shows "\<exists>r. mbb_gateway_get_link st gw link t = Some r \<and>
     (\<forall>p. r = Some p \<longleftrightarrow> p \<in> set (queue_of g link) \<and>
        (\<exists>gl. dm_heap (nw_links st) p = Some gl \<and> link_admits gl t))"
proof -
  have "mbb_gateway_get_link st gw link t = get_link_loop (dm_heap (nw_links st)) t (queue_of g link)"
    using assms(1) by (auto simp: mbb_gateway_get_link_def queue_of_def split: option.splits)
  then show ?thesis using get_link_loop_finds [OF gateway_ok_queue [OF assms(2)] assms(3)] by simp
qed

lemma get_by_addr:
  assumes "module_ok gateway_entries (nw_gws st) S"
  shows "mbb_gateway_get_by_addr st ip = Some gw \<longleftrightarrow> gw \<in> S \<and> (\<exists>g. dm_heap (nw_gws st) gw = Some g \<and> gw_addr g = ip)"
  using module_get_iff [OF assms, of 3]
  by (simp add: mbb_gateway_get_by_addr_def gateway_entries_def word_uint_eq_iff)

text \<open>
  Looking up the link of a flow by gateway address, link number and a non-zero time
  returns exactly the link of that number, at the registered gateway of that address,
  whose period contains the time, and NULL when there is none.
\<close>

theorem gateway_find_link:
  assumes ok: "module_ok gateway_entries (nw_gws st) S"
    and gws: "\<forall>gw \<in> S. \<forall>g. dm_heap (nw_gws st) gw = Some g \<longrightarrow> gateway_ok (dm_heap (nw_links st)) g"
    and t: "t \<noteq> 0"
  shows "\<exists>r. mbb_gateway_find_link st ip link t = Some r \<and>
     (\<forall>p. r = Some p \<longleftrightarrow>
        (\<exists>gw \<in> S. \<exists>g gl. dm_heap (nw_gws st) gw = Some g \<and> gw_addr g = ip \<and> p \<in> set (queue_of g link) \<and>
           dm_heap (nw_links st) p = Some gl \<and> link_admits gl t))"
proof (cases "mbb_gateway_get_by_addr st ip")
  case None
  then have "\<not> (\<exists>gw \<in> S. \<exists>g. dm_heap (nw_gws st) gw = Some g \<and> gw_addr g = ip)"
    using get_by_addr [OF ok, of ip] by auto
  with None show ?thesis by (auto simp: mbb_gateway_find_link_def)
next
  case (Some gw)
  with get_by_addr [OF ok] obtain g where g: "gw \<in> S" "dm_heap (nw_gws st) gw = Some g" "gw_addr g = ip" by blast
  have one: "gw' = gw" if "gw' \<in> S" "dm_heap (nw_gws st) gw' = Some g'" "gw_addr g' = ip" for gw' g'
    using get_by_addr [OF ok, of ip gw'] that Some by auto
  have "(\<exists>gw \<in> S. \<exists>g gl. dm_heap (nw_gws st) gw = Some g \<and> gw_addr g = ip \<and> p \<in> set (queue_of g link) \<and>
        dm_heap (nw_links st) p = Some gl \<and> link_admits gl t) \<longleftrightarrow>
      p \<in> set (queue_of g link) \<and> (\<exists>gl. dm_heap (nw_links st) p = Some gl \<and> link_admits gl t)" for p
    using one g by (metis option.inject)
  with get_link_finds [OF g(2) gws [rule_format, OF g(1,2)] t, of link] Some show ?thesis
    by (simp only: mbb_gateway_find_link_def option.case)
qed

definition net1 :: network where
  "net1 = the (mbb_gateway_join net0 16)"

lemma net1_simps:
  "dm_heap (nw_gws net1) = [16 \<mapsto> net_gw]" "nw_links net1 = nw_links net0"
  "module_ok gateway_entries (nw_gws net1) {16}"
proof -
  have "module_ok gateway_entries (nw_gws net0) {}" "dm_heap (nw_gws net0) 16 = Some net_gw"
    by (simp_all add: module_ok_def net0_def)
  from module_join_ok [OF this] obtain m where
    "module_join gateway_entries (nw_gws net0) 16 = Some m" "module_ok gateway_entries m {16}"
    "dm_heap m = dm_heap (nw_gws net0)" by (auto simp: fresh_keys_def)
  then show "dm_heap (nw_gws net1) = [16 \<mapsto> net_gw]" "nw_links net1 = nw_links net0"
    "module_ok gateway_entries (nw_gws net1) {16}" by (simp_all add: net1_def mbb_gateway_join_def net0_def)
qed

theorem gateway_find_link_witness:
  "mbb_gateway_find_link net1 10 3 50 = Some (Some 48)"
proof -
  have "\<forall>gw \<in> {16}. \<forall>g. dm_heap (nw_gws net1) gw = Some g \<longrightarrow> gateway_ok (dm_heap (nw_links net1)) g"
    using net0_ok by (auto simp: net1_simps)
  from gateway_find_link [OF net1_simps(3) this, where t = 50 and ip = 10 and link = 3] obtain r where
    r: "mbb_gateway_find_link net1 10 3 50 = Some r" and
    p: "\<And>p. r = Some p \<longleftrightarrow> (\<exists>gl. gw_addr net_gw = 10 \<and> p \<in> set (queue_of net_gw 3) \<and>
           dm_heap (nw_links net0) p = Some gl \<and> link_admits gl 50)" by (auto simp: net1_simps)
  have "r = Some 48" unfolding p by (simp add: net_defs queue_of_def link_admits_def admits_def)
  with r show ?thesis by simp
qed

lemma takeWhile_neq_remove1:
  "p \<in> set q \<Longrightarrow> takeWhile (\<lambda>x. x \<noteq> p) q @ drop (Suc 0) (dropWhile (\<lambda>x. x \<noteq> p) q) = remove1 p q"
  by (induction q) auto

lemma takeWhile_neq_split:
  "p \<in> set q \<Longrightarrow> takeWhile (\<lambda>x. x \<noteq> p) q @ p # drop (Suc 0) (dropWhile (\<lambda>x. x \<noteq> p) q) = q"
  by (induction q) auto

lemma reorder_queue_spec:
  assumes q: "queue_ok h q" "p \<in> set q" and gl: "wf_link gl"
  shows "\<exists>q' r. reorder_queue (h(p \<mapsto> gl)) p gl q = Some (q', r) \<and>
     (r \<longleftrightarrow> (\<forall>c \<in> set q. c = p \<or> \<not> overlaps h gl c)) \<and>
     (r \<longrightarrow> queue_ok (h(p \<mapsto> gl)) q' \<and> mset q' = mset q) \<and> (\<not> r \<longrightarrow> q' = q)"
proof (cases "length q = 1")
  case True
  with q(2) have "q = [p]" by (auto simp: length_Suc_conv)
  with gl show ?thesis by (auto simp: reorder_queue_def queue_ok_Cons)
next
  case False
  let ?h = "h(p \<mapsto> gl)" and ?q = "remove1 p q"
  have p: "p \<notin> set ?q" "set ?q = set q - {p}" using queue_ok_distinct [OF q(1)] by auto
  have ok: "queue_ok ?h ?q" by (rule queue_ok_other [OF queue_ok_remove1 [OF q(1)] p(1)])
  have ov: "overlaps ?h gl c \<longleftrightarrow> overlaps h gl c" if "c \<noteq> p" for c using that by (simp add: overlaps_def)
  have step: "reorder_queue ?h p gl q = do { (q', r, _) \<leftarrow> gw_queue_insert_gl ?h p gl ?q;
      if \<not> r then Some (q, False) else Some (q', True) }"
    using False q(2)
    by (cases "gw_queue_insert_gl ?h p gl ?q") (auto simp: reorder_queue_def takeWhile_neq_remove1 takeWhile_neq_split Let_def)
  show ?thesis
  proof (cases "\<forall>c \<in> set ?q. \<not> overlaps ?h gl c")
    case True
    from gw_queue_insert_free [OF ok _ gl True, of p] obtain q' where
      "gw_queue_insert_gl ?h p gl ?q = Some (q', True, None)" "queue_ok ?h q'" "mset q' = add_mset p (mset ?q)" by auto
    with True p ov q(2) show ?thesis by (auto simp: step)
  next
    case False
    with gw_queue_insert_blocked [OF ok _ gl, of p] obtain c where
      "c \<in> set ?q" "gw_queue_insert_gl ?h p gl ?q = Some (?q, False, Some c)" "overlaps ?h gl c" by auto
    with p ov show ?thesis by (auto simp: step)
  qed
qed

text \<open>A link sits only in the queue of its number.\<close>

lemma gateway_ok_elsewhere:
  "gateway_ok h g \<Longrightarrow> h p = Some gl \<Longrightarrow> k \<noteq> gl_link gl \<Longrightarrow> p \<notin> set (queue_of g k)"
  using gateway_ok_link by fastforce

lemma gateway_ok_move:
  assumes g: "gateway_ok h g" and p: "h p = Some gl0" "gl_link gl = gl_link gl0"
    and q: "q \<noteq> []" "queue_ok (h(p \<mapsto> gl)) q" "set q = set (queue_of g (gl_link gl))"
  shows "gateway_ok (h(p \<mapsto> gl)) (put_queue g (gl_link gl) q)"
proof -
  have "queue_ok (h(p \<mapsto> gl)) (queue_of g k)" if "k \<noteq> gl_link gl" for k
    by (rule queue_ok_other [OF gateway_ok_queue [OF g] gateway_ok_elsewhere [OF g p(1)]]) (use that p in simp)
  moreover have "\<exists>gl'. (h(p \<mapsto> gl)) c = Some gl' \<and> gl_link gl' = k" if "c \<in> set (queue_of g k)" for c k
    using gateway_ok_link [OF g that] p by auto
  ultimately show ?thesis using g q by (auto simp: gateway_ok_def table_ok_update)
qed


lemma reorder_link_moved:
  assumes g: "dm_heap (nw_gws st) gw = Some g" "gateway_ok (dm_heap (nw_links st)) g"
    and old: "dm_heap (nw_links st) p = Some gl0" "p \<in> set (queue_of g (gl_link gl0))"
    and new: "wf_link gl" "gl_link gl = gl_link gl0"
  shows "\<exists>g' r. mbb_gateway_reorder_link (set_gl st p (Some gl)) gw p =
        Some (set_gw (set_gl st p (Some gl)) gw (Some g'), r) \<and>
     (r \<longleftrightarrow> (\<forall>c \<in> set (queue_of g (gl_link gl)). c = p \<or> \<not> overlaps (dm_heap (nw_links st)) gl c)) \<and>
     (r \<longrightarrow> gateway_ok ((dm_heap (nw_links st))(p \<mapsto> gl)) g' \<and> (\<forall>k. mset (queue_of g' k) = mset (queue_of g k))) \<and>
     (\<not> r \<longrightarrow> gateway_ok (dm_heap (nw_links st)) g' \<and> queue_of g' = queue_of g)"
proof -
  let ?h = "dm_heap (nw_links st)" and ?q = "queue_of g (gl_link gl)"
  note q = gateway_ok_queue [OF g(2), of "gl_link gl"]
  have pq: "p \<in> set ?q" using old new by simp
  obtain q' r where r: "reorder_queue (?h(p \<mapsto> gl)) p gl ?q = Some (q', r)"
      "r \<longleftrightarrow> (\<forall>c \<in> set ?q. c = p \<or> \<not> overlaps ?h gl c)"
      "r \<Longrightarrow> queue_ok (?h(p \<mapsto> gl)) q' \<and> mset q' = mset ?q" "\<not> r \<Longrightarrow> q' = ?q"
    using reorder_queue_spec [OF q pq new(1)] by blast
  have step: "mbb_gateway_reorder_link (set_gl st p (Some gl)) gw p =
      Some (set_gw (set_gl st p (Some gl)) gw (Some (put_queue g (gl_link gl) q')), r)"
    using g(1) pq r(1)
    by (auto simp: mbb_gateway_reorder_link_def set_gl_def queue_of_def put_queue_def split: option.splits)
  have "gateway_ok (?h(p \<mapsto> gl)) (put_queue g (gl_link gl) q')" if r
    by (rule gateway_ok_move [OF g(2) old(1) new(2)])
      (use that r(3) pq mset_eq_setD [of q' ?q] in \<open>auto\<close>)
  moreover have "gateway_ok ?h (put_queue g (gl_link gl) q')" if "\<not> r"
    by (rule gateway_ok_update [OF g(2)]) (use that r(4) pq q gateway_ok_link [OF g(2)] in auto)
  ultimately show ?thesis
    using step r by (intro exI [of _ "put_queue g (gl_link gl) q'"] exI [of _ r]) simp
qed

text \<open>
  C13. After the times of a link have changed, the gateway accepts them exactly when no other
  link of the number overlaps the new period; the link then moves to its new place and
  every queue holds the same links, ordered under the new times. When the gateway refuses,
  every queue is as before, so restoring the old times restores the gateway.
\<close>

theorem gateway_reorder_link:
  assumes g: "dm_heap (nw_gws st) gw = Some g" "gateway_ok (dm_heap (nw_links st)) g"
    and old: "dm_heap (nw_links st) p = Some gl0" "p \<in> set (queue_of g (gl_link gl0))"
    and new: "wf_link gl" "gl_link gl = gl_link gl0"
  shows "\<exists>g' r. mbb_gateway_reorder_link (set_gl st p (Some gl)) gw p =
        Some (set_gw (set_gl st p (Some gl)) gw (Some g'), r) \<and>
     (r \<longleftrightarrow> (\<forall>c \<in> set (queue_of g (gl_link gl)). c = p \<or> \<not> overlaps (dm_heap (nw_links st)) gl c)) \<and>
     (r \<longrightarrow> gateway_ok ((dm_heap (nw_links st))(p \<mapsto> gl)) g' \<and> (\<forall>k. mset (queue_of g' k) = mset (queue_of g k))) \<and>
     (\<not> r \<longrightarrow> gateway_ok (dm_heap (nw_links st)) g' \<and> queue_of g' = queue_of g)"
  by (rule reorder_link_moved [OF assms])

theorem gateway_reorder_link_witness:
  "\<exists>g'. mbb_gateway_reorder_link (set_gl net0 32 (Some (net_gl 1 5 50))) 16 32 =
     Some (set_gw (set_gl net0 32 (Some (net_gl 1 5 50))) 16 (Some g'), False) \<and> queue_of g' = queue_of net_gw"
proof -
  have h: "dm_heap (nw_gws net0) 16 = Some net_gw" "dm_heap (nw_links net0) 32 = Some (net_gl 1 10 20)"
    "(32 :: gpointer) \<in> set (queue_of net_gw (gl_link (net_gl 1 10 20)))" "wf_link (net_gl 1 5 50)"
    "gl_link (net_gl 1 5 50) = gl_link (net_gl 1 10 20)"
    by (simp_all add: net_defs wf_link_def queue_of_def)
  have "overlaps (dm_heap (nw_links net0)) (net_gl 1 5 50) 48"
    by (auto simp: net_defs overlaps_def link_admits_def admits_def intro: exI [of _ 45])
  moreover have "(48 :: gpointer) \<in> set (queue_of net_gw (gl_link (net_gl 1 5 50)))" by (simp add: net_defs queue_of_def)
  ultimately have "\<not> (\<forall>c \<in> set (queue_of net_gw (gl_link (net_gl 1 5 50))).
      c = 32 \<or> \<not> overlaps (dm_heap (nw_links net0)) (net_gl 1 5 50) c)" by force
  moreover obtain g' r where r: "mbb_gateway_reorder_link (set_gl net0 32 (Some (net_gl 1 5 50))) 16 32 =
      Some (set_gw (set_gl net0 32 (Some (net_gl 1 5 50))) 16 (Some g'), r)"
    "r \<longleftrightarrow> (\<forall>c \<in> set (queue_of net_gw (gl_link (net_gl 1 5 50))).
      c = 32 \<or> \<not> overlaps (dm_heap (nw_links net0)) (net_gl 1 5 50) c)" "\<not> r \<longrightarrow> queue_of g' = queue_of net_gw"
    using gateway_reorder_link [OF h(1) net0_ok h(2-5)] by blast
  ultimately have "\<not> r" "queue_of g' = queue_of net_gw" by blast+
  with r show ?thesis by (intro exI [of _ g']) simp
qed

lemma del_link_queue:
  assumes "gw_ht g = Some ht" "table_ok g"
  shows "table_ok (g\<lparr>gw_ht := del_link_ht ht k p\<rparr>) \<and>
     queue_of (g\<lparr>gw_ht := del_link_ht ht k p\<rparr>) = (queue_of g)(k := remove1 p (queue_of g k))"
proof (cases "map_of ht k")
  case None
  with assms show ?thesis by (simp add: del_link_ht_def table_ok_def queue_of_def fun_eq_iff)
next
  case (Some q)
  consider (absent) "p \<notin> set q" | (last) "p \<in> set q" "remove1 p q = []" | (more) "p \<in> set q" "remove1 p q \<noteq> []" by blast
  then show ?thesis
  proof cases
    case absent
    with assms Some show ?thesis
      by (simp add: del_link_ht_def table_ok_def queue_of_def fun_eq_iff remove1_idem)
  next
    case last
    let ?ht = "AList.delete k ht"
    have "del_link_ht ht k p = (if ?ht = [] then None else Some ?ht)" using last Some by (simp add: del_link_ht_def)
    moreover have "[] \<notin> snd ` set ?ht" "distinct (map fst ?ht)"
      using assms by (auto simp: table_ok_def AList.delete_eq distinct_delete [unfolded AList.delete_eq])
    moreover have "map_of ht x = None" if "?ht = []" "x \<noteq> k" for x
      using that delete_conv' [of k ht] by (metis fun_upd_apply map_of.simps(1))
    ultimately show ?thesis
      using assms last Some by (auto simp: table_ok_def queue_of_def fun_eq_iff delete_conv')
  next
    case more
    with assms Some table_ok_update [of g "remove1 p q" k] queue_of_update [of g k "remove1 p q"] show ?thesis
      by (simp add: del_link_ht_def put_queue_def Let_def fun_eq_iff queue_of_def)
  qed
qed

lemma gateway_del_link:
  assumes g: "dm_heap (nw_gws st) gw = Some g" "gateway_ok (dm_heap (nw_links st)) g"
    and p: "dm_heap (nw_links st) p = Some gl"
  shows "\<exists>g'. mbb_gateway_del_link st gw p = Some (set_gw st gw (Some g')) \<and>
     (\<forall>k. queue_of g' k = remove1 p (queue_of g k)) \<and> gateway_ok ((dm_heap (nw_links st))(p := None)) g'"
proof (cases "gw_ht g")
  case None
  then have "queue_of g k = []" for k by (simp add: queue_of_def)
  moreover have "set_gw st gw (Some g) = st" using g(1) by (cases st) (simp add: set_gw_def fun_upd_idem)
  ultimately show ?thesis
    using None g by (intro exI [of _ g]) (simp add: mbb_gateway_del_link_def gateway_ok_def)
next
  case (Some ht)
  let ?h = "dm_heap (nw_links st)" and ?g = "g\<lparr>gw_ht := del_link_ht ht (gl_link gl) p\<rparr>"
  have t: "table_ok ?g" "queue_of ?g = (queue_of g)(gl_link gl := remove1 p (queue_of g (gl_link gl)))"
    using del_link_queue [OF Some, of "gl_link gl" p] g(2) by (auto simp: gateway_ok_def)
  have all: "queue_of ?g k = remove1 p (queue_of g k)" for k
    using t(2) gateway_ok_elsewhere [OF g(2) p, of k] by (simp add: remove1_idem)
  have out: "p \<notin> set (queue_of ?g k)" for k
    using queue_ok_distinct [OF gateway_ok_queue [OF g(2)]] by (simp add: all)
  have "queue_ok (?h(p := None)) (queue_of ?g k)" for k
    by (rule queue_ok_other [OF _ out]) (simp only: all queue_ok_remove1 [OF gateway_ok_queue [OF g(2)]])
  moreover have "\<exists>x. (?h(p := None)) c = Some x \<and> gl_link x = k" if "c \<in> set (queue_of ?g k)" for c k
  proof -
    have "c \<noteq> p" "c \<in> set (queue_of g k)" using that out [of k] by (auto simp: all dest: set_mp [OF set_remove1_subset])
    with gateway_ok_link [OF g(2)] show ?thesis by simp
  qed
  ultimately have "gateway_ok (?h(p := None)) ?g" using t(1) by (simp add: gateway_ok_def)
  with g(1) p Some all show ?thesis by (auto simp: mbb_gateway_del_link_def)
qed

lemma gwlink_self_first [simp]: "self_first gwlink_entries"
  by (simp add: self_first_def gwlink_entries_def)

lemma gwlink_remove_effect:
  assumes reg: "module_ok gwlink_entries (nw_links st) S" "p \<in> S"
    and p: "dm_heap (nw_links st) p = Some gl"
    and g: "gl_gw gl \<noteq> 0" "dm_heap (nw_gws st) (gl_gw gl) = Some g" "gateway_ok (dm_heap (nw_links st)) g"
    and op: "gl_op gl \<noteq> 0" "dm_heap (nw_ops st) (gl_op gl) = Some op"
  shows "\<exists>st' g'. mbb_gwlink_remove st p = Some st' \<and> module_ok gwlink_entries (nw_links st') (S - {p}) \<and>
     dm_heap (nw_links st') = (dm_heap (nw_links st))(p := None) \<and>
     dm_heap (nw_gws st') = (dm_heap (nw_gws st))(gl_gw gl \<mapsto> g') \<and>
     (\<forall>k. queue_of g' k = remove1 p (queue_of g k)) \<and> gateway_ok (dm_heap (nw_links st')) g' \<and>
     dm_heap (nw_ops st') = (dm_heap (nw_ops st))(gl_op gl \<mapsto> op\<lparr>op_links := remove1 p (op_links op)\<rparr>)"
proof -
  obtain m where m: "module_detach gwlink_entries (nw_links st) p = Some m" "module_ok gwlink_entries m (S - {p})"
      "dm_heap m = dm_heap (nw_links st)"
    using module_detach_ok [OF reg(1), of p] by auto
  let ?st = "st\<lparr>nw_links := m\<rparr>"
  from gateway_del_link [of ?st "gl_gw gl" g p gl] obtain g' where
    g': "mbb_gateway_del_link ?st (gl_gw gl) p = Some (set_gw ?st (gl_gw gl) (Some g'))"
      "\<forall>k. queue_of g' k = remove1 p (queue_of g k)" "gateway_ok ((dm_heap (nw_links st))(p := None)) g'"
    using g p m(3) by auto
  have "module_ok gwlink_entries (m\<lparr>dm_heap := (dm_heap m)(p := None)\<rparr>) (S - {p})"
    using m(2) by (auto simp: module_ok_def links_heap_update split: option.splits)
  with m g' g p op show ?thesis
    by (auto simp: mbb_gwlink_remove_def mbb_gwlink_detach_def mbb_gwlink_free_def mbb_operator_del_link_def
      set_gw_def set_gl_def set_op_def)
qed

text \<open>
  Removing a link that is installed in a gateway takes it out of the registry, of the
  gateway's queue and of its operator's list. The gateway's other links keep their order,
  and its table remains in order without the freed link.
\<close>

theorem gwlink_remove_withdraws:
  assumes reg: "module_ok gwlink_entries (nw_links st) S" "p \<in> S"
    and p: "dm_heap (nw_links st) p = Some gl"
    and g: "gl_gw gl \<noteq> 0" "dm_heap (nw_gws st) (gl_gw gl) = Some g" "gateway_ok (dm_heap (nw_links st)) g"
    and op: "gl_op gl \<noteq> 0" "dm_heap (nw_ops st) (gl_op gl) = Some op"
  shows "\<exists>st' g'. mbb_gwlink_remove st p = Some st' \<and> module_ok gwlink_entries (nw_links st') (S - {p}) \<and>
     dm_heap (nw_links st') = (dm_heap (nw_links st))(p := None) \<and>
     dm_heap (nw_gws st') = (dm_heap (nw_gws st))(gl_gw gl \<mapsto> g') \<and>
     (\<forall>k. queue_of g' k = remove1 p (queue_of g k)) \<and> gateway_ok (dm_heap (nw_links st')) g' \<and>
     dm_heap (nw_ops st') = (dm_heap (nw_ops st))(gl_op gl \<mapsto> op\<lparr>op_links := remove1 p (op_links op)\<rparr>)"
  by (rule gwlink_remove_effect [OF assms])

definition net2 :: network where
  "net2 = \<lparr>nw_gws = \<lparr>dm_link = None, dm_heap = [16 \<mapsto> (mbb_gateway_new 1 ''gw'' 10)\<lparr>gw_ht := Some [(3, [32])]\<rparr>]\<rparr>,
     nw_links = \<lparr>dm_link = Some \<lparr>dl_tables = [[Key_Ptr 32 \<mapsto> 32], [Key_Int 1 \<mapsto> 32]], dl_destroy = True\<rparr>,
       dm_heap = [32 \<mapsto> (net_gl 1 10 20)\<lparr>gl_op := 8\<rparr>]\<rparr>,
     nw_ops = \<lparr>dm_link = None, dm_heap = [8 \<mapsto> (mbb_operator_new 1 ''op'')\<lparr>op_links := [32]\<rparr>]\<rparr>\<rparr>"

theorem gwlink_remove_withdraws_witness:
  "\<exists>st' g'. mbb_gwlink_remove net2 32 = Some st' \<and> dm_heap (nw_links st') 32 = None \<and>
     dm_heap (nw_gws st') 16 = Some g' \<and> queue_of g' 3 = []"
proof -
  let ?gl = "(net_gl 1 10 20)\<lparr>gl_op := 8\<rparr>" and ?g = "(mbb_gateway_new 1 ''gw'' 10)\<lparr>gw_ht := Some [(3, [32])]\<rparr>"
  have "module_ok gwlink_entries (nw_links net2) {32}" "(32 :: gpointer) \<in> {32}"
    by (auto simp: module_ok_def links_def gwlink_entries_def net2_def net_defs less_Suc_eq split: if_splits)
  moreover have "dm_heap (nw_links net2) 32 = Some ?gl" "gl_gw ?gl \<noteq> 0" "dm_heap (nw_gws net2) (gl_gw ?gl) = Some ?g"
    "gateway_ok (dm_heap (nw_links net2)) ?g" "gl_op ?gl \<noteq> 0"
    "dm_heap (nw_ops net2) (gl_op ?gl) = Some ((mbb_operator_new 1 ''op'')\<lparr>op_links := [32]\<rparr>)"
    by (simp_all add: net2_def net_defs gateway_ok_def table_ok_def queue_of_def queue_ok_def wf_link_def)
  ultimately obtain st' g' where st: "mbb_gwlink_remove net2 32 = Some st'"
    "dm_heap (nw_links st') = (dm_heap (nw_links net2))(32 := None)"
    "dm_heap (nw_gws st') = (dm_heap (nw_gws net2))(gl_gw ?gl \<mapsto> g')" "\<forall>k. queue_of g' k = remove1 32 (queue_of ?g k)"
    using gwlink_remove_withdraws [of net2 "{32}" 32 ?gl ?g] by blast
  moreover have "gl_gw ?gl = 16" "queue_of ?g 3 = [32]" by (simp_all add: net_defs queue_of_def)
  ultimately show ?thesis by (intro exI [of _ st'] exI [of _ g']) simp
qed

subsection \<open>Names\<close>

interpretation operators: named_registry op_id op_name "\<lambda>n x. x\<lparr>op_name := n\<rparr>"
  by unfold_locales simp_all

lemma gateway_self_first [simp]: "self_first gateway_entries"
  by (simp add: self_first_def gateway_entries_def)

lemma gateway_get_by_name:
  assumes "module_ok gateway_entries (nw_gws st) S"
  shows "mbb_gateway_get_by_name st n = Some gw \<longleftrightarrow> gw \<in> S \<and> (\<exists>g. dm_heap (nw_gws st) gw = Some g \<and> gw_name g = n)"
  using module_get_iff [OF assms, of 2] by (simp add: mbb_gateway_get_by_name_def gateway_entries_def)

lemma gateway_mod_name_reg:
  assumes ok: "module_ok gateway_entries (nw_gws st) S" and gw: "gw \<in> S" "dm_heap (nw_gws st) gw = Some g"
  shows "\<exists>m r. module_mod_name gateway_entries 2 (\<lambda>n x. x\<lparr>gw_name := n\<rparr>) (nw_gws st) gw n = Some (m, r) \<and>
     module_ok gateway_entries m S \<and>
     (r \<longleftrightarrow> (\<forall>q \<in> S. \<forall>y. dm_heap (nw_gws st) q = Some y \<longrightarrow> gw_name y \<noteq> n)) \<and>
     dm_heap m = (if r then (dm_heap (nw_gws st))(gw \<mapsto> g\<lparr>gw_name := n\<rparr>) else dm_heap (nw_gws st))"
proof -
  have len: "2 < length gateway_entries" and key: "(gateway_entries ! 2) gw (g\<lparr>gw_name := n\<rparr>) = Key_Str n"
    by (simp_all add: gateway_entries_def)
  have other: "(gateway_entries ! i) gw (g\<lparr>gw_name := n\<rparr>) = (gateway_entries ! i) gw g"
    if "i < length gateway_entries" "i \<noteq> 2" for i
  proof -
    from that have "i = 0 \<or> i = 1 \<or> i = 3" by (auto simp: gateway_entries_def)
    then show ?thesis by (auto simp: gateway_entries_def)
  qed
  have name: "(gateway_entries ! 2) q y = Key_Str (gw_name y)" for q y by (simp add: gateway_entries_def)
  show ?thesis
    using module_mod_name_ok [where set_name = "\<lambda>n x. x\<lparr>gw_name := n\<rparr>" and n = n, OF ok _ gw len key other]
    by (simp only: name dl_key.inject simp_thms gateway_self_first)
qed

text \<open>
  A gateway is found by either of the names the server prints for it: its address in
  dotted form always, and its name unless the name reads as the address of a gateway. It
  can be renamed exactly when no registered gateway has the new name, and is then found
  under it.
\<close>

lemma gateway_names:
  assumes ok: "module_ok gateway_entries (nw_gws st) S" and gw: "gw \<in> S" "dm_heap (nw_gws st) gw = Some g"
  shows "mbb_gateway_get_by_ename st (mbb_gateway_get_ename g True) = Some gw \<and>
     ((\<forall>i. atoipv4 (gw_name g) = Some i \<longrightarrow> mbb_gateway_get_by_addr st (addr i) = None) \<longrightarrow>
       mbb_gateway_get_by_ename st (mbb_gateway_get_ename g False) = Some gw) \<and>
     (\<exists>st' r. mbb_gateway_mod_name st gw n = Some (st', r) \<and> module_ok gateway_entries (nw_gws st') S \<and>
       (r \<longleftrightarrow> mbb_gateway_get_by_name st n = None) \<and> (r \<longrightarrow> mbb_gateway_get_by_name st' n = Some gw))"
proof (intro conjI impI)
  have a: "mbb_gateway_get_by_addr st (gw_addr g) = Some gw" using get_by_addr [OF ok] gw by blast
  have "atoipv4 (ipv4toa (gw_addr g)) = Some \<lparr>addr = gw_addr g, mask = 32\<rparr>"
    using strtoipv4_ipv4toa [of "[]" "gw_addr g"] by (simp add: atoipv4_def ascii_isgraph_def)
  with a show "mbb_gateway_get_by_ename st (mbb_gateway_get_ename g True) = Some gw"
    by (simp add: mbb_gateway_get_by_ename_def mbb_gateway_get_by_addr_def mbb_gateway_get_ename_def)
next
  assume "\<forall>i. atoipv4 (gw_name g) = Some i \<longrightarrow> mbb_gateway_get_by_addr st (addr i) = None"
  moreover have "mbb_gateway_get_by_name st (gw_name g) = Some gw" using gateway_get_by_name [OF ok] gw by blast
  ultimately show "mbb_gateway_get_by_ename st (mbb_gateway_get_ename g False) = Some gw"
    by (auto simp: mbb_gateway_get_by_ename_def mbb_gateway_get_by_addr_def mbb_gateway_get_by_name_def
      mbb_gateway_get_ename_def split: option.splits)
next
  obtain m r where m: "module_mod_name gateway_entries 2 (\<lambda>n x. x\<lparr>gw_name := n\<rparr>) (nw_gws st) gw n = Some (m, r)"
      "module_ok gateway_entries m S"
      "r \<longleftrightarrow> (\<forall>q \<in> S. \<forall>y. dm_heap (nw_gws st) q = Some y \<longrightarrow> gw_name y \<noteq> n)"
      "dm_heap m = (if r then (dm_heap (nw_gws st))(gw \<mapsto> g\<lparr>gw_name := n\<rparr>) else dm_heap (nw_gws st))"
    using gateway_mod_name_reg [OF ok gw, of n] by blast
  have "r \<longleftrightarrow> mbb_gateway_get_by_name st n = None"
    using m(3) gateway_get_by_name [OF ok, of n] by (metis not_Some_eq)
  moreover have "mbb_gateway_get_by_name (st\<lparr>nw_gws := m\<rparr>) n = Some gw" if r
    using gateway_get_by_name [of "st\<lparr>nw_gws := m\<rparr>" S n gw] m(2,4) that gw(1) by simp
  ultimately show "\<exists>st' r. mbb_gateway_mod_name st gw n = Some (st', r) \<and> module_ok gateway_entries (nw_gws st') S \<and>
       (r \<longleftrightarrow> mbb_gateway_get_by_name st n = None) \<and> (r \<longrightarrow> mbb_gateway_get_by_name st' n = Some gw)"
    using m by (auto simp: mbb_gateway_mod_name_def)
qed

lemmas operator_defs = operator_entries_def mbb_operator_get_by_name_def mbb_operator_get_by_id_def mbb_operator_mod_name_def

text \<open>Operators are found by id and name, and renaming keeps the registry in order.\<close>

lemma operator_registry:
  assumes ok: "module_ok operator_entries (nw_ops st) S" and p: "p \<in> S" "dm_heap (nw_ops st) p = Some x"
  shows "mbb_operator_get_by_name st (op_name x) = Some p" "mbb_operator_get_by_id st (op_id x) = Some p"
    "\<exists>st' r. mbb_operator_mod_name st p n = Some (st', r) \<and> module_ok operator_entries (nw_ops st') S \<and>
       (r \<longleftrightarrow> (\<forall>q \<in> S. \<forall>y. dm_heap (nw_ops st) q = Some y \<longrightarrow> op_name y \<noteq> n))"
  using operators.get_by_name [of "nw_ops st" S "op_name x" p] operators.get_by_id [of "nw_ops st" S "op_id x" p]
    operators.mod_name [of "nw_ops st" S p x n] assms by (auto simp: operator_defs)

end
