(* ===== verification/Msg_Queue.thy ===== *)
theory Msg_Queue
  imports Mbb_Prelude "HOL-Library.Monad_Syntax"
begin

text \<open>
  The output queue of a connection, \<open>mbbd/mbbmsgqueue.c\<close>, and the reference counted
  messages that several queues share, \<open>mbbd/shared.c\<close>. Memory is explicit: texts, shared
  messages and queue entries live in heaps, freeing removes them, and every access to a
  freed or missing block is \<open>None\<close>, as is freeing a block twice. A queue may be filled by
  any thread while its own thread empties it: removing a message takes the mutex once to
  look at the head and once more to take it off, so the two halves are separate steps of
  the transition system below.
\<close>

section \<open>Definitions\<close>

type_synonym text_heap = "gpointer \<rightharpoonup> string"

subsection \<open>Shared messages\<close>

record shared =
  sh_data :: gpointer
  sh_ref_count :: gint
  sh_destroy :: "gpointer \<Rightarrow> text_heap \<Rightarrow> text_heap option"

datatype msg_type = MSG_CONST | MSG_ALLOC | MSG_SHARED

text \<open>The union holds a shared message or a text, told apart by the type.\<close>

record msg_entry =
  en_type :: msg_type
  en_len :: nat
  en_off :: nat
  en_un :: gpointer

record mem =
  mm_text :: text_heap
  mm_shared :: "gpointer \<rightharpoonup> shared"
  mm_entry :: "gpointer \<rightharpoonup> msg_entry"

definition g_free :: "gpointer \<Rightarrow> text_heap \<Rightarrow> text_heap option" where
  "g_free p h = (if p = 0 then Some h else case h p of None \<Rightarrow> None | Some _ \<Rightarrow> Some (h(p := None)))"

text \<open>The address \<open>p\<close> is what the allocator returns.\<close>

definition shared_new_full ::
  "mem \<Rightarrow> gpointer \<Rightarrow> gpointer \<Rightarrow> (gpointer \<Rightarrow> text_heap \<Rightarrow> text_heap option) option \<Rightarrow> gint \<Rightarrow> mem" where
  "shared_new_full m p data destroy ref_count =
     m\<lparr>mm_shared := (mm_shared m)(p \<mapsto> \<lparr>sh_data = data, sh_ref_count = ref_count,
       sh_destroy = (case destroy of None \<Rightarrow> g_free | Some f \<Rightarrow> f)\<rparr>)\<rparr>"

definition shared_ref :: "mem \<Rightarrow> gpointer \<Rightarrow> mem option" where
  "shared_ref m shar =
     do { p \<leftarrow> mm_shared m shar;
          Some (m\<lparr>mm_shared := (mm_shared m)(shar \<mapsto> p\<lparr>sh_ref_count := sh_ref_count p + 1\<rparr>)\<rparr>) }"

definition shared_free :: "mem \<Rightarrow> gpointer \<Rightarrow> mem option" where
  "shared_free m shar =
     do { p \<leftarrow> mm_shared m shar;
          h \<leftarrow> sh_destroy p (sh_data p) (mm_text m);
          Some (m\<lparr>mm_text := h, mm_shared := (mm_shared m)(shar := None)\<rparr>) }"

definition shared_unref :: "mem \<Rightarrow> gpointer \<Rightarrow> mem option" where
  "shared_unref m shar =
     do { p \<leftarrow> mm_shared m shar;
          if sh_ref_count p - 1 = 0
          then do { h \<leftarrow> sh_destroy p (sh_data p) (mm_text m);
                    Some (m\<lparr>mm_text := h, mm_shared := (mm_shared m)(shar := None)\<rparr>) }
          else Some (m\<lparr>mm_shared := (mm_shared m)(shar \<mapsto> p\<lparr>sh_ref_count := sh_ref_count p - 1\<rparr>)\<rparr>) }"

subsection \<open>The queue\<close>

record mbb_msg_queue =
  mq_queue :: "gpointer list option"

definition mbb_msg_queue_new :: mbb_msg_queue where
  "mbb_msg_queue_new = \<lparr>mq_queue = None\<rparr>"

definition mbb_msg_queue_push_entry :: "mem \<Rightarrow> mbb_msg_queue \<Rightarrow> gpointer \<Rightarrow> (mem \<times> mbb_msg_queue) option" where
  "mbb_msg_queue_push_entry m mq entry =
     do { x \<leftarrow> mm_entry m entry;
          let m = m\<lparr>mm_entry := (mm_entry m)(entry \<mapsto> x\<lparr>en_off := 0\<rparr>)\<rparr>;
          let q = (case mq_queue mq of None \<Rightarrow> [] | Some q \<Rightarrow> q);
          Some (m, mq\<lparr>mq_queue := Some (q @ [entry])\<rparr>) }"

text \<open>The field \<open>off\<close> of a new entry is not initialised before \<open>mbb_msg_queue_push_entry\<close>; \<open>junk\<close> is its value.\<close>

definition mbb_msg_queue_push_shared ::
  "nat \<Rightarrow> mem \<Rightarrow> mbb_msg_queue \<Rightarrow> gpointer \<Rightarrow> gpointer \<Rightarrow> nat \<Rightarrow> (mem \<times> mbb_msg_queue) option" where
  "mbb_msg_queue_push_shared junk m mq entry msg len =
     mbb_msg_queue_push_entry
       (m\<lparr>mm_entry := (mm_entry m)(entry \<mapsto> \<lparr>en_type = MSG_SHARED, en_len = len, en_off = junk, en_un = msg\<rparr>)\<rparr>) mq entry"

definition mbb_msg_queue_push_alloc ::
  "nat \<Rightarrow> mem \<Rightarrow> mbb_msg_queue \<Rightarrow> gpointer \<Rightarrow> gpointer \<Rightarrow> nat \<Rightarrow> (mem \<times> mbb_msg_queue) option" where
  "mbb_msg_queue_push_alloc junk m mq entry text len =
     mbb_msg_queue_push_entry
       (m\<lparr>mm_entry := (mm_entry m)(entry \<mapsto> \<lparr>en_type = MSG_ALLOC, en_len = len, en_off = junk, en_un = text\<rparr>)\<rparr>) mq entry"

definition mbb_msg_queue_push_const ::
  "nat \<Rightarrow> mem \<Rightarrow> mbb_msg_queue \<Rightarrow> gpointer \<Rightarrow> gpointer \<Rightarrow> nat \<Rightarrow> (mem \<times> mbb_msg_queue) option" where
  "mbb_msg_queue_push_const junk m mq entry text len =
     mbb_msg_queue_push_entry
       (m\<lparr>mm_entry := (mm_entry m)(entry \<mapsto> \<lparr>en_type = MSG_CONST, en_len = len, en_off = junk, en_un = text\<rparr>)\<rparr>) mq entry"

definition msg_entry_free :: "mem \<Rightarrow> gpointer \<Rightarrow> mem option" where
  "msg_entry_free m entry =
     do { x \<leftarrow> mm_entry m entry;
          m \<leftarrow> (case en_type x of
                 MSG_ALLOC \<Rightarrow> do { h \<leftarrow> g_free (en_un x) (mm_text m); Some (m\<lparr>mm_text := h\<rparr>) }
               | MSG_SHARED \<Rightarrow> shared_unref m (en_un x)
               | MSG_CONST \<Rightarrow> Some m);
          Some (m\<lparr>mm_entry := (mm_entry m)(entry := None)\<rparr>) }"

text \<open>
  \<open>mbb_msg_queue_pop\<close>. The first half holds the mutex to look at the head; the second half
  hands the rest of the message to \<open>func\<close> and, when all of it was taken, holds the mutex
  again to remove the head. Reading past the text is \<open>None\<close>.
\<close>

definition pop_peek :: "mbb_msg_queue \<Rightarrow> gpointer option" where
  "pop_peek mq = (case mq_queue mq of Some (entry # _) \<Rightarrow> Some entry | _ \<Rightarrow> None)"

definition entry_text :: "mem \<Rightarrow> msg_entry \<Rightarrow> string option" where
  "entry_text m x =
     (case en_type x of
        MSG_SHARED \<Rightarrow> do { s \<leftarrow> mm_shared m (en_un x); mm_text m (sh_data s) }
      | _ \<Rightarrow> mm_text m (en_un x))"

definition pop_rest ::
  "(string \<Rightarrow> gint) \<Rightarrow> mem \<Rightarrow> mbb_msg_queue \<Rightarrow> gpointer \<Rightarrow> (mem \<times> mbb_msg_queue \<times> gint) option" where
  "pop_rest func m mq entry =
     do { x \<leftarrow> mm_entry m entry;
          t \<leftarrow> entry_text m x;
          if en_len x > length t \<or> en_off x > en_len x then None
          else
            do { let text = drop (en_off x) (take (en_len x) t);
                 let len = en_len x - en_off x;
                 let n = func text;
                 if n > 0
                 then if nat n < len
                      then Some (m\<lparr>mm_entry := (mm_entry m)(entry \<mapsto> x\<lparr>en_off := en_off x + nat n\<rparr>)\<rparr>, mq, n)
                      else do { let mq = mq\<lparr>mq_queue := map_option (drop 1) (mq_queue mq)\<rparr>;
                                m \<leftarrow> msg_entry_free m entry;
                                Some (m, mq, n) }
                 else Some (m, mq, n) } }"

definition mbb_msg_queue_pop ::
  "(string \<Rightarrow> gint) \<Rightarrow> mem \<Rightarrow> mbb_msg_queue \<Rightarrow> (mem \<times> mbb_msg_queue \<times> gint) option" where
  "mbb_msg_queue_pop func m mq =
     (case pop_peek mq of None \<Rightarrow> Some (m, mq, 0) | Some entry \<Rightarrow> pop_rest func m mq entry)"

definition mbb_msg_queue_is_empty :: "mbb_msg_queue \<Rightarrow> bool" where
  "mbb_msg_queue_is_empty mq = (case mq_queue mq of None \<Rightarrow> True | Some q \<Rightarrow> length q = 0)"

definition mbb_msg_queue_get_length :: "mbb_msg_queue \<Rightarrow> nat" where
  "mbb_msg_queue_get_length mq = (case mq_queue mq of None \<Rightarrow> 0 | Some q \<Rightarrow> length q)"

fun free_entries :: "mem \<Rightarrow> gpointer list \<Rightarrow> mem option" where
  "free_entries m [] = Some m"
| "free_entries m (entry # q) = do { m \<leftarrow> msg_entry_free m entry; free_entries m q }"

definition mbb_msg_queue_free :: "mem \<Rightarrow> mbb_msg_queue \<Rightarrow> mem option" where
  "mbb_msg_queue_free m mq = (case mq_queue mq of None \<Rightarrow> Some m | Some q \<Rightarrow> free_entries m q)"

section \<open>Ownership of memory\<close>

text \<open>
  A text belongs to the one entry that will free it or to the one shared message that
  will; constant texts belong to nobody. A shared message counts the entries that refer
  to it and the references \<open>ext\<close> that the rest of the program holds.
\<close>

definition refs_of :: "mem \<Rightarrow> gpointer \<Rightarrow> gpointer set" where
  "refs_of m s = {e. \<exists>x. mm_entry m e = Some x \<and> en_type x = MSG_SHARED \<and> en_un x = s}"

definition owners :: "mem \<Rightarrow> gpointer \<Rightarrow> (gpointer + gpointer) set" where
  "owners m p = {Inl e |e. \<exists>x. mm_entry m e = Some x \<and> en_type x = MSG_ALLOC \<and> en_un x = p} \<union>
     {Inr s |s. \<exists>sh. mm_shared m s = Some sh \<and> sh_data sh = p}"

definition const_refs :: "mem \<Rightarrow> gpointer set" where
  "const_refs m = {p. \<exists>e x. mm_entry m e = Some x \<and> en_type x = MSG_CONST \<and> en_un x = p}"

definition entry_ok :: "mem \<Rightarrow> msg_entry \<Rightarrow> bool" where
  "entry_ok m x \<longleftrightarrow> (\<exists>t. entry_text m x = Some t \<and> en_len x \<le> length t \<and> en_off x < en_len x)"

definition shared_ok :: "(gpointer \<Rightarrow> nat) \<Rightarrow> mem \<Rightarrow> gpointer \<Rightarrow> shared \<Rightarrow> bool" where
  "shared_ok ext m s sh \<longleftrightarrow> sh_ref_count sh = int (ext s + card (refs_of m s)) \<and> sh_ref_count sh > 0 \<and>
     sh_destroy sh = g_free \<and> mm_text m (sh_data sh) \<noteq> None"

definition mem_ok :: "(gpointer \<Rightarrow> nat) \<Rightarrow> mem \<Rightarrow> bool" where
  "mem_ok ext m \<longleftrightarrow> finite (dom (mm_entry m)) \<and> mm_text m 0 = None \<and>
     (\<forall>e x. mm_entry m e = Some x \<longrightarrow> entry_ok m x) \<and>
     (\<forall>p a b. a \<in> owners m p \<longrightarrow> b \<in> owners m p \<longrightarrow> a = b) \<and>
     (\<forall>p \<in> const_refs m. owners m p = {}) \<and>
     (\<forall>s sh. mm_shared m s = Some sh \<longrightarrow> shared_ok ext m s sh)"

lemma mem_okD:
  assumes "mem_ok ext m"
  shows "finite (dom (mm_entry m))" "mm_text m 0 = None" "mm_entry m e = Some x \<Longrightarrow> entry_ok m x"
    "a \<in> owners m p \<Longrightarrow> b \<in> owners m p \<Longrightarrow> a = b" "p \<in> const_refs m \<Longrightarrow> owners m p = {}"
    "mm_shared m s = Some sh \<Longrightarrow> shared_ok ext m s sh"
  using assms by (simp_all add: mem_ok_def)

lemma owners_alloc: "mm_entry m e = Some x \<Longrightarrow> en_type x = MSG_ALLOC \<Longrightarrow> Inl e \<in> owners m (en_un x)"
  and owners_shared: "mm_shared m s = Some sh \<Longrightarrow> Inr s \<in> owners m (sh_data sh)"
  and const_refsI: "mm_entry m e = Some x \<Longrightarrow> en_type x = MSG_CONST \<Longrightarrow> en_un x \<in> const_refs m"
  and refs_ofI: "mm_entry m e = Some x \<Longrightarrow> en_type x = MSG_SHARED \<Longrightarrow> e \<in> refs_of m (en_un x)"
  by (auto simp: owners_def const_refs_def refs_of_def)

lemma refs_finite: "mem_ok ext m \<Longrightarrow> finite (refs_of m s)"
  by (rule finite_subset [OF _ mem_okD(1)]) (auto simp: refs_of_def)

text \<open>Another entry never reads the text that the owner \<open>o\<close> may free.\<close>

lemma text_not_owned:
  assumes ok: "mem_ok ext m" and own: "w \<in> owners m p" and e: "mm_entry m e = Some x"
    and no: "w \<noteq> Inl e" "en_type x = MSG_SHARED \<Longrightarrow> w \<noteq> Inr (en_un x)"
  shows "entry_text (m\<lparr>mm_text := (mm_text m)(p := None)\<rparr>) x = entry_text m x"
proof (cases "en_type x")
  case MSG_CONST
  with mem_okD(5) [OF ok const_refsI [OF e]] own show ?thesis by (auto simp: entry_text_def)
next
  case MSG_ALLOC
  with mem_okD(4) [OF ok own] owners_alloc [OF e] no show ?thesis by (auto simp: entry_text_def)
next
  case MSG_SHARED
  then show ?thesis
  proof (cases "mm_shared m (en_un x)")
    case (Some sh)
    with mem_okD(4) [OF ok own] owners_shared [OF Some] no MSG_SHARED show ?thesis by (auto simp: entry_text_def)
  qed (simp add: entry_text_def)
qed

text \<open>Taking an entry out of the heap only removes references.\<close>

lemma drop_entry:
  assumes sub: "mm_entry m' = (mm_entry m)(e := None)" "\<And>s sh. mm_shared m' s = Some sh \<Longrightarrow>
      \<exists>sh0. mm_shared m s = Some sh0 \<and> sh_data sh0 = sh_data sh"
  shows "owners m' p \<subseteq> owners m p" "const_refs m' \<subseteq> const_refs m" "refs_of m' s = refs_of m s - {e}"
  using sub by (fastforce simp: owners_def const_refs_def refs_of_def split: if_splits)+

lemma mem_ok_drop:
  assumes ok: "mem_ok ext m" and e: "mm_entry m' = (mm_entry m)(e := None)"
    and sub: "\<And>s sh. mm_shared m' s = Some sh \<Longrightarrow> \<exists>sh0. mm_shared m s = Some sh0 \<and> sh_data sh0 = sh_data sh"
    and rd: "\<And>e' x. e' \<noteq> e \<Longrightarrow> mm_entry m e' = Some x \<Longrightarrow> entry_text m' x = entry_text m x" "mm_text m' 0 = None"
    and sh: "\<And>s sh. mm_shared m' s = Some sh \<Longrightarrow> shared_ok ext' m' s sh"
  shows "mem_ok ext' m'"
proof -
  note sub' = drop_entry [OF e sub]
  have "entry_ok m' x" if "mm_entry m' e' = Some x" for e' x
    using that e rd(1) [of e' x] mem_okD(3) [OF ok, of e' x] by (auto simp: entry_ok_def split: if_splits)
  moreover have "a = b" if "a \<in> owners m' p" "b \<in> owners m' p" for a b p
    using that sub'(1) mem_okD(4) [OF ok] by blast
  moreover have "owners m' p = {}" if "p \<in> const_refs m'" for p
    using that sub'(1,2) mem_okD(5) [OF ok] by blast
  moreover have "finite (dom (mm_entry m'))" using mem_okD(1) [OF ok] e by simp
  ultimately show ?thesis using rd(2) sh unfolding mem_ok_def by blast
qed

lemma free_alloc:
  assumes ok: "mem_ok ext m" and e: "mm_entry m e = Some x" "en_type x = MSG_ALLOC"
  shows "\<exists>m'. msg_entry_free m e = Some m' \<and> mem_ok ext m' \<and> mm_entry m' = (mm_entry m)(e := None) \<and>
     (\<forall>e' y. e' \<noteq> e \<longrightarrow> mm_entry m e' = Some y \<longrightarrow> entry_text m' y = entry_text m y)"
proof -
  obtain t where t: "mm_text m (en_un x) = Some t"
    using mem_okD(3) [OF ok e(1)] e(2) by (auto simp: entry_ok_def entry_text_def)
  let ?h = "(mm_text m)(en_un x := None)"
  let ?m = "m\<lparr>mm_text := ?h, mm_entry := (mm_entry m)(e := None)\<rparr>"
  have nz: "en_un x \<noteq> 0" using t mem_okD(2) [OF ok] by auto
  note own = owners_alloc [OF e]
  have same: "entry_text ?m y = entry_text m y" if "e' \<noteq> e" "mm_entry m e' = Some y" for e' y
    using text_not_owned [OF ok own that(2)] that(1) by (simp add: entry_text_def cong: msg_type.case_cong)
  have "mem_ok ext ?m"
  proof (rule mem_ok_drop [OF ok, where e = e])
    fix s sh assume s: "mm_shared ?m s = Some sh"
    then have o: "shared_ok ext m s sh" using mem_okD(6) [OF ok] by simp
    have "sh_data sh \<noteq> en_un x"
      using mem_okD(4) [OF ok own, of "Inr s"] owners_shared [of m s sh] s by auto
    moreover have "refs_of ?m s = refs_of m s" using e by (auto simp: refs_of_def)
    ultimately show "shared_ok ext ?m s sh" using o by (simp add: shared_ok_def)
  qed (use same mem_okD(2) [OF ok] in auto)
  moreover have "msg_entry_free m e = Some ?m" using e t nz by (simp add: msg_entry_free_def g_free_def)
  ultimately show ?thesis using same by (intro exI [of _ ?m]) simp
qed

lemma free_const:
  assumes ok: "mem_ok ext m" and e: "mm_entry m e = Some x" "en_type x = MSG_CONST"
  shows "\<exists>m'. msg_entry_free m e = Some m' \<and> mem_ok ext m' \<and> mm_entry m' = (mm_entry m)(e := None) \<and>
     (\<forall>e' y. e' \<noteq> e \<longrightarrow> mm_entry m e' = Some y \<longrightarrow> entry_text m' y = entry_text m y)"
proof -
  let ?m = "m\<lparr>mm_entry := (mm_entry m)(e := None)\<rparr>"
  have same: "entry_text ?m y = entry_text m y" for y by (simp add: entry_text_def cong: msg_type.case_cong)
  have refs: "refs_of ?m s = refs_of m s" for s using e by (auto simp: refs_of_def)
  have "shared_ok ext ?m s sh = shared_ok ext m s sh" for s sh by (simp add: shared_ok_def refs)
  then have "mem_ok ext ?m"
    by (intro mem_ok_drop [OF ok, where e = e]) (use same mem_okD(2,6) [OF ok] in auto)
  moreover have "msg_entry_free m e = Some ?m" using e by (simp add: msg_entry_free_def)
  ultimately show ?thesis using same by (intro exI [of _ ?m]) simp
qed

lemma refs_of_drop [simp]:
  "refs_of (m\<lparr>mm_shared := a, mm_entry := (mm_entry m)(e := None)\<rparr>) s = refs_of m s - {e}"
  "refs_of (m\<lparr>mm_text := h, mm_shared := a, mm_entry := (mm_entry m)(e := None)\<rparr>) s = refs_of m s - {e}"
  by (auto simp: refs_of_def)

lemma unref_last:
  assumes ok: "mem_ok ext m" and sh: "mm_shared m s = Some sh" and last: "refs_of m s \<subseteq> {e}"
    and other: "\<And>s'. s' \<noteq> s \<Longrightarrow> e \<notin> refs_of m s'"
  shows "mem_ok ext (m\<lparr>mm_text := (mm_text m)(sh_data sh := None), mm_shared := (mm_shared m)(s := None),
       mm_entry := (mm_entry m)(e := None)\<rparr>)" (is "mem_ok ext ?m")
    and "e' \<noteq> e \<Longrightarrow> mm_entry m e' = Some y \<Longrightarrow>
      entry_text (m\<lparr>mm_text := (mm_text m)(sh_data sh := None), mm_shared := (mm_shared m)(s := None),
        mm_entry := (mm_entry m)(e := None)\<rparr>) y = entry_text m y"
proof -
  note own = owners_shared [OF sh]
  have same: "entry_text ?m y = entry_text m y" if "e' \<noteq> e" "mm_entry m e' = Some y" for e' y
  proof -
    have "en_type y = MSG_SHARED \<Longrightarrow> en_un y \<noteq> s" using refs_ofI [OF that(2)] that(1) last by auto
    with text_not_owned [OF ok own that(2)] show ?thesis
      by (cases "en_type y") (auto simp: entry_text_def)
  qed
  then show "e' \<noteq> e \<Longrightarrow> mm_entry m e' = Some y \<Longrightarrow> entry_text ?m y = entry_text m y" .
  show "mem_ok ext ?m"
  proof (rule mem_ok_drop [OF ok, where e = e])
    fix s' sh' assume "mm_shared ?m s' = Some sh'"
    then have s: "s' \<noteq> s" "mm_shared m s' = Some sh'" by (auto split: if_splits)
    have "sh_data sh' \<noteq> sh_data sh"
      using mem_okD(4) [OF ok own, of "Inr s'"] owners_shared [OF s(2)] s(1) by auto
    moreover have "refs_of ?m s' = refs_of m s'" using other [OF s(1)] by simp
    ultimately show "shared_ok ext ?m s' sh'" using mem_okD(6) [OF ok s(2)] by (simp add: shared_ok_def)
  qed (use same mem_okD(2) [OF ok] in \<open>auto split: if_splits\<close>)
qed

lemma unref_more:
  assumes ok: "mem_ok ext m" and sh: "mm_shared m s = Some sh"
    and ref: "sh_ref_count sh - 1 = int (ext' s + card (refs_of m s - {e}))" "sh_ref_count sh \<noteq> 1"
    and ext: "\<And>s'. s' \<noteq> s \<Longrightarrow> ext' s' = ext s' \<and> e \<notin> refs_of m s'"
  shows "mem_ok ext' (m\<lparr>mm_shared := (mm_shared m)(s \<mapsto> sh\<lparr>sh_ref_count := sh_ref_count sh - 1\<rparr>),
       mm_entry := (mm_entry m)(e := None)\<rparr>)" (is "mem_ok ext' ?m")
    and "entry_text (m\<lparr>mm_shared := (mm_shared m)(s \<mapsto> sh\<lparr>sh_ref_count := sh_ref_count sh - 1\<rparr>),
       mm_entry := (mm_entry m)(e := None)\<rparr>) y = entry_text m y"
proof -
  have same: "entry_text ?m y = entry_text m y" for y
    using sh by (cases "en_type y") (auto simp: entry_text_def)
  then show "entry_text ?m y = entry_text m y" .
  show "mem_ok ext' ?m"
  proof (rule mem_ok_drop [OF ok, where e = e])
    fix s' sh' assume s: "mm_shared ?m s' = Some sh'"
    show "shared_ok ext' ?m s' sh'"
    proof (cases "s' = s")
      case True
      with s ref mem_okD(6) [OF ok sh] show ?thesis by (auto simp: shared_ok_def)
    next
      case False
      then show ?thesis using s mem_okD(6) [OF ok, of s' sh'] ext [of s'] by (simp add: shared_ok_def)
    qed
  qed (use same sh mem_okD(2) [OF ok] in \<open>auto split: if_splits\<close>)
qed

lemma free_shared:
  assumes ok: "mem_ok ext m" and e: "mm_entry m e = Some x" "en_type x = MSG_SHARED"
  shows "\<exists>m'. msg_entry_free m e = Some m' \<and> mem_ok ext m' \<and> mm_entry m' = (mm_entry m)(e := None) \<and>
     (\<forall>e' y. e' \<noteq> e \<longrightarrow> mm_entry m e' = Some y \<longrightarrow> entry_text m' y = entry_text m y)"
proof -
  obtain sh where sh: "mm_shared m (en_un x) = Some sh"
    using mem_okD(3) [OF ok e(1)] e(2) by (auto simp: entry_ok_def entry_text_def split: bind_splits)
  note s = mem_okD(6) [OF ok sh, unfolded shared_ok_def]
  have fin: "finite (refs_of m (en_un x))" "e \<in> refs_of m (en_un x)" using refs_finite [OF ok] refs_ofI [OF e] by auto
  have nz: "sh_data sh \<noteq> 0" using s mem_okD(2) [OF ok] by auto
  have c: "card (refs_of m (en_un x)) > 0" using fin by (auto simp: card_gt_0_iff)
  have other: "e \<notin> refs_of m s'" if "s' \<noteq> en_un x" for s' using that e by (auto simp: refs_of_def)
  show ?thesis
  proof (cases "sh_ref_count sh = 1")
    case True
    with s c have "card (refs_of m (en_un x)) = 1" by linarith
    with fin have "refs_of m (en_un x) \<subseteq> {e}" by (auto simp: card_1_singleton_iff)
    from True s e sh nz unref_last [OF ok sh this other] show ?thesis
      by (auto simp: msg_entry_free_def shared_unref_def g_free_def)
  next
    case False
    have "card (refs_of m (en_un x) - {e}) = card (refs_of m (en_un x)) - 1" using fin by simp
    then have "sh_ref_count sh - 1 = int (ext (en_un x) + card (refs_of m (en_un x) - {e}))"
      using s c by linarith
    from False s e sh unref_more [where ext' = ext, OF ok sh this False] other show ?thesis
      by (auto simp: msg_entry_free_def shared_unref_def)
  qed
qed

lemma msg_entry_free_ok:
  assumes "mem_ok ext m" "mm_entry m e = Some x"
  shows "\<exists>m'. msg_entry_free m e = Some m' \<and> mem_ok ext m' \<and> mm_entry m' = (mm_entry m)(e := None) \<and>
     (\<forall>e' y. e' \<noteq> e \<longrightarrow> mm_entry m e' = Some y \<longrightarrow> entry_text m' y = entry_text m y)"
  using free_alloc [OF assms] free_const [OF assms] free_shared [OF assms] by (cases "en_type x") auto

section \<open>The bytes of a queue\<close>

definition items :: "mbb_msg_queue \<Rightarrow> gpointer list" where
  "items mq = (case mq_queue mq of None \<Rightarrow> [] | Some q \<Rightarrow> q)"

definition rest :: "mem \<Rightarrow> gpointer \<Rightarrow> string" where
  "rest m e = (case mm_entry m e of None \<Rightarrow> [] | Some x \<Rightarrow> drop (en_off x) (take (en_len x) (the (entry_text m x))))"

definition pending :: "mem \<Rightarrow> gpointer list \<Rightarrow> string" where
  "pending m q = concat (map (rest m) q)"

definition queue_in :: "mem \<Rightarrow> mbb_msg_queue \<Rightarrow> bool" where
  "queue_in m mq \<longleftrightarrow> distinct (items mq) \<and> set (items mq) \<subseteq> dom (mm_entry m)"

lemma pending_simps [simp]: "pending m [] = []" "pending m (e # q) = rest m e @ pending m q"
  "pending m (q @ q') = pending m q @ pending m q'"
  by (simp_all add: pending_def)

lemma pending_cong: "(\<And>e. e \<in> set q \<Longrightarrow> rest m e = rest m' e) \<Longrightarrow> pending m q = pending m' q"
  by (auto simp: pending_def intro: arg_cong [where f = concat])

lemma peek_items: "pop_peek mq = Some e \<longleftrightarrow> (\<exists>q. items mq = e # q)" "pop_peek mq = None \<longleftrightarrow> items mq = []"
  by (auto simp: pop_peek_def items_def split: option.splits list.splits)

lemma rest_length: "mem_ok ext m \<Longrightarrow> mm_entry m e = Some x \<Longrightarrow> length (rest m e) = en_len x - en_off x"
  using mem_okD(3) [of ext m e x] by (auto simp: rest_def entry_ok_def)

lemma rest_nonempty: "mem_ok ext m \<Longrightarrow> mm_entry m e = Some x \<Longrightarrow> rest m e \<noteq> []"
  using mem_okD(3) [of ext m e x] by (auto simp: rest_def entry_ok_def)

lemma entry_text_simps [simp]:
  "entry_text (m\<lparr>mm_entry := h\<rparr>) y = entry_text m y" "entry_text m (x\<lparr>en_off := k\<rparr>) = entry_text m x"
  by (simp_all add: entry_text_def cong: msg_type.case_cong)

text \<open>Moving the offset of an entry changes no ownership.\<close>

lemma mem_ok_off:
  assumes ok: "mem_ok ext m" and e: "mm_entry m e = Some x" and k: "k < en_len x"
  shows "mem_ok ext (m\<lparr>mm_entry := (mm_entry m)(e \<mapsto> x\<lparr>en_off := k\<rparr>)\<rparr>)" (is "mem_ok ext ?m")
proof -
  have own: "owners ?m p = owners m p" "const_refs ?m = const_refs m" "refs_of ?m s = refs_of m s" for p s
    using e by (auto simp: owners_def const_refs_def refs_of_def) (metis option.inject)+
  have "entry_ok ?m y" if "mm_entry ?m e' = Some y" for e' y
    using that mem_okD(3) [OF ok, of e' y] mem_okD(3) [OF ok e] k by (auto simp: entry_ok_def split: if_splits)
  moreover have "shared_ok ext ?m s sh = shared_ok ext m s sh" for s sh by (simp add: shared_ok_def own)
  ultimately show ?thesis using ok e unfolding mem_ok_def by (simp add: own)
qed

text \<open>
  The second half of a removal: whatever part of the rest the connection accepts leaves
  the queue, and nothing else changes; a message that was accepted entirely is freed.
\<close>

lemma pop_rest_ok:
  assumes ok: "mem_ok ext m" and q: "queue_in m mq" "items mq = e # q"
    and n: "func (rest m e) \<le> int (length (rest m e))"
  shows "\<exists>m' mq'. pop_rest func m mq e = Some (m', mq', func (rest m e)) \<and> mem_ok ext m' \<and> queue_in m' mq' \<and>
     pending m' (items mq') = drop (nat (func (rest m e))) (pending m (items mq)) \<and>
     (\<forall>e'. e' \<noteq> e \<longrightarrow> mm_entry m' e' = mm_entry m e' \<and> rest m' e' = rest m e') \<and>
     (items mq' = items mq \<or> items mq' = q \<and> mm_entry m' e = None)"
proof -
  let ?n = "func (rest m e)"
  obtain x where x: "mm_entry m e = Some x" using q by (auto simp: queue_in_def)
  obtain t where t: "entry_text m x = Some t" "en_len x \<le> length t" "en_off x < en_len x"
    using mem_okD(3) [OF ok x] by (auto simp: entry_ok_def)
  have r: "rest m e = drop (en_off x) (take (en_len x) t)" "length (rest m e) = en_len x - en_off x"
    using x t by (simp_all add: rest_def)
  have nq: "e \<notin> set q" using q by (auto simp: queue_in_def)
  note pop = pop_rest_def [of func m mq e] x t r
  consider (none) "?n \<le> 0" | (part) "0 < ?n" "nat ?n < en_len x - en_off x" | (all) "nat ?n = en_len x - en_off x" "0 < ?n"
    using n r(2) by linarith
  then show ?thesis
  proof cases
    case none
    then show ?thesis using pop ok q by auto
  next
    case part
    let ?x = "x\<lparr>en_off := en_off x + nat ?n\<rparr>"
    let ?m = "m\<lparr>mm_entry := (mm_entry m)(e \<mapsto> ?x)\<rparr>"
    have "mem_ok ext ?m" by (rule mem_ok_off [OF ok x]) (use part in simp)
    moreover have o: "rest ?m e' = rest m e'" if "e' \<noteq> e" for e'
      using that by (cases "mm_entry m e'") (simp_all add: rest_def)
    have "rest ?m e = drop (nat ?n) (rest m e)" using x t by (simp add: rest_def add.commute)
    moreover have "pending ?m q = pending m q"
      by (rule pending_cong, rule o) (use nq in auto)
    moreover have "queue_in ?m mq" using q by (auto simp: queue_in_def)
    ultimately show ?thesis using part pop q(2) o r(2) by (intro exI [of _ ?m] exI [of _ mq]) (simp add: Let_def)
  next
    case all
    obtain m' where m': "msg_entry_free m e = Some m'" "mem_ok ext m'" "mm_entry m' = (mm_entry m)(e := None)"
      "\<And>e' y. e' \<noteq> e \<Longrightarrow> mm_entry m e' = Some y \<Longrightarrow> entry_text m' y = entry_text m y"
      using msg_entry_free_ok [OF ok x] by blast
    let ?mq = "mq\<lparr>mq_queue := map_option (drop 1) (mq_queue mq)\<rparr>"
    have it: "items ?mq = q" using q(2) by (auto simp: items_def split: option.splits)
    have o: "rest m' e' = rest m e'" if "e' \<noteq> e" for e'
      using that m'(3,4) by (auto simp: rest_def split: option.splits)
    have "pending m' q = pending m q" by (rule pending_cong, rule o) (use nq in auto)
    moreover have "queue_in m' ?mq" using q m'(3) it by (auto simp: queue_in_def)
    ultimately show ?thesis
      using all pop m' it q(2) o r(2) by (intro exI [of _ m'] exI [of _ ?mq]) (simp add: Let_def)
  qed
qed

subsection \<open>Adding messages\<close>

text \<open>
  What a caller must own to hand over a message: a constant text nobody frees, a text that
  nobody else uses, or a reference to a shared message. The last is given away.
\<close>

definition may_push :: "(gpointer \<Rightarrow> nat) \<Rightarrow> mem \<Rightarrow> msg_entry \<Rightarrow> bool" where
  "may_push ext m x \<longleftrightarrow> en_off x = 0 \<and> entry_ok m x \<and>
     (case en_type x of
        MSG_CONST \<Rightarrow> owners m (en_un x) = {}
      | MSG_ALLOC \<Rightarrow> owners m (en_un x) = {} \<and> en_un x \<notin> const_refs m
      | MSG_SHARED \<Rightarrow> ext (en_un x) > 0)"

definition given :: "(gpointer \<Rightarrow> nat) \<Rightarrow> msg_entry \<Rightarrow> gpointer \<Rightarrow> nat" where
  "given ext x = (if en_type x = MSG_SHARED then ext(en_un x := ext (en_un x) - 1) else ext)"

lemma mem_ok_push:
  assumes ok: "mem_ok ext m" and e: "mm_entry m e = None" and x: "may_push ext m x"
  shows "mem_ok (given ext x) (m\<lparr>mm_entry := (mm_entry m)(e \<mapsto> x)\<rparr>)" (is "mem_ok _ ?m")
proof -
  have own: "owners ?m p = (if en_type x = MSG_ALLOC \<and> en_un x = p then insert (Inl e) (owners m p) else owners m p)"
    and con: "const_refs ?m = (if en_type x = MSG_CONST then insert (en_un x) (const_refs m) else const_refs m)"
    and ref: "refs_of ?m s = (if en_type x = MSG_SHARED \<and> en_un x = s then insert e (refs_of m s) else refs_of m s)" for p s
    using e by (auto simp: owners_def const_refs_def refs_of_def) (metis option.distinct(1))+
  have new: "e \<notin> refs_of m s" for s using e by (simp add: refs_of_def)
  have "entry_ok ?m y" if "mm_entry ?m e' = Some y" for e' y
    using that mem_okD(3) [OF ok, of e' y] x by (auto simp: entry_ok_def may_push_def split: if_splits)
  moreover have "a = b" if "a \<in> owners ?m p" "b \<in> owners ?m p" for a b p
    using that mem_okD(4) [OF ok, of a p b] x by (auto simp: own may_push_def split: if_splits)
  moreover have "owners ?m p = {}" if "p \<in> const_refs ?m" for p
    using that mem_okD(5) [OF ok, of p] x by (auto simp: own con may_push_def split: if_splits)
  moreover have "shared_ok (given ext x) ?m s sh" if "mm_shared ?m s = Some sh" for s sh
    using that mem_okD(6) [OF ok, of s sh] x new [of s] refs_finite [OF ok, of s]
    by (auto simp: shared_ok_def ref given_def may_push_def of_nat_diff split: if_splits)
  ultimately show ?thesis using mem_okD(1,2) [OF ok] unfolding mem_ok_def by simp
qed

lemma push_entry_ok:
  assumes ok: "mem_ok ext m" and e: "mm_entry m e = None" and x: "may_push ext m (y\<lparr>en_off := 0\<rparr>)" and q: "queue_in m mq"
  shows "\<exists>m' mq'. mbb_msg_queue_push_entry (m\<lparr>mm_entry := (mm_entry m)(e \<mapsto> y)\<rparr>) mq e = Some (m', mq') \<and>
     mem_ok (given ext y) m' \<and> queue_in m' mq' \<and> items mq' = items mq @ [e] \<and>
     pending m' (items mq') = pending m (items mq) @ take (en_len y) (the (entry_text m y))"
proof -
  let ?m = "m\<lparr>mm_entry := (mm_entry m)(e \<mapsto> y\<lparr>en_off := 0\<rparr>)\<rparr>" and ?mq = "mq\<lparr>mq_queue := Some (items mq @ [e])\<rparr>"
  have it: "items ?mq = items mq @ [e]" by (simp add: items_def)
  have "e \<notin> set (items mq)" using e q by (auto simp: queue_in_def)
  then have "pending ?m (items mq) = pending m (items mq)"
    by (intro pending_cong) (auto simp: rest_def split: option.splits)
  moreover have "rest ?m e = take (en_len y) (the (entry_text m y))" by (simp add: rest_def)
  moreover have "given ext (y\<lparr>en_off := 0\<rparr>) = given ext y" by (simp add: given_def)
  moreover have "queue_in ?m ?mq" using q e it by (auto simp: queue_in_def)
  ultimately show ?thesis
    using mem_ok_push [OF ok e x] it
    by (intro exI [of _ ?m] exI [of _ ?mq]) (simp add: mbb_msg_queue_push_entry_def items_def Let_def)
qed

section \<open>Producers and the writer\<close>

text \<open>
  The state of one connection's queue among the threads of the server: the references held
  elsewhere, the memory, the queue, the entry its writer looks at between the two
  halves of a removal, and the bytes sent and pushed so far.
\<close>

record mq_config =
  cf_ext :: "gpointer \<Rightarrow> nat"
  cf_mem :: mem
  cf_mq :: mbb_msg_queue
  cf_cur :: "gpointer option"
  cf_sent :: string
  cf_pushed :: string

text \<open>
  Other threads may change the memory as they like as long as they respect ownership and
  leave the entries of this queue alone, as the operations of other queues do.
\<close>

definition rely :: "gpointer list \<Rightarrow> mem \<Rightarrow> mem \<Rightarrow> bool" where
  "rely q m m' \<longleftrightarrow> (\<forall>e \<in> set q. mm_entry m' e = mm_entry m e \<and> rest m' e = rest m e)"

inductive mq_step :: "mq_config \<Rightarrow> mq_config \<Rightarrow> bool" where
  push_const: "mm_entry m e = None \<Longrightarrow>
     may_push (cf_ext c) m \<lparr>en_type = MSG_CONST, en_len = len, en_off = 0, en_un = p\<rparr> \<Longrightarrow> m = cf_mem c \<Longrightarrow>
     mbb_msg_queue_push_const junk m (cf_mq c) e p len = Some (m', mq') \<Longrightarrow>
     mq_step c (c\<lparr>cf_mem := m', cf_mq := mq', cf_pushed := cf_pushed c @ take len (the (mm_text m p))\<rparr>)"
| push_alloc: "mm_entry m e = None \<Longrightarrow>
     may_push (cf_ext c) m \<lparr>en_type = MSG_ALLOC, en_len = len, en_off = 0, en_un = p\<rparr> \<Longrightarrow> m = cf_mem c \<Longrightarrow>
     mbb_msg_queue_push_alloc junk m (cf_mq c) e p len = Some (m', mq') \<Longrightarrow>
     mq_step c (c\<lparr>cf_mem := m', cf_mq := mq', cf_pushed := cf_pushed c @ take len (the (mm_text m p))\<rparr>)"
| push_shared: "mm_entry m e = None \<Longrightarrow> mm_shared m s = Some sh \<Longrightarrow>
     may_push (cf_ext c) m \<lparr>en_type = MSG_SHARED, en_len = len, en_off = 0, en_un = s\<rparr> \<Longrightarrow> m = cf_mem c \<Longrightarrow>
     mbb_msg_queue_push_shared junk m (cf_mq c) e s len = Some (m', mq') \<Longrightarrow>
     mq_step c (c\<lparr>cf_ext := (cf_ext c)(s := cf_ext c s - 1), cf_mem := m', cf_mq := mq',
       cf_pushed := cf_pushed c @ take len (the (mm_text m (sh_data sh)))\<rparr>)"
| other: "rely (items (cf_mq c)) (cf_mem c) m' \<Longrightarrow> mem_ok ext' m' \<Longrightarrow>
     mq_step c (c\<lparr>cf_ext := ext', cf_mem := m'\<rparr>)"
| look: "cf_cur c = None \<Longrightarrow> pop_peek (cf_mq c) = Some e \<Longrightarrow> mq_step c (c\<lparr>cf_cur := Some e\<rparr>)"
| send: "cf_cur c = Some e \<Longrightarrow> n \<le> int (length (rest (cf_mem c) e)) \<Longrightarrow>
     pop_rest (\<lambda>_. n) (cf_mem c) (cf_mq c) e = Some (m', mq', n) \<Longrightarrow>
     mq_step c (c\<lparr>cf_mem := m', cf_mq := mq', cf_cur := None,
       cf_sent := cf_sent c @ take (nat n) (rest (cf_mem c) e)\<rparr>)"

definition mq_start :: "(gpointer \<Rightarrow> nat) \<Rightarrow> mem \<Rightarrow> mq_config" where
  "mq_start ext m = \<lparr>cf_ext = ext, cf_mem = m, cf_mq = mbb_msg_queue_new, cf_cur = None, cf_sent = [], cf_pushed = []\<rparr>"

definition mq_inv :: "mq_config \<Rightarrow> bool" where
  "mq_inv c \<longleftrightarrow> mem_ok (cf_ext c) (cf_mem c) \<and> queue_in (cf_mem c) (cf_mq c) \<and>
     (\<forall>e. cf_cur c = Some e \<longrightarrow> (\<exists>q. items (cf_mq c) = e # q)) \<and>
     cf_sent c @ pending (cf_mem c) (items (cf_mq c)) = cf_pushed c"

lemma rely_pending: "rely q m m' \<Longrightarrow> pending m' q = pending m q"
  by (rule pending_cong) (simp add: rely_def)

lemma push_inv:
  assumes inv: "mq_inv c" and e: "mm_entry (cf_mem c) e = None" and x: "may_push (cf_ext c) (cf_mem c) (y\<lparr>en_off := 0\<rparr>)"
    and push: "mbb_msg_queue_push_entry ((cf_mem c)\<lparr>mm_entry := (mm_entry (cf_mem c))(e \<mapsto> y)\<rparr>) (cf_mq c) e = Some (m', mq')"
  shows "mq_inv (c\<lparr>cf_ext := given (cf_ext c) y, cf_mem := m', cf_mq := mq',
     cf_pushed := cf_pushed c @ take (en_len y) (the (entry_text (cf_mem c) y))\<rparr>)"
proof -
  from inv have ok: "mem_ok (cf_ext c) (cf_mem c)" "queue_in (cf_mem c) (cf_mq c)" by (simp_all add: mq_inv_def)
  from push_entry_ok [OF ok(1) e x ok(2)] push
  have "mem_ok (given (cf_ext c) y) m' \<and> queue_in m' mq' \<and> items mq' = items (cf_mq c) @ [e] \<and>
     pending m' (items mq') = pending (cf_mem c) (items (cf_mq c)) @ take (en_len y) (the (entry_text (cf_mem c) y))" by (auto simp del: pending_simps)
  with inv show ?thesis by (auto simp: mq_inv_def simp del: pending_simps simp flip: append_assoc)
qed

lemma mq_step_inv: "mq_step c c' \<Longrightarrow> mq_inv c \<Longrightarrow> mq_inv c'"
proof (induction rule: mq_step.induct)
  case (push_const m e c len p junk m' mq')
  let ?y = "\<lparr>en_type = MSG_CONST, en_len = len, en_off = junk, en_un = p\<rparr>"
  from push_const push_inv [of c e ?y m' mq'] show ?case
    by (simp add: mbb_msg_queue_push_const_def given_def entry_text_def)
next
  case (push_alloc m e c len p junk m' mq')
  let ?y = "\<lparr>en_type = MSG_ALLOC, en_len = len, en_off = junk, en_un = p\<rparr>"
  from push_alloc push_inv [of c e ?y m' mq'] show ?case
    by (simp add: mbb_msg_queue_push_alloc_def given_def entry_text_def)
next
  case (push_shared m e s sh c len junk m' mq')
  let ?y = "\<lparr>en_type = MSG_SHARED, en_len = len, en_off = junk, en_un = s\<rparr>"
  from push_shared push_inv [of c e ?y m' mq'] show ?case
    by (simp add: mbb_msg_queue_push_shared_def given_def entry_text_def)
next
  case (other c m' ext')
  then show ?case using rely_pending [OF other(1)] by (auto simp: mq_inv_def queue_in_def rely_def)
next
  case (look c e)
  then show ?case by (auto simp: mq_inv_def peek_items)
next
  case (send c e n m' mq')
  then obtain q where q: "items (cf_mq c) = e # q" "mem_ok (cf_ext c) (cf_mem c)" "queue_in (cf_mem c) (cf_mq c)"
    by (auto simp: mq_inv_def)
  from pop_rest_ok [OF q(2,3,1), of "\<lambda>_. n"] send have *: "mem_ok (cf_ext c) m'" "queue_in m' mq'"
    "pending m' (items mq') = drop (nat n) (pending (cf_mem c) (items (cf_mq c)))" by auto
  moreover have "nat n \<le> length (rest (cf_mem c) e)" using send(2) by linarith
  then have "take (nat n) (rest (cf_mem c) e) @ drop (nat n) (pending (cf_mem c) (items (cf_mq c))) =
      pending (cf_mem c) (items (cf_mq c))" using q(1) by (simp flip: append_assoc)
  ultimately show ?case using send.prems q by (simp add: mq_inv_def)
qed

lemma mq_start_inv: "mem_ok ext m \<Longrightarrow> mq_inv (mq_start ext m)"
  by (simp add: mq_inv_def mq_start_def mbb_msg_queue_new_def items_def queue_in_def)

lemma mq_reach_inv: "mq_step\<^sup>*\<^sup>* c c' \<Longrightarrow> mq_inv c \<Longrightarrow> mq_inv c'"
  by (induction rule: rtranclp_induct) (auto intro: mq_step_inv)

text \<open>
  C15. Whatever the interleaving of the threads that push messages, of the other queues and
  of the writer with its partial writes, the bytes written to a connection followed by the
  bytes still queued are exactly the bytes pushed, in order. No reachable state lets the
  writer touch freed memory: the removal it has begun can always be completed. Every
  message that is still referenced is still allocated.
\<close>

theorem msg_queue_stream:
  assumes "mem_ok ext m" and "mq_step\<^sup>*\<^sup>* (mq_start ext m) c"
  shows "cf_sent c @ pending (cf_mem c) (items (cf_mq c)) = cf_pushed c \<and> mem_ok (cf_ext c) (cf_mem c) \<and>
     (\<forall>e n. cf_cur c = Some e \<longrightarrow> n \<le> int (length (rest (cf_mem c) e)) \<longrightarrow>
        (\<exists>m' mq'. pop_rest (\<lambda>_. n) (cf_mem c) (cf_mq c) e = Some (m', mq', n)))"
proof -
  have inv: "mq_inv c" using mq_reach_inv [OF assms(2) mq_start_inv [OF assms(1)]] .
  have "\<exists>m' mq'. pop_rest (\<lambda>_. n) (cf_mem c) (cf_mq c) e = Some (m', mq', n)"
    if "cf_cur c = Some e" "n \<le> int (length (rest (cf_mem c) e))" for e n
    using inv that pop_rest_ok [of "cf_ext c" "cf_mem c" "cf_mq c" e _ "\<lambda>_. n"] by (fastforce simp: mq_inv_def)
  with inv show ?thesis by (auto simp: mq_inv_def)
qed

definition mem1 :: mem where
  "mem1 = \<lparr>mm_text = [16 \<mapsto> ''<kill/>''], mm_shared = Map.empty, mm_entry = Map.empty\<rparr>"

lemma mem1_ok: "mem_ok (\<lambda>_. 0) mem1"
  by (auto simp: mem_ok_def mem1_def owners_def const_refs_def)

text \<open>The seven bytes of \<open><kill/>\<close> pushed as a constant.\<close>

definition conf1 :: mq_config where
  "conf1 = (case mbb_msg_queue_push_const 0 mem1 mbb_msg_queue_new 32 16 7 of
     Some (m, mq) \<Rightarrow> (mq_start (\<lambda>_. 0) mem1)\<lparr>cf_mem := m, cf_mq := mq, cf_pushed := ''<kill/>''\<rparr>)"

lemma conf1_reach: "mq_step (mq_start (\<lambda>_. 0) mem1) conf1"
proof -
  have "mbb_msg_queue_push_const 0 mem1 mbb_msg_queue_new 32 16 7 =
      Some (mem1\<lparr>mm_entry := [32 \<mapsto> \<lparr>en_type = MSG_CONST, en_len = 7, en_off = 0, en_un = 16\<rparr>]\<rparr>, \<lparr>mq_queue = Some [32]\<rparr>)"
    by (simp add: mbb_msg_queue_push_const_def mbb_msg_queue_push_entry_def mbb_msg_queue_new_def mem1_def)
  moreover have "may_push (\<lambda>_. 0) mem1 \<lparr>en_type = MSG_CONST, en_len = 7, en_off = 0, en_un = 16\<rparr>"
    by (simp add: may_push_def entry_ok_def entry_text_def owners_def mem1_def)
  ultimately show ?thesis
    using mq_step.push_const [of mem1 32 "mq_start (\<lambda>_. 0) mem1" 7 16 0]
    by (simp add: conf1_def mq_start_def mem1_def)
qed

theorem msg_queue_stream_witness:
  "cf_sent conf1 @ pending (cf_mem conf1) (items (cf_mq conf1)) = ''<kill/>''"
proof -
  have "mq_step\<^sup>*\<^sup>* (mq_start (\<lambda>_. 0) mem1) conf1" using conf1_reach by (rule r_into_rtranclp)
  from msg_queue_stream [OF mem1_ok this] show ?thesis
    by (simp add: conf1_def mbb_msg_queue_push_const_def mbb_msg_queue_push_entry_def mem1_def)
qed

text \<open>Removing messages until the queue is empty, at most \<open>k\<close> times, and the bytes sent.\<close>

fun pops :: "(string \<Rightarrow> gint) \<Rightarrow> nat \<Rightarrow> mem \<Rightarrow> mbb_msg_queue \<Rightarrow> (mem \<times> mbb_msg_queue \<times> string) option" where
  "pops func 0 m mq = Some (m, mq, [])"
| "pops func (Suc k) m mq =
     (case pop_peek mq of
        None \<Rightarrow> Some (m, mq, [])
      | Some e \<Rightarrow>
          do { (m', mq', n) \<leftarrow> mbb_msg_queue_pop func m mq;
               (m'', mq'', out) \<leftarrow> pops func k m' mq';
               Some (m'', mq'', take (nat n) (rest m e) @ out) })"

lemma pops_drain:
  assumes "mem_ok ext m" "queue_in m mq" "length (pending m (items mq)) \<le> k"
    and func: "\<And>s. s \<noteq> [] \<Longrightarrow> 0 < func s \<and> func s \<le> int (length s)"
  shows "\<exists>m' mq'. pops func k m mq = Some (m', mq', pending m (items mq)) \<and> items mq' = [] \<and> mem_ok ext m' \<and>
     (\<forall>e \<in> set (items mq). mm_entry m' e = None) \<and>
     (\<forall>e. e \<notin> set (items mq) \<longrightarrow> mm_entry m' e = mm_entry m e)"
  using assms(1-3)
proof (induction k arbitrary: m mq)
  case 0
  have "items mq = []"
  proof (rule ccontr)
    assume "items mq \<noteq> []"
    then obtain e q where eq: "items mq = e # q" by (cases "items mq") auto
    then obtain x where "mm_entry m e = Some x" using 0(2) by (auto simp: queue_in_def)
    then show False using rest_nonempty [OF 0(1)] 0(3) eq by auto
  qed
  with 0 show ?case by simp
next
  case (Suc k)
  show ?case
  proof (cases "items mq")
    case Nil
    with Suc.prems show ?thesis by (simp add: peek_items(2) [THEN iffD2])
  next
    case (Cons e q)
    then obtain x where x: "mm_entry m e = Some x" using Suc.prems(2) by (auto simp: queue_in_def)
    let ?n = "func (rest m e)"
    have n: "0 < ?n" "?n \<le> int (length (rest m e))" using func [OF rest_nonempty [OF Suc.prems(1) x]] by auto
    from pop_rest_ok [where func = func, OF Suc.prems(1,2) Cons n(2)] obtain m1 mq1 where
      p: "pop_rest func m mq e = Some (m1, mq1, ?n)" "mem_ok ext m1" "queue_in m1 mq1"
        "pending m1 (items mq1) = drop (nat ?n) (pending m (items mq))"
        "\<forall>e'. e' \<noteq> e \<longrightarrow> mm_entry m1 e' = mm_entry m e'"
        "items mq1 = items mq \<or> items mq1 = q \<and> mm_entry m1 e = None" by blast
    have "length (pending m1 (items mq1)) \<le> k" using p(4) Suc.prems(3) n by simp
    from Suc.IH [OF p(2,3) this] obtain m2 mq2 where
      r: "pops func k m1 mq1 = Some (m2, mq2, pending m1 (items mq1))" "items mq2 = []" "mem_ok ext m2"
        "\<forall>e \<in> set (items mq1). mm_entry m2 e = None" "\<forall>e. e \<notin> set (items mq1) \<longrightarrow> mm_entry m2 e = mm_entry m1 e" by blast
    have peek: "pop_peek mq = Some e" using Cons by (auto simp: peek_items(1))
    have bytes: "take (nat ?n) (rest m e) @ pending m1 (items mq1) = pending m (items mq)"
      using p(4) Cons n by (simp flip: append_assoc)
    have d: "distinct (items mq)" using Suc.prems(2) by (simp add: queue_in_def)
    have "\<forall>e' \<in> set (items mq). mm_entry m2 e' = None"
      using r(4,5) p(6) Cons d by auto
    moreover have "\<forall>e'. e' \<notin> set (items mq) \<longrightarrow> mm_entry m2 e' = mm_entry m e'"
      using r(5) p(5,6) Cons by auto
    ultimately show ?thesis
      using r p(1) peek bytes by (simp add: mbb_msg_queue_pop_def)
  qed
qed

text \<open>
  C16. A connection that accepts at least one byte of every write gets everything: as many
  removals as there are queued bytes empty the queue, send all of its bytes in order, free
  every entry of the queue and no other, and leave the ownership of memory in order.
\<close>

theorem msg_queue_drains:
  assumes "mem_ok ext m" and "queue_in m mq" and "\<forall>s. s \<noteq> [] \<longrightarrow> 0 < func s \<and> func s \<le> int (length s)"
  shows "\<exists>m' mq'. pops func (length (pending m (items mq))) m mq = Some (m', mq', pending m (items mq)) \<and>
     mbb_msg_queue_is_empty mq' \<and> mem_ok ext m' \<and>
     (\<forall>e. mm_entry m' e = (if e \<in> set (items mq) then None else mm_entry m e))"
proof -
  have "items mq' = [] \<Longrightarrow> mbb_msg_queue_is_empty mq'" for mq'
    by (auto simp: mbb_msg_queue_is_empty_def items_def split: option.splits)
  with pops_drain [OF assms(1,2) order_refl assms(3) [rule_format]] show ?thesis by fastforce
qed

theorem msg_queue_drains_witness:
  "\<exists>m' mq'. pops (\<lambda>s. 1) 7 (cf_mem conf1) (cf_mq conf1) = Some (m', mq', ''<kill/>'') \<and> mbb_msg_queue_is_empty mq'"
proof -
  have inv: "mq_inv conf1" using mq_step_inv [OF conf1_reach mq_start_inv [OF mem1_ok]] .
  moreover have "pending (cf_mem conf1) (items (cf_mq conf1)) = ''<kill/>''"
    using inv by (simp add: mq_inv_def conf1_def mq_start_def mbb_msg_queue_push_const_def mbb_msg_queue_push_entry_def mem1_def)
  moreover have "\<forall>s :: string. s \<noteq> [] \<longrightarrow> 0 < (1 :: gint) \<and> 1 \<le> int (length s)" by (auto simp: Suc_le_eq)
  moreover have "length ''<kill/>'' = 7" by simp
  ultimately show ?thesis
    using msg_queue_drains [of "cf_ext conf1" "cf_mem conf1" "cf_mq conf1" "\<lambda>s. 1"]
    by (auto simp: mq_inv_def simp del: list.size pops.simps)
qed

text \<open>Freeing a queue frees its entries and nothing else.\<close>

lemma free_entries_ok:
  assumes "mem_ok ext m" "distinct q" "set q \<subseteq> dom (mm_entry m)"
  shows "\<exists>m'. free_entries m q = Some m' \<and> mem_ok ext m' \<and>
     (\<forall>e. mm_entry m' e = (if e \<in> set q then None else mm_entry m e))"
  using assms
proof (induction q arbitrary: m)
  case (Cons e q)
  then obtain x where x: "mm_entry m e = Some x" by auto
  obtain m1 where m1: "msg_entry_free m e = Some m1" "mem_ok ext m1" "mm_entry m1 = (mm_entry m)(e := None)"
    using msg_entry_free_ok [OF Cons.prems(1) x] by blast
  have "set q \<subseteq> dom (mm_entry m1)" using Cons.prems m1(3) by auto
  with Cons.IH [OF m1(2)] Cons.prems(2) m1 show ?case by fastforce
qed simp

lemma mbb_msg_queue_free_ok:
  "mem_ok ext m \<Longrightarrow> queue_in m mq \<Longrightarrow> \<exists>m'. mbb_msg_queue_free m mq = Some m' \<and> mem_ok ext m' \<and>
     (\<forall>e. mm_entry m' e = (if e \<in> set (items mq) then None else mm_entry m e))"
  using free_entries_ok [of ext m "items mq"]
  by (auto simp: mbb_msg_queue_free_def items_def queue_in_def split: option.splits)

end
