(* ===== verification/Query.thy ===== *)
theory Query
  imports Mbb_Prelude "HOL-Library.Monad_Syntax"
begin

text \<open>
  The SQL text builders of \<open>mbbd/query.c\<close> and the quoting of connection parameters in
  \<open>mbbd/psql.c\<close>. A variable argument list is a list of typed values; reading a value of
  another type, or past the end, is undefined in C and \<open>None\<close> here. The escaping function
  of the database library and GLib's formatted output are parameters of the functions that
  call them. The builders write into a buffer of the thread and return it: the model
  returns the text, and \<open>query_format_full\<close>, the only builder that may continue the previous
  text, takes it as an argument.
\<close>

section \<open>Definitions\<close>

datatype va_arg = Va_Str "string option" | Va_Int gint | Va_Long int | Va_Uint64 guint64

type_synonym va_list = "va_arg list"
type_synonym escape_func = "(string \<Rightarrow> string option) option"
type_synonym vprintf_func = "string \<Rightarrow> va_list \<Rightarrow> string option"

fun va_str :: "va_list \<Rightarrow> (string option \<times> va_list) option" where
  "va_str (Va_Str s # va) = Some (s, va)"
| "va_str _ = None"

fun va_int :: "va_list \<Rightarrow> (gint \<times> va_list) option" where
  "va_int (Va_Int n # va) = Some (n, va)"
| "va_int _ = None"

fun va_long :: "va_list \<Rightarrow> (int \<times> va_list) option" where
  "va_long (Va_Long n # va) = Some (n, va)"
| "va_long _ = None"

fun va_uint64 :: "va_list \<Rightarrow> (guint64 \<times> va_list) option" where
  "va_uint64 (Va_Uint64 n # va) = Some (n, va)"
| "va_uint64 _ = None"

definition query_escape_text :: "escape_func \<Rightarrow> string \<Rightarrow> string" where
  "query_escape_text esc t =
     (case esc of None \<Rightarrow> t | Some f \<Rightarrow> (case f t of None \<Rightarrow> t | Some s \<Rightarrow> s))"

definition query_escape :: "escape_func \<Rightarrow> string \<Rightarrow> string" where
  "query_escape esc str = query_escape_text esc str"

text \<open>The loop over field names up to the NULL that ends them.\<close>

fun append_names :: "string \<Rightarrow> va_list \<Rightarrow> (string \<times> va_list) option" where
  "append_names buf (Va_Str None # va) = Some (buf, va)"
| "append_names buf (Va_Str (Some arg) # va) = append_names (buf @ '', '' @ arg) va"
| "append_names buf _ = None"

definition select_common :: "string option \<Rightarrow> va_list \<Rightarrow> (string \<times> va_list) option" where
  "select_common table va =
     do { (arg, va) \<leftarrow> va_str va;
          (buf, va) \<leftarrow> (case arg of
                         None \<Rightarrow> Some (''select *'', va)
                       | Some a \<Rightarrow> append_names (''select '' @ a) va);
          Some (case table of None \<Rightarrow> buf | Some t \<Rightarrow> buf @ '' from '' @ t, va) }"

definition query_select_full :: "string option \<Rightarrow> string option \<Rightarrow> va_list \<Rightarrow> string option" where
  "query_select_full table opt va =
     do { (buf, va) \<leftarrow> select_common table va;
          Some ((case opt of None \<Rightarrow> buf | Some w \<Rightarrow> buf @ '' where '' @ w) @ '';'') }"

definition query_select_ap :: "vprintf_func \<Rightarrow> string option \<Rightarrow> va_list \<Rightarrow> string option" where
  "query_select_ap vprintf table va =
     do { (buf, va) \<leftarrow> select_common table va;
          (fmt, va) \<leftarrow> va_str va;
          case fmt of
            None \<Rightarrow> Some (buf @ '';'')
          | Some f \<Rightarrow> do { w \<leftarrow> vprintf f va; Some (buf @ '' where '' @ w @ '';'') } }"

text \<open>The C string of one character: empty for the NUL character.\<close>

definition char_str :: "gint \<Rightarrow> string" where
  "char_str n = (if n mod 256 = 0 then [] else [char_of (nat (n mod 256))])"

definition quoted :: "escape_func \<Rightarrow> string option \<Rightarrow> string" where
  "quoted esc arg = (case arg of None \<Rightarrow> ''NULL'' | Some s \<Rightarrow> CHR 0x27 # query_escape_text esc s @ [CHR 0x27])"

definition qfmt :: "escape_func \<Rightarrow> string \<Rightarrow> char \<Rightarrow> va_list \<Rightarrow> (string \<times> bool \<times> va_list) option" where
  "qfmt esc buf fmt va =
     (if fmt = CHR ''S'' then do { (arg, va) \<leftarrow> va_str va; Some (buf @ (case arg of None \<Rightarrow> ''NULL'' | Some s \<Rightarrow> s), True, va) }
      else if fmt = CHR ''s'' then do { (arg, va) \<leftarrow> va_str va; Some (buf @ quoted esc arg, True, va) }
      else if fmt = CHR ''t'' then
        do { (t, va) \<leftarrow> va_long va; Some (buf @ (if t \<ge> 0 then dec_of_int t else ''NULL''), True, va) }
      else if fmt = CHR ''l'' then do { (n, va) \<leftarrow> va_long va; Some (buf @ dec_of_int n, True, va) }
      else if fmt = CHR ''q'' then do { (n, va) \<leftarrow> va_uint64 va; Some (buf @ dec_of_nat (unat n), True, va) }
      else if fmt = CHR ''d'' then do { (n, va) \<leftarrow> va_int va; Some (buf @ dec_of_int n, True, va) }
      else if fmt = CHR ''c'' then do { (n, va) \<leftarrow> va_int va; Some (buf @ quoted esc (Some (char_str n)), True, va) }
      else if fmt = CHR ''b'' then do { (n, va) \<leftarrow> va_int va; Some (buf @ (if n \<noteq> 0 then ''true'' else ''false''), True, va) }
      else Some (buf, False, va))"

text \<open>
  The format of \<open>buf_append_arg\<close> is a pointer to a string: \<open>None\<close> when the pointer is NULL,
  \<open>Some None\<close> when the string is. Without a format the arguments are strings up to NULL;
  without the pointer, one string that may be NULL.
\<close>

definition buf_append_arg ::
  "escape_func \<Rightarrow> string \<Rightarrow> string option option \<Rightarrow> va_list \<Rightarrow> string option
     \<Rightarrow> (string \<times> string option option \<times> va_list \<times> bool) option" where
  "buf_append_arg esc buf pp va str =
     (let sep = (case str of None \<Rightarrow> [] | Some s \<Rightarrow> s)
      in case pp of
           Some (Some fmt) \<Rightarrow>
             (case fmt of
                [] \<Rightarrow> Some (buf, pp, va, False)
              | c # fmt \<Rightarrow> do { (buf, _, va) \<leftarrow> qfmt esc (buf @ sep) c va; Some (buf, Some (Some fmt), va, True) })
         | _ \<Rightarrow>
             do { (arg, va) \<leftarrow> va_str va;
                  if pp \<noteq> None \<and> arg = None then Some (buf, pp, va, False)
                  else Some (buf @ sep @ quoted esc arg, pp, va, True) })"

text \<open>The condition of the loops: \<open>buf_append_arg\<close> until it returns FALSE.\<close>

lemma va_str_shorter: "va_str va = Some (s, va') \<Longrightarrow> length va = Suc (length va')"
  by (cases va rule: va_str.cases) auto

lemma qfmt_shorter: "qfmt esc buf c va = Some (buf', r, va') \<Longrightarrow> length va' \<le> length va"
  by (cases va) (auto simp: qfmt_def split: if_splits bind_splits elim!: va_str.elims va_int.elims va_long.elims va_uint64.elims)

definition pp_length :: "string option option \<Rightarrow> nat" where
  "pp_length pp = (case pp of Some (Some fmt) \<Rightarrow> length fmt | _ \<Rightarrow> 0)"

lemma buf_append_arg_shorter:
  "buf_append_arg esc buf pp va str = Some (buf', pp', va', True) \<Longrightarrow>
     length va' + pp_length pp' < length va + pp_length pp"
  by (auto simp: buf_append_arg_def pp_length_def Let_def split: option.splits list.splits bind_splits if_splits
    dest: va_str_shorter qfmt_shorter)

function append_args ::
  "escape_func \<Rightarrow> string \<Rightarrow> string option option \<Rightarrow> va_list \<Rightarrow> string option \<Rightarrow> (string \<times> va_list) option" where
  "append_args esc buf pp va str =
     (case buf_append_arg esc buf pp va str of
        None \<Rightarrow> None
      | Some (buf, pp, va, r) \<Rightarrow> if r then append_args esc buf pp va (Some '', '') else Some (buf, va))"
  by pat_completeness auto
termination
  by (relation "measure (\<lambda>(_, _, pp, va, _). length va + pp_length pp)") (auto dest: buf_append_arg_shorter)

declare append_args.simps [simp del]

definition query_insert_full :: "escape_func \<Rightarrow> string \<Rightarrow> string option \<Rightarrow> va_list \<Rightarrow> string option" where
  "query_insert_full esc table fmt va =
     do { let buf = ''insert into '' @ table @ '' '';
          (arg, va) \<leftarrow> va_str va;
          (buf, va) \<leftarrow> (case arg of
                         None \<Rightarrow> Some (buf, va)
                       | Some a \<Rightarrow> do { (buf, va) \<leftarrow> append_names (buf @ ''('' @ a) va; Some (buf @ '') '', va) });
          (buf, va) \<leftarrow> append_args esc (buf @ ''values ('') (Some fmt) va None;
          Some (buf @ '');'') }"

text \<open>The loop of \<open>query_insert_ap\<close> alternates a field name and its value; two buffers grow together.\<close>

function insert_loop ::
  "escape_func \<Rightarrow> string \<Rightarrow> string \<Rightarrow> string option \<Rightarrow> va_list \<Rightarrow> string option \<Rightarrow> (string \<times> string) option" where
  "insert_loop esc buf values fmt va comma =
     (if fmt = Some [] then Some (buf, values)
      else
        (case va_str va of
           None \<Rightarrow> None
         | Some (None, va) \<Rightarrow> Some (buf, values)
         | Some (Some arg, va) \<Rightarrow>
             (let buf = buf @ (case comma of None \<Rightarrow> [] | Some c \<Rightarrow> c) @ arg
              in case buf_append_arg esc values (Some fmt) va comma of
                   None \<Rightarrow> None
                 | Some (values, pp, va, r) \<Rightarrow>
                     if \<not> r then Some (buf, values)
                     else (case pp of
                             None \<Rightarrow> None
                           | Some fmt \<Rightarrow> insert_loop esc buf values fmt va (Some '', '')))))"
  by pat_completeness auto
termination
  by (relation "measure (\<lambda>(_, _, _, fmt, va, _). length va + pp_length (Some fmt))")
    (auto dest!: buf_append_arg_shorter va_str_shorter)

declare insert_loop.simps [simp del]

definition query_insert_ap :: "escape_func \<Rightarrow> string \<Rightarrow> string option \<Rightarrow> string option \<Rightarrow> va_list \<Rightarrow> string option" where
  "query_insert_ap esc table field fmt va =
     do { (buf, values) \<leftarrow> insert_loop esc (''insert into '' @ table @ '' ('') [] fmt va None;
          Some (buf @ '') values ('' @ values @ '')'' @ (case field of None \<Rightarrow> '';'' | Some f \<Rightarrow> '' returning '' @ f @ '';'')) }"

definition query_delete_init :: "string \<Rightarrow> string" where
  "query_delete_init table = ''delete from '' @ table"

definition query_delete :: "string \<Rightarrow> string option \<Rightarrow> string" where
  "query_delete table opt =
     query_delete_init table @ (case opt of None \<Rightarrow> [] | Some w \<Rightarrow> '' where '' @ w) @ '';''"

definition query_delete_ap :: "vprintf_func \<Rightarrow> string \<Rightarrow> string option \<Rightarrow> va_list \<Rightarrow> string option" where
  "query_delete_ap vprintf table fmt va =
     (case fmt of
        None \<Rightarrow> Some (query_delete_init table @ '';'')
      | Some f \<Rightarrow> do { w \<leftarrow> vprintf f va; Some (query_delete_init table @ '' where '' @ w @ '';'') })"

lemma buf_append_arg_le:
  "buf_append_arg esc buf pp va str = Some (buf', pp', va', r) \<Longrightarrow> length va' \<le> length va"
  by (auto simp: buf_append_arg_def Let_def split: option.splits list.splits bind_splits if_splits
    dest: va_str_shorter qfmt_shorter)

text \<open>The endless loop of \<open>update_common\<close>, left at the end of the format or of the names.\<close>

function update_loop ::
  "escape_func \<Rightarrow> string \<Rightarrow> string option option \<Rightarrow> va_list \<Rightarrow> (string \<times> va_list) option" where
  "update_loop esc buf pp va =
     (case buf_append_arg esc buf pp va None of
        None \<Rightarrow> None
      | Some (buf, pp, va', r) \<Rightarrow>
          if pp = Some (Some []) then Some (buf, va')
          else (case va_str va' of
                  None \<Rightarrow> None
                | Some (None, va'') \<Rightarrow> Some (buf, va'')
                | Some (Some arg, va'') \<Rightarrow> update_loop esc (buf @ '', '' @ arg @ '' = '') pp va''))"
  by pat_completeness auto

termination
  by (relation "measure (\<lambda>(_, _, _, va). length va)") (auto dest!: buf_append_arg_le va_str_shorter)

declare update_loop.simps [simp del]

definition update_common :: "escape_func \<Rightarrow> string \<Rightarrow> string option \<Rightarrow> string \<Rightarrow> va_list \<Rightarrow> (string \<times> va_list) option" where
  "update_common esc table fmt name va =
     (let pp = (case fmt of None \<Rightarrow> None | Some f \<Rightarrow> Some (Some f))
      in update_loop esc (''update '' @ table @ '' set '' @ name @ '' = '') pp va)"

definition query_update_full ::
  "escape_func \<Rightarrow> string \<Rightarrow> string option \<Rightarrow> string option \<Rightarrow> string \<Rightarrow> va_list \<Rightarrow> string option" where
  "query_update_full esc table fmt opt name va =
     do { (buf, va) \<leftarrow> update_common esc table fmt name va;
          Some ((case opt of None \<Rightarrow> buf | Some w \<Rightarrow> buf @ '' where '' @ w) @ '';'') }"

definition query_update_ap ::
  "vprintf_func \<Rightarrow> escape_func \<Rightarrow> string \<Rightarrow> string option \<Rightarrow> string \<Rightarrow> va_list \<Rightarrow> string option" where
  "query_update_ap vprintf esc table fmt name va =
     do { (buf, va) \<leftarrow> update_common esc table fmt name va;
          (arg, va) \<leftarrow> va_str va;
          case arg of
            None \<Rightarrow> Some (buf @ '';'')
          | Some f \<Rightarrow> do { w \<leftarrow> vprintf f va; Some (buf @ '' where '' @ w @ '';'') } }"

definition query_function_ap :: "escape_func \<Rightarrow> string \<Rightarrow> string option \<Rightarrow> va_list \<Rightarrow> string option" where
  "query_function_ap esc func_name fmt va =
     do { (buf, va) \<leftarrow> append_args esc (''select '' @ func_name @ ''('') (Some fmt) va None;
          Some (buf @ '');'') }"

definition query_function :: "escape_func \<Rightarrow> string \<Rightarrow> string option \<Rightarrow> va_list \<Rightarrow> string option" where
  "query_function esc func_name fmt va = query_function_ap esc func_name fmt va"

fun format_loop :: "escape_func \<Rightarrow> string \<Rightarrow> string \<Rightarrow> va_list \<Rightarrow> string option" where
  "format_loop esc buf [] va = Some buf"
| "format_loop esc buf (c # fmt) va =
     (if c \<noteq> CHR ''%'' then format_loop esc (buf @ [c]) fmt va
      else (case fmt of
              [] \<Rightarrow> Some buf
            | d # fmt' \<Rightarrow>
                if d = CHR ''%'' then format_loop esc (buf @ ''%'') fmt' va
                else do { (buf, _, va) \<leftarrow> qfmt esc buf d va; format_loop esc buf fmt' va }))"

definition query_format_full :: "escape_func \<Rightarrow> string \<Rightarrow> bool \<Rightarrow> string option \<Rightarrow> va_list \<Rightarrow> string option" where
  "query_format_full esc buf app fmt va =
     (let buf = (if app then buf else [])
      in case fmt of None \<Rightarrow> Some buf | Some f \<Rightarrow> format_loop esc buf f va)"

subsection \<open>Connection parameters\<close>

fun append_escaped :: "string \<Rightarrow> string \<Rightarrow> string" where
  "append_escaped s [] = s"
| "append_escaped s (c # p) =
     append_escaped (s @ (if c = CHR 0x5C \<or> c = CHR 0x27 then [CHR 0x5C, c] else [c])) p"

definition append_key_value :: "string \<Rightarrow> string \<Rightarrow> string option \<Rightarrow> string" where
  "append_key_value s key v =
     (case v of
        None \<Rightarrow> s
      | Some v \<Rightarrow>
          append_escaped ((if length s \<noteq> 0 then s @ '' '' else s) @ key @ '' = '' @ [CHR 0x27]) v @ [CHR 0x27])"

section \<open>The shape of the statements\<close>

fun join :: "string list \<Rightarrow> string" where
  "join [] = []"
| "join [s] = s"
| "join (s # ss) = s @ '', '' @ join ss"

text \<open>A format character and an argument that give the text \<open>s\<close>.\<close>

definition renders :: "escape_func \<Rightarrow> char \<Rightarrow> va_arg \<Rightarrow> string \<Rightarrow> bool" where
  "renders esc c a s \<longleftrightarrow> qfmt esc [] c [a] = Some (s, True, [])"

lemma qfmt_renders: "renders esc c a s \<Longrightarrow> qfmt esc buf c (a # va) = Some (buf @ s, True, va)"
  by (cases a) (auto simp: renders_def qfmt_def split: if_splits)

text \<open>A column: its name, its format character, its argument and its text.\<close>

type_synonym column = "string \<times> char \<times> va_arg \<times> string"

definition names :: "column list \<Rightarrow> string list" where "names xs = map (\<lambda>(n, c, a, s). n) xs"
definition codes :: "column list \<Rightarrow> string" where "codes xs = map (\<lambda>(n, c, a, s). c) xs"
definition args :: "column list \<Rightarrow> va_list" where "args xs = map (\<lambda>(n, c, a, s). a) xs"
definition texts :: "column list \<Rightarrow> string list" where "texts xs = map (\<lambda>(n, c, a, s). s) xs"
definition pairs :: "column list \<Rightarrow> va_list" where
  "pairs xs = concat (map (\<lambda>(n, c, a, s). [Va_Str (Some n), a]) xs)"
definition columns_ok :: "escape_func \<Rightarrow> column list \<Rightarrow> bool" where
  "columns_ok esc xs \<longleftrightarrow> (\<forall>(n, c, a, s) \<in> set xs. renders esc c a s)"

lemmas column_defs = names_def codes_def args_def texts_def pairs_def columns_ok_def

definition prefixed :: "string list \<Rightarrow> string" where
  "prefixed ss = concat (map (\<lambda>s. '', '' @ s) ss)"

lemma join_Cons: "join (s # ss) = s @ prefixed ss"
  by (induction ss arbitrary: s) (simp_all add: prefixed_def)

lemma buf_append_fmt:
  "renders esc c a s \<Longrightarrow> buf_append_arg esc buf (Some (Some (c # fmt))) (a # va) str =
     Some (buf @ (case str of None \<Rightarrow> [] | Some p \<Rightarrow> p) @ s, Some (Some fmt), va, True)"
  by (cases str) (simp_all add: buf_append_arg_def qfmt_renders)

lemma append_args_rest:
  "columns_ok esc xs \<Longrightarrow> append_args esc buf (Some (Some (codes xs))) (args xs @ va) (Some '', '') =
     Some (buf @ prefixed (texts xs), va)"
proof (induction xs arbitrary: buf)
  case Nil
  then show ?case by (simp add: append_args.simps buf_append_arg_def column_defs prefixed_def)
next
  case (Cons x xs)
  obtain n c a s where x: "x = (n, c, a, s)" by (cases x)
  with Cons.prems have r: "renders esc c a s" by (simp add: columns_ok_def)
  from Cons show ?case
    by (subst append_args.simps) (simp add: x column_defs buf_append_fmt [OF r] prefixed_def)
qed

lemma append_args_all:
  "columns_ok esc xs \<Longrightarrow> append_args esc buf (Some (Some (codes xs))) (args xs @ va) None =
     Some (buf @ join (texts xs), va)"
proof (cases xs)
  case Nil
  then show ?thesis by (simp add: append_args.simps buf_append_arg_def column_defs)
next
  case (Cons x xs')
  assume ok: "columns_ok esc xs"
  obtain n c a s where x: "x = (n, c, a, s)" by (cases x)
  with ok Cons have r: "renders esc c a s" by (simp add: columns_ok_def)
  from ok Cons append_args_rest [of esc xs' "buf @ s" va] show ?thesis
    by (subst append_args.simps) (simp add: x column_defs buf_append_fmt [OF r] join_Cons)
qed

lemma insert_loop_rest:
  "columns_ok esc xs \<Longrightarrow> insert_loop esc buf vs (Some (codes xs)) (pairs xs @ va) (Some '', '') =
     Some (buf @ prefixed (names xs), vs @ prefixed (texts xs))"
proof (induction xs arbitrary: buf vs)
  case Nil
  then show ?case by (simp add: insert_loop.simps column_defs prefixed_def)
next
  case (Cons x xs)
  obtain n c a s where x: "x = (n, c, a, s)" by (cases x)
  with Cons.prems have r: "renders esc c a s" by (simp add: columns_ok_def)
  from Cons show ?case
    by (subst insert_loop.simps) (simp add: x column_defs buf_append_fmt [OF r] prefixed_def Let_def)
qed

lemma insert_loop_all:
  assumes ok: "columns_ok esc (x # xs)"
  shows "insert_loop esc buf [] (Some (codes (x # xs))) (pairs (x # xs) @ va) None =
     Some (buf @ join (names (x # xs)), join (texts (x # xs)))"
proof -
  obtain n c a s where x: "x = (n, c, a, s)" by (cases x)
  with ok have r: "renders esc c a s" by (simp add: columns_ok_def)
  from ok insert_loop_rest [of esc xs "buf @ n" s va] show ?thesis
    by (subst insert_loop.simps) (simp add: x column_defs buf_append_fmt [OF r] join_Cons Let_def)
qed

definition assignments :: "column list \<Rightarrow> string list" where
  "assignments xs = map (\<lambda>(n, c, a, s). n @ '' = '' @ s) xs"

lemma update_loop_all:
  "columns_ok esc ((n, c, a, s) # xs) \<Longrightarrow>
     update_loop esc buf (Some (Some (c # codes xs))) (a # pairs xs @ va) = Some (buf @ s @ prefixed (assignments xs), va)"
proof (induction xs arbitrary: buf n c a s)
  case Nil
  then have r: "renders esc c a s" by (simp add: columns_ok_def)
  then show ?case
    by (subst update_loop.simps) (simp add: column_defs buf_append_fmt [OF r] prefixed_def assignments_def)
next
  case (Cons x xs)
  obtain n' c' a' s' where x: "x = (n', c', a', s')" by (cases x)
  from Cons.prems have r: "renders esc c a s" by (simp add: columns_ok_def)
  from Cons.IH [of n' c' a' s' "buf @ s @ '', '' @ n' @ '' = ''"] Cons.prems show ?case
    by (subst update_loop.simps) (simp add: x column_defs buf_append_fmt [OF r] prefixed_def assignments_def)
qed

text \<open>
  C34. With a format that fits the arguments, an insert statement lists every column name and
  every value in the order given, one value per column; an update assigns to every column
  its value; a function call passes all values. The values are those of the format
  characters, and nothing of the arguments is skipped or used twice.
\<close>

theorem query_statements:
  assumes ok: "columns_ok esc ((n, c, a, s) # xs)"
  shows "query_insert_ap esc table field (Some (codes ((n, c, a, s) # xs))) (pairs ((n, c, a, s) # xs) @ va) =
       Some (''insert into '' @ table @ '' ('' @ join (names ((n, c, a, s) # xs)) @ '') values ('' @
         join (texts ((n, c, a, s) # xs)) @ '')'' @ (case field of None \<Rightarrow> '';'' | Some f \<Rightarrow> '' returning '' @ f @ '';'')) \<and>
     query_update_full esc table (Some (codes ((n, c, a, s) # xs))) opt n (a # pairs xs @ va) =
       Some (''update '' @ table @ '' set '' @ join (assignments ((n, c, a, s) # xs)) @
         (case opt of None \<Rightarrow> [] | Some w \<Rightarrow> '' where '' @ w) @ '';'') \<and>
     query_function_ap esc func (Some (codes ((n, c, a, s) # xs))) (args ((n, c, a, s) # xs) @ va) =
       Some (''select '' @ func @ ''('' @ join (texts ((n, c, a, s) # xs)) @ '');'')"
proof (intro conjI)
  show "query_insert_ap esc table field (Some (codes ((n, c, a, s) # xs))) (pairs ((n, c, a, s) # xs) @ va) =
       Some (''insert into '' @ table @ '' ('' @ join (names ((n, c, a, s) # xs)) @ '') values ('' @
         join (texts ((n, c, a, s) # xs)) @ '')'' @ (case field of None \<Rightarrow> '';'' | Some f \<Rightarrow> '' returning '' @ f @ '';''))"
    by (simp add: query_insert_ap_def insert_loop_all [OF ok])
  have "codes ((n, c, a, s) # xs) = c # codes xs" by (simp add: codes_def)
  then show "query_update_full esc table (Some (codes ((n, c, a, s) # xs))) opt n (a # pairs xs @ va) =
       Some (''update '' @ table @ '' set '' @ join (assignments ((n, c, a, s) # xs)) @
         (case opt of None \<Rightarrow> [] | Some w \<Rightarrow> '' where '' @ w) @ '';'')"
    by (cases opt) (simp_all add: query_update_full_def update_common_def update_loop_all [OF ok] assignments_def join_Cons)
  show "query_function_ap esc func (Some (codes ((n, c, a, s) # xs))) (args ((n, c, a, s) # xs) @ va) =
       Some (''select '' @ func @ ''('' @ join (texts ((n, c, a, s) # xs)) @ '');'')"
    by (simp add: query_function_ap_def append_args_all [OF ok])
qed

theorem query_statements_witness:
  "query_insert_ap None ''units'' (Some ''unit_id'') (Some ''ds'') [Va_Str (Some ''id''), Va_Int 7, Va_Str (Some ''name''), Va_Str None] =
     Some ''insert into units (id, name) values (7, NULL) returning unit_id;''"
proof -
  have "columns_ok None [(''id'', CHR ''d'', Va_Int 7, ''7''), (''name'', CHR ''s'', Va_Str None, ''NULL'')]"
    by (simp add: columns_ok_def renders_def qfmt_def quoted_def dec_of_int_def) code_simp
  from query_statements [OF this, of "''units''" "Some ''unit_id''" "[]"] show ?thesis
    by (simp add: column_defs)
qed

section \<open>Quoting\<close>

text \<open>How the database reads a string constant after its opening quote.\<close>

fun sql_scan :: "string \<Rightarrow> (string \<times> string) option" where
  "sql_scan [] = None"
| "sql_scan (c # s) =
     (if c = CHR 0x27
      then (case s of
              [] \<Rightarrow> Some ([], [])
            | d # s' \<Rightarrow> if d = CHR 0x27 then map_option (\<lambda>(v, r). (CHR 0x27 # v, r)) (sql_scan s') else Some ([], s))
      else map_option (\<lambda>(v, r). (c # v, r)) (sql_scan s))"

text \<open>What the escaping function of the database library does: quotes are doubled.\<close>

definition double_quotes :: "string \<Rightarrow> string" where
  "double_quotes s = concat (map (\<lambda>c. if c = CHR 0x27 then [CHR 0x27, CHR 0x27] else [c]) s)"

lemma sql_scan_doubled:
  "peek r \<noteq> CHR 0x27 \<Longrightarrow> sql_scan (double_quotes s @ CHR 0x27 # r) = Some (s, r)"
  by (induction s) (auto simp: double_quotes_def split: list.splits)

text \<open>How the database library reads a quoted parameter value after its opening quote.\<close>

fun conninfo_scan :: "string \<Rightarrow> (string \<times> string) option" where
  "conninfo_scan [] = None"
| "conninfo_scan [c] = (if c = CHR 0x27 then Some ([], []) else None)"
| "conninfo_scan (c # d # s) =
     (if c = CHR 0x27 then Some ([], d # s)
      else if c = CHR 0x5C then map_option (\<lambda>(v, r). (d # v, r)) (conninfo_scan s)
      else map_option (\<lambda>(v, r). (c # v, r)) (conninfo_scan (d # s)))"

lemma append_escaped_eq:
  "append_escaped t s = t @ concat (map (\<lambda>c. if c = CHR 0x5C \<or> c = CHR 0x27 then [CHR 0x5C, c] else [c]) s)"
  by (induction t s rule: append_escaped.induct) simp_all

lemma conninfo_scan_char:
  "c \<noteq> CHR 0x27 \<Longrightarrow> c \<noteq> CHR 0x5C \<Longrightarrow> conninfo_scan (c # s) = map_option (\<lambda>(v, r). (c # v, r)) (conninfo_scan s)"
  by (cases s) simp_all

lemma conninfo_scan_escaped: "conninfo_scan (append_escaped [] s @ CHR 0x27 # r) = Some (s, r)"
  unfolding append_escaped_eq
proof (induction s)
  case Nil
  then show ?case by (cases r) simp_all
next
  case (Cons c s)
  then show ?case by (auto simp: conninfo_scan_char)
qed



end
