(* ===== verification/Var_Conv.thy ===== *)
theory Var_Conv
  imports Inet "HOL-Library.Monad_Syntax"
begin

text \<open>
  Conversion between the text of the protocol's arguments and values: \<open>lib/strconv.c\<close> and
  \<open>mbbd/varconv.c\<close>. The C library's number parser is written out as the C standard gives
  it; the calendar functions, the Unicode tables and the regular expression compiler are
  parameters. A conversion that reports failure is \<open>None\<close>; the destination is then
  unspecified, except for \<open>var_conv_dir\<close> and \<open>var_conv_dup\<close>, which write a copy only on success.
\<close>

section \<open>Definitions\<close>

subsection \<open>Numbers\<close>

definition G_MAXINT64 :: int where "G_MAXINT64 = 2 ^ 63 - 1"
definition G_MININT64 :: int where "G_MININT64 = - (2 ^ 63)"
definition G_MAXUINT64 :: nat where "G_MAXUINT64 = 2 ^ 64 - 1"
definition G_MAXLONG :: nat where "G_MAXLONG = 2 ^ 63 - 1"

definition ascii_isspace :: "char \<Rightarrow> bool" where
  "ascii_isspace c \<longleftrightarrow> c = CHR '' '' \<or> 9 \<le> (of_char c :: nat) \<and> (of_char c :: nat) \<le> 13"

text \<open>
  \<open>strtoll\<close> and \<open>strtoull\<close> in base 10: the value, the rest of the string (the whole string when
  there is no number) and whether the value was out of range.
\<close>

definition ascii_strtoll :: "string \<Rightarrow> int \<times> string \<times> bool" where
  "ascii_strtoll str =
     (let s = dropWhile ascii_isspace str;
          neg = (peek s = CHR ''-'');
          s = (if peek s = CHR ''-'' \<or> peek s = CHR ''+'' then drop 1 s else s);
          ds = takeWhile ascii_isdigit s;
          n = int (dec_value 0 ds);
          r = drop (length ds) s
      in if ds = [] then (0, str, False)
         else if neg then (if - n < G_MININT64 then (G_MININT64, r, True) else (- n, r, False))
         else (if n > G_MAXINT64 then (G_MAXINT64, r, True) else (n, r, False)))"

text \<open>The unsigned parser, for strings that start with a digit.\<close>

definition ascii_strtoull :: "string \<Rightarrow> nat \<times> string \<times> bool" where
  "ascii_strtoull str =
     (let ds = takeWhile ascii_isdigit str;
          n = dec_value 0 ds;
          r = drop (length ds) str
      in if ds = [] then (0, str, False)
         else if n > G_MAXUINT64 then (G_MAXUINT64, r, True) else (n, r, False))"

datatype StrConvError =
  STR_CONV_ERROR_OVERFLOW | STR_CONV_ERROR_INVALID_BASE | STR_CONV_ERROR_FAIL | STR_CONV_ERROR_EXTRA_SYMBOLS

definition str_conv_to_int64 :: "string \<Rightarrow> StrConvError + int" where
  "str_conv_to_int64 str =
     (case ascii_strtoll str of (val, endptr, erange) \<Rightarrow>
        if (val = G_MAXINT64 \<or> val = G_MININT64) \<and> erange then Inl STR_CONV_ERROR_OVERFLOW
        else if val = 0 \<and> endptr = str then Inl STR_CONV_ERROR_FAIL
        else if peek endptr \<noteq> CHR 0x00 then Inl STR_CONV_ERROR_EXTRA_SYMBOLS
        else Inr val)"

definition str_conv_to_uint64 :: "string \<Rightarrow> StrConvError + nat" where
  "str_conv_to_uint64 str =
     (if \<not> ascii_isdigit (peek str) then Inl STR_CONV_ERROR_FAIL
      else case ascii_strtoull str of (val, endptr, erange) \<Rightarrow>
        if val = G_MAXUINT64 \<and> erange then Inl STR_CONV_ERROR_OVERFLOW
        else if val = 0 \<and> endptr = str then Inl STR_CONV_ERROR_FAIL
        else if peek endptr \<noteq> CHR 0x00 then Inl STR_CONV_ERROR_EXTRA_SYMBOLS
        else Inr val)"

text \<open>\<open>g_ascii_digit_value\<close> is negative for a character that is not a digit.\<close>

fun mask_loop :: "guint32 \<Rightarrow> string \<Rightarrow> guint32 option" where
  "mask_loop mk [] = Some mk"
| "mask_loop mk (c # p) =
     (if \<not> ascii_isdigit c \<or> ascii_digit_value c > 1 then None
      else mask_loop (push_bit 1 mk OR of_nat (ascii_digit_value c)) p)"

definition str_conv_to_mask :: "string \<Rightarrow> StrConvError + guint32" where
  "str_conv_to_mask str = (case mask_loop 0 str of None \<Rightarrow> Inl STR_CONV_ERROR_FAIL | Some mk \<Rightarrow> Inr mk)"

subsection \<open>Arguments\<close>

definition var_conv_str :: "string \<Rightarrow> string option" where
  "var_conv_str arg = Some arg"

definition var_conv_dir :: "string \<Rightarrow> string option" where
  "var_conv_dir arg =
     (if length arg = 0 then None
      else if peek arg \<noteq> CHR ''/'' \<or> length arg > 1 \<and> last arg \<noteq> CHR ''/'' then None
      else Some arg)"

text \<open>\<open>utf8\<close> yields the code points of a string.\<close>

definition var_conv_legal :: "(string \<Rightarrow> guint32 list) \<Rightarrow> (guint32 \<Rightarrow> bool) \<Rightarrow> string \<Rightarrow> string option" where
  "var_conv_legal utf8 unichar_isalnum arg = (if list_all unichar_isalnum (utf8 arg) then Some arg else None)"

definition var_conv_dup :: "string \<Rightarrow> string option" where
  "var_conv_dup arg = Some arg"

definition var_conv_int :: "string \<Rightarrow> gint option" where
  "var_conv_int arg =
     (case str_conv_to_int64 arg of
        Inl _ \<Rightarrow> None
      | Inr v \<Rightarrow>
          (let val = to_gint v
           in if val > 2 ^ 31 - 1 \<or> val < - (2 ^ 31) then None else Some val))"

definition var_conv_uint :: "string \<Rightarrow> guint32 option" where
  "var_conv_uint arg =
     (case str_conv_to_uint64 arg of
        Inl _ \<Rightarrow> None
      | Inr v \<Rightarrow> (let val = (of_nat v :: guint32) in if unat val > 2 ^ 32 - 1 then None else Some val))"

definition var_conv_utime :: "string \<Rightarrow> time_t option" where
  "var_conv_utime arg =
     (case str_conv_to_uint64 arg of
        Inl _ \<Rightarrow> None
      | Inr val \<Rightarrow> if val > G_MAXLONG then None else Some (int val))"

record tm =
  tm_mday :: int
  tm_mon :: int
  tm_year :: int
  tm_hour :: int
  tm_min :: int
  tm_sec :: int
  tm_isdst :: int

definition dtformats :: "string list" where
  "dtformats = [''%Y-%m-%d %H:%M:%S'', ''%Y-%m-%d %H:%M'', ''%Y-%m-%d %H'', ''%Y-%m-%d'', ''%Y-%m'', ''%Y'']"

definition tm0 :: tm where
  "tm0 = \<lparr>tm_mday = 0, tm_mon = 0, tm_year = 0, tm_hour = 0, tm_min = 0, tm_sec = 0, tm_isdst = 0\<rparr>"

text \<open>The calendar of the C library and of GLib.\<close>

record calendar =
  cal_now :: time_t
  cal_strptime :: "string \<Rightarrow> string \<Rightarrow> tm \<Rightarrow> (tm \<times> string) option"
  cal_date_valid_dmy :: "int \<Rightarrow> int \<Rightarrow> int \<Rightarrow> bool"
  cal_mktime :: "tm \<Rightarrow> time_t"

fun format_search :: "calendar \<Rightarrow> string \<Rightarrow> string list \<Rightarrow> tm option" where
  "format_search cal str [] = None"
| "format_search cal str (fmt # fmts) =
     (case cal_strptime cal str fmt tm0 of
        Some (tm, []) \<Rightarrow> Some tm
      | _ \<Rightarrow> format_search cal str fmts)"

definition var_conv_time :: "calendar \<Rightarrow> string \<Rightarrow> time_t option" where
  "var_conv_time cal str =
     (if str = ''now'' then Some (cal_now cal)
      else
        do { tm \<leftarrow> format_search cal str dtformats;
             let tm = (if tm_mday tm = 0 then tm\<lparr>tm_mday := 1\<rparr> else tm);
             if \<not> cal_date_valid_dmy cal (tm_mday tm) (tm_mon tm + 1) (tm_year tm + 1900) then None
             else Some (cal_mktime cal (tm\<lparr>tm_isdst := - 1\<rparr>)) })"

definition VAR_CONV_TIME_PARENT :: time_t where "VAR_CONV_TIME_PARENT = - 1"
definition VAR_CONV_TIME_NULL :: time_t where "VAR_CONV_TIME_NULL = 0"

definition var_conv_etime :: "calendar \<Rightarrow> string \<Rightarrow> time_t option" where
  "var_conv_etime cal str =
     (if str = ''parent'' then Some VAR_CONV_TIME_PARENT
      else if str = ''null'' \<or> str = ''inf'' then Some VAR_CONV_TIME_NULL
      else var_conv_time cal str)"

definition var_conv_bool :: "string \<Rightarrow> bool option" where
  "var_conv_bool arg = (if arg = ''true'' then Some True else if arg = ''false'' then Some False else None)"

definition var_conv_inet :: "string \<Rightarrow> inet option" where
  "var_conv_inet arg = atoinet arg"

definition var_conv_ipv4 :: "string \<Rightarrow> ipv4_t option" where
  "var_conv_ipv4 arg = (case atoipv4 arg of None \<Rightarrow> None | Some i \<Rightarrow> Some (addr i))"

definition var_conv_regex :: "(string \<Rightarrow> 're option) \<Rightarrow> string \<Rightarrow> 're option" where
  "var_conv_regex re_new arg = (case re_new arg of None \<Rightarrow> None | Some re \<Rightarrow> Some re)"

definition var_str_str :: "string option \<Rightarrow> string" where
  "var_str_str s = (case s of None \<Rightarrow> ''(dummy)'' | Some t \<Rightarrow> t)"

definition var_str_int :: "gint \<Rightarrow> string" where
  "var_str_int n = dec_of_int n"

definition var_str_uint :: "guint32 \<Rightarrow> string" where
  "var_str_uint n = dec_of_nat (unat n)"

definition var_str_bool :: "bool \<Rightarrow> string" where
  "var_str_bool b = (if b then ''true'' else ''false'')"

definition var_str_inet :: "inet \<Rightarrow> string" where
  "var_str_inet i = inettoa i"

definition var_str_ipv4 :: "ipv4_t \<Rightarrow> string" where
  "var_str_ipv4 ip = ipv4toa ip"

section \<open>Numbers\<close>

lemma isdigit_space: "ascii_isdigit c \<Longrightarrow> \<not> ascii_isspace c" "\<not> ascii_isspace (CHR ''-'')"
  by (auto simp: ascii_isdigit_def ascii_isspace_def)

lemma takeWhile_all_digits: "list_all ascii_isdigit ds \<Longrightarrow> takeWhile ascii_isdigit ds = ds"
  by (simp add: list_all_iff)

text \<open>What a well-formed unsigned and signed number is.\<close>

definition number :: "string \<Rightarrow> bool" where
  "number ds \<longleftrightarrow> ds \<noteq> [] \<and> list_all ascii_isdigit ds"

lemma number_dec [simp]: "number (dec_of_nat n)"
  unfolding number_def list_all_iff by (blast intro: dec_of_nat_digits dec_of_nat_nonempty [THEN notE])

lemma isdigit_nz: "ascii_isdigit c \<Longrightarrow> c \<noteq> CHR 0x00"
  by (auto simp: ascii_isdigit_def)

lemma peek_drop_digits:
  assumes "\<forall>c \<in> set s. c \<noteq> CHR 0x00"
  shows "peek (drop (length (takeWhile ascii_isdigit s)) s) = CHR 0x00 \<longleftrightarrow> list_all ascii_isdigit s"
proof -
  have "drop (length (takeWhile ascii_isdigit s)) s = dropWhile ascii_isdigit s" by (rule dropWhile_eq_drop [symmetric])
  moreover have "peek (dropWhile ascii_isdigit s) = CHR 0x00 \<longleftrightarrow> dropWhile ascii_isdigit s = []"
  proof (cases "dropWhile ascii_isdigit s")
    case (Cons c r)
    then have "c \<in> set s" using set_dropWhileD [of c ascii_isdigit s] by simp
    with assms Cons show ?thesis by auto
  next
    case Nil
    show ?thesis unfolding Nil by simp
  qed
  ultimately show ?thesis by (simp add: dropWhile_eq_Nil_conv list_all_iff)
qed

lemma strtoull_number:
  "number ds \<Longrightarrow> ascii_strtoull ds =
     (if dec_value 0 ds > G_MAXUINT64 then (G_MAXUINT64, [], True) else (dec_value 0 ds, [], False))"
  by (simp add: ascii_strtoull_def number_def Let_def takeWhile_all_digits)

text \<open>An unsigned number is accepted when it consists of digits and fits 64 bits.\<close>

lemma str_conv_to_uint64_iff:
  assumes nz: "\<forall>c \<in> set str. c \<noteq> CHR 0x00"
  shows "str_conv_to_uint64 str =
     (if \<not> ascii_isdigit (peek str) then Inl STR_CONV_ERROR_FAIL
      else if dec_value 0 (takeWhile ascii_isdigit str) > G_MAXUINT64 then Inl STR_CONV_ERROR_OVERFLOW
      else if \<not> list_all ascii_isdigit str then Inl STR_CONV_ERROR_EXTRA_SYMBOLS
      else Inr (dec_value 0 str))"
proof (cases "ascii_isdigit (peek str)")
  case True
  then obtain c s where str: "str = c # s" "ascii_isdigit c" by (cases str) auto
  then have tw: "takeWhile ascii_isdigit str \<noteq> []" by simp
  have "length (drop (length (takeWhile ascii_isdigit str)) str) < length str" using str by simp
  then have dr: "drop (length (takeWhile ascii_isdigit str)) str \<noteq> str" by (metis less_irrefl)
  have "list_all ascii_isdigit str \<Longrightarrow> dec_value 0 (takeWhile ascii_isdigit str) = dec_value 0 str"
    by (simp add: takeWhile_all_digits)
  with True tw dr peek_drop_digits [OF nz] show ?thesis
    by (simp add: str_conv_to_uint64_def ascii_strtoull_def Let_def)
qed (simp add: str_conv_to_uint64_def)

lemma strtoll_parts:
  assumes ws: "list_all ascii_isspace ws" and sg: "sg = [] \<or> sg = ''-'' \<or> sg = ''+''"
    and ds: "number ds" and r: "\<not> ascii_isdigit (peek r)"
  shows "ascii_strtoll (ws @ sg @ ds @ r) =
     (let n = (if sg = ''-'' then - int (dec_value 0 ds) else int (dec_value 0 ds))
      in if n < G_MININT64 then (G_MININT64, r, True) else if n > G_MAXINT64 then (G_MAXINT64, r, True) else (n, r, False))"
proof -
  obtain c cs where c: "ds = c # cs" "ascii_isdigit c" using ds by (cases ds) (auto simp: number_def)
  have nd: "c \<noteq> CHR ''-''" "c \<noteq> CHR ''+''" using c(2) by (auto simp: ascii_isdigit_def)
  have "\<not> ascii_isspace (peek (sg @ ds @ r))" using sg c isdigit_space by (auto simp: ascii_isspace_def)
  then have "dropWhile ascii_isspace (sg @ ds @ r) = sg @ ds @ r" using sg c by auto
  then have dw: "dropWhile ascii_isspace (ws @ sg @ ds @ r) = sg @ ds @ r"
    using ws by (simp add: dropWhile_append2 list_all_iff)
  have tw: "takeWhile ascii_isdigit (ds @ r) = ds"
    using ds r by (cases r) (simp_all add: number_def list_all_iff takeWhile_append2)
  have pk: "peek (ds @ r) = c" "ds \<noteq> []" using c by simp_all
  have pos: "G_MININT64 \<le> 0" "0 \<le> G_MAXINT64" by (simp_all add: G_MININT64_def G_MAXINT64_def)
  have neg: "\<not> int k < G_MININT64" "\<not> - int k > G_MAXINT64" for k using pos by linarith+
  from sg dw show ?thesis
    by (elim disjE) (simp_all add: ascii_strtoll_def Let_def tw pk nd neg)
qed

lemma str_conv_to_int64_parts:
  assumes ws: "list_all ascii_isspace ws" and sg: "sg = [] \<or> sg = ''-'' \<or> sg = ''+''"
    and ds: "number ds" and r: "\<not> ascii_isdigit (peek r)" "\<forall>c \<in> set r. c \<noteq> CHR 0x00"
  shows "str_conv_to_int64 (ws @ sg @ ds @ r) =
     (let n = (if sg = ''-'' then - int (dec_value 0 ds) else int (dec_value 0 ds))
      in if n < G_MININT64 \<or> n > G_MAXINT64 then Inl STR_CONV_ERROR_OVERFLOW
         else if r \<noteq> [] then Inl STR_CONV_ERROR_EXTRA_SYMBOLS else Inr n)"
proof -
  have "r \<noteq> ws @ sg @ ds @ r" using ds by (auto simp: number_def dest: arg_cong [where f = length])
  moreover have "peek r = CHR 0x00 \<longleftrightarrow> r = []" using r(2) by (cases r) auto
  ultimately show ?thesis
    unfolding str_conv_to_int64_def strtoll_parts [OF ws sg ds r(1)] by (auto simp: Let_def)
qed

lemma str_conv_dec_of_int:
  assumes "G_MININT64 \<le> n" "n \<le> G_MAXINT64"
  shows "str_conv_to_int64 (dec_of_int n) = Inr n"
proof (cases "n < 0")
  case True
  with str_conv_to_int64_parts [of "[]" "''-''" "dec_of_nat (nat (- n))" "[]"] assms show ?thesis
    by (simp add: dec_of_int_def Let_def)
next
  case False
  with str_conv_to_int64_parts [of "[]" "[]" "dec_of_nat (nat n)" "[]"] assms show ?thesis
    by (simp add: dec_of_int_def Let_def)
qed

lemma var_conv_int_dec:
  assumes "G_MININT64 \<le> n" "n \<le> G_MAXINT64"
  shows "var_conv_int (dec_of_int n) = Some (to_gint n)"
  using signed_take_bit_int_less_exp [of 31 n] signed_take_bit_int_greater_eq_minus_exp [of 31 n]
  by (simp add: var_conv_int_def str_conv_dec_of_int [OF assms] to_gint_def)

lemma var_conv_uint_dec: "n \<le> G_MAXUINT64 \<Longrightarrow> var_conv_uint (dec_of_nat n) = Some (of_nat n)"
proof -
  assume n: "n \<le> G_MAXUINT64"
  have "list_all ascii_isdigit (dec_of_nat n)" using number_dec by (simp add: number_def)
  moreover have "\<forall>c \<in> set (dec_of_nat n). c \<noteq> CHR 0x00" using dec_of_nat_digits isdigit_nz by blast
  moreover have "ascii_isdigit (peek (dec_of_nat n))" using peek_dec_of_nat_isdigit [of n "[]"] by simp
  ultimately have "str_conv_to_uint64 (dec_of_nat n) = Inr n"
    using n by (simp add: str_conv_to_uint64_iff takeWhile_all_digits not_less)
  then show ?thesis
    using unsigned_less [of "of_nat n :: guint32", where ?'a = nat] by (simp add: var_conv_uint_def Let_def)
qed

text \<open>
  C36. The values of the protocol survive printing and parsing: booleans, addresses,
  networks with a mask of at most 32, and integers of 32 bits. An integer beyond 32 bits
  is not refused but truncated, signed or unsigned, as long as it fits 64 bits.
\<close>

theorem var_round_trips:
  "var_conv_bool (var_str_bool b) = Some b \<and> var_conv_ipv4 (var_str_ipv4 ip) = Some ip \<and>
   (mask i \<le> 32 \<longrightarrow> var_conv_inet (var_str_inet i) = Some i) \<and>
   (- (2 ^ 31) \<le> n \<and> n < 2 ^ 31 \<longrightarrow> var_conv_int (var_str_int n) = Some n) \<and>
   var_conv_uint (var_str_uint u) = Some u \<and>
   (G_MININT64 \<le> k \<and> k \<le> G_MAXINT64 \<longrightarrow> var_conv_int (dec_of_int k) = Some (to_gint k)) \<and>
   (l \<le> G_MAXUINT64 \<longrightarrow> var_conv_uint (dec_of_nat l) = Some (of_nat l))"
proof (intro conjI impI)
  show "var_conv_bool (var_str_bool b) = Some b" by (simp add: var_conv_bool_def var_str_bool_def)
  show "var_conv_ipv4 (var_str_ipv4 ip) = Some ip"
    using strtoipv4_ipv4toa [of "[]" ip] by (simp add: var_conv_ipv4_def var_str_ipv4_def atoipv4_def)
  show "var_conv_inet (var_str_inet i) = Some i" if "mask i \<le> 32"
    using atoinet_inettoa [OF that] by (simp add: var_conv_inet_def var_str_inet_def)
  show "var_conv_int (var_str_int n) = Some n" if "- (2 ^ 31) \<le> n \<and> n < 2 ^ 31"
    using var_conv_int_dec [of n] that by (simp add: var_str_int_def G_MININT64_def G_MAXINT64_def)
  have "unat u \<le> G_MAXUINT64"
    using unsigned_less [of u, where ?'a = nat] by (simp add: G_MAXUINT64_def)
  then show "var_conv_uint (var_str_uint u) = Some u" using var_conv_uint_dec [of "unat u"] by (simp add: var_str_uint_def)
qed (use var_conv_int_dec var_conv_uint_dec in auto)

theorem var_round_trips_witness:
  "var_conv_int (dec_of_int (2 ^ 32 + 1)) = Some 1 \<and> var_conv_inet (var_str_inet \<lparr>addr = 1, mask = 8\<rparr>) = Some \<lparr>addr = 1, mask = 8\<rparr>"
  using var_round_trips [of _ _ "\<lparr>addr = 1, mask = 8\<rparr>" _ _ "2 ^ 32 + 1"]
  by (simp add: G_MININT64_def G_MAXINT64_def to_gint_def signed_take_bit_def)

text \<open>The value of a string of binary digits.\<close>

definition bin_value :: "nat \<Rightarrow> string \<Rightarrow> nat" where
  "bin_value acc s = foldl (\<lambda>n c. 2 * n + (if c = CHR ''1'' then 1 else 0)) acc s"

lemma bin_digit: "\<not> (\<not> ascii_isdigit c \<or> ascii_digit_value c > 1) \<longleftrightarrow> c = CHR ''0'' \<or> c = CHR ''1''"
proof
  assume "\<not> (\<not> ascii_isdigit c \<or> ascii_digit_value c > 1)"
  then have "of_char c = (48 :: nat) \<or> of_char c = (49 :: nat)" by (auto simp: ascii_isdigit_def ascii_digit_value_def)
  then have "of_char c = (of_char (CHR ''0'') :: nat) \<or> of_char c = (of_char (CHR ''1'') :: nat)" by simp
  then show "c = CHR ''0'' \<or> c = CHR ''1''" by (simp only: of_char_eq_iff)
qed (auto simp: ascii_isdigit_def ascii_digit_value_def)

lemma push_or: "push_bit 1 (of_nat n :: guint32) OR of_nat b = of_nat (2 * n + b)" if "b \<le> 1" for n b
proof -
  have "b = 0 \<or> b = 1" using that by linarith
  moreover have "push_bit 1 (of_nat n :: guint32) OR 1 = 2 * of_nat n + 1"
    by (simp add: or_one_eq push_bit_double)
  ultimately show ?thesis by (auto simp: push_bit_double)
qed

lemma mask_loop_bits:
  "mask_loop (of_nat n) s =
     (if set s \<subseteq> {CHR ''0'', CHR ''1''} then Some (of_nat (bin_value n s)) else None)"
proof (induction s arbitrary: n)
  case (Cons c s)
  show ?case
  proof (cases "c = CHR ''0'' \<or> c = CHR ''1''")
    case True
    then have d: "ascii_digit_value c \<le> 1" "ascii_digit_value c = (if c = CHR ''1'' then 1 else 0)"
      by (auto simp: ascii_digit_value_def)
    have "mask_loop (of_nat n) (c # s) = mask_loop (of_nat (2 * n + ascii_digit_value c)) s"
      using True bin_digit [of c] by (simp only: mask_loop.simps push_or [OF d(1)] if_False simp_thms)
    with True d(2) show ?thesis by (simp only: Cons.IH) (simp add: bin_value_def)
  next
    case False
    with bin_digit [of c] show ?thesis by auto
  qed
qed (simp add: bin_value_def)

text \<open>
  C37. The number parsers report what is wrong: after optional white space and a sign, a
  64 bit value out of range is an overflow, characters after the digits are extra symbols,
  and otherwise the value is returned; the unsigned parser accepts no space and no sign; a
  bit mask is accepted exactly when it consists of zeros and ones, and its value is taken
  modulo $2^{32}$.
\<close>

theorem str_conv_errors:
  assumes ws: "list_all ascii_isspace ws" and sg: "sg = [] \<or> sg = ''-'' \<or> sg = ''+''"
    and ds: "number ds" and r: "\<not> ascii_isdigit (peek r)" "\<forall>c \<in> set r. c \<noteq> CHR 0x00"
  shows "str_conv_to_int64 (ws @ sg @ ds @ r) =
       (let n = (if sg = ''-'' then - int (dec_value 0 ds) else int (dec_value 0 ds))
        in if n < G_MININT64 \<or> n > G_MAXINT64 then Inl STR_CONV_ERROR_OVERFLOW
           else if r \<noteq> [] then Inl STR_CONV_ERROR_EXTRA_SYMBOLS else Inr n) \<and>
     str_conv_to_uint64 (ws @ sg @ ds @ r) =
       (if ws \<noteq> [] \<or> sg \<noteq> [] then Inl STR_CONV_ERROR_FAIL
        else if dec_value 0 ds > G_MAXUINT64 then Inl STR_CONV_ERROR_OVERFLOW
        else if r \<noteq> [] then Inl STR_CONV_ERROR_EXTRA_SYMBOLS else Inr (dec_value 0 ds)) \<and>
     str_conv_to_mask s =
       (if set s \<subseteq> {CHR ''0'', CHR ''1''} then Inr (of_nat (bin_value 0 s)) else Inl STR_CONV_ERROR_FAIL)"
proof (intro conjI)
  have first: "ascii_isdigit (peek (ws @ sg @ ds @ r)) \<longleftrightarrow> ws = [] \<and> sg = []"
    using ws sg ds isdigit_space by (cases ws; cases ds) (auto simp: number_def ascii_isdigit_def ascii_isspace_def)
  have tw: "takeWhile ascii_isdigit (ds @ r) = ds" "list_all ascii_isdigit (ds @ r) \<longleftrightarrow> r = []"
    using ds r(1) by (cases r; auto simp: number_def list_all_iff takeWhile_append2)+
  have nz: "\<forall>c \<in> set (ds @ r). c \<noteq> CHR 0x00"
    using ds r(2) isdigit_nz by (auto simp: number_def list_all_iff)
  show "str_conv_to_uint64 (ws @ sg @ ds @ r) =
       (if ws \<noteq> [] \<or> sg \<noteq> [] then Inl STR_CONV_ERROR_FAIL
        else if dec_value 0 ds > G_MAXUINT64 then Inl STR_CONV_ERROR_OVERFLOW
        else if r \<noteq> [] then Inl STR_CONV_ERROR_EXTRA_SYMBOLS else Inr (dec_value 0 ds))"
  proof (cases "ws = [] \<and> sg = []")
    case True
    with first str_conv_to_uint64_iff [OF nz] tw show ?thesis by auto
  next
    case False
    with first show ?thesis by (auto simp: str_conv_to_uint64_def)
  qed
  show "str_conv_to_mask s =
       (if set s \<subseteq> {CHR ''0'', CHR ''1''} then Inr (of_nat (bin_value 0 s)) else Inl STR_CONV_ERROR_FAIL)"
    using mask_loop_bits [of 0 s] by (simp add: str_conv_to_mask_def)
qed (rule str_conv_to_int64_parts [OF ws sg ds r])

theorem str_conv_errors_witness:
  "str_conv_to_int64 '' -12x'' = Inl STR_CONV_ERROR_EXTRA_SYMBOLS"
  using str_conv_errors [of "'' ''" "''-''" "''12''" "''x''"]
  by (simp add: ascii_isspace_def number_def ascii_isdigit_def ascii_digit_value_def G_MININT64_def G_MAXINT64_def Let_def)

end
