(* ===== verification/Xml_Tag.thy ===== *)
theory Xml_Tag
  imports Mbb_Prelude "HOL-Library.Monad_Syntax" "HOL-Library.AList" "HOL-Library.Multiset"
begin

text \<open>
  Typed values, \<open>lib/variant.c\<close>, and the trees of requests and answers, \<open>lib/xmltag.c\<close>. A tag
  keeps its attributes and its children in hash tables, the children of one name in a
  chain. The tables are association lists with distinct keys, whose order stands for the
  unspecified order of a hash table; a table that was never created is empty. A chain is
  the list of its tags. Escaping of markup and the decoding of UTF-8 are GLib's and
  parameters here.
\<close>

section \<open>Definitions\<close>

subsection \<open>Values\<close>

text \<open>A pointer comes with an optional conversion to text; a string may be NULL.\<close>

datatype variant =
  VARIANT_INT gint
| VARIANT_LONG int
| VARIANT_STRING "string option"
| VARIANT_STATIC_STRING "string option"
| VARIANT_POINTER gpointer "(gpointer \<Rightarrow> string option) option"

definition variant_new_int :: "gint \<Rightarrow> variant" where "variant_new_int value = VARIANT_INT value"
definition variant_new_long :: "int \<Rightarrow> variant" where "variant_new_long value = VARIANT_LONG value"
definition variant_new_string :: "string option \<Rightarrow> variant" where "variant_new_string str = VARIANT_STRING str"
definition variant_new_alloc_string :: "string option \<Rightarrow> variant" where "variant_new_alloc_string str = VARIANT_STRING str"
definition variant_new_static_string :: "string option \<Rightarrow> variant" where
  "variant_new_static_string str = VARIANT_STATIC_STRING str"
definition variant_new_pointer :: "gpointer \<Rightarrow> (gpointer \<Rightarrow> string option) option \<Rightarrow> variant" where
  "variant_new_pointer data convert = VARIANT_POINTER data convert"

definition variant_is_int :: "variant \<Rightarrow> bool" where
  "variant_is_int var = (case var of VARIANT_INT _ \<Rightarrow> True | _ \<Rightarrow> False)"
definition variant_is_long :: "variant \<Rightarrow> bool" where
  "variant_is_long var = (case var of VARIANT_LONG _ \<Rightarrow> True | _ \<Rightarrow> False)"
definition variant_is_string :: "variant \<Rightarrow> bool" where
  "variant_is_string var = (case var of VARIANT_STRING _ \<Rightarrow> True | VARIANT_STATIC_STRING _ \<Rightarrow> True | _ \<Rightarrow> False)"
definition variant_is_pointer :: "variant \<Rightarrow> bool" where
  "variant_is_pointer var = (case var of VARIANT_POINTER _ _ \<Rightarrow> True | _ \<Rightarrow> False)"

definition variant_get_int :: "variant \<Rightarrow> gint" where
  "variant_get_int var = (case var of VARIANT_INT n \<Rightarrow> n | _ \<Rightarrow> 0)"
definition variant_get_long :: "variant \<Rightarrow> int" where
  "variant_get_long var = (case var of VARIANT_LONG n \<Rightarrow> n | VARIANT_INT n \<Rightarrow> n | _ \<Rightarrow> 0)"
definition variant_get_string :: "variant \<Rightarrow> string option" where
  "variant_get_string var = (case var of VARIANT_STRING s \<Rightarrow> s | VARIANT_STATIC_STRING s \<Rightarrow> s | _ \<Rightarrow> None)"
definition variant_get_pointer :: "variant \<Rightarrow> gpointer" where
  "variant_get_pointer var = (case var of VARIANT_POINTER p _ \<Rightarrow> p | _ \<Rightarrow> 0)"

definition variant_to_string :: "variant \<Rightarrow> string option" where
  "variant_to_string var =
     (case var of
        VARIANT_INT n \<Rightarrow> Some (dec_of_int n)
      | VARIANT_LONG n \<Rightarrow> Some (dec_of_int n)
      | VARIANT_STRING s \<Rightarrow> s
      | VARIANT_STATIC_STRING s \<Rightarrow> s
      | VARIANT_POINTER p None \<Rightarrow> None
      | VARIANT_POINTER p (Some convert) \<Rightarrow> convert p)"

subsection \<open>Tags\<close>

datatype xml_tag =
  Xml_Tag (xt_name: string) (xt_attrs: "(string \<times> variant) list") (xt_body: "variant option")
    (xt_childs: "(string \<times> xml_tag list) list")

definition set_childs :: "xml_tag \<Rightarrow> (string \<times> xml_tag list) list \<Rightarrow> xml_tag" where
  "set_childs tag cs = Xml_Tag (xt_name tag) (xt_attrs tag) (xt_body tag) cs"

definition xml_tag_set_attr :: "xml_tag \<Rightarrow> string \<Rightarrow> variant \<Rightarrow> xml_tag" where
  "xml_tag_set_attr tag opt_name var =
     Xml_Tag (xt_name tag) (AList.update opt_name var (xt_attrs tag)) (xt_body tag) (xt_childs tag)"

definition xml_tag_get_attr :: "xml_tag \<Rightarrow> string \<Rightarrow> variant option" where
  "xml_tag_get_attr tag opt_name = map_of (xt_attrs tag) opt_name"

text \<open>\<open>xml_tag_new\<close> takes attribute names and values up to NULL and then the body.\<close>

definition xml_tag_new :: "string \<Rightarrow> (string \<times> variant) list \<Rightarrow> variant option \<Rightarrow> xml_tag" where
  "xml_tag_new name args body =
     (let tag = foldl (\<lambda>tag (arg, v). xml_tag_set_attr tag arg v) (Xml_Tag name [] None []) args
      in Xml_Tag (xt_name tag) (xt_attrs tag) body (xt_childs tag))"

text \<open>The chain of a name is its first tag with the tags that follow.\<close>

definition xml_tag_get_child :: "xml_tag \<Rightarrow> string \<Rightarrow> xml_tag list" where
  "xml_tag_get_child tag name = (case map_of (xt_childs tag) name of None \<Rightarrow> [] | Some chain \<Rightarrow> chain)"

definition xml_tag_set_body :: "xml_tag \<Rightarrow> variant option \<Rightarrow> xml_tag" where
  "xml_tag_set_body tag var = Xml_Tag (xt_name tag) (xt_attrs tag) var (xt_childs tag)"

definition xml_tag_get_body :: "xml_tag \<Rightarrow> variant option" where
  "xml_tag_get_body tag = xt_body tag"

definition xml_tag_add_child :: "xml_tag \<Rightarrow> xml_tag \<Rightarrow> xml_tag" where
  "xml_tag_add_child tag child =
     (case xml_tag_get_child tag (xt_name child) of
        [] \<Rightarrow> set_childs tag (AList.update (xt_name child) [child] (xt_childs tag))
      | prev # chain \<Rightarrow> set_childs tag (AList.update (xt_name child) (prev # child # chain) (xt_childs tag)))"

text \<open>The loop of \<open>xml_tag_reorder\<close> moves each further tag to the place after the first.\<close>

fun reorder_loop :: "xml_tag \<Rightarrow> xml_tag list \<Rightarrow> xml_tag list \<Rightarrow> xml_tag list" where
  "reorder_loop tag after [] = tag # after"
| "reorder_loop tag after (xt # next) = reorder_loop tag (xt # after) next"

definition xml_tag_reorder :: "xml_tag list \<Rightarrow> xml_tag list" where
  "xml_tag_reorder chain =
     (case chain of
        tag # xt # next # more \<Rightarrow> reorder_loop tag [xt] (next # more)
      | _ \<Rightarrow> chain)"

lemma size_childs [termination_simp]:
  assumes "(name, chain) \<in> set (xt_childs tag)"
  shows "size_list size chain < size tag"
proof -
  have "size_list size chain < Suc (size_list (size_prod (\<lambda>_. 0) (size_list size)) cs)"
    if "(name, chain) \<in> set cs" for cs :: "(string \<times> xml_tag list) list"
    using that by (induction cs) auto
  from this [OF assms] show ?thesis by (cases tag) auto
qed

text \<open>\<open>xml_tag_reorder_all\<close> descends into the children of the first tag of the chain only.\<close>

fun xml_tag_reorder_all :: "xml_tag list \<Rightarrow> xml_tag list" where
  "xml_tag_reorder_all [] = []"
| "xml_tag_reorder_all (tag # chain) =
     xml_tag_reorder (set_childs tag (map (\<lambda>(name, xt). (name, xml_tag_reorder_all xt)) (xt_childs tag)) # chain)"

subsection \<open>Sorting\<close>

type_synonym 'a compare_func = "'a \<Rightarrow> 'a \<Rightarrow> gint"

fun xml_tag_sort_merge :: "'a compare_func \<Rightarrow> 'a list \<Rightarrow> 'a list \<Rightarrow> 'a list" where
  "xml_tag_sort_merge cmp (x # xt1) (y # xt2) =
     (if cmp x y \<le> 0 then x # xml_tag_sort_merge cmp xt1 (y # xt2) else y # xml_tag_sort_merge cmp (x # xt1) xt2)"
| "xml_tag_sort_merge cmp xt1 [] = xt1"
| "xml_tag_sort_merge cmp [] xt2 = xt2"

text \<open>
  The two pointers that look for the middle: the first advances once for each two steps of
  the second; the argument holds the tags after the second.
\<close>

fun sort_mid :: "nat \<Rightarrow> 'a list \<Rightarrow> nat" where
  "sort_mid n (_ # _ # xt2) = sort_mid (Suc n) xt2"
| "sort_mid n _ = n"

lemma sort_mid_eq: "sort_mid n xs = n + length xs div 2"
  by (induction n xs rule: sort_mid.induct) auto

function xml_tag_sort_real :: "'a compare_func \<Rightarrow> 'a list \<Rightarrow> 'a list" where
  "xml_tag_sort_real cmp tag =
     (case tag of
        [] \<Rightarrow> []
      | [x] \<Rightarrow> [x]
      | x # y # after \<Rightarrow>
          let mid = Suc (sort_mid 0 after)
          in xml_tag_sort_merge cmp (xml_tag_sort_real cmp (take mid tag)) (xml_tag_sort_real cmp (drop mid tag)))"
  by pat_completeness auto
termination
  by (relation "measure (\<lambda>(_, xs). length xs)") (auto simp: sort_mid_eq)

declare xml_tag_sort_real.simps [simp del]

definition xml_tag_sort_with_data :: "xml_tag \<Rightarrow> string \<Rightarrow> xml_tag compare_func \<Rightarrow> xml_tag" where
  "xml_tag_sort_with_data tag name cmp =
     (case xml_tag_get_child tag name of
        [] \<Rightarrow> tag
      | chain \<Rightarrow> set_childs tag (AList.update name (xml_tag_sort_real cmp chain) (xt_childs tag)))"

definition xml_tag_sort :: "xml_tag \<Rightarrow> string \<Rightarrow> xml_tag compare_func \<Rightarrow> xml_tag" where
  "xml_tag_sort tag name cmp = xml_tag_sort_with_data tag name cmp"

text \<open>\<open>strcmp\<close> compares bytes; only the sign of the result is used. \<open>g_strcmp0\<close> puts NULL first.\<close>

fun strcmp :: "string \<Rightarrow> string \<Rightarrow> gint" where
  "strcmp [] [] = 0"
| "strcmp [] (_ # _) = -1"
| "strcmp (_ # _) [] = 1"
| "strcmp (c # s) (d # t) =
     (if (of_char c :: nat) < of_char d then -1 else if (of_char d :: nat) < of_char c then 1 else strcmp s t)"

definition g_strcmp0 :: "string option \<Rightarrow> string option \<Rightarrow> gint" where
  "g_strcmp0 s t = (case (s, t) of
      (None, None) \<Rightarrow> 0 | (None, Some _) \<Rightarrow> -1 | (Some _, None) \<Rightarrow> 1 | (Some a, Some b) \<Rightarrow> strcmp a b)"

definition xml_tag_attr_cmp :: "string \<Rightarrow> xml_tag compare_func" where
  "xml_tag_attr_cmp attr xt1 xt2 =
     (case xml_tag_get_attr xt1 attr of
        None \<Rightarrow> if xml_tag_get_attr xt2 attr \<noteq> None then -1 else 0
      | Some v1 \<Rightarrow>
          (case xml_tag_get_attr xt2 attr of
             None \<Rightarrow> 1
           | Some v2 \<Rightarrow> g_strcmp0 (variant_get_string v1) (variant_get_string v2)))"

definition xml_tag_sort_by_attr :: "xml_tag \<Rightarrow> string \<Rightarrow> string \<Rightarrow> xml_tag" where
  "xml_tag_sort_by_attr tag name attr = xml_tag_sort_with_data tag name (xml_tag_attr_cmp attr)"

subsection \<open>Output\<close>

text \<open>The escaping function is GLib's; \<open>None\<close> prints values as they are.\<close>

definition xml_tag_process_attr :: "(string \<Rightarrow> string) option \<Rightarrow> string \<times> variant \<Rightarrow> string" where
  "xml_tag_process_attr esc = (\<lambda>(opt_name, var).
     (case variant_to_string var of
        None \<Rightarrow> []
      | Some v \<Rightarrow>
          '' '' @ opt_name @ ''='' @ [CHR 0x27] @ (case esc of None \<Rightarrow> v | Some e \<Rightarrow> e v) @ [CHR 0x27]))"

fun xml_tag_process :: "(string \<Rightarrow> string) option \<Rightarrow> xml_tag \<Rightarrow> string" where
  "xml_tag_process esc (Xml_Tag name attrs body childs) =
     ''<'' @ name @ concat (map (xml_tag_process_attr esc) attrs) @
     (if body = None \<and> childs = [] then ''/>''
      else
        ''>'' @
        (case body of
           None \<Rightarrow> []
         | Some var \<Rightarrow>
             (case variant_to_string var of
                None \<Rightarrow> []
              | Some v \<Rightarrow> (case esc of None \<Rightarrow> v | Some e \<Rightarrow> e v))) @
        concat (map (\<lambda>(key, chain). concat (map (xml_tag_process esc) chain)) childs) @
        ''</'' @ name @ ''>'')"

definition xml_tag_to_string_common :: "(string \<Rightarrow> string) option \<Rightarrow> xml_tag list \<Rightarrow> string" where
  "xml_tag_to_string_common esc chain = concat (map (xml_tag_process esc) chain)"

definition xml_tag_to_string :: "xml_tag list \<Rightarrow> string" where
  "xml_tag_to_string chain = xml_tag_to_string_common None chain"

definition xml_tag_to_string_escape :: "(string \<Rightarrow> string) \<Rightarrow> xml_tag list \<Rightarrow> string" where
  "xml_tag_to_string_escape escape_text chain = xml_tag_to_string_common (Some escape_text) chain"

definition get_xml_tag_source :: "string \<Rightarrow> string \<Rightarrow> gint \<Rightarrow> xml_tag" where
  "get_xml_tag_source file func line =
     xml_tag_new ''source''
       [(''file'', variant_new_static_string (Some file)), (''func'', variant_new_static_string (Some func)),
        (''line'', variant_new_int line)] None"

subsection \<open>JSON\<close>

text \<open>
  GLib's view of a string: its code points and the bytes of a code point. Code points
  below 128 are the characters themselves.
\<close>

record utf8 =
  u_chars :: "string \<Rightarrow> nat list"
  u_encode :: "nat \<Rightarrow> string"

fun hex_of_nat :: "nat \<Rightarrow> string" where
  "hex_of_nat n =
     (if n < 16 then [if n < 10 then digit_char n else char_of (87 + n)]
      else hex_of_nat (n div 16) @ [if n mod 16 < 10 then digit_char (n mod 16) else char_of (87 + n mod 16)])"

declare hex_of_nat.simps [simp del]

definition escape_chars :: "nat list" where "escape_chars = [92, 47, 34, 8, 12, 10, 13, 9]"
definition escape_pchars :: string where
  "escape_pchars = [CHR 0x5C, CHR ''/'', CHR 0x22, CHR ''b'', CHR ''f'', CHR ''n'', CHR ''r'', CHR ''t'']"

definition json_char :: "utf8 \<Rightarrow> nat \<Rightarrow> string" where
  "json_char u uc =
     (if uc \<ge> 128 then u_encode u uc
      else
        (case map_of (zip escape_chars escape_pchars) uc of
           Some c \<Rightarrow> [CHR 0x5C, c]
         | None \<Rightarrow> if uc < 32 then [CHR 0x5C, CHR ''u''] @ hex_of_nat uc else u_encode u uc))"

definition json_escape :: "utf8 \<Rightarrow> string \<Rightarrow> string \<Rightarrow> string" where
  "json_escape u str s = s @ [CHR 0x22] @ concat (map (json_char u) (u_chars u str)) @ [CHR 0x22]"

text \<open>A separator, unless an object has just been opened.\<close>

definition json_sep :: "string \<Rightarrow> string" where
  "json_sep s = (if last s \<noteq> CHR 0x7B then s @ '','' else s)"

definition xml_tag_to_json_add_attr :: "utf8 \<Rightarrow> string \<Rightarrow> string \<times> variant \<Rightarrow> string" where
  "xml_tag_to_json_add_attr u s = (\<lambda>(key, var).
     (case variant_to_string var of
        None \<Rightarrow> s
      | Some v \<Rightarrow> json_escape u v (json_escape u key (json_sep s) @ '':'')))"

fun xml_tag_to_json_add_tag :: "utf8 \<Rightarrow> string \<Rightarrow> xml_tag \<Rightarrow> string"
  and xml_tag_to_json_add :: "utf8 \<Rightarrow> string \<Rightarrow> (string \<times> xml_tag list) list \<Rightarrow> string"
  and json_chain :: "utf8 \<Rightarrow> string \<Rightarrow> xml_tag list \<Rightarrow> string" where
  "xml_tag_to_json_add_tag u s (Xml_Tag name attrs body childs) =
     xml_tag_to_json_add u (foldl (xml_tag_to_json_add_attr u) (s @ [CHR 0x7B]) attrs) childs @ [CHR 0x7D]"
| "xml_tag_to_json_add u s [] = s"
| "xml_tag_to_json_add u s ((name, chain) # childs) =
     xml_tag_to_json_add u (json_chain u (json_escape u name (json_sep s) @ '':['') chain @ '']'') childs"
| "json_chain u s [] = s"
| "json_chain u s (tag # chain) =
     json_chain u (xml_tag_to_json_add_tag u s tag @ (if chain \<noteq> [] then '','' else [])) chain"

definition xml_tag_to_json :: "utf8 \<Rightarrow> xml_tag \<Rightarrow> string" where
  "xml_tag_to_json u tag = xml_tag_to_json_add_tag u [] tag"

subsection \<open>Paths and values\<close>

text \<open>\<open>g_strsplit\<close> with a one-character delimiter; the empty string has no parts.\<close>

fun split_char :: "char \<Rightarrow> string \<Rightarrow> string list" where
  "split_char d [] = [[]]"
| "split_char d (c # s) =
     (if c = d then [] # split_char d s
      else (case split_char d s of p # ps \<Rightarrow> (c # p) # ps | [] \<Rightarrow> [[c]]))"

definition g_strsplit :: "string \<Rightarrow> char \<Rightarrow> string list" where
  "g_strsplit s d = (if s = [] then [] else split_char d s)"

fun path_loop :: "xml_tag \<Rightarrow> string list \<Rightarrow> xml_tag option" where
  "path_loop child [] = Some child"
| "path_loop child (name # names) =
     (case xml_tag_get_child child name of [] \<Rightarrow> None | c # _ \<Rightarrow> path_loop c names)"

definition xml_tag_path :: "xml_tag \<Rightarrow> string option \<Rightarrow> xml_tag option" where
  "xml_tag_path tag path =
     (case path of None \<Rightarrow> Some tag | Some p \<Rightarrow> path_loop tag (g_strsplit p (CHR ''/'')))"

fun xml_tag_path_walk :: "(xml_tag \<Rightarrow> 'a option) \<Rightarrow> 'a list \<Rightarrow> xml_tag \<Rightarrow> string list \<Rightarrow> 'a list" where
  "xml_tag_path_walk func l tag [] = (case func tag of None \<Rightarrow> l | Some ptr \<Rightarrow> ptr # l)"
| "xml_tag_path_walk func l tag (name # names) =
     foldl (\<lambda>l child. xml_tag_path_walk func l child names) l (xml_tag_get_child tag name)"

definition xml_tag_path_go :: "(xml_tag \<Rightarrow> 'a option) \<Rightarrow> xml_tag \<Rightarrow> string \<Rightarrow> 'a list" where
  "xml_tag_path_go func tag path = xml_tag_path_walk func [] tag (g_strsplit path (CHR ''/''))"

definition xml_tag_path_list :: "xml_tag \<Rightarrow> string \<Rightarrow> xml_tag list" where
  "xml_tag_path_list tag path = xml_tag_path_go Some tag path"

definition xml_tag_path_attr :: "xml_tag \<Rightarrow> string option \<Rightarrow> string \<Rightarrow> variant option" where
  "xml_tag_path_attr tag path attr = do { child \<leftarrow> xml_tag_path tag path; xml_tag_get_attr child attr }"

definition xml_tag_path_attr_list :: "xml_tag \<Rightarrow> string \<Rightarrow> string \<Rightarrow> variant list" where
  "xml_tag_path_attr_list tag path attr = xml_tag_path_go (\<lambda>t. xml_tag_get_attr t attr) tag path"

definition xml_tag_path_body :: "xml_tag \<Rightarrow> string option \<Rightarrow> variant option" where
  "xml_tag_path_body tag path = do { child \<leftarrow> xml_tag_path tag path; xml_tag_get_body child }"

definition xml_tag_path_body_list :: "xml_tag \<Rightarrow> string \<Rightarrow> variant list" where
  "xml_tag_path_body_list tag path = xml_tag_path_go xml_tag_get_body tag path"

text \<open>
  Reading the arguments of a request. A variable tells where its text is and how to
  convert it; without a conversion the text itself is stored, here by \<open>of_str\<close>. The result
  is the number that is returned, the text that did not convert, and the values stored so
  far, by destination. Fewer variables than destinations is undefined.
\<close>

record 'v xml_tag_var =
  xv_path :: "string option"
  xv_name :: "string option"
  xv_conv :: "(string option \<Rightarrow> 'v option) option"

fun values_loop ::
  "(string option \<Rightarrow> 'v) \<Rightarrow> xml_tag \<Rightarrow> nat \<Rightarrow> 'p list \<Rightarrow> ('v xml_tag_var \<times> bool) list \<Rightarrow> ('p \<times> 'v) list
     \<Rightarrow> (int \<times> string option \<times> ('p \<times> 'v) list) option" where
  "values_loop of_str tag no [] pp out = Some (-1, None, out)"
| "values_loop of_str tag no (ptr # ptrs) [] out = None"
| "values_loop of_str tag no (ptr # ptrs) ((xtv, optional) # pp) out =
     (let var = (case xv_name xtv of
                   None \<Rightarrow> xml_tag_path_body tag (xv_path xtv)
                 | Some n \<Rightarrow> xml_tag_path_attr tag (xv_path xtv) n)
      in case var of
           None \<Rightarrow>
             if \<not> optional then Some (int no, None, out) else values_loop of_str tag (Suc no) ptrs pp out
         | Some v \<Rightarrow>
             (let str = variant_get_string v
              in case xv_conv xtv of
                   None \<Rightarrow> values_loop of_str tag (Suc no) ptrs pp (out @ [(ptr, of_str str)])
                 | Some conv \<Rightarrow>
                     (case conv str of
                        None \<Rightarrow> Some (int no, str, out)
                      | Some x \<Rightarrow> values_loop of_str tag (Suc no) ptrs pp (out @ [(ptr, x)]))))"

definition xml_tag_get_valuesv ::
  "(string option \<Rightarrow> 'v) \<Rightarrow> xml_tag \<Rightarrow> ('v xml_tag_var \<times> bool) list \<Rightarrow> 'p list
     \<Rightarrow> (int \<times> string option \<times> ('p \<times> 'v) list) option" where
  "xml_tag_get_valuesv of_str tag pp ptrs = values_loop of_str tag 0 ptrs pp []"

definition xml_tag_get_values ::
  "(string option \<Rightarrow> 'v) \<Rightarrow> xml_tag \<Rightarrow> ('v xml_tag_var \<times> bool) list \<Rightarrow> 'p list
     \<Rightarrow> (int \<times> string option \<times> ('p \<times> 'v) list) option" where
  "xml_tag_get_values of_str tag pp ptrs = xml_tag_get_valuesv of_str tag pp ptrs"

text \<open>What an extended path denotes; \<open>g_strsplit\<close> with a limit of two splits at the first colon.\<close>

datatype epath_result =
  EP_Tag "xml_tag option" | EP_Tags "xml_tag list" | EP_Var "variant option" | EP_Vars "variant list"

definition xml_tag_epath :: "xml_tag \<Rightarrow> string \<Rightarrow> epath_result" where
  "xml_tag_epath tag epath =
     (let one = (peek epath \<noteq> CHR ''*'');
          epath = (if one then epath else drop 1 epath)
      in if epath = [] then EP_Tag (Some tag)
         else
           let path = takeWhile (\<lambda>c. c \<noteq> CHR '':'') epath; after = dropWhile (\<lambda>c. c \<noteq> CHR '':'') epath
           in case after of
                [] \<Rightarrow> if one then EP_Tag (xml_tag_path tag (Some path)) else EP_Tags (xml_tag_path_list tag path)
              | _ # opt \<Rightarrow>
                  if opt = [] then
                    (if one then EP_Var (xml_tag_path_body tag (Some path)) else EP_Vars (xml_tag_path_body_list tag path))
                  else
                    (if one then EP_Var (xml_tag_path_attr tag (Some path) opt)
                     else EP_Vars (xml_tag_path_attr_list tag path opt)))"

section \<open>Chains of children\<close>

lemma reorder_loop_eq: "reorder_loop tag after xs = tag # rev xs @ after"
  by (induction tag after xs rule: reorder_loop.induct) simp_all

lemma reorder_eq: "xml_tag_reorder (tag # chain) = tag # rev chain"
  by (cases chain; cases "tl chain") (simp_all add: xml_tag_reorder_def reorder_loop_eq)

lemma get_child_update [simp]:
  "xml_tag_get_child (set_childs tag (AList.update name chain (xt_childs tag))) n =
     (if n = name then chain else xml_tag_get_child tag n)"
  by (simp add: xml_tag_get_child_def set_childs_def update_conv)

lemma add_child_chain:
  "xml_tag_get_child (xml_tag_add_child tag c) n =
     (if n \<noteq> xt_name c then xml_tag_get_child tag n
      else case xml_tag_get_child tag n of [] \<Rightarrow> [c] | p # ps \<Rightarrow> p # c # ps)"
  by (auto simp: xml_tag_add_child_def split: list.splits)

lemma add_children_chain:
  "xml_tag_get_child tag n = p # ps \<Longrightarrow>
     xml_tag_get_child (foldl xml_tag_add_child tag cs) n = p # rev (filter (\<lambda>c. xt_name c = n) cs) @ ps"
  by (induction cs arbitrary: tag ps) (auto simp: add_child_chain)

lemma add_children_other:
  "\<forall>c \<in> set cs. xt_name c \<noteq> n \<Longrightarrow> xml_tag_get_child (foldl xml_tag_add_child tag cs) n = xml_tag_get_child tag n"
  by (induction cs arbitrary: tag) (auto simp: add_child_chain)

text \<open>
  Children are added after the first one, so a chain is in the reverse order of the
  additions but for its first tag; reordering the chain restores the order in which the
  children of that name were added, whatever other children came between.
\<close>

theorem children_reordered:
  assumes "xml_tag_get_child tag n = []"
  shows "xml_tag_reorder (xml_tag_get_child (foldl xml_tag_add_child tag cs) n) = filter (\<lambda>c. xt_name c = n) cs"
  using assms
proof (induction cs arbitrary: tag)
  case Nil
  then show ?case by (simp add: xml_tag_reorder_def)
next
  case (Cons c cs)
  show ?case
  proof (cases "xt_name c = n")
    case True
    with Cons.prems have "xml_tag_get_child (xml_tag_add_child tag c) n = [c]" by (simp add: add_child_chain)
    from add_children_chain [OF this, of cs] True show ?thesis by (simp add: reorder_eq)
  next
    case False
    with Cons show ?thesis by (simp add: add_child_chain)
  qed
qed

theorem children_reordered_witness:
  "xml_tag_reorder (xml_tag_get_child (foldl xml_tag_add_child (xml_tag_new ''ans'' [] None)
       [xml_tag_new ''a'' [] (Some (VARIANT_INT 1)), xml_tag_new ''b'' [] None,
        xml_tag_new ''a'' [] (Some (VARIANT_INT 2)), xml_tag_new ''a'' [] (Some (VARIANT_INT 3))]) ''a'') =
     [xml_tag_new ''a'' [] (Some (VARIANT_INT 1)), xml_tag_new ''a'' [] (Some (VARIANT_INT 2)),
      xml_tag_new ''a'' [] (Some (VARIANT_INT 3))]"
  by (subst children_reordered) (simp_all add: xml_tag_new_def xml_tag_get_child_def)

section \<open>Sorting\<close>

locale compare_order =
  fixes cmp :: "'a compare_func"
  assumes cmp_total: "cmp a b \<le> 0 \<or> cmp b a \<le> 0"
    and cmp_trans: "cmp a b \<le> 0 \<Longrightarrow> cmp b c \<le> 0 \<Longrightarrow> cmp a c \<le> 0"
begin

lemma merge_induct:
  assumes "\<And>x xs y ys. (cmp x y \<le> 0 \<Longrightarrow> P xs (y # ys)) \<Longrightarrow> (\<not> cmp x y \<le> 0 \<Longrightarrow> P (x # xs) ys) \<Longrightarrow> P (x # xs) (y # ys)"
    and "\<And>xs. P xs []" and "\<And>y ys. P [] (y # ys)"
  shows "P xs ys"
proof -
  have "c = cmp \<longrightarrow> P xs ys" for c
    by (induction c xs ys rule: xml_tag_sort_merge.induct) (auto intro: assms)
  then show ?thesis by simp
qed

lemma merge_mset: "mset (xml_tag_sort_merge cmp xs ys) = mset xs + mset ys"
  by (induction cmp xs ys rule: xml_tag_sort_merge.induct) auto

lemma merge_set: "set (xml_tag_sort_merge cmp xs ys) = set xs \<union> set ys"
  using merge_mset [of xs ys] by (metis set_mset_mset set_mset_union)

lemma merge_sorted:
  "sorted_wrt (\<lambda>a b. cmp a b \<le> 0) xs \<Longrightarrow> sorted_wrt (\<lambda>a b. cmp a b \<le> 0) ys \<Longrightarrow>
     sorted_wrt (\<lambda>a b. cmp a b \<le> 0) (xml_tag_sort_merge cmp xs ys)"
proof (induction xs ys rule: merge_induct)
  case (1 x xs y ys)
  show ?case
  proof (cases "cmp x y \<le> 0")
    case True
    with 1 show ?thesis by (auto simp: merge_set intro: cmp_trans)
  next
    case False
    with cmp_total [of x y] have "cmp y x \<le> 0" by simp
    with 1 False show ?thesis by (auto simp: merge_set intro: cmp_trans)
  qed
qed auto

text \<open>Tags that compare equal keep their order: those of the first list come first.\<close>

lemma merge_stable:
  assumes "sorted_wrt (\<lambda>a b. cmp a b \<le> 0) xs"
  shows "filter (\<lambda>z. cmp z w \<le> 0 \<and> cmp w z \<le> 0) (xml_tag_sort_merge cmp xs ys) =
     filter (\<lambda>z. cmp z w \<le> 0 \<and> cmp w z \<le> 0) xs @ filter (\<lambda>z. cmp z w \<le> 0 \<and> cmp w z \<le> 0) ys"
  using assms
proof (induction xs ys rule: merge_induct)
  case (1 x xs y ys)
  show ?case
  proof (cases "cmp x y \<le> 0")
    case True
    with 1 show ?thesis by simp
  next
    case False
    have none: "\<not> (cmp z w \<le> 0 \<and> cmp w z \<le> 0)" if "cmp y w \<le> 0 \<and> cmp w y \<le> 0" "z \<in> set (x # xs)" for z
    proof
      assume z: "cmp z w \<le> 0 \<and> cmp w z \<le> 0"
      have "cmp x z \<le> 0" using that(2) 1(3) cmp_total [of x x] by auto
      with z that(1) have "cmp x y \<le> 0" using cmp_trans by blast
      with False show False by simp
    qed
    have "filter (\<lambda>z. cmp z w \<le> 0 \<and> cmp w z \<le> 0) (x # xs) = []" if "cmp y w \<le> 0 \<and> cmp w y \<le> 0"
      using none [OF that] by (simp add: filter_empty_conv)
    with 1 False show ?thesis by auto
  qed
qed simp_all

lemma sort_real_few [simp]: "xml_tag_sort_real cmp [] = []" "xml_tag_sort_real cmp [x] = [x]"
  by (subst xml_tag_sort_real.simps, simp)+

lemma sort_real_split:
  "k = Suc (sort_mid 0 r) \<Longrightarrow> xml_tag_sort_real cmp (x # y # r) =
     xml_tag_sort_merge cmp (xml_tag_sort_real cmp (take k (x # y # r))) (xml_tag_sort_real cmp (drop k (x # y # r)))"
  by (subst xml_tag_sort_real.simps) (simp only: list.case Let_def)

lemma sort_real_spec:
  "mset (xml_tag_sort_real cmp xs) = mset xs \<and> sorted_wrt (\<lambda>a b. cmp a b \<le> 0) (xml_tag_sort_real cmp xs) \<and>
   (\<forall>w. filter (\<lambda>z. cmp z w \<le> 0 \<and> cmp w z \<le> 0) (xml_tag_sort_real cmp xs) =
     filter (\<lambda>z. cmp z w \<le> 0 \<and> cmp w z \<le> 0) xs)"
proof (induction "length xs" arbitrary: xs rule: less_induct)
  case (less xs)
  consider (few) "xs = [] \<or> (\<exists>x. xs = [x])" | (more) x y r where "xs = x # y # r"
    by (cases xs; cases "tl xs") auto
  then show ?case
  proof cases
    case few
    then show ?thesis by (auto simp: sort_real_few)
  next
    case more
    define k where "k = Suc (sort_mid 0 r)"
    have len: "length (take k xs) < length xs" "length (drop k xs) < length xs"
      using more by (auto simp: k_def sort_mid_eq)
    note ih = less [OF len(1)] less [OF len(2)]
    have step: "xml_tag_sort_real cmp xs =
        xml_tag_sort_merge cmp (xml_tag_sort_real cmp (take k xs)) (xml_tag_sort_real cmp (drop k xs))"
      unfolding more by (rule sort_real_split) (rule k_def)
    have split: "mset (take k xs) + mset (drop k xs) = mset xs"
      "filter P (take k xs) @ filter P (drop k xs) = filter P xs" for P
      by (simp_all flip: mset_append filter_append)
    show ?thesis
      unfolding step using ih by (simp add: merge_mset merge_sorted merge_stable split)
  qed
qed

end

subsection \<open>The order of the attributes\<close>

lemma strcmp_self [simp]: "strcmp s s = 0"
  by (induction s) simp_all

lemma strcmp_total: "strcmp s t \<le> 0 \<or> strcmp t s \<le> 0"
  by (induction s t rule: strcmp.induct) auto

lemma strcmp_trans: "strcmp s t \<le> 0 \<Longrightarrow> strcmp t u \<le> 0 \<Longrightarrow> strcmp s u \<le> 0"
proof (induction s arbitrary: t u)
  case Nil
  then show ?case by (cases u) auto
next
  case (Cons c s)
  from Cons.prems obtain d t' e u' where tu: "t = d # t'" "u = e # u'"
    by (cases t; cases u) auto
  let ?n = "of_char :: char \<Rightarrow> nat"
  from Cons.prems tu have "?n c \<le> ?n d" "?n d \<le> ?n e" by (simp_all split: if_splits)
  moreover have "strcmp s u' \<le> 0" if "c = d" "d = e"
    using Cons.prems that by (intro Cons.IH [of t' u']) (simp_all add: tu)
  moreover have "c = d \<and> d = e" if "\<not> ?n c < ?n e"
    using calculation(1,2) that by (metis le_antisym le_trans linorder_not_less of_char_eq_iff)
  ultimately show ?case by (auto simp: tu)
qed

lemma strcmp_zero: "strcmp s t = 0 \<longleftrightarrow> s = t"
  by (induction s t rule: strcmp.induct) auto

lemmas attr_cmp_defs = xml_tag_attr_cmp_def g_strcmp0_def

interpretation attr_order: compare_order "xml_tag_attr_cmp attr"
proof
  fix a b c
  show "xml_tag_attr_cmp attr a b \<le> 0 \<or> xml_tag_attr_cmp attr b a \<le> 0"
    using strcmp_total by (auto simp: attr_cmp_defs split: option.splits)
  show "xml_tag_attr_cmp attr a c \<le> 0"
    if "xml_tag_attr_cmp attr a b \<le> 0" "xml_tag_attr_cmp attr b c \<le> 0"
    using that by (auto simp: attr_cmp_defs split: option.splits intro: strcmp_trans)
qed

lemma sort_chain:
  "xml_tag_get_child (xml_tag_sort_with_data tag name cmp) n =
     (if n = name then xml_tag_sort_real cmp (xml_tag_get_child tag n) else xml_tag_get_child tag n)"
  by (auto simp: xml_tag_sort_with_data_def xml_tag_sort_real.simps [of cmp "[]"] split: list.splits)



section \<open>Values of a request\<close>

definition var_source :: "xml_tag \<Rightarrow> 'v xml_tag_var \<Rightarrow> variant option" where
  "var_source tag xtv =
     (case xv_name xtv of
        None \<Rightarrow> xml_tag_path_body tag (xv_path xtv)
      | Some n \<Rightarrow> xml_tag_path_attr tag (xv_path xtv) n)"

definition var_value :: "(string option \<Rightarrow> 'v) \<Rightarrow> 'v xml_tag_var \<Rightarrow> variant \<Rightarrow> 'v option" where
  "var_value of_str xtv v =
     (case xv_conv xtv of None \<Rightarrow> Some (of_str (variant_get_string v)) | Some conv \<Rightarrow> conv (variant_get_string v))"

text \<open>A variable is read when it is given and converts, or is optional and not given.\<close>

definition var_read :: "(string option \<Rightarrow> 'v) \<Rightarrow> xml_tag \<Rightarrow> 'v xml_tag_var \<times> bool \<Rightarrow> bool" where
  "var_read of_str tag = (\<lambda>(xtv, optional).
     case var_source tag xtv of None \<Rightarrow> optional | Some v \<Rightarrow> var_value of_str xtv v \<noteq> None)"

definition var_stored :: "(string option \<Rightarrow> 'v) \<Rightarrow> xml_tag \<Rightarrow> 'p \<Rightarrow> 'v xml_tag_var \<times> bool \<Rightarrow> ('p \<times> 'v) list" where
  "var_stored of_str tag ptr = (\<lambda>(xtv, _).
     case Option.bind (var_source tag xtv) (var_value of_str xtv) of None \<Rightarrow> [] | Some x \<Rightarrow> [(ptr, x)])"

definition var_text :: "xml_tag \<Rightarrow> 'v xml_tag_var \<times> bool \<Rightarrow> string option" where
  "var_text tag = (\<lambda>(xtv, _). Option.bind (var_source tag xtv) variant_get_string)"

lemmas var_defs = var_read_def var_source_def var_value_def var_stored_def var_text_def

lemma values_loop_step:
  "values_loop of_str tag no (ptr # ptrs) (p # pp) out =
     (if var_read of_str tag p then values_loop of_str tag (Suc no) ptrs pp (out @ var_stored of_str tag ptr p)
      else Some (int no, var_text tag p, out))"
  by (cases p) (auto simp: var_defs Let_def split: option.splits)

lemma values_loop_eq:
  assumes "length ptrs \<le> length pp"
    and "good = takeWhile (var_read of_str tag) (take (length ptrs) pp)"
  shows "values_loop of_str tag no ptrs pp out =
    Some (if length good = length ptrs then -1 else int (no + length good),
          if length good = length ptrs then None else var_text tag (pp ! length good),
          out @ concat (map2 (var_stored of_str tag) ptrs good))"
  using assms
proof (induction ptrs arbitrary: no pp out good)
  case (Cons ptr ptrs)
  then obtain p pp' where pp: "pp = p # pp'" by (cases pp) auto
  show ?case
    using Cons.prems Cons.IH [of pp' _ "Suc no" "out @ var_stored of_str tag ptr p"]
    by (simp add: pp values_loop_step del: values_loop.simps)
qed simp

text \<open>
  C39. Reading the arguments of a request stores the converted value of every argument
  before the first one that is missing or does not convert, in order, and returns the
  position of that argument with its text; -1 tells that all were read. Optional arguments
  that are not given leave their destination as it was.
\<close>

theorem get_values_reads:
  assumes "length ptrs \<le> length pp"
    and "good = takeWhile (var_read of_str tag) (take (length ptrs) pp)"
  shows "xml_tag_get_values of_str tag pp ptrs =
    Some (if length good = length ptrs then -1 else int (length good),
          if length good = length ptrs then None else var_text tag (pp ! length good),
          concat (map2 (var_stored of_str tag) ptrs good))"
  by (simp add: xml_tag_get_values_def xml_tag_get_valuesv_def values_loop_eq [OF assms])

theorem get_values_reads_witness:
  "xml_tag_get_values id (Xml_Tag ''request'' [(''name'', VARIANT_STRING (Some ''box'')), (''id'', VARIANT_STRING (Some ''x''))] None [])
     [(\<lparr>xv_path = None, xv_name = Some ''name'', xv_conv = None\<rparr>, False),
      (\<lparr>xv_path = None, xv_name = Some ''size'', xv_conv = None\<rparr>, True),
      (\<lparr>xv_path = None, xv_name = Some ''id'', xv_conv = Some (\<lambda>_. None)\<rparr>, False)]
     [1 :: nat, 2, 3] = Some (2, Some ''x'', [(1, Some ''box'')])"
  by (subst get_values_reads [OF _ refl])
    (simp_all add: var_defs xml_tag_path_attr_def xml_tag_path_def xml_tag_get_attr_def variant_get_string_def)

end
