(* ===== verification/Xml_Msg.thy ===== *)
theory Xml_Msg
  imports Xml_Tag Var_Conv Mbb_Time "HOL-Library.Monad_Syntax"
begin

text \<open>
  The answers of the server (\<open>mbbd/mbbxmlmsg.c\<close>) and the arguments of its commands
  (\<open>mbbd/mbbxtv.c\<close>). A message is formatted by \<open>printf\<close> with the two conversions the
  formats use. The destinations of \<open>MBB_XTV_CALL\<close> are numbered; reading gives either the
  answer to send back or, for each destination, the value stored there, if any.
\<close>

section \<open>Definitions\<close>

subsection \<open>Messages\<close>

datatype pf_arg = PF_S "string option" | PF_D int

text \<open>\<open>printf\<close> with the conversions for strings and numbers; \<open>None\<close> where the arguments do not fit.\<close>

fun vprintf :: "string \<Rightarrow> pf_arg list \<Rightarrow> string option" where
  "vprintf [] args = Some []"
| "vprintf (c # fmt) args =
     (if c \<noteq> CHR 0x25 then map_option (Cons c) (vprintf fmt args)
      else
        (case fmt of
           [] \<Rightarrow> None
         | f # fmt' \<Rightarrow>
             (case args of
                PF_S s # args' \<Rightarrow>
                  if f = CHR ''s''
                  then map_option (append (case s of None \<Rightarrow> ''(null)'' | Some t \<Rightarrow> t)) (vprintf fmt' args')
                  else None
              | PF_D n # args' \<Rightarrow>
                  if f = CHR ''d'' then map_option (append (dec_of_int n)) (vprintf fmt' args') else None
              | [] \<Rightarrow> None)))"

definition msg_table :: "mbb_msg_t \<Rightarrow> string option" where
  "msg_table no =
     (case no of
        MBB_MSG_OK \<Rightarrow> None
      | MBB_MSG_EMPTY \<Rightarrow> None
      | MBB_MSG_UNKNOWN_METHOD \<Rightarrow> Some ''method %s not found''
      | MBB_MSG_TIME_MISSED \<Rightarrow> Some ''missed time values''
      | MBB_MSG_UNKNOWN_INET \<Rightarrow> Some ''unknown inet''
      | MBB_MSG_UNKNOWN_UNIT \<Rightarrow> Some ''unknown unit''
      | MBB_MSG_PSTART_MORE_END \<Rightarrow> Some ''parent start time is larger then new end time''
      | MBB_MSG_PEND_LESS_START \<Rightarrow> Some ''parent end time is smaller then new start time''
      | MBB_MSG_INVALID_TIME_ORDER \<Rightarrow> Some ''invalid time order''
      | MBB_MSG_XTV_MISSED \<Rightarrow> Some ''xml entry %s:%s missed''
      | MBB_MSG_XTV_INVALID \<Rightarrow> Some ''xml entry %s:%s has invalid value %s''
      | MBB_MSG_UNIT_FREEZED \<Rightarrow> Some ''unit %s is freezed''
      | MBB_MSG_NAME_EXISTS \<Rightarrow> Some ''name %s exists''
      | MBB_MSG_UNKNOWN_CONSUMER \<Rightarrow> Some ''unknown consumer''
      | MBB_MSG_HAS_CHILDS \<Rightarrow> Some ''has childs''
      | MBB_MSG_UNPOSSIBLE \<Rightarrow> Some ''unpossible''
      | MBB_MSG_ORPHAN \<Rightarrow> Some ''sorry, i am orphan''
      | MBB_MSG_TIME_ORDER \<Rightarrow> Some ''invalid time order''
      | MBB_MSG_TIME_COLLISION \<Rightarrow> Some ''time collision''
      | MBB_MSG_UNKNOWN_GROUP \<Rightarrow> Some ''unknown group''
      | MBB_MSG_UNKNOWN_USER \<Rightarrow> Some ''unknown user''
      | MBB_MSG_GROUP_HAS_USER \<Rightarrow> Some ''group already has this user''
      | MBB_MSG_GROUP_HASNOT_USER \<Rightarrow> Some ''group hasnot this user''
      | MBB_MSG_UNIT_HAS_CONSUMER \<Rightarrow> Some ''unit already has consumer''
      | MBB_MSG_CONSUMER_FREEZED \<Rightarrow> Some ''consumer %s is freezed''
      | MBB_MSG_SELF_NOT_EXISTS \<Rightarrow> Some ''self user not exists''
      | MBB_MSG_INVALID_PASS \<Rightarrow> Some ''invalid password''
      | MBB_MSG_NEED_PASS \<Rightarrow> Some ''password expected''
      | MBB_MSG_INET_COLLISION \<Rightarrow> Some ''inet collision''
      | MBB_MSG_INET_CROSS \<Rightarrow> Some ''cross with inet %d (%s)''
      | MBB_MSG_AMBIGUOUS_REQUEST \<Rightarrow> Some ''ambiguous request: too many data''
      | MBB_MSG_UNKNOWN_VAR \<Rightarrow> Some ''unknown var''
      | MBB_MSG_NOT_CAPABLE \<Rightarrow> Some ''capability not permit''
      | MBB_MSG_INVALID_VALUE \<Rightarrow> Some ''invalid value''
      | MBB_MSG_VAR_READONLY \<Rightarrow> Some ''var is only for read''
      | MBB_MSG_ADDR_EXISTS \<Rightarrow> Some ''address %s exists''
      | MBB_MSG_UNKNOWN_GATEWAY \<Rightarrow> Some ''unknown gateway''
      | MBB_MSG_UNKNOWN_OPERATOR \<Rightarrow> Some ''unknown operator''
      | MBB_MSG_GW_HAS_LINK \<Rightarrow> Some ''gateway already has this link''
      | MBB_MSG_UNKNOWN_GWLINK \<Rightarrow> Some ''unknown gateway link''
      | MBB_MSG_UNAUTHORIZED \<Rightarrow> Some ''unauthorized''
      | MBB_MSG_HEADER_MISSED \<Rightarrow> Some ''header %s missed''
      | MBB_MSG_INVALID_HEADER \<Rightarrow> Some (''invalid header '' @ [CHR 0x27] @ ''%s'' @ [CHR 0x27])
      | MBB_MSG_VAR_NOT_INIT \<Rightarrow> Some (''var '' @ [CHR 0x27] @ ''%s'' @ [CHR 0x27] @ '' not initialized'')
      | MBB_MSG_UNKNOWN_MODULE \<Rightarrow> Some ''unknown module''
      | MBB_MSG_UNKNOWN_TASK \<Rightarrow> Some ''unknown task''
      | MBB_MSG_TASK_CREATE_FAILED \<Rightarrow> Some ''failed to create task''
      | MBB_MSG_TIME_NOPARENT \<Rightarrow> Some ''parent time not allowed''
      | MBB_MSG_ROOT_ONLY \<Rightarrow> Some ''only root can do this''
      | MBB_MSG_UNKNOWN_SESSION \<Rightarrow> Some ''unknown session'')"

definition responsev :: "string \<Rightarrow> string \<Rightarrow> pf_arg list \<Rightarrow> xml_tag option" where
  "responsev result fmt ap =
     do { msg \<leftarrow> vprintf fmt ap;
          Some (xml_tag_new ''response''
            [(''result'', variant_new_static_string (Some result)), (''desc'', variant_new_alloc_string (Some msg))]
            None) }"

definition mbb_xml_msg_response :: "string \<Rightarrow> string option \<Rightarrow> pf_arg list \<Rightarrow> xml_tag option" where
  "mbb_xml_msg_response result fmt ap =
     (case fmt of
        None \<Rightarrow> Some (xml_tag_new ''response'' [(''result'', variant_new_static_string (Some result))] None)
      | Some f \<Rightarrow> responsev result f ap)"

definition mbb_xml_msg_ok :: xml_tag where
  "mbb_xml_msg_ok = the (mbb_xml_msg_response ''ok'' None [])"

text \<open>The result and, where it is \<open>False\<close>, the description if there is one.\<close>

definition mbb_xml_msg_is_ok :: "xml_tag \<Rightarrow> bool \<times> string option" where
  "mbb_xml_msg_is_ok tag =
     (case xml_tag_get_attr tag ''result'' of
        None \<Rightarrow> (True, None)
      | Some var \<Rightarrow>
          if g_strcmp0 (Some ''ok'') (variant_get_string var) = 0 then (True, None)
          else (False, Option.bind (xml_tag_get_attr tag ''desc'') variant_get_string))"

definition mbb_xml_msg_error :: "string option \<Rightarrow> pf_arg list \<Rightarrow> xml_tag option" where
  "mbb_xml_msg_error fmt ap =
     (case fmt of
        None \<Rightarrow> mbb_xml_msg_response ''error'' None []
      | Some f \<Rightarrow> responsev ''error'' f ap)"

record gerror =
  ge_domain :: string
  ge_code :: int
  ge_message :: string

definition mbb_xml_msg_from_error :: "gerror option \<Rightarrow> xml_tag option" where
  "mbb_xml_msg_from_error err =
     (case err of
        None \<Rightarrow> mbb_xml_msg_error (Some ''unknown error'') []
      | Some e \<Rightarrow>
          mbb_xml_msg_error (Some ''%s [%d]: %s'')
            [PF_S (Some (ge_domain e)), PF_D (ge_code e), PF_S (Some (ge_message e))])"

text \<open>Every message number of the enumeration is inside the table.\<close>

definition mbb_xml_msg :: "mbb_msg_t \<Rightarrow> pf_arg list \<Rightarrow> xml_tag option" where
  "mbb_xml_msg msg_no ap =
     (if msg_no = MBB_MSG_OK then Some mbb_xml_msg_ok
      else (case msg_table msg_no of
              None \<Rightarrow> mbb_xml_msg_error None []
            | Some fmt \<Rightarrow> responsev ''error'' fmt ap))"

subsection \<open>Arguments\<close>

text \<open>The types of arguments; a compiled regular expression is the set of strings it matches.\<close>

datatype xv =
  XV_Str string | XV_UInt guint32 | XV_Time time_t | XV_Bool bool | XV_Inet inet | XV_Ipv4 ipv4_t
| XV_Regex "string \<Rightarrow> bool"

record xtv_env =
  xe_cal :: calendar
  xe_re_new :: "string \<Rightarrow> (string \<Rightarrow> bool) option"

text \<open>The values of a request are strings, so the conversions never see NULL.\<close>

abbreviation conv_with :: "('a \<Rightarrow> xv) \<Rightarrow> (string \<Rightarrow> 'a option) \<Rightarrow> string option \<Rightarrow> xv option" where
  "conv_with c f \<equiv> \<lambda>str. Option.bind str (\<lambda>s. map_option c (f s))"

abbreviation conv_null :: "string option \<Rightarrow> xv option" where "conv_null \<equiv> conv_with XV_Str var_conv_str"
abbreviation conv_uint :: "string option \<Rightarrow> xv option" where "conv_uint \<equiv> conv_with XV_UInt var_conv_uint"
abbreviation conv_bool :: "string option \<Rightarrow> xv option" where "conv_bool \<equiv> conv_with XV_Bool var_conv_bool"
abbreviation conv_inet :: "string option \<Rightarrow> xv option" where "conv_inet \<equiv> conv_with XV_Inet var_conv_inet"
abbreviation conv_ipv4 :: "string option \<Rightarrow> xv option" where "conv_ipv4 \<equiv> conv_with XV_Ipv4 var_conv_ipv4"
abbreviation conv_time :: "xtv_env \<Rightarrow> string option \<Rightarrow> xv option" where
  "conv_time env \<equiv> conv_with XV_Time (var_conv_time (xe_cal env))"
abbreviation conv_etime :: "xtv_env \<Rightarrow> string option \<Rightarrow> xv option" where
  "conv_etime env \<equiv> conv_with XV_Time (var_conv_etime (xe_cal env))"
abbreviation conv_regex :: "xtv_env \<Rightarrow> string option \<Rightarrow> xv option" where
  "conv_regex env \<equiv> conv_with XV_Regex (var_conv_regex (xe_re_new env))"

definition xtv_entry :: "string option \<Rightarrow> string \<Rightarrow> (string option \<Rightarrow> xv option) \<Rightarrow> xv xml_tag_var" where
  "xtv_entry p n f = \<lparr>xv_path = p, xv_name = Some n, xv_conv = Some f\<rparr>"

definition xtv_regex_value :: "xtv_env \<Rightarrow> xv xml_tag_var" where
  "xtv_regex_value env = xtv_entry (Some ''regex'') ''value'' (conv_regex env)"
definition xtv_name_value :: "xv xml_tag_var" where "xtv_name_value = xtv_entry (Some ''name'') ''value'' conv_null"
definition xtv_newname_value :: "xv xml_tag_var" where "xtv_newname_value = xtv_entry (Some ''newname'') ''value'' conv_null"
definition xtv_inet_id :: "xv xml_tag_var" where "xtv_inet_id = xtv_entry (Some ''inet_entry'') ''id'' conv_uint"
definition xtv_time_start :: "xtv_env \<Rightarrow> xv xml_tag_var" where
  "xtv_time_start env = xtv_entry (Some ''time'') ''start'' (conv_time env)"
definition xtv_time_end :: "xtv_env \<Rightarrow> xv xml_tag_var" where
  "xtv_time_end env = xtv_entry (Some ''time'') ''end'' (conv_time env)"
definition xtv_time_period :: "xv xml_tag_var" where "xtv_time_period = xtv_entry (Some ''time'') ''period'' conv_null"
definition xtv_time_step :: "xv xml_tag_var" where "xtv_time_step = xtv_entry (Some ''time'') ''step'' conv_null"
definition xtv_etime_start :: "xtv_env \<Rightarrow> xv xml_tag_var" where
  "xtv_etime_start env = xtv_entry (Some ''time'') ''start'' (conv_etime env)"
definition xtv_etime_end :: "xtv_env \<Rightarrow> xv xml_tag_var" where
  "xtv_etime_end env = xtv_entry (Some ''time'') ''end'' (conv_etime env)"
definition xtv_unit_name :: "xv xml_tag_var" where "xtv_unit_name = xtv_entry (Some ''unit'') ''name'' conv_null"
definition xtv_inet_inet :: "xv xml_tag_var" where "xtv_inet_inet = xtv_entry (Some ''inet_entry'') ''inet'' conv_inet"
definition xtv_inet_exclusive :: "xv xml_tag_var" where "xtv_inet_exclusive = xtv_entry (Some ''inet_entry'') ''exclusive'' conv_bool"
definition xtv_inet_nice :: "xv xml_tag_var" where "xtv_inet_nice = xtv_entry (Some ''inet_entry'') ''nice'' conv_uint"
definition xtv_inet_inherit :: "xv xml_tag_var" where "xtv_inet_inherit = xtv_entry (Some ''inet_entry'') ''inherit'' conv_bool"
definition xtv_group_name :: "xv xml_tag_var" where "xtv_group_name = xtv_entry (Some ''group'') ''name'' conv_null"
definition xtv_user_name :: "xv xml_tag_var" where "xtv_user_name = xtv_entry (Some ''user'') ''name'' conv_null"
definition xtv_consumer_name :: "xv xml_tag_var" where "xtv_consumer_name = xtv_entry (Some ''consumer'') ''name'' conv_null"
definition xtv_unit_inherit :: "xv xml_tag_var" where "xtv_unit_inherit = xtv_entry (Some ''unit'') ''inherit'' conv_bool"
definition xtv_secret_value :: "xv xml_tag_var" where "xtv_secret_value = xtv_entry (Some ''secret'') ''value'' conv_null"
definition xtv_newsecret_value :: "xv xml_tag_var" where "xtv_newsecret_value = xtv_entry (Some ''newsecret'') ''value'' conv_null"
definition xtv_auth_login :: "xv xml_tag_var" where "xtv_auth_login = xtv_entry None ''login'' conv_null"
definition xtv_auth_secret :: "xv xml_tag_var" where "xtv_auth_secret = xtv_entry None ''secret'' conv_null"
definition xtv_auth_type :: "xv xml_tag_var" where "xtv_auth_type = xtv_entry None ''type'' conv_null"
definition xtv_time_value :: "xtv_env \<Rightarrow> xv xml_tag_var" where
  "xtv_time_value env = xtv_entry (Some ''time'') ''value'' (conv_time env)"
definition xtv_newnice_value :: "xv xml_tag_var" where "xtv_newnice_value = xtv_entry (Some ''newnice'') ''value'' conv_uint"
definition xtv_var_name :: "xv xml_tag_var" where "xtv_var_name = xtv_entry (Some ''var'') ''name'' conv_null"
definition xtv_var_value :: "xv xml_tag_var" where "xtv_var_value = xtv_entry (Some ''var'') ''value'' conv_null"
definition xtv_addr_value :: "xv xml_tag_var" where "xtv_addr_value = xtv_entry (Some ''addr'') ''value'' conv_ipv4"
definition xtv_gwlink_id :: "xv xml_tag_var" where "xtv_gwlink_id = xtv_entry (Some ''gwlink'') ''id'' conv_uint"
definition xtv_op_name :: "xv xml_tag_var" where "xtv_op_name = xtv_entry (Some ''operator'') ''name'' conv_null"
definition xtv_gw_name :: "xv xml_tag_var" where "xtv_gw_name = xtv_entry (Some ''gateway'') ''name'' conv_null"
definition xtv_link_value :: "xv xml_tag_var" where "xtv_link_value = xtv_entry (Some ''link'') ''value'' conv_uint"
definition xtv_module_name :: "xv xml_tag_var" where "xtv_module_name = xtv_entry (Some ''module'') ''name'' conv_null"
definition xtv_task_id :: "xv xml_tag_var" where "xtv_task_id = xtv_entry (Some ''task'') ''id'' conv_uint"
definition xtv_net_value :: "xv xml_tag_var" where "xtv_net_value = xtv_entry (Some ''net'') ''value'' conv_inet"
definition xtv_attr_group :: "xv xml_tag_var" where "xtv_attr_group = xtv_entry (Some ''attr'') ''group'' conv_null"
definition xtv_attr_name :: "xv xml_tag_var" where "xtv_attr_name = xtv_entry (Some ''attr'') ''name'' conv_null"
definition xtv_attr_value :: "xv xml_tag_var" where "xtv_attr_value = xtv_entry (Some ''attr'') ''value'' conv_null"
definition xtv_key_value :: "xv xml_tag_var" where "xtv_key_value = xtv_entry (Some ''key'') ''value'' conv_null"
definition xtv_obj_name :: "xv xml_tag_var" where "xtv_obj_name = xtv_entry (Some ''obj'') ''name'' conv_null"
definition xtv_session_sid :: "xv xml_tag_var" where "xtv_session_sid = xtv_entry (Some ''session'') ''sid'' conv_uint"

text \<open>
  \<open>None\<close> is the case of fewer variables than destinations, which no caller has. Otherwise
  the answer, or the values by destination.
\<close>

definition mbb_xtv_call_z :: "xml_tag \<Rightarrow> (xv xml_tag_var \<times> bool) list \<Rightarrow> (xml_tag + xv option list) option" where
  "mbb_xtv_call_z tag xtv =
     do { (no, arg, out) \<leftarrow> xml_tag_get_valuesv (\<lambda>_. XV_Str []) tag xtv [0 ..< length xtv];
          if no < 0 then Some (Inr (map (map_of out) [0 ..< length xtv]))
          else
            (let p = fst (xtv ! nat no)
             in map_option Inl
               (case arg of
                  None \<Rightarrow> mbb_xml_msg MBB_MSG_XTV_MISSED [PF_S (xv_path p), PF_S (xv_name p)]
                | Some _ \<Rightarrow> mbb_xml_msg MBB_MSG_XTV_INVALID [PF_S (xv_path p), PF_S (xv_name p), PF_S arg])) }"

section \<open>Reading arguments\<close>

lemma mbb_xml_msg_ok_eq:
  "mbb_xml_msg_ok = xml_tag_new ''response'' [(''result'', variant_new_static_string (Some ''ok''))] None"
  by (simp add: mbb_xml_msg_ok_def mbb_xml_msg_response_def)

text \<open>A required argument that is given as a string is read as that string.\<close>

end
