(* ===== verification/Server.thy ===== *)
theory Server
  imports Xml_Msg User_Group "HOL-Library.AList"
begin

text \<open>
  The state of the server process and its sessions: \<open>mbbd/mbbserver.c\<close> (what a thread
  knows of itself) and \<open>mbbd/mbbsession.c\<close>, with the data of \<open>mbbmodule.h\<close>, \<open>mbbfunc.h\<close>
  and \<open>mbbvar.h\<close>. Objects live in heaps that map addresses to records. A hash table that
  the code iterates is an association list, whose order stands for the unspecified one
  of GLib; a table that does not exist yet is \<open>None\<close>. The memory behind the variables
  belongs to their owners and has an arbitrary type, which the operations of a variable
  read and change. Every operation runs under the lock of its source file, so operations
  are the atomic steps of the server; \<open>None\<close> is the use of an address without an object.
\<close>

section \<open>Definitions\<close>

subsection \<open>Data\<close>

type_synonym thread_id = nat

text \<open>GLib's read-write lock: its readers and whether a writer holds it.\<close>

record rw_lock =
  rw_readers :: nat
  rw_writer :: bool

record mbb_func_struct =
  fs_name :: string
  fs_func :: gpointer
  fs_cap_mask :: guint32
  fs_module :: "gpointer option"

record mbb_module_info =
  mi_module :: "gpointer option"
  mi_desc :: "string option"
  mi_load :: "gpointer option"
  mi_unload :: "gpointer option"

record mbb_module =
  md_info :: gpointer
  md_handle :: gpointer
  md_name :: string
  md_use_count :: int
  md_run :: bool
  md_start :: time_t
  md_functions :: "gpointer list option"
  md_vars :: "gpointer list"
  md_total :: nat
  md_nreg :: nat
  md_export :: "gpointer option"
  md_deps :: "gpointer list"
  md_onready :: "gpointer option"
  md_rwlock :: rw_lock

text \<open>
  The reader of a variable works on the memory it is given, but for the two readers of
  \<open>mbbsession.c\<close> that ask for the peer and the user of the current thread.
\<close>

datatype 'm op_read = Op_Read "gpointer \<Rightarrow> 'm \<Rightarrow> string option" | var_session_peer_get | var_session_user_get

record 'm mbb_var_def =
  op_read :: "'m op_read option"
  op_write :: "(string \<Rightarrow> gpointer \<Rightarrow> 'm \<Rightarrow> 'm \<times> bool) option"
  cap_read :: guint32
  cap_write :: guint32

record 'm mbb_session_var =
  sp_data :: gpointer
  sp_op_new :: "(gpointer \<Rightarrow> 'm \<Rightarrow> 'm \<times> gpointer) option"
  sp_op_free :: "(gpointer \<Rightarrow> 'm \<Rightarrow> 'm) option"

text \<open>The private part of a variable determines its interface.\<close>

datatype 'm var_priv = Base_Var gpointer | Session_Var "'m mbb_session_var"

record 'm mbb_var =
  v_def :: "'m mbb_var_def"
  v_mod :: "gpointer option"
  v_name :: string
  v_priv :: "'m var_priv"

datatype mbb_session_type = MBB_SESSION_XML | MBB_SESSION_HTTP

record mbb_session =
  ss_user :: "gpointer option"
  ss_peer :: "string option"
  ss_port :: guint32
  ss_type :: mbb_session_type
  ss_start :: time_t
  ss_mtime :: time_t
  ss_killed :: bool
  ss_kill_msg :: "string option"
  ss_vars :: "(gpointer \<times> gpointer) list"
  ss_cached_vars :: "(string \<times> string) list option"

text \<open>The methods of authentication (\<open>mbbauth.c\<close>) and the keys of \<open>mbbauthkeys.c\<close>.\<close>

datatype auth_func = Auth_Plain | Auth_Key | Auth_Code gpointer

record mbb_auth_method =
  am_name :: string
  am_mod :: "gpointer option"
  am_func :: auth_func

record key_data =
  kd_user :: gpointer
  kd_peer :: "string option"
  kd_timer :: nat

record thread_env =
  te_sid :: guint32
  te_ss :: gpointer

record 'm srv =
  sv_mem :: 'm
  sv_acl :: acl
  sv_threads :: "thread_id \<Rightarrow> thread_env option"
  sv_sessions :: "gpointer \<rightharpoonup> mbb_session"
  sv_session_id :: guint32
  sv_session_ht :: "(guint32 \<times> gpointer) list option"
  sv_var_queue :: "gpointer list"
  sv_vars :: "gpointer \<rightharpoonup> 'm mbb_var"
  sv_var_ht :: "(string \<times> gpointer) list option"
  sv_cache_global :: "(string \<times> string) list option"
  sv_modules :: "mbb_module dl_module"
  sv_infos :: "gpointer \<rightharpoonup> mbb_module_info"
  sv_cur_info :: "gpointer option"
  sv_mod_key :: "thread_id \<Rightarrow> gpointer option"
  sv_funcs :: "gpointer \<rightharpoonup> mbb_func_struct"
  sv_func_ht :: "(string \<times> gpointer) list option"
  sv_auth_methods :: "(string \<times> gpointer) list option"
  sv_auth_heap :: "gpointer \<rightharpoonup> mbb_auth_method"
  sv_auth_keys :: "(string \<times> key_data) list option"
  sv_key_lifetime :: guint32

text \<open>Looking up a table that may not exist.\<close>

definition ht_lookup :: "('k \<times> 'v) list option \<Rightarrow> 'k \<Rightarrow> 'v option" where
  "ht_lookup ht k = (case ht of None \<Rightarrow> None | Some al \<Rightarrow> map_of al k)"

definition ht_insert :: "('k \<times> 'v) list option \<Rightarrow> 'k \<Rightarrow> 'v \<Rightarrow> ('k \<times> 'v) list option" where
  "ht_insert ht k v = Some (AList.update k v (case ht of None \<Rightarrow> [] | Some al \<Rightarrow> al))"

definition ht_remove :: "('k \<times> 'v) list option \<Rightarrow> 'k \<Rightarrow> ('k \<times> 'v) list option" where
  "ht_remove ht k = map_option (AList.delete k) ht"

definition set_session :: "'m srv \<Rightarrow> gpointer \<Rightarrow> mbb_session option \<Rightarrow> 'm srv" where
  "set_session st ss x = st\<lparr>sv_sessions := (sv_sessions st)(ss := x)\<rparr>"

subsection \<open>Threads\<close>

definition current_session :: "'m srv \<Rightarrow> thread_id \<Rightarrow> gpointer option" where
  "current_session st t = map_option te_ss (sv_threads st t)"

definition mbb_thread_get_user :: "'m srv \<Rightarrow> thread_id \<Rightarrow> gpointer option" where
  "mbb_thread_get_user st t =
     (case sv_threads st t of None \<Rightarrow> None | Some te \<Rightarrow> Option.bind (sv_sessions st (te_ss te)) ss_user)"

definition mbb_thread_get_cap :: "'m srv \<Rightarrow> thread_id \<Rightarrow> guint32 option" where
  "mbb_thread_get_cap st t =
     (case mbb_thread_get_user st t of
        None \<Rightarrow> Some 0
      | Some user \<Rightarrow> map_option u_cap_mask (dm_heap (acl_users (sv_acl st)) user))"

definition mbb_thread_get_tid :: "'m srv \<Rightarrow> thread_id \<Rightarrow> gint" where
  "mbb_thread_get_tid st t = (case sv_threads st t of None \<Rightarrow> -1 | Some te \<Rightarrow> to_gint (uint (te_sid te)))"

definition mbb_thread_get_uid :: "'m srv \<Rightarrow> thread_id \<Rightarrow> gint option" where
  "mbb_thread_get_uid st t =
     (case mbb_thread_get_user st t of
        None \<Rightarrow> Some (-1)
      | Some user \<Rightarrow> map_option u_id (dm_heap (acl_users (sv_acl st)) user))"

definition mbb_thread_get_peer :: "'m srv \<Rightarrow> thread_id \<Rightarrow> string option" where
  "mbb_thread_get_peer st t =
     (case sv_threads st t of None \<Rightarrow> None | Some te \<Rightarrow> Option.bind (sv_sessions st (te_ss te)) ss_peer)"

subsection \<open>Variables of a session\<close>

definition mbb_session_add_var :: "'m srv \<Rightarrow> gpointer \<Rightarrow> 'm srv" where
  "mbb_session_add_var st var = st\<lparr>sv_var_queue := sv_var_queue st @ [var]\<rparr>"

definition session_lookup_var :: "mbb_session \<Rightarrow> gpointer \<Rightarrow> gpointer option" where
  "session_lookup_var ss var = map_of (ss_vars ss) var"

definition mbb_var_get_priv :: "'m srv \<Rightarrow> gpointer \<Rightarrow> 'm mbb_session_var option" where
  "mbb_var_get_priv st var =
     do { v \<leftarrow> sv_vars st var; (case v_priv v of Session_Var priv \<Rightarrow> Some priv | Base_Var _ \<Rightarrow> None) }"

definition free_data :: "'m mbb_session_var \<Rightarrow> gpointer \<Rightarrow> 'm srv \<Rightarrow> 'm srv" where
  "free_data priv data st = (case sp_op_free priv of None \<Rightarrow> st | Some f \<Rightarrow> st\<lparr>sv_mem := f data (sv_mem st)\<rparr>)"

fun del_var_loop :: "'m mbb_session_var \<Rightarrow> gpointer \<Rightarrow> (guint32 \<times> gpointer) list \<Rightarrow> 'm srv \<Rightarrow> 'm srv option" where
  "del_var_loop priv var [] st = Some st"
| "del_var_loop priv var ((_, ss) # iter) st =
     do { s \<leftarrow> sv_sessions st ss;
          del_var_loop priv var iter
            (case session_lookup_var s var of
               None \<Rightarrow> st
             | Some data \<Rightarrow>
                 set_session (free_data priv data st) ss (Some (s\<lparr>ss_vars := AList.delete var (ss_vars s)\<rparr>))) }"

definition mbb_session_del_var :: "'m srv \<Rightarrow> gpointer \<Rightarrow> 'm srv option" where
  "mbb_session_del_var st var =
     (let st = st\<lparr>sv_var_queue := remove1 var (sv_var_queue st)\<rparr>
      in case sv_session_ht st of
           None \<Rightarrow> Some st
         | Some ht \<Rightarrow> do { priv \<leftarrow> mbb_var_get_priv st var; del_var_loop priv var ht st })"

definition session_insert_var :: "'m srv \<Rightarrow> gpointer \<Rightarrow> gpointer \<Rightarrow> ('m srv \<times> gpointer) option" where
  "session_insert_var st ss var =
     do { priv \<leftarrow> mbb_var_get_priv st var;
          let (m, data) = (case sp_op_new priv of
                             None \<Rightarrow> (sv_mem st, sp_data priv)
                           | Some f \<Rightarrow> f (sp_data priv) (sv_mem st));
          s \<leftarrow> sv_sessions st ss;
          Some (set_session (st\<lparr>sv_mem := m\<rparr>) ss (Some (s\<lparr>ss_vars := AList.update var data (ss_vars s)\<rparr>)), data) }"

definition mbb_session_var_get_data :: "'m srv \<Rightarrow> thread_id \<Rightarrow> gpointer \<Rightarrow> ('m srv \<times> gpointer) option" where
  "mbb_session_var_get_data st t var =
     (case current_session st t of
        None \<Rightarrow> Some (st, 0)
      | Some ss \<Rightarrow>
          do { s \<leftarrow> sv_sessions st ss;
               (case session_lookup_var s var of
                  None \<Rightarrow> session_insert_var st ss var
                | Some data \<Rightarrow> Some (st, data)) })"

fun vars_init_loop :: "gpointer \<Rightarrow> gpointer list \<Rightarrow> 'm srv \<Rightarrow> 'm srv option" where
  "vars_init_loop ss [] st = Some st"
| "vars_init_loop ss (var # vars) st = do { (st, _) \<leftarrow> session_insert_var st ss var; vars_init_loop ss vars st }"

definition session_vars_init :: "'m srv \<Rightarrow> gpointer \<Rightarrow> 'm srv option" where
  "session_vars_init st ss =
     do { s \<leftarrow> sv_sessions st ss;
          vars_init_loop ss (sv_var_queue st) (set_session st ss (Some (s\<lparr>ss_vars := []\<rparr>))) }"

fun vars_fini_loop :: "(gpointer \<times> gpointer) list \<Rightarrow> 'm srv \<Rightarrow> 'm srv option" where
  "vars_fini_loop [] st = Some st"
| "vars_fini_loop ((var, data) # iter) st =
     do { priv \<leftarrow> mbb_var_get_priv st var; vars_fini_loop iter (free_data priv data st) }"

definition session_vars_fini :: "'m srv \<Rightarrow> gpointer \<Rightarrow> 'm srv option" where
  "session_vars_fini st ss = do { s \<leftarrow> sv_sessions st ss; vars_fini_loop (ss_vars s) st }"

subsection \<open>Sessions\<close>

definition mbb_user_ref :: "acl \<Rightarrow> gpointer \<Rightarrow> acl option" where
  "mbb_user_ref st user =
     do { u \<leftarrow> dm_heap (acl_users st) user; Some (set_user st user (Some (u\<lparr>u_nref := u_nref u + 1\<rparr>))) }"

text \<open>After \<open>mbb_session_free\<close> nobody uses the session: its record is gone.\<close>

definition mbb_session_free :: "'m srv \<Rightarrow> gpointer \<Rightarrow> 'm srv option" where
  "mbb_session_free st ss =
     do { st \<leftarrow> session_vars_fini st ss;
          s \<leftarrow> sv_sessions st ss;
          acl \<leftarrow> (case ss_user s of None \<Rightarrow> Some (sv_acl st) | Some user \<Rightarrow> mbb_user_unref (sv_acl st) user);
          Some (set_session (st\<lparr>sv_acl := acl\<rparr>) ss None) }"

text \<open>
  A new session for the address \<open>ss\<close>. The number of the session wraps around; inserting
  under a number that is still in use destroys the session that had it.
\<close>

definition mbb_session_new ::
  "'m srv \<Rightarrow> gpointer \<Rightarrow> time_t \<Rightarrow> string option \<Rightarrow> guint32 \<Rightarrow> mbb_session_type \<Rightarrow> ('m srv \<times> guint32) option" where
  "mbb_session_new st ss now peer port type =
     do { let s = \<lparr>ss_user = None, ss_peer = peer, ss_port = port, ss_type = type, ss_start = now, ss_mtime = now,
                   ss_killed = False, ss_kill_msg = None, ss_vars = [], ss_cached_vars = None\<rparr>;
          st \<leftarrow> session_vars_init (set_session st ss (Some s)) ss;
          let sid = sv_session_id st;
          st \<leftarrow> (case ht_lookup (sv_session_ht st) sid of None \<Rightarrow> Some st | Some old \<Rightarrow> mbb_session_free st old);
          Some (st\<lparr>sv_session_id := sid + 1, sv_session_ht := ht_insert (sv_session_ht st) sid ss\<rparr>, sid) }"

definition mbb_session_touch :: "'m srv \<Rightarrow> gpointer \<Rightarrow> time_t \<Rightarrow> 'm srv option" where
  "mbb_session_touch st ss now =
     do { s \<leftarrow> sv_sessions st ss; Some (set_session st ss (Some (s\<lparr>ss_mtime := now\<rparr>))) }"

definition mbb_session_has :: "'m srv \<Rightarrow> gint \<Rightarrow> bool" where
  "mbb_session_has st sid = (ht_lookup (sv_session_ht st) (word_of_int sid) \<noteq> None)"

definition mbb_session_quit :: "'m srv \<Rightarrow> guint32 \<Rightarrow> 'm srv option" where
  "mbb_session_quit st sid =
     (case ht_lookup (sv_session_ht st) sid of
        None \<Rightarrow> Some st
      | Some ss \<Rightarrow> mbb_session_free (st\<lparr>sv_session_ht := ht_remove (sv_session_ht st) sid\<rparr>) ss)"

definition mbb_session_is_http :: "'m srv \<Rightarrow> thread_id \<Rightarrow> bool" where
  "mbb_session_is_http st t =
     (case Option.bind (current_session st t) (sv_sessions st) of None \<Rightarrow> False | Some s \<Rightarrow> ss_type s = MBB_SESSION_HTTP)"

text \<open>The table of cached variables of the session, created on demand.\<close>

definition mbb_session_get_cached :: "'m srv \<Rightarrow> thread_id \<Rightarrow> bool \<Rightarrow> 'm srv \<times> (string \<times> string) list option" where
  "mbb_session_get_cached st t create =
     (case current_session st t of
        None \<Rightarrow> (st, None)
      | Some ss \<Rightarrow>
          (case sv_sessions st ss of
             None \<Rightarrow> (st, None)
           | Some s \<Rightarrow>
               if create = False then (st, ss_cached_vars s)
               else if ss_cached_vars s = None
                 then (set_session st ss (Some (s\<lparr>ss_cached_vars := Some []\<rparr>)), Some [])
                 else (st, ss_cached_vars s)))"

definition user_name :: "'m srv \<Rightarrow> gpointer option \<Rightarrow> string option" where
  "user_name st user =
     (case user of
        None \<Rightarrow> Some ''*''
      | Some u \<Rightarrow> map_option u_name (dm_heap (acl_users (sv_acl st)) u))"

definition gather_session :: "'m srv \<Rightarrow> bool \<Rightarrow> xml_tag \<Rightarrow> guint32 \<times> gpointer \<Rightarrow> xml_tag option" where
  "gather_session st show_mtime ans = (\<lambda>(sid, ss).
     do { s \<leftarrow> sv_sessions st ss;
          username \<leftarrow> user_name st (ss_user s);
          let xt = xml_tag_new ''session''
                [(''sid'', variant_new_int (to_gint (uint sid))), (''user'', variant_new_alloc_string (Some username)),
                 (''peer'', variant_new_string (ss_peer s)),
                 (''start'', variant_new_alloc_string (Some (dec_of_int (ss_start s))))] None;
          let xt = (if show_mtime
                    then xml_tag_set_attr xt ''mtime'' (variant_new_alloc_string (Some (dec_of_int (ss_mtime s))))
                    else xt);
          Some (xml_tag_add_child ans xt) })"

text \<open>\<open>bool_at\<close> reads the boolean behind the session variable \<open>@.session.show.mtime\<close>.\<close>

definition show_sessions ::
  "(gpointer \<Rightarrow> 'm \<Rightarrow> bool) \<Rightarrow> gpointer \<Rightarrow> 'm srv \<Rightarrow> thread_id \<Rightarrow> ('m srv \<times> xml_tag option) option" where
  "show_sessions bool_at show_mtime_var st t =
     (case sv_session_ht st of
        None \<Rightarrow> Some (st, None)
      | Some ht \<Rightarrow>
          do { (st, data) \<leftarrow> mbb_session_var_get_data st t show_mtime_var;
               let show_mtime = bool_at data (sv_mem st);
               ans \<leftarrow> fold (\<lambda>entry ans. do { a \<leftarrow> ans; gather_session st show_mtime a entry }) ht (Some mbb_xml_msg_ok);
               Some (st, Some ans) })"

text \<open>The signal that wakes the thread of the killed session is not part of the state.\<close>

definition kill_session :: "'m srv \<Rightarrow> thread_id \<Rightarrow> xml_tag \<Rightarrow> ('m srv \<times> xml_tag option) option" where
  "kill_session st t tag =
     do { args \<leftarrow> mbb_xtv_call_z tag [(xtv_session_sid, False)];
          (case args of
             Inl ans \<Rightarrow> Some (st, Some ans)
           | Inr [Some (XV_UInt sid)] \<Rightarrow>
               (case ht_lookup (sv_session_ht st) sid of
                  None \<Rightarrow> do { ans \<leftarrow> mbb_xml_msg MBB_MSG_UNKNOWN_SESSION []; Some (st, Some ans) }
                | Some ss \<Rightarrow>
                    do { s \<leftarrow> sv_sessions st ss;
                         let s = s\<lparr>ss_killed := True\<rparr>;
                         s \<leftarrow> (case mbb_thread_get_user st t of
                                 None \<Rightarrow> Some s
                               | Some u \<Rightarrow> do { name \<leftarrow> user_name st (Some u);
                                                Some (s\<lparr>ss_kill_msg := Some (''killed by '' @ name)\<rparr>) });
                         Some (set_session st ss (Some s), None) })
           | _ \<Rightarrow> None) }"

section \<open>A server without modules, sessions and commands\<close>

definition srv0 :: "unit srv" where
  "srv0 = \<lparr>sv_mem = (), sv_acl = \<lparr>acl_users = \<lparr>dm_link = None, dm_heap = Map.empty\<rparr>,
       acl_groups = \<lparr>dm_link = None, dm_heap = Map.empty\<rparr>\<rparr>, sv_threads = \<lambda>_. None, sv_sessions = Map.empty,
     sv_session_id = 1, sv_session_ht = None, sv_var_queue = [], sv_vars = Map.empty, sv_var_ht = None,
     sv_cache_global = None, sv_modules = \<lparr>dm_link = None, dm_heap = Map.empty\<rparr>, sv_infos = Map.empty,
     sv_cur_info = None, sv_mod_key = \<lambda>_. None, sv_funcs = Map.empty, sv_func_ht = None,
     sv_auth_methods = None, sv_auth_heap = Map.empty, sv_auth_keys = None, sv_key_lifetime = 60\<rparr>"

end
