(* ===== verification/Mbb_Var.thy ===== *)
theory Mbb_Var
  imports Server
begin

text \<open>
  The variables of the server, \<open>mbbd/mbbvar.c\<close>: variables with one value and variables with
  a value per session, their registration by the server and by modules, the caches of
  values, and the commands that show and set them. Reading a session variable creates the
  value of the session if it has none, so reads return a state as well.
\<close>

section \<open>Definitions\<close>

definition MBB_SESSION_VAR_PREFIX :: string where "MBB_SESSION_VAR_PREFIX = ''@.''"

datatype MbbVarError = MBB_VAR_ERROR_UNKNOWN | MBB_VAR_ERROR_READONLY | MBB_VAR_ERROR_INVALID | MBB_VAR_ERROR_SESSION

definition g_str_has_prefix :: "string \<Rightarrow> string \<Rightarrow> bool" where
  "g_str_has_prefix s pre = (take (length pre) s = pre)"

definition xml_tag_new_child :: "xml_tag \<Rightarrow> string \<Rightarrow> (string \<times> variant) list \<Rightarrow> xml_tag" where
  "xml_tag_new_child tag name attrs = xml_tag_add_child tag (xml_tag_new name attrs None)"

subsection \<open>One variable\<close>

definition mbb_var_get_name :: "'m mbb_var \<Rightarrow> string" where "mbb_var_get_name var = v_name var"

definition mbb_var_has_mod :: "'m mbb_var \<Rightarrow> bool" where "mbb_var_has_mod var = (v_mod var \<noteq> None)"

definition mbb_var_get_cap_read :: "'m mbb_var \<Rightarrow> guint32" where "mbb_var_get_cap_read var = cap_read (v_def var)"

definition mbb_var_get_cap_write :: "'m mbb_var \<Rightarrow> guint32" where "mbb_var_get_cap_write var = cap_write (v_def var)"

definition mbb_var_set_module :: "'m mbb_var \<Rightarrow> gpointer option \<Rightarrow> 'm mbb_var" where
  "mbb_var_set_module var md = var\<lparr>v_mod := md\<rparr>"

definition mbb_module_isrun :: "'m srv \<Rightarrow> gpointer \<Rightarrow> bool option" where
  "mbb_module_isrun st md = map_option md_run (dm_heap (sv_modules st) md)"

definition mbb_var_is_alive :: "'m srv \<Rightarrow> 'm mbb_var \<Rightarrow> bool option" where
  "mbb_var_is_alive st var = (case v_mod var of None \<Rightarrow> Some True | Some md \<Rightarrow> mbb_module_isrun st md)"

definition mbb_var_can_read :: "'m mbb_var \<Rightarrow> guint32 \<Rightarrow> bool" where
  "mbb_var_can_read var cap = (if op_read (v_def var) = None then False else mbb_cap_check cap (cap_read (v_def var)))"

definition mbb_var_is_readonly :: "'m mbb_var \<Rightarrow> bool" where
  "mbb_var_is_readonly var = (op_write (v_def var) = None)"

definition mbb_var_can_write :: "'m mbb_var \<Rightarrow> guint32 \<Rightarrow> bool" where
  "mbb_var_can_write var cap = (if mbb_var_is_readonly var then False else mbb_cap_check cap (cap_write (v_def var)))"

definition mbb_var_is_base :: "'m mbb_var \<Rightarrow> bool" where
  "mbb_var_is_base var = (case v_priv var of Base_Var _ \<Rightarrow> True | Session_Var _ \<Rightarrow> False)"

definition mbb_var_is_session :: "'m mbb_var \<Rightarrow> bool" where
  "mbb_var_is_session var = (case v_priv var of Base_Var _ \<Rightarrow> False | Session_Var _ \<Rightarrow> True)"

definition call_op_read :: "'m srv \<Rightarrow> thread_id \<Rightarrow> 'm mbb_var \<Rightarrow> gpointer \<Rightarrow> string option option" where
  "call_op_read st t var ptr =
     (case op_read (v_def var) of
        None \<Rightarrow> None
      | Some (Op_Read f) \<Rightarrow> Some (f ptr (sv_mem st))
      | Some var_session_peer_get \<Rightarrow> Some (mbb_thread_get_peer st t)
      | Some var_session_user_get \<Rightarrow> map_option Some (user_name st (mbb_thread_get_user st t)))"

definition call_op_write :: "'m srv \<Rightarrow> 'm mbb_var \<Rightarrow> string \<Rightarrow> gpointer \<Rightarrow> ('m srv \<times> bool) option" where
  "call_op_write st var arg ptr =
     do { f \<leftarrow> op_write (v_def var);
          let (m, r) = f arg ptr (sv_mem st);
          Some (st\<lparr>sv_mem := m\<rparr>, r) }"

definition mbb_base_var_read :: "'m srv \<Rightarrow> thread_id \<Rightarrow> 'm mbb_var \<Rightarrow> gpointer \<Rightarrow> string option option" where
  "mbb_base_var_read st t var ptr = call_op_read st t var ptr"

definition mbb_base_var_write :: "'m srv \<Rightarrow> 'm mbb_var \<Rightarrow> gpointer \<Rightarrow> string \<Rightarrow> ('m srv \<times> bool) option" where
  "mbb_base_var_write st var ptr arg = call_op_write st var arg ptr"

definition mbb_session_var_read :: "'m srv \<Rightarrow> thread_id \<Rightarrow> gpointer \<Rightarrow> 'm mbb_var \<Rightarrow> ('m srv \<times> string option) option" where
  "mbb_session_var_read st t p var =
     do { (st, ptr) \<leftarrow> mbb_session_var_get_data st t p; r \<leftarrow> call_op_read st t var ptr; Some (st, r) }"

definition mbb_session_var_write :: "'m srv \<Rightarrow> thread_id \<Rightarrow> gpointer \<Rightarrow> 'm mbb_var \<Rightarrow> string \<Rightarrow> ('m srv \<times> bool) option" where
  "mbb_session_var_write st t p var arg =
     do { (st, ptr) \<leftarrow> mbb_session_var_get_data st t p; call_op_write st var arg ptr }"

definition mbb_var_read :: "'m srv \<Rightarrow> thread_id \<Rightarrow> gpointer \<Rightarrow> ('m srv \<times> string option) option" where
  "mbb_var_read st t p =
     do { var \<leftarrow> sv_vars st p;
          (case v_priv var of
             Base_Var ptr \<Rightarrow> map_option (Pair st) (mbb_base_var_read st t var ptr)
           | Session_Var _ \<Rightarrow> mbb_session_var_read st t p var) }"

definition mbb_var_write :: "'m srv \<Rightarrow> thread_id \<Rightarrow> gpointer \<Rightarrow> string \<Rightarrow> ('m srv \<times> bool) option" where
  "mbb_var_write st t p arg =
     do { var \<leftarrow> sv_vars st p;
          (case v_priv var of
             Base_Var ptr \<Rightarrow> mbb_base_var_write st var ptr arg
           | Session_Var _ \<Rightarrow> mbb_session_var_write st t p var arg) }"

definition mbb_var_free :: "'m srv \<Rightarrow> gpointer \<Rightarrow> 'm srv option" where
  "mbb_var_free st p =
     do { var \<leftarrow> sv_vars st p;
          st \<leftarrow> (case v_priv var of Base_Var _ \<Rightarrow> Some st | Session_Var _ \<Rightarrow> mbb_session_del_var st p);
          Some (st\<lparr>sv_vars := (sv_vars st)(p := None)\<rparr>) }"

text \<open>New variables at the address \<open>p\<close>.\<close>

definition mbb_var_new :: "string \<Rightarrow> 'm mbb_var_def \<Rightarrow> 'm var_priv \<Rightarrow> 'm mbb_var" where
  "mbb_var_new name df priv = \<lparr>v_def = df, v_mod = None, v_name = name, v_priv = priv\<rparr>"

definition mbb_base_var_new :: "'m srv \<Rightarrow> gpointer \<Rightarrow> string \<Rightarrow> 'm mbb_var_def \<Rightarrow> gpointer \<Rightarrow> 'm srv" where
  "mbb_base_var_new st p name df ptr = st\<lparr>sv_vars := (sv_vars st)(p \<mapsto> mbb_var_new name df (Base_Var ptr))\<rparr>"

definition mbb_session_var_new :: "'m srv \<Rightarrow> gpointer \<Rightarrow> string \<Rightarrow> 'm mbb_var_def \<Rightarrow> 'm mbb_session_var \<Rightarrow> 'm srv" where
  "mbb_session_var_new st p name df priv =
     mbb_session_add_var (st\<lparr>sv_vars := (sv_vars st)(p \<mapsto> mbb_var_new name df (Session_Var priv))\<rparr>) p"

subsection \<open>Caches\<close>

text \<open>The table a name belongs to; a created table is part of the state that is returned.\<close>

definition mbb_var_get_cache_table :: "'m srv \<Rightarrow> thread_id \<Rightarrow> string \<Rightarrow> bool \<Rightarrow> 'm srv \<times> (string \<times> string) list option" where
  "mbb_var_get_cache_table st t name create =
     (if g_str_has_prefix name MBB_SESSION_VAR_PREFIX then mbb_session_get_cached st t create
      else if sv_cache_global st = None \<and> create then (st\<lparr>sv_cache_global := Some []\<rparr>, Some [])
      else (st, sv_cache_global st))"

text \<open>Storing the changed table of a name.\<close>

definition put_cache_table :: "'m srv \<Rightarrow> thread_id \<Rightarrow> string \<Rightarrow> (string \<times> string) list \<Rightarrow> 'm srv" where
  "put_cache_table st t name tbl =
     (if g_str_has_prefix name MBB_SESSION_VAR_PREFIX
      then (case current_session st t of
              None \<Rightarrow> st
            | Some ss \<Rightarrow>
                (case sv_sessions st ss of
                   None \<Rightarrow> st
                 | Some s \<Rightarrow> set_session st ss (Some (s\<lparr>ss_cached_vars := Some tbl\<rparr>))))
      else st\<lparr>sv_cache_global := Some tbl\<rparr>)"

definition mbb_var_cache_add :: "'m srv \<Rightarrow> thread_id \<Rightarrow> string \<Rightarrow> string \<Rightarrow> 'm srv" where
  "mbb_var_cache_add st t name value =
     (case mbb_var_get_cache_table st t name True of
        (st, None) \<Rightarrow> st
      | (st, Some cache) \<Rightarrow> put_cache_table st t name (AList.update name value cache))"

definition mbb_var_cache_get :: "'m srv \<Rightarrow> thread_id \<Rightarrow> string \<Rightarrow> string option" where
  "mbb_var_cache_get st t name =
     (case snd (mbb_var_get_cache_table st t name False) of None \<Rightarrow> None | Some cache \<Rightarrow> map_of cache name)"

definition mbb_var_cache_save :: "'m srv \<Rightarrow> thread_id \<Rightarrow> gpointer \<Rightarrow> 'm srv option" where
  "mbb_var_cache_save st t p =
     do { (st, value) \<leftarrow> mbb_var_read st t p;
          (case value of
             None \<Rightarrow> Some st
           | Some v \<Rightarrow> do { var \<leftarrow> sv_vars st p; Some (mbb_var_cache_add st t (v_name var) v) }) }"

definition mbb_var_cache_load :: "'m srv \<Rightarrow> thread_id \<Rightarrow> gpointer \<Rightarrow> 'm srv option" where
  "mbb_var_cache_load st t p =
     do { var \<leftarrow> sv_vars st p;
          if mbb_var_is_readonly var then Some st
          else (case mbb_var_cache_get st t (v_name var) of
                  None \<Rightarrow> Some st
                | Some value \<Rightarrow> map_option fst (mbb_var_write st t p value)) }"

subsection \<open>Registration\<close>

definition mbb_var_register :: "'m srv \<Rightarrow> gpointer \<Rightarrow> 'm srv option" where
  "mbb_var_register st p =
     do { var \<leftarrow> sv_vars st p;
          let st = (case sv_var_ht st of None \<Rightarrow> st\<lparr>sv_var_ht := Some []\<rparr> | Some _ \<Rightarrow> st);
          if ht_lookup (sv_var_ht st) (v_name var) \<noteq> None then Some st
          else Some (st\<lparr>sv_var_ht := ht_insert (sv_var_ht st) (v_name var) p\<rparr>) }"

definition mbb_var_mregister :: "'m srv \<Rightarrow> thread_id \<Rightarrow> gpointer \<Rightarrow> gpointer \<Rightarrow> ('m srv \<times> bool) option" where
  "mbb_var_mregister st t p md =
     do { var \<leftarrow> sv_vars st p;
          if ht_lookup (sv_var_ht st) (v_name var) \<noteq> None then Some (st, False)
          else
            do { let var = mbb_var_set_module var (Some md);
                 let st = st\<lparr>sv_vars := (sv_vars st)(p \<mapsto> var)\<rparr>;
                 st \<leftarrow>
                   (case v_priv var of
                      Base_Var ptr \<Rightarrow>
                        if mbb_var_can_write var MBB_CAP_ROOT then
                          (let value = (if \<not> g_str_has_prefix (v_name var) MBB_SESSION_VAR_PREFIX
                                        then mbb_var_cache_get st t (MBB_SESSION_VAR_PREFIX @ v_name var) else None);
                               value = (if value = None then mbb_var_cache_get st t (v_name var) else value)
                           in case value of
                                None \<Rightarrow> Some st
                              | Some v \<Rightarrow> map_option fst (mbb_base_var_write st var ptr v))
                        else Some st
                    | Session_Var _ \<Rightarrow> Some st);
                 Some (st\<lparr>sv_var_ht := ht_insert (sv_var_ht st) (v_name var) p\<rparr>, True) } }"

definition mbb_var_get_by_name :: "'m srv \<Rightarrow> string \<Rightarrow> gpointer option option" where
  "mbb_var_get_by_name st name =
     (case ht_lookup (sv_var_ht st) name of
        None \<Rightarrow> Some None
      | Some p \<Rightarrow>
          do { var \<leftarrow> sv_vars st p;
               alive \<leftarrow> mbb_var_is_alive st var;
               Some (if alive = False then None else Some p) })"

definition mbb_var_unregister :: "'m srv \<Rightarrow> gpointer \<Rightarrow> 'm srv option" where
  "mbb_var_unregister st p =
     do { var \<leftarrow> sv_vars st p; Some (st\<lparr>sv_var_ht := ht_remove (sv_var_ht st) (v_name var)\<rparr>) }"

definition mbb_var_assign :: "'m srv \<Rightarrow> thread_id \<Rightarrow> string \<Rightarrow> string \<Rightarrow> ('m srv \<times> MbbVarError option) option" where
  "mbb_var_assign st t varname value =
     do { found \<leftarrow> mbb_var_get_by_name st varname;
          (case found of
             None \<Rightarrow> Some (st, Some MBB_VAR_ERROR_UNKNOWN)
           | Some p \<Rightarrow>
               do { var \<leftarrow> sv_vars st p;
                    if mbb_var_is_readonly var then Some (st, Some MBB_VAR_ERROR_READONLY)
                    else if mbb_var_is_session var then Some (st, Some MBB_VAR_ERROR_SESSION)
                    else
                      do { (st, r) \<leftarrow> mbb_var_write st t p value;
                           Some (st, if r = False then Some MBB_VAR_ERROR_INVALID else None) } }) }"

subsection \<open>Commands\<close>

text \<open>An answer that leaves the state as it is.\<close>

definition reply :: "'s \<Rightarrow> xml_tag option \<Rightarrow> ('s \<times> xml_tag option) option" where
  "reply st ans = do { a \<leftarrow> ans; Some (st, Some a) }"

definition gather_var_name :: "'m srv \<Rightarrow> xml_tag \<Rightarrow> string \<times> gpointer \<Rightarrow> xml_tag option" where
  "gather_var_name st tag = (\<lambda>(_, p).
     do { var \<leftarrow> sv_vars st p;
          alive \<leftarrow> mbb_var_is_alive st var;
          if alive then
            do { let xt = xml_tag_new ''var'' [(''name'', variant_new_string (Some (v_name var)))] None;
                 xt \<leftarrow> (case v_mod var of
                          None \<Rightarrow> Some xt
                        | Some md \<Rightarrow>
                            do { m \<leftarrow> dm_heap (sv_modules st) md;
                                 Some (xml_tag_set_attr xt ''module'' (variant_new_string (Some (md_name m)))) });
                 Some (xml_tag_add_child tag xt) }
          else Some tag })"

definition var_list :: "'m srv \<Rightarrow> ('m srv \<times> xml_tag option) option" where
  "var_list st =
     reply st (fold (\<lambda>entry ans. do { a \<leftarrow> ans; gather_var_name st a entry })
       (case sv_var_ht st of None \<Rightarrow> [] | Some ht \<Rightarrow> ht) (Some mbb_xml_msg_ok))"

definition var_show :: "'m srv \<Rightarrow> thread_id \<Rightarrow> xml_tag \<Rightarrow> ('m srv \<times> xml_tag option) option" where
  "var_show st t tag =
     do { args \<leftarrow> mbb_xtv_call_z tag [(xtv_var_name, False)];
          (case args of
             Inl ans \<Rightarrow> Some (st, Some ans)
           | Inr [Some (XV_Str name)] \<Rightarrow>
               do { found \<leftarrow> mbb_var_get_by_name st name;
                    (case found of
                       None \<Rightarrow> reply st (mbb_xml_msg MBB_MSG_UNKNOWN_VAR [])
                     | Some p \<Rightarrow>
                         do { var \<leftarrow> sv_vars st p;
                              cap \<leftarrow> mbb_thread_get_cap st t;
                              if \<not> mbb_var_can_read var cap then reply st (mbb_xml_msg MBB_MSG_NOT_CAPABLE [])
                              else
                                do { (st, value) \<leftarrow> mbb_var_read st t p;
                                     reply st (Some (xml_tag_new_child mbb_xml_msg_ok ''var''
                                       [(''value'', variant_new_alloc_string value)])) } }) }
           | _ \<Rightarrow> None) }"

definition var_set :: "'m srv \<Rightarrow> thread_id \<Rightarrow> xml_tag \<Rightarrow> ('m srv \<times> xml_tag option) option" where
  "var_set st t tag =
     do { args \<leftarrow> mbb_xtv_call_z tag [(xtv_var_name, False), (xtv_var_value, False)];
          (case args of
             Inl ans \<Rightarrow> Some (st, Some ans)
           | Inr [Some (XV_Str name), Some (XV_Str value)] \<Rightarrow>
               do { found \<leftarrow> mbb_var_get_by_name st name;
                    (case found of
                       None \<Rightarrow> reply st (mbb_xml_msg MBB_MSG_UNKNOWN_VAR [])
                     | Some p \<Rightarrow>
                         do { var \<leftarrow> sv_vars st p;
                              cap \<leftarrow> mbb_thread_get_cap st t;
                              if \<not> mbb_var_can_write var cap then reply st (mbb_xml_msg MBB_MSG_NOT_CAPABLE [])
                              else
                                do { (st, r) \<leftarrow> mbb_var_write st t p value;
                                     if r = False then reply st (mbb_xml_msg MBB_MSG_INVALID_VALUE [])
                                     else Some (st, None) } }) }
           | _ \<Rightarrow> None) }"

fun show_vars_loop ::
  "(string \<Rightarrow> bool) option \<Rightarrow> guint32 \<Rightarrow> thread_id \<Rightarrow> (string \<times> gpointer) list \<Rightarrow> 'm srv \<Rightarrow> xml_tag \<Rightarrow> ('m srv \<times> xml_tag) option" where
  "show_vars_loop re cap t [] st ans = Some (st, ans)"
| "show_vars_loop re cap t ((_, p) # iter) st ans =
     do { var \<leftarrow> sv_vars st p;
          alive \<leftarrow> mbb_var_is_alive st var;
          if alive = False \<or> (case re of None \<Rightarrow> False | Some ismatch \<Rightarrow> \<not> ismatch (v_name var))
             \<or> mbb_var_can_read var cap = False
          then show_vars_loop re cap t iter st ans
          else
            do { (st, value) \<leftarrow> mbb_var_read st t p;
                 show_vars_loop re cap t iter st
                   (xml_tag_new_child ans ''var''
                     [(''name'', variant_new_string (Some (v_name var))), (''value'', variant_new_alloc_string value)]) } }"

definition show_vars :: "xtv_env \<Rightarrow> 'm srv \<Rightarrow> thread_id \<Rightarrow> xml_tag \<Rightarrow> ('m srv \<times> xml_tag option) option" where
  "show_vars env st t tag =
     do { args \<leftarrow> mbb_xtv_call_z tag [(xtv_regex_value env, True)];
          (case args of
             Inl ans \<Rightarrow> Some (st, Some ans)
           | Inr [re] \<Rightarrow>
               (case sv_var_ht st of
                  None \<Rightarrow> Some (st, Some mbb_xml_msg_ok)
                | Some ht \<Rightarrow>
                    do { cap \<leftarrow> mbb_thread_get_cap st t;
                         (st, ans) \<leftarrow>
                           show_vars_loop (case re of Some (XV_Regex r) \<Rightarrow> Some r | _ \<Rightarrow> None) cap t ht st mbb_xml_msg_ok;
                         Some (st, Some ans) })
           | _ \<Rightarrow> None) }"

definition var_cache_add :: "'m srv \<Rightarrow> thread_id \<Rightarrow> xml_tag \<Rightarrow> ('m srv \<times> xml_tag option) option" where
  "var_cache_add st t tag =
     do { args \<leftarrow> mbb_xtv_call_z tag [(xtv_var_name, False), (xtv_var_value, True)];
          (case args of
             Inl ans \<Rightarrow> Some (st, Some ans)
           | Inr [Some (XV_Str name), Some (XV_Str value)] \<Rightarrow> Some (mbb_var_cache_add st t name value, None)
           | Inr [Some (XV_Str name), None] \<Rightarrow>
               do { found \<leftarrow> mbb_var_get_by_name st name;
                    (case found of
                       None \<Rightarrow> reply st (mbb_xml_msg MBB_MSG_UNKNOWN_VAR [])
                     | Some p \<Rightarrow>
                         do { (st, value) \<leftarrow> mbb_var_read st t p;
                              Some (case value of None \<Rightarrow> st | Some v \<Rightarrow> mbb_var_cache_add st t name v, None) }) }
           | _ \<Rightarrow> None) }"

definition var_cache_load :: "'m srv \<Rightarrow> thread_id \<Rightarrow> xml_tag \<Rightarrow> ('m srv \<times> xml_tag option) option" where
  "var_cache_load st t tag =
     do { args \<leftarrow> mbb_xtv_call_z tag [(xtv_var_name, False)];
          (case args of
             Inl ans \<Rightarrow> Some (st, Some ans)
           | Inr [Some (XV_Str name)] \<Rightarrow>
               (case mbb_var_cache_get st t name of
                  None \<Rightarrow> reply st (mbb_xml_msg MBB_MSG_UNKNOWN_VAR [])
                | Some value \<Rightarrow>
                    do { found \<leftarrow> mbb_var_get_by_name st name;
                         (case found of
                            None \<Rightarrow> reply st (mbb_xml_msg_error (Some ''similar var missed'') [])
                          | Some p \<Rightarrow>
                              do { var \<leftarrow> sv_vars st p;
                                   if mbb_var_is_readonly var
                                   then reply st (mbb_xml_msg_error (Some ''similar var is readonly'') [])
                                   else
                                     do { (st, r) \<leftarrow> mbb_var_write st t p value;
                                          if r = False then reply st (mbb_xml_msg MBB_MSG_INVALID_VALUE [])
                                          else Some (st, None) } }) })
           | _ \<Rightarrow> None) }"

definition var_cache_del :: "'m srv \<Rightarrow> thread_id \<Rightarrow> xml_tag \<Rightarrow> ('m srv \<times> xml_tag option) option" where
  "var_cache_del st t tag =
     do { args \<leftarrow> mbb_xtv_call_z tag [(xtv_var_name, False)];
          (case args of
             Inl ans \<Rightarrow> Some (st, Some ans)
           | Inr [Some (XV_Str name)] \<Rightarrow>
               (case snd (mbb_var_get_cache_table st t name False) of
                  None \<Rightarrow> Some (st, None)
                | Some cache \<Rightarrow> Some (put_cache_table st t name (AList.delete name cache), None))
           | _ \<Rightarrow> None) }"

definition var_cache_show :: "'m srv \<Rightarrow> thread_id \<Rightarrow> xml_tag \<Rightarrow> ('m srv \<times> xml_tag option) option" where
  "var_cache_show st t tag =
     do { args \<leftarrow> mbb_xtv_call_z tag [(xtv_var_name, False)];
          (case args of
             Inl ans \<Rightarrow> Some (st, Some ans)
           | Inr [Some (XV_Str name)] \<Rightarrow>
               (case mbb_var_cache_get st t name of
                  None \<Rightarrow> reply st (mbb_xml_msg MBB_MSG_UNKNOWN_VAR [])
                | Some value \<Rightarrow>
                    reply st (Some (xml_tag_new_child mbb_xml_msg_ok ''var'' [(''value'', variant_new_string (Some value))])))
           | _ \<Rightarrow> None) }"

definition var_cache_list_gather :: "string \<times> string \<Rightarrow> xml_tag \<Rightarrow> xml_tag" where
  "var_cache_list_gather = (\<lambda>(key, _) data. xml_tag_new_child data ''var'' [(''name'', variant_new_string (Some key))])"

definition show_cached_gather :: "string \<times> string \<Rightarrow> xml_tag \<Rightarrow> xml_tag" where
  "show_cached_gather = (\<lambda>(key, value) data.
     xml_tag_new_child data ''var'' [(''name'', variant_new_string (Some key)), (''value'', variant_new_string (Some value))])"

definition gather_caches :: "(string \<times> string \<Rightarrow> xml_tag \<Rightarrow> xml_tag) \<Rightarrow> 'm srv \<Rightarrow> thread_id \<Rightarrow> xml_tag" where
  "gather_caches gather st t =
     (let ans = fold gather (case sv_cache_global st of None \<Rightarrow> [] | Some cache \<Rightarrow> cache) mbb_xml_msg_ok
      in fold gather (case snd (mbb_session_get_cached st t False) of None \<Rightarrow> [] | Some cache \<Rightarrow> cache) ans)"

definition var_cache_list :: "'m srv \<Rightarrow> thread_id \<Rightarrow> ('m srv \<times> xml_tag option) option" where
  "var_cache_list st t = Some (st, Some (gather_caches var_cache_list_gather st t))"

definition show_cached :: "'m srv \<Rightarrow> thread_id \<Rightarrow> ('m srv \<times> xml_tag option) option" where
  "show_cached st t = Some (st, Some (gather_caches show_cached_gather st t))"

section \<open>Who may change what\<close>

text \<open>The memory and the values of the current session may differ, nothing else.\<close>

definition values_changed :: "'m srv \<Rightarrow> thread_id \<Rightarrow> 'm srv \<Rightarrow> bool" where
  "values_changed st t st' \<longleftrightarrow>
     (\<exists>m ss. st' = st\<lparr>sv_mem := m, sv_sessions := ss\<rparr> \<and>
       (\<forall>q. current_session st t \<noteq> Some q \<longrightarrow> ss q = sv_sessions st q) \<and>
       (\<forall>q s. sv_sessions st q = Some s \<longrightarrow> (\<exists>vs. ss q = Some (s\<lparr>ss_vars := vs\<rparr>))))"

lemma values_changed_mem: "values_changed st t st' \<Longrightarrow> values_changed st t (st'\<lparr>sv_mem := m\<rparr>)"
  unfolding values_changed_def
proof (elim exE conjE)
  fix m' ss
  assume "st' = st\<lparr>sv_mem := m', sv_sessions := ss\<rparr>"
    "\<forall>q. current_session st t \<noteq> Some q \<longrightarrow> ss q = sv_sessions st q"
    "\<forall>q s. sv_sessions st q = Some s \<longrightarrow> (\<exists>vs. ss q = Some (s\<lparr>ss_vars := vs\<rparr>))"
  then show "\<exists>n ss. st'\<lparr>sv_mem := m\<rparr> = st\<lparr>sv_mem := n, sv_sessions := ss\<rparr> \<and>
      (\<forall>q. current_session st t \<noteq> Some q \<longrightarrow> ss q = sv_sessions st q) \<and>
      (\<forall>q s. sv_sessions st q = Some s \<longrightarrow> (\<exists>vs. ss q = Some (s\<lparr>ss_vars := vs\<rparr>)))"
    by (intro exI [of _ m] exI [of _ ss]) simp
qed

lemma values_changed_refl [simp]: "values_changed st t st"
proof -
  have "\<exists>vs. Some s = Some (s\<lparr>ss_vars := vs\<rparr>)" for s :: mbb_session by (rule exI [of _ "ss_vars s"]) simp
  then show ?thesis unfolding values_changed_def by (intro exI [of _ "sv_mem st"] exI [of _ "sv_sessions st"]) auto
qed

lemma insert_var_changes:
  assumes "session_insert_var st ss var = Some (st', data)" and "current_session st t = Some ss"
  shows "values_changed st t st'"
proof -
  from assms(1) obtain m s vs where s: "sv_sessions st ss = Some s"
      "st' = set_session (st\<lparr>sv_mem := m\<rparr>) ss (Some (s\<lparr>ss_vars := vs\<rparr>))"
    by (auto simp: session_insert_var_def Let_def split: bind_splits prod.splits)
  have same: "\<exists>vs. Some s = Some (s\<lparr>ss_vars := vs\<rparr>)" for s :: mbb_session by (rule exI [of _ "ss_vars s"]) simp
  show ?thesis
    unfolding values_changed_def s(2) set_session_def
    by (rule exI [of _ m], rule exI [of _ "(sv_sessions st)(ss \<mapsto> s\<lparr>ss_vars := vs\<rparr>)"]) (use assms(2) s(1) same in auto)
qed

lemma get_data_changes:
  assumes "mbb_session_var_get_data st t p = Some (st', ptr)"
  shows "values_changed st t st'"
proof (cases "current_session st t")
  case (Some ss)
  with assms show ?thesis
    by (auto simp: mbb_session_var_get_data_def split: bind_splits option.splits dest: insert_var_changes)
qed (use assms in \<open>simp add: mbb_session_var_get_data_def\<close>)

lemma write_changes:
  assumes "mbb_var_write st t p arg = Some (st', r)"
  shows "values_changed st t st'"
  using assms get_data_changes
  by (auto simp: mbb_var_write_def mbb_base_var_write_def mbb_session_var_write_def call_op_write_def
      intro!: values_changed_mem split: bind_splits var_priv.splits prod.splits)

lemma read_changes:
  assumes "mbb_var_read st t p = Some (st', r)"
  shows "values_changed st t st'"
  using assms get_data_changes
  by (auto simp: mbb_var_read_def mbb_base_var_read_def mbb_session_var_read_def split: bind_splits var_priv.splits)

text \<open>The variable \<open>p\<close> is registered under the name, its module runs, and the thread's user may write it.\<close>

definition writable :: "'m srv \<Rightarrow> thread_id \<Rightarrow> string \<Rightarrow> gpointer \<Rightarrow> bool" where
  "writable st t name p \<longleftrightarrow>
     (\<exists>var cap. ht_lookup (sv_var_ht st) name = Some p \<and> sv_vars st p = Some var \<and>
       (\<forall>md. v_mod var = Some md \<longrightarrow> mbb_module_isrun st md = Some True) \<and>
       op_write (v_def var) \<noteq> None \<and> mbb_thread_get_cap st t = Some cap \<and> mbb_cap_check cap (cap_write (v_def var)))"

definition readable :: "'m srv \<Rightarrow> thread_id \<Rightarrow> string \<Rightarrow> gpointer \<Rightarrow> bool" where
  "readable st t name p \<longleftrightarrow>
     (\<exists>var cap. ht_lookup (sv_var_ht st) name = Some p \<and> sv_vars st p = Some var \<and>
       (\<forall>md. v_mod var = Some md \<longrightarrow> mbb_module_isrun st md = Some True) \<and>
       op_read (v_def var) \<noteq> None \<and> mbb_thread_get_cap st t = Some cap \<and> mbb_cap_check cap (cap_read (v_def var)))"

lemmas var_access_defs = mbb_var_get_by_name_def mbb_var_is_alive_def mbb_var_can_write_def mbb_var_can_read_def
  mbb_var_is_readonly_def reply_def

text \<open>
  C26. A variable is set exactly when it is registered, its module runs and the user of the
  session has the capability to write it; the answer tells whether the value was accepted.
  In every other case nothing changes and the answer is an error. A successful change
  reaches the memory of the variable and the values of the current session: the registry,
  the users, the caches, and every other session stay as they are.
\<close>

theorem var_set_guarded:
  assumes r: "var_set st t tag = Some (st', ans)"
    and args: "mbb_xtv_call_z tag [(xtv_var_name, False), (xtv_var_value, False)] =
      Some (Inr [Some (XV_Str name), Some (XV_Str value)])"
  shows "((\<forall>p. \<not> writable st t name p) \<longrightarrow> st' = st \<and>
       (ans = mbb_xml_msg MBB_MSG_UNKNOWN_VAR [] \<or> ans = mbb_xml_msg MBB_MSG_NOT_CAPABLE [])) \<and>
     (\<forall>p. writable st t name p \<longrightarrow> values_changed st t st' \<and>
       (\<exists>ok. mbb_var_write st t p value = Some (st', ok) \<and>
         ans = (if ok then None else mbb_xml_msg MBB_MSG_INVALID_VALUE [])))"
proof -
  from r args obtain found where found: "mbb_var_get_by_name st name = Some found"
    by (auto simp: var_set_def split: bind_splits)
  show ?thesis
  proof (cases found)
    case None
    have "\<not> writable st t name p" for p
      using found None by (auto simp: writable_def var_access_defs split: option.splits bind_splits if_splits)
    moreover have "st' = st \<and> ans = mbb_xml_msg MBB_MSG_UNKNOWN_VAR []"
      using r args found None by (auto simp: var_set_def reply_def split: bind_splits)
    ultimately show ?thesis by blast
  next
    case (Some p)
    from r args found Some obtain var cap where v: "sv_vars st p = Some var" "mbb_thread_get_cap st t = Some cap"
      by (auto simp: var_set_def split: bind_splits)
    have p: "writable st t name q \<longleftrightarrow> q = p \<and> mbb_var_can_write var cap" for q
      using found Some v by (auto simp: writable_def var_access_defs split: option.splits bind_splits if_splits)
    show ?thesis
    proof (cases "mbb_var_can_write var cap")
      case False
      with r args found Some v have "st' = st \<and> ans = mbb_xml_msg MBB_MSG_NOT_CAPABLE []"
        by (auto simp: var_set_def reply_def split: bind_splits)
      with p False show ?thesis by blast
    next
      case True
      from r args found Some v True obtain ok where "mbb_var_write st t p value = Some (st', ok)"
          "ans = (if ok then None else mbb_xml_msg MBB_MSG_INVALID_VALUE [])"
        by (auto simp: var_set_def reply_def split: bind_splits if_splits)
      with write_changes [of st t p "value" st' ok] p True show ?thesis by auto
    qed
  qed
qed

text \<open>Showing a variable discloses its value to readers only.\<close>

lemma var_show_guarded:
  assumes "var_show st t tag = Some (st', ans)"
    and "mbb_xtv_call_z tag [(xtv_var_name, False)] = Some (Inr [Some (XV_Str name)])"
    and "\<forall>p. \<not> readable st t name p"
  shows "st' = st \<and> (ans = mbb_xml_msg MBB_MSG_UNKNOWN_VAR [] \<or> ans = mbb_xml_msg MBB_MSG_NOT_CAPABLE [])"
  using assms
  by (auto simp: var_show_def readable_def var_access_defs split: bind_splits option.splits if_splits)

text \<open>A variable everybody may write, and the request that sets it.\<close>

definition srv_var :: "unit srv" where
  "srv_var = srv0\<lparr>sv_vars := [7 \<mapsto> mbb_var_new ''x'' \<lparr>op_read = None, op_write = Some (\<lambda>arg _ m. (m, arg = ''on'')),
     cap_read = 0, cap_write = - 1\<rparr> (Base_Var 8)], sv_var_ht := Some [(''x'', 7)]\<rparr>"

definition set_request :: xml_tag where
  "set_request = Xml_Tag ''request'' [] None [(''var'', [Xml_Tag ''var''
     [(''name'', VARIANT_STRING (Some ''x'')), (''value'', VARIANT_STRING (Some ''on''))] None []])]"

theorem var_set_guarded_witness:
  "\<exists>st'. var_set srv_var 0 set_request = Some (st', None) \<and> values_changed srv_var 0 st'"
proof -
  have args: "mbb_xtv_call_z set_request [(xtv_var_name, False), (xtv_var_value, False)] =
      Some (Inr [Some (XV_Str ''x''), Some (XV_Str ''on'')])"
    by (simp add: set_request_def mbb_xtv_call_z_def xml_tag_get_valuesv_def xtv_var_name_def xtv_var_value_def
        xtv_entry_def xml_tag_path_attr_def xml_tag_path_def g_strsplit_def xml_tag_get_child_def xml_tag_get_attr_def
        variant_get_string_def var_conv_str_def)
  have w: "writable srv_var 0 ''x'' 7" and v: "mbb_var_write srv_var 0 7 ''on'' = Some (srv_var, True)"
    by (simp_all add: writable_def srv_var_def srv0_def ht_lookup_def mbb_var_new_def mbb_thread_get_cap_def
        mbb_thread_get_user_def mbb_cap_check_def MBB_CAP_DUMMY_def mbb_var_write_def mbb_base_var_write_def call_op_write_def)
  have "\<exists>st' ans. var_set srv_var 0 set_request = Some (st', ans)"
    using args w v by (auto simp: var_set_def writable_def var_access_defs split: option.splits)
  then obtain st' ans where r: "var_set srv_var 0 set_request = Some (st', ans)" by blast
  from var_set_guarded [OF r args] w v show ?thesis using r by auto
qed

end
