(* ===== verification/Mbb_Module.thy ===== *)
theory Mbb_Module
  imports Mbb_Var
begin

text \<open>
  The commands of the server (\<open>mbbd/mbbfunc.c\<close>) and its loadable modules
  (\<open>mbbd/mbbmodule.c\<close>). A command belongs to the server or to a module; calling it takes
  the reader lock of the module, which unloading has to find free. The code of a command
  and of a module is reached through a function pointer: it is a parameter, as is the
  dynamic linker. A lock that is taken and released inside one operation leaves no
  trace in the model; releasing a lock that is not held is \<open>None\<close>.
\<close>

section \<open>Definitions\<close>

datatype MbbModuleError =
  MBB_MODULE_ERROR_UNKNOWN | MBB_MODULE_ERROR_EXISTS | MBB_MODULE_ERROR_LOADED | MBB_MODULE_ERROR_OPEN
| MBB_MODULE_ERROR_FOREIGN | MBB_MODULE_ERROR_INVALID | MBB_MODULE_ERROR_EMPTY | MBB_MODULE_ERROR_USED

type_synonym module_error = "MbbModuleError \<times> string"

text \<open>The code behind a function pointer, run by a thread.\<close>

type_synonym 'm command_code = "gpointer \<Rightarrow> thread_id \<Rightarrow> xml_tag \<Rightarrow> 'm srv \<Rightarrow> ('m srv \<times> xml_tag option) option"

record 'm loader =
  ld_dlopen :: "string \<Rightarrow> 'm srv \<Rightarrow> 'm srv \<times> gpointer option"
  ld_dlerror :: string
  ld_dlclose :: "gpointer \<Rightarrow> 'm srv \<Rightarrow> 'm srv"
  ld_call :: "gpointer \<Rightarrow> 'm srv \<Rightarrow> 'm srv option"
  ld_str_at :: "gpointer \<Rightarrow> 'm \<Rightarrow> string option"
  ld_md_var :: gpointer
  ld_module_dir :: gpointer

definition module_entries :: "mbb_module dl_entries" where
  "module_entries =
     [\<lambda>p m. Key_Ptr p, \<lambda>p m. Key_Str (md_name m), \<lambda>p m. Key_Ptr (md_handle m), \<lambda>p m. Key_Ptr (md_info m)]"

definition get_module :: "'m srv \<Rightarrow> gpointer \<Rightarrow> mbb_module option" where
  "get_module st p = dm_heap (sv_modules st) p"

definition set_module :: "'m srv \<Rightarrow> gpointer \<Rightarrow> mbb_module option \<Rightarrow> 'm srv" where
  "set_module st p m = st\<lparr>sv_modules := (sv_modules st)\<lparr>dm_heap := (dm_heap (sv_modules st))(p := m)\<rparr>\<rparr>"

subsection \<open>Use of a module\<close>

definition mbb_module_current :: "'m srv \<Rightarrow> gpointer option" where
  "mbb_module_current st =
     (case sv_cur_info st of None \<Rightarrow> None | Some i \<Rightarrow> Option.bind (sv_infos st i) mi_module)"

definition mbb_module_new :: "string \<Rightarrow> gpointer \<Rightarrow> gpointer \<Rightarrow> time_t \<Rightarrow> mbb_module" where
  "mbb_module_new name handle info now =
     \<lparr>md_info = info, md_handle = handle, md_name = name, md_use_count = 0, md_run = False, md_start = now,
      md_functions = None, md_vars = [], md_total = 0, md_nreg = 0, md_export = None, md_deps = [],
      md_onready = None, md_rwlock = \<lparr>rw_readers = 0, rw_writer = False\<rparr>\<rparr>"

definition mbb_module_last_used :: "'m srv \<Rightarrow> thread_id \<Rightarrow> gpointer option" where
  "mbb_module_last_used st t = sv_mod_key st t"

definition add_reader :: "mbb_module \<Rightarrow> mbb_module" where
  "add_reader m = m\<lparr>md_rwlock := (md_rwlock m)\<lparr>rw_readers := rw_readers (md_rwlock m) + 1\<rparr>,
                    md_use_count := md_use_count m + 1\<rparr>"

definition drop_reader :: "mbb_module \<Rightarrow> mbb_module option" where
  "drop_reader m =
     (if rw_readers (md_rwlock m) = 0 then None
      else Some (m\<lparr>md_rwlock := (md_rwlock m)\<lparr>rw_readers := rw_readers (md_rwlock m) - 1\<rparr>,
                   md_use_count := md_use_count m - 1\<rparr>))"

text \<open>\<open>_mbb_module_use\<close>: the lock is kept only when the module runs.\<close>

definition module_use :: "'m srv \<Rightarrow> thread_id \<Rightarrow> gpointer option \<Rightarrow> bool \<Rightarrow> ('m srv \<times> bool) option" where
  "module_use st t md setkey =
     (case md of
        None \<Rightarrow> Some (st, True)
      | Some p \<Rightarrow>
          do { m \<leftarrow> get_module st p;
               if md_run m = False then Some (st, False)
               else
                 (let st = (if setkey then st\<lparr>sv_mod_key := (sv_mod_key st)(t := Some p)\<rparr> else st)
                  in Some (set_module st p (Some (add_reader m)), True)) })"

definition mbb_module_use :: "'m srv \<Rightarrow> thread_id \<Rightarrow> gpointer option \<Rightarrow> ('m srv \<times> bool) option" where
  "mbb_module_use st t md = module_use st t md True"

definition module_unuse :: "'m srv \<Rightarrow> thread_id \<Rightarrow> gpointer option \<Rightarrow> bool \<Rightarrow> 'm srv option" where
  "module_unuse st t md delkey =
     (case md of
        None \<Rightarrow> Some st
      | Some p \<Rightarrow>
          do { m \<leftarrow> get_module st p;
               m \<leftarrow> drop_reader m;
               let st = (if delkey then st\<lparr>sv_mod_key := (sv_mod_key st)(t := None)\<rparr> else st);
               Some (set_module st p (Some m)) })"

definition mbb_module_unuse :: "'m srv \<Rightarrow> thread_id \<Rightarrow> gpointer option \<Rightarrow> 'm srv option" where
  "mbb_module_unuse st t md = module_unuse st t md True"

definition mbb_module_push_info :: "'m srv \<Rightarrow> gpointer option \<Rightarrow> 'm srv option" where
  "mbb_module_push_info st mod_info =
     (let st = st\<lparr>sv_cur_info := mod_info\<rparr>
      in case mod_info of
           None \<Rightarrow> Some st
         | Some p \<Rightarrow> do { i \<leftarrow> sv_infos st p; Some (st\<lparr>sv_infos := (sv_infos st)(p \<mapsto> i\<lparr>mi_module := None\<rparr>)\<rparr>) })"

text \<open>Changing the module that is being loaded, if there is one.\<close>

definition update_current :: "'m srv \<Rightarrow> (mbb_module \<Rightarrow> mbb_module) \<Rightarrow> 'm srv option" where
  "update_current st f =
     (case mbb_module_current st of
        None \<Rightarrow> Some st
      | Some p \<Rightarrow> do { m \<leftarrow> get_module st p; Some (set_module st p (Some (f m))) })"

definition mbb_module_onready :: "'m srv \<Rightarrow> gpointer \<Rightarrow> 'm srv option" where
  "mbb_module_onready st onready = update_current st (\<lambda>m. m\<lparr>md_onready := Some onready\<rparr>)"

definition mbb_module_get_by_name :: "'m srv \<Rightarrow> string \<Rightarrow> gpointer option" where
  "mbb_module_get_by_name st name = module_get (sv_modules st) 1 (Key_Str name)"

definition mbb_module_get_by_handle :: "'m srv \<Rightarrow> gpointer \<Rightarrow> gpointer option" where
  "mbb_module_get_by_handle st handle = module_get (sv_modules st) 2 (Key_Ptr handle)"

definition mbb_module_get_by_info :: "'m srv \<Rightarrow> gpointer \<Rightarrow> gpointer option" where
  "mbb_module_get_by_info st info = module_get (sv_modules st) 3 (Key_Ptr info)"

definition mbb_module_add :: "'m srv \<Rightarrow> gpointer \<Rightarrow> 'm srv option" where
  "mbb_module_add st p = do { ms \<leftarrow> module_join module_entries (sv_modules st) p; Some (st\<lparr>sv_modules := ms\<rparr>) }"

definition mbb_module_free :: "'m srv \<Rightarrow> gpointer \<Rightarrow> 'm srv" where
  "mbb_module_free st p = set_module st p None"

definition mbb_module_del :: "'m srv \<Rightarrow> gpointer \<Rightarrow> 'm srv option" where
  "mbb_module_del st p =
     (case dm_link (sv_modules st) of
        None \<Rightarrow> Some st
      | Some dlink \<Rightarrow>
          do { (dlink, dead) \<leftarrow> data_link_remove module_entries (dm_heap (sv_modules st)) dlink 0 (Key_Ptr p);
               let st = st\<lparr>sv_modules := (sv_modules st)\<lparr>dm_link := Some dlink\<rparr>\<rparr>;
               Some (case dead of None \<Rightarrow> st | Some q \<Rightarrow> mbb_module_free st q) })"

subsection \<open>Commands\<close>

fun mbb_func_register_all :: "'m srv \<Rightarrow> gpointer list \<Rightarrow> 'm srv option" where
  "mbb_func_register_all st [] = Some (st\<lparr>sv_func_ht := (case sv_func_ht st of None \<Rightarrow> Some [] | Some ht \<Rightarrow> Some ht)\<rparr>)"
| "mbb_func_register_all st (fs # func_struct) =
     do { f \<leftarrow> sv_funcs st fs;
          mbb_func_register_all (st\<lparr>sv_func_ht := ht_insert (sv_func_ht st) (fs_name f) fs\<rparr>) func_struct }"

text \<open>A name that is taken is skipped; the result is the number of commands registered.\<close>

fun mregister_loop :: "gpointer \<Rightarrow> gpointer list \<Rightarrow> nat \<Rightarrow> 'm srv \<Rightarrow> ('m srv \<times> nat) option" where
  "mregister_loop md [] cnt st = Some (st, cnt)"
| "mregister_loop md (fs # func_struct) cnt st =
     do { f \<leftarrow> sv_funcs st fs;
          if ht_lookup (sv_func_ht st) (fs_name f) \<noteq> None then mregister_loop md func_struct cnt st
          else mregister_loop md func_struct (cnt + 1)
                 (st\<lparr>sv_funcs := (sv_funcs st)(fs \<mapsto> f\<lparr>fs_module := Some md\<rparr>),
                     sv_func_ht := ht_insert (sv_func_ht st) (fs_name f) fs\<rparr>) }"

definition mbb_func_mregister :: "'m srv \<Rightarrow> gpointer list \<Rightarrow> gpointer \<Rightarrow> ('m srv \<times> nat) option" where
  "mbb_func_mregister st func_struct md =
     mregister_loop md func_struct 0
       (st\<lparr>sv_func_ht := (case sv_func_ht st of None \<Rightarrow> Some [] | Some ht \<Rightarrow> Some ht)\<rparr>)"

definition mbb_func_unregister :: "'m srv \<Rightarrow> gpointer \<Rightarrow> 'm srv option" where
  "mbb_func_unregister st fs =
     do { f \<leftarrow> sv_funcs st fs; Some (st\<lparr>sv_func_ht := ht_remove (sv_func_ht st) (fs_name f)\<rparr>) }"

fun unregister_loop :: "gpointer list \<Rightarrow> 'm srv \<Rightarrow> 'm srv option" where
  "unregister_loop [] st = Some st"
| "unregister_loop (fs # func_struct) st =
     do { f \<leftarrow> sv_funcs st fs;
          unregister_loop func_struct
            (if fs_module f \<noteq> None
             then st\<lparr>sv_func_ht := ht_remove (sv_func_ht st) (fs_name f),
                     sv_funcs := (sv_funcs st)(fs \<mapsto> f\<lparr>fs_module := None\<rparr>)\<rparr>
             else st) }"

definition mbb_func_unregister_all :: "'m srv \<Rightarrow> gpointer list \<Rightarrow> 'm srv option" where
  "mbb_func_unregister_all st func_struct =
     (case sv_func_ht st of None \<Rightarrow> Some st | Some _ \<Rightarrow> unregister_loop func_struct st)"

definition mbb_func_search :: "'m srv \<Rightarrow> thread_id \<Rightarrow> string \<Rightarrow> guint32 \<Rightarrow> ('m srv \<times> gpointer option) option" where
  "mbb_func_search st t name msk =
     (case ht_lookup (sv_func_ht st) name of
        None \<Rightarrow> Some (st, None)
      | Some fs \<Rightarrow>
          do { f \<leftarrow> sv_funcs st fs;
               if \<not> mbb_cap_check msk (fs_cap_mask f) then Some (st, None)
               else
                 do { (st, ok) \<leftarrow> mbb_module_use st t (fs_module f);
                      Some (st, if \<not> ok then None else Some fs) } })"

text \<open>The result is \<open>None\<close> for FALSE and otherwise the answer of the command.\<close>

definition mbb_func_call ::
  "'m command_code \<Rightarrow> 'm srv \<Rightarrow> thread_id \<Rightarrow> string \<Rightarrow> xml_tag \<Rightarrow> ('m srv \<times> xml_tag option option) option" where
  "mbb_func_call code st t name tag =
     do { cap \<leftarrow> mbb_thread_get_cap st t;
          (st, fs) \<leftarrow> mbb_func_search st t name cap;
          (case fs of
             None \<Rightarrow> Some (st, None)
           | Some fs \<Rightarrow>
               do { f \<leftarrow> sv_funcs st fs;
                    (st, ans) \<leftarrow> code (fs_func f) t tag st;
                    f \<leftarrow> sv_funcs st fs;
                    st \<leftarrow> mbb_module_unuse st t (fs_module f);
                    Some (st, Some ans) }) }"

definition mbb_func_get_methods :: "'m srv \<Rightarrow> guint32 \<Rightarrow> string list option" where
  "mbb_func_get_methods st msk =
     fold (\<lambda>(_, fs) lst.
         do { l \<leftarrow> lst;
              f \<leftarrow> sv_funcs st fs;
              run \<leftarrow> (case fs_module f of None \<Rightarrow> Some True | Some md \<Rightarrow> mbb_module_isrun st md);
              Some (if run \<and> mbb_cap_check msk (fs_cap_mask f) then fs_name f # l else l) })
       (case sv_func_ht st of None \<Rightarrow> [] | Some ht \<Rightarrow> ht) (Some [])"

subsection \<open>Data of a module\<close>

fun reg_vars_loop :: "thread_id \<Rightarrow> gpointer \<Rightarrow> gpointer list \<Rightarrow> nat \<Rightarrow> 'm srv \<Rightarrow> ('m srv \<times> nat) option" where
  "reg_vars_loop t md [] n st = Some (st, n)"
| "reg_vars_loop t md (var # vars) n st =
     do { (st, r) \<leftarrow> mbb_var_mregister st t var md; reg_vars_loop t md vars (if r then n + 1 else n) st }"

definition mbb_module_reg_data :: "'m srv \<Rightarrow> thread_id \<Rightarrow> gpointer \<Rightarrow> 'm srv option" where
  "mbb_module_reg_data st t p =
     do { m \<leftarrow> get_module st p;
          (st, n) \<leftarrow> (case md_functions m of
                        None \<Rightarrow> Some (st, 0)
                      | Some fss \<Rightarrow> mbb_func_mregister st fss p);
          (st, n) \<leftarrow> reg_vars_loop t p (md_vars m) (md_nreg m + n) st;
          m \<leftarrow> get_module st p;
          let m = m\<lparr>md_nreg := n\<rparr>;
          Some (set_module st p (Some (if md_total m = md_nreg m then m\<lparr>md_run := True\<rparr> else m))) }"

fun unreg_vars_loop :: "gpointer list \<Rightarrow> 'm srv \<Rightarrow> 'm srv option" where
  "unreg_vars_loop [] st = Some st"
| "unreg_vars_loop (p # vars) st =
     do { var \<leftarrow> sv_vars st p;
          st \<leftarrow> (if mbb_var_has_mod var then mbb_var_unregister st p else Some st);
          st \<leftarrow> mbb_var_free st p;
          unreg_vars_loop vars st }"

fun unuse_deps :: "thread_id \<Rightarrow> gpointer list \<Rightarrow> 'm srv \<Rightarrow> 'm srv option" where
  "unuse_deps t [] st = Some st"
| "unuse_deps t (dep # deps) st = do { st \<leftarrow> module_unuse st t (Some dep) False; unuse_deps t deps st }"

definition mbb_module_unreg_data :: "'m srv \<Rightarrow> thread_id \<Rightarrow> gpointer \<Rightarrow> 'm srv option" where
  "mbb_module_unreg_data st t p =
     do { m \<leftarrow> get_module st p;
          st \<leftarrow> (case md_functions m of None \<Rightarrow> Some st | Some fss \<Rightarrow> mbb_func_unregister_all st fss);
          st \<leftarrow> unreg_vars_loop (md_vars m) st;
          unuse_deps t (md_deps m) st }"

text \<open>The array of commands ends at the first entry without a name: here its length.\<close>

definition mbb_module_add_functions :: "'m srv \<Rightarrow> gpointer list \<Rightarrow> 'm srv option" where
  "mbb_module_add_functions st fss =
     update_current st (\<lambda>m. if md_functions m = None
        then m\<lparr>md_functions := Some fss, md_total := md_total m + length fss\<rparr> else m)"

definition mbb_module_add_var :: "'m srv \<Rightarrow> gpointer \<Rightarrow> 'm srv option" where
  "mbb_module_add_var st var =
     update_current st (\<lambda>m. m\<lparr>md_vars := var # md_vars m, md_total := md_total m + 1\<rparr>)"

definition mbb_module_export :: "'m srv \<Rightarrow> gpointer \<Rightarrow> 'm srv option" where
  "mbb_module_export st data =
     update_current st (\<lambda>m. if md_export m \<noteq> None then m else m\<lparr>md_export := Some data\<rparr>)"

text \<open>Whether the imported module could be used is not looked at.\<close>

definition mbb_module_import :: "'m srv \<Rightarrow> thread_id \<Rightarrow> string \<Rightarrow> ('m srv \<times> gpointer option) option" where
  "mbb_module_import st t name =
     (case mbb_module_current st of
        None \<Rightarrow> Some (st, None)
      | Some cur \<Rightarrow>
          (case mbb_module_get_by_name st name of
             None \<Rightarrow> Some (st, None)
           | Some p \<Rightarrow>
               do { m \<leftarrow> get_module st p;
                    if md_export m \<noteq> None then
                      do { c \<leftarrow> get_module st cur;
                           let st = set_module st cur (Some (c\<lparr>md_deps := p # md_deps c\<rparr>));
                           (st, _) \<leftarrow> module_use st t (Some p) False;
                           Some (st, md_export m) }
                    else Some (st, None) }))"

subsection \<open>Loading and unloading\<close>

definition has_mod_suffix :: "string \<Rightarrow> bool" where
  "has_mod_suffix name = (length name \<ge> 3 \<and> drop (length name - 3) name = ''.so'')"

definition check_mod_name :: "string \<Rightarrow> module_error option" where
  "check_mod_name name =
     (if CHR 0x2F \<in> set name then Some (MBB_MODULE_ERROR_UNKNOWN, ''not permitted char '' @ [CHR 0x27, CHR 0x2F, CHR 0x27])
      else if \<not> has_mod_suffix name
        then Some (MBB_MODULE_ERROR_UNKNOWN, ''missed '' @ [CHR 0x27] @ ''.so'' @ [CHR 0x27] @ '' prefix'')
      else None)"

definition get_path_for_name :: "'m loader \<Rightarrow> 'm srv \<Rightarrow> thread_id \<Rightarrow> string \<Rightarrow> ('m srv \<times> (module_error + string)) option" where
  "get_path_for_name ld st t name =
     do { (st, data) \<leftarrow> mbb_session_var_get_data st t (ld_md_var ld);
          let mod_dir = (if data = 0 then ld_module_dir ld else data);
          (case ld_str_at ld mod_dir (sv_mem st) of
             None \<Rightarrow>
               do { var \<leftarrow> sv_vars st (ld_md_var ld);
                    Some (st, Inl (MBB_MODULE_ERROR_UNKNOWN,
                      ''session var '' @ [CHR 0x27] @ v_name var @ [CHR 0x27] @ '' is null'')) }
           | Some dir \<Rightarrow> Some (st, Inr (dir @ name))) }"

definition check_mod_loaded :: "'m srv \<Rightarrow> gpointer \<Rightarrow> string \<Rightarrow> module_error option option" where
  "check_mod_loaded st handle name =
     (case sv_cur_info st of
        None \<Rightarrow> Some (Some (MBB_MODULE_ERROR_FOREIGN, ''foreign module''))
      | Some i \<Rightarrow>
          do { info \<leftarrow> sv_infos st i;
               if mi_load info = None
               then Some (Some (MBB_MODULE_ERROR_INVALID, ''invalid module: load function is NULL''))
               else
                 (case mbb_module_get_by_handle st handle of
                    Some p \<Rightarrow>
                      do { m \<leftarrow> get_module st p;
                           Some (Some (MBB_MODULE_ERROR_LOADED, ''module '' @ name @ '' loaded as '' @ md_name m)) }
                  | None \<Rightarrow>
                      (case mbb_module_get_by_info st i of
                         Some p \<Rightarrow>
                           do { m \<leftarrow> get_module st p;
                                Some (Some (MBB_MODULE_ERROR_LOADED,
                                  ''module '' @ name @ '' has the same data with '' @ md_name m)) }
                       | None \<Rightarrow> Some None)) })"

text \<open>The part of loading after the checks: \<open>p\<close> is the address of the new module.\<close>

definition load_opened ::
  "'m loader \<Rightarrow> 'm srv \<Rightarrow> thread_id \<Rightarrow> time_t \<Rightarrow> gpointer \<Rightarrow> string \<Rightarrow> gpointer \<Rightarrow> ('m srv \<times> module_error option) option" where
  "load_opened ld st t now p name handle =
     do { i \<leftarrow> sv_cur_info st;
          info \<leftarrow> sv_infos st i;
          let st = set_module st p (Some (mbb_module_new name handle i now));
          let st = st\<lparr>sv_infos := (sv_infos st)(i \<mapsto> info\<lparr>mi_module := Some p\<rparr>)\<rparr>;
          load \<leftarrow> mi_load info;
          st \<leftarrow> ld_call ld load st;
          st \<leftarrow> mbb_module_push_info st None;
          m \<leftarrow> get_module st p;
          if md_total m = 0 then
            do { st \<leftarrow> (case mi_unload info of None \<Rightarrow> Some st | Some f \<Rightarrow> ld_call ld f st);
                 Some (mbb_module_free (ld_dlclose ld handle st) p, Some (MBB_MODULE_ERROR_EMPTY, ''void module'')) }
          else
            do { st \<leftarrow> mbb_module_reg_data st t p;
                 st \<leftarrow> mbb_module_add st p;
                 m \<leftarrow> get_module st p;
                 st \<leftarrow> (case md_onready m of None \<Rightarrow> Some st | Some f \<Rightarrow> ld_call ld f st);
                 Some (st, None) } }"

definition mbb_module_load ::
  "'m loader \<Rightarrow> 'm srv \<Rightarrow> thread_id \<Rightarrow> time_t \<Rightarrow> gpointer \<Rightarrow> string \<Rightarrow> ('m srv \<times> module_error option) option" where
  "mbb_module_load ld st t now p name =
     (case check_mod_name name of
        Some e \<Rightarrow> Some (st, Some e)
      | None \<Rightarrow>
          do { (st, path) \<leftarrow> get_path_for_name ld st t name;
               (case path of
                  Inl e \<Rightarrow> Some (st, Some e)
                | Inr path \<Rightarrow>
                    if mbb_module_get_by_name st name \<noteq> None
                    then Some (st, Some (MBB_MODULE_ERROR_EXISTS, ''module name '' @ name @ '' exists''))
                    else
                      (case ld_dlopen ld path st of
                         (st, None) \<Rightarrow> Some (st, Some (MBB_MODULE_ERROR_OPEN, ld_dlerror ld))
                       | (st, Some handle) \<Rightarrow>
                           do { bad \<leftarrow> check_mod_loaded st handle name;
                                (case bad of
                                   Some e \<Rightarrow>
                                     do { st \<leftarrow> mbb_module_push_info st None;
                                          Some (ld_dlclose ld handle st, Some e) }
                                 | None \<Rightarrow> load_opened ld st t now p name handle) })) })"

text \<open>
  Unloading in two parts: finding the lock of the module free and stopping it, and, with the
  lock released again, taking its commands and variables away and closing it.
\<close>

definition unload_stop :: "'m srv \<Rightarrow> string \<Rightarrow> ('m srv \<times> (module_error + gpointer)) option" where
  "unload_stop st name =
     (case check_mod_name name of
        Some e \<Rightarrow> Some (st, Inl e)
      | None \<Rightarrow>
          (case mbb_module_get_by_name st name of
             None \<Rightarrow> Some (st, Inl (MBB_MODULE_ERROR_UNKNOWN, ''unknown module '' @ name))
           | Some p \<Rightarrow>
               do { m \<leftarrow> get_module st p;
                    if rw_readers (md_rwlock m) \<noteq> 0 \<or> rw_writer (md_rwlock m)
                    then Some (st, Inl (MBB_MODULE_ERROR_USED,
                           ''module referenced '' @ dec_of_int (md_use_count m) @ '' times''))
                    else Some (set_module st p (Some (m\<lparr>md_run := False\<rparr>)), Inr p) }))"

definition unload_close :: "'m loader \<Rightarrow> 'm srv \<Rightarrow> gpointer \<Rightarrow> 'm srv option" where
  "unload_close ld st p =
     do { m \<leftarrow> get_module st p;
          info \<leftarrow> sv_infos st (md_info m);
          st \<leftarrow> (case mi_unload info of None \<Rightarrow> Some st | Some f \<Rightarrow> ld_call ld f st);
          m \<leftarrow> get_module st p;
          mbb_module_del (ld_dlclose ld (md_handle m) st) p }"

definition mbb_module_unload :: "'m loader \<Rightarrow> 'm srv \<Rightarrow> thread_id \<Rightarrow> string \<Rightarrow> ('m srv \<times> module_error option) option" where
  "mbb_module_unload ld st t name =
     do { (st, r) \<leftarrow> unload_stop st name;
          (case r of
             Inl e \<Rightarrow> Some (st, Some e)
           | Inr p \<Rightarrow>
               do { st \<leftarrow> mbb_module_unreg_data st t p;
                    st \<leftarrow> unload_close ld st p;
                    Some (st, None) }) }"

subsection \<open>Commands of the module manager\<close>

fun module_error_code :: "MbbModuleError \<Rightarrow> int" where
  "module_error_code MBB_MODULE_ERROR_UNKNOWN = 0"
| "module_error_code MBB_MODULE_ERROR_EXISTS = 1"
| "module_error_code MBB_MODULE_ERROR_LOADED = 2"
| "module_error_code MBB_MODULE_ERROR_OPEN = 3"
| "module_error_code MBB_MODULE_ERROR_FOREIGN = 4"
| "module_error_code MBB_MODULE_ERROR_INVALID = 5"
| "module_error_code MBB_MODULE_ERROR_EMPTY = 6"
| "module_error_code MBB_MODULE_ERROR_USED = 7"

definition module_gerror :: "module_error \<Rightarrow> gerror" where
  "module_gerror e =
     \<lparr>ge_domain = ''mbb-module-error-quark'', ge_code = module_error_code (fst e), ge_message = snd e\<rparr>"

text \<open>An operation that ends with an error or nothing, as a command.\<close>

definition error_answer :: "('m srv \<times> module_error option) option \<Rightarrow> ('m srv \<times> xml_tag option) option" where
  "error_answer r =
     do { (st, e) \<leftarrow> r;
          (case e of
             None \<Rightarrow> Some (st, None)
           | Some e \<Rightarrow> reply st (mbb_xml_msg_from_error (Some (module_gerror e)))) }"

text \<open>The commands whose argument is the name of a module.\<close>

definition with_name :: "'m srv \<Rightarrow> xml_tag \<Rightarrow> (string \<Rightarrow> ('m srv \<times> xml_tag option) option) \<Rightarrow> ('m srv \<times> xml_tag option) option" where
  "with_name st tag f =
     do { args \<leftarrow> mbb_xtv_call_z tag [(xtv_module_name, False)];
          (case args of
             Inl ans \<Rightarrow> Some (st, Some ans)
           | Inr [Some (XV_Str name)] \<Rightarrow> f name
           | _ \<Rightarrow> None) }"

definition module_load :: "'m loader \<Rightarrow> time_t \<Rightarrow> gpointer \<Rightarrow> 'm srv \<Rightarrow> thread_id \<Rightarrow> xml_tag \<Rightarrow> ('m srv \<times> xml_tag option) option" where
  "module_load ld now p st t tag = with_name st tag (\<lambda>name. error_answer (mbb_module_load ld st t now p name))"

definition module_unload :: "'m loader \<Rightarrow> 'm srv \<Rightarrow> thread_id \<Rightarrow> xml_tag \<Rightarrow> ('m srv \<times> xml_tag option) option" where
  "module_unload ld st t tag = with_name st tag (\<lambda>name. error_answer (mbb_module_unload ld st t name))"

text \<open>The commands on a loaded module: the name is checked before it is looked up.\<close>

definition with_module ::
  "'m srv \<Rightarrow> xml_tag \<Rightarrow> (gpointer \<Rightarrow> mbb_module \<Rightarrow> ('m srv \<times> xml_tag option) option) \<Rightarrow> ('m srv \<times> xml_tag option) option" where
  "with_module st tag f =
     with_name st tag (\<lambda>name.
       if check_mod_name name \<noteq> None then reply st (mbb_xml_msg MBB_MSG_UNKNOWN_MODULE [])
       else (case mbb_module_get_by_name st name of
               None \<Rightarrow> reply st (mbb_xml_msg MBB_MSG_UNKNOWN_MODULE [])
             | Some p \<Rightarrow> do { m \<leftarrow> get_module st p; f p m }))"

definition module_do_run :: "'m srv \<Rightarrow> xml_tag \<Rightarrow> bool \<Rightarrow> ('m srv \<times> xml_tag option) option" where
  "module_do_run st tag run =
     with_module st tag (\<lambda>p m.
       if md_run m = run
       then reply st (mbb_xml_msg_error (Some ''module is already %s'') [PF_S (Some (if run then ''run'' else ''stop''))])
       else Some (set_module st p (Some (m\<lparr>md_run := run\<rparr>)), None))"

definition module_run :: "'m srv \<Rightarrow> xml_tag \<Rightarrow> ('m srv \<times> xml_tag option) option" where
  "module_run st tag = module_do_run st tag True"

definition module_stop :: "'m srv \<Rightarrow> xml_tag \<Rightarrow> ('m srv \<times> xml_tag option) option" where
  "module_stop st tag = module_do_run st tag False"

fun vars_do_loop :: "('m srv \<Rightarrow> gpointer \<Rightarrow> 'm srv option) \<Rightarrow> gpointer list \<Rightarrow> 'm srv \<Rightarrow> 'm srv option" where
  "vars_do_loop func [] st = Some st"
| "vars_do_loop func (p # vars) st =
     do { var \<leftarrow> sv_vars st p;
          st \<leftarrow> (if mbb_var_has_mod var then func st p else Some st);
          vars_do_loop func vars st }"

definition module_vars_do ::
  "'m srv \<Rightarrow> xml_tag \<Rightarrow> ('m srv \<Rightarrow> gpointer \<Rightarrow> 'm srv option) \<Rightarrow> ('m srv \<times> xml_tag option) option" where
  "module_vars_do st tag func =
     with_module st tag (\<lambda>p m. do { st \<leftarrow> vars_do_loop func (md_vars m) st; Some (st, None) })"

definition module_vars_save :: "'m srv \<Rightarrow> thread_id \<Rightarrow> xml_tag \<Rightarrow> ('m srv \<times> xml_tag option) option" where
  "module_vars_save st t tag = module_vars_do st tag (\<lambda>st p. mbb_var_cache_save st t p)"

definition module_vars_load :: "'m srv \<Rightarrow> thread_id \<Rightarrow> xml_tag \<Rightarrow> ('m srv \<times> xml_tag option) option" where
  "module_vars_load st t tag = module_vars_do st tag (\<lambda>st p. mbb_var_cache_load st t p)"

definition gather_module :: "mbb_module \<Rightarrow> xml_tag \<Rightarrow> xml_tag" where
  "gather_module m tag =
     xml_tag_new_child tag ''module''
       [(''name'', variant_new_string (Some (md_name m))),
        (''state'', variant_new_static_string (Some (if md_run m then ''run'' else ''stop''))),
        (''start'', variant_new_long (md_start m)), (''total'', variant_new_int (int (md_total m))),
        (''nreg'', variant_new_int (int (md_nreg m))), (''nuse'', variant_new_int (md_use_count m))]"

definition bool2str :: "bool \<Rightarrow> string" where "bool2str val = (if val then ''true'' else ''false'')"

text \<open>The loop over the bits of a mask; it leaves the number of the first bit past the highest set one.\<close>

function group_tags_loop :: "acl \<Rightarrow> nat \<Rightarrow> guint32 \<Rightarrow> xml_tag \<Rightarrow> (xml_tag \<times> nat) option" where
  "group_tags_loop acl i msk tag =
     (if msk = 0 then Some (tag, i)
      else
        do { tag \<leftarrow>
               (if msk AND 1 \<noteq> 0
                then (case mbb_group_get_by_id acl (int i) of
                        None \<Rightarrow> Some tag
                      | Some p \<Rightarrow>
                          do { g \<leftarrow> dm_heap (acl_groups acl) p;
                               Some (xml_tag_new_child tag ''group'' [(''name'', variant_new_string (Some (g_name g)))]) })
                else Some tag);
             group_tags_loop acl (i + 1) (drop_bit 1 msk) tag })"
  by pat_completeness auto
termination
  by (relation "measure (\<lambda>(acl, i, msk, tag). unat msk)") (auto simp: drop_bit_eq_div unat_div unat_gt_0)

declare group_tags_loop.simps [simp del]

definition add_group_tags :: "acl \<Rightarrow> guint32 \<Rightarrow> xml_tag \<Rightarrow> xml_tag option" where
  "add_group_tags acl msk tag =
     do { (tag, i) \<leftarrow> group_tags_loop acl 0 msk tag;
          Some (if i = 31
                then xml_tag_new_child tag ''group'' [(''name'', variant_new_static_string (Some ''dummy''))] else tag) }"

fun info_funcs :: "'m srv \<Rightarrow> bool \<Rightarrow> gpointer list \<Rightarrow> xml_tag \<Rightarrow> xml_tag option" where
  "info_funcs st with_groups [] ans = Some ans"
| "info_funcs st with_groups (fs # fss) ans =
     do { f \<leftarrow> sv_funcs st fs;
          let xt = xml_tag_new ''func''
            [(''name'', variant_new_string (Some (fs_name f))),
             (''reg'', variant_new_static_string (Some (bool2str (fs_module f \<noteq> None))))] None;
          xt \<leftarrow> (if with_groups then add_group_tags (sv_acl st) (fs_cap_mask f) xt else Some xt);
          info_funcs st with_groups fss (xml_tag_add_child ans xt) }"

fun info_vars :: "'m srv \<Rightarrow> bool \<Rightarrow> gpointer list \<Rightarrow> xml_tag \<Rightarrow> xml_tag option" where
  "info_vars st with_groups [] ans = Some ans"
| "info_vars st with_groups (p # vars) ans =
     do { var \<leftarrow> sv_vars st p;
          let xt = xml_tag_new ''var''
            [(''name'', variant_new_string (Some (mbb_var_get_name var))),
             (''reg'', variant_new_static_string (Some (bool2str (mbb_var_has_mod var))))] None;
          xt \<leftarrow> (if with_groups then
                   do { r \<leftarrow> add_group_tags (sv_acl st) (mbb_var_get_cap_read var) (xml_tag_new ''read'' [] None);
                        w \<leftarrow> add_group_tags (sv_acl st) (mbb_var_get_cap_write var) (xml_tag_new ''write'' [] None);
                        Some (xml_tag_add_child (xml_tag_add_child xt r) w) }
                 else Some xt);
          info_vars st with_groups vars (xml_tag_add_child ans xt) }"

definition module_info :: "'m srv \<Rightarrow> xml_tag \<Rightarrow> ('m srv \<times> xml_tag option) option" where
  "module_info st tag =
     with_module st tag (\<lambda>p m.
       do { let with_groups = (xml_tag_get_attr tag ''with_groups'' \<noteq> None);
            info \<leftarrow> sv_infos st (md_info m);
            let ans = (case mi_desc info of
                         None \<Rightarrow> mbb_xml_msg_ok
                       | Some d \<Rightarrow> xml_tag_add_child mbb_xml_msg_ok (xml_tag_new ''desc'' [] (Some (variant_new_string (Some d)))));
            ans \<leftarrow> info_funcs st with_groups (case md_functions m of None \<Rightarrow> [] | Some fss \<Rightarrow> fss) ans;
            ans \<leftarrow> info_vars st with_groups (md_vars m) ans;
            Some (st, Some ans) })"

end
