(* ===== verification/Module_Life.thy ===== *)
theory Module_Life
  imports Mbb_Module
begin

text \<open>
  Calls and unloading interleaved. \<open>mbbfunc.c\<close> and \<open>mbbmodule.c\<close> have locks of their own, so
  threads go on calling commands while a module is being unloaded; what keeps the code of
  a running command in place is the lock of its module together with the flag \<open>run\<close>. The
  step relation has the critical sections of both files as steps: a call that finds its
  command, the return of a command, starting and stopping a module, and the three stages
  of unloading. Loading is described by its effect on the tables; a module that imports
  another one is assumed to find it running, see \<open>import_of_stopped\<close> for the other case.
\<close>

section \<open>Steps\<close>

datatype holder = By_Thread thread_id | By_Module gpointer

text \<open>
  The uses that are held, by a running command or by an importing module, and the module that
  is being unloaded, with whether its commands are already gone.
\<close>

record 'm mod_config =
  mc_st :: "'m srv"
  mc_uses :: "(holder \<times> gpointer) list"
  mc_closing :: "(gpointer \<times> bool) option"

definition more_readers :: "nat \<Rightarrow> mbb_module \<Rightarrow> mbb_module" where
  "more_readers n = add_reader ^^ n"

text \<open>The registry holds every module there is and destroys those it removes.\<close>

definition linked :: "'m srv \<Rightarrow> bool" where
  "linked st \<longleftrightarrow> module_ok module_entries (sv_modules st) (dom (dm_heap (sv_modules st))) \<and>
     pred_option dl_destroy (dm_link (sv_modules st))"

text \<open>A new module \<open>p\<close> with its commands, using the modules it depends on.\<close>

definition loaded :: "'m srv \<Rightarrow> 'm srv \<Rightarrow> gpointer \<Rightarrow> mbb_module \<Rightarrow> bool" where
  "loaded st st' p m \<longleftrightarrow>
     get_module st p = None \<and> rw_readers (md_rwlock m) = 0 \<and> md_use_count m = 0 \<and>
     (\<forall>d \<in> set (md_deps m). get_module st d \<noteq> None) \<and>
     (\<forall>q. get_module st' q =
        (if q = p then Some m else map_option (more_readers (count_list (md_deps m) q)) (get_module st q))) \<and>
     linked st' \<and>
     (\<forall>name fs. ht_lookup (sv_func_ht st') name = Some fs \<longrightarrow>
        (\<exists>f. sv_funcs st' fs = Some f \<and>
          (fs_module f = Some p \<and> (\<exists>fss. md_functions m = Some fss \<and> fs \<in> set fss)
           \<or> ht_lookup (sv_func_ht st) name = Some fs \<and> sv_funcs st fs = Some f)))"

text \<open>Code that leaves modules and commands alone.\<close>

definition same_tables :: "'m srv \<Rightarrow> 'm srv \<Rightarrow> bool" where
  "same_tables st st' \<longleftrightarrow>
     sv_modules st' = sv_modules st \<and> sv_funcs st' = sv_funcs st \<and> sv_func_ht st' = sv_func_ht st"

definition quiet_loader :: "'m loader \<Rightarrow> bool" where
  "quiet_loader ld \<longleftrightarrow>
     (\<forall>h st. same_tables st (ld_dlclose ld h st)) \<and>
     (\<forall>f st st'. ld_call ld f st = Some st' \<longrightarrow> same_tables st st')"

inductive mod_step :: "'m loader \<Rightarrow> 'm mod_config \<Rightarrow> 'm mod_config \<Rightarrow> bool" for ld where
  call: "mbb_thread_get_cap (mc_st c) t = Some cap \<Longrightarrow> mbb_func_search (mc_st c) t name cap = Some (st', Some fs) \<Longrightarrow>
     sv_funcs (mc_st c) fs = Some f \<Longrightarrow>
     mod_step ld c (c\<lparr>mc_st := st',
       mc_uses := (case fs_module f of None \<Rightarrow> [] | Some md \<Rightarrow> [(By_Thread t, md)]) @ mc_uses c\<rparr>)"
| return: "(By_Thread t, md) \<in> set (mc_uses c) \<Longrightarrow> mbb_module_unuse (mc_st c) t (Some md) = Some st' \<Longrightarrow>
     mod_step ld c (c\<lparr>mc_st := st', mc_uses := remove1 (By_Thread t, md) (mc_uses c)\<rparr>)"
| run: "mc_closing c = None \<Longrightarrow> module_do_run (mc_st c) tag run = Some (st', ans) \<Longrightarrow>
     mod_step ld c (c\<lparr>mc_st := st'\<rparr>)"
| stop: "mc_closing c = None \<Longrightarrow> unload_stop (mc_st c) name = Some (st', Inr p) \<Longrightarrow>
     mod_step ld c (c\<lparr>mc_st := st', mc_closing := Some (p, False)\<rparr>)"
| unreg: "mc_closing c = Some (p, False) \<Longrightarrow> mbb_module_unreg_data (mc_st c) t p = Some st' \<Longrightarrow>
     mod_step ld c (c\<lparr>mc_st := st', mc_uses := filter (\<lambda>(h, _). h \<noteq> By_Module p) (mc_uses c),
       mc_closing := Some (p, True)\<rparr>)"
| close: "mc_closing c = Some (p, True) \<Longrightarrow> unload_close ld (mc_st c) p = Some st' \<Longrightarrow>
     mod_step ld c (c\<lparr>mc_st := st', mc_closing := None\<rparr>)"
| load: "mc_closing c = None \<Longrightarrow> loaded (mc_st c) st' p m \<Longrightarrow>
     mod_step ld c (c\<lparr>mc_st := st', mc_uses := map (Pair (By_Module p)) (md_deps m) @ mc_uses c\<rparr>)"
| work: "same_tables (mc_st c) st' \<Longrightarrow> mod_step ld c (c\<lparr>mc_st := st'\<rparr>)"

section \<open>The invariant\<close>

type_synonym uses = "(holder \<times> gpointer) list"

abbreviation uses_of :: "uses \<Rightarrow> gpointer \<Rightarrow> nat" where
  "uses_of us p \<equiv> count_list (map snd us) p"

abbreviation deps_held :: "uses \<Rightarrow> gpointer \<Rightarrow> gpointer list" where
  "deps_held us q \<equiv> map snd (filter (\<lambda>(h, _). h = By_Module q) us)"

text \<open>The readers of a module are the uses that are held.\<close>

definition readers_ok :: "'m srv \<Rightarrow> uses \<Rightarrow> bool" where
  "readers_ok st us \<longleftrightarrow>
     (\<forall>p. get_module st p = None \<longrightarrow> uses_of us p = 0) \<and>
     (\<forall>p m. get_module st p = Some m \<longrightarrow>
        rw_readers (md_rwlock m) = uses_of us p \<and> md_use_count m = int (uses_of us p))"

definition deps_ok :: "'m srv \<Rightarrow> uses \<Rightarrow> (gpointer \<times> bool) option \<Rightarrow> bool" where
  "deps_ok st us cl \<longleftrightarrow>
     (\<forall>q. get_module st q = None \<or> cl = Some (q, True) \<longrightarrow> deps_held us q = []) \<and>
     (\<forall>q m. get_module st q = Some m \<longrightarrow> cl \<noteq> Some (q, True) \<longrightarrow> mset (deps_held us q) = mset (md_deps m))"

text \<open>Commands refer to modules that exist and list them.\<close>

definition funcs_ok :: "'m srv \<Rightarrow> (gpointer \<times> bool) option \<Rightarrow> bool" where
  "funcs_ok st cl \<longleftrightarrow>
     (\<forall>name fs. ht_lookup (sv_func_ht st) name = Some fs \<longrightarrow>
       (\<exists>f. sv_funcs st fs = Some f \<and>
         (\<forall>p. fs_module f = Some p \<longrightarrow> cl \<noteq> Some (p, True) \<and>
           (\<exists>m fss. get_module st p = Some m \<and> md_functions m = Some fss \<and> fs \<in> set fss))))"

definition closing_ok :: "'m srv \<Rightarrow> uses \<Rightarrow> (gpointer \<times> bool) option \<Rightarrow> bool" where
  "closing_ok st us cl \<longleftrightarrow>
     (\<forall>p b. cl = Some (p, b) \<longrightarrow> (\<exists>m. get_module st p = Some m \<and> md_run m = False \<and> uses_of us p = 0))"

definition tables_ok :: "'m srv \<Rightarrow> uses \<Rightarrow> (gpointer \<times> bool) option \<Rightarrow> bool" where
  "tables_ok st us cl \<longleftrightarrow> readers_ok st us \<and> deps_ok st us cl \<and> funcs_ok st cl \<and> closing_ok st us cl \<and>
     linked st"

definition mod_inv :: "'m mod_config \<Rightarrow> bool" where
  "mod_inv c \<longleftrightarrow> tables_ok (mc_st c) (mc_uses c) (mc_closing c)"

text \<open>A server without modules, whose commands are its own.\<close>

definition mod_start :: "'m srv \<Rightarrow> bool" where
  "mod_start st \<longleftrightarrow> sv_modules st = \<lparr>dm_link = None, dm_heap = Map.empty\<rparr> \<and>
     (\<forall>name fs. ht_lookup (sv_func_ht st) name = Some fs \<longrightarrow> (\<exists>f. sv_funcs st fs = Some f \<and> fs_module f = None))"

section \<open>Preservation\<close>

lemma set_module_sel [simp]:
  "get_module (set_module st p m) q = (if q = p then m else get_module st q)"
  "sv_funcs (set_module st p m) = sv_funcs st" "sv_func_ht (set_module st p m) = sv_func_ht st"
  "sv_infos (set_module st p m) = sv_infos st" "dm_link (sv_modules (set_module st p m)) = dm_link (sv_modules st)"
  by (simp_all add: set_module_def get_module_def)

lemma readers_sel [simp]:
  "md_name (add_reader m) = md_name m" "md_handle (add_reader m) = md_handle m" "md_info (add_reader m) = md_info m"
  "md_deps (add_reader m) = md_deps m" "md_run (add_reader m) = md_run m" "md_functions (add_reader m) = md_functions m"
  "rw_readers (md_rwlock (add_reader m)) = Suc (rw_readers (md_rwlock m))"
  "md_use_count (add_reader m) = md_use_count m + 1"
  by (simp_all add: add_reader_def)

lemma drop_reader_sel:
  assumes "drop_reader m = Some m'"
  shows "md_name m' = md_name m" "md_handle m' = md_handle m" "md_info m' = md_info m"
    "md_deps m' = md_deps m" "md_run m' = md_run m" "md_functions m' = md_functions m"
    "rw_readers (md_rwlock m) = Suc (rw_readers (md_rwlock m'))" "md_use_count m' = md_use_count m - 1"
  using assms by (auto simp: drop_reader_def split: if_splits)

lemma more_readers_sel [simp]:
  "md_deps (more_readers n m) = md_deps m" "md_functions (more_readers n m) = md_functions m"
  "rw_readers (md_rwlock (more_readers n m)) = rw_readers (md_rwlock m) + n"
  "md_use_count (more_readers n m) = md_use_count m + int n"
  unfolding more_readers_def by (induction n) simp_all

text \<open>What two states may differ in at one module without touching its keys.\<close>

lemma set_module_linked:
  assumes "linked st" and "get_module st p = Some m"
    and "md_name m' = md_name m" "md_handle m' = md_handle m" "md_info m' = md_info m"
  shows "linked (set_module st p (Some m'))"
proof -
  let ?S = "dom (dm_heap (sv_modules st))"
  have "module_ok module_entries (sv_modules (set_module st p (Some m'))) ?S"
    by (rule module_ok_same_keys [of _ "sv_modules st" _ p m _ m'])
      (use assms in \<open>auto simp: linked_def get_module_def set_module_def module_entries_def less_Suc_eq numeral_eq_Suc\<close>)
  moreover have "dom (dm_heap (sv_modules (set_module st p (Some m')))) = ?S"
    using assms(2) by (auto simp: set_module_def get_module_def)
  ultimately show ?thesis using assms(1) by (simp add: linked_def)
qed

lemma same_tables_ok: "same_tables st st' \<Longrightarrow> tables_ok st' us cl \<longleftrightarrow> tables_ok st us cl"
  by (simp add: tables_ok_def readers_ok_def deps_ok_def funcs_ok_def closing_ok_def same_tables_def linked_def get_module_def)

lemma same_tables_key [simp]: "same_tables st (st\<lparr>sv_mod_key := k\<rparr>)"
  by (simp add: same_tables_def)

lemma funcs_okD:
  assumes "funcs_ok st cl" and "ht_lookup (sv_func_ht st) name = Some fs"
  shows "\<exists>f. sv_funcs st fs = Some f \<and> (\<forall>q. fs_module f = Some q \<longrightarrow> cl \<noteq> Some (q, True) \<and>
     (\<exists>m fss. get_module st q = Some m \<and> md_functions m = Some fss \<and> fs \<in> set fss))"
  using assms unfolding funcs_ok_def by blast

lemma funcs_okI:
  assumes "\<And>name fs. ht_lookup (sv_func_ht st) name = Some fs \<Longrightarrow>
     \<exists>f. sv_funcs st fs = Some f \<and> (\<forall>q. fs_module f = Some q \<longrightarrow> cl \<noteq> Some (q, True) \<and>
        (\<exists>m fss. get_module st q = Some m \<and> md_functions m = Some fss \<and> fs \<in> set fss))"
  shows "funcs_ok st cl"
  using assms unfolding funcs_ok_def by blast

lemma change_funcs:
  assumes ok: "funcs_ok st cl" and m: "get_module st p = Some m" "md_functions m' = md_functions m"
  shows "funcs_ok (set_module st p (Some m')) cl"
proof (rule funcs_okI)
  fix name fs
  assume "ht_lookup (sv_func_ht (set_module st p (Some m'))) name = Some fs"
  then have "ht_lookup (sv_func_ht st) name = Some fs" by simp
  from funcs_okD [OF ok this] obtain f where f: "sv_funcs st fs = Some f"
      "\<forall>q. fs_module f = Some q \<longrightarrow> cl \<noteq> Some (q, True) \<and>
        (\<exists>m fss. get_module st q = Some m \<and> md_functions m = Some fss \<and> fs \<in> set fss)" by blast
  have "\<exists>m fss. get_module (set_module st p (Some m')) q = Some m \<and> md_functions m = Some fss \<and> fs \<in> set fss"
    if "fs_module f = Some q" for q
    using f(2) that m by (cases "q = p") auto
  with f show "\<exists>f. sv_funcs (set_module st p (Some m')) fs = Some f \<and> (\<forall>q. fs_module f = Some q \<longrightarrow>
      cl \<noteq> Some (q, True) \<and> (\<exists>m fss. get_module (set_module st p (Some m')) q = Some m \<and>
      md_functions m = Some fss \<and> fs \<in> set fss))" by simp
qed

text \<open>A change of one module that keeps its keys, its imports and its commands.\<close>

lemma change_module_ok:
  assumes ok: "tables_ok st us cl" and m: "get_module st p = Some m"
    and keys: "md_name m' = md_name m" "md_handle m' = md_handle m" "md_info m' = md_info m"
      "md_deps m' = md_deps m" "md_functions m' = md_functions m"
    and deps: "\<And>q. deps_held us' q = deps_held us q"
    and others: "\<And>q. q \<noteq> p \<Longrightarrow> uses_of us' q = uses_of us q"
    and cnt: "rw_readers (md_rwlock m') = uses_of us' p" "md_use_count m' = int (uses_of us' p)"
    and run: "\<And>b. cl = Some (p, b) \<Longrightarrow> md_run m' = False \<and> uses_of us' p = 0"
  shows "tables_ok (set_module st p (Some m')) us' cl"
proof -
  let ?st = "set_module st p (Some m')"
  have r: "readers_ok st us" and d: "deps_ok st us cl" and f: "funcs_ok st cl" and c: "closing_ok st us cl"
    and S: "linked st" using ok unfolding tables_ok_def by blast+
  have "rw_readers (md_rwlock x) = uses_of us' q \<and> md_use_count x = int (uses_of us' q)"
    if "get_module ?st q = Some x" for q x
    using that cnt others [of q] r by (cases "q = p") (simp_all add: readers_ok_def)
  moreover have "uses_of us' q = 0" if "get_module ?st q = None" for q
    using that others [of q] r by (simp add: readers_ok_def split: if_splits)
  ultimately have "readers_ok ?st us'" unfolding readers_ok_def by blast
  moreover have "deps_ok ?st us' cl"
    using d m keys(4) unfolding deps_ok_def deps by simp
  moreover have "\<exists>x. get_module ?st q = Some x \<and> md_run x = False \<and> uses_of us' q = 0" if q: "cl = Some (q, b)" for q b
  proof -
    from c q have "\<exists>x. get_module st q = Some x \<and> md_run x = False \<and> uses_of us q = 0"
      unfolding closing_ok_def by blast
    with run [of b] q others [of q] show ?thesis by (cases "q = p") simp_all
  qed
  then have "closing_ok ?st us' cl" unfolding closing_ok_def by blast
  ultimately show ?thesis
    using change_funcs [OF f m keys(5)] set_module_linked [OF S m keys(1-3)] unfolding tables_ok_def by blast
qed

lemma tables_okD:
  assumes "tables_ok st us cl" and "get_module st p = Some m"
  shows "rw_readers (md_rwlock m) = uses_of us p" "md_use_count m = int (uses_of us p)"
    "cl = Some (p, b) \<Longrightarrow> md_run m = False \<and> uses_of us p = 0"
  using assms unfolding tables_ok_def readers_ok_def closing_ok_def by auto

lemma stop_ok:
  assumes ok: "tables_ok st us None" and "get_module st p = Some m" and "uses_of us p = 0"
  shows "tables_ok (set_module st p (Some (m\<lparr>md_run := False\<rparr>))) us (Some (p, False))"
proof -
  have "tables_ok (set_module st p (Some (m\<lparr>md_run := False\<rparr>))) us None"
    by (rule change_module_ok [OF ok assms(2)]) (simp_all add: tables_okD [OF ok assms(2)])
  with assms(3) show ?thesis by (simp add: tables_ok_def deps_ok_def funcs_ok_def closing_ok_def)
qed

lemma module_use_ok:
  assumes ok: "tables_ok st us cl" and u: "module_use st t (Some p) key = Some (st', True)"
    and h: "\<forall>q. h \<noteq> By_Module q"
  shows "tables_ok st' ((h, p) # us) cl"
proof -
  from u obtain m where m: "get_module st p = Some m" "md_run m"
    by (auto simp: module_use_def Let_def split: if_splits bind_splits)
  have "tables_ok (set_module st p (Some (add_reader m))) ((h, p) # us) cl"
    by (rule change_module_ok [OF ok m(1)]) (use tables_okD [OF ok m(1)] m(2) h in auto)
  moreover have "same_tables (set_module st p (Some (add_reader m))) st'"
    using u m by (auto simp: module_use_def Let_def same_tables_def set_module_def split: if_splits)
  ultimately show ?thesis using same_tables_ok by blast
qed
lemma count_remove1:
  "x \<in> set us \<Longrightarrow> count_list (map snd us) q = count_list (map snd (remove1 x us)) q + (if snd x = q then 1 else 0)"
  by (induction us) auto

lemma filter_remove1_other: "\<not> P x \<Longrightarrow> filter P (remove1 x us) = filter P us"
  by (induction us) auto

lemma module_unuse_ok:
  assumes ok: "tables_ok st us cl" and u: "module_unuse st t (Some p) key = Some st'"
    and h: "(h, p) \<in> set us" "\<forall>q. h \<noteq> By_Module q"
  shows "tables_ok st' (remove1 (h, p) us) cl"
proof -
  from u obtain m m' where m: "get_module st p = Some m" "drop_reader m = Some m'"
    by (auto simp: module_unuse_def Let_def split: bind_splits)
  note sel = drop_reader_sel [OF m(2)] and cnt = count_remove1 [OF h(1)]
  have "tables_ok (set_module st p (Some m')) (remove1 (h, p) us) cl"
    by (rule change_module_ok [OF ok m(1)])
      (use tables_okD [OF ok m(1)] sel cnt h(2) in \<open>simp_all add: filter_remove1_other\<close>)
  moreover have "same_tables (set_module st p (Some m')) st'"
    using u m by (auto simp: module_unuse_def Let_def same_tables_def set_module_def split: if_splits)
  ultimately show ?thesis using same_tables_ok by blast
qed

lemma do_run_ok:
  assumes ok: "tables_ok st us None" and r: "module_do_run st tag run = Some (st', ans)"
  shows "tables_ok st' us None"
proof -
  have "st' = st \<or> (\<exists>p m. get_module st p = Some m \<and> st' = set_module st p (Some (m\<lparr>md_run := run\<rparr>)))"
    using r by (auto simp: module_do_run_def with_module_def with_name_def reply_def
        split: bind_splits sum.splits list.splits option.splits xv.splits if_splits)
  then show ?thesis
  proof (elim disjE exE conjE)
    fix p m
    assume m: "get_module st p = Some m" and st': "st' = set_module st p (Some (m\<lparr>md_run := run\<rparr>))"
    show ?thesis
      unfolding st' by (rule change_module_ok [OF ok m]) (simp_all add: tables_okD [OF ok m])
  qed (use ok in simp)
qed

lemma unload_stop_ok:
  assumes ok: "tables_ok st us None" and r: "unload_stop st name = Some (st', Inr p)"
  shows "tables_ok st' us (Some (p, False))"
proof -
  from r obtain m where m: "get_module st p = Some m" "rw_readers (md_rwlock m) = 0"
      "st' = set_module st p (Some (m\<lparr>md_run := False\<rparr>))"
    by (auto simp: unload_stop_def split: option.splits bind_splits if_splits)
  with stop_ok [OF ok m(1)] tables_okD(1) [OF ok m(1)] show ?thesis by simp
qed

subsection \<open>Taking commands and variables away\<close>

lemma same_tables_refl [simp]: "same_tables st st"
  by (simp add: same_tables_def)

lemma same_tables_trans: "same_tables a b \<Longrightarrow> same_tables b c \<Longrightarrow> same_tables a c"
  by (simp add: same_tables_def)

lemma free_data_tables [simp]: "same_tables st (free_data priv data st)"
  by (simp add: free_data_def same_tables_def split: option.splits)

lemma set_session_tables [simp]: "same_tables st (set_session st' ss x) \<longleftrightarrow> same_tables st st'"
  by (simp add: set_session_def same_tables_def)

lemma del_var_loop_tables: "del_var_loop priv var iter st = Some st' \<Longrightarrow> same_tables st st'"
proof (induction priv var iter st rule: del_var_loop.induct)
  case (2 priv var sid ss iter st)
  from 2(2) obtain s st1 where s: "sv_sessions st ss = Some s" "del_var_loop priv var iter st1 = Some st'"
      and st1: "st1 = (case session_lookup_var s var of None \<Rightarrow> st
        | Some data \<Rightarrow> set_session (free_data priv data st) ss (Some (s\<lparr>ss_vars := AList.delete var (ss_vars s)\<rparr>)))"
    by (auto split: bind_splits)
  have "same_tables st st1" by (simp add: st1 split: option.split)
  with 2(1) [OF s(1)] s(2) show ?case by (simp add: st1 same_tables_trans)
qed simp

lemma var_free_tables: "mbb_var_free st p = Some st' \<Longrightarrow> same_tables st st'"
  using del_var_loop_tables
  by (fastforce simp: mbb_var_free_def mbb_session_del_var_def Let_def same_tables_def
      split: bind_splits option.splits var_priv.splits)

lemma var_unregister_tables: "mbb_var_unregister st p = Some st' \<Longrightarrow> same_tables st st'"
  by (auto simp: mbb_var_unregister_def same_tables_def split: bind_splits)

lemma unreg_vars_tables: "unreg_vars_loop vars st = Some st' \<Longrightarrow> same_tables st st'"
proof (induction vars st rule: unreg_vars_loop.induct)
  case (2 p vars st)
  from 2(2) obtain var st1 st2 where s: "sv_vars st p = Some var"
      "(if mbb_var_has_mod var then mbb_var_unregister st p else Some st) = Some st1"
      "mbb_var_free st1 p = Some st2" "unreg_vars_loop vars st2 = Some st'"
    by (auto split: bind_splits)
  have "same_tables st st1" using s(2) var_unregister_tables by (auto split: if_splits)
  with 2(1) [OF s(1-3)] s(4) var_free_tables [OF s(3)] show ?case by (blast intro: same_tables_trans)
qed simp

text \<open>What is left after a command table has been unregistered.\<close>

lemma ht_lookup_remove: "ht_lookup (ht_remove ht k) k' = (if k' = k then None else ht_lookup ht k')"
  by (auto simp: ht_lookup_def ht_remove_def delete_conv split: option.splits)

lemma unregister_loop_effect:
  "unregister_loop fss st = Some st' \<Longrightarrow>
     sv_modules st' = sv_modules st \<and>
     (\<forall>name fs. ht_lookup (sv_func_ht st') name = Some fs \<longrightarrow> ht_lookup (sv_func_ht st) name = Some fs) \<and>
     (\<forall>fs f. sv_funcs st fs = Some f \<longrightarrow>
        (\<exists>f'. sv_funcs st' fs = Some f' \<and> (f' = f \<or> fs_module f' = None) \<and> (fs \<in> set fss \<longrightarrow> fs_module f' = None)))"
proof (induction fss st rule: unregister_loop.induct)
  case (2 a fss st)
  then obtain f where f: "sv_funcs st a = Some f" by (auto split: bind_splits)
  define st1 where "st1 = (if fs_module f \<noteq> None
             then st\<lparr>sv_func_ht := ht_remove (sv_func_ht st) (fs_name f),
                     sv_funcs := (sv_funcs st)(a \<mapsto> f\<lparr>fs_module := None\<rparr>)\<rparr>
             else st)"
  have r: "unregister_loop fss st1 = Some st'" using 2(2) f by (simp add: st1_def split: if_splits)
  note ih = 2(1) [OF f, folded st1_def, OF r]
  have h: "ht_lookup (sv_func_ht st1) name = Some fs \<Longrightarrow> ht_lookup (sv_func_ht st) name = Some fs" for name fs
    by (auto simp: st1_def ht_lookup_remove split: if_splits)
  have g: "\<exists>f'. sv_funcs st1 fs = Some f' \<and> (f' = x \<or> fs_module f' = None) \<and> (fs = a \<longrightarrow> fs_module f' = None)"
    if "sv_funcs st fs = Some x" for fs x
    using that f by (auto simp: st1_def)
  have e: "\<exists>f'. sv_funcs st' fs = Some f' \<and> (f' = x \<or> fs_module f' = None) \<and> (fs \<in> set (a # fss) \<longrightarrow> fs_module f' = None)"
    if x: "sv_funcs st fs = Some x" for fs x
  proof -
    from g [OF x] obtain y where y: "sv_funcs st1 fs = Some y" "y = x \<or> fs_module y = None" "fs = a \<longrightarrow> fs_module y = None"
      by blast
    from ih y(1) obtain z where "sv_funcs st' fs = Some z" "z = y \<or> fs_module z = None" "fs \<in> set fss \<longrightarrow> fs_module z = None"
      by blast
    with y show ?thesis by (cases "fs = a") auto
  qed
  have "sv_modules st1 = sv_modules st" by (simp add: st1_def)
  with ih h e show ?case by simp
qed auto

lemma unregister_all_effect:
  assumes "mbb_func_unregister_all st fss = Some st'"
  shows "sv_modules st' = sv_modules st"
    and "ht_lookup (sv_func_ht st') name = Some fs \<Longrightarrow> ht_lookup (sv_func_ht st) name = Some fs"
    and "ht_lookup (sv_func_ht st') name = Some fs \<Longrightarrow> sv_funcs st fs = Some f \<Longrightarrow>
      \<exists>f'. sv_funcs st' fs = Some f' \<and> (f' = f \<or> fs_module f' = None) \<and> (fs \<in> set fss \<longrightarrow> fs_module f' = None)"
proof -
  consider (none) "sv_func_ht st = None" "st' = st" | (some) "unregister_loop fss st = Some st'"
    using assms by (cases "sv_func_ht st") (simp_all add: mbb_func_unregister_all_def)
  note cs = this
  show "sv_modules st' = sv_modules st"
    using cs by cases (simp, use unregister_loop_effect in blast)
  show "ht_lookup (sv_func_ht st) name = Some fs" if n: "ht_lookup (sv_func_ht st') name = Some fs"
    using cs by cases (use n in simp, use n unregister_loop_effect in blast)
  show "\<exists>f'. sv_funcs st' fs = Some f' \<and> (f' = f \<or> fs_module f' = None) \<and> (fs \<in> set fss \<longrightarrow> fs_module f' = None)"
    if n: "ht_lookup (sv_func_ht st') name = Some fs" "sv_funcs st fs = Some f"
    using cs
  proof cases
    case none
    with n(1) show ?thesis by (simp add: ht_lookup_def)
  next
    case some
    from unregister_loop_effect [OF some] n(2) show ?thesis by blast
  qed
qed

lemma unregister_ok:
  assumes f: "funcs_ok st (Some (p, False))" and m: "get_module st p = Some m" "md_functions m = Some fss"
    and r: "mbb_func_unregister_all st fss = Some st'"
  shows "funcs_ok st' (Some (p, True))"
proof (rule funcs_okI)
  fix name fs
  assume n: "ht_lookup (sv_func_ht st') name = Some fs"
  note e = unregister_all_effect [OF r]
  from funcs_okD [OF f e(2) [OF n]] obtain x where x: "sv_funcs st fs = Some x"
      "\<forall>q. fs_module x = Some q \<longrightarrow> Some (p, False) \<noteq> Some (q, True) \<and>
        (\<exists>m fss. get_module st q = Some m \<and> md_functions m = Some fss \<and> fs \<in> set fss)" by blast
  from e(3) [OF n x(1)] obtain y where y: "sv_funcs st' fs = Some y" "y = x \<or> fs_module y = None"
      "fs \<in> set fss \<longrightarrow> fs_module y = None" by blast
  have "q \<noteq> p \<and> (\<exists>m fss. get_module st' q = Some m \<and> md_functions m = Some fss \<and> fs \<in> set fss)"
    if "fs_module y = Some q" for q
  proof -
    have q: "fs_module x = Some q" "fs \<notin> set fss" using y(2,3) that by auto
    from x(2) q(1) obtain a b where a: "get_module st q = Some a" "md_functions a = Some b" "fs \<in> set b" by blast
    with q(2) m have "q \<noteq> p" by (metis option.inject)
    moreover have "get_module st' q = Some a" using a(1) e(1) by (simp only: get_module_def)
    ultimately show ?thesis using a by blast
  qed
  with y(1) show "\<exists>f. sv_funcs st' fs = Some f \<and> (\<forall>q. fs_module f = Some q \<longrightarrow> Some (p, True) \<noteq> Some (q, True) \<and>
      (\<exists>m fss. get_module st' q = Some m \<and> md_functions m = Some fss \<and> fs \<in> set fss))" by blast
qed

lemma no_functions_ok:
  assumes "funcs_ok st (Some (p, False))" and "get_module st p = Some m" "md_functions m = None"
  shows "funcs_ok st (Some (p, True))"
  using assms unfolding funcs_ok_def by fastforce

subsection \<open>Giving up imports\<close>

definition less_used :: "nat \<Rightarrow> mbb_module \<Rightarrow> mbb_module \<Rightarrow> bool" where
  "less_used n m m' \<longleftrightarrow> md_name m' = md_name m \<and> md_handle m' = md_handle m \<and> md_info m' = md_info m \<and>
     md_deps m' = md_deps m \<and> md_functions m' = md_functions m \<and> md_run m' = md_run m \<and>
     rw_readers (md_rwlock m) = rw_readers (md_rwlock m') + n \<and> md_use_count m = md_use_count m' + int n"

lemma unuse_deps_effect:
  "unuse_deps t ds st = Some st' \<Longrightarrow> linked st \<Longrightarrow>
     linked st' \<and> sv_funcs st' = sv_funcs st \<and> sv_func_ht st' = sv_func_ht st \<and>
     (\<forall>q. rel_option (less_used (count_list ds q)) (get_module st q) (get_module st' q))"
proof (induction t ds st rule: unuse_deps.induct)
  case (1 t st)
  have "rel_option (less_used 0) x x" for x by (cases x) (simp_all add: less_used_def)
  with 1 show ?case by simp
next
  case (2 t d ds st)
  from 2(2) obtain m m' where m: "get_module st d = Some m" "drop_reader m = Some m'"
      "unuse_deps t ds (set_module st d (Some m')) = Some st'"
    by (auto simp: module_unuse_def Let_def split: bind_splits)
  note sel = drop_reader_sel [OF m(2)]
  have "module_unuse st t (Some d) False = Some (set_module st d (Some m'))"
    using m by (simp add: module_unuse_def)
  from 2(1) [OF this m(3)] set_module_linked [OF 2(3) m(1)] sel
  have ih: "linked st'" "sv_funcs st' = sv_funcs st" "sv_func_ht st' = sv_func_ht st"
      "\<And>q. rel_option (less_used (count_list ds q)) (get_module (set_module st d (Some m')) q) (get_module st' q)"
    by simp_all
  have "rel_option (less_used (count_list (d # ds) q)) (get_module st q) (get_module st' q)" for q
  proof (cases "q = d")
    case True
    with ih(4) [of q] m sel show ?thesis by (auto simp: less_used_def option_rel_Some1)
  qed (use ih(4) [of q] in simp)
  with ih(1-3) show ?case by blast
qed

lemma uses_split:
  "uses_of us q = uses_of (filter (\<lambda>(h, _). h \<noteq> By_Module p) us) q + count_list (deps_held us p) q"
  by (induction us) auto

lemma deps_filter:
  "deps_held (filter (\<lambda>(h, _). h \<noteq> By_Module p) us) q = (if q = p then [] else deps_held us q)"
  by (induction us) auto

lemma unuse_readers:
  assumes ok: "readers_ok st us" and deps: "mset (deps_held us p) = mset ds"
    and e: "\<And>q. rel_option (less_used (count_list ds q)) (get_module st q) (get_module st' q)"
  shows "readers_ok st' (filter (\<lambda>(h, _). h \<noteq> By_Module p) us)"
proof -
  let ?us = "filter (\<lambda>(h, _). h \<noteq> By_Module p) us"
  have cnt: "uses_of us q = uses_of ?us q + count_list ds q" for q
    using uses_split [of us q p] deps by (metis count_mset)
  have "uses_of ?us q = 0" if "get_module st' q = None" for q
    using that e [of q] ok cnt [of q] by (auto simp: readers_ok_def)
  moreover have "rw_readers (md_rwlock m') = uses_of ?us q \<and> md_use_count m' = int (uses_of ?us q)"
    if m': "get_module st' q = Some m'" for q m'
  proof -
    from e [of q] m' obtain m where m: "get_module st q = Some m" "less_used (count_list ds q) m m'"
      by (auto simp: option_rel_Some2)
    with ok have "rw_readers (md_rwlock m) = uses_of us q" "md_use_count m = int (uses_of us q)"
      by (simp_all add: readers_ok_def)
    with m(2) cnt [of q] show ?thesis by (simp add: less_used_def)
  qed
  ultimately show ?thesis unfolding readers_ok_def by blast
qed

text \<open>A state whose modules differ from another's in their uses only.\<close>

lemma less_used_funcs:
  assumes ok: "funcs_ok st cl" and e: "\<And>q. rel_option (less_used (n q)) (get_module st q) (get_module st' q)"
    and same: "sv_funcs st' = sv_funcs st" "sv_func_ht st' = sv_func_ht st"
  shows "funcs_ok st' cl"
proof (rule funcs_okI)
  fix name fs
  assume "ht_lookup (sv_func_ht st') name = Some fs"
  then have "ht_lookup (sv_func_ht st) name = Some fs" by (simp add: same)
  from funcs_okD [OF ok this] obtain f where f: "sv_funcs st fs = Some f"
    "\<forall>q. fs_module f = Some q \<longrightarrow> cl \<noteq> Some (q, True) \<and>
       (\<exists>m fss. get_module st q = Some m \<and> md_functions m = Some fss \<and> fs \<in> set fss)" by blast
  have "\<exists>m fss. get_module st' q = Some m \<and> md_functions m = Some fss \<and> fs \<in> set fss" if "fs_module f = Some q" for q
  proof -
    from f(2) that obtain m fss where m: "get_module st q = Some m" "md_functions m = Some fss" "fs \<in> set fss" by blast
    with e [of q] obtain m' where "get_module st' q = Some m'" "less_used (n q) m m'" by (auto simp: option_rel_Some1)
    with m show ?thesis by (auto simp: less_used_def)
  qed
  with f show "\<exists>f. sv_funcs st' fs = Some f \<and> (\<forall>q. fs_module f = Some q \<longrightarrow> cl \<noteq> Some (q, True) \<and>
      (\<exists>m fss. get_module st' q = Some m \<and> md_functions m = Some fss \<and> fs \<in> set fss))" by (simp add: same)
qed

lemma unuse_deps_ok:
  assumes r: "readers_ok st us" and d: "deps_ok st us (Some (p, False))" and f: "funcs_ok st (Some (p, True))"
    and c: "closing_ok st us (Some (p, False))" and l: "linked st" and m: "get_module st p = Some m"
    and u: "unuse_deps t (md_deps m) st = Some st'"
  shows "tables_ok st' (filter (\<lambda>(h, _). h \<noteq> By_Module p) us) (Some (p, True))"
proof -
  let ?us = "filter (\<lambda>(h, _). h \<noteq> By_Module p) us"
  from unuse_deps_effect [OF u l] have e: "linked st'" "sv_funcs st' = sv_funcs st" "sv_func_ht st' = sv_func_ht st"
    "\<And>q. rel_option (less_used (count_list (md_deps m) q)) (get_module st q) (get_module st' q)" by simp_all
  have deps: "mset (deps_held us p) = mset (md_deps m)" using d m by (simp add: deps_ok_def)
  have "mset (deps_held ?us q) = mset (md_deps m')" if q: "get_module st' q = Some m'" "q \<noteq> p" for q m'
  proof -
    from e(4) [of q] q(1) obtain x where "get_module st q = Some x" "md_deps m' = md_deps x"
      by (auto simp: option_rel_Some2 less_used_def)
    with d q(2) show ?thesis unfolding deps_filter deps_ok_def by simp
  qed
  moreover have "deps_held ?us q = []" if "get_module st' q = None \<or> q = p" for q
    using that e(4) [of q] d unfolding deps_filter deps_ok_def by (cases "q = p") auto
  ultimately have "deps_ok st' ?us (Some (p, True))" unfolding deps_ok_def by blast
  moreover have "closing_ok st' ?us (Some (p, True))"
    using c m e(4) [of p] uses_split [of us p p] by (auto simp: closing_ok_def option_rel_Some1 less_used_def)
  ultimately show ?thesis
    using unuse_readers [OF r deps e(4)] less_used_funcs [OF f e(4) e(2,3)] e(1) unfolding tables_ok_def by blast
qed

lemma unreg_data_ok:
  assumes ok: "tables_ok st us (Some (p, False))" and u: "mbb_module_unreg_data st t p = Some st'"
  shows "tables_ok st' (filter (\<lambda>(h, _). h \<noteq> By_Module p) us) (Some (p, True))"
proof -
  from u obtain m st1 st2 where m: "get_module st p = Some m"
      and s1: "(case md_functions m of None \<Rightarrow> Some st | Some fss \<Rightarrow> mbb_func_unregister_all st fss) = Some st1"
      and s2: "unreg_vars_loop (md_vars m) st1 = Some st2" and s3: "unuse_deps t (md_deps m) st2 = Some st'"
    by (auto simp: mbb_module_unreg_data_def split: bind_splits)
  have f: "funcs_ok st (Some (p, False))" using ok by (simp add: tables_ok_def)
  have f1: "funcs_ok st1 (Some (p, True))" "sv_modules st1 = sv_modules st"
    using s1 m no_functions_ok [OF f m] unregister_ok [OF f m] unregister_all_effect(1) [of st _ st1]
    by (auto split: option.splits)
  have same: "sv_modules st2 = sv_modules st" "funcs_ok st2 (Some (p, True))"
    using unreg_vars_tables [OF s2] f1 by (simp_all add: same_tables_def funcs_ok_def get_module_def)
  have m2: "get_module st2 p = Some m" using m same(1) by (simp add: get_module_def)
  have "readers_ok st2 us" "deps_ok st2 us (Some (p, False))" "closing_ok st2 us (Some (p, False))" "linked st2"
    using ok same(1) by (simp_all add: tables_ok_def readers_ok_def deps_ok_def closing_ok_def linked_def get_module_def)
  from unuse_deps_ok [OF this(1,2) same(2) this(3,4) m2 s3] show ?thesis .
qed

subsection \<open>Closing and loading\<close>

lemma module_self_first [simp]: "self_first module_entries"
  by (simp add: self_first_def module_entries_def)

lemma module_del_effect:
  assumes l: "linked st" and m: "get_module st p = Some m" and r: "mbb_module_del st p = Some st'"
  shows "linked st'" "get_module st' q = (if q = p then None else get_module st q)"
    "sv_funcs st' = sv_funcs st" "sv_func_ht st' = sv_func_ht st"
proof -
  let ?h = "dm_heap (sv_modules st)"
  have p: "?h p = Some m" "p \<in> dom ?h" using m by (auto simp: get_module_def)
  with l obtain dl where dl: "dm_link (sv_modules st) = Some dl" "links module_entries ?h (dom ?h) dl"
    by (auto simp: linked_def module_ok_def split: option.splits)
  have "data_link_lookup dl 0 (Key_Ptr p) = Some p"
    using p dl(2) by (auto simp: links_lookup module_entries_def)
  moreover obtain dl' where dl': "data_link_unlink module_entries ?h dl p = Some dl'" "links module_entries ?h (dom ?h - {p}) dl'"
    using links_unlink [OF dl(2) p] by blast
  ultimately have st': "st' = mbb_module_free (st\<lparr>sv_modules := (sv_modules st)\<lparr>dm_link := Some dl'\<rparr>\<rparr>) p"
    using r dl(1) l by (auto simp: mbb_module_del_def data_link_remove_def linked_def)
  have "dl_destroy dl'" using dl' l dl(1) p by (auto simp: data_link_unlink_def linked_def)
  moreover have "links module_entries (?h(p := None)) (dom ?h - {p}) dl'"
    by (rule links_heap_update [OF dl'(2)]) simp
  ultimately show "linked st'" by (auto simp: linked_def module_ok_def st' mbb_module_free_def set_module_def)
  show "get_module st' q = (if q = p then None else get_module st q)"
    "sv_funcs st' = sv_funcs st" "sv_func_ht st' = sv_func_ht st"
    by (simp_all add: st' mbb_module_free_def get_module_def set_module_def)
qed

lemma close_ok:
  assumes ok: "tables_ok st us (Some (p, True))" and q: "quiet_loader ld" and r: "unload_close ld st p = Some st'"
  shows "tables_ok st' us None"
proof -
  obtain st1 where st1: "same_tables st st1" "mbb_module_del st1 p = Some st'"
  proof -
    from r obtain s0 and info :: mbb_module_info and y :: mbb_module where s:
        "(case mi_unload info of None \<Rightarrow> Some st | Some f \<Rightarrow> ld_call ld f st) = Some s0"
        "mbb_module_del (ld_dlclose ld (md_handle y) s0) p = Some st'"
      unfolding unload_close_def bind_eq_Some_conv by blast
    have "same_tables st s0" using s(1) q by (auto simp: quiet_loader_def split: option.splits)
    with s(2) q that show thesis unfolding quiet_loader_def by (blast intro: same_tables_trans)
  qed
  have ok1: "tables_ok st1 us (Some (p, True))" using ok same_tables_ok [OF st1(1)] by simp
  then obtain m where m: "get_module st1 p = Some m" "uses_of us p = 0" by (auto simp: tables_ok_def closing_ok_def)
  have l: "linked st1" using ok1 by (simp add: tables_ok_def)
  note e = module_del_effect [OF l m(1) st1(2)]
  have "readers_ok st' us" using ok1 m(2) by (auto simp: tables_ok_def readers_ok_def e)
  moreover have "deps_ok st' us None" using ok1 by (auto simp: tables_ok_def deps_ok_def e)
  moreover have "funcs_ok st' None"
  proof (rule funcs_okI)
    fix name fs
    assume "ht_lookup (sv_func_ht st') name = Some fs"
    with funcs_okD [of st1 "Some (p, True)" name fs] ok1 obtain f where f: "sv_funcs st1 fs = Some f"
      "\<forall>q. fs_module f = Some q \<longrightarrow> q \<noteq> p \<and> (\<exists>m fss. get_module st1 q = Some m \<and> md_functions m = Some fss \<and> fs \<in> set fss)"
      by (auto simp: tables_ok_def e(4))
    then show "\<exists>f. sv_funcs st' fs = Some f \<and> (\<forall>q. fs_module f = Some q \<longrightarrow> None \<noteq> Some (q, True) \<and>
      (\<exists>m fss. get_module st' q = Some m \<and> md_functions m = Some fss \<and> fs \<in> set fss))" by (auto simp: e)
  qed
  ultimately show ?thesis using e(1) by (simp add: tables_ok_def closing_ok_def)
qed

lemma load_readers:
  assumes ok: "readers_ok st us" and ld: "loaded st st' p m"
  shows "readers_ok st' (map (Pair (By_Module p)) (md_deps m) @ us)"
proof -
  let ?us = "map (Pair (By_Module p)) (md_deps m) @ us"
  have cnt: "uses_of ?us q = count_list (md_deps m) q + uses_of us q" for q
    by (simp add: comp_def)
  have mods: "get_module st' q = (if q = p then Some m else map_option (more_readers (count_list (md_deps m) q)) (get_module st q))"
    for q using ld by (simp add: loaded_def)
  have p: "get_module st p = None" "count_list (md_deps m) p = 0" "rw_readers (md_rwlock m) = 0" "md_use_count m = 0"
    using ld by (auto simp: loaded_def count_list_0_iff)
  have none: "count_list (md_deps m) q = 0" if "get_module st q = None" for q
    using ld that by (auto simp: loaded_def count_list_0_iff)
  have "uses_of ?us q = 0" if "get_module st' q = None" for q
    using that ok none [of q] by (auto simp: mods cnt readers_ok_def split: if_splits simp del: map_append)
  moreover have "rw_readers (md_rwlock x) = uses_of ?us q \<and> md_use_count x = int (uses_of ?us q)"
    if x: "get_module st' q = Some x" for q x
  proof (cases "q = p")
    case True
    have "uses_of ?us p = 0" using cnt [of p] p ok by (simp add: readers_ok_def del: map_append)
    with True x p show ?thesis by (simp add: mods del: map_append)
  next
    case False
    with x obtain y where "get_module st q = Some y" "x = more_readers (count_list (md_deps m) q) y"
      by (auto simp: mods)
    with ok show ?thesis by (simp add: cnt readers_ok_def del: map_append)
  qed
  ultimately show ?thesis unfolding readers_ok_def by blast
qed

lemma load_ok:
  assumes ok: "tables_ok st us None" and ld: "loaded st st' p m"
  shows "tables_ok st' (map (Pair (By_Module p)) (md_deps m) @ us) None"
proof -
  let ?us = "map (Pair (By_Module p)) (md_deps m) @ us"
  have mods: "get_module st' q = (if q = p then Some m else map_option (more_readers (count_list (md_deps m) q)) (get_module st q))"
    for q using ld by (simp add: loaded_def)
  have p: "get_module st p = None" using ld by (simp add: loaded_def)
  have held: "deps_held ?us q = (if q = p then md_deps m @ deps_held us q else deps_held us q)" for q
    by (auto simp: comp_def)
  have "deps_ok st' ?us None"
    using ok p unfolding tables_ok_def deps_ok_def held mods by auto
  moreover have "funcs_ok st' None"
  proof (rule funcs_okI)
    fix name fs
    assume "ht_lookup (sv_func_ht st') name = Some fs"
    with ld obtain f where f: "sv_funcs st' fs = Some f"
      "fs_module f = Some p \<and> (\<exists>fss. md_functions m = Some fss \<and> fs \<in> set fss)
       \<or> ht_lookup (sv_func_ht st) name = Some fs \<and> sv_funcs st fs = Some f" unfolding loaded_def by blast
    have "\<exists>x fss. get_module st' q = Some x \<and> md_functions x = Some fss \<and> fs \<in> set fss" if q: "fs_module f = Some q" for q
      using f(2)
    proof
      assume "ht_lookup (sv_func_ht st) name = Some fs \<and> sv_funcs st fs = Some f"
      with funcs_okD [of st None name fs] ok q obtain x fss where
        "get_module st q = Some x" "md_functions x = Some fss" "fs \<in> set fss" by (auto simp: tables_ok_def)
      with p show ?thesis by (auto simp: mods)
    qed (use q in \<open>simp add: mods\<close>)
    with f(1) show "\<exists>f. sv_funcs st' fs = Some f \<and> (\<forall>q. fs_module f = Some q \<longrightarrow> None \<noteq> Some (q, True) \<and>
      (\<exists>m fss. get_module st' q = Some m \<and> md_functions m = Some fss \<and> fs \<in> set fss))" by simp
  qed
  ultimately show ?thesis
    using load_readers [OF _ ld] ok ld by (simp add: tables_ok_def closing_ok_def loaded_def)
qed

section \<open>Running commands keep their modules\<close>

lemma func_search_found:
  assumes "mbb_func_search st t name cap = Some (st', Some fs)" and "sv_funcs st fs = Some f"
  shows "ht_lookup (sv_func_ht st) name = Some fs" "mbb_cap_check cap (fs_cap_mask f)"
    "mbb_module_use st t (fs_module f) = Some (st', True)"
  using assms by (auto simp: mbb_func_search_def split: option.splits bind_splits if_splits)

lemma mod_step_inv:
  assumes "mod_step ld c c'" and q: "quiet_loader ld" and "mod_inv c"
  shows "mod_inv c'"
  using assms(1,3)
proof cases
  case (call t cap name st' fs f)
  note u = func_search_found(3) [OF call(3,4)]
  show ?thesis
  proof (cases "fs_module f")
    case None
    with u assms(3) show ?thesis by (simp add: call(1) mbb_module_use_def module_use_def mod_inv_def)
  next
    case (Some md)
    from module_use_ok [of _ "mc_uses c" "mc_closing c" t md True st' "By_Thread t"] assms(3) u Some show ?thesis
      by (simp add: call(1) mod_inv_def mbb_module_use_def)
  qed
next
  case (return t md st')
  from module_unuse_ok [OF assms(3) [unfolded mod_inv_def] return(3) [unfolded mbb_module_unuse_def] return(2)]
  show ?thesis by (simp add: return(1) mod_inv_def)
next
  case (run tag run st' ans)
  with do_run_ok assms(3) show ?thesis by (fastforce simp: mod_inv_def)
next
  case (stop name st' p)
  with unload_stop_ok assms(3) show ?thesis by (fastforce simp: mod_inv_def)
next
  case (unreg p t st')
  with unreg_data_ok assms(3) show ?thesis by (fastforce simp: mod_inv_def)
next
  case (close p st')
  with close_ok [OF _ q] assms(3) show ?thesis by (fastforce simp: mod_inv_def)
next
  case (load st' p m)
  with load_ok assms(3) show ?thesis by (fastforce simp: mod_inv_def)
next
  case (work st')
  with same_tables_ok assms(3) show ?thesis by (fastforce simp: mod_inv_def)
qed

lemma mod_start_inv: "mod_start st \<Longrightarrow> mod_inv \<lparr>mc_st = st, mc_uses = [], mc_closing = None\<rparr>"
  by (auto simp: mod_start_def mod_inv_def tables_ok_def readers_ok_def deps_ok_def funcs_ok_def closing_ok_def
      linked_def module_ok_def get_module_def)

lemma mod_reach_inv:
  assumes "(mod_step ld)\<^sup>*\<^sup>* c c'" and "quiet_loader ld" and "mod_inv c"
  shows "mod_inv c'"
  using assms(1) by (induction rule: rtranclp_induct) (use assms(2,3) mod_step_inv in blast)+

lemma func_search_total:
  assumes "tables_ok st us cl"
  shows "mbb_func_search st t name cap \<noteq> None"
proof (cases "ht_lookup (sv_func_ht st) name")
  case (Some fs)
  have "funcs_ok st cl" using assms by (simp add: tables_ok_def)
  from funcs_okD [OF this Some] obtain f where f: "sv_funcs st fs = Some f"
    "\<forall>q. fs_module f = Some q \<longrightarrow> cl \<noteq> Some (q, True) \<and>
       (\<exists>m fss. get_module st q = Some m \<and> md_functions m = Some fss \<and> fs \<in> set fss)" by blast
  have "mbb_module_use st t (fs_module f) \<noteq> None"
    using f(2) by (cases "fs_module f") (auto simp: mbb_module_use_def module_use_def Let_def)
  with Some f(1) show ?thesis by (auto simp: mbb_func_search_def)
qed (simp add: mbb_func_search_def)


subsection \<open>A call in progress\<close>

definition loader0 :: "unit loader" where
  "loader0 = \<lparr>ld_dlopen = \<lambda>_ st. (st, None), ld_dlerror = [], ld_dlclose = \<lambda>_ st. st, ld_call = \<lambda>_ st. Some st,
     ld_str_at = \<lambda>_ _. None, ld_md_var = 0, ld_module_dir = 0\<rparr>"

definition module1 :: mbb_module where
  "module1 = (mbb_module_new ''a.so'' 2 3 0)\<lparr>md_functions := Some [5], md_total := 1, md_nreg := 1, md_run := True\<rparr>"

definition srv1 :: "unit srv" where
  "srv1 = srv0\<lparr>sv_modules := the (module_join module_entries \<lparr>dm_link = None, dm_heap = [1 \<mapsto> module1]\<rparr> 1),
     sv_funcs := [5 \<mapsto> \<lparr>fs_name = ''f'', fs_func = 9, fs_cap_mask = - 1, fs_module = Some 1\<rparr>],
     sv_func_ht := Some [(''f'', 5)]\<rparr>"

definition config2 :: "unit mod_config" where
  "config2 = \<lparr>mc_st = set_module (srv1\<lparr>sv_mod_key := (sv_mod_key srv1)(0 := Some 1)\<rparr>) 1 (Some (add_reader module1)),
     mc_uses = [(By_Thread 0, 1)], mc_closing = None\<rparr>"

lemma srv1_modules:
  "linked srv1" "get_module srv1 q = (if q = 1 then Some module1 else None)"
proof -
  let ?m = "\<lparr>dm_link = None, dm_heap = [1 \<mapsto> module1]\<rparr>"
  have "module_ok module_entries ?m {}" by (simp add: module_ok_def)
  then obtain m where m: "module_join module_entries ?m 1 = Some m" "module_ok module_entries m {1}" "dm_heap m = [1 \<mapsto> module1]"
    using module_join_ok [of module_entries ?m "{}" 1 module1] by (auto simp: fresh_keys_def)
  moreover from m(1) have "pred_option dl_destroy (dm_link m)"
    by (auto simp: module_join_def data_link_insert_def data_link_new_full_def)
  ultimately show "linked srv1" "get_module srv1 q = (if q = 1 then Some module1 else None)"
    by (simp_all add: srv1_def linked_def get_module_def)
qed

lemma srv1_loaded: "loaded srv0 srv1 1 module1"
proof -
  have "ht_lookup (sv_func_ht srv1) name = Some fs \<Longrightarrow> fs = 5" for name fs
    by (simp add: srv1_def ht_lookup_def split: if_splits)
  moreover have "sv_funcs srv1 5 = Some \<lparr>fs_name = ''f'', fs_func = 9, fs_cap_mask = - 1, fs_module = Some 1\<rparr>"
    by (simp add: srv1_def)
  ultimately show ?thesis
    using srv1_modules by (auto simp: loaded_def srv0_def get_module_def module1_def mbb_module_new_def)
qed

lemma config2_reach: "(mod_step loader0)\<^sup>*\<^sup>* \<lparr>mc_st = srv0, mc_uses = [], mc_closing = None\<rparr> config2"
proof -
  let ?c0 = "\<lparr>mc_st = srv0, mc_uses = [], mc_closing = None\<rparr>" and ?c1 = "\<lparr>mc_st = srv1, mc_uses = [], mc_closing = None\<rparr>"
  have "mod_step loader0 ?c0 (?c0\<lparr>mc_st := srv1, mc_uses := map (Pair (By_Module 1)) (md_deps module1) @ mc_uses ?c0\<rparr>)"
    by (rule mod_step.load) (simp_all add: srv1_loaded)
  then have "mod_step loader0 ?c0 ?c1" by (simp add: module1_def mbb_module_new_def)
  moreover have "mod_step loader0 ?c1 (?c1\<lparr>mc_st := mc_st config2,
      mc_uses := (case fs_module \<lparr>fs_name = ''f'', fs_func = 9, fs_cap_mask = - 1, fs_module = Some 1\<rparr> of
        None \<Rightarrow> [] | Some md \<Rightarrow> [(By_Thread 0, md)]) @ mc_uses ?c1\<rparr>)"
  proof (rule mod_step.call [where t = 0 and cap = 0 and name = "''f''" and fs = 5])
    show "mbb_thread_get_cap (mc_st ?c1) 0 = Some 0"
      by (simp add: mbb_thread_get_cap_def mbb_thread_get_user_def srv1_def srv0_def)
    show "sv_funcs (mc_st ?c1) 5 = Some \<lparr>fs_name = ''f'', fs_func = 9, fs_cap_mask = - 1, fs_module = Some 1\<rparr>"
      by (simp add: srv1_def)
    have "md_run module1" by (simp add: module1_def)
    then have "mbb_module_use srv1 0 (Some 1) = Some (mc_st config2, True)"
      using srv1_modules(2) [of 1] by (simp add: mbb_module_use_def module_use_def config2_def)
    moreover have "ht_lookup (sv_func_ht srv1) ''f'' = Some 5"
        "sv_funcs srv1 5 = Some \<lparr>fs_name = ''f'', fs_func = 9, fs_cap_mask = - 1, fs_module = Some 1\<rparr>"
      by (simp_all add: srv1_def ht_lookup_def)
    moreover have "mbb_cap_check 0 (- 1)" by (simp add: mbb_cap_check_def MBB_CAP_DUMMY_def)
    ultimately show "mbb_func_search (mc_st ?c1) 0 ''f'' 0 = Some (mc_st config2, Some 5)"
      by (simp add: mbb_func_search_def)
  qed
  then have "mod_step loader0 ?c1 config2" by (simp add: config2_def)
  ultimately show ?thesis by (meson converse_rtranclp_into_rtranclp rtranclp.rtrancl_refl)
qed


section \<open>Two defects\<close>

text \<open>
  Importing a module that is stopped records it as a dependency although its lock was not
  taken; unloading the importing module then releases a lock that is not held.
\<close>

lemma import_of_stopped:
  assumes "mbb_module_current st = Some cur" "mbb_module_get_by_name st name = Some p" "p \<noteq> cur"
    and "get_module st p = Some m" "md_export m = Some e" "md_run m = False" "get_module st cur = Some c"
  shows "mbb_module_import st t name = Some (set_module st cur (Some (c\<lparr>md_deps := p # md_deps c\<rparr>)), Some e)"
    and "rw_readers (md_rwlock m) = 0 \<Longrightarrow>
      unuse_deps t (p # md_deps c) (set_module st cur (Some (c\<lparr>md_deps := p # md_deps c\<rparr>))) = None"
  using assms by (simp_all add: mbb_module_import_def module_use_def module_unuse_def drop_reader_def)

text \<open>
  The list of groups of a command names the group \<open>dummy\<close> for the mask of all groups without
  it, whose highest bit is 30, and does not name it for the mask that has it.
\<close>

lemma group_tags_dummy:
  "add_group_tags (sv_acl srv0) MBB_CAP_ALL (xml_tag_new ''f'' [] None) \<noteq>
     Some (xml_tag_new ''f'' [] None)"
  "add_group_tags (sv_acl srv0) MBB_CAP_DUMMY (xml_tag_new ''f'' [] None) = Some (xml_tag_new ''f'' [] None)"
  by code_simp+

end
