(* ===== verification/Mbb_Auth.thy ===== *)
theory Mbb_Auth
  imports Mbb_Module
begin

text \<open>
  Authentication: the methods of \<open>mbbd/mbbauth.c\<close>, the keys of \<open>mbbd/mbbauthkeys.c\<close>, the
  login of a session (\<open>mbb_session_auth\<close> of \<open>mbbd/mbbsession.c\<close>) and the requests of an XML
  client (\<open>mbbd/mbbthreadxml.c\<close>). Times of the timers count microseconds. A method is one of
  the server's own or code of a module, which is a parameter; so are the random numbers
  of new keys and GLib's escaping of markup. The answer of a client's request is the text
  that is pushed to its message queue.
\<close>

section \<open>Definitions\<close>

subsection \<open>Methods\<close>

type_synonym 'm auth_code = "gpointer \<Rightarrow> 'm srv \<Rightarrow> string \<Rightarrow> string option \<Rightarrow> ('m srv \<times> gpointer option) option"

definition mbb_auth_method_new :: "'m srv \<Rightarrow> string \<Rightarrow> auth_func \<Rightarrow> mbb_auth_method" where
  "mbb_auth_method_new st name func = \<lparr>am_name = name, am_mod = mbb_module_current st, am_func = func\<rparr>"

definition mbb_auth_method_is_alive :: "'m srv \<Rightarrow> mbb_auth_method \<Rightarrow> bool option" where
  "mbb_auth_method_is_alive st am =
     (case am_mod am of None \<Rightarrow> Some True | Some md \<Rightarrow> mbb_module_isrun st md)"

definition mbb_auth_plain :: "'m srv \<Rightarrow> string \<Rightarrow> string option \<Rightarrow> gpointer option" where
  "mbb_auth_plain st login secret =
     (case secret of
        None \<Rightarrow> None
      | Some s \<Rightarrow>
          (case mbb_user_get_by_name (sv_acl st) login of
             None \<Rightarrow> None
           | Some user \<Rightarrow>
               (case Option.bind (dm_heap (acl_users (sv_acl st)) user) u_secret of
                  None \<Rightarrow> None
                | Some us \<Rightarrow> if strcmp us s = 0 then Some user else None)))"

subsection \<open>Keys\<close>

text \<open>Whether the life of a key is over; the limit is in seconds.\<close>

definition auth_key_remove :: "'m srv \<Rightarrow> nat \<Rightarrow> key_data \<Rightarrow> bool" where
  "auth_key_remove st now kd = (now - kd_timer kd \<ge> unat (sv_key_lifetime st) * 1000000)"

definition key_data_free :: "'m srv \<Rightarrow> key_data \<Rightarrow> 'm srv option" where
  "key_data_free st kd =
     do { acl \<leftarrow> mbb_user_unref (sv_acl st) (kd_user kd);
          Some (st\<lparr>sv_acl := acl\<rparr>) }"

fun cleanup_loop :: "nat \<Rightarrow> (string \<times> key_data) list \<Rightarrow> 'm srv \<Rightarrow> ('m srv \<times> (string \<times> key_data) list) option" where
  "cleanup_loop now [] st = Some (st, [])"
| "cleanup_loop now ((key, kd) # iter) st =
     (if auth_key_remove st now kd
      then do { st \<leftarrow> key_data_free st kd; cleanup_loop now iter st }
      else do { (st, rest) \<leftarrow> cleanup_loop now iter st; Some (st, (key, kd) # rest) })"

definition auth_key_ht_cleanup :: "'m srv \<Rightarrow> nat \<Rightarrow> 'm srv option" where
  "auth_key_ht_cleanup st now =
     (case sv_auth_keys st of
        None \<Rightarrow> Some st
      | Some ht \<Rightarrow> do { (st, rest) \<leftarrow> cleanup_loop now ht st; Some (st\<lparr>sv_auth_keys := Some rest\<rparr>) })"

definition mbb_auth_key_get_user :: "'m srv \<Rightarrow> thread_id \<Rightarrow> nat \<Rightarrow> string \<Rightarrow> ('m srv \<times> gpointer option) option" where
  "mbb_auth_key_get_user st t now key =
     do { st \<leftarrow> auth_key_ht_cleanup st now;
          let peer = mbb_thread_get_peer st t;
          (case ht_lookup (sv_auth_keys st) key of
             None \<Rightarrow> Some (st, None)
           | Some kd \<Rightarrow>
               if g_strcmp0 peer (kd_peer kd) = 0
               then Some (st\<lparr>sv_auth_keys := ht_insert (sv_auth_keys st) key (kd\<lparr>kd_timer := now\<rparr>)\<rparr>, Some (kd_user kd))
               else Some (st, None)) }"

text \<open>Four random numbers as eight hexadecimal digits each.\<close>

definition AUTH_KEY_LEN :: nat where "AUTH_KEY_LEN = 4"

definition hex8 :: "guint32 \<Rightarrow> string" where
  "hex8 r = (let h = hex_of_nat (unat r) in replicate (8 - length h) (CHR ''0'') @ h)"

definition gen_key :: "guint32 list \<Rightarrow> string" where
  "gen_key rs = concat (map hex8 (take AUTH_KEY_LEN rs))"

text \<open>Keys are generated until one is not in the table; \<open>rand\<close> are the random numbers of each try.\<close>

fun gen_key_loop :: "(string \<times> key_data) list option \<Rightarrow> guint32 list list \<Rightarrow> string option" where
  "gen_key_loop ht [] = None"
| "gen_key_loop ht (rs # rand) = (if ht_lookup ht (gen_key rs) \<noteq> None then gen_key_loop ht rand else Some (gen_key rs))"

definition get_auth_key :: "guint32 list list \<Rightarrow> 'm srv \<Rightarrow> thread_id \<Rightarrow> nat \<Rightarrow> ('m srv \<times> xml_tag option) option" where
  "get_auth_key rand st t now =
     do { user \<leftarrow> mbb_thread_get_user st t;
          acl \<leftarrow> mbb_user_ref (sv_acl st) user;
          let st = st\<lparr>sv_acl := acl\<rparr>;
          let kd = \<lparr>kd_user = user, kd_peer = mbb_thread_get_peer st t, kd_timer = now\<rparr>;
          st \<leftarrow> auth_key_ht_cleanup st now;
          key \<leftarrow> gen_key_loop (sv_auth_keys st) rand;
          reply (st\<lparr>sv_auth_keys := ht_insert (sv_auth_keys st) key kd\<rparr>)
            (Some (xml_tag_new_child mbb_xml_msg_ok ''key'' [(''value'', variant_new_string (Some key))])) }"

definition gather_keys :: "'m srv \<Rightarrow> nat \<Rightarrow> string \<times> key_data \<Rightarrow> xml_tag \<Rightarrow> xml_tag option" where
  "gather_keys st now = (\<lambda>(key, kd) data.
     do { username \<leftarrow> user_name st (Some (kd_user kd));
          let left = int (unat (sv_key_lifetime st)) * 1000000 - int (now - kd_timer kd);
          let ltime = (if left \<ge> 0 then left div 1000000 else - (- left div 1000000));
          Some (xml_tag_new_child data ''key''
            [(''value'', variant_new_string (Some key)), (''user'', variant_new_alloc_string (Some username)),
             (''peer'', variant_new_string (kd_peer kd)), (''lifetime'', variant_new_int ltime)]) })"

definition show_auth_keys :: "'m srv \<Rightarrow> nat \<Rightarrow> ('m srv \<times> xml_tag option) option" where
  "show_auth_keys st now =
     do { st \<leftarrow> auth_key_ht_cleanup st now;
          reply st (fold (\<lambda>entry ans. do { a \<leftarrow> ans; gather_keys st now entry a })
            (case sv_auth_keys st of None \<Rightarrow> [] | Some ht \<Rightarrow> ht) (Some mbb_xml_msg_ok)) }"

definition drop_auth_key :: "'m srv \<Rightarrow> nat \<Rightarrow> xml_tag \<Rightarrow> ('m srv \<times> xml_tag option) option" where
  "drop_auth_key st now tag =
     do { args \<leftarrow> mbb_xtv_call_z tag [(xtv_key_value, False)];
          (case args of
             Inl ans \<Rightarrow> Some (st, Some ans)
           | Inr [Some (XV_Str key)] \<Rightarrow>
               do { st \<leftarrow> auth_key_ht_cleanup st now;
                    (case ht_lookup (sv_auth_keys st) key of
                       None \<Rightarrow> reply st (mbb_xml_msg_error (Some ''unknown key'') [])
                     | Some kd \<Rightarrow>
                         do { st \<leftarrow> key_data_free st kd;
                              Some (st\<lparr>sv_auth_keys := ht_remove (sv_auth_keys st) key\<rparr>, None) }) }
           | _ \<Rightarrow> None) }"

subsection \<open>Authentication\<close>

definition call_auth_func ::
  "'m auth_code \<Rightarrow> auth_func \<Rightarrow> 'm srv \<Rightarrow> thread_id \<Rightarrow> nat \<Rightarrow> string \<Rightarrow> string option \<Rightarrow> ('m srv \<times> gpointer option) option" where
  "call_auth_func code func st t now login secret =
     (case func of
        Auth_Plain \<Rightarrow> Some (st, mbb_auth_plain st login secret)
      | Auth_Key \<Rightarrow> mbb_auth_key_get_user st t now login
      | Auth_Code p \<Rightarrow> code p st login secret)"

definition mbb_auth ::
  "'m auth_code \<Rightarrow> 'm srv \<Rightarrow> thread_id \<Rightarrow> nat \<Rightarrow> string \<Rightarrow> string option \<Rightarrow> string option \<Rightarrow> ('m srv \<times> gpointer option) option" where
  "mbb_auth code st t now login secret type =
     (case ht_lookup (sv_auth_methods st) (case type of None \<Rightarrow> ''plain'' | Some ty \<Rightarrow> ty) of
        None \<Rightarrow> Some (st, None)
      | Some p \<Rightarrow>
          do { am \<leftarrow> sv_auth_heap st p;
               (st, ok) \<leftarrow> mbb_module_use st t (am_mod am);
               if \<not> ok then Some (st, None)
               else
                 do { (st, user) \<leftarrow> call_auth_func code (am_func am) st t now login secret;
                      st \<leftarrow> mbb_module_unuse st t (am_mod am);
                      Some (st, user) } })"

text \<open>Registering a method at the address \<open>p\<close>; the result is the key to unregister it.\<close>

definition mbb_auth_method_register :: "'m srv \<Rightarrow> gpointer \<Rightarrow> string \<Rightarrow> auth_func \<Rightarrow> 'm srv \<times> gpointer option" where
  "mbb_auth_method_register st p name func =
     (if ht_lookup (sv_auth_methods st) name \<noteq> None then (st, None)
      else (st\<lparr>sv_auth_heap := (sv_auth_heap st)(p \<mapsto> mbb_auth_method_new st name func),
               sv_auth_methods := ht_insert (sv_auth_methods st) name p\<rparr>, Some p))"

definition mbb_auth_method_unregister :: "'m srv \<Rightarrow> gpointer option \<Rightarrow> 'm srv option" where
  "mbb_auth_method_unregister st method_key =
     (case method_key of
        None \<Rightarrow> Some st
      | Some p \<Rightarrow>
          do { am \<leftarrow> sv_auth_heap st p;
               let dead = ht_lookup (sv_auth_methods st) (am_name am);
               Some (st\<lparr>sv_auth_methods := ht_remove (sv_auth_methods st) (am_name am),
                        sv_auth_heap := (case dead of None \<Rightarrow> sv_auth_heap st | Some q \<Rightarrow> (sv_auth_heap st)(q := None))\<rparr>) })"

definition list_method :: "'m srv \<Rightarrow> string \<times> gpointer \<Rightarrow> xml_tag \<Rightarrow> xml_tag option" where
  "list_method st = (\<lambda>(_, p) ans.
     do { am \<leftarrow> sv_auth_heap st p;
          alive \<leftarrow> mbb_auth_method_is_alive st am;
          if alive = False then Some ans
          else
            do { let xt = xml_tag_new ''method'' [(''name'', variant_new_string (Some (am_name am)))] None;
                 xt \<leftarrow> (case am_mod am of
                          None \<Rightarrow> Some xt
                        | Some md \<Rightarrow>
                            do { m \<leftarrow> get_module st md;
                                 Some (xml_tag_set_attr xt ''module'' (variant_new_string (Some (md_name m)))) });
                 Some (xml_tag_add_child ans xt) } })"

definition auth_method_list :: "'m srv \<Rightarrow> ('m srv \<times> xml_tag option) option" where
  "auth_method_list st =
     reply st (fold (\<lambda>entry ans. do { a \<leftarrow> ans; list_method st entry a })
       (case sv_auth_methods st of None \<Rightarrow> [] | Some ht \<Rightarrow> ht) (Some mbb_xml_msg_ok))"

definition mbb_session_auth ::
  "'m auth_code \<Rightarrow> 'm srv \<Rightarrow> thread_id \<Rightarrow> nat \<Rightarrow> gpointer \<Rightarrow> string \<Rightarrow> string option \<Rightarrow> string option
     \<Rightarrow> ('m srv \<times> bool) option" where
  "mbb_session_auth code st t now ss login secret type =
     do { (st, user) \<leftarrow> mbb_auth code st t now login secret type;
          (case user of
             None \<Rightarrow> Some (st, False)
           | Some u \<Rightarrow>
               do { s \<leftarrow> sv_sessions st ss;
                    acl \<leftarrow> (case ss_user s of
                              None \<Rightarrow> Some (sv_acl st)
                            | Some old \<Rightarrow> mbb_user_unref (sv_acl st) old);
                    acl \<leftarrow> mbb_user_ref acl u;
                    Some (set_session (st\<lparr>sv_acl := acl\<rparr>) ss (Some (s\<lparr>ss_user := Some u\<rparr>)), True) }) }"

subsection \<open>Requests of a client\<close>

definition MSG_AUTH_FAILED :: string where
  "MSG_AUTH_FAILED = ''<auth result='' @ [CHR 0x27] @ ''failed'' @ [CHR 0x27] @ ''/>''"

definition MSG_AUTH_OK :: string where
  "MSG_AUTH_OK = ''<auth result='' @ [CHR 0x27] @ ''ok'' @ [CHR 0x27] @ ''/>''"

definition process_auth :: "'m auth_code \<Rightarrow> 'm srv \<Rightarrow> thread_id \<Rightarrow> nat \<Rightarrow> gpointer \<Rightarrow> xml_tag \<Rightarrow> ('m srv \<times> string) option" where
  "process_auth code st t now ss tag =
     do { (_, _, out) \<leftarrow> xml_tag_get_values (\<lambda>_. XV_Str [])
            tag [(xtv_auth_login, True), (xtv_auth_secret, True), (xtv_auth_type, True)] [0 :: nat, 1, 2];
          let arg = (\<lambda>i. case map_of out i of Some (XV_Str s) \<Rightarrow> Some s | _ \<Rightarrow> None);
          (case arg 0 of
             None \<Rightarrow> Some (st, MSG_AUTH_FAILED)
           | Some login \<Rightarrow>
               do { (st, ok) \<leftarrow> mbb_session_auth code st t now ss login (arg 1) (arg 2);
                    Some (st, if ok = False then MSG_AUTH_FAILED else MSG_AUTH_OK) }) }"

definition push_response :: "string \<Rightarrow> string option \<Rightarrow> string" where
  "push_response result desc =
     (case desc of
        None \<Rightarrow> ''<response result='' @ [CHR 0x27] @ result @ [CHR 0x27] @ ''/>''
      | Some d \<Rightarrow> ''<response result='' @ [CHR 0x27] @ result @ [CHR 0x27] @ '' desc='' @ [CHR 0x27] @ d @ [CHR 0x27] @ ''/>'')"

definition process_request ::
  "(string \<Rightarrow> string) \<Rightarrow> 'm command_code \<Rightarrow> 'm srv \<Rightarrow> thread_id \<Rightarrow> xml_tag \<Rightarrow> ('m srv \<times> string) option" where
  "process_request esc code st t tag =
     (case xml_tag_get_attr tag ''name'' of
        None \<Rightarrow> Some (st, push_response ''error'' (Some ''bad format''))
      | Some var \<Rightarrow>
          do { func_name \<leftarrow> variant_get_string var;
               (st, r) \<leftarrow> mbb_func_call code st t func_name tag;
               Some (st, case r of
                   None \<Rightarrow> push_response ''error'' (Some ''no such function'')
                 | Some None \<Rightarrow> push_response ''ok'' None
                 | Some (Some ans) \<Rightarrow> xml_tag_to_string_escape esc [ans]) })"

definition process_xml ::
  "(string \<Rightarrow> string) \<Rightarrow> 'm auth_code \<Rightarrow> 'm command_code \<Rightarrow> 'm srv \<Rightarrow> thread_id \<Rightarrow> nat \<Rightarrow> gpointer \<Rightarrow> xml_tag
     \<Rightarrow> ('m srv \<times> string) option" where
  "process_xml esc acode code st t now ss tag =
     (if xt_name tag = ''auth'' then process_auth acode st t now ss tag
      else if xt_name tag = ''request'' then
        do { s \<leftarrow> sv_sessions st ss;
             if ss_user s = None then Some (st, push_response ''error'' (Some ''unauthorized''))
             else process_request esc code st t tag }
      else Some (st, push_response ''error'' (Some ''unknown query'')))"

section \<open>Dispatch of requests\<close>

text \<open>The command \<open>fs\<close> is registered under the name, the user has the capability, and its module runs.\<close>

definition may_call :: "'m srv \<Rightarrow> mbb_user \<Rightarrow> string \<Rightarrow> gpointer \<Rightarrow> mbb_func_struct \<Rightarrow> bool" where
  "may_call st u name fs f \<longleftrightarrow>
     ht_lookup (sv_func_ht st) name = Some fs \<and> sv_funcs st fs = Some f \<and>
     mbb_cap_check (u_cap_mask u) (fs_cap_mask f) \<and>
     (\<forall>md. fs_module f = Some md \<longrightarrow> (\<exists>m. get_module st md = Some m \<and> md_run m))"

lemma func_search_may:
  assumes "may_call st u name fs f"
  shows "\<exists>st1. mbb_module_use st t (fs_module f) = Some (st1, True) \<and>
     mbb_func_search st t name (u_cap_mask u) = Some (st1, Some fs)"
  using assms
  by (cases "fs_module f") (auto simp: may_call_def mbb_func_search_def mbb_module_use_def module_use_def Let_def)

lemma func_search_not:
  assumes "mbb_func_search st t name (u_cap_mask u) \<noteq> None" and "\<forall>fs f. \<not> may_call st u name fs f"
  shows "mbb_func_search st t name (u_cap_mask u) = Some (st, None)"
proof (cases "ht_lookup (sv_func_ht st) name")
  case (Some fs)
  with assms(1) obtain f where f: "sv_funcs st fs = Some f" by (auto simp: mbb_func_search_def split: bind_splits)
  with Some assms show ?thesis
    by (cases "fs_module f")
      (auto simp: may_call_def mbb_func_search_def mbb_module_use_def module_use_def split: bind_splits if_splits)
qed (simp add: mbb_func_search_def)

text \<open>
  C18. A request of a session without a user is refused. A request of a user runs code
  exactly when a command of that name is registered, the user has its capability and its
  module runs: the code then runs while the module is in use, and the module is released
  afterwards. In every other case nothing runs and nothing changes, and the client is
  told that there is no such function.
\<close>

theorem request_dispatch:
  assumes tag: "xt_name tag = ''request''" "xml_tag_get_attr tag ''name'' = Some v" "variant_get_string v = Some name"
    and te: "sv_threads st t = Some te" "sv_sessions st (te_ss te) = Some s"
    and user: "\<forall>p. ss_user s = Some p \<longrightarrow> dm_heap (acl_users (sv_acl st)) p = Some u"
    and safe: "mbb_func_search st t name (u_cap_mask u) \<noteq> None"
  shows "(ss_user s = None \<longrightarrow>
       process_xml esc acode code st t now (te_ss te) tag = Some (st, push_response ''error'' (Some ''unauthorized''))) \<and>
     (ss_user s \<noteq> None \<longrightarrow> (\<forall>fs f. \<not> may_call st u name fs f) \<longrightarrow>
       process_xml esc acode code st t now (te_ss te) tag = Some (st, push_response ''error'' (Some ''no such function''))) \<and>
     (ss_user s \<noteq> None \<longrightarrow> (\<forall>fs f. may_call st u name fs f \<longrightarrow>
       (\<exists>st1. mbb_module_use st t (fs_module f) = Some (st1, True) \<and>
         process_xml esc acode code st t now (te_ss te) tag =
           do { (st2, ans) \<leftarrow> code (fs_func f) t tag st1;
                f2 \<leftarrow> sv_funcs st2 fs;
                st3 \<leftarrow> mbb_module_unuse st2 t (fs_module f2);
                Some (st3, case ans of None \<Rightarrow> push_response ''ok'' None
                                     | Some a \<Rightarrow> xml_tag_to_string_escape esc [a]) })))"
proof (intro conjI impI allI)
  assume "ss_user s = None"
  with tag te show "process_xml esc acode code st t now (te_ss te) tag =
      Some (st, push_response ''error'' (Some ''unauthorized''))" by (simp add: process_xml_def)
next
  assume a: "ss_user s \<noteq> None" "\<forall>fs f. \<not> may_call st u name fs f"
  then have "mbb_thread_get_cap st t = Some (u_cap_mask u)"
    using te user by (auto simp: mbb_thread_get_cap_def mbb_thread_get_user_def)
  with a func_search_not [OF safe a(2)] tag te show "process_xml esc acode code st t now (te_ss te) tag =
      Some (st, push_response ''error'' (Some ''no such function''))"
    by (auto simp: process_xml_def process_request_def mbb_func_call_def)
next
  fix fs f
  assume a: "ss_user s \<noteq> None" and m: "may_call st u name fs f"
  have cap: "mbb_thread_get_cap st t = Some (u_cap_mask u)"
    using te user a by (auto simp: mbb_thread_get_cap_def mbb_thread_get_user_def)
  obtain st1 where st1: "mbb_module_use st t (fs_module f) = Some (st1, True)"
      "mbb_func_search st t name (u_cap_mask u) = Some (st1, Some fs)" using func_search_may [OF m] by blast
  have "sv_funcs st1 fs = Some f"
    using st1(1) m by (auto simp: mbb_module_use_def module_use_def may_call_def Let_def set_module_def
        split: option.splits bind_splits if_splits)
  with cap st1 a tag te show "\<exists>st1. mbb_module_use st t (fs_module f) = Some (st1, True) \<and>
      process_xml esc acode code st t now (te_ss te) tag =
        do { (st2, ans) \<leftarrow> code (fs_func f) t tag st1;
             f2 \<leftarrow> sv_funcs st2 fs;
             st3 \<leftarrow> mbb_module_unuse st2 t (fs_module f2);
             Some (st3, case ans of None \<Rightarrow> push_response ''ok'' None
                                  | Some a \<Rightarrow> xml_tag_to_string_escape esc [a]) }"
    by (auto simp: process_xml_def process_request_def mbb_func_call_def Option.bind_assoc split: option.split
        intro!: bind_option_cong)
qed

section \<open>Keys\<close>

lemma key_data_free_keys:
  "key_data_free st kd = Some st' \<Longrightarrow> sv_auth_keys st' = sv_auth_keys st \<and> sv_key_lifetime st' = sv_key_lifetime st
     \<and> sv_threads st' = sv_threads st \<and> sv_sessions st' = sv_sessions st"
  by (auto simp: key_data_free_def split: bind_splits)

lemma cleanup_loop_rest:
  "cleanup_loop now ht st = Some (st', rest) \<Longrightarrow>
     rest = filter (\<lambda>(_, kd). \<not> auth_key_remove st now kd) ht \<and> sv_key_lifetime st' = sv_key_lifetime st
     \<and> sv_threads st' = sv_threads st \<and> sv_sessions st' = sv_sessions st"
proof (induction now ht st arbitrary: rest rule: cleanup_loop.induct)
  case (2 now key kd iter st)
  show ?case
  proof (cases "auth_key_remove st now kd")
    case True
    with 2(3) obtain st1 where st1: "key_data_free st kd = Some st1" "cleanup_loop now iter st1 = Some (st', rest)"
      by (auto split: bind_splits)
    with 2(1) [OF True st1(1), of rest] key_data_free_keys [OF st1(1)] True show ?thesis
      by (simp add: auth_key_remove_def)
  next
    case False
    with 2(3) 2(2) [OF False] show ?thesis by (auto split: bind_splits)
  qed
qed simp

lemma map_of_filter_distinct:
  "distinct (map fst ht) \<Longrightarrow> map_of (filter (\<lambda>(_, x). P x) ht) k =
     (case map_of ht k of Some x \<Rightarrow> if P x then Some x else None | None \<Rightarrow> None)"
  by (induction ht) (auto simp: map_of_eq_None_iff image_iff split: option.splits)

lemma cleanup_keys:
  assumes "auth_key_ht_cleanup st now = Some st'" and "\<forall>ht. sv_auth_keys st = Some ht \<longrightarrow> distinct (map fst ht)"
  shows "ht_lookup (sv_auth_keys st') k =
      (case ht_lookup (sv_auth_keys st) k of
         Some kd \<Rightarrow> if now - kd_timer kd < unat (sv_key_lifetime st) * 1000000 then Some kd else None
       | None \<Rightarrow> None)"
    and "mbb_thread_get_peer st' t = mbb_thread_get_peer st t"
proof -
  consider (none) "sv_auth_keys st = None" "st' = st" | (some) ht st1 rest where "sv_auth_keys st = Some ht"
      "cleanup_loop now ht st = Some (st1, rest)" "st' = st1\<lparr>sv_auth_keys := Some rest\<rparr>"
    using assms(1) by (auto simp: auth_key_ht_cleanup_def split: option.splits bind_splits)
  note cs = this
  show "ht_lookup (sv_auth_keys st') k =
      (case ht_lookup (sv_auth_keys st) k of
         Some kd \<Rightarrow> if now - kd_timer kd < unat (sv_key_lifetime st) * 1000000 then Some kd else None
       | None \<Rightarrow> None)"
    using cs
  proof cases
    case (some ht st1 rest)
    with cleanup_loop_rest [OF some(2)] assms(2) map_of_filter_distinct [of ht "\<lambda>kd. \<not> auth_key_remove st now kd" k]
    show ?thesis by (auto simp: ht_lookup_def auth_key_remove_def split: option.splits)
  qed (simp add: ht_lookup_def)
  show "mbb_thread_get_peer st' t = mbb_thread_get_peer st t"
    using cs
  proof cases
    case (some ht st1 rest)
    with cleanup_loop_rest [OF some(2)] show ?thesis by (simp add: mbb_thread_get_peer_def cong: option.case_cong)
  qed simp
qed

lemma g_strcmp0_zero: "g_strcmp0 a b = 0 \<longleftrightarrow> a = b"
  by (auto simp: g_strcmp0_def strcmp_zero split: option.splits)

text \<open>
  C19. A key logs a client in exactly when it was issued, its life is not over and the client
  connects from the address the key was issued to; the user is the one who asked for the
  key. A successful login starts the life of the key again; any other key keeps its state
  or, when its life is over, is gone.
\<close>

theorem auth_key_user:
  assumes d: "\<forall>ht. sv_auth_keys st = Some ht \<longrightarrow> distinct (map fst ht)"
    and r: "mbb_auth_key_get_user st t now key = Some (st', res)"
  shows "(\<forall>user. res = Some user \<longleftrightarrow> (\<exists>kd. ht_lookup (sv_auth_keys st) key = Some kd \<and> kd_user kd = user \<and>
       kd_peer kd = mbb_thread_get_peer st t \<and> now - kd_timer kd < unat (sv_key_lifetime st) * 1000000)) \<and>
     (\<forall>k. ht_lookup (sv_auth_keys st') k =
       (case ht_lookup (sv_auth_keys st) k of
          None \<Rightarrow> None
        | Some kd \<Rightarrow> if now - kd_timer kd \<ge> unat (sv_key_lifetime st) * 1000000 then None
                    else Some (if k = key \<and> res \<noteq> None then kd\<lparr>kd_timer := now\<rparr> else kd)))"
proof -
  from r obtain st1 where st1: "auth_key_ht_cleanup st now = Some st1"
    "(case ht_lookup (sv_auth_keys st1) key of
             None \<Rightarrow> Some (st1, None)
           | Some kd \<Rightarrow>
               if g_strcmp0 (mbb_thread_get_peer st1 t) (kd_peer kd) = 0
               then Some (st1\<lparr>sv_auth_keys := ht_insert (sv_auth_keys st1) key (kd\<lparr>kd_timer := now\<rparr>)\<rparr>, Some (kd_user kd))
               else Some (st1, None)) = Some (st', res)"
    by (auto simp: mbb_auth_key_get_user_def Let_def split: bind_splits)
  note c = cleanup_keys [OF st1(1) d]
  have ins: "ht_lookup (ht_insert ht key x) k = (if k = key then Some x else ht_lookup ht k)" for ht k and x :: key_data
    by (auto simp: ht_lookup_def ht_insert_def update_conv split: option.splits)
  show ?thesis
  proof (cases "ht_lookup (sv_auth_keys st1) key")
    case None
    with st1(2) c(1) show ?thesis by (auto split: option.splits if_splits)
  next
    case (Some kd)
    with c(1) [of key] have kd: "ht_lookup (sv_auth_keys st) key = Some kd"
        "now - kd_timer kd < unat (sv_key_lifetime st) * 1000000" by (auto split: option.splits if_splits)
    have "st' = (if kd_peer kd = mbb_thread_get_peer st t
          then st1\<lparr>sv_auth_keys := ht_insert (sv_auth_keys st1) key (kd\<lparr>kd_timer := now\<rparr>)\<rparr> else st1)"
        "res = (if kd_peer kd = mbb_thread_get_peer st t then Some (kd_user kd) else None)"
      using st1(2) Some c(2) by (auto simp: g_strcmp0_zero split: if_splits)
    then show ?thesis using kd by (auto simp: c ins split: option.splits)
  qed
qed
theorem auth_key_user_witness:
  "\<exists>st'. mbb_auth_key_get_user (srv0\<lparr>sv_auth_keys := Some [(''k'', \<lparr>kd_user = 100, kd_peer = None, kd_timer = 20000000\<rparr>)]\<rparr>)
       0 70000000 ''k'' = Some (st', Some 100) \<and>
     ht_lookup (sv_auth_keys st') ''k'' = Some \<lparr>kd_user = 100, kd_peer = None, kd_timer = 70000000\<rparr>"
proof -
  let ?st = "srv0\<lparr>sv_auth_keys := Some [(''k'', \<lparr>kd_user = 100, kd_peer = None, kd_timer = 20000000\<rparr>)]\<rparr>"
  have "\<exists>st' res. mbb_auth_key_get_user ?st 0 70000000 ''k'' = Some (st', res)"
    by (simp add: mbb_auth_key_get_user_def auth_key_ht_cleanup_def auth_key_remove_def srv0_def split: option.split)
  then obtain st' res where r: "mbb_auth_key_get_user ?st 0 70000000 ''k'' = Some (st', res)" by blast
  from auth_key_user [OF _ r] have
    "\<forall>user. res = Some user \<longleftrightarrow> user = 100"
    "ht_lookup (sv_auth_keys st') ''k'' =
       Some (if res \<noteq> None then \<lparr>kd_user = 100, kd_peer = None, kd_timer = 70000000\<rparr>
             else \<lparr>kd_user = 100, kd_peer = None, kd_timer = 20000000\<rparr>)"
    by (auto simp: srv0_def ht_lookup_def mbb_thread_get_peer_def)
  with r show ?thesis by (cases res) auto
qed

definition srv2 :: "unit srv" where
  "srv2 = srv0\<lparr>sv_acl := acl0, sv_threads := (\<lambda>_. None)(0 := Some \<lparr>te_sid = 1, te_ss = 50\<rparr>),
     sv_sessions := [50 \<mapsto> \<lparr>ss_user = Some 100, ss_peer = None, ss_port = 0, ss_type = MBB_SESSION_XML, ss_start = 0,
       ss_mtime = 0, ss_killed = False, ss_kill_msg = None, ss_vars = [], ss_cached_vars = None\<rparr>],
     sv_funcs := [5 \<mapsto> \<lparr>fs_name = ''f'', fs_func = 9, fs_cap_mask = MBB_CAP_ADMIN, fs_module = None\<rparr>],
     sv_func_ht := Some [(''f'', 5)]\<rparr>"

theorem request_dispatch_witness:
  "process_xml id (\<lambda>_ st _ _. Some (st, None)) (\<lambda>_ _ _ st. Some (st, None)) srv2 0 0 50
     (Xml_Tag ''request'' [(''name'', VARIANT_STRING (Some ''f''))] None []) = Some (srv2, push_response ''ok'' None)"
proof -
  let ?tag = "Xml_Tag ''request'' [(''name'', VARIANT_STRING (Some ''f''))] None []"
  let ?f = "\<lparr>fs_name = ''f'', fs_func = 9, fs_cap_mask = MBB_CAP_ADMIN, fs_module = None\<rparr>"
  obtain s where s: "sv_sessions srv2 50 = Some s" "ss_user s = Some 100" by (simp add: srv2_def)
  have u: "dm_heap (acl_users (sv_acl srv2)) 100 = Some bob" by (simp add: srv2_def acl0_def)
  have m: "may_call srv2 bob ''f'' 5 ?f"
    by (simp add: may_call_def srv2_def ht_lookup_def bob_def MBB_CAP_ADMIN_def mbb_cap_check_def)
  have te: "sv_threads srv2 0 = Some \<lparr>te_sid = 1, te_ss = 50\<rparr>" by (simp add: srv2_def)
  have safe: "mbb_func_search srv2 0 ''f'' (u_cap_mask bob) \<noteq> None" using func_search_may [OF m] by force
  have "mbb_module_use srv2 0 (fs_module ?f) = Some (srv2, True)" "sv_funcs srv2 5 = Some ?f"
    by (simp_all add: mbb_module_use_def module_use_def srv2_def)
  with request_dispatch [of ?tag "VARIANT_STRING (Some ''f'')" "''f''" srv2 0 "\<lparr>te_sid = 1, te_ss = 50\<rparr>" s bob
      id "\<lambda>_ st _ _. Some (st, None)" "\<lambda>_ _ _ st. Some (st, None)" 0, OF _ _ _ te _ _ safe,
      THEN conjunct2, THEN conjunct2, rule_format, OF _ _ _ _ _ _ m] s u
  show ?thesis
    by (auto simp: xml_tag_get_attr_def variant_get_string_def mbb_module_unuse_def module_unuse_def)
qed

end
