(* ===== verification/Mbb_Db.thy ===== *)
theory Mbb_Db
  imports Server Query Gateway Account
begin

text \<open>
  The database layer: the connections and transactions of \<open>mbbd/mbbdb.c\<close>, the PostgreSQL driver
  \<open>mbbd/psql.c\<close>, and the statements that \<open>mbbd/mbbdbuser.c\<close>, \<open>mbbdbgroup.c\<close>, \<open>mbbdboperator.c\<close>,
  \<open>mbbdbgateway.c\<close>, \<open>mbbdbgwlink.c\<close>, \<open>mbbdbconsumer.c\<close>, \<open>mbbdbunit.c\<close> and \<open>mbbdbinetpool.c\<close> send.
  The functions of libpq are a parameter; they change a world of arbitrary type. Threads
  without a connection of their own share one, which a recursive mutex protects. \<open>None\<close> is a
  thread that waits for the mutex, the use of a driver that was not chosen, or arguments
  that do not fit a format; the writing of statements to the log is left out.
\<close>

section \<open>Definitions\<close>

subsection \<open>Drivers\<close>

record mbb_db_auth =
  da_hostaddr :: "string option"
  da_login :: "string option"
  da_secret :: "string option"
  da_database :: "string option"

datatype MbbDbError =
  MBB_DB_ERROR_NOT_INITIALIZED | MBB_DB_ERROR_ALREADY_CONNECTED | MBB_DB_ERROR_CONNECT
| MBB_DB_ERROR_NOT_CONNECTED | MBB_DB_ERROR_QUERY | MBB_DB_ERROR_UNSUPPORTED | MBB_DB_ERROR_INSERT_FAILED

definition mbb_db_error_quark :: string where "mbb_db_error_quark = ''mbb-db-error-quark''"

definition db_error_code :: "MbbDbError \<Rightarrow> int" where
  "db_error_code e =
     (case e of
        MBB_DB_ERROR_NOT_INITIALIZED \<Rightarrow> 0
      | MBB_DB_ERROR_ALREADY_CONNECTED \<Rightarrow> 1
      | MBB_DB_ERROR_CONNECT \<Rightarrow> 2
      | MBB_DB_ERROR_NOT_CONNECTED \<Rightarrow> 3
      | MBB_DB_ERROR_QUERY \<Rightarrow> 4
      | MBB_DB_ERROR_UNSUPPORTED \<Rightarrow> 5
      | MBB_DB_ERROR_INSERT_FAILED \<Rightarrow> 6)"

definition db_error :: "MbbDbError \<Rightarrow> string \<Rightarrow> gerror option" where
  "db_error e msg = Some \<lparr>ge_domain = mbb_db_error_quark, ge_code = db_error_code e, ge_message = msg\<rparr>"

text \<open>The boolean a function returns and the error it stores; a function called on each row of a result.\<close>

type_synonym db_result = "bool \<times> gerror option"
type_synonym 'w db_func = "string option list \<Rightarrow> 'w \<Rightarrow> 'w \<times> db_result"

record ('w, 'i) mbb_db =
  db_name :: string
  db_open :: "mbb_db_auth \<Rightarrow> 'w \<Rightarrow> 'w \<times> gpointer \<times> gerror option"
  db_query :: "gpointer \<Rightarrow> string \<Rightarrow> 'w db_func option \<Rightarrow> 'w \<Rightarrow> 'w \<times> db_result"
  db_escape :: "(gpointer \<Rightarrow> string \<Rightarrow> 'w \<Rightarrow> string option) option"
  db_query_iter :: "gpointer \<Rightarrow> string \<Rightarrow> 'w \<Rightarrow> 'w \<times> 'i option \<times> gerror option"
  db_iter_next :: "'i \<Rightarrow> 'i \<times> bool"
  db_iter_get_nrow :: "'i \<Rightarrow> gint"
  db_iter_get_ncol :: "'i \<Rightarrow> gint"
  db_iter_get_value :: "'i \<Rightarrow> gint \<Rightarrow> string option"
  db_iter_free :: "'i \<Rightarrow> 'w \<Rightarrow> 'w"
  db_begin :: "(gpointer \<Rightarrow> 'w \<Rightarrow> 'w \<times> db_result) option"
  db_rollback :: "(gpointer \<Rightarrow> 'w \<Rightarrow> 'w \<times> db_result) option"
  db_commit :: "(gpointer \<Rightarrow> 'w \<Rightarrow> 'w \<times> db_result) option"
  db_close_conn :: "gpointer \<Rightarrow> 'w \<Rightarrow> 'w"

subsection \<open>The PostgreSQL driver\<close>

datatype exec_status = PGRES_COMMAND_OK | PGRES_TUPLES_OK | PGRES_OTHER

record ('w, 'r) libpq =
  PQconnectdb :: "string \<Rightarrow> 'w \<Rightarrow> 'w \<times> gpointer"
  PQstatus_ok :: "gpointer \<Rightarrow> 'w \<Rightarrow> bool"
  PQfinish :: "gpointer \<Rightarrow> 'w \<Rightarrow> 'w"
  PQerrorMessage :: "gpointer \<Rightarrow> 'w \<Rightarrow> string"
  PQexec :: "gpointer \<Rightarrow> string \<Rightarrow> 'w \<Rightarrow> 'w \<times> 'r"
  PQresultStatus :: "'r \<Rightarrow> exec_status"
  PQntuples :: "'r \<Rightarrow> gint"
  PQnfields :: "'r \<Rightarrow> gint"
  PQgetisnull :: "'r \<Rightarrow> gint \<Rightarrow> gint \<Rightarrow> bool"
  PQgetvalue :: "'r \<Rightarrow> gint \<Rightarrow> gint \<Rightarrow> string"
  PQclear :: "'r \<Rightarrow> 'w \<Rightarrow> 'w"
  PQescapeStringConn :: "gpointer \<Rightarrow> string \<Rightarrow> 'w \<Rightarrow> string \<times> bool"

record 'r mbb_db_iter =
  it_res :: 'r
  it_nrow :: gint
  it_ncol :: gint
  it_current_row :: gint

definition iter_new :: "('w, 'r) libpq \<Rightarrow> 'r \<Rightarrow> 'r mbb_db_iter" where
  "iter_new pq res = \<lparr>it_res = res, it_nrow = PQntuples pq res, it_ncol = PQnfields pq res, it_current_row = -1\<rparr>"

definition pq_open :: "('w, 'r) libpq \<Rightarrow> mbb_db_auth \<Rightarrow> 'w \<Rightarrow> 'w \<times> gpointer \<times> gerror option" where
  "pq_open pq auth w =
     (let s = append_key_value [] ''hostaddr'' (da_hostaddr auth);
          s = append_key_value s ''user'' (da_login auth);
          s = append_key_value s ''password'' (da_secret auth);
          s = append_key_value s ''dbname'' (da_database auth);
          (w, conn) = PQconnectdb pq s w
      in if \<not> PQstatus_ok pq conn w
         then (PQfinish pq conn w, 0, db_error MBB_DB_ERROR_CONNECT (''connect failed: '' @ PQerrorMessage pq conn w))
         else (w, conn, None))"

definition pq_exec :: "('w, 'r) libpq \<Rightarrow> gpointer \<Rightarrow> string \<Rightarrow> 'w \<Rightarrow> 'w \<times> 'r option \<times> gerror option" where
  "pq_exec pq conn command w =
     (if conn = 0 then (w, None, db_error MBB_DB_ERROR_NOT_CONNECTED ''not connected'')
      else
        (let (w, res) = PQexec pq conn command w
         in if PQresultStatus pq res \<noteq> PGRES_COMMAND_OK \<and> PQresultStatus pq res \<noteq> PGRES_TUPLES_OK
            then (PQclear pq res w, None, db_error MBB_DB_ERROR_QUERY (PQerrorMessage pq conn w))
            else (w, Some res, None)))"

definition pq_row :: "('w, 'r) libpq \<Rightarrow> 'r \<Rightarrow> gint \<Rightarrow> string option list" where
  "pq_row pq res r =
     map (\<lambda>c. if PQgetisnull pq res r (int c) then None else Some (PQgetvalue pq res r (int c))) [0 ..< nat (PQnfields pq res)]"

text \<open>The rows until the function returns FALSE.\<close>

fun pq_rows :: "('w, 'r) libpq \<Rightarrow> 'r \<Rightarrow> 'w db_func \<Rightarrow> nat list \<Rightarrow> 'w \<Rightarrow> 'w \<times> db_result" where
  "pq_rows pq res func [] w = (w, True, None)"
| "pq_rows pq res func (r # rs) w =
     (let (w, ok, e) = func (pq_row pq res (int r)) w in if \<not> ok then (w, False, e) else pq_rows pq res func rs w)"

definition pq_query :: "('w, 'r) libpq \<Rightarrow> gpointer \<Rightarrow> string \<Rightarrow> 'w db_func option \<Rightarrow> 'w \<Rightarrow> 'w \<times> db_result" where
  "pq_query pq conn command func w =
     (case pq_exec pq conn command w of
        (w, None, e) \<Rightarrow> (w, False, e)
      | (w, Some res, e) \<Rightarrow>
          (let (w, r) = (if PQresultStatus pq res = PGRES_COMMAND_OK then (w, True, e)
                         else (case func of
                                 None \<Rightarrow> (w, True, e)
                               | Some f \<Rightarrow> pq_rows pq res f [0 ..< nat (PQntuples pq res)] w))
           in (PQclear pq res w, r)))"

definition pq_escape :: "('w, 'r) libpq \<Rightarrow> gpointer \<Rightarrow> string \<Rightarrow> 'w \<Rightarrow> string option" where
  "pq_escape pq conn str w =
     (if conn = 0 then None
      else (let (tmp, err) = PQescapeStringConn pq conn str w in if err then None else Some tmp))"

definition pq_query_iter ::
  "('w, 'r) libpq \<Rightarrow> gpointer \<Rightarrow> string \<Rightarrow> 'w \<Rightarrow> 'w \<times> 'r mbb_db_iter option \<times> gerror option" where
  "pq_query_iter pq conn command w =
     (let (w, res, e) = pq_exec pq conn command w in (w, map_option (iter_new pq) res, e))"

definition pq_iter_next :: "'r mbb_db_iter \<Rightarrow> 'r mbb_db_iter \<times> bool" where
  "pq_iter_next iter =
     (let iter = iter\<lparr>it_current_row := it_current_row iter + 1\<rparr> in (iter, it_current_row iter \<noteq> it_nrow iter))"

definition pq_iter_get_value :: "('w, 'r) libpq \<Rightarrow> 'r mbb_db_iter \<Rightarrow> gint \<Rightarrow> string option" where
  "pq_iter_get_value pq iter field =
     (let cr = it_current_row iter
      in if cr < 0 \<or> cr = it_nrow iter then None
         else if PQgetisnull pq (it_res iter) cr field then None
         else Some (PQgetvalue pq (it_res iter) cr field))"

definition pq_iter_free :: "('w, 'r) libpq \<Rightarrow> 'r mbb_db_iter \<Rightarrow> 'w \<Rightarrow> 'w" where
  "pq_iter_free pq iter w = PQclear pq (it_res iter) w"

definition pq_close :: "('w, 'r) libpq \<Rightarrow> gpointer \<Rightarrow> 'w \<Rightarrow> 'w" where
  "pq_close pq conn w = (if conn \<noteq> 0 then PQfinish pq conn w else w)"

definition silent_exec :: "('w, 'r) libpq \<Rightarrow> string \<Rightarrow> gpointer \<Rightarrow> 'w \<Rightarrow> 'w \<times> db_result" where
  "silent_exec pq query conn w =
     (case pq_exec pq conn query w of
        (w, Some res, e) \<Rightarrow> (PQclear pq res w, True, e)
      | (w, None, e) \<Rightarrow> (w, False, e))"

definition pg_db :: "('w, 'r) libpq \<Rightarrow> ('w, 'r mbb_db_iter) mbb_db" where
  "pg_db pq =
     \<lparr>db_name = ''postgres'', db_open = pq_open pq, db_query = pq_query pq, db_escape = Some (pq_escape pq),
      db_query_iter = pq_query_iter pq, db_iter_next = pq_iter_next, db_iter_get_nrow = it_nrow,
      db_iter_get_ncol = it_ncol, db_iter_get_value = pq_iter_get_value pq, db_iter_free = pq_iter_free pq,
      db_begin = Some (silent_exec pq ''begin''), db_rollback = Some (silent_exec pq ''rollback''),
      db_commit = Some (silent_exec pq ''commit''), db_close_conn = pq_close pq\<rparr>"

subsection \<open>Connections\<close>

text \<open>The recursive mutex: the thread that holds it and how often.\<close>

type_synonym rec_mutex = "(thread_id \<times> nat) option"

definition rec_mutex_lock :: "thread_id \<Rightarrow> rec_mutex \<Rightarrow> rec_mutex option" where
  "rec_mutex_lock t m =
     (case m of
        None \<Rightarrow> Some (Some (t, 1))
      | Some (owner, n) \<Rightarrow> if owner = t then Some (Some (t, n + 1)) else None)"

definition rec_mutex_unlock :: "thread_id \<Rightarrow> rec_mutex \<Rightarrow> rec_mutex option" where
  "rec_mutex_unlock t m =
     (case m of
        None \<Rightarrow> None
      | Some (owner, n) \<Rightarrow> if owner = t then Some (if n > 1 then Some (t, n - 1) else None) else None)"

text \<open>The static variables of \<open>mbbdb.c\<close>; a connection of 0 is NULL.\<close>

record ('w, 'i) dbs =
  db_ht :: "(string \<times> ('w, 'i) mbb_db) list option"
  db_drv :: "('w, 'i) mbb_db option"
  db_conn :: gpointer
  db_auth :: "mbb_db_auth option"
  db_priv :: "thread_id \<Rightarrow> gpointer"
  db_mutex :: rec_mutex
  db_world :: 'w

definition mbb_db_register :: "('w, 'i) dbs \<Rightarrow> ('w, 'i) mbb_db \<Rightarrow> ('w, 'i) dbs" where
  "mbb_db_register st db = st\<lparr>db_ht := ht_insert (db_ht st) (db_name db) db\<rparr>"

definition mbb_db_search :: "('w, 'i) dbs \<Rightarrow> string \<Rightarrow> ('w, 'i) mbb_db option" where
  "mbb_db_search st name = ht_lookup (db_ht st) name"

definition mbb_db_choose :: "('w, 'i) dbs \<Rightarrow> string \<Rightarrow> ('w, 'i) dbs \<times> bool" where
  "mbb_db_choose st dbtype =
     (case db_drv st of
        Some _ \<Rightarrow> (st, False)
      | None \<Rightarrow> (let db = mbb_db_search st dbtype in (st\<lparr>db_drv := db\<rparr>, \<not> Option.is_none db)))"

definition db_not_initialized :: "gerror option" where
  "db_not_initialized = db_error MBB_DB_ERROR_NOT_INITIALIZED ''db driver not choosed''"

definition mbb_db_open :: "('w, 'i) dbs \<Rightarrow> mbb_db_auth \<Rightarrow> ('w, 'i) dbs \<times> db_result" where
  "mbb_db_open st auth =
     (case db_drv st of
        None \<Rightarrow> (st, False, db_not_initialized)
      | Some db \<Rightarrow>
          if db_conn st \<noteq> 0
          then (st, False, db_error MBB_DB_ERROR_ALREADY_CONNECTED ''connection is already opened'')
          else
            (let (w, conn, e) = db_open db auth (db_world st);
                 st = st\<lparr>db_world := w, db_conn := conn\<rparr>
             in if conn \<noteq> 0 then (st\<lparr>db_auth := Some auth\<rparr>, True, e) else (st, False, e)))"

text \<open>Called for a thread that ends.\<close>

definition db_close :: "('w, 'i) dbs \<Rightarrow> gpointer \<Rightarrow> ('w, 'i) dbs option" where
  "db_close st conn = do { db \<leftarrow> db_drv st; Some (st\<lparr>db_world := db_close_conn db conn (db_world st)\<rparr>) }"

definition mbb_db_dup_conn :: "('w, 'i) dbs \<Rightarrow> thread_id \<Rightarrow> ('w, 'i) dbs \<times> db_result" where
  "mbb_db_dup_conn st t =
     (case db_drv st of
        None \<Rightarrow> (st, False, db_not_initialized)
      | Some db \<Rightarrow>
          (case db_auth st of
             None \<Rightarrow> (st, False, db_error MBB_DB_ERROR_NOT_CONNECTED ''not connected'')
           | Some auth \<Rightarrow>
               if db_priv st t \<noteq> 0
               then (st, False, db_error MBB_DB_ERROR_ALREADY_CONNECTED ''connection is already alive'')
               else
                 (let (w, conn, e) = db_open db auth (db_world st); st = st\<lparr>db_world := w\<rparr>
                  in if conn = 0 then (st, False, e)
                     else (st\<lparr>db_priv := (db_priv st)(t := conn)\<rparr>, True, e))))"

definition db_get_conn :: "('w, 'i) dbs \<Rightarrow> thread_id \<Rightarrow> gpointer \<times> gerror option" where
  "db_get_conn st t =
     (case db_drv st of
        None \<Rightarrow> (0, db_not_initialized)
      | Some _ \<Rightarrow>
          (let conn = (if db_priv st t = 0 then db_conn st else db_priv st t)
           in if conn = 0 then (0, db_error MBB_DB_ERROR_NOT_CONNECTED ''not connected'') else (conn, None)))"

definition mbb_db_dup_conn_once :: "('w, 'i) dbs \<Rightarrow> thread_id \<Rightarrow> ('w, 'i) dbs \<times> db_result" where
  "mbb_db_dup_conn_once st t =
     (let (conn, e) = db_get_conn st t
      in if conn = 0 then (st, False, e)
         else if conn \<noteq> db_conn st then (st, True, None)
         else mbb_db_dup_conn st t)"

definition db_query_lock :: "('w, 'i) dbs \<Rightarrow> thread_id \<Rightarrow> gpointer \<Rightarrow> ('w, 'i) dbs option" where
  "db_query_lock st t conn =
     (if conn = db_conn st then do { m \<leftarrow> rec_mutex_lock t (db_mutex st); Some (st\<lparr>db_mutex := m\<rparr>) } else Some st)"

definition db_query_unlock :: "('w, 'i) dbs \<Rightarrow> thread_id \<Rightarrow> gpointer \<Rightarrow> ('w, 'i) dbs option" where
  "db_query_unlock st t conn =
     (if conn = db_conn st then do { m \<leftarrow> rec_mutex_unlock t (db_mutex st); Some (st\<lparr>db_mutex := m\<rparr>) } else Some st)"

definition mbb_db_query ::
  "('w, 'i) dbs \<Rightarrow> thread_id \<Rightarrow> string \<Rightarrow> 'w db_func option \<Rightarrow> (('w, 'i) dbs \<times> db_result) option" where
  "mbb_db_query st t command func =
     (let (conn, e) = db_get_conn st t
      in if conn = 0 then Some (st, False, e)
         else
           do { db \<leftarrow> db_drv st;
                st \<leftarrow> db_query_lock st t conn;
                let (w, r) = db_query db conn command func (db_world st);
                st \<leftarrow> db_query_unlock (st\<lparr>db_world := w\<rparr>) t conn;
                Some (st, r) })"

definition mbb_db_escape :: "('w, 'i) dbs \<Rightarrow> thread_id \<Rightarrow> string \<Rightarrow> string option option" where
  "mbb_db_escape st t str =
     (let (conn, e) = db_get_conn st t
      in if conn = 0 then Some None
         else
           do { db \<leftarrow> db_drv st;
                (case db_escape db of
                   None \<Rightarrow> Some None
                 | Some esc \<Rightarrow>
                     do { st \<leftarrow> db_query_lock st t conn;
                          let s = esc conn str (db_world st);
                          st \<leftarrow> db_query_unlock st t conn;
                          Some s }) })"

definition mbb_db_query_iter ::
  "('w, 'i) dbs \<Rightarrow> thread_id \<Rightarrow> string \<Rightarrow> (('w, 'i) dbs \<times> 'i option \<times> gerror option) option" where
  "mbb_db_query_iter st t command =
     (let (conn, e) = db_get_conn st t
      in if conn = 0 then Some (st, None, e)
         else
           do { db \<leftarrow> db_drv st;
                st \<leftarrow> db_query_lock st t conn;
                let (w, r) = db_query_iter db conn command (db_world st);
                st \<leftarrow> db_query_unlock (st\<lparr>db_world := w\<rparr>) t conn;
                Some (st, r) })"

definition make_call ::
  "('w, 'i) dbs \<Rightarrow> thread_id \<Rightarrow> (gpointer \<Rightarrow> 'w \<Rightarrow> 'w \<times> db_result) option \<Rightarrow> bool \<Rightarrow> (('w, 'i) dbs \<times> db_result) option" where
  "make_call st t callback open =
     (let (conn, e) = db_get_conn st t
      in if conn = 0 then Some (st, False, e)
         else
           (case callback of
              None \<Rightarrow> Some (st, False, db_error MBB_DB_ERROR_UNSUPPORTED ''unsupported'')
            | Some f \<Rightarrow>
                do { st \<leftarrow> (if open then db_query_lock st t conn else Some st);
                     let (w, r) = f conn (db_world st);
                     let st = st\<lparr>db_world := w\<rparr>;
                     st \<leftarrow> (if \<not> open then db_query_unlock st t conn else Some st);
                     Some (st, r) }))"

definition mbb_db_begin :: "('w, 'i) dbs \<Rightarrow> thread_id \<Rightarrow> (('w, 'i) dbs \<times> db_result) option" where
  "mbb_db_begin st t = do { db \<leftarrow> db_drv st; make_call st t (db_begin db) True }"

definition mbb_db_rollback :: "('w, 'i) dbs \<Rightarrow> thread_id \<Rightarrow> (('w, 'i) dbs \<times> db_result) option" where
  "mbb_db_rollback st t = do { db \<leftarrow> db_drv st; make_call st t (db_rollback db) False }"

definition mbb_db_commit :: "('w, 'i) dbs \<Rightarrow> thread_id \<Rightarrow> (('w, 'i) dbs \<times> db_result) option" where
  "mbb_db_commit st t = do { db \<leftarrow> db_drv st; make_call st t (db_commit db) False }"

subsection \<open>Statements\<close>

text \<open>
  \<open>main.c\<close> makes \<open>mbb_db_escape\<close> the escape function of the statements. Where it would wait for
  the mutex, so does the statement that is built with it.
\<close>

definition db_escape_func :: "('w, 'i) dbs \<Rightarrow> thread_id \<Rightarrow> escape_func" where
  "db_escape_func st t = Some (\<lambda>s. case mbb_db_escape st t s of None \<Rightarrow> None | Some r \<Rightarrow> r)"

definition va_vprintf :: vprintf_func where
  "va_vprintf fmt va =
     vprintf fmt (map (\<lambda>a. case a of Va_Str s \<Rightarrow> PF_S s | Va_Int n \<Rightarrow> PF_D n | Va_Long n \<Rightarrow> PF_D n
       | Va_Uint64 n \<Rightarrow> PF_D (uint n)) va)"

definition mbb_db_insert ::
  "('w, 'i) dbs \<Rightarrow> thread_id \<Rightarrow> string \<Rightarrow> string option \<Rightarrow> va_list \<Rightarrow> (('w, 'i) dbs \<times> db_result) option" where
  "mbb_db_insert st t table fmt va =
     do { query \<leftarrow> query_insert_ap (db_escape_func st t) table None fmt va; mbb_db_query st t query None }"

text \<open>\<open>None\<close> where the result has one row and one column.\<close>

definition check_single_result :: "('w, 'i) mbb_db \<Rightarrow> 'i \<Rightarrow> gerror option" where
  "check_single_result db iter =
     (let nrow = db_iter_get_nrow db iter; ncol = db_iter_get_ncol db iter
      in if nrow \<noteq> 1 \<or> ncol \<noteq> 1
         then db_error MBB_DB_ERROR_INSERT_FAILED
           (''invalid returning result: '' @ dec_of_int nrow @ '' rows, '' @ dec_of_int ncol @ '' cols'')
         else None)"

definition fetch_number :: "string option \<Rightarrow> gint \<times> gerror option" where
  "fetch_number str =
     (case str of
        None \<Rightarrow> (-1, db_error MBB_DB_ERROR_INSERT_FAILED ''insert returns null value'')
      | Some s \<Rightarrow>
          (case str_conv_to_uint64 s of
             Inl _ \<Rightarrow> (-1, db_error MBB_DB_ERROR_INSERT_FAILED (''insert returns invalid number '' @ s))
           | Inr n \<Rightarrow> (to_gint (int n), None)))"

text \<open>The second half of \<open>mbb_db_insert_ret\<close>: the statement and the number it returns.\<close>

definition fetch_inserted ::
  "('w, 'i) dbs \<Rightarrow> thread_id \<Rightarrow> string \<Rightarrow> (('w, 'i) dbs \<times> gint \<times> gerror option) option" where
  "fetch_inserted st t query =
     do { (st, iter, e) \<leftarrow> mbb_db_query_iter st t query;
          (case iter of
             None \<Rightarrow> Some (st, -1, e)
           | Some it \<Rightarrow>
               do { db \<leftarrow> db_drv st;
                    (case check_single_result db it of
                       Some e \<Rightarrow> Some (st\<lparr>db_world := db_iter_free db it (db_world st)\<rparr>, -1, Some e)
                     | None \<Rightarrow>
                         (let (it, _) = db_iter_next db it;
                              (i, e) = fetch_number (db_iter_get_value db it 0)
                          in Some (st\<lparr>db_world := db_iter_free db it (db_world st)\<rparr>, i, e))) }) }"

definition mbb_db_insert_ret ::
  "('w, 'i) dbs \<Rightarrow> thread_id \<Rightarrow> string \<Rightarrow> string \<Rightarrow> string \<Rightarrow> va_list \<Rightarrow> (('w, 'i) dbs \<times> gint \<times> gerror option) option" where
  "mbb_db_insert_ret st t table field fmt va =
     do { query \<leftarrow> query_insert_ap (db_escape_func st t) table (Some field) (Some fmt) va; fetch_inserted st t query }"

definition mbb_db_delete ::
  "('w, 'i) dbs \<Rightarrow> thread_id \<Rightarrow> string \<Rightarrow> string option \<Rightarrow> va_list \<Rightarrow> (('w, 'i) dbs \<times> db_result) option" where
  "mbb_db_delete st t table fmt va =
     do { query \<leftarrow> query_delete_ap va_vprintf table fmt va; mbb_db_query st t query None }"

definition mbb_db_update ::
  "('w, 'i) dbs \<Rightarrow> thread_id \<Rightarrow> string \<Rightarrow> string option \<Rightarrow> string \<Rightarrow> va_list \<Rightarrow> (('w, 'i) dbs \<times> db_result) option" where
  "mbb_db_update st t table fmt name va =
     do { query \<leftarrow> query_update_ap va_vprintf (db_escape_func st t) table fmt name va; mbb_db_query st t query None }"

definition mbb_db_select ::
  "('w, 'i) dbs \<Rightarrow> thread_id \<Rightarrow> string option \<Rightarrow> va_list \<Rightarrow> (('w, 'i) dbs \<times> 'i option \<times> gerror option) option" where
  "mbb_db_select st t table va =
     do { query \<leftarrow> query_select_ap va_vprintf table va; mbb_db_query_iter st t query }"

text \<open>
  The conditions are printed into buffers of 32 bytes, which keep 31 characters. The macros
  \<open>query_update\<close> and \<open>query_updatef\<close> add the NULL that ends the arguments.
\<close>

definition BUFLEN :: nat where "BUFLEN = 32"

definition where_id :: "string \<Rightarrow> gint \<Rightarrow> string" where
  "where_id field i = take (BUFLEN - 1) (field @ '' = '' @ dec_of_int i)"

definition db_update_where ::
  "('w, 'i) dbs \<Rightarrow> thread_id \<Rightarrow> string \<Rightarrow> string option \<Rightarrow> string \<Rightarrow> string \<Rightarrow> va_list \<Rightarrow> (('w, 'i) dbs \<times> db_result) option" where
  "db_update_where st t table fmt opt name va =
     do { query \<leftarrow> query_update_full (db_escape_func st t) table fmt (Some opt) name (va @ [Va_Str None]);
          mbb_db_query st t query None }"

subsubsection \<open>Users and groups\<close>

definition mbb_db_user_add :: "('w, 'i) dbs \<Rightarrow> thread_id \<Rightarrow> string \<Rightarrow> string option \<Rightarrow> (('w, 'i) dbs \<times> gint \<times> gerror option) option" where
  "mbb_db_user_add st t name secret =
     (case secret of
        None \<Rightarrow> mbb_db_insert_ret st t ''users'' ''user_id'' ''s'' [Va_Str (Some ''user_name''), Va_Str (Some name)]
      | Some _ \<Rightarrow>
          mbb_db_insert_ret st t ''users'' ''user_id'' ''ss''
            [Va_Str (Some ''user_name''), Va_Str (Some name), Va_Str (Some ''user_secret''), Va_Str secret])"

definition user_where :: "gint \<Rightarrow> string" where "user_where i = where_id ''user_id'' i"

definition mbb_db_user_mod_name :: "('w, 'i) dbs \<Rightarrow> thread_id \<Rightarrow> gint \<Rightarrow> string \<Rightarrow> (('w, 'i) dbs \<times> db_result) option" where
  "mbb_db_user_mod_name st t i name =
     db_update_where st t ''users'' None (user_where i) ''user_name'' [Va_Str (Some name)]"

definition mbb_db_user_mod_pass :: "('w, 'i) dbs \<Rightarrow> thread_id \<Rightarrow> gint \<Rightarrow> string option \<Rightarrow> (('w, 'i) dbs \<times> db_result) option" where
  "mbb_db_user_mod_pass st t i secret =
     db_update_where st t ''users'' None (user_where i) ''user_secret'' [Va_Str secret]"

definition mbb_db_user_drop :: "('w, 'i) dbs \<Rightarrow> thread_id \<Rightarrow> gint \<Rightarrow> (('w, 'i) dbs \<times> db_result) option" where
  "mbb_db_user_drop st t i = mbb_db_query st t (query_delete ''users'' (Some (user_where i))) None"

definition mbb_db_group_mod_name :: "('w, 'i) dbs \<Rightarrow> thread_id \<Rightarrow> gint \<Rightarrow> string \<Rightarrow> (('w, 'i) dbs \<times> db_result) option" where
  "mbb_db_group_mod_name st t i name =
     mbb_db_update st t ''groups'' None ''group_name'' [Va_Str (Some name), Va_Str None, Va_Str (Some ''group_id = %d''), Va_Int i]"

definition mbb_db_group_add_user :: "('w, 'i) dbs \<Rightarrow> thread_id \<Rightarrow> gint \<Rightarrow> gint \<Rightarrow> (('w, 'i) dbs \<times> db_result) option" where
  "mbb_db_group_add_user st t group_id user_id =
     mbb_db_insert st t ''groups_pool'' (Some ''dd'')
       [Va_Str (Some ''group_id''), Va_Int group_id, Va_Str (Some ''user_id''), Va_Int user_id]"

definition mbb_db_group_del_user :: "('w, 'i) dbs \<Rightarrow> thread_id \<Rightarrow> gint \<Rightarrow> gint \<Rightarrow> (('w, 'i) dbs \<times> db_result) option" where
  "mbb_db_group_del_user st t group_id user_id =
     mbb_db_delete st t ''groups_pool'' (Some ''group_id = %d and user_id = %d'') [Va_Int group_id, Va_Int user_id]"

subsubsection \<open>Operators, gateways and links\<close>

definition mbb_db_operator_add :: "('w, 'i) dbs \<Rightarrow> thread_id \<Rightarrow> string \<Rightarrow> (('w, 'i) dbs \<times> gint \<times> gerror option) option" where
  "mbb_db_operator_add st t name =
     mbb_db_insert_ret st t ''operators'' ''oper_id'' ''s'' [Va_Str (Some ''oper_name''), Va_Str (Some name)]"

definition operator_where :: "gint \<Rightarrow> string" where "operator_where i = where_id ''oper_id'' i"

definition mbb_db_operator_mod_name :: "('w, 'i) dbs \<Rightarrow> thread_id \<Rightarrow> gint \<Rightarrow> string \<Rightarrow> (('w, 'i) dbs \<times> db_result) option" where
  "mbb_db_operator_mod_name st t i name =
     db_update_where st t ''operators'' None (operator_where i) ''oper_name'' [Va_Str (Some name)]"

definition mbb_db_operator_drop :: "('w, 'i) dbs \<Rightarrow> thread_id \<Rightarrow> gint \<Rightarrow> (('w, 'i) dbs \<times> db_result) option" where
  "mbb_db_operator_drop st t i = mbb_db_query st t (query_delete ''operators'' (Some (operator_where i))) None"

definition mbb_db_gateway_add :: "('w, 'i) dbs \<Rightarrow> thread_id \<Rightarrow> string \<Rightarrow> ipv4_t \<Rightarrow> (('w, 'i) dbs \<times> gint \<times> gerror option) option" where
  "mbb_db_gateway_add st t name ip =
     mbb_db_insert_ret st t ''gateways'' ''gw_id'' ''ss''
       [Va_Str (Some ''gw_name''), Va_Str (Some name), Va_Str (Some ''gw_ip''), Va_Str (Some (ipv4toa ip))]"

definition gateway_where :: "gint \<Rightarrow> string" where "gateway_where i = where_id ''gw_id'' i"

definition mbb_db_gateway_mod_name :: "('w, 'i) dbs \<Rightarrow> thread_id \<Rightarrow> gint \<Rightarrow> string \<Rightarrow> (('w, 'i) dbs \<times> db_result) option" where
  "mbb_db_gateway_mod_name st t i name =
     db_update_where st t ''gateways'' None (gateway_where i) ''gw_name'' [Va_Str (Some name)]"

definition mbb_db_gateway_drop :: "('w, 'i) dbs \<Rightarrow> thread_id \<Rightarrow> gint \<Rightarrow> (('w, 'i) dbs \<times> db_result) option" where
  "mbb_db_gateway_drop st t i = mbb_db_query st t (query_delete ''gateways'' (Some (gateway_where i))) None"

definition mbb_db_gwlink_add ::
  "('w, 'i) dbs \<Rightarrow> thread_id \<Rightarrow> network \<Rightarrow> mbb_gwlink \<Rightarrow> (('w, 'i) dbs \<times> gint \<times> gerror option) option" where
  "mbb_db_gwlink_add st t net gl =
     do { op \<leftarrow> dm_heap (nw_ops net) (gl_op gl);
          gw \<leftarrow> dm_heap (nw_gws net) (gl_gw gl);
          mbb_db_insert_ret st t ''gwlinks'' ''gwlink_id'' ''dddtt''
            [Va_Str (Some ''oper_id''), Va_Int (op_id op), Va_Str (Some ''gw_id''), Va_Int (gw_id gw),
             Va_Str (Some ''link''), Va_Int (to_gint (uint (gl_link gl))),
             Va_Str (Some ''time_start''), Va_Long (gl_start gl), Va_Str (Some ''time_end''), Va_Long (gl_end gl)] }"

definition gwlink_where :: "gint \<Rightarrow> string" where "gwlink_where i = where_id ''gwlink_id'' i"

definition mbb_db_gwlink_drop :: "('w, 'i) dbs \<Rightarrow> thread_id \<Rightarrow> gint \<Rightarrow> (('w, 'i) dbs \<times> db_result) option" where
  "mbb_db_gwlink_drop st t i = mbb_db_query st t (query_delete ''gwlinks'' (Some (gwlink_where i))) None"

definition mbb_db_gwlink_mod_time ::
  "('w, 'i) dbs \<Rightarrow> thread_id \<Rightarrow> gint \<Rightarrow> time_t \<Rightarrow> time_t \<Rightarrow> (('w, 'i) dbs \<times> db_result) option" where
  "mbb_db_gwlink_mod_time st t i start end_t =
     db_update_where st t ''gwlinks'' (Some ''tt'') (gwlink_where i) ''time_start''
       [Va_Long start, Va_Str (Some ''time_end''), Va_Long end_t]"

subsubsection \<open>Consumers, units and pools\<close>

definition mbb_db_consumer_add ::
  "('w, 'i) dbs \<Rightarrow> thread_id \<Rightarrow> string \<Rightarrow> time_t \<Rightarrow> time_t \<Rightarrow> (('w, 'i) dbs \<times> gint \<times> gerror option) option" where
  "mbb_db_consumer_add st t name start end_t =
     mbb_db_insert_ret st t ''consumers'' ''consumer_id'' ''stt''
       [Va_Str (Some ''consumer_name''), Va_Str (Some name), Va_Str (Some ''time_start''), Va_Long start,
        Va_Str (Some ''time_end''), Va_Long end_t]"

definition consumer_where :: "gint \<Rightarrow> string" where "consumer_where i = where_id ''consumer_id'' i"

definition mbb_db_consumer_mod_name :: "('w, 'i) dbs \<Rightarrow> thread_id \<Rightarrow> gint \<Rightarrow> string \<Rightarrow> (('w, 'i) dbs \<times> db_result) option" where
  "mbb_db_consumer_mod_name st t i name =
     db_update_where st t ''consumers'' None (consumer_where i) ''consumer_name'' [Va_Str (Some name)]"

definition mbb_db_consumer_mod_time ::
  "('w, 'i) dbs \<Rightarrow> thread_id \<Rightarrow> gint \<Rightarrow> time_t \<Rightarrow> time_t \<Rightarrow> (('w, 'i) dbs \<times> db_result) option" where
  "mbb_db_consumer_mod_time st t i start end_t =
     db_update_where st t ''consumers'' (Some ''tt'') (consumer_where i) ''time_start''
       [Va_Long start, Va_Str (Some ''time_end''), Va_Long end_t]"

definition mbb_db_consumer_drop :: "('w, 'i) dbs \<Rightarrow> thread_id \<Rightarrow> gint \<Rightarrow> (('w, 'i) dbs \<times> db_result) option" where
  "mbb_db_consumer_drop st t i = mbb_db_query st t (query_delete ''consumers'' (Some (consumer_where i))) None"

definition mbb_db_consumer_set_user :: "('w, 'i) dbs \<Rightarrow> thread_id \<Rightarrow> gint \<Rightarrow> gint \<Rightarrow> (('w, 'i) dbs \<times> db_result) option" where
  "mbb_db_consumer_set_user st t i user_id =
     mbb_db_update st t ''consumers'' (Some ''d'') ''user_id'' [Va_Int user_id, Va_Str (Some ''consumer_id = %d''), Va_Int i]"

definition mbb_db_consumer_unset_user :: "('w, 'i) dbs \<Rightarrow> thread_id \<Rightarrow> gint \<Rightarrow> (('w, 'i) dbs \<times> db_result) option" where
  "mbb_db_consumer_unset_user st t i =
     mbb_db_update st t ''consumers'' (Some ''s'') ''user_id'' [Va_Str None, Va_Str (Some ''consumer_id = %d''), Va_Int i]"

definition mbb_db_unit_add ::
  "('w, 'i) dbs \<Rightarrow> thread_id \<Rightarrow> string \<Rightarrow> gint \<Rightarrow> time_t \<Rightarrow> time_t \<Rightarrow> (('w, 'i) dbs \<times> gint \<times> gerror option) option" where
  "mbb_db_unit_add st t name con_id start end_t =
     (if con_id < 0
      then mbb_db_insert_ret st t ''units'' ''unit_id'' ''stt''
        [Va_Str (Some ''unit_name''), Va_Str (Some name), Va_Str (Some ''time_start''), Va_Long start,
         Va_Str (Some ''time_end''), Va_Long end_t]
      else mbb_db_insert_ret st t ''units'' ''unit_id'' ''sdtt''
        [Va_Str (Some ''unit_name''), Va_Str (Some name), Va_Str (Some ''consumer_id''), Va_Int con_id,
         Va_Str (Some ''time_start''), Va_Long start, Va_Str (Some ''time_end''), Va_Long end_t])"

definition unit_where :: "gint \<Rightarrow> string" where "unit_where i = where_id ''unit_id'' i"

definition mbb_db_unit_mod_name :: "('w, 'i) dbs \<Rightarrow> thread_id \<Rightarrow> gint \<Rightarrow> string \<Rightarrow> (('w, 'i) dbs \<times> db_result) option" where
  "mbb_db_unit_mod_name st t i name =
     db_update_where st t ''units'' None (unit_where i) ''unit_name'' [Va_Str (Some name)]"

definition mbb_db_unit_mod_time ::
  "('w, 'i) dbs \<Rightarrow> thread_id \<Rightarrow> gint \<Rightarrow> time_t \<Rightarrow> time_t \<Rightarrow> (('w, 'i) dbs \<times> db_result) option" where
  "mbb_db_unit_mod_time st t i start end_t =
     db_update_where st t ''units'' (Some ''tt'') (unit_where i) ''time_start''
       [Va_Long start, Va_Str (Some ''time_end''), Va_Long end_t]"

definition mbb_db_unit_drop :: "('w, 'i) dbs \<Rightarrow> thread_id \<Rightarrow> gint \<Rightarrow> (('w, 'i) dbs \<times> db_result) option" where
  "mbb_db_unit_drop st t i = mbb_db_query st t (query_delete ''units'' (Some (unit_where i))) None"

definition mbb_db_unit_set_consumer :: "('w, 'i) dbs \<Rightarrow> thread_id \<Rightarrow> gint \<Rightarrow> gint \<Rightarrow> (('w, 'i) dbs \<times> db_result) option" where
  "mbb_db_unit_set_consumer st t i con_id =
     db_update_where st t ''units'' (Some ''d'') (unit_where i) ''consumer_id'' [Va_Int con_id]"

definition mbb_db_unit_unset_consumer :: "('w, 'i) dbs \<Rightarrow> thread_id \<Rightarrow> gint \<Rightarrow> (('w, 'i) dbs \<times> db_result) option" where
  "mbb_db_unit_unset_consumer st t i =
     db_update_where st t ''units'' None (unit_where i) ''consumer_id'' [Va_Str None]"

definition mbb_db_unit_mod_local :: "('w, 'i) dbs \<Rightarrow> thread_id \<Rightarrow> gint \<Rightarrow> bool \<Rightarrow> (('w, 'i) dbs \<times> db_result) option" where
  "mbb_db_unit_mod_local st t i local =
     mbb_db_update st t ''units'' (Some ''b'') ''local'' [Va_Int (of_bool local), Va_Str (Some ''unit_id = %d''), Va_Int i]"

definition mbb_db_inet_pool_add ::
  "('w, 'i) dbs \<Rightarrow> thread_id \<Rightarrow> mbb_inet_pool_entry \<Rightarrow> gint \<Rightarrow> (('w, 'i) dbs \<times> gint \<times> gerror option) option" where
  "mbb_db_inet_pool_add st t entry owner_id =
     mbb_db_insert_ret st t ''unit_ip_pool'' ''self_id'' ''dsbttd''
       [Va_Str (Some ''unit_id''), Va_Int owner_id, Va_Str (Some ''inet_addr''), Va_Str (Some (inettoa (pe_inet entry))),
        Va_Str (Some ''inet_flag''), Va_Int (of_bool (pe_flag entry)),
        Va_Str (Some ''time_start''), Va_Long (pe_start entry), Va_Str (Some ''time_end''), Va_Long (pe_end entry),
        Va_Str (Some ''nice''), Va_Int (to_gint (int (pe_nice entry)))]"

definition entry_where :: "gint \<Rightarrow> string" where "entry_where i = where_id ''self_id'' i"

definition mbb_db_inet_pool_drop :: "('w, 'i) dbs \<Rightarrow> thread_id \<Rightarrow> gint \<Rightarrow> (('w, 'i) dbs \<times> db_result) option" where
  "mbb_db_inet_pool_drop st t i = mbb_db_query st t (query_delete ''unit_ip_pool'' (Some (entry_where i))) None"

definition mbb_db_inet_pool_clear :: "('w, 'i) dbs \<Rightarrow> thread_id \<Rightarrow> gint \<Rightarrow> (('w, 'i) dbs \<times> db_result) option" where
  "mbb_db_inet_pool_clear st t owner_id =
     mbb_db_delete st t ''unit_ip_pool'' (Some ''unit_id = %d'') [Va_Int owner_id]"

definition mbb_db_inet_pool_mod_time ::
  "('w, 'i) dbs \<Rightarrow> thread_id \<Rightarrow> gint \<Rightarrow> time_t \<Rightarrow> time_t \<Rightarrow> (('w, 'i) dbs \<times> db_result) option" where
  "mbb_db_inet_pool_mod_time st t i start end_t =
     db_update_where st t ''unit_ip_pool'' (Some ''tt'') (entry_where i) ''time_start''
       [Va_Long start, Va_Str (Some ''time_end''), Va_Long end_t]"

definition mbb_db_inet_pool_mod_nice :: "('w, 'i) dbs \<Rightarrow> thread_id \<Rightarrow> gint \<Rightarrow> guint32 \<Rightarrow> (('w, 'i) dbs \<times> db_result) option" where
  "mbb_db_inet_pool_mod_nice st t i nice =
     db_update_where st t ''unit_ip_pool'' (Some ''d'') (entry_where i) ''nice'' [Va_Int (to_gint (uint nice))]"

section \<open>Transactions on the shared connection\<close>

definition mutex_ok :: "rec_mutex \<Rightarrow> bool" where
  "mutex_ok m \<longleftrightarrow> (case m of None \<Rightarrow> True | Some (owner, n) \<Rightarrow> n > 0)"

lemmas mutex_defs = mutex_ok_def rec_mutex_lock_def rec_mutex_unlock_def

lemma rec_mutex_lock_unlock: "mutex_ok m \<Longrightarrow> rec_mutex_lock t m = Some m' \<Longrightarrow> rec_mutex_unlock t m' = Some m"
  by (auto simp: mutex_defs split: option.splits if_splits prod.splits)

text \<open>
  The steps of a thread, with the connection on which its call sends something, 0 for none: a
  transaction function that the driver does not have sends nothing.
\<close>

definition conn_used :: "('w, 'i) dbs \<Rightarrow> thread_id \<Rightarrow> (('w, 'i) mbb_db \<Rightarrow> 'f option) \<Rightarrow> gpointer" where
  "conn_used st t f =
     (case db_drv st of Some db \<Rightarrow> if f db = None then 0 else fst (db_get_conn st t) | None \<Rightarrow> 0)"

inductive db_step :: "('w, 'i) dbs \<Rightarrow> thread_id \<times> gpointer \<Rightarrow> ('w, 'i) dbs \<Rightarrow> bool" where
  Step_Query: "mbb_db_query st t q f = Some (st', r) \<Longrightarrow> db_step st (t, fst (db_get_conn st t)) st'"
| Step_Iter: "mbb_db_query_iter st t q = Some (st', r) \<Longrightarrow> db_step st (t, fst (db_get_conn st t)) st'"
| Step_Begin: "mbb_db_begin st t = Some (st', r) \<Longrightarrow> db_step st (t, conn_used st t db_begin) st'"
| Step_Rollback: "mbb_db_rollback st t = Some (st', r) \<Longrightarrow> db_step st (t, conn_used st t db_rollback) st'"
| Step_Commit: "mbb_db_commit st t = Some (st', r) \<Longrightarrow> db_step st (t, conn_used st t db_commit) st'"
| Step_Open: "mbb_db_open st auth = (st', r) \<Longrightarrow> db_step st (t, 0) st'"
| Step_Dup: "mbb_db_dup_conn_once st t = (st', r) \<Longrightarrow> db_step st (t, 0) st'"
| Step_End: "db_close st (db_priv st t) = Some st' \<Longrightarrow> db_step st (t, 0) (st'\<lparr>db_priv := (db_priv st')(t := 0)\<rparr>)"

inductive db_run :: "('w, 'i) dbs \<Rightarrow> (thread_id \<times> gpointer) list \<Rightarrow> ('w, 'i) dbs \<Rightarrow> bool" where
  Run_Nil: "db_run st [] st"
| Run_Cons: "db_step st x st1 \<Longrightarrow> db_run st1 xs st2 \<Longrightarrow> db_run st (x # xs) st2"

text \<open>The shared connection is held by the thread \<open>t\<close>.\<close>

definition held_by :: "thread_id \<Rightarrow> nat \<Rightarrow> ('w, 'i) dbs \<Rightarrow> bool" where
  "held_by t n st \<longleftrightarrow> db_mutex st = Some (t, n) \<and> n > 0 \<and> db_conn st \<noteq> 0"

lemma query_held:
  assumes "held_by t n st" "t' \<noteq> t" "mbb_db_query st t' q f = Some (st', r) \<or> mbb_db_query_iter st t' q = Some (st', i)"
  shows "held_by t n st' \<and> db_conn st' = db_conn st \<and> fst (db_get_conn st t') \<noteq> db_conn st"
  using assms
  by (cases "db_get_conn st t'")
    (auto simp: held_by_def mbb_db_query_def mbb_db_query_iter_def db_query_lock_def db_query_unlock_def rec_mutex_lock_def
      Let_def split: bind_splits if_splits prod.splits)

lemma make_call_held:
  assumes "held_by t n st" "t' \<noteq> t" "make_call st t' f op = Some (st', r)"
  shows "held_by t n st' \<and> db_conn st' = db_conn st \<and> (f = None \<or> fst (db_get_conn st t') \<noteq> db_conn st)"
  using assms
  by (cases "db_get_conn st t'")
    (auto simp: held_by_def make_call_def db_query_lock_def db_query_unlock_def rec_mutex_lock_def rec_mutex_unlock_def
      Let_def split: bind_splits if_splits option.splits prod.splits)

lemma call_held:
  assumes "held_by t n st" "t' \<noteq> t" "do { db \<leftarrow> db_drv st; make_call st t' (f db) op } = Some (st', r)"
  shows "held_by t n st' \<and> db_conn st' = db_conn st \<and> conn_used st t' f \<noteq> db_conn st"
proof -
  obtain db where db: "db_drv st = Some db" "make_call st t' (f db) op = Some (st', r)"
    using assms(3) by (auto split: bind_splits)
  from make_call_held [OF assms(1,2) db(2)] db(1) assms(1) show ?thesis
    by (auto simp: conn_used_def held_by_def)
qed

lemma db_step_held:
  assumes "db_step st x st'" "held_by t n st" "fst x \<noteq> t"
  shows "held_by t n st' \<and> db_conn st' = db_conn st \<and> snd x \<noteq> db_conn st"
  using assms
proof cases
  case (Step_Query t' q f r)
  then show ?thesis using assms query_held [of t n st t' q f st' r] by simp
next
  case (Step_Iter t' q r)
  then show ?thesis using assms query_held [of t n st t' q _ st' _ r] by simp
next
  case (Step_Begin t' r)
  then show ?thesis
    using assms call_held [of t n st t' db_begin True st' r] by (simp add: mbb_db_begin_def)
next
  case (Step_Rollback t' r)
  then show ?thesis
    using assms call_held [of t n st t' db_rollback False st' r] by (simp add: mbb_db_rollback_def)
next
  case (Step_Commit t' r)
  then show ?thesis
    using assms call_held [of t n st t' db_commit False st' r] by (simp add: mbb_db_commit_def)
next
  case (Step_Open auth r t')
  then show ?thesis using assms by (auto simp: mbb_db_open_def held_by_def split: option.splits)
next
  case (Step_Dup t' r)
  then show ?thesis using assms
    by (auto simp: mbb_db_dup_conn_once_def mbb_db_dup_conn_def held_by_def Let_def split: option.splits if_splits prod.splits)
next
  case (Step_End t' st1)
  then show ?thesis using assms by (auto simp: db_close_def held_by_def split: bind_splits)
qed

lemma db_run_held:
  assumes "db_run st xs st'" "held_by t n st" "\<forall>x \<in> set xs. fst x \<noteq> t"
  shows "held_by t n st' \<and> db_conn st' = db_conn st \<and> (\<forall>x \<in> set xs. snd x \<noteq> db_conn st)"
  using assms
proof induction
  case (Run_Cons st x st1 xs st2)
  then show ?case using db_step_held [of st x st1 t n] by auto
qed simp

text \<open>
  C25. A transaction on the shared connection is not disturbed. After a thread without a
  connection of its own has begun a transaction, no other thread sends anything on the
  shared connection, whatever calls the others make in whatever order: their calls wait.
  The thread itself can go on: its commit is not blocked, and afterwards the connection is as
  free as it was before. (A thread that ends a transaction it has not begun leaves the
  model: the code then releases a mutex of another thread.)
\<close>

theorem transaction_exclusive:
  assumes begun: "mbb_db_begin st t = Some (st1, True, e)" and own: "db_priv st t = 0" and ok: "mutex_ok (db_mutex st)"
    and run: "db_run st1 xs st2" and others: "\<forall>x \<in> set xs. fst x \<noteq> t"
    and drv: "db_drv st2 = Some db" "db_commit db \<noteq> None" "db_priv st2 t = 0"
  shows "(\<forall>x \<in> set xs. snd x \<noteq> db_conn st) \<and>
     (\<exists>st3 r. mbb_db_commit st2 t = Some (st3, r) \<and> db_mutex st3 = db_mutex st)"
proof -
  from begun own have c: "db_conn st \<noteq> 0" and l: "rec_mutex_lock t (db_mutex st) = Some (db_mutex st1)"
    and s: "db_conn st1 = db_conn st"
    by (auto simp: mbb_db_begin_def make_call_def db_get_conn_def db_query_lock_def db_error_def Let_def
      split: bind_splits option.splits if_splits prod.splits)
  obtain n where n: "db_mutex st1 = Some (t, n)" "n > 0"
    using l by (auto simp: rec_mutex_lock_def dest: sym split: option.splits prod.splits if_splits)
  have "held_by t n st1" using c s n by (simp add: held_by_def)
  from db_run_held [OF run this others] s have h: "held_by t n st2" "db_conn st2 = db_conn st"
    and x: "\<forall>x \<in> set xs. snd x \<noteq> db_conn st" by auto
  have "rec_mutex_unlock t (db_mutex st2) = Some (db_mutex st)"
    using rec_mutex_lock_unlock [OF ok l] h n by (simp add: held_by_def)
  with h c drv have "\<exists>st3 r. mbb_db_commit st2 t = Some (st3, r) \<and> db_mutex st3 = db_mutex st"
    by (auto simp: mbb_db_commit_def make_call_def db_get_conn_def db_query_unlock_def Let_def split: prod.splits)
  with x show ?thesis by blast
qed

text \<open>A transaction that could not be begun leaves the mutex locked, as the code has it.\<close>

lemma failed_begin_keeps_lock:
  assumes "db_priv st t = 0" "db_conn st \<noteq> 0" "db_mutex st = None" "db_drv st = Some db" "db_begin db = Some f"
    "f (db_conn st) (db_world st) = (w, False, e)"
  shows "mbb_db_begin st t = Some (st\<lparr>db_mutex := Some (t, 1), db_world := w\<rparr>, False, e)"
  using assms
  by (simp add: mbb_db_begin_def make_call_def db_get_conn_def db_query_lock_def rec_mutex_lock_def)

text \<open>A database that accepts everything and keeps the list of the commands it got.\<close>

definition pq0 :: "(string list, unit) libpq" where
  "pq0 = \<lparr>PQconnectdb = (\<lambda>s w. (w, 9)), PQstatus_ok = (\<lambda>c w. True), PQfinish = (\<lambda>c w. w), PQerrorMessage = (\<lambda>c w. []),
     PQexec = (\<lambda>c q w. (w @ [q], ())), PQresultStatus = (\<lambda>r. PGRES_COMMAND_OK), PQntuples = (\<lambda>r. 0), PQnfields = (\<lambda>r. 0),
     PQgetisnull = (\<lambda>r i j. True), PQgetvalue = (\<lambda>r i j. []), PQclear = (\<lambda>r w. w), PQescapeStringConn = (\<lambda>c s w. (s, False))\<rparr>"

definition dbs0 :: "(string list, unit mbb_db_iter) dbs" where
  "dbs0 = \<lparr>db_ht = None, db_drv = Some (pg_db pq0), db_conn = 7, db_auth = None, db_priv = (\<lambda>t. if t = 2 then 9 else 0),
     db_mutex = None, db_world = []\<rparr>"

lemmas dbs0_defs = dbs0_def pq0_def pg_db_def pq_exec_def pq_query_def silent_exec_def db_get_conn_def db_query_lock_def
  db_query_unlock_def mbb_db_query_def make_call_def rec_mutex_lock_def rec_mutex_unlock_def

theorem transaction_exclusive_witness:
  "\<exists>st3 r. mbb_db_commit (dbs0\<lparr>db_mutex := Some (1, 1), db_world := [''begin'', ''q'']\<rparr>) 1 = Some (st3, r) \<and> db_mutex st3 = None"
proof -
  let ?s1 = "dbs0\<lparr>db_mutex := Some (1, 1), db_world := [''begin'']\<rparr>"
  let ?s2 = "dbs0\<lparr>db_mutex := Some (1, 1), db_world := [''begin'', ''q'']\<rparr>"
  have b: "mbb_db_begin dbs0 1 = Some (?s1, True, None)"
    by (simp add: mbb_db_begin_def dbs0_defs)
  have "mbb_db_query ?s1 2 ''q'' None = Some (?s2, True, None)"
    by (simp add: dbs0_defs)
  then have "db_step ?s1 (2, fst (db_get_conn ?s1 2)) ?s2" by (rule Step_Query)
  then have "db_run ?s1 [(2, 9)] ?s2"
    by (auto intro: db_run.intros simp: db_get_conn_def dbs0_def)
  from transaction_exclusive [OF b _ _ this] show ?thesis
    by (simp add: dbs0_def mutex_ok_def pg_db_def)
qed

section \<open>The statements of the program\<close>

lemma length_dec_of_nat: "n < 10 ^ k \<Longrightarrow> k > 0 \<Longrightarrow> length (dec_of_nat n) \<le> k"
proof (induction k arbitrary: n)
  case (Suc k)
  show ?case
  proof (cases "n < 10")
    case False
    then have "k > 0" using Suc.prems(1) by (cases k) auto
    moreover have "n div 10 < 10 ^ k" using Suc.prems(1) by (auto simp: div_less_iff_less_mult mult.commute)
    ultimately show ?thesis using Suc.IH [of "n div 10"] False by (simp add: dec_of_nat.simps [of n])
  qed (simp add: dec_of_nat.simps)
qed simp

text \<open>No condition is truncated: the names of the columns have at most 15 characters, a number at most 11.\<close>

lemma where_id_eq:
  assumes "- (2 ^ 31) \<le> i" "i < 2 ^ 31" "length field \<le> 17"
  shows "where_id field i = field @ '' = '' @ dec_of_int i"
proof -
  have "nat (if i < 0 then - i else i) < 10 ^ 10" using assms(1,2) by auto
  from length_dec_of_nat [OF this] have "length (dec_of_int i) \<le> 11"
    by (auto simp: dec_of_int_def split: if_splits)
  then show ?thesis using assms(3) by (simp add: where_id_def BUFLEN_def)
qed

lemmas statement_defs = query_insert_ap_def insert_loop.simps query_update_full_def query_update_ap_def update_common_def
  update_loop.simps buf_append_arg_def qfmt_def query_delete_def query_delete_ap_def query_delete_init_def va_vprintf_def
  mbb_db_insert_ret_def mbb_db_insert_def mbb_db_delete_def mbb_db_update_def db_update_where_def
  user_where_def operator_where_def gateway_where_def gwlink_where_def consumer_where_def unit_where_def entry_where_def

text \<open>
  The statements that change users, groups and their membership: each operation sends
  exactly one statement with the given values, texts quoted by the escape function of the
  connection and a missing password as NULL; changes and deletions are restricted to the row
  with the given number.
\<close>

theorem acl_statements:
  assumes "- (2 ^ 31) \<le> i" "i < 2 ^ 31" and esc: "esc = db_escape_func st t"
  shows "mbb_db_user_add st t name secret = fetch_inserted st t (case secret of
       None \<Rightarrow> ''insert into users (user_name) values ('' @ quoted esc (Some name) @ '') returning user_id;''
     | Some s \<Rightarrow> ''insert into users (user_name, user_secret) values ('' @ quoted esc (Some name) @ '', '' @ quoted esc (Some s) @
         '') returning user_id;'') \<and>
   mbb_db_user_mod_name st t i name = mbb_db_query st t
     (''update users set user_name = '' @ quoted esc (Some name) @ '' where user_id = '' @ dec_of_int i @ '';'') None \<and>
   mbb_db_user_mod_pass st t i secret = mbb_db_query st t
     (''update users set user_secret = '' @ quoted esc secret @ '' where user_id = '' @ dec_of_int i @ '';'') None \<and>
   mbb_db_user_drop st t i = mbb_db_query st t (''delete from users where user_id = '' @ dec_of_int i @ '';'') None \<and>
   mbb_db_group_mod_name st t i name = mbb_db_query st t
     (''update groups set group_name = '' @ quoted esc (Some name) @ '' where group_id = '' @ dec_of_int i @ '';'') None \<and>
   mbb_db_group_add_user st t i j = mbb_db_query st t
     (''insert into groups_pool (group_id, user_id) values ('' @ dec_of_int i @ '', '' @ dec_of_int j @ '');'') None \<and>
   mbb_db_group_del_user st t i j = mbb_db_query st t
     (''delete from groups_pool where group_id = '' @ dec_of_int i @ '' and user_id = '' @ dec_of_int j @ '';'') None"
  using where_id_eq [OF assms(1,2)]
  by (cases secret)
    (simp_all add: esc statement_defs mbb_db_user_add_def mbb_db_user_mod_name_def mbb_db_user_mod_pass_def mbb_db_user_drop_def
      mbb_db_group_mod_name_def mbb_db_group_add_user_def mbb_db_group_del_user_def)

theorem acl_statements_witness:
  "mbb_db_user_mod_pass dbs0 1 3 None = mbb_db_query dbs0 1 ''update users set user_secret = NULL where user_id = 3;'' None"
proof -
  have "dec_of_int 3 = ''3''" by code_simp
  with acl_statements [of 3 "db_escape_func dbs0 1" dbs0 1 "[]" None 0] show ?thesis
    by (simp add: quoted_def)
qed

text \<open>The same for the other tables.\<close>

lemma net_statements:
  assumes "- (2 ^ 31) \<le> i" "i < 2 ^ 31" "0 \<le> start" "0 \<le> fin" and esc: "esc = db_escape_func st t"
  shows "mbb_db_operator_add st t name = fetch_inserted st t
     (''insert into operators (oper_name) values ('' @ quoted esc (Some name) @ '') returning oper_id;'')"
   "mbb_db_operator_mod_name st t i name = mbb_db_query st t
     (''update operators set oper_name = '' @ quoted esc (Some name) @ '' where oper_id = '' @ dec_of_int i @ '';'') None"
   "mbb_db_operator_drop st t i = mbb_db_query st t (''delete from operators where oper_id = '' @ dec_of_int i @ '';'') None"
   "mbb_db_gateway_add st t name ip = fetch_inserted st t
     (''insert into gateways (gw_name, gw_ip) values ('' @ quoted esc (Some name) @ '', '' @ quoted esc (Some (ipv4toa ip)) @
       '') returning gw_id;'')"
   "mbb_db_gateway_mod_name st t i name = mbb_db_query st t
     (''update gateways set gw_name = '' @ quoted esc (Some name) @ '' where gw_id = '' @ dec_of_int i @ '';'') None"
   "mbb_db_gateway_drop st t i = mbb_db_query st t (''delete from gateways where gw_id = '' @ dec_of_int i @ '';'') None"
   "mbb_db_gwlink_drop st t i = mbb_db_query st t (''delete from gwlinks where gwlink_id = '' @ dec_of_int i @ '';'') None"
   "mbb_db_gwlink_mod_time st t i start fin = mbb_db_query st t
     (''update gwlinks set time_start = '' @ dec_of_int start @ '', time_end = '' @ dec_of_int fin @
       '' where gwlink_id = '' @ dec_of_int i @ '';'') None"
  using where_id_eq [OF assms(1,2)] assms(3,4)
  by (simp_all add: esc statement_defs mbb_db_operator_add_def mbb_db_operator_mod_name_def mbb_db_operator_drop_def
    mbb_db_gateway_add_def mbb_db_gateway_mod_name_def mbb_db_gateway_drop_def mbb_db_gwlink_drop_def mbb_db_gwlink_mod_time_def)

text \<open>A time that is inherited from the owner (a negative one) is stored as NULL.\<close>

definition time_text :: "time_t \<Rightarrow> string" where
  "time_text x = (if x \<ge> 0 then dec_of_int x else ''NULL'')"

lemma account_statements:
  assumes "- (2 ^ 31) \<le> i" "i < 2 ^ 31" and esc: "esc = db_escape_func st t"
  shows "mbb_db_consumer_add st t name start fin = fetch_inserted st t
     (''insert into consumers (consumer_name, time_start, time_end) values ('' @ quoted esc (Some name) @ '', '' @
       time_text start @ '', '' @ time_text fin @ '') returning consumer_id;'')"
   "mbb_db_consumer_mod_time st t i start fin = mbb_db_query st t
     (''update consumers set time_start = '' @ time_text start @ '', time_end = '' @ time_text fin @
       '' where consumer_id = '' @ dec_of_int i @ '';'') None"
   "mbb_db_consumer_drop st t i = mbb_db_query st t (''delete from consumers where consumer_id = '' @ dec_of_int i @ '';'') None"
   "mbb_db_consumer_set_user st t i j = mbb_db_query st t
     (''update consumers set user_id = '' @ dec_of_int j @ '' where consumer_id = '' @ dec_of_int i @ '';'') None"
   "mbb_db_consumer_unset_user st t i = mbb_db_query st t
     (''update consumers set user_id = NULL where consumer_id = '' @ dec_of_int i @ '';'') None"
   "mbb_db_unit_mod_time st t i start fin = mbb_db_query st t
     (''update units set time_start = '' @ time_text start @ '', time_end = '' @ time_text fin @
       '' where unit_id = '' @ dec_of_int i @ '';'') None"
   "mbb_db_unit_set_consumer st t i j = mbb_db_query st t
     (''update units set consumer_id = '' @ dec_of_int j @ '' where unit_id = '' @ dec_of_int i @ '';'') None"
   "mbb_db_unit_unset_consumer st t i = mbb_db_query st t
     (''update units set consumer_id = NULL where unit_id = '' @ dec_of_int i @ '';'') None"
   "mbb_db_unit_mod_local st t i local = mbb_db_query st t
     (''update units set local = '' @ (if local then ''true'' else ''false'') @ '' where unit_id = '' @ dec_of_int i @ '';'') None"
   "mbb_db_inet_pool_clear st t i = mbb_db_query st t (''delete from unit_ip_pool where unit_id = '' @ dec_of_int i @ '';'') None"
  using where_id_eq [OF assms(1,2)]
  by (simp_all add: esc statement_defs time_text_def quoted_def mbb_db_consumer_add_def mbb_db_consumer_mod_time_def
    mbb_db_consumer_drop_def mbb_db_consumer_set_user_def mbb_db_consumer_unset_user_def mbb_db_unit_mod_time_def
    mbb_db_unit_set_consumer_def mbb_db_unit_unset_consumer_def mbb_db_unit_mod_local_def mbb_db_inet_pool_clear_def)

end
