(* ===== verification/Command.thy ===== *)
theory Command
  imports Mbb_Module Mbb_Db
begin

text \<open>
  What the command handlers of the \<open>*man.c\<close> files share. The memory of the server holds the
  gateways, the accounts and the database layer besides the memory behind the variables. A
  handler gets the thread that runs it and the request, and returns the answer; \<open>None\<close> there is
  a NULL answer, for which the server sends its plain \<open>ok\<close>. The handlers run under the global
  lock of \<open>mbblock.c\<close>, as writers where they change objects, so each is one step. \<open>final\<close> of
  \<open>include/macros.h\<close> releases the lock and returns. Debug messages are left out.
\<close>

section \<open>Definitions\<close>

record ('v, 'w, 'i) app =
  ap_vars :: 'v
  ap_net :: network
  ap_acc :: account
  ap_db :: "('w, 'i) dbs"

type_synonym ('v, 'w, 'i) app_srv = "('v, 'w, 'i) app srv"
type_synonym 's reply = "('s \<times> xml_tag option) option"
type_synonym ('v, 'w, 'i) handler =
  "('v, 'w, 'i) app_srv \<Rightarrow> thread_id \<Rightarrow> xml_tag \<Rightarrow> ('v, 'w, 'i) app_srv reply"

abbreviation srv_db :: "('v, 'w, 'i) app_srv \<Rightarrow> ('w, 'i) dbs" where "srv_db st \<equiv> ap_db (sv_mem st)"
abbreviation srv_net :: "('v, 'w, 'i) app_srv \<Rightarrow> network" where "srv_net st \<equiv> ap_net (sv_mem st)"
abbreviation srv_acc :: "('v, 'w, 'i) app_srv \<Rightarrow> account" where "srv_acc st \<equiv> ap_acc (sv_mem st)"

definition set_db :: "('v, 'w, 'i) app_srv \<Rightarrow> ('w, 'i) dbs \<Rightarrow> ('v, 'w, 'i) app_srv" where
  "set_db st db = st\<lparr>sv_mem := (sv_mem st)\<lparr>ap_db := db\<rparr>\<rparr>"

definition set_net :: "('v, 'w, 'i) app_srv \<Rightarrow> network \<Rightarrow> ('v, 'w, 'i) app_srv" where
  "set_net st net = st\<lparr>sv_mem := (sv_mem st)\<lparr>ap_net := net\<rparr>\<rparr>"

definition set_acc :: "('v, 'w, 'i) app_srv \<Rightarrow> account \<Rightarrow> ('v, 'w, 'i) app_srv" where
  "set_acc st acc = st\<lparr>sv_mem := (sv_mem st)\<lparr>ap_acc := acc\<rparr>\<rparr>"

definition set_acl :: "('v, 'w, 'i) app_srv \<Rightarrow> acl \<Rightarrow> ('v, 'w, 'i) app_srv" where
  "set_acl st acl = st\<lparr>sv_acl := acl\<rparr>"

text \<open>Ending a handler with a message or with the error of the database layer.\<close>

definition reply_msg :: "'s \<Rightarrow> mbb_msg_t \<Rightarrow> pf_arg list \<Rightarrow> 's reply" where
  "reply_msg st no ap = do { ans \<leftarrow> mbb_xml_msg no ap; Some (st, Some ans) }"

definition reply_error :: "'s \<Rightarrow> gerror option \<Rightarrow> 's reply" where
  "reply_error st e = do { ans \<leftarrow> mbb_xml_msg_from_error e; Some (st, Some ans) }"

text \<open>\<open>MBB_XTV_CALL\<close>: the answer for arguments that cannot be read, or the rest of the handler.\<close>

definition with_args :: "'s \<Rightarrow> xml_tag \<Rightarrow> (xv xml_tag_var \<times> bool) list \<Rightarrow> (xv option list \<Rightarrow> 's reply) \<Rightarrow> 's reply" where
  "with_args st tag xtv body =
     do { r \<leftarrow> mbb_xtv_call_z tag xtv; (case r of Inl ans \<Rightarrow> Some (st, Some ans) | Inr vs \<Rightarrow> body vs) }"

definition xv_str :: "xv option \<Rightarrow> string option" where
  "xv_str v = (case v of Some (XV_Str s) \<Rightarrow> Some s | _ \<Rightarrow> None)"

definition xv_time :: "time_t \<Rightarrow> xv option \<Rightarrow> time_t" where
  "xv_time dflt v = (case v of Some (XV_Time t) \<Rightarrow> t | _ \<Rightarrow> dflt)"

definition xv_bool :: "bool \<Rightarrow> xv option \<Rightarrow> bool" where
  "xv_bool dflt v = (case v of Some (XV_Bool b) \<Rightarrow> b | _ \<Rightarrow> dflt)"

definition xv_regex :: "xv option \<Rightarrow> (string \<Rightarrow> bool) option" where
  "xv_regex v = (case v of Some (XV_Regex re) \<Rightarrow> Some re | _ \<Rightarrow> None)"

definition VAR_CONV_TIME_UNSET :: time_t where "VAR_CONV_TIME_UNSET = - 2"

text \<open>The order in which a hash table of GLib is iterated is unspecified: a parameter.\<close>

type_synonym ht_order = "gpointer set \<Rightarrow> gpointer list"

text \<open>A child for each object in turn.\<close>

fun gather_all :: "(gpointer \<Rightarrow> xml_tag \<Rightarrow> xml_tag option) \<Rightarrow> gpointer list \<Rightarrow> xml_tag \<Rightarrow> xml_tag option" where
  "gather_all f [] tag = Some tag"
| "gather_all f (p # ps) tag = do { tag \<leftarrow> f p tag; gather_all f ps tag }"

definition dl_regex :: "(string \<Rightarrow> bool) option \<Rightarrow> (dl_key \<Rightarrow> bool) option" where
  "dl_regex re = map_option (\<lambda>f k. case k of Key_Str s \<Rightarrow> f s | _ \<Rightarrow> False) re"

section \<open>Answers\<close>

text \<open>An answer of a handler is a refusal unless it says \<open>ok\<close>; no answer is a success.\<close>

definition refused :: "xml_tag option \<Rightarrow> bool" where
  "refused ans = (case ans of None \<Rightarrow> False | Some tag \<Rightarrow> \<not> fst (mbb_xml_msg_is_ok tag))"

lemma set_state_simps [simp]:
  "sv_acl (set_db st db) = sv_acl st" "sv_acl (set_net st net) = sv_acl st" "sv_acl (set_acc st acc) = sv_acl st"
  "sv_acl (set_acl st acl) = acl"
  "srv_db (set_db st db) = db" "srv_db (set_net st net) = srv_db st" "srv_db (set_acc st acc) = srv_db st"
  "srv_db (set_acl st acl) = srv_db st"
  "srv_net (set_db st db) = srv_net st" "srv_net (set_net st net) = net" "srv_net (set_acc st acc) = srv_net st"
  "srv_net (set_acl st acl) = srv_net st"
  "srv_acc (set_db st db) = srv_acc st" "srv_acc (set_net st net) = srv_acc st" "srv_acc (set_acc st acc) = acc"
  "srv_acc (set_acl st acl) = srv_acc st"
  by (simp_all add: set_db_def set_net_def set_acc_def set_acl_def)

lemma reply_msg_outcome: "reply_msg s no ap = Some r \<Longrightarrow> \<exists>a. r = (s, Some a)"
  by (auto simp: reply_msg_def split: bind_splits)

lemma reply_error_outcome: "reply_error s e = Some r \<Longrightarrow> \<exists>a. r = (s, Some a)"
  by (auto simp: reply_error_def split: bind_splits)

lemma with_args_cases:
  assumes "with_args st tag xtv body = Some r"
  obtains (bad) a where "r = (st, Some a)" | (good) vs where "body vs = Some r"
  using assms by (auto simp: with_args_def split: bind_splits sum.splits)

lemma set_db_same [simp]: "set_db st (srv_db st) = st"
  by (simp add: set_db_def)

text \<open>The database of the examples runs every statement and numbers no object.\<close>

lemma fetch_inserted0: "fetch_inserted dbs0 t q = Some (db, i, e) \<Longrightarrow> i < 0"
  by (auto simp: fetch_inserted_def mbb_db_query_iter_def dbs0_defs pq_query_iter_def iter_new_def check_single_result_def db_error_def
    split: bind_splits if_splits)

end
