(* ===== verification/Acl_Man.thy ===== *)
theory Acl_Man
  imports Command Mbb_Auth
begin

text \<open>
  The commands on users and groups, \<open>mbbd/mbbuserman.c\<close> and \<open>mbbd/mbbgroupman.c\<close>. A command
  that creates an object gets its address from the allocator: the argument \<open>p\<close>.
\<close>

section \<open>Definitions\<close>

subsection \<open>Users\<close>

definition gather_user :: "('v, 'w, 'i) app_srv \<Rightarrow> gpointer \<Rightarrow> xml_tag \<Rightarrow> xml_tag option" where
  "gather_user st p tag =
     do { u \<leftarrow> dm_heap (acl_users (sv_acl st)) p;
          Some (xml_tag_add_child tag (xml_tag_new ''user''
            [(''id'', variant_new_int (u_id u)), (''name'', variant_new_string (Some (u_name u)))] None)) }"

definition show_users :: "ht_order \<Rightarrow> xtv_env \<Rightarrow> ('v, 'w, 'i) handler" where
  "show_users ord env st t tag =
     with_args st tag [(xtv_regex_value env, True)] (\<lambda>vs.
       do { re \<leftarrow> (case vs of [v] \<Rightarrow> Some (xv_regex v) | _ \<Rightarrow> None);
            ans \<leftarrow> gather_all (gather_user st) (ord (mbb_user_forregex (sv_acl st) (dl_regex re))) mbb_xml_msg_ok;
            Some (st, Some ans) })"

fun group_name_tags :: "acl \<Rightarrow> nat list \<Rightarrow> xml_tag \<Rightarrow> xml_tag option" where
  "group_name_tags acl [] ans = Some ans"
| "group_name_tags acl (n # ns) ans =
     do { p \<leftarrow> mbb_group_get_by_id acl (int n);
          g \<leftarrow> dm_heap (acl_groups acl) p;
          group_name_tags acl ns
            (xml_tag_add_child ans (xml_tag_new ''group'' [(''name'', variant_new_string (Some (g_name g)))] None)) }"

text \<open>\<open>show_groups\<close> of \<open>mbbuserman.c\<close>.\<close>

definition show_groups_of :: "('v, 'w, 'i) app_srv \<Rightarrow> gpointer \<Rightarrow> xml_tag option" where
  "show_groups_of st user =
     do { u \<leftarrow> dm_heap (acl_users (sv_acl st)) user;
          group_name_tags (sv_acl st) (mbb_user_get_groups u) mbb_xml_msg_ok }"

definition user_show_groups :: "('v, 'w, 'i) handler" where
  "user_show_groups st t tag =
     with_args st tag [(xtv_user_name, False)] (\<lambda>vs.
       do { name \<leftarrow> (case vs of [v] \<Rightarrow> xv_str v | _ \<Rightarrow> None);
            (case mbb_user_get_by_name (sv_acl st) name of
               None \<Rightarrow> reply_msg st MBB_MSG_UNKNOWN_USER []
             | Some user \<Rightarrow> do { ans \<leftarrow> show_groups_of st user; Some (st, Some ans) }) })"

definition self_show_groups :: "('v, 'w, 'i) handler" where
  "self_show_groups st t tag =
     do { uid \<leftarrow> mbb_thread_get_uid st t;
          (case mbb_user_get_by_id (sv_acl st) uid of
             None \<Rightarrow> reply_msg st MBB_MSG_SELF_NOT_EXISTS []
           | Some user \<Rightarrow> do { ans \<leftarrow> show_groups_of st user; Some (st, Some ans) }) }"

definition add_user :: "gpointer \<Rightarrow> ('v, 'w, 'i) handler" where
  "add_user p st t tag =
     with_args st tag [(xtv_name_value, False), (xtv_secret_value, True)] (\<lambda>vs.
       do { (name, secret) \<leftarrow> (case vs of [n, s] \<Rightarrow> map_option (\<lambda>n. (n, xv_str s)) (xv_str n) | _ \<Rightarrow> None);
            if mbb_user_get_by_name (sv_acl st) name \<noteq> None then reply_msg st MBB_MSG_NAME_EXISTS [PF_S (Some name)]
            else
              do { (db, id, e) \<leftarrow> mbb_db_user_add (srv_db st) t name secret;
                   let st = set_db st db;
                   if id < 0 then reply_error st e
                   else
                     do { acl \<leftarrow> mbb_user_join (set_user (sv_acl st) p (Some (mbb_user_new id name secret))) p;
                          Some (set_acl st acl, None) } } })"

definition drop_user :: "('v, 'w, 'i) handler" where
  "drop_user st t tag =
     with_args st tag [(xtv_name_value, False)] (\<lambda>vs.
       do { name \<leftarrow> (case vs of [v] \<Rightarrow> xv_str v | _ \<Rightarrow> None);
            (case mbb_user_get_by_name (sv_acl st) name of
               None \<Rightarrow> reply_msg st MBB_MSG_UNKNOWN_USER []
             | Some user \<Rightarrow>
                 do { u \<leftarrow> dm_heap (acl_users (sv_acl st)) user;
                      if u_childs u \<noteq> [] then reply_msg st MBB_MSG_HAS_CHILDS []
                      else
                        do { (db, ok, e) \<leftarrow> mbb_db_user_drop (srv_db st) t (u_id u);
                             let st = set_db st db;
                             if \<not> ok then reply_error st e
                             else do { acl \<leftarrow> mbb_user_remove (sv_acl st) user; Some (set_acl st acl, None) } } }) })"

definition user_mod_name :: "('v, 'w, 'i) handler" where
  "user_mod_name st t tag =
     with_args st tag [(xtv_name_value, False), (xtv_newname_value, False)] (\<lambda>vs.
       do { name \<leftarrow> (case vs of [n, _] \<Rightarrow> xv_str n | _ \<Rightarrow> None);
            newname \<leftarrow> (case vs of [_, n] \<Rightarrow> xv_str n | _ \<Rightarrow> None);
            (case mbb_user_get_by_name (sv_acl st) name of
               None \<Rightarrow> reply_msg st MBB_MSG_UNKNOWN_USER []
             | Some user \<Rightarrow>
                 if mbb_user_get_by_name (sv_acl st) newname \<noteq> None
                 then reply_msg st MBB_MSG_NAME_EXISTS [PF_S (Some newname)]
                 else
                   do { u \<leftarrow> dm_heap (acl_users (sv_acl st)) user;
                        (db, ok, e) \<leftarrow> mbb_db_user_mod_name (srv_db st) t (u_id u) newname;
                        let st = set_db st db;
                        if \<not> ok then reply_error st e
                        else
                          do { (acl, r) \<leftarrow> mbb_user_mod_name (sv_acl st) user newname;
                               let st = set_acl st acl;
                               if \<not> r then reply_msg st MBB_MSG_UNPOSSIBLE [] else Some (st, None) } }) })"

definition change_pass :: "('v, 'w, 'i) app_srv \<Rightarrow> thread_id \<Rightarrow> gpointer \<Rightarrow> string \<Rightarrow> (('v, 'w, 'i) app_srv \<times> db_result) option" where
  "change_pass st t user pass =
     (let p = (if pass = [] then None else Some pass)
      in do { u \<leftarrow> dm_heap (acl_users (sv_acl st)) user;
              (db, ok, e) \<leftarrow> mbb_db_user_mod_pass (srv_db st) t (u_id u) p;
              let st = set_db st db;
              if \<not> ok then Some (st, False, e)
              else do { acl \<leftarrow> mbb_user_mod_pass (sv_acl st) user p; Some (set_acl st acl, True, e) } })"

definition user_mod_pass :: "('v, 'w, 'i) handler" where
  "user_mod_pass st t tag =
     with_args st tag [(xtv_name_value, False), (xtv_newsecret_value, False)] (\<lambda>vs.
       do { name \<leftarrow> (case vs of [n, _] \<Rightarrow> xv_str n | _ \<Rightarrow> None);
            newsecret \<leftarrow> (case vs of [_, n] \<Rightarrow> xv_str n | _ \<Rightarrow> None);
            (case mbb_user_get_by_name (sv_acl st) name of
               None \<Rightarrow> reply_msg st MBB_MSG_UNKNOWN_USER []
             | Some user \<Rightarrow>
                 do { (st, ok, e) \<leftarrow> change_pass st t user newsecret;
                      if \<not> ok then reply_error st e else Some (st, None) }) })"

definition self_mod_pass :: "('v, 'w, 'i) handler" where
  "self_mod_pass st t tag =
     with_args st tag [(xtv_newsecret_value, False), (xtv_secret_value, True)] (\<lambda>vs.
       do { (newpass, pass) \<leftarrow> (case vs of [n, s] \<Rightarrow> map_option (\<lambda>n. (n, xv_str s)) (xv_str n) | _ \<Rightarrow> None);
            uid \<leftarrow> mbb_thread_get_uid st t;
            (case mbb_user_get_by_id (sv_acl st) uid of
               None \<Rightarrow> reply_msg st MBB_MSG_SELF_NOT_EXISTS []
             | Some user \<Rightarrow>
                 do { u \<leftarrow> dm_heap (acl_users (sv_acl st)) user;
                      cap \<leftarrow> mbb_thread_get_cap st t;
                      if \<not> MBB_CAP_IS_ROOT cap \<and> pass = None then reply_msg st MBB_MSG_NEED_PASS []
                      else if \<not> MBB_CAP_IS_ROOT cap \<and> u_secret u \<noteq> None \<and> g_strcmp0 pass (u_secret u) \<noteq> 0
                      then reply_msg st MBB_MSG_INVALID_PASS []
                      else
                        do { (st, ok, e) \<leftarrow> change_pass st t user newpass;
                             if \<not> ok then reply_error st e else Some (st, None) } }) })"

subsection \<open>Groups\<close>

definition gather_group :: "('v, 'w, 'i) app_srv \<Rightarrow> gpointer \<Rightarrow> xml_tag \<Rightarrow> xml_tag option" where
  "gather_group st p tag =
     do { g \<leftarrow> dm_heap (acl_groups (sv_acl st)) p;
          Some (xml_tag_add_child tag (xml_tag_new ''group''
            [(''id'', variant_new_int (g_id g)), (''name'', variant_new_string (Some (g_name g)))] None)) }"

definition show_groups :: "ht_order \<Rightarrow> ('v, 'w, 'i) handler" where
  "show_groups ord st t tag =
     do { ans \<leftarrow> gather_all (gather_group st) (ord (mbb_group_foreach (sv_acl st))) mbb_xml_msg_ok; Some (st, Some ans) }"

definition user_name_tag :: "('v, 'w, 'i) app_srv \<Rightarrow> gpointer \<Rightarrow> xml_tag \<Rightarrow> xml_tag option" where
  "user_name_tag st p tag =
     do { u \<leftarrow> dm_heap (acl_users (sv_acl st)) p;
          Some (xml_tag_add_child tag (xml_tag_new ''user'' [(''name'', variant_new_string (Some (u_name u)))] None)) }"

definition group_show_users :: "ht_order \<Rightarrow> ('v, 'w, 'i) handler" where
  "group_show_users ord st t tag =
     with_args st tag [(xtv_group_name, False)] (\<lambda>vs.
       do { name \<leftarrow> (case vs of [v] \<Rightarrow> xv_str v | _ \<Rightarrow> None);
            (case mbb_group_get_by_name (sv_acl st) name of
               None \<Rightarrow> reply_msg st MBB_MSG_UNKNOWN_GROUP []
             | Some grp \<Rightarrow>
                 do { g \<leftarrow> dm_heap (acl_groups (sv_acl st)) grp;
                      ans \<leftarrow> (case g_users g of
                                None \<Rightarrow> Some mbb_xml_msg_ok
                              | Some users \<Rightarrow> gather_all (user_name_tag st) (ord (ran users)) mbb_xml_msg_ok);
                      Some (st, Some ans) }) })"

definition group_mod_name :: "('v, 'w, 'i) handler" where
  "group_mod_name st t tag =
     with_args st tag [(xtv_name_value, False), (xtv_newname_value, False)] (\<lambda>vs.
       do { name \<leftarrow> (case vs of [n, _] \<Rightarrow> xv_str n | _ \<Rightarrow> None);
            newname \<leftarrow> (case vs of [_, n] \<Rightarrow> xv_str n | _ \<Rightarrow> None);
            (case mbb_group_get_by_name (sv_acl st) name of
               None \<Rightarrow> reply_msg st MBB_MSG_UNKNOWN_GROUP []
             | Some grp \<Rightarrow>
                 if mbb_group_get_by_name (sv_acl st) newname \<noteq> None
                 then reply_msg st MBB_MSG_NAME_EXISTS [PF_S (Some newname)]
                 else
                   do { g \<leftarrow> dm_heap (acl_groups (sv_acl st)) grp;
                        (db, ok, e) \<leftarrow> mbb_db_group_mod_name (srv_db st) t (g_id g) newname;
                        let st = set_db st db;
                        if \<not> ok then reply_error st e
                        else
                          do { (acl, r) \<leftarrow> mbb_group_mod_name (sv_acl st) grp newname;
                               let st = set_acl st acl;
                               if \<not> r then reply_msg st MBB_MSG_UNPOSSIBLE [] else Some (st, None) } }) })"

definition MBB_CAP_WHEEL_ID :: int where "MBB_CAP_WHEEL_ID = 1"

definition group_do_user :: "bool \<Rightarrow> ('v, 'w, 'i) handler" where
  "group_do_user add st t tag =
     with_args st tag [(xtv_group_name, False), (xtv_user_name, False)] (\<lambda>vs.
       do { group_name \<leftarrow> (case vs of [n, _] \<Rightarrow> xv_str n | _ \<Rightarrow> None);
            user_name \<leftarrow> (case vs of [_, n] \<Rightarrow> xv_str n | _ \<Rightarrow> None);
            (case mbb_group_get_by_name (sv_acl st) group_name of
               None \<Rightarrow> reply_msg st MBB_MSG_UNKNOWN_GROUP []
             | Some grp \<Rightarrow>
                 (case mbb_user_get_by_name (sv_acl st) user_name of
                    None \<Rightarrow> reply_msg st MBB_MSG_UNKNOWN_USER []
                  | Some user \<Rightarrow>
                      do { g \<leftarrow> dm_heap (acl_groups (sv_acl st)) grp;
                           u \<leftarrow> dm_heap (acl_users (sv_acl st)) user;
                           root_only \<leftarrow> (if g_id g \<le> MBB_CAP_WHEEL_ID
                                         then map_option (\<lambda>cap. \<not> MBB_CAP_IS_WHEEL cap) (mbb_thread_get_cap st t)
                                         else Some False);
                           if root_only then reply_msg st MBB_MSG_ROOT_ONLY []
                           else if mbb_group_has_user g (u_id u) = add
                           then reply_msg st (if add then MBB_MSG_GROUP_HAS_USER else MBB_MSG_GROUP_HASNOT_USER) []
                           else
                             do { (db, ok, e) \<leftarrow> (if add then mbb_db_group_add_user (srv_db st) t (g_id g) (u_id u)
                                                  else mbb_db_group_del_user (srv_db st) t (g_id g) (u_id u));
                                  let st = set_db st db;
                                  if \<not> ok then reply_error st e
                                  else
                                    do { acl \<leftarrow> (if add then mbb_group_add_user (sv_acl st) grp user
                                                 else mbb_group_del_user (sv_acl st) grp user);
                                         Some (set_acl st acl, None) } } })) })"

definition group_add_user :: "('v, 'w, 'i) handler" where
  "group_add_user st t tag = group_do_user True st t tag"

definition group_del_user :: "('v, 'w, 'i) handler" where
  "group_del_user st t tag = group_do_user False st t tag"

section \<open>What the commands may do\<close>

text \<open>
  The changes of users and groups that the commands make, by the name of the command, each
  with the call of the database that recorded it before. A new user lives at a fresh address, under a number that no
  other user and no group has.
\<close>

definition fresh_user_address :: "acl \<Rightarrow> gpointer \<Rightarrow> bool" where
  "fresh_user_address acl p \<longleftrightarrow> p \<noteq> 0 \<and> dm_heap (acl_users acl) p = None"

definition fresh_user_id :: "acl \<Rightarrow> int \<Rightarrow> bool" where
  "fresh_user_id acl i \<longleftrightarrow>
     (\<forall>q u. dm_heap (acl_users acl) q = Some u \<longrightarrow> u_id u \<noteq> i) \<and>
     (\<forall>q g. dm_heap (acl_groups acl) q = Some g \<longrightarrow> \<not> mbb_group_has_user g i)"

definition fresh_ids :: "('v, 'w, 'i) app_srv \<Rightarrow> thread_id \<Rightarrow> bool" where
  "fresh_ids st t \<longleftrightarrow> (\<forall>name secret db i e. mbb_db_user_add (srv_db st) t name secret = Some (db, i, e) \<longrightarrow> 0 \<le> i \<longrightarrow>
     fresh_user_id (sv_acl st) i)"

inductive acl_change :: "thread_id \<Rightarrow> string \<Rightarrow> ('v, 'w, 'i) app_srv \<Rightarrow> ('v, 'w, 'i) app_srv \<Rightarrow> bool" for t where
  Add_User: "mbb_user_get_by_name (sv_acl st) name = None \<Longrightarrow>
    mbb_db_user_add (srv_db st) t name secret = Some (db, i, e) \<Longrightarrow> 0 \<le> i \<Longrightarrow>
    fresh_user_address (sv_acl st) p \<Longrightarrow> fresh_user_id (sv_acl st) i \<Longrightarrow>
    mbb_user_join (set_user (sv_acl st) p (Some (mbb_user_new i name secret))) p = Some acl \<Longrightarrow>
    acl_change t ''mbb-add-user'' st (set_acl (set_db st db) acl)"
| Drop_User: "mbb_user_get_by_name (sv_acl st) name = Some user \<Longrightarrow>
    dm_heap (acl_users (sv_acl st)) user = Some u \<Longrightarrow> u_childs u = [] \<Longrightarrow>
    mbb_db_user_drop (srv_db st) t (u_id u) = Some (db, True, e) \<Longrightarrow> mbb_user_remove (sv_acl st) user = Some acl \<Longrightarrow>
    acl_change t ''mbb-drop-user'' st (set_acl (set_db st db) acl)"
| Rename_User: "mbb_user_get_by_name (sv_acl st) name = Some user \<Longrightarrow>
    dm_heap (acl_users (sv_acl st)) user = Some u \<Longrightarrow>
    mbb_db_user_mod_name (srv_db st) t (u_id u) newname = Some (db, True, e) \<Longrightarrow>
    mbb_user_mod_name (sv_acl st) user newname = Some (acl, True) \<Longrightarrow>
    acl_change t ''mbb-user-mod-name'' st (set_acl (set_db st db) acl)"
| Set_Pass: "mbb_user_get_by_name (sv_acl st) name = Some user \<Longrightarrow>
    dm_heap (acl_users (sv_acl st)) user = Some u \<Longrightarrow>
    mbb_db_user_mod_pass (srv_db st) t (u_id u) secret = Some (db, True, e) \<Longrightarrow>
    mbb_user_mod_pass (sv_acl st) user secret = Some acl \<Longrightarrow>
    acl_change t ''mbb-user-mod-pass'' st (set_acl (set_db st db) acl)"
| Own_Pass: "mbb_thread_get_uid st t = Some uid \<Longrightarrow> mbb_user_get_by_id (sv_acl st) uid = Some user \<Longrightarrow>
    dm_heap (acl_users (sv_acl st)) user = Some u \<Longrightarrow>
    mbb_db_user_mod_pass (srv_db st) t (u_id u) secret = Some (db, True, e) \<Longrightarrow>
    mbb_user_mod_pass (sv_acl st) user secret = Some acl \<Longrightarrow>
    acl_change t ''mbb-self-mod-pass'' st (set_acl (set_db st db) acl)"
| Rename_Group: "mbb_group_get_by_name (sv_acl st) name = Some grp \<Longrightarrow>
    dm_heap (acl_groups (sv_acl st)) grp = Some g \<Longrightarrow>
    mbb_db_group_mod_name (srv_db st) t (g_id g) newname = Some (db, True, e) \<Longrightarrow>
    mbb_group_mod_name (sv_acl st) grp newname = Some (acl, True) \<Longrightarrow>
    acl_change t ''mbb-group-mod-name'' st (set_acl (set_db st db) acl)"
| Join_Group: "mbb_group_get_by_name (sv_acl st) gname = Some grp \<Longrightarrow> dm_heap (acl_groups (sv_acl st)) grp = Some g \<Longrightarrow>
    mbb_user_get_by_name (sv_acl st) name = Some user \<Longrightarrow> dm_heap (acl_users (sv_acl st)) user = Some u \<Longrightarrow>
    g_id g \<le> MBB_CAP_WHEEL_ID \<longrightarrow> (\<exists>cap. mbb_thread_get_cap st t = Some cap \<and> MBB_CAP_IS_WHEEL cap) \<Longrightarrow>
    mbb_db_group_add_user (srv_db st) t (g_id g) (u_id u) = Some (db, True, e) \<Longrightarrow>
    mbb_group_add_user (sv_acl st) grp user = Some acl \<Longrightarrow>
    acl_change t ''mbb-group-add-user'' st (set_acl (set_db st db) acl)"
| Leave_Group: "mbb_group_get_by_name (sv_acl st) gname = Some grp \<Longrightarrow> dm_heap (acl_groups (sv_acl st)) grp = Some g \<Longrightarrow>
    mbb_user_get_by_name (sv_acl st) name = Some user \<Longrightarrow> dm_heap (acl_users (sv_acl st)) user = Some u \<Longrightarrow>
    g_id g \<le> MBB_CAP_WHEEL_ID \<longrightarrow> (\<exists>cap. mbb_thread_get_cap st t = Some cap \<and> MBB_CAP_IS_WHEEL cap) \<Longrightarrow>
    mbb_db_group_del_user (srv_db st) t (g_id g) (u_id u) = Some (db, True, e) \<Longrightarrow>
    mbb_group_del_user (sv_acl st) grp user = Some acl \<Longrightarrow>
    acl_change t ''mbb-group-del-user'' st (set_acl (set_db st db) acl)"

text \<open>A command answers without a change of users and groups, or makes one change and has no answer.\<close>

definition acl_outcome :: "thread_id \<Rightarrow> string \<Rightarrow> ('v, 'w, 'i) app_srv \<Rightarrow> ('v, 'w, 'i) app_srv \<times> xml_tag option \<Rightarrow> bool" where
  "acl_outcome t cmd st r \<longleftrightarrow> (\<exists>db a. r = (set_db st db, Some a)) \<or> acl_change t cmd st (fst r) \<and> snd r = None"

lemma acl_outcome_same [simp]: "acl_outcome t cmd st (st, Some a)"
  unfolding acl_outcome_def using set_db_same by metis

lemma acl_outcome_db [simp]: "acl_outcome t cmd st (set_db st db, Some a)"
  by (auto simp: acl_outcome_def)

lemma acl_outcome_done: "acl_outcome t cmd st (st', None) \<longleftrightarrow> acl_change t cmd st st'"
  by (simp add: acl_outcome_def)

lemma with_args_outcome:
  "with_args st tag xtv body = Some r \<Longrightarrow> (\<And>vs. body vs = Some r \<Longrightarrow> acl_outcome t cmd st r) \<Longrightarrow> acl_outcome t cmd st r"
  by (auto simp: with_args_def split: bind_splits sum.splits)

lemma mod_name_refused:
  "mbb_user_mod_name acl p n = Some (acl', False) \<Longrightarrow> acl' = acl"
  "mbb_group_mod_name acl p n = Some (acl', False) \<Longrightarrow> acl' = acl"
  by (auto simp: mbb_user_mod_name_def mbb_group_mod_name_def module_mod_name_def Let_def split: bind_splits option.splits if_splits)

lemmas outcome_dests = reply_msg_outcome reply_error_outcome mod_name_refused

lemma set_acl_same [simp]: "set_acl (set_db st db) (sv_acl st) = set_db st db"
  by (simp add: set_acl_def set_db_def)

lemma add_user_outcome:
  assumes "add_user p st t tag = Some r" "fresh_user_address (sv_acl st) p" "fresh_ids st t"
  shows "acl_outcome t ''mbb-add-user'' st r"
  by (rule with_args_outcome [OF assms(1) [unfolded add_user_def]])
    (use assms(2,3) in \<open>auto simp: Let_def acl_outcome_done not_less fresh_ids_def split: bind_splits if_splits dest!: outcome_dests;
      blast intro: Add_User\<close>)

lemma drop_user_outcome: "drop_user st t tag = Some r \<Longrightarrow> acl_outcome t ''mbb-drop-user'' st r"
  unfolding drop_user_def
  by (erule with_args_outcome)
    (auto simp: Let_def acl_outcome_done split: bind_splits if_splits option.splits dest!: outcome_dests;
      blast intro: Drop_User)

lemma user_mod_name_outcome: "user_mod_name st t tag = Some r \<Longrightarrow> acl_outcome t ''mbb-user-mod-name'' st r"
  unfolding user_mod_name_def
  by (erule with_args_outcome)
    (auto simp: Let_def acl_outcome_done split: bind_splits if_splits option.splits dest!: outcome_dests;
      blast intro: Rename_User)

lemma group_mod_name_outcome: "group_mod_name st t tag = Some r \<Longrightarrow> acl_outcome t ''mbb-group-mod-name'' st r"
  unfolding group_mod_name_def
  by (erule with_args_outcome)
    (auto simp: Let_def acl_outcome_done split: bind_splits if_splits option.splits dest!: outcome_dests;
      blast intro: Rename_Group)

lemma group_do_user_outcome:
  "group_do_user add st t tag = Some r \<Longrightarrow> acl_outcome t (if add then ''mbb-group-add-user'' else ''mbb-group-del-user'') st r"
  unfolding group_do_user_def
  by (erule with_args_outcome, cases add)
    (auto simp: Let_def acl_outcome_done split: bind_splits if_splits option.splits dest!: outcome_dests;
      blast intro: Join_Group Leave_Group)+

lemma change_pass_outcome:
  assumes "change_pass st t user pass = Some (st', ok, e)"
  shows "if ok then \<exists>u db secret acl. dm_heap (acl_users (sv_acl st)) user = Some u \<and>
       mbb_db_user_mod_pass (srv_db st) t (u_id u) secret = Some (db, True, e) \<and>
       mbb_user_mod_pass (sv_acl st) user secret = Some acl \<and> st' = set_acl (set_db st db) acl
     else \<exists>db. st' = set_db st db"
  using assms by (auto simp: change_pass_def Let_def split: bind_splits if_splits; blast)

lemma user_mod_pass_outcome: "user_mod_pass st t tag = Some r \<Longrightarrow> acl_outcome t ''mbb-user-mod-pass'' st r"
  unfolding user_mod_pass_def
  by (erule with_args_outcome)
    (auto simp: acl_outcome_done split: bind_splits if_splits option.splits dest!: outcome_dests change_pass_outcome;
      blast intro: Set_Pass)

lemma self_mod_pass_outcome: "self_mod_pass st t tag = Some r \<Longrightarrow> acl_outcome t ''mbb-self-mod-pass'' st r"
  unfolding self_mod_pass_def
  by (erule with_args_outcome)
    (auto simp: acl_outcome_done split: bind_splits if_splits option.splits dest!: outcome_dests change_pass_outcome;
      blast intro: Own_Pass)

text \<open>The commands of the two files: their names, handlers and capabilities, as they are registered.\<close>

definition acl_commands :: "gpointer \<Rightarrow> ht_order \<Rightarrow> xtv_env \<Rightarrow> (string \<times> ('v, 'w, 'i) handler \<times> guint32) list" where
  "acl_commands p ord env =
     [(''mbb-show-users'', show_users ord env, MBB_CAP_ADMIN),
      (''mbb-user-show-groups'', user_show_groups, MBB_CAP_ADMIN),
      (''mbb-self-show-groups'', self_show_groups, -1),
      (''mbb-add-user'', add_user p, MBB_CAP_ADMIN),
      (''mbb-user-mod-name'', user_mod_name, MBB_CAP_ADMIN),
      (''mbb-user-mod-pass'', user_mod_pass, MBB_CAP_ADMIN),
      (''mbb-self-mod-pass'', self_mod_pass, MBB_CAP_ALL),
      (''mbb-drop-user'', drop_user, MBB_CAP_WHEEL),
      (''mbb-show-groups'', show_groups ord, MBB_CAP_ADMIN),
      (''mbb-group-show-users'', group_show_users ord, MBB_CAP_ADMIN),
      (''mbb-group-mod-name'', group_mod_name, MBB_CAP_WHEEL),
      (''mbb-group-add-user'', group_add_user, MBB_CAP_ADMIN),
      (''mbb-group-del-user'', group_del_user, MBB_CAP_ADMIN)]"

lemma show_outcome:
  "show_users ord env st t tag = Some r \<Longrightarrow> acl_outcome t cmd st r" "user_show_groups st t tag = Some r \<Longrightarrow> acl_outcome t cmd st r"
  "self_show_groups st t tag = Some r \<Longrightarrow> acl_outcome t cmd st r" "show_groups ord st t tag = Some r \<Longrightarrow> acl_outcome t cmd st r"
  "group_show_users ord st t tag = Some r \<Longrightarrow> acl_outcome t cmd st r"
  unfolding show_users_def user_show_groups_def self_show_groups_def show_groups_def group_show_users_def
  by (auto elim!: with_args_outcome split: bind_splits option.splits dest!: outcome_dests)

lemmas handler_outcomes = show_outcome drop_user_outcome user_mod_name_outcome user_mod_pass_outcome self_mod_pass_outcome
  group_mod_name_outcome group_do_user_outcome [of True, simplified] group_do_user_outcome [of False, simplified]

lemma acl_commands_outcome:
  assumes cmd: "(name, h, cap) \<in> set (acl_commands p ord env)" and run: "h st t tag = Some (st', ans)"
    and fresh: "fresh_user_address (sv_acl st) p" "fresh_ids st t"
  shows "acl_outcome t name st (st', ans)"
  using cmd run add_user_outcome [OF _ fresh, of tag "(st', ans)"]
  by (auto simp: acl_commands_def group_add_user_def group_del_user_def dest: handler_outcomes)

text \<open>
  C20. Every command on users and groups does one of two things: it answers and leaves users
  and groups as they are, or it makes exactly one of the specified changes, after the
  database has recorded it, and has no answer. Nothing else of the server changes. The
  allocator gives a fresh address, the database a number that no user and no group has.
\<close>

theorem acl_commands_refine:
  assumes cmd: "(name, h, cap) \<in> set (acl_commands p ord env)" and run: "h st t tag = Some (st', ans)"
    and fresh: "fresh_user_address (sv_acl st) p" "fresh_ids st t"
  shows "(\<exists>db a. st' = set_db st db \<and> ans = Some a) \<or> acl_change t name st st' \<and> ans = None"
  using acl_commands_outcome [OF assms] by (simp add: acl_outcome_def)

text \<open>A user who is not root changes the own password only by giving the old one.\<close>

lemma self_mod_pass_guard:
  assumes "self_mod_pass st t tag = Some (st', None)" "mbb_thread_get_uid st t = Some uid" "mbb_user_get_by_id (sv_acl st) uid = Some user"
    "dm_heap (acl_users (sv_acl st)) user = Some u" "u_secret u = Some s" "mbb_thread_get_cap st t = Some cap" "\<not> MBB_CAP_IS_ROOT cap"
  shows "\<exists>new. mbb_xtv_call_z tag [(xtv_newsecret_value, False), (xtv_secret_value, True)] = Some (Inr [new, Some (XV_Str s)])"
  using assms
  by (auto simp: self_mod_pass_def with_args_def g_strcmp0_zero xv_str_def reply_msg_def reply_error_def
    split: bind_splits sum.splits list.splits option.splits if_splits xv.splits)

section \<open>The registries stay consistent\<close>

text \<open>The registries and the memberships agree, and groups have the numbers of capability bits.\<close>

definition acl_inv :: "acl \<Rightarrow> gpointer set \<Rightarrow> gpointer set \<Rightarrow> bool" where
  "acl_inv acl U G \<longleftrightarrow> acl_ok acl U G \<and> members_ok acl U G \<and>
     (\<forall>grp \<in> G. \<forall>g. dm_heap (acl_groups acl) grp = Some g \<longrightarrow> 0 \<le> g_id g \<and> g_id g < 32)"

lemma get_user_by_name:
  "acl_ok acl U G \<Longrightarrow> mbb_user_get_by_name acl n = Some p \<longleftrightarrow> p \<in> U \<and> (\<exists>u. dm_heap (acl_users acl) p = Some u \<and> u_name u = n)"
  using users.get_by_name [of "acl_users acl" U n p] by (simp add: acl_ok_def user_entries_def mbb_user_get_by_name_def)

lemma get_user_by_id:
  "acl_ok acl U G \<Longrightarrow> mbb_user_get_by_id acl i = Some p \<longleftrightarrow> p \<in> U \<and> (\<exists>u. dm_heap (acl_users acl) p = Some u \<and> u_id u = i)"
  using users.get_by_id [of "acl_users acl" U i p] by (simp add: acl_ok_def user_entries_def mbb_user_get_by_id_def)

lemma get_group_by_name:
  "acl_ok acl U G \<Longrightarrow> mbb_group_get_by_name acl n = Some p \<longleftrightarrow> p \<in> G \<and> (\<exists>g. dm_heap (acl_groups acl) p = Some g \<and> g_name g = n)"
  using groups.get_by_name [of "acl_groups acl" G n p] by (simp add: acl_ok_def group_entries_def mbb_group_get_by_name_def)

lemma set_user_elsewhere: "module_ok user_entries (acl_users acl) U \<Longrightarrow> p \<notin> U \<Longrightarrow> module_ok user_entries (acl_users (set_user acl p x)) U"
  by (auto simp: module_ok_def intro: links_heap_update split: option.splits)

lemma add_user_inv:
  assumes inv: "acl_inv acl U G" and new: "mbb_user_get_by_name acl name = None" "dm_heap (acl_users acl) p = None" "fresh_user_id acl i"
    and join: "mbb_user_join (set_user acl p (Some (mbb_user_new i name secret))) p = Some acl'"
  shows "acl_inv acl' (insert p U) G"
proof -
  let ?acl = "set_user acl p (Some (mbb_user_new i name secret))"
  have U: "module_ok user_entries (acl_users acl) U" using inv by (simp add: acl_inv_def acl_ok_def)
  have pU: "p \<notin> U" using U new(2) by (auto simp: module_ok_def)
  have U': "module_ok user_entries (acl_users ?acl) U"
    using U pU by (rule set_user_elsewhere)
  have "u_name u \<noteq> name" if "q \<in> U" "dm_heap (acl_users acl) q = Some u" for q u
    using that new(1) get_user_by_name [of acl U G name q] inv by (auto simp: acl_inv_def)
  then have "fresh_keys user_entries (dm_heap (acl_users ?acl)) U p (mbb_user_new i name secret)"
    using new(3) pU unfolding user_entries_def users.fresh_std by (auto simp: mbb_user_new_def fresh_user_id_def)
  from module_join_ok [OF U' _ this] join obtain us where us: "module_ok user_entries us (insert p U)"
      "dm_heap us = dm_heap (acl_users ?acl)" "acl' = ?acl\<lparr>acl_users := us\<rparr>"
    by (auto simp: mbb_user_join_def)
  have "bit (u_cap_mask (mbb_user_new i name secret)) n = False" for n by (simp add: mbb_user_new_def)
  then show ?thesis
    using inv us new(3) pU by (auto simp: acl_inv_def acl_ok_def members_ok_def fresh_user_id_def mbb_user_new_def split: if_splits)
qed

lemma remove_user_inv:
  assumes inv: "acl_inv acl U G" and usr: "usr \<in> U" and rem: "mbb_user_remove acl usr = Some acl'"
  shows "acl_inv acl' (U - {usr}) G"
proof -
  obtain u where u: "dm_heap (acl_users acl) usr = Some u" using rem by (auto simp: mbb_user_remove_def split: bind_splits)
  let ?a = "set_user acl usr (Some (u\<lparr>u_cap_mask := 0\<rparr>))"
  have ok: "acl_ok ?a U G" using set_user_ok [of acl U G usr u] inv u by (simp add: acl_inv_def)
  then obtain us where us: "module_detach user_entries (acl_users ?a) usr = Some us" "module_ok user_entries us (U - {usr})"
      "dm_heap us = dm_heap (acl_users ?a)"
    using module_detach_ok [of user_entries "acl_users ?a" U usr] by (auto simp: acl_ok_def user_entries_def)
  have "dm_link (acl_users acl) \<noteq> None" using ok usr by (auto simp: acl_ok_def module_ok_def split: option.splits)
  then obtain x where acl': "acl' = set_user (?a\<lparr>acl_users := us\<rparr>) usr x"
    using rem u us(1,3) by (auto simp: mbb_user_remove_def mbb_user_detach_def mbb_user_unref_def detach_loop.simps [of usr 0 0] split: bind_splits)
  have "module_ok user_entries (acl_users acl') (U - {usr})"
    unfolding acl' by (rule set_user_elsewhere) (simp_all add: us(2))
  moreover have "dm_heap (acl_users acl') q = dm_heap (acl_users acl) q" if "q \<noteq> usr" for q
    using that us(3) by (simp add: acl')
  moreover have "acl_groups acl' = acl_groups acl" by (simp add: acl')
  ultimately show ?thesis using inv by (auto simp: acl_inv_def acl_ok_def members_ok_def)
qed

lemma mod_name_inv:
  "acl_inv acl U G \<Longrightarrow> p \<in> U \<Longrightarrow> mbb_user_mod_name acl p n = Some (acl', True) \<Longrightarrow> acl_inv acl' U G"
  "acl_inv acl U G \<Longrightarrow> p \<in> G \<Longrightarrow> mbb_group_mod_name acl p n = Some (acl', True) \<Longrightarrow> acl_inv acl' U G"
proof -
  assume inv: "acl_inv acl U G" and p: "p \<in> U" and r: "mbb_user_mod_name acl p n = Some (acl', True)"
  obtain u where u: "dm_heap (acl_users acl) p = Some u" using inv p by (auto simp: acl_inv_def acl_ok_def module_ok_def)
  from users.mod_name [of "acl_users acl" U p u n] p u inv r obtain us where
    us: "module_ok user_entries us U" "dm_heap us = (dm_heap (acl_users acl))(p \<mapsto> u\<lparr>u_name := n\<rparr>)" "acl' = acl\<lparr>acl_users := us\<rparr>"
    by (fastforce simp: mbb_user_mod_name_def user_entries_def acl_inv_def acl_ok_def)
  with inv u show "acl_inv acl' U G" by (auto simp: acl_inv_def acl_ok_def members_ok_def split: if_splits)
next
  assume inv: "acl_inv acl U G" and p: "p \<in> G" and r: "mbb_group_mod_name acl p n = Some (acl', True)"
  obtain g where g: "dm_heap (acl_groups acl) p = Some g" using inv p by (auto simp: acl_inv_def acl_ok_def module_ok_def)
  from groups.mod_name [of "acl_groups acl" G p g n] p g inv r obtain gs where
    gs: "module_ok group_entries gs G" "dm_heap gs = (dm_heap (acl_groups acl))(p \<mapsto> g\<lparr>g_name := n\<rparr>)" "acl' = acl\<lparr>acl_groups := gs\<rparr>"
    by (fastforce simp: mbb_group_mod_name_def group_entries_def acl_inv_def acl_ok_def)
  with inv g show "acl_inv acl' U G"
    by (auto simp: acl_inv_def acl_ok_def members_ok_def mbb_group_has_user_def split: if_splits)
qed

lemma mod_pass_inv: "acl_inv acl U G \<Longrightarrow> mbb_user_mod_pass acl p s = Some acl' \<Longrightarrow> acl_inv acl' U G"
proof -
  assume inv: "acl_inv acl U G" and r: "mbb_user_mod_pass acl p s = Some acl'"
  then obtain u where u: "dm_heap (acl_users acl) p = Some u" "acl' = set_user acl p (Some (u\<lparr>u_secret := s\<rparr>))"
    by (auto simp: mbb_user_mod_pass_def split: bind_splits)
  then have "acl_ok acl' U G" using set_user_ok [of acl U G p u "u\<lparr>u_secret := s\<rparr>"] inv by (simp add: acl_inv_def)
  with inv u show ?thesis by (auto simp: acl_inv_def members_ok_def split: if_splits)
qed

lemma group_ids_kept:
  assumes "mbb_group_add_user acl grp usr = Some acl' \<or> mbb_group_del_user acl grp usr = Some acl'" "dm_heap (acl_groups acl') q = Some g'"
  shows "\<exists>g. dm_heap (acl_groups acl) q = Some g \<and> g_id g = g_id g'"
  using assms by (auto simp: mbb_group_add_user_def mbb_group_del_user_def Let_def split: bind_splits option.splits if_splits)

lemma membership_inv:
  assumes inv: "acl_inv acl U G" and p: "grp \<in> G" "usr \<in> U"
    and r: "mbb_group_add_user acl grp usr = Some acl' \<or> mbb_group_del_user acl grp usr = Some acl'"
  shows "acl_inv acl' U G"
proof -
  have "dm_heap (acl_groups acl) grp \<noteq> None" "dm_heap (acl_users acl) usr \<noteq> None"
    using inv p by (auto simp: acl_inv_def acl_ok_def module_ok_def)
  then obtain g u where "dm_heap (acl_groups acl) grp = Some g" "dm_heap (acl_users acl) usr = Some u" by auto
  then have "acl_ok acl' U G \<and> members_ok acl' U G"
    using group_add_user_ok [of acl U G grp usr g u] group_del_user_ok [of acl U G grp usr g u] inv p r
    by (auto simp: acl_inv_def)
  with inv group_ids_kept [OF r] show ?thesis by (force simp: acl_inv_def)
qed

lemma acl_change_inv:
  assumes "acl_change t cmd st st'" "acl_inv (sv_acl st) U G"
  shows "\<exists>U'. acl_inv (sv_acl st') U' G"
proof -
  have ok: "acl_ok (sv_acl st) U G" using assms(2) by (simp add: acl_inv_def)
  note get = get_user_by_name [OF ok] get_group_by_name [OF ok]
  from assms(1) show ?thesis
  proof cases
    case (Add_User name secret db i e p acl)
    with add_user_inv [OF assms(2), of name p i secret acl] show ?thesis by (auto simp: fresh_user_address_def)
  next
    case (Drop_User name user u db e acl)
    with remove_user_inv [OF assms(2), of user acl] show ?thesis by (auto simp: get)
  next
    case (Rename_User name user u newname db e acl)
    with mod_name_inv(1) [OF assms(2), of user newname acl] show ?thesis by (auto simp: get)
  next
    case (Set_Pass name user u secret db e acl)
    with mod_pass_inv [OF assms(2), of user secret acl] show ?thesis by auto
  next
    case (Own_Pass uid user u secret db e acl)
    with mod_pass_inv [OF assms(2), of user secret acl] show ?thesis by auto
  next
    case (Rename_Group name grp g newname db e acl)
    with mod_name_inv(2) [OF assms(2), of grp newname acl] show ?thesis by (auto simp: get)
  next
    case (Join_Group gname grp g name user u db e acl)
    with membership_inv [OF assms(2), of grp user acl] show ?thesis by (auto simp: get)
  next
    case (Leave_Group gname grp g name user u db e acl)
    with membership_inv [OF assms(2), of grp user acl] show ?thesis by (auto simp: get)
  qed
qed


section \<open>Root and wheel\<close>

text \<open>The bits of the groups root and wheel in the mask of a user; 0 where there is no user.\<close>

definition wheel_bits :: "acl \<Rightarrow> gpointer \<Rightarrow> guint32" where
  "wheel_bits acl p = (case dm_heap (acl_users acl) p of None \<Rightarrow> 0 | Some u \<Rightarrow> u_cap_mask u AND 3)"

lemma bit_3_iff: "bit (3 :: guint32) i \<longleftrightarrow> i < 2"
proof -
  have "(3 :: guint32) = 1 OR push_bit 1 1" by simp
  then show ?thesis by (simp only: bit_or_iff bit_push_bit_iff bit_1_iff) auto
qed

lemma and_3_other_bit:
  assumes "n \<ge> 2"
  shows "(m OR 2 ^ n) AND 3 = (m AND 3 :: guint32)" "(m AND NOT (2 ^ n)) AND 3 = (m AND 3 :: guint32)"
  using assms bit_3_iff [of n] by (auto intro!: bit_word_eqI simp: bit_and_iff bit_or_iff bit_not_iff bit_exp_iff)

text \<open>Only the removal of a user changes these bits without asking for the capability.\<close>

lemma acl_change_wheel:
  assumes "acl_change t cmd st st'" "cmd \<noteq> ''mbb-drop-user''" "\<not> (\<exists>cap. mbb_thread_get_cap st t = Some cap \<and> MBB_CAP_IS_WHEEL cap)"
  shows "wheel_bits (sv_acl st') p = wheel_bits (sv_acl st) p"
  using assms(1)
proof cases
  case (Add_User name secret db i e q acl)
  then show ?thesis
    by (auto simp: mbb_user_join_def module_join_def wheel_bits_def mbb_user_new_def fresh_user_address_def Let_def split: bind_splits)
next
  case (Drop_User name user u db e acl)
  with assms(2) show ?thesis by simp
next
  case (Rename_User name user u newname db e acl)
  then show ?thesis
    by (auto simp: mbb_user_mod_name_def module_mod_name_def wheel_bits_def Let_def split: bind_splits option.splits if_splits)
next
  case (Set_Pass name user u secret db e acl)
  then show ?thesis by (auto simp: mbb_user_mod_pass_def wheel_bits_def)
next
  case (Own_Pass uid user u secret db e acl)
  then show ?thesis by (auto simp: mbb_user_mod_pass_def wheel_bits_def)
next
  case (Rename_Group name grp g newname db e acl)
  then show ?thesis
    by (auto simp: mbb_group_mod_name_def wheel_bits_def Let_def split: bind_splits)
next
  case (Join_Group gname grp g name user u db e acl)
  then have "nat (g_id g) \<ge> 2" using assms(3) by (auto simp: MBB_CAP_WHEEL_ID_def)
  with Join_Group show ?thesis
    by (auto simp: mbb_group_add_user_def wheel_bits_def and_3_other_bit Let_def split: if_splits)
next
  case (Leave_Group gname grp g name user u db e acl)
  then have "nat (g_id g) \<ge> 2" using assms(3) by (auto simp: MBB_CAP_WHEEL_ID_def)
  with Leave_Group show ?thesis
    by (auto simp: mbb_group_del_user_def wheel_bits_def and_3_other_bit Let_def split: if_splits option.splits)
qed

text \<open>The commands of a list are registered: built in, with their code and their capabilities.\<close>

definition serves :: "('v, 'w, 'i) app command_code \<Rightarrow> ('v, 'w, 'i) app_srv \<Rightarrow> (string \<times> ('v, 'w, 'i) handler \<times> guint32) list \<Rightarrow> bool" where
  "serves code st cmds \<longleftrightarrow> (\<forall>(name, h, cap) \<in> set cmds. \<exists>fs f. ht_lookup (sv_func_ht st) name = Some fs \<and>
     sv_funcs st fs = Some f \<and> fs_cap_mask f = cap \<and> fs_module f = None \<and> (\<forall>t tag s. code (fs_func f) t tag s = h s t tag))"

lemma unuse_keeps: "mbb_module_unuse st t md = Some st' \<Longrightarrow> sv_acl st' = sv_acl st \<and> sv_mem st' = sv_mem st"
  by (auto simp: mbb_module_unuse_def module_unuse_def set_module_def Let_def split: option.splits bind_splits)

lemma func_call_served:
  assumes srv: "serves code st cmds" and cmd: "(name, h, c) \<in> set cmds" and cap: "mbb_thread_get_cap st t = Some cap"
    and call: "mbb_func_call code st t name tag = Some (st', r)"
  shows "if mbb_cap_check cap c
     then \<exists>st2 ans. h st t tag = Some (st2, ans) \<and> r = Some ans \<and> sv_acl st' = sv_acl st2 \<and> sv_mem st' = sv_mem st2
     else st' = st \<and> r = None"
proof -
  obtain fs f where f: "ht_lookup (sv_func_ht st) name = Some fs" "sv_funcs st fs = Some f" "fs_cap_mask f = c" "fs_module f = None"
      "\<And>t tag s. code (fs_func f) t tag s = h s t tag"
    using srv cmd by (fastforce simp: serves_def)
  show ?thesis
  proof (cases "mbb_cap_check cap c")
    case True
    then have "mbb_func_search st t name cap = Some (st, Some fs)"
      using f by (simp add: mbb_func_search_def mbb_module_use_def module_use_def)
    with True call cap f(2,5) show ?thesis
      by (auto simp: mbb_func_call_def dest!: unuse_keeps split: bind_splits)
  next
    case False
    then have "mbb_func_search st t name cap = Some (st, None)" using f by (simp add: mbb_func_search_def)
    with False call cap show ?thesis by (simp add: mbb_func_call_def)
  qed
qed

lemma not_wheel_check: "\<not> MBB_CAP_IS_WHEEL cap \<Longrightarrow> \<not> mbb_cap_check cap MBB_CAP_WHEEL"
  by (auto simp: MBB_CAP_IS_WHEEL_def mbb_cap_check_def MBB_CAP_WHEEL_def MBB_CAP_DUMMY_def split: if_splits)

text \<open>
  C22. A user who is not in the groups root or wheel cannot change who is in them: whichever
  command on users and groups such a user calls, with whatever request, the bits of the two
  groups stay the same in the masks of all users, and a user created by the call has none of
  them. This rests on the guard of the membership commands and on the capability that the
  server asks for before it removes a user.
\<close>

theorem root_membership_protected:
  fixes h :: "('v, 'w, 'i) handler" and st :: "('v, 'w, 'i) app_srv"
  assumes srv: "serves code st (acl_commands p ord env)" and cmd: "(name, h, c) \<in> set (acl_commands p ord env)"
    and fresh: "fresh_user_address (sv_acl st) p" "fresh_ids st t"
    and cap: "mbb_thread_get_cap st t = Some cap" "\<not> MBB_CAP_IS_WHEEL cap"
    and call: "mbb_func_call code st t name tag = Some (st', r)"
  shows "wheel_bits (sv_acl st') q = wheel_bits (sv_acl st) q"
proof (cases "mbb_cap_check cap c")
  case False
  then show ?thesis using func_call_served [OF srv cmd cap(1) call] by simp
next
  case True
  then obtain st2 ans where h: "h st t tag = Some (st2, ans)" "sv_acl st' = sv_acl st2"
    using func_call_served [OF srv cmd cap(1) call] by auto
  have "name \<noteq> ''mbb-drop-user''" using True cmd not_wheel_check [OF cap(2)] by (auto simp: acl_commands_def)
  moreover have "acl_outcome t name st (st2, ans)"
    by (rule acl_commands_outcome [OF cmd h(1) fresh])
  ultimately show ?thesis using h(2) acl_change_wheel [of t name st st2 q] cap by (auto simp: acl_outcome_def)
qed

section \<open>A concrete server\<close>

text \<open>Registration of a list of built-in commands; the address of a function is its position.\<close>

definition register_commands :: "('v, 'w, 'i) app_srv \<Rightarrow> (string \<times> ('v, 'w, 'i) handler \<times> guint32) list \<Rightarrow> ('v, 'w, 'i) app_srv" where
  "register_commands st cmds =
     st\<lparr>sv_func_ht := Some (zip (map fst cmds) (map of_nat [0 ..< length cmds])),
        sv_funcs := (\<lambda>q. if unat q < length cmds
          then (case cmds ! unat q of (name, h, cap) \<Rightarrow> Some \<lparr>fs_name = name, fs_func = q, fs_cap_mask = cap, fs_module = None\<rparr>)
          else None)\<rparr>"

definition table_code :: "(string \<times> ('v, 'w, 'i) handler \<times> guint32) list \<Rightarrow> ('v, 'w, 'i) app command_code" where
  "table_code cmds f t tag st = (fst (snd (cmds ! unat f))) st t tag"

lemma serves_registered:
  assumes "distinct (map fst cmds)" "length cmds < 2 ^ 64"
  shows "serves (table_code cmds) (register_commands st cmds) cmds"
  unfolding serves_def
proof clarify
  fix name h cap
  assume "(name, h, cap) \<in> set cmds"
  then obtain k where k: "k < length cmds" "cmds ! k = (name, h, cap)" by (metis in_set_conv_nth)
  have u: "unat (of_nat k :: gpointer) = k" using k(1) assms(2) by (simp add: unat_of_nat take_bit_nat_eq_self)
  have "map_of (zip (map fst cmds) (map of_nat [0 ..< length cmds])) (map fst cmds ! k) = Some (of_nat k)"
    using map_of_zip_nth [of "map fst cmds" "map of_nat [0 ..< length cmds]" k] assms(1) k(1) by simp
  then have "ht_lookup (sv_func_ht (register_commands st cmds)) name = Some (of_nat k)"
    using k by (simp add: register_commands_def ht_lookup_def)
  moreover have "sv_funcs (register_commands st cmds) (of_nat k) =
      Some \<lparr>fs_name = name, fs_func = of_nat k, fs_cap_mask = cap, fs_module = None\<rparr>"
    using k u by (simp add: register_commands_def)
  moreover have "table_code cmds (of_nat k) t tag s = h s t tag" for t tag s using k u by (simp add: table_code_def)
  ultimately show "\<exists>fs f. ht_lookup (sv_func_ht (register_commands st cmds)) name = Some fs \<and>
      sv_funcs (register_commands st cmds) fs = Some f \<and> fs_cap_mask f = cap \<and> fs_module f = None \<and>
      (\<forall>t tag s. table_code cmds (fs_func f) t tag s = h s t tag)" by force
qed

text \<open>The server with the user \<open>bob\<close>, who is logged in as thread 0 and in the group \<open>admin\<close>.\<close>

definition asrv0 :: "(unit, string list, unit mbb_db_iter) app_srv" where
  "asrv0 = \<lparr>sv_mem = \<lparr>ap_vars = (), ap_net = net0, ap_acc = account0, ap_db = dbs0\<rparr>, sv_acl = acl0,
     sv_threads = [0 \<mapsto> \<lparr>te_sid = 1, te_ss = 50\<rparr>],
     sv_sessions = [50 \<mapsto> \<lparr>ss_user = Some 100, ss_peer = None, ss_port = 0, ss_type = MBB_SESSION_XML, ss_start = 0,
       ss_mtime = 0, ss_killed = False, ss_kill_msg = None, ss_vars = [], ss_cached_vars = None\<rparr>],
     sv_session_id = 2, sv_session_ht = Some [(1, 50)], sv_var_queue = [], sv_vars = Map.empty, sv_var_ht = None,
     sv_cache_global = None, sv_modules = \<lparr>dm_link = None, dm_heap = Map.empty\<rparr>, sv_infos = Map.empty,
     sv_cur_info = None, sv_mod_key = \<lambda>_. None, sv_funcs = Map.empty, sv_func_ht = None,
     sv_auth_methods = None, sv_auth_heap = Map.empty, sv_auth_keys = None, sv_key_lifetime = 60\<rparr>"

definition env0 :: xtv_env where
  "env0 = \<lparr>xe_cal = \<lparr>cal_now = 0, cal_strptime = (\<lambda>_ _ _. None), cal_date_valid_dmy = (\<lambda>_ _ _. True), cal_mktime = (\<lambda>_. 0)\<rparr>, xe_re_new = (\<lambda>_. None)\<rparr>"

definition pass_request :: xml_tag where
  "pass_request = Xml_Tag ''request'' [] None
     [(''name'', [Xml_Tag ''name'' [(''value'', VARIANT_STRING (Some ''bob''))] None []]),
      (''newsecret'', [Xml_Tag ''newsecret'' [(''value'', VARIANT_STRING (Some ''x''))] None []])]"

lemma pass_args: "mbb_xtv_call_z pass_request [(xtv_name_value, False), (xtv_newsecret_value, False)] =
    Some (Inr [Some (XV_Str ''bob''), Some (XV_Str ''x'')])"
  by (simp add: pass_request_def mbb_xtv_call_z_def xml_tag_get_valuesv_def xtv_name_value_def xtv_newsecret_value_def
      xtv_entry_def xml_tag_path_attr_def xml_tag_path_def g_strsplit_def xml_tag_get_child_def xml_tag_get_attr_def
      variant_get_string_def var_conv_str_def)

lemma asrv0_simps [simp]:
  "sv_acl asrv0 = acl0" "srv_db asrv0 = dbs0" "dm_heap (acl_users acl0) 100 = Some bob" "dm_heap (acl_users acl0) 101 = None"
  "mbb_user_get_by_name acl0 ''bob'' = Some 100"
  "u_id bob = 5" "mbb_thread_get_cap asrv0 0 = Some 16"
  by (simp_all add: asrv0_def acl0_def mbb_user_get_by_name_def module_get_def data_link_lookup_def bob_def
      mbb_thread_get_cap_def mbb_thread_get_user_def)

lemma db_mod_pass: "\<exists>db. mbb_db_user_mod_pass dbs0 t 5 (Some ''x'') = Some (db, True, None)"
  by (simp add: mbb_db_user_mod_pass_def statement_defs dbs0_defs)

lemma user_mod_pass_run:
  assumes "sv_acl st = acl0" "srv_db st = dbs0"
  shows "\<exists>db. user_mod_pass st 0 pass_request = Some (set_acl (set_db st db) (set_user acl0 100 (Some (bob\<lparr>u_secret := Some ''x''\<rparr>))), None)"
  using db_mod_pass [of 0] assms
  by (auto simp: user_mod_pass_def with_args_def pass_args xv_str_def change_pass_def mbb_user_mod_pass_def)

lemma fresh_ids0: "fresh_ids asrv0 t"
  using fetch_inserted0 [of t]
  by (auto simp: fresh_ids_def mbb_db_user_add_def mbb_db_insert_ret_def split: option.splits bind_splits dest: leD)

theorem acl_commands_refine_witness:
  "\<exists>st'. user_mod_pass asrv0 0 pass_request = Some (st', None) \<and> acl_change 0 ''mbb-user-mod-pass'' asrv0 st'"
proof -
  obtain st' where r: "user_mod_pass asrv0 0 pass_request = Some (st', None)" using user_mod_pass_run [of asrv0] by auto
  have "(''mbb-user-mod-pass'', user_mod_pass, MBB_CAP_ADMIN) \<in> set (acl_commands 101 (\<lambda>_. []) env0)"
    by (simp add: acl_commands_def)
  from acl_commands_refine [OF this r _ fresh_ids0] r show ?thesis by (auto simp: fresh_user_address_def)
qed


definition cmds0 :: "(string \<times> (unit, string list, unit mbb_db_iter) handler \<times> guint32) list" where
  "cmds0 = acl_commands 101 (\<lambda>_. []) env0"

lemma serves0: "serves (table_code cmds0) (register_commands asrv0 cmds0) cmds0"
  by (rule serves_registered) (simp_all add: cmds0_def acl_commands_def)

theorem root_membership_protected_witness:
  "\<exists>st' r. mbb_func_call (table_code cmds0) (register_commands asrv0 cmds0) 0 ''mbb-user-mod-pass'' pass_request = Some (st', r) \<and>
     wheel_bits (sv_acl st') 100 = 0"
proof -
  let ?st = "register_commands asrv0 cmds0"
  have st: "sv_acl ?st = acl0" "srv_db ?st = dbs0" "mbb_thread_get_cap ?st 0 = Some 16"
    using asrv0_simps(7)
    by (simp_all add: register_commands_def mbb_thread_get_cap_def mbb_thread_get_user_def cong: option.case_cong)
  have cmd: "(''mbb-user-mod-pass'', user_mod_pass, MBB_CAP_ADMIN) \<in> set cmds0" by (simp add: cmds0_def acl_commands_def)
  obtain fs f where f: "ht_lookup (sv_func_ht ?st) ''mbb-user-mod-pass'' = Some fs" "sv_funcs ?st fs = Some f"
      "fs_cap_mask f = MBB_CAP_ADMIN" "fs_module f = None" "\<And>t tag s. table_code cmds0 (fs_func f) t tag s = user_mod_pass s t tag"
    using serves0 cmd by (fastforce simp: serves_def)
  have "mbb_func_search ?st 0 ''mbb-user-mod-pass'' 16 = Some (?st, Some fs)"
    using f by (simp add: mbb_func_search_def mbb_module_use_def module_use_def mbb_cap_check_def MBB_CAP_ADMIN_def)
  then obtain st' r where c: "mbb_func_call (table_code cmds0) ?st 0 ''mbb-user-mod-pass'' pass_request = Some (st', r)"
    using user_mod_pass_run [OF st(1,2)] st(3) f
    by (auto simp: mbb_func_call_def set_acl_def set_db_def mbb_module_unuse_def module_unuse_def)
  have "fresh_ids ?st 0" using fresh_ids0 [of 0] st by (simp add: fresh_ids_def)
  moreover have "fresh_user_address (sv_acl ?st) 101" "\<not> MBB_CAP_IS_WHEEL 16"
    by (simp_all add: st fresh_user_address_def MBB_CAP_IS_WHEEL_def MBB_CAP_IS_ROOT_def MBB_CAP_WHEEL_def MBB_CAP_ROOT_def)
  ultimately have "wheel_bits (sv_acl st') 100 = wheel_bits (sv_acl ?st) 100"
    using root_membership_protected [of "table_code cmds0" ?st 101 "\<lambda>_. []" env0, folded cmds0_def, OF serves0 cmd _ _ st(3) _ c] by blast
  also have "\<dots> = 0" by (simp add: wheel_bits_def st) (simp add: bob_def)
  finally show ?thesis using c by blast
qed

end
