(* ===== verification/Net_Man.thy ===== *)
theory Net_Man
  imports Command
begin

text \<open>
  The commands on operators, gateways and their links: \<open>mbbd/mbboperatorman.c\<close>,
  \<open>mbbd/mbbgatewayman.c\<close> and \<open>mbbd/mbbgwlinkman.c\<close>. New objects live at the address \<open>p\<close> that the
  allocator gives; \<open>now\<close> is the result of \<open>time\<close>.
\<close>

section \<open>Definitions\<close>

subsection \<open>Operators\<close>

definition gather_operator :: "('v, 'w, 'i) app_srv \<Rightarrow> gpointer \<Rightarrow> xml_tag \<Rightarrow> xml_tag option" where
  "gather_operator st p tag =
     do { op \<leftarrow> dm_heap (nw_ops (srv_net st)) p;
          Some (xml_tag_add_child tag (xml_tag_new ''operator'' [(''name'', variant_new_string (Some (op_name op)))] None)) }"

definition show_operators :: "ht_order \<Rightarrow> ('v, 'w, 'i) handler" where
  "show_operators ord st t tag =
     do { ans \<leftarrow> gather_all (gather_operator st) (ord (mbb_operator_foreach (srv_net st))) mbb_xml_msg_ok; Some (st, Some ans) }"

definition add_operator :: "gpointer \<Rightarrow> ('v, 'w, 'i) handler" where
  "add_operator p st t tag =
     with_args st tag [(xtv_name_value, False)] (\<lambda>vs.
       do { name \<leftarrow> (case vs of [v] \<Rightarrow> xv_str v | _ \<Rightarrow> None);
            if mbb_operator_get_by_name (srv_net st) name \<noteq> None then reply_msg st MBB_MSG_NAME_EXISTS [PF_S (Some name)]
            else
              do { (db, i, e) \<leftarrow> mbb_db_operator_add (srv_db st) t name;
                   let st = set_db st db;
                   if i < 0 then reply_error st e
                   else
                     do { net \<leftarrow> mbb_operator_join (set_op (srv_net st) p (Some (mbb_operator_new i name))) p;
                          Some (set_net st net, None) } } })"

definition drop_operator :: "('v, 'w, 'i) handler" where
  "drop_operator st t tag =
     with_args st tag [(xtv_name_value, False)] (\<lambda>vs.
       do { name \<leftarrow> (case vs of [v] \<Rightarrow> xv_str v | _ \<Rightarrow> None);
            (case mbb_operator_get_by_name (srv_net st) name of
               None \<Rightarrow> reply_msg st MBB_MSG_UNKNOWN_OPERATOR []
             | Some op \<Rightarrow>
                 do { x \<leftarrow> dm_heap (nw_ops (srv_net st)) op;
                      if op_links x \<noteq> [] then reply_msg st MBB_MSG_HAS_CHILDS []
                      else
                        do { (db, ok, e) \<leftarrow> mbb_db_operator_drop (srv_db st) t (op_id x);
                             let st = set_db st db;
                             if \<not> ok then reply_error st e
                             else do { net \<leftarrow> mbb_operator_remove (srv_net st) op; Some (set_net st net, None) } } }) })"

definition operator_mod_name :: "('v, 'w, 'i) handler" where
  "operator_mod_name st t tag =
     with_args st tag [(xtv_name_value, False), (xtv_newname_value, False)] (\<lambda>vs.
       do { name \<leftarrow> (case vs of [n, _] \<Rightarrow> xv_str n | _ \<Rightarrow> None);
            newname \<leftarrow> (case vs of [_, n] \<Rightarrow> xv_str n | _ \<Rightarrow> None);
            (case mbb_operator_get_by_name (srv_net st) name of
               None \<Rightarrow> reply_msg st MBB_MSG_UNKNOWN_OPERATOR []
             | Some op \<Rightarrow>
                 if mbb_operator_get_by_name (srv_net st) newname \<noteq> None
                 then reply_msg st MBB_MSG_NAME_EXISTS [PF_S (Some newname)]
                 else
                   do { x \<leftarrow> dm_heap (nw_ops (srv_net st)) op;
                        (db, ok, e) \<leftarrow> mbb_db_operator_mod_name (srv_db st) t (op_id x) newname;
                        let st = set_db st db;
                        if \<not> ok then reply_error st e
                        else
                          do { (net, r) \<leftarrow> mbb_operator_mod_name (srv_net st) op newname;
                               let st = set_net st net;
                               if \<not> r then reply_msg st MBB_MSG_UNPOSSIBLE [] else Some (st, None) } }) })"

subsection \<open>Gateways\<close>

text \<open>
  The session variable \<open>@.gateway.ipview\<close> has the address \<open>gwiv_var\<close>; \<open>bool_at\<close> reads the
  boolean behind it.
\<close>

definition mbb_gwman_get_ipview ::
  "(gpointer \<Rightarrow> ('v, 'w, 'i) app \<Rightarrow> bool) \<Rightarrow> gpointer \<Rightarrow> ('v, 'w, 'i) app_srv \<Rightarrow> thread_id \<Rightarrow> (('v, 'w, 'i) app_srv \<times> bool) option" where
  "mbb_gwman_get_ipview bool_at gwiv_var st t =
     do { (st, data) \<leftarrow> mbb_session_var_get_data st t gwiv_var; Some (st, bool_at data (sv_mem st)) }"

definition gather_gateway :: "('v, 'w, 'i) app_srv \<Rightarrow> gpointer \<Rightarrow> xml_tag \<Rightarrow> xml_tag option" where
  "gather_gateway st p tag =
     do { gw \<leftarrow> dm_heap (nw_gws (srv_net st)) p;
          Some (xml_tag_add_child tag (xml_tag_new ''gateway''
            [(''name'', variant_new_string (Some (gw_name gw))),
             (''addr'', variant_new_alloc_string (Some (ipv4toa (gw_addr gw))))] None)) }"

definition show_gateways :: "ht_order \<Rightarrow> ('v, 'w, 'i) handler" where
  "show_gateways ord st t tag =
     do { ans \<leftarrow> gather_all (gather_gateway st) (ord (mbb_gateway_foreach (srv_net st))) mbb_xml_msg_ok; Some (st, Some ans) }"

definition add_gateway :: "gpointer \<Rightarrow> ('v, 'w, 'i) handler" where
  "add_gateway p st t tag =
     with_args st tag [(xtv_name_value, False), (xtv_addr_value, False)] (\<lambda>vs.
       do { name \<leftarrow> (case vs of [n, _] \<Rightarrow> xv_str n | _ \<Rightarrow> None);
            ip \<leftarrow> (case vs of [_, Some (XV_Ipv4 a)] \<Rightarrow> Some a | _ \<Rightarrow> None);
            if mbb_gateway_get_by_name (srv_net st) name \<noteq> None then reply_msg st MBB_MSG_NAME_EXISTS [PF_S (Some name)]
            else if mbb_gateway_get_by_addr (srv_net st) ip \<noteq> None
            then reply_msg st MBB_MSG_ADDR_EXISTS [PF_S (Some (ipv4toa ip))]
            else
              do { (db, i, e) \<leftarrow> mbb_db_gateway_add (srv_db st) t name ip;
                   let st = set_db st db;
                   if i < 0 then reply_error st e
                   else
                     do { net \<leftarrow> mbb_gateway_join (set_gw (srv_net st) p (Some (mbb_gateway_new i name ip))) p;
                          Some (set_net st net, None) } } })"

definition drop_gateway :: "('v, 'w, 'i) handler" where
  "drop_gateway st t tag =
     with_args st tag [(xtv_name_value, False)] (\<lambda>vs.
       do { name \<leftarrow> (case vs of [v] \<Rightarrow> xv_str v | _ \<Rightarrow> None);
            (case mbb_gateway_get_by_name (srv_net st) name of
               None \<Rightarrow> reply_msg st MBB_MSG_UNKNOWN_GATEWAY []
             | Some gw \<Rightarrow>
                 do { x \<leftarrow> dm_heap (nw_gws (srv_net st)) gw;
                      if mbb_gateway_nlink x \<noteq> 0 then reply_msg st MBB_MSG_HAS_CHILDS []
                      else
                        do { (db, ok, e) \<leftarrow> mbb_db_gateway_drop (srv_db st) t (gw_id x);
                             let st = set_db st db;
                             if \<not> ok then reply_error st e
                             else do { net \<leftarrow> mbb_gateway_remove (srv_net st) gw; Some (set_net st net, None) } } }) })"

definition gateway_mod_name :: "('v, 'w, 'i) handler" where
  "gateway_mod_name st t tag =
     with_args st tag [(xtv_name_value, False), (xtv_newname_value, False)] (\<lambda>vs.
       do { name \<leftarrow> (case vs of [n, _] \<Rightarrow> xv_str n | _ \<Rightarrow> None);
            newname \<leftarrow> (case vs of [_, n] \<Rightarrow> xv_str n | _ \<Rightarrow> None);
            (case mbb_gateway_get_by_name (srv_net st) name of
               None \<Rightarrow> reply_msg st MBB_MSG_UNKNOWN_GATEWAY []
             | Some gw \<Rightarrow>
                 if mbb_gateway_get_by_name (srv_net st) newname \<noteq> None
                 then reply_msg st MBB_MSG_NAME_EXISTS [PF_S (Some newname)]
                 else
                   do { x \<leftarrow> dm_heap (nw_gws (srv_net st)) gw;
                        (db, ok, e) \<leftarrow> mbb_db_gateway_mod_name (srv_db st) t (gw_id x) newname;
                        let st = set_db st db;
                        if \<not> ok then reply_error st e
                        else
                          do { (net, r) \<leftarrow> mbb_gateway_mod_name (srv_net st) gw newname;
                               let st = set_net st net;
                               if \<not> r then reply_msg st MBB_MSG_UNPOSSIBLE [] else Some (st, None) } }) })"

subsection \<open>Links\<close>

definition gateway_view ::
  "(gpointer \<Rightarrow> ('v, 'w, 'i) app \<Rightarrow> bool) \<Rightarrow> gpointer \<Rightarrow> ('v, 'w, 'i) app_srv \<Rightarrow> thread_id \<Rightarrow> gpointer
     \<Rightarrow> (('v, 'w, 'i) app_srv \<times> string) option" where
  "gateway_view bool_at gwiv_var st t gw =
     do { (st, ipview) \<leftarrow> mbb_gwman_get_ipview bool_at gwiv_var st t;
          g \<leftarrow> dm_heap (nw_gws (srv_net st)) gw;
          Some (st, mbb_gateway_get_ename g ipview) }"

definition gather_gwlink ::
  "(gpointer \<Rightarrow> ('v, 'w, 'i) app \<Rightarrow> bool) \<Rightarrow> gpointer \<Rightarrow> thread_id \<Rightarrow> bool \<Rightarrow> gpointer \<Rightarrow> ('v, 'w, 'i) app_srv \<times> xml_tag
     \<Rightarrow> (('v, 'w, 'i) app_srv \<times> xml_tag) option" where
  "gather_gwlink bool_at gwiv_var t show_op p = (\<lambda>(st, tag).
     do { gl \<leftarrow> dm_heap (nw_links (srv_net st)) p;
          op \<leftarrow> (if show_op then map_option (\<lambda>x. [(''operator'', variant_new_string (Some (op_name x)))]) (dm_heap (nw_ops (srv_net st)) (gl_op gl))
                 else Some []);
          (st, view) \<leftarrow> gateway_view bool_at gwiv_var st t (gl_gw gl);
          Some (st, xml_tag_add_child tag (xml_tag_new ''gwlink''
            ([(''id'', variant_new_int (gl_id gl))] @ op @
             [(''gateway'', variant_new_alloc_string (Some view)),
              (''link'', variant_new_int (to_gint (uint (gl_link gl)))),
              (''start'', variant_new_long (gl_start gl)), (''end'', variant_new_long (gl_end gl))]) None)) })"

fun gather_gwlinks ::
  "(gpointer \<Rightarrow> ('v, 'w, 'i) app \<Rightarrow> bool) \<Rightarrow> gpointer \<Rightarrow> thread_id \<Rightarrow> bool \<Rightarrow> gpointer list \<Rightarrow> ('v, 'w, 'i) app_srv \<times> xml_tag
     \<Rightarrow> (('v, 'w, 'i) app_srv \<times> xml_tag) option" where
  "gather_gwlinks bool_at gwiv_var t show_op [] s = Some s"
| "gather_gwlinks bool_at gwiv_var t show_op (p # ps) s =
     do { s \<leftarrow> gather_gwlink bool_at gwiv_var t show_op p s; gather_gwlinks bool_at gwiv_var t show_op ps s }"

definition show_gwlinks :: "(gpointer \<Rightarrow> ('v, 'w, 'i) app \<Rightarrow> bool) \<Rightarrow> gpointer \<Rightarrow> ht_order \<Rightarrow> ('v, 'w, 'i) handler" where
  "show_gwlinks bool_at gwiv_var ord st t tag =
     do { (st, ans) \<leftarrow> gather_gwlinks bool_at gwiv_var t True (ord (mbb_gwlink_foreach (srv_net st))) (st, mbb_xml_msg_ok);
          Some (st, Some ans) }"

definition operator_show_gwlinks :: "(gpointer \<Rightarrow> ('v, 'w, 'i) app \<Rightarrow> bool) \<Rightarrow> gpointer \<Rightarrow> ('v, 'w, 'i) handler" where
  "operator_show_gwlinks bool_at gwiv_var st t tag =
     with_args st tag [(xtv_op_name, False)] (\<lambda>vs.
       do { name \<leftarrow> (case vs of [v] \<Rightarrow> xv_str v | _ \<Rightarrow> None);
            (case mbb_operator_get_by_name (srv_net st) name of
               None \<Rightarrow> reply_msg st MBB_MSG_UNKNOWN_OPERATOR []
             | Some op \<Rightarrow>
                 do { x \<leftarrow> dm_heap (nw_ops (srv_net st)) op;
                      (st, ans) \<leftarrow> gather_gwlinks bool_at gwiv_var t False (op_links x) (st, mbb_xml_msg_ok);
                      Some (st, Some ans) }) })"

text \<open>
  \<open>gather_gwlink_gw\<close> over the links of a gateway: a tag for each run of links with one number.
  The current tag, which the code has already put below the answer, is the argument.
\<close>

fun gather_gwlink_gw :: "network \<Rightarrow> (guint32 \<times> xml_tag) option \<Rightarrow> gpointer list \<Rightarrow> xml_tag list option" where
  "gather_gwlink_gw net cur [] = Some (case cur of None \<Rightarrow> [] | Some (_, xt) \<Rightarrow> [xt])"
| "gather_gwlink_gw net cur (p # ps) =
     do { gl \<leftarrow> dm_heap (nw_links net) p;
          op \<leftarrow> dm_heap (nw_ops net) (gl_op gl);
          let child = xml_tag_new ''gwlink''
                [(''id'', variant_new_int (gl_id gl)), (''operator'', variant_new_string (Some (op_name op))),
                 (''start'', variant_new_long (gl_start gl)), (''end'', variant_new_long (gl_end gl))] None;
          let new = xml_tag_new ''link'' [(''no'', variant_new_int (to_gint (uint (gl_link gl))))] None;
          (case cur of
             None \<Rightarrow> gather_gwlink_gw net (Some (gl_link gl, xml_tag_add_child new child)) ps
           | Some (no, xt) \<Rightarrow>
               if no = gl_link gl then gather_gwlink_gw net (Some (no, xml_tag_add_child xt child)) ps
               else do { xts \<leftarrow> gather_gwlink_gw net (Some (gl_link gl, xml_tag_add_child new child)) ps; Some (xt # xts) }) }"

definition gateway_show_gwlinks :: "('v, 'w, 'i) handler" where
  "gateway_show_gwlinks st t tag =
     with_args st tag [(xtv_gw_name, False)] (\<lambda>vs.
       do { name \<leftarrow> (case vs of [v] \<Rightarrow> xv_str v | _ \<Rightarrow> None);
            (case mbb_gateway_get_by_ename (srv_net st) name of
               None \<Rightarrow> reply_msg st MBB_MSG_UNKNOWN_GATEWAY []
             | Some gw \<Rightarrow>
                 do { g \<leftarrow> dm_heap (nw_gws (srv_net st)) gw;
                      xts \<leftarrow> gather_gwlink_gw (srv_net st) None
                               (case gw_ht g of None \<Rightarrow> [] | Some ht \<Rightarrow> concat (map snd ht));
                      Some (st, Some (foldl xml_tag_add_child mbb_xml_msg_ok xts)) }) })"

text \<open>The link on the stack of \<open>add_gwlink\<close> and its copy are at the address \<open>p\<close>.\<close>

definition add_gwlink :: "gpointer \<Rightarrow> time_t \<Rightarrow> ('v, 'w, 'i) handler" where
  "add_gwlink p now st t tag =
     with_args st tag [(xtv_gw_name, False), (xtv_link_value, False), (xtv_op_name, False)] (\<lambda>vs.
       do { gwname \<leftarrow> (case vs of [n, _, _] \<Rightarrow> xv_str n | _ \<Rightarrow> None);
            link \<leftarrow> (case vs of [_, Some (XV_UInt l), _] \<Rightarrow> Some l | _ \<Rightarrow> None);
            opname \<leftarrow> (case vs of [_, _, n] \<Rightarrow> xv_str n | _ \<Rightarrow> None);
            (case mbb_gateway_get_by_ename (srv_net st) gwname of
               None \<Rightarrow> reply_msg st MBB_MSG_UNKNOWN_GATEWAY []
             | Some gw \<Rightarrow>
                 (case mbb_operator_get_by_name (srv_net st) opname of
                    None \<Rightarrow> reply_msg st MBB_MSG_UNKNOWN_OPERATOR []
                  | Some op \<Rightarrow>
                      do { let gl = \<lparr>gl_id = 0, gl_op = op, gl_gw = gw, gl_link = link, gl_start = now, gl_end = 0\<rparr>;
                           can \<leftarrow> mbb_gateway_can_add (set_gl (srv_net st) p (Some gl)) gw p True;
                           if \<not> can then reply_msg st MBB_MSG_GW_HAS_LINK []
                           else
                             do { (db, i, e) \<leftarrow> mbb_db_gwlink_add (srv_db st) t (srv_net st) gl;
                                  let st = set_db st db;
                                  if i < 0 then reply_error st e
                                  else
                                    do { (net, ok, _) \<leftarrow> mbb_gateway_add_link (set_gl (srv_net st) p (Some (gl\<lparr>gl_id := i\<rparr>))) gw p;
                                         if \<not> ok then reply_msg (set_net st (set_gl net p None)) MBB_MSG_UNPOSSIBLE []
                                         else
                                           do { net \<leftarrow> mbb_gwlink_join net p;
                                                net \<leftarrow> mbb_operator_add_link net op p;
                                                Some (set_net st net, None) } } } })) })"

definition drop_gwlink :: "('v, 'w, 'i) handler" where
  "drop_gwlink st t tag =
     with_args st tag [(xtv_gwlink_id, False)] (\<lambda>vs.
       do { i \<leftarrow> (case vs of [Some (XV_UInt i)] \<Rightarrow> Some i | _ \<Rightarrow> None);
            (case mbb_gwlink_get_by_id (srv_net st) (to_gint (uint i)) of
               None \<Rightarrow> reply_msg st MBB_MSG_UNKNOWN_GWLINK []
             | Some p \<Rightarrow>
                 do { gl \<leftarrow> dm_heap (nw_links (srv_net st)) p;
                      (db, ok, e) \<leftarrow> mbb_db_gwlink_drop (srv_db st) t (gl_id gl);
                      let st = set_db st db;
                      if \<not> ok then reply_error st e
                      else do { net \<leftarrow> mbb_gwlink_remove (srv_net st) p; Some (set_net st net, None) } }) })"

definition gwlink_mod_time :: "xtv_env \<Rightarrow> ('v, 'w, 'i) handler" where
  "gwlink_mod_time env st t tag =
     with_args st tag [(xtv_gwlink_id, False), (xtv_etime_start env, True), (xtv_etime_end env, True)] (\<lambda>vs.
       do { i \<leftarrow> (case vs of [Some (XV_UInt i), _, _] \<Rightarrow> Some i | _ \<Rightarrow> None);
            start \<leftarrow> (case vs of [_, s, _] \<Rightarrow> Some (xv_time VAR_CONV_TIME_UNSET s) | _ \<Rightarrow> None);
            fin \<leftarrow> (case vs of [_, _, e] \<Rightarrow> Some (xv_time VAR_CONV_TIME_UNSET e) | _ \<Rightarrow> None);
            if start = VAR_CONV_TIME_UNSET \<and> fin = VAR_CONV_TIME_UNSET then reply_msg st MBB_MSG_TIME_MISSED []
            else if start = VAR_CONV_TIME_PARENT \<or> fin = VAR_CONV_TIME_PARENT then reply_msg st MBB_MSG_ORPHAN []
            else
              (case mbb_gwlink_get_by_id (srv_net st) (to_gint (uint i)) of
                 None \<Rightarrow> reply_msg st MBB_MSG_UNKNOWN_GWLINK []
               | Some p \<Rightarrow>
                   do { gl \<leftarrow> dm_heap (nw_links (srv_net st)) p;
                        let start = (if start < 0 then gl_start gl else start);
                        let fin = (if fin < 0 then gl_end gl else fin);
                        if mbb_time_becmp start fin > 0 then reply_msg st MBB_MSG_INVALID_TIME_ORDER []
                        else
                          do { let gl' = gl\<lparr>gl_start := start, gl_end := fin\<rparr>;
                               (net, ok) \<leftarrow> mbb_gateway_reorder_link (set_gl (srv_net st) p (Some gl')) (gl_gw gl) p;
                               if \<not> ok then reply_msg (set_net st (set_gl net p (Some gl))) MBB_MSG_TIME_COLLISION []
                               else
                                 do { (db, ok, e) \<leftarrow> mbb_db_gwlink_mod_time (srv_db st) t (gl_id gl) start fin;
                                      let st = set_net (set_db st db) net;
                                      if \<not> ok then reply_error st e else Some (st, None) } } }) })"

subsection \<open>The tables of commands\<close>

definition operator_commands :: "gpointer \<Rightarrow> ht_order \<Rightarrow> (string \<times> ('v, 'w, 'i) handler \<times> guint32) list" where
  "operator_commands p ord =
     [(''mbb-show-operators'', show_operators ord, MBB_CAP_ADMIN),
      (''mbb-add-operator'', add_operator p, MBB_CAP_ADMIN),
      (''mbb-drop-operator'', drop_operator, MBB_CAP_WHEEL),
      (''mbb-operator-mod-name'', operator_mod_name, MBB_CAP_ADMIN)]"

definition gateway_commands :: "gpointer \<Rightarrow> ht_order \<Rightarrow> (string \<times> ('v, 'w, 'i) handler \<times> guint32) list" where
  "gateway_commands p ord =
     [(''mbb-show-gateways'', show_gateways ord, MBB_CAP_ADMIN),
      (''mbb-add-gateway'', add_gateway p, MBB_CAP_ADMIN),
      (''mbb-drop-gateway'', drop_gateway, MBB_CAP_WHEEL),
      (''mbb-gateway-mod-name'', gateway_mod_name, MBB_CAP_ADMIN)]"

definition gwlink_commands ::
  "gpointer \<Rightarrow> time_t \<Rightarrow> ht_order \<Rightarrow> xtv_env \<Rightarrow> (gpointer \<Rightarrow> ('v, 'w, 'i) app \<Rightarrow> bool) \<Rightarrow> gpointer
     \<Rightarrow> (string \<times> ('v, 'w, 'i) handler \<times> guint32) list" where
  "gwlink_commands p now ord env bool_at gwiv_var =
     [(''mbb-show-gwlinks'', show_gwlinks bool_at gwiv_var ord, MBB_CAP_ADMIN),
      (''mbb-operator-show-gwlinks'', operator_show_gwlinks bool_at gwiv_var, MBB_CAP_ADMIN),
      (''mbb-gateway-show-gwlinks'', gateway_show_gwlinks, MBB_CAP_ADMIN),
      (''mbb-add-gwlink'', add_gwlink p now, MBB_CAP_ADMIN),
      (''mbb-drop-gwlink'', drop_gwlink, MBB_CAP_WHEEL),
      (''mbb-gwlink-mod-time'', gwlink_mod_time env, MBB_CAP_ADMIN)]"

definition net_commands ::
  "gpointer \<Rightarrow> time_t \<Rightarrow> ht_order \<Rightarrow> xtv_env \<Rightarrow> (gpointer \<Rightarrow> ('v, 'w, 'i) app \<Rightarrow> bool) \<Rightarrow> gpointer
     \<Rightarrow> (string \<times> ('v, 'w, 'i) handler \<times> guint32) list" where
  "net_commands p now ord env bool_at gwiv_var =
     operator_commands p ord @ gateway_commands p ord @ gwlink_commands p now ord env bool_at gwiv_var"

lemmas net_commands_defs = net_commands_def operator_commands_def gateway_commands_def gwlink_commands_def

section \<open>References between the objects\<close>

text \<open>
  The references of gateways \<open>G\<close>, links \<open>L\<close> and operators \<open>O\<close> agree: the queues of a gateway
  hold exactly the links that name it, the list of an operator exactly the links that name
  it, and every link names a gateway and an operator that exist.
\<close>

definition refs_ok :: "mbb_gateway heap \<Rightarrow> mbb_gwlink heap \<Rightarrow> mbb_operator heap \<Rightarrow> bool" where
  "refs_ok G L Op \<longleftrightarrow>
     (\<forall>a g. G a = Some g \<longrightarrow> a \<noteq> 0 \<and> gateway_ok L g \<and>
        (\<forall>k p. p \<in> set (queue_of g k) \<longleftrightarrow> (\<exists>gl. L p = Some gl \<and> gl_gw gl = a \<and> gl_link gl = k))) \<and>
     (\<forall>a x. Op a = Some x \<longrightarrow> a \<noteq> 0 \<and> distinct (op_links x) \<and>
        (\<forall>p. p \<in> set (op_links x) \<longleftrightarrow> (\<exists>gl. L p = Some gl \<and> gl_op gl = a))) \<and>
     (\<forall>p gl. L p = Some gl \<longrightarrow> G (gl_gw gl) \<noteq> None \<and> Op (gl_op gl) \<noteq> None)"

lemma refs_okD:
  assumes "refs_ok G L Op"
  shows "G a = Some g \<Longrightarrow> a \<noteq> 0" "G a = Some g \<Longrightarrow> gateway_ok L g"
    "G a = Some g \<Longrightarrow> p \<in> set (queue_of g k) \<longleftrightarrow> (\<exists>gl. L p = Some gl \<and> gl_gw gl = a \<and> gl_link gl = k)"
    "Op a = Some x \<Longrightarrow> a \<noteq> 0" "Op a = Some x \<Longrightarrow> distinct (op_links x)"
    "Op a = Some x \<Longrightarrow> p \<in> set (op_links x) \<longleftrightarrow> (\<exists>gl. L p = Some gl \<and> gl_op gl = a)"
    "L p = Some gl \<Longrightarrow> \<exists>g. G (gl_gw gl) = Some g" "L p = Some gl \<Longrightarrow> \<exists>x. Op (gl_op gl) = Some x"
  using assms unfolding refs_ok_def by blast+

lemma refs_okI:
  assumes "\<And>a g. G a = Some g \<Longrightarrow> a \<noteq> 0" "\<And>a g. G a = Some g \<Longrightarrow> gateway_ok L g"
    "\<And>a g k p. G a = Some g \<Longrightarrow> p \<in> set (queue_of g k) \<longleftrightarrow> (\<exists>gl. L p = Some gl \<and> gl_gw gl = a \<and> gl_link gl = k)"
    "\<And>a x. Op a = Some x \<Longrightarrow> a \<noteq> 0" "\<And>a x. Op a = Some x \<Longrightarrow> distinct (op_links x)"
    "\<And>a x p. Op a = Some x \<Longrightarrow> p \<in> set (op_links x) \<longleftrightarrow> (\<exists>gl. L p = Some gl \<and> gl_op gl = a)"
    "\<And>p gl. L p = Some gl \<Longrightarrow> G (gl_gw gl) \<noteq> None" "\<And>p gl. L p = Some gl \<Longrightarrow> Op (gl_op gl) \<noteq> None"
  shows "refs_ok G L Op"
  unfolding refs_ok_def by (intro conjI allI impI; erule assms)

lemma queue_of_cong: "gw_ht g' = gw_ht g \<Longrightarrow> queue_of g' = queue_of g"
  by (simp add: queue_of_def fun_eq_iff)

lemma gateway_ok_same: "gw_ht g' = gw_ht g \<Longrightarrow> gateway_ok h g' = gateway_ok h g"
  using queue_of_cong [of g' g] by (simp add: gateway_ok_def table_ok_def)

text \<open>Objects without links come and go, and a change of another field matters to no reference.\<close>

lemma refs_new_gateway:
  assumes ok: "refs_ok G L Op" and a: "G a = None" "a \<noteq> 0" and g: "gw_ht g = None"
  shows "refs_ok (G(a \<mapsto> g)) L Op"
proof -
  have none: "queue_of g k = []" for k using g by (simp add: queue_of_def)
  moreover have "gateway_ok L g" using g none by (simp add: gateway_ok_def table_ok_def)
  moreover have "gl_gw gl \<noteq> a" if "L p = Some gl" for p gl using refs_okD(7) [OF ok that] a by auto
  ultimately show ?thesis using a refs_okD [OF ok] by (intro refs_okI) (auto split: if_splits)
qed

lemma refs_drop_gateway:
  assumes ok: "refs_ok G L Op" and a: "G a = Some g" "mbb_gateway_nlink g = 0"
  shows "refs_ok (G(a := None)) L Op"
proof -
  have "gw_ht g = None"
    using a refs_okD(2) [OF ok a(1)] by (auto simp: mbb_gateway_nlink_def gateway_ok_def table_ok_def split: option.splits)
  then have "queue_of g k = []" for k by (simp add: queue_of_def)
  then have "gl_gw gl \<noteq> a" if "L p = Some gl" for p gl
    using refs_okD(3) [OF ok a(1), of p "gl_link gl"] that by auto
  then show ?thesis using refs_okD [OF ok] by (intro refs_okI) (auto split: if_splits)
qed

lemma refs_same_gateway:
  assumes ok: "refs_ok G L Op" and a: "G a = Some g" "gw_ht g' = gw_ht g"
  shows "refs_ok (G(a \<mapsto> g')) L Op"
  using a refs_okD [OF ok] queue_of_cong [OF a(2)] gateway_ok_same [OF a(2)]
  by (intro refs_okI) (auto split: if_splits)

lemma refs_new_operator:
  assumes ok: "refs_ok G L Op" and a: "Op a = None" "a \<noteq> 0" and x: "op_links x = []"
  shows "refs_ok G L (Op(a \<mapsto> x))"
proof -
  have "gl_op gl \<noteq> a" if "L p = Some gl" for p gl using refs_okD(8) [OF ok that] a by auto
  then show ?thesis using a x refs_okD [OF ok] by (intro refs_okI) (auto split: if_splits)
qed

lemma refs_drop_operator:
  assumes ok: "refs_ok G L Op" and a: "Op a = Some x" "op_links x = []"
  shows "refs_ok G L (Op(a := None))"
proof -
  have "gl_op gl \<noteq> a" if "L p = Some gl" for p gl using refs_okD(6) [OF ok a(1), of p] a that by auto
  then show ?thesis using refs_okD [OF ok] by (intro refs_okI) (auto split: if_splits)
qed

lemma refs_same_operator:
  assumes ok: "refs_ok G L Op" and a: "Op a = Some x" "op_links x' = op_links x"
  shows "refs_ok G L (Op(a \<mapsto> x'))"
  using a refs_okD [OF ok] by (intro refs_okI) (auto split: if_splits)

text \<open>A link is entered and withdrawn at both ends.\<close>

lemma gateway_ok_absent: "gateway_ok h g \<Longrightarrow> (\<And>k. p \<notin> set (queue_of g k)) \<Longrightarrow> gateway_ok (h(p := v)) g"
  using queue_ok_other [of h _ p v] by (fastforce simp: gateway_ok_def)

lemma refs_new_link:
  assumes ok: "refs_ok G L Op" and p: "L p = None"
    and gw: "G gw = Some g" "gateway_ok (L(p \<mapsto> gl)) g'" "gl_gw gl = gw"
    and q: "\<And>k. set (queue_of g' k) = (if k = gl_link gl then insert p (set (queue_of g k)) else set (queue_of g k))"
    and op: "Op op = Some x" "gl_op gl = op"
  shows "refs_ok (G(gw \<mapsto> g')) (L(p \<mapsto> gl)) (Op(op \<mapsto> x\<lparr>op_links := p # op_links x\<rparr>))"
proof -
  have "p \<notin> set (queue_of y k)" if "G b = Some y" for b y k using refs_okD(3) [OF ok that] p by auto
  moreover have "p \<notin> set (op_links y)" if "Op b = Some y" for b y using refs_okD(6) [OF ok that] p by auto
  moreover have "gateway_ok (L(p \<mapsto> gl)) y" if "G b = Some y" for b y
    using gateway_ok_absent [of L y p] refs_okD(2,3) [OF ok that] p by simp
  ultimately show ?thesis
    using assms refs_okD [OF ok] by (intro refs_okI) (auto split: if_splits)
qed

lemma refs_drop_link:
  assumes ok: "refs_ok G L Op" and p: "L p = Some gl"
    and gw: "G (gl_gw gl) = Some g" "gateway_ok (L(p := None)) g'" "\<And>k. queue_of g' k = remove1 p (queue_of g k)"
    and op: "Op (gl_op gl) = Some x"
  shows "refs_ok (G(gl_gw gl \<mapsto> g')) (L(p := None)) (Op(gl_op gl \<mapsto> x\<lparr>op_links := remove1 p (op_links x)\<rparr>))"
proof -
  have "p \<notin> set (queue_of y k)" if "G b = Some y" "b \<noteq> gl_gw gl" for b y k using refs_okD(3) [OF ok that(1)] p that by auto
  moreover have "gateway_ok (L(p := None)) y" if "G b = Some y" "b \<noteq> gl_gw gl" for b y
    using gateway_ok_absent [of L y p] refs_okD(2,3) [OF ok that(1)] p that by simp
  moreover have "p \<notin> set (op_links y)" if "Op b = Some y" "b \<noteq> gl_op gl" for b y using refs_okD(6) [OF ok that(1)] p that by auto
  moreover have "set (queue_of g' k) = set (queue_of g k) - {p}" for k
    using gw(3) queue_ok_distinct [OF gateway_ok_queue [OF refs_okD(2) [OF ok gw(1)]]] by (simp add: set_remove1_eq)
  moreover have "set (remove1 p (op_links x)) = set (op_links x) - {p}" using refs_okD(5) [OF ok op] by (simp add: set_remove1_eq)
  ultimately show ?thesis
    using gw(1,2) op refs_okD [OF ok] by (intro refs_okI) (auto split: if_splits)
qed

lemma refs_move_link:
  assumes ok: "refs_ok G L Op" and p: "L p = Some gl0" "gl_gw gl = gl_gw gl0" "gl_link gl = gl_link gl0" "gl_op gl = gl_op gl0"
    and gw: "G (gl_gw gl) = Some g" "gateway_ok (L(p \<mapsto> gl)) g'" "\<And>k. set (queue_of g' k) = set (queue_of g k)"
  shows "refs_ok (G(gl_gw gl \<mapsto> g')) (L(p \<mapsto> gl)) Op"
proof -
  have "gateway_ok (L(p \<mapsto> gl)) y" if "G b = Some y" "b \<noteq> gl_gw gl" for b y
    using gateway_ok_absent [of L y p] refs_okD(2,3) [OF ok that(1)] p that by simp
  then show ?thesis
    using p gw refs_okD [OF ok] by (intro refs_okI) (auto split: if_splits)
qed

section \<open>The registries stay consistent\<close>

text \<open>Exactly the objects in memory are registered, and their references agree.\<close>

definition net_inv :: "network \<Rightarrow> bool" where
  "net_inv net \<longleftrightarrow> module_ok gateway_entries (nw_gws net) (dom (dm_heap (nw_gws net))) \<and>
     module_ok gwlink_entries (nw_links net) (dom (dm_heap (nw_links net))) \<and>
     module_ok operator_entries (nw_ops net) (dom (dm_heap (nw_ops net))) \<and>
     refs_ok (dm_heap (nw_gws net)) (dm_heap (nw_links net)) (dm_heap (nw_ops net))"

lemma net_invD:
  assumes "net_inv net"
  shows "module_ok gateway_entries (nw_gws net) (dom (dm_heap (nw_gws net)))"
    "module_ok gwlink_entries (nw_links net) (dom (dm_heap (nw_links net)))"
    "module_ok operator_entries (nw_ops net) (dom (dm_heap (nw_ops net)))"
    "refs_ok (dm_heap (nw_gws net)) (dm_heap (nw_links net)) (dm_heap (nw_ops net))"
  using assms by (simp_all add: net_inv_def)

lemma set_net_simps [simp]:
  "nw_gws (set_gl net p v) = nw_gws net" "nw_ops (set_gl net p v) = nw_ops net"
  "nw_gws (set_op net p w) = nw_gws net" "nw_links (set_op net p w) = nw_links net"
  "nw_links (set_gw net p x) = nw_links net" "nw_ops (set_gw net p x) = nw_ops net"
  "dm_heap (nw_links (set_gl net p v)) = (dm_heap (nw_links net))(p := v)" "dm_link (nw_links (set_gl net p v)) = dm_link (nw_links net)"
  "dm_heap (nw_ops (set_op net p w)) = (dm_heap (nw_ops net))(p := w)" "dm_link (nw_ops (set_op net p w)) = dm_link (nw_ops net)"
  "dm_heap (nw_gws (set_gw net p x)) = (dm_heap (nw_gws net))(p := x)" "dm_link (nw_gws (set_gw net p x)) = dm_link (nw_gws net)"
  by (simp_all add: set_gl_def set_op_def set_gw_def)

subsection \<open>Gateways and operators\<close>

lemma fresh_gateway:
  assumes inv: "net_inv net" and new: "mbb_gateway_get_by_name net name = None" "mbb_gateway_get_by_addr net ip = None"
    and i: "\<And>q g. dm_heap (nw_gws net) q = Some g \<Longrightarrow> gw_id g \<noteq> i"
  shows "fresh_keys gateway_entries (dm_heap (nw_gws net)) (dom (dm_heap (nw_gws net))) p (mbb_gateway_new i name ip)"
proof -
  have "gw_name g \<noteq> name \<and> gw_addr g \<noteq> ip" if "dm_heap (nw_gws net) q = Some g" for q g
    using that new gateway_get_by_name [OF net_invD(1) [OF inv], of name q] get_by_addr [OF net_invD(1) [OF inv], of ip q] by auto
  then show ?thesis
    using i unfolding fresh_keys_def gateway_entries_def
    by (auto simp: mbb_gateway_new_def less_Suc_eq numeral_eq_Suc word_uint_eq_iff)
qed

lemma join_gateway_inv:
  assumes inv: "net_inv net" and new: "mbb_gateway_get_by_name net name = None" "mbb_gateway_get_by_addr net ip = None"
      "\<And>q g. dm_heap (nw_gws net) q = Some g \<Longrightarrow> gw_id g \<noteq> i" "dm_heap (nw_gws net) p = None" "p \<noteq> 0"
    and join: "mbb_gateway_join (set_gw net p (Some (mbb_gateway_new i name ip))) p = Some net'"
  shows "net_inv net'"
proof -
  let ?net = "set_gw net p (Some (mbb_gateway_new i name ip))"
  obtain m where m: "module_join gateway_entries (nw_gws ?net) p = Some m" "net' = ?net\<lparr>nw_gws := m\<rparr>"
    using join by (auto simp: mbb_gateway_join_def split: bind_splits)
  have "p \<notin> dom (dm_heap (nw_gws net))" using new(4) by auto
  then have add: "module_ok gateway_entries m (dom (dm_heap m))" "dm_heap m = (dm_heap (nw_gws net))(p \<mapsto> mbb_gateway_new i name ip)"
    using module_add_ok [OF net_invD(1) [OF inv] _ fresh_gateway [OF inv new(1,2,3)] _ _ m(1)] by simp_all
  have "refs_ok ((dm_heap (nw_gws net))(p \<mapsto> mbb_gateway_new i name ip)) (dm_heap (nw_links net)) (dm_heap (nw_ops net))"
    by (rule refs_new_gateway [OF net_invD(4) [OF inv] new(4,5)]) (simp add: mbb_gateway_new_def)
  with inv m add show ?thesis by (simp add: net_inv_def)
qed

lemma drop_gateway_inv:
  assumes inv: "net_inv net" and g: "dm_heap (nw_gws net) gw = Some g" "mbb_gateway_nlink g = 0"
    and rm: "mbb_gateway_remove net gw = Some net'"
  shows "net_inv net'"
proof -
  obtain m where m: "module_detach gateway_entries (nw_gws net) gw = Some m" "net' = set_gw (net\<lparr>nw_gws := m\<rparr>) gw None"
    using rm by (auto simp: mbb_gateway_remove_def mbb_gateway_detach_def mbb_gateway_free_def split: bind_splits)
  have "module_ok gateway_entries (nw_gws net') (dom (dm_heap (nw_gws net')))"
      "dm_heap (nw_gws net') = (dm_heap (nw_gws net))(gw := None)"
    using module_drop_ok(1) [OF net_invD(1) [OF inv] gateway_self_first m(1)]
      module_drop_ok(3) [OF net_invD(1) [OF inv] gateway_self_first m(1), of "nw_gws net'" None] m(2) by simp_all
  with refs_drop_gateway [OF net_invD(4) [OF inv] g] inv m(2) show ?thesis by (simp add: net_inv_def del: dom_fun_upd)
qed

lemma rename_gateway_inv:
  assumes inv: "net_inv net" and g: "dm_heap (nw_gws net) gw = Some g" and r: "mbb_gateway_mod_name net gw n = Some (net', r)"
  shows "net_inv net'"
proof -
  obtain m where m: "net' = net\<lparr>nw_gws := m\<rparr>" "module_ok gateway_entries m (dom (dm_heap (nw_gws net)))"
      "dm_heap m = (if r then (dm_heap (nw_gws net))(gw \<mapsto> g\<lparr>gw_name := n\<rparr>) else dm_heap (nw_gws net))"
    using gateway_mod_name_reg [OF net_invD(1) [OF inv] _ g, of n] r g by (auto simp: mbb_gateway_mod_name_def split: bind_splits)
  moreover have "dom (dm_heap m) = dom (dm_heap (nw_gws net))" using m(3) g by auto
  ultimately show ?thesis
    using inv refs_same_gateway [OF net_invD(4) [OF inv] g, of "g\<lparr>gw_name := n\<rparr>"] by (auto simp: net_inv_def)
qed

lemma join_operator_inv:
  assumes inv: "net_inv net" and new: "mbb_operator_get_by_name net name = None"
      "\<And>q x. dm_heap (nw_ops net) q = Some x \<Longrightarrow> op_id x \<noteq> i" "dm_heap (nw_ops net) p = None" "p \<noteq> 0"
    and join: "mbb_operator_join (set_op net p (Some (mbb_operator_new i name))) p = Some net'"
  shows "net_inv net'"
proof -
  let ?net = "set_op net p (Some (mbb_operator_new i name))"
  obtain m where m: "module_join operator_entries (nw_ops ?net) p = Some m" "net' = ?net\<lparr>nw_ops := m\<rparr>"
    using join by (auto simp: mbb_operator_join_def split: bind_splits)
  have "op_name x \<noteq> name" if "dm_heap (nw_ops net) q = Some x" for q x
    using that new(1) operators.get_by_name [OF net_invD(3) [OF inv, unfolded operator_entries_def], of name q]
    by (auto simp: mbb_operator_get_by_name_def)
  then have fresh: "fresh_keys operator_entries (dm_heap (nw_ops net)) (dom (dm_heap (nw_ops net))) p (mbb_operator_new i name)"
    using new(2) unfolding operator_entries_def operators.fresh_std by (auto simp: mbb_operator_new_def)
  have "p \<notin> dom (dm_heap (nw_ops net))" using new(3) by auto
  then have add: "module_ok operator_entries m (dom (dm_heap m))" "dm_heap m = (dm_heap (nw_ops net))(p \<mapsto> mbb_operator_new i name)"
    using module_add_ok [OF net_invD(3) [OF inv] _ fresh _ _ m(1)] by simp_all
  have "refs_ok (dm_heap (nw_gws net)) (dm_heap (nw_links net)) ((dm_heap (nw_ops net))(p \<mapsto> mbb_operator_new i name))"
    by (rule refs_new_operator [OF net_invD(4) [OF inv] new(3,4)]) (simp add: mbb_operator_new_def)
  with inv m add show ?thesis by (simp add: net_inv_def)
qed

lemma operator_self_first [simp]: "self_first operator_entries"
  by (simp add: operator_entries_def)

lemma drop_operator_inv:
  assumes inv: "net_inv net" and x: "dm_heap (nw_ops net) op = Some x" "op_links x = []"
    and rm: "mbb_operator_remove net op = Some net'"
  shows "net_inv net'"
proof -
  obtain m where m: "module_detach operator_entries (nw_ops net) op = Some m" "net' = set_op (net\<lparr>nw_ops := m\<rparr>) op None"
    using rm by (auto simp: mbb_operator_remove_def mbb_operator_detach_def mbb_operator_free_def split: bind_splits)
  have "module_ok operator_entries (nw_ops net') (dom (dm_heap (nw_ops net')))"
      "dm_heap (nw_ops net') = (dm_heap (nw_ops net))(op := None)"
    using module_drop_ok(1) [OF net_invD(3) [OF inv] operator_self_first m(1)]
      module_drop_ok(3) [OF net_invD(3) [OF inv] operator_self_first m(1), of "nw_ops net'" None] m(2) by simp_all
  with refs_drop_operator [OF net_invD(4) [OF inv] x] inv m(2) show ?thesis by (simp add: net_inv_def del: dom_fun_upd)
qed

lemma rename_operator_inv:
  assumes inv: "net_inv net" and x: "dm_heap (nw_ops net) op = Some x" and r: "mbb_operator_mod_name net op n = Some (net', r)"
  shows "net_inv net'"
proof -
  obtain m where m: "net' = net\<lparr>nw_ops := m\<rparr>" "module_ok operator_entries m (dom (dm_heap (nw_ops net)))"
      "dm_heap m = (if r then (dm_heap (nw_ops net))(op \<mapsto> x\<lparr>op_name := n\<rparr>) else dm_heap (nw_ops net))"
    using operators.mod_name [OF net_invD(3) [OF inv, unfolded operator_entries_def] _ x, of n] r x
    by (auto simp: mbb_operator_mod_name_def operator_entries_def split: bind_splits)
  moreover have "dom (dm_heap m) = dom (dm_heap (nw_ops net))" using m(3) x by auto
  ultimately show ?thesis
    using inv refs_same_operator [OF net_invD(4) [OF inv] x, of "x\<lparr>op_name := n\<rparr>"] by (auto simp: net_inv_def)
qed

subsection \<open>Links\<close>

text \<open>Changes of the fields that are no keys of a registry.\<close>

lemma same_gateway_keys:
  assumes "module_ok gateway_entries m (dom (dm_heap m))" "dm_heap m gw = Some g" "dm_heap m' = (dm_heap m)(gw \<mapsto> g')"
    "dm_link m' = dm_link m" "gw_id g' = gw_id g" "gw_name g' = gw_name g" "gw_addr g' = gw_addr g"
  shows "module_ok gateway_entries m' (dom (dm_heap m'))"
proof -
  have "dom (dm_heap m') = dom (dm_heap m)" using assms(2,3) by auto
  moreover have "module_ok gateway_entries m' (dom (dm_heap m))"
    by (rule module_ok_same_keys [OF assms(1-4)]) (use assms(5-) in \<open>auto simp: gateway_entries_def less_Suc_eq numeral_eq_Suc\<close>)
  ultimately show ?thesis by simp
qed

lemma same_operator_keys:
  assumes "module_ok operator_entries m (dom (dm_heap m))" "dm_heap m op = Some x" "dm_heap m' = (dm_heap m)(op \<mapsto> x')"
    "dm_link m' = dm_link m" "op_id x' = op_id x" "op_name x' = op_name x"
  shows "module_ok operator_entries m' (dom (dm_heap m'))"
proof -
  have "dom (dm_heap m') = dom (dm_heap m)" using assms(2,3) by auto
  moreover have "module_ok operator_entries m' (dom (dm_heap m))"
    by (rule module_ok_same_keys [OF assms(1-4)]) (use assms(5-) in \<open>auto simp: operator_entries_def std_entries_def less_Suc_eq numeral_eq_Suc\<close>)
  ultimately show ?thesis by simp
qed

lemma same_gwlink_keys:
  assumes "module_ok gwlink_entries m (dom (dm_heap m))" "dm_heap m p = Some gl" "dm_heap m' = (dm_heap m)(p \<mapsto> gl')"
    "dm_link m' = dm_link m" "gl_id gl' = gl_id gl"
  shows "module_ok gwlink_entries m' (dom (dm_heap m'))"
proof -
  have "dom (dm_heap m') = dom (dm_heap m)" using assms(2,3) by auto
  moreover have "module_ok gwlink_entries m' (dom (dm_heap m))"
    by (rule module_ok_same_keys [OF assms(1-4)]) (use assms(5-) in \<open>auto simp: gwlink_entries_def less_Suc_eq\<close>)
  ultimately show ?thesis by simp
qed

lemma gateway_keys_kept:
  "mbb_gateway_add_link st gw p = Some (st', r, old) \<Longrightarrow> dm_heap (nw_gws st) gw = Some g \<Longrightarrow> dm_heap (nw_gws st') gw = Some g' \<Longrightarrow>
     gw_id g' = gw_id g \<and> gw_name g' = gw_name g \<and> gw_addr g' = gw_addr g"
  "mbb_gateway_reorder_link st gw p = Some (st', r) \<Longrightarrow> dm_heap (nw_gws st) gw = Some g \<Longrightarrow> dm_heap (nw_gws st') gw = Some g' \<Longrightarrow>
     gw_id g' = gw_id g \<and> gw_name g' = gw_name g \<and> gw_addr g' = gw_addr g"
  "mbb_gateway_del_link st gw p = Some st' \<Longrightarrow> dm_heap (nw_gws st) gw = Some g \<Longrightarrow> dm_heap (nw_gws st') gw = Some g' \<Longrightarrow>
     gw_id g' = gw_id g \<and> gw_name g' = gw_name g \<and> gw_addr g' = gw_addr g"
  by (auto simp: mbb_gateway_add_link_def mbb_gateway_reorder_link_def mbb_gateway_del_link_def Let_def
    split: bind_splits option.splits)

lemma gwlink_remove_parts:
  assumes "mbb_gwlink_remove net p = Some net'" "dm_heap (nw_links net) p = Some gl" "dm_heap (nw_gws net) (gl_gw gl) = Some g"
  shows "dm_link (nw_gws net') = dm_link (nw_gws net)" "dm_link (nw_ops net') = dm_link (nw_ops net)"
    "dm_heap (nw_gws net') (gl_gw gl) = Some g' \<Longrightarrow> gw_id g' = gw_id g \<and> gw_name g' = gw_name g \<and> gw_addr g' = gw_addr g"
  using assms
  by (auto simp: mbb_gwlink_remove_def mbb_gwlink_detach_def mbb_gwlink_free_def mbb_gateway_del_link_def mbb_operator_del_link_def
    module_detach_def split: bind_splits option.splits if_splits)

lemma set_gl_set_gl [simp]: "set_gl (set_gl net p v) p w = set_gl net p w"
  by (simp add: set_gl_def)

text \<open>
  A link that the gateway admits beforehand is taken when the database has numbered it, and
  the references agree again when it is registered and in the list of its operator.
\<close>

lemma admitted_link:
  assumes inv: "net_inv net" and gw: "dm_heap (nw_gws net) gw = Some g" and op: "dm_heap (nw_ops net) op = Some x"
    and p: "dm_heap (nw_links net) p = None" and gl: "wf_link gl" "gl_gw gl = gw" "gl_op gl = op"
    and can: "mbb_gateway_can_add (set_gl net p (Some gl)) gw p True = Some True"
    and add: "mbb_gateway_add_link (set_gl net p (Some (gl\<lparr>gl_id := i\<rparr>))) gw p = Some (nt, ok, old)"
  shows "ok \<and> (\<exists>g'. nt = set_gw (set_gl net p (Some (gl\<lparr>gl_id := i\<rparr>))) gw (Some g') \<and>
     gw_id g' = gw_id g \<and> gw_name g' = gw_name g \<and> gw_addr g' = gw_addr g \<and>
     refs_ok ((dm_heap (nw_gws net))(gw \<mapsto> g')) ((dm_heap (nw_links net))(p \<mapsto> gl\<lparr>gl_id := i\<rparr>))
       ((dm_heap (nw_ops net))(op \<mapsto> x\<lparr>op_links := p # op_links x\<rparr>)))"
proof -
  let ?gl = "gl\<lparr>gl_id := i\<rparr>" and ?L = "dm_heap (nw_links net)"
  note refs = net_invD(4) [OF inv] and g = refs_okD(2) [OF net_invD(4) [OF inv] gw]
  have out: "p \<notin> set (queue_of g k)" for k using refs_okD(3) [OF refs gw, of p k] p by simp
  have wf: "wf_link ?gl" using gl(1) by (simp add: wf_link_def)
  have ov: "overlaps (?L(p \<mapsto> y)) y c \<longleftrightarrow> overlaps ?L gl c" if "c \<in> set (queue_of g k)" "y = gl \<or> y = ?gl" for c k y
    using that out [of k] by (auto simp: overlaps_def link_admits_def)
  have ok_at: "gateway_ok (dm_heap (nw_links (set_gl net p (Some y)))) g" for y
    using gateway_ok_absent [OF g out] by simp
  have free: "\<forall>c \<in> set (queue_of g (gl_link gl)). \<not> overlaps ?L gl c"
    using add_link_admitted [of "set_gl net p (Some gl)" gw g p gl] gw gl(1) ok_at can ov
    by (auto simp: fun_upd_same simp del: fun_upd_apply)
  obtain g' where g': "ok" "nt = set_gw (set_gl net p (Some ?gl)) gw (Some g')" "gateway_ok (?L(p \<mapsto> ?gl)) g'"
      "mset (queue_of g' (gl_link gl)) = add_mset p (mset (queue_of g (gl_link gl)))"
      "\<And>k. k \<noteq> gl_link gl \<Longrightarrow> queue_of g' k = queue_of g k"
    using add_link_admitted [of "set_gl net p (Some ?gl)" gw g p ?gl] gw wf ok_at add ov free
    by (auto simp: fun_upd_same simp del: fun_upd_apply)
  have "set (queue_of g' k) = (if k = gl_link ?gl then insert p (set (queue_of g k)) else set (queue_of g k))" for k
    using g'(4) g'(5) [of k] by (auto dest: arg_cong [where f = set_mset])
  from refs_new_link [OF refs p gw g'(3) _ this op] gl gateway_keys_kept(1) [OF add, of g g'] gw g'(1,2) show ?thesis
    by (intro conjI exI [of _ g']) simp_all
qed

lemma add_gwlink_inv:
  assumes inv: "net_inv net" and gw: "dm_heap (nw_gws net) gw = Some g" and op: "dm_heap (nw_ops net) op = Some x"
    and p: "dm_heap (nw_links net) p = None" and gl: "wf_link gl" "gl_gw gl = gw" "gl_op gl = op"
    and i: "\<And>q y. dm_heap (nw_links net) q = Some y \<Longrightarrow> gl_id y \<noteq> i"
    and can: "mbb_gateway_can_add (set_gl net p (Some gl)) gw p True = Some True"
    and add: "mbb_gateway_add_link (set_gl net p (Some (gl\<lparr>gl_id := i\<rparr>))) gw p = Some (nt1, ok, old)"
    and join: "mbb_gwlink_join nt1 p = Some nt2" "mbb_operator_add_link nt2 op p = Some nt3"
  shows "net_inv nt3"
proof -
  let ?gl = "gl\<lparr>gl_id := i\<rparr>" and ?L = "dm_heap (nw_links net)" and ?x = "x\<lparr>op_links := p # op_links x\<rparr>"
  obtain g' where nt1: "nt1 = set_gw (set_gl net p (Some ?gl)) gw (Some g')"
    and keys: "gw_id g' = gw_id g" "gw_name g' = gw_name g" "gw_addr g' = gw_addr g"
    and refs: "refs_ok ((dm_heap (nw_gws net))(gw \<mapsto> g')) (?L(p \<mapsto> ?gl)) ((dm_heap (nw_ops net))(op \<mapsto> ?x))"
    using admitted_link [OF inv gw op p gl can add] by blast
  obtain m where m: "module_join gwlink_entries (nw_links nt1) p = Some m" "nt2 = nt1\<lparr>nw_links := m\<rparr>"
    using join(1) by (auto simp: mbb_gwlink_join_def split: bind_splits)
  have fresh: "fresh_keys gwlink_entries ?L (dom ?L) p ?gl"
    using i p by (auto simp: fresh_keys_def gwlink_entries_def less_Suc_eq)
  have n1: "dm_heap (nw_links nt1) = ?L(p \<mapsto> ?gl)" "dm_link (nw_links nt1) = dm_link (nw_links net)" using nt1 by simp_all
  have links: "module_ok gwlink_entries m (dom (dm_heap m))" "dm_heap m = ?L(p \<mapsto> ?gl)"
    using module_add_ok [OF net_invD(2) [OF inv] _ fresh n1 m(1)] p by (simp_all add: domIff)
  have nt3: "nt3 = set_op nt2 op (Some ?x)" using join(2) op m(2) nt1 by (auto simp: mbb_operator_add_link_def)
  have ops: "module_ok operator_entries (nw_ops nt3) (dom (dm_heap (nw_ops nt3)))"
    by (rule same_operator_keys [where x' = ?x, OF net_invD(3) [OF inv] op]) (simp_all add: nt3 m(2) nt1)
  have gws: "module_ok gateway_entries (nw_gws nt3) (dom (dm_heap (nw_gws nt3)))"
    by (rule same_gateway_keys [OF net_invD(1) [OF inv] gw _ _ keys]) (simp_all add: nt3 m(2) nt1)
  show ?thesis
    using gws links ops refs unfolding net_inv_def nt3 m(2) nt1 by (simp del: dom_fun_upd)
qed

text \<open>A link leaves both ends, and new times move it within its queue or change nothing.\<close>

lemma drop_gwlink_inv:
  assumes inv: "net_inv net" and p: "dm_heap (nw_links net) p = Some gl" and rm: "mbb_gwlink_remove net p = Some net'"
  shows "net_inv net'"
proof -
  note refs = net_invD(4) [OF inv]
  obtain g x where gx: "dm_heap (nw_gws net) (gl_gw gl) = Some g" "dm_heap (nw_ops net) (gl_op gl) = Some x"
    using refs_okD(7,8) [OF refs p] by blast
  let ?x = "x\<lparr>op_links := remove1 p (op_links x)\<rparr>"
  have pS: "p \<in> dom (dm_heap (nw_links net))" using p by auto
  obtain g' where g': "module_ok gwlink_entries (nw_links net') (dom (dm_heap (nw_links net)) - {p})"
      "dm_heap (nw_links net') = (dm_heap (nw_links net))(p := None)"
      "dm_heap (nw_gws net') = (dm_heap (nw_gws net))(gl_gw gl \<mapsto> g')" "\<And>k. queue_of g' k = remove1 p (queue_of g k)"
      "gateway_ok (dm_heap (nw_links net')) g'" "dm_heap (nw_ops net') = (dm_heap (nw_ops net))(gl_op gl \<mapsto> ?x)"
    using gwlink_remove_effect [OF net_invD(2) [OF inv] pS p refs_okD(1) [OF refs gx(1)] gx(1)
      refs_okD(2) [OF refs gx(1)] refs_okD(4) [OF refs gx(2)] gx(2)] rm by auto
  note parts = gwlink_remove_parts(1,2) [OF rm p gx(1)] gwlink_remove_parts(3) [OF rm p gx(1), of g']
  have gws: "module_ok gateway_entries (nw_gws net') (dom (dm_heap (nw_gws net')))"
    by (rule same_gateway_keys [OF net_invD(1) [OF inv] gx(1) g'(3)]) (use parts g'(3) in simp_all)
  have ops: "module_ok operator_entries (nw_ops net') (dom (dm_heap (nw_ops net')))"
    by (rule same_operator_keys [OF net_invD(3) [OF inv] gx(2) g'(6)]) (use parts in simp_all)
  have "refs_ok (dm_heap (nw_gws net')) (dm_heap (nw_links net')) (dm_heap (nw_ops net'))"
    unfolding g'(2,3,6) using refs_drop_link [OF refs p gx(1) _ g'(4) gx(2)] g'(2,5) by simp
  with gws ops g'(1,2) show ?thesis by (simp add: net_inv_def)
qed

lemma retime_gwlink_inv:
  assumes inv: "net_inv net" and p: "dm_heap (nw_links net) p = Some gl"
    and gl': "gl_id gl' = gl_id gl" "gl_gw gl' = gl_gw gl" "gl_link gl' = gl_link gl" "gl_op gl' = gl_op gl" and wf: "wf_link gl'"
    and move: "mbb_gateway_reorder_link (set_gl net p (Some gl')) (gl_gw gl) p = Some (net', ok)"
  shows "net_inv (if ok then net' else set_gl net' p (Some gl))"
proof -
  note refs = net_invD(4) [OF inv]
  obtain g where g: "dm_heap (nw_gws net) (gl_gw gl) = Some g" using refs_okD(7) [OF refs p] by blast
  have q: "p \<in> set (queue_of g (gl_link gl))" using refs_okD(3) [OF refs g] p by blast
  obtain g' where g': "net' = set_gw (set_gl net p (Some gl')) (gl_gw gl) (Some g')"
      "ok \<Longrightarrow> gateway_ok ((dm_heap (nw_links net))(p \<mapsto> gl')) g'" "ok \<Longrightarrow> \<forall>k. mset (queue_of g' k) = mset (queue_of g k)"
      "\<not> ok \<Longrightarrow> gateway_ok (dm_heap (nw_links net)) g'" "\<not> ok \<Longrightarrow> queue_of g' = queue_of g"
    using reorder_link_moved [OF g refs_okD(2) [OF refs g] p q wf gl'(3)] move by auto
  have keys: "gw_id g' = gw_id g" "gw_name g' = gw_name g" "gw_addr g' = gw_addr g"
    using gateway_keys_kept(2) [OF move, of g g'] g g'(1) by simp_all
  have gws: "module_ok gateway_entries (nw_gws net') (dom (dm_heap (nw_gws net')))"
    by (rule same_gateway_keys [OF net_invD(1) [OF inv] g _ _ keys]) (simp_all add: g'(1))
  show ?thesis
  proof (cases ok)
    case True
    have "module_ok gwlink_entries (nw_links net') (dom (dm_heap (nw_links net')))"
      by (rule same_gwlink_keys [where gl' = gl', OF net_invD(2) [OF inv] p]) (simp_all add: g'(1) gl'(1))
    moreover have "refs_ok ((dm_heap (nw_gws net))(gl_gw gl' \<mapsto> g')) ((dm_heap (nw_links net))(p \<mapsto> gl')) (dm_heap (nw_ops net))"
      by (rule refs_move_link [where g = g and g' = g', OF refs p]) (use True g g'(2,3) gl' mset_eq_setD in \<open>auto\<close>)
    ultimately show ?thesis using True inv gws gl'(2) unfolding net_inv_def g'(1) by simp
  next
    case False
    have "module_ok gwlink_entries (nw_links (set_gl net' p (Some gl))) (dom (dm_heap (nw_links (set_gl net' p (Some gl)))))"
      by (rule same_gwlink_keys [where gl' = gl, OF net_invD(2) [OF inv] p]) (simp_all add: g'(1) gl'(1))
    moreover have "refs_ok ((dm_heap (nw_gws net))(gl_gw gl \<mapsto> g')) ((dm_heap (nw_links net))(p \<mapsto> gl)) (dm_heap (nw_ops net))"
      by (rule refs_move_link [where g = g and g' = g', OF refs p]) (use False g g'(4,5) p in \<open>auto simp: fun_upd_idem\<close>)
    ultimately show ?thesis using False inv gws unfolding net_inv_def g'(1) by simp
  qed
qed

section \<open>The commands\<close>

text \<open>
  The allocator gives an address that is not in use, the database gives numbers that are not
  in use, and making the session variable of the view does not touch the network.
\<close>

definition fresh_address :: "network \<Rightarrow> gpointer \<Rightarrow> bool" where
  "fresh_address net p \<longleftrightarrow> p \<noteq> 0 \<and> dm_heap (nw_gws net) p = None \<and> dm_heap (nw_links net) p = None \<and> dm_heap (nw_ops net) p = None"

definition fresh_net_ids :: "('v, 'w, 'i) app_srv \<Rightarrow> thread_id \<Rightarrow> bool" where
  "fresh_net_ids st t \<longleftrightarrow>
     (\<forall>name db i e. mbb_db_operator_add (srv_db st) t name = Some (db, i, e) \<longrightarrow> 0 \<le> i \<longrightarrow>
        (\<forall>q x. dm_heap (nw_ops (srv_net st)) q = Some x \<longrightarrow> op_id x \<noteq> i)) \<and>
     (\<forall>name ip db i e. mbb_db_gateway_add (srv_db st) t name ip = Some (db, i, e) \<longrightarrow> 0 \<le> i \<longrightarrow>
        (\<forall>q x. dm_heap (nw_gws (srv_net st)) q = Some x \<longrightarrow> gw_id x \<noteq> i)) \<and>
     (\<forall>gl db i e. mbb_db_gwlink_add (srv_db st) t (srv_net st) gl = Some (db, i, e) \<longrightarrow> 0 \<le> i \<longrightarrow>
        (\<forall>q x. dm_heap (nw_links (srv_net st)) q = Some x \<longrightarrow> gl_id x \<noteq> i))"

definition quiet_view :: "gpointer \<Rightarrow> ('v, 'w, 'i) app_srv \<Rightarrow> bool" where
  "quiet_view gwiv_var st \<longleftrightarrow>
     (\<forall>priv f. mbb_var_get_priv st gwiv_var = Some priv \<longrightarrow> sp_op_new priv = Some f \<longrightarrow> 
        (\<forall>d m. ap_net (fst (f d m)) = ap_net m \<and> ap_acc (fst (f d m)) = ap_acc m))"

lemma fresh_net_idsD:
  assumes "fresh_net_ids st t" "0 \<le> i"
  shows "mbb_db_operator_add (srv_db st) t name = Some (db, i, e) \<Longrightarrow> dm_heap (nw_ops (srv_net st)) q = Some x \<Longrightarrow> op_id x \<noteq> i"
    "mbb_db_gateway_add (srv_db st) t name ip = Some (db, i, e) \<Longrightarrow> dm_heap (nw_gws (srv_net st)) q = Some y \<Longrightarrow> gw_id y \<noteq> i"
    "mbb_db_gwlink_add (srv_db st) t (srv_net st) gl = Some (db, i, e) \<Longrightarrow> dm_heap (nw_links (srv_net st)) q = Some z \<Longrightarrow> gl_id z \<noteq> i"
  using assms unfolding fresh_net_ids_def by blast+

lemma quiet_view_data:
  assumes "quiet_view gwiv_var s" "mbb_session_var_get_data s t gwiv_var = Some (s', d)"
  shows "srv_net s' = srv_net s" "srv_acc s' = srv_acc s" "sv_acl s' = sv_acl s" "quiet_view gwiv_var s'"
proof -
  have "sv_vars s' = sv_vars s \<and> srv_net s' = srv_net s \<and> srv_acc s' = srv_acc s \<and> sv_acl s' = sv_acl s"
    using assms by (auto simp: mbb_session_var_get_data_def session_insert_var_def set_session_def quiet_view_def Let_def
      split: option.splits bind_splits prod.splits) (metis fst_conv)+
  then show "srv_net s' = srv_net s" "srv_acc s' = srv_acc s" "sv_acl s' = sv_acl s" "quiet_view gwiv_var s'"
    using assms(1) by (simp_all add: quiet_view_def mbb_var_get_priv_def)
qed

lemma fresh_addressD:
  assumes "fresh_address net p"
  shows "p \<noteq> 0" "dm_heap (nw_gws net) p = None" "dm_heap (nw_links net) p = None" "dm_heap (nw_ops net) p = None"
  using assms by (simp_all add: fresh_address_def)

text \<open>What a command leaves behind: a consistent network, unchanged when there is an answer.\<close>

definition net_kept :: "('v, 'w, 'i) app_srv \<Rightarrow> ('v, 'w, 'i) app_srv \<times> xml_tag option \<Rightarrow> bool" where
  "net_kept st r \<longleftrightarrow> net_inv (srv_net (fst r)) \<and> (snd r \<noteq> None \<longrightarrow> srv_net (fst r) = srv_net st)"

lemma net_kept_same [simp]: "net_inv (srv_net st) \<Longrightarrow> net_kept st (st, a)" "net_inv (srv_net st) \<Longrightarrow> net_kept st (set_db st db, a)"
  by (simp_all add: net_kept_def)

lemma net_kept_done: "net_inv net \<Longrightarrow> net_kept st (set_net s net, None)"
  by (simp add: net_kept_def)

lemma net_name_refused:
  "mbb_gateway_mod_name net p n = Some (net', False) \<Longrightarrow> net' = net"
  "mbb_operator_mod_name net p n = Some (net', False) \<Longrightarrow> net' = net"
  by (auto simp: mbb_gateway_mod_name_def mbb_operator_mod_name_def module_mod_name_def Let_def split: bind_splits option.splits if_splits)

lemmas net_dests = reply_msg_outcome reply_error_outcome net_name_refused

lemma add_operator_kept:
  assumes "add_operator p st t tag = Some r" "net_inv (srv_net st)" "fresh_address (srv_net st) p" "fresh_net_ids st t"
  shows "net_kept st r"
  using assms(1) unfolding add_operator_def
proof (cases rule: with_args_cases)
  case (good vs)
  have "net_inv net" if "mbb_operator_get_by_name (srv_net st) name = None" "mbb_db_operator_add (srv_db st) t name = Some (db, i, e)"
    "0 \<le> i" "mbb_operator_join (set_op (srv_net st) p (Some (mbb_operator_new i name))) p = Some net" for name db i e net
    by (rule join_operator_inv [OF assms(2) that(1) _ fresh_addressD(4,1) [OF assms(3)] that(4)])
      (rule fresh_net_idsD(1) [OF assms(4) that(3,2)])
  with good assms(2) show ?thesis
    by (auto simp: Let_def not_less net_kept_done split: bind_splits if_splits dest!: net_dests)
qed (simp add: assms)

lemma drop_operator_kept:
  assumes "drop_operator st t tag = Some r" "net_inv (srv_net st)"
  shows "net_kept st r"
  using assms(1) unfolding drop_operator_def
  by (cases rule: with_args_cases)
    (use assms(2) in \<open>auto simp: Let_def net_kept_done drop_operator_inv split: bind_splits if_splits option.splits dest!: net_dests\<close>)

lemma operator_mod_name_kept:
  assumes "operator_mod_name st t tag = Some r" "net_inv (srv_net st)"
  shows "net_kept st r"
  using assms(1) unfolding operator_mod_name_def
  by (cases rule: with_args_cases)
    (use assms(2) in \<open>auto simp: Let_def net_kept_done rename_operator_inv net_kept_def split: bind_splits if_splits option.splits dest!: net_dests\<close>)

lemma add_gateway_kept:
  assumes "add_gateway p st t tag = Some r" "net_inv (srv_net st)" "fresh_address (srv_net st) p" "fresh_net_ids st t"
  shows "net_kept st r"
  using assms(1) unfolding add_gateway_def
proof (cases rule: with_args_cases)
  case (good vs)
  have "net_inv net" if "mbb_gateway_get_by_name (srv_net st) name = None" "mbb_gateway_get_by_addr (srv_net st) ip = None"
    "mbb_db_gateway_add (srv_db st) t name ip = Some (db, i, e)"
    "0 \<le> i" "mbb_gateway_join (set_gw (srv_net st) p (Some (mbb_gateway_new i name ip))) p = Some net" for name ip db i e net
    by (rule join_gateway_inv [OF assms(2) that(1,2) _ fresh_addressD(2,1) [OF assms(3)] that(5)])
      (rule fresh_net_idsD(2) [OF assms(4) that(4,3)])
  with good assms(2) show ?thesis
    by (auto simp: Let_def not_less net_kept_done split: bind_splits if_splits dest!: net_dests)
qed (simp add: assms)

lemma drop_gateway_kept:
  assumes "drop_gateway st t tag = Some r" "net_inv (srv_net st)"
  shows "net_kept st r"
  using assms(1) unfolding drop_gateway_def
  by (cases rule: with_args_cases)
    (use assms(2) in \<open>auto simp: Let_def net_kept_done drop_gateway_inv split: bind_splits if_splits option.splits dest!: net_dests\<close>)

lemma gateway_mod_name_kept:
  assumes "gateway_mod_name st t tag = Some r" "net_inv (srv_net st)"
  shows "net_kept st r"
  using assms(1) unfolding gateway_mod_name_def
  by (cases rule: with_args_cases)
    (use assms(2) in \<open>auto simp: Let_def net_kept_done rename_gateway_inv net_kept_def split: bind_splits if_splits option.splits dest!: net_dests\<close>)

lemma add_gwlink_kept:
  assumes "add_gwlink p now st t tag = Some r" "net_inv (srv_net st)" "fresh_address (srv_net st) p" "fresh_net_ids st t"
  shows "net_kept st r"
  using assms(1) unfolding add_gwlink_def
proof (cases rule: with_args_cases)
  case (good vs)
  have step: "ok \<and> (\<forall>n2 n3. mbb_gwlink_join nt p = Some n2 \<longrightarrow> mbb_operator_add_link n2 op p = Some n3 \<longrightarrow> net_inv n3)"
    if h: "mbb_operator_get_by_name (srv_net st) name = Some op"
      "mbb_gateway_can_add (set_gl (srv_net st) p (Some \<lparr>gl_id = 0, gl_op = op, gl_gw = gw, gl_link = link, gl_start = now, gl_end = 0\<rparr>)) gw p True = Some True"
      "mbb_db_gwlink_add (srv_db st) t (srv_net st) \<lparr>gl_id = 0, gl_op = op, gl_gw = gw, gl_link = link, gl_start = now, gl_end = 0\<rparr> = Some (db, i, e)"
      "mbb_gateway_add_link (set_gl (srv_net st) p (Some \<lparr>gl_id = i, gl_op = op, gl_gw = gw, gl_link = link, gl_start = now, gl_end = 0\<rparr>)) gw p = Some (nt, ok, old)"
      "0 \<le> i" for name op gw link db i e nt ok old
  proof -
    let ?gl = "\<lparr>gl_id = 0, gl_op = op, gl_gw = gw, gl_link = link, gl_start = now, gl_end = 0\<rparr>"
    have add: "mbb_gateway_add_link (set_gl (srv_net st) p (Some (?gl\<lparr>gl_id := i\<rparr>))) gw p = Some (nt, ok, old)" using h(4) by simp
    obtain g where g: "dm_heap (nw_gws (srv_net st)) gw = Some g" using h(2) by (auto simp: mbb_gateway_can_add_def split: bind_splits)
    obtain x where x: "dm_heap (nw_ops (srv_net st)) op = Some x"
      using h(1) operators.get_by_name [OF net_invD(3) [OF assms(2), unfolded operator_entries_def], of name op]
      by (auto simp: mbb_operator_get_by_name_def)
    have gl: "wf_link ?gl" "gl_gw ?gl = gw" "gl_op ?gl = op" by (simp_all add: wf_link_def)
    note a = assms(2) g x fresh_addressD(3) [OF assms(3)] gl
    have i: "gl_id y \<noteq> i" if "dm_heap (nw_links (srv_net st)) q = Some y" for q y
      using fresh_net_idsD(3) [OF assms(4) h(5,3) that] .
    have "net_inv n3" if "mbb_gwlink_join nt p = Some n2" "mbb_operator_add_link n2 op p = Some n3" for n2 n3
      by (rule add_gwlink_inv [OF a _ h(2) add that]) (rule i)
    with admitted_link [OF a h(2) add] show ?thesis by blast
  qed
  show ?thesis
    by (insert good assms(2)) (auto simp: Let_def not_less split: bind_splits if_splits option.splits dest!: net_dests;
      frule (4) step; simp add: net_kept_done)
qed (simp add: assms)

lemma drop_gwlink_kept:
  assumes "drop_gwlink st t tag = Some r" "net_inv (srv_net st)"
  shows "net_kept st r"
  using assms(1) unfolding drop_gwlink_def
  by (cases rule: with_args_cases)
    (use assms(2) in \<open>auto simp: Let_def net_kept_done drop_gwlink_inv split: bind_splits if_splits option.splits dest!: net_dests\<close>)

lemma gwlink_mod_time_kept:
  assumes "gwlink_mod_time env st t tag = Some r" "net_inv (srv_net st)"
  shows "net_inv (srv_net (fst r))"
  using assms(1) unfolding gwlink_mod_time_def
proof (cases rule: with_args_cases)
  case (good vs)
  have step: "net_inv (if ok then net else set_gl net p (Some gl))"
    if "dm_heap (nw_links (srv_net st)) p = Some gl"
      "mbb_gateway_reorder_link (set_gl (srv_net st) p (Some gl')) (gl_gw gl) p = Some (net, ok)"
      "gl_id gl' = gl_id gl" "gl_gw gl' = gl_gw gl" "gl_link gl' = gl_link gl" "gl_op gl' = gl_op gl"
      "mbb_time_becmp (gl_start gl') (gl_end gl') \<le> 0"
    for p gl gl' net ok
  proof -
    have "wf_link gl'" using that(7) by (auto simp: wf_link_def mbb_time_becmp_def timecmp_def split: if_splits)
    then show ?thesis by (rule retime_gwlink_inv [OF assms(2) that(1,3-6) _ that(2)])
  qed
  show ?thesis
    by (insert good assms(2)) (auto simp: Let_def not_less split: bind_splits if_split_asm option.splits dest!: net_dests; frule (1) step; simp)
qed (simp add: assms)

lemma gather_gwlinks_kept:
  assumes "quiet_view gwiv_var s" "gather_gwlinks bool_at gwiv_var t show_op ps (s, ans) = Some (s', ans')"
  shows "srv_net s' = srv_net s \<and> srv_acc s' = srv_acc s \<and> sv_acl s' = sv_acl s"
  using assms
proof (induction ps arbitrary: s ans)
  case (Cons p ps)
  obtain s1 a1 where s1: "gather_gwlink bool_at gwiv_var t show_op p (s, ans) = Some (s1, a1)"
      "gather_gwlinks bool_at gwiv_var t show_op ps (s1, a1) = Some (s', ans')"
    using Cons.prems(2) by (auto split: bind_splits)
  have "srv_net s1 = srv_net s" "srv_acc s1 = srv_acc s" "sv_acl s1 = sv_acl s" "quiet_view gwiv_var s1"
    using s1(1) by (auto simp: gather_gwlink_def gateway_view_def mbb_gwman_get_ipview_def
      split: bind_splits dest: quiet_view_data [OF Cons.prems(1)])
  with Cons.IH [OF _ s1(2)] show ?case by simp
qed simp

lemma show_net_kept:
  assumes "net_inv (srv_net st)" "quiet_view gwiv_var st"
  shows "show_operators ord st t tag = Some r \<Longrightarrow> net_kept st r" "show_gateways ord st t tag = Some r \<Longrightarrow> net_kept st r"
    "gateway_show_gwlinks st t tag = Some r \<Longrightarrow> net_kept st r" "show_gwlinks bool_at gwiv_var ord st t tag = Some r \<Longrightarrow> net_kept st r"
    "operator_show_gwlinks bool_at gwiv_var st t tag = Some r \<Longrightarrow> net_kept st r"
  using assms gather_gwlinks_kept [OF assms(2)]
  by (auto simp: show_operators_def show_gateways_def gateway_show_gwlinks_def show_gwlinks_def operator_show_gwlinks_def
    net_kept_def with_args_def split: bind_splits sum.splits option.splits dest!: net_dests)

lemma net_commands_kept:
  assumes cmd: "(name, h, cap) \<in> set (net_commands p now ord env bool_at gwiv_var)" and run: "h st t tag = Some r"
    and inv: "net_inv (srv_net st)" and fresh: "fresh_address (srv_net st) p" "fresh_net_ids st t" and quiet: "quiet_view gwiv_var st"
  shows "net_kept st r \<or> name = ''mbb-gwlink-mod-time'' \<and> net_inv (srv_net (fst r))"
  using cmd run unfolding net_commands_defs
  by (auto dest!: show_net_kept [OF inv quiet] add_operator_kept [OF _ inv fresh] drop_operator_kept [OF _ inv]
    operator_mod_name_kept [OF _ inv] add_gateway_kept [OF _ inv fresh] drop_gateway_kept [OF _ inv] gateway_mod_name_kept [OF _ inv]
    add_gwlink_kept [OF _ inv fresh] drop_gwlink_kept [OF _ inv] gwlink_mod_time_kept [OF _ inv])

text \<open>In a consistent network a flow finds exactly the link of its gateway and number that is valid at its time.\<close>

lemma find_link_exact:
  assumes inv: "net_inv net" and t: "t \<noteq> 0"
  shows "mbb_gateway_find_link net ip link t = Some (Some p) \<longleftrightarrow>
     (\<exists>gl g. dm_heap (nw_links net) p = Some gl \<and> gl_link gl = link \<and> link_admits gl t \<and>
        dm_heap (nw_gws net) (gl_gw gl) = Some g \<and> gw_addr g = ip)"
proof (cases "mbb_gateway_get_by_addr net ip")
  case None
  then have "\<not> (\<exists>gw g. dm_heap (nw_gws net) gw = Some g \<and> gw_addr g = ip)" using get_by_addr [OF net_invD(1) [OF inv], of ip] by auto
  with None show ?thesis by (auto simp: mbb_gateway_find_link_def)
next
  case (Some gw)
  then obtain g where g: "dm_heap (nw_gws net) gw = Some g" "gw_addr g = ip" using get_by_addr [OF net_invD(1) [OF inv], of ip gw] by auto
  have only: "b = gw" if "dm_heap (nw_gws net) b = Some y" "gw_addr y = ip" for b y
    using that Some get_by_addr [OF net_invD(1) [OF inv], of ip b] by auto
  obtain r where r: "mbb_gateway_get_link net gw link t = Some r"
      "\<And>p. r = Some p \<longleftrightarrow> p \<in> set (queue_of g link) \<and> (\<exists>gl. dm_heap (nw_links net) p = Some gl \<and> link_admits gl t)"
    using get_link_finds [OF g(1) refs_okD(2) [OF net_invD(4) [OF inv] g(1)] t, of link] by blast
  have "mbb_gateway_find_link net ip link t = Some (Some p) \<longleftrightarrow> r = Some p" using Some r(1) by (simp add: mbb_gateway_find_link_def)
  also have "\<dots> \<longleftrightarrow> (\<exists>gl. dm_heap (nw_links net) p = Some gl \<and> gl_gw gl = gw \<and> gl_link gl = link \<and> link_admits gl t)"
    unfolding r(2) refs_okD(3) [OF net_invD(4) [OF inv] g(1)] by auto
  also have "\<dots> \<longleftrightarrow> (\<exists>gl y. dm_heap (nw_links net) p = Some gl \<and> gl_link gl = link \<and> link_admits gl t \<and>
        dm_heap (nw_gws net) (gl_gw gl) = Some y \<and> gw_addr y = ip)"
    using g only by blast
  finally show ?thesis .
qed

text \<open>
  C23. The commands on operators, gateways and links keep the network consistent: every registry
  holds exactly the objects in memory under unique keys, the queues of a gateway and the list
  of an operator hold exactly the links that name it, in order and without overlap, and no
  link names an object that is gone. A command that answers with a message has left the
  network as it was, except the change of times, and a flow finds afterwards exactly the link
  of its gateway and number that is valid at its time. The allocator and the database give an
  address and numbers that are not in use.
\<close>

theorem net_commands_inv:
  assumes cmd: "(name, h, cap) \<in> set (net_commands p now ord env bool_at gwiv_var)" and run: "h st t tag = Some (st', ans)"
    and inv: "net_inv (srv_net st)" and fresh: "fresh_address (srv_net st) p" "fresh_net_ids st t" and quiet: "quiet_view gwiv_var st"
  shows "net_inv (srv_net st') \<and> (ans \<noteq> None \<and> name \<noteq> ''mbb-gwlink-mod-time'' \<longrightarrow> srv_net st' = srv_net st) \<and>
     (\<forall>ip link tm q. tm \<noteq> 0 \<longrightarrow>
        (mbb_gateway_find_link (srv_net st') ip link tm = Some (Some q) \<longleftrightarrow>
         (\<exists>gl g. dm_heap (nw_links (srv_net st')) q = Some gl \<and> gl_link gl = link \<and> link_admits gl tm \<and>
            dm_heap (nw_gws (srv_net st')) (gl_gw gl) = Some g \<and> gw_addr g = ip)))"
proof -
  have k: "net_inv (srv_net st')" "ans \<noteq> None \<and> name \<noteq> ''mbb-gwlink-mod-time'' \<longrightarrow> srv_net st' = srv_net st"
    using net_commands_kept [OF cmd run inv fresh quiet] by (auto simp: net_kept_def)
  with find_link_exact [OF k(1)] show ?thesis by blast
qed

text \<open>One link of one gateway and one operator, which is dropped.\<close>

definition net3 :: network where
  "net3 = \<lparr>nw_gws = \<lparr>dm_link = Some \<lparr>dl_tables = [[Key_Ptr 16 \<mapsto> 16], [Key_Int 1 \<mapsto> 16], [Key_Str ''gw'' \<mapsto> 16], [Key_Int 10 \<mapsto> 16]], dl_destroy = True\<rparr>,
       dm_heap = [16 \<mapsto> (mbb_gateway_new 1 ''gw'' 10)\<lparr>gw_ht := Some [(3, [32])]\<rparr>]\<rparr>,
     nw_links = \<lparr>dm_link = Some \<lparr>dl_tables = [[Key_Ptr 32 \<mapsto> 32], [Key_Int 1 \<mapsto> 32]], dl_destroy = True\<rparr>,
       dm_heap = [32 \<mapsto> (net_gl 1 10 20)\<lparr>gl_op := 8\<rparr>]\<rparr>,
     nw_ops = \<lparr>dm_link = Some \<lparr>dl_tables = [[Key_Ptr 8 \<mapsto> 8], [Key_Int 1 \<mapsto> 8], [Key_Str ''op'' \<mapsto> 8]], dl_destroy = True\<rparr>,
       dm_heap = [8 \<mapsto> (mbb_operator_new 1 ''op'')\<lparr>op_links := [32]\<rparr>]\<rparr>\<rparr>"

definition nsrv0 :: "(unit, string list, unit mbb_db_iter) app_srv" where
  "nsrv0 = \<lparr>sv_mem = \<lparr>ap_vars = (), ap_net = net3, ap_acc = account0, ap_db = dbs0\<rparr>, sv_acl = acl0,
     sv_threads = Map.empty, sv_sessions = Map.empty, sv_session_id = 1, sv_session_ht = None, sv_var_queue = [], sv_vars = Map.empty,
     sv_var_ht = None, sv_cache_global = None, sv_modules = \<lparr>dm_link = None, dm_heap = Map.empty\<rparr>, sv_infos = Map.empty,
     sv_cur_info = None, sv_mod_key = \<lambda>_. None, sv_funcs = Map.empty, sv_func_ht = None,
     sv_auth_methods = None, sv_auth_heap = Map.empty, sv_auth_keys = None, sv_key_lifetime = 60\<rparr>"

definition drop_request :: xml_tag where
  "drop_request = Xml_Tag ''request'' [] None [(''gwlink'', [Xml_Tag ''gwlink'' [(''id'', VARIANT_STRING (Some ''1''))] None []])]"

lemma net3_inv: "net_inv net3"
  unfolding net_inv_def refs_ok_def
  by (auto simp: module_ok_def links_def net3_def net_defs mbb_operator_new_def gateway_entries_def gwlink_entries_def operator_entries_def
    std_entries_def less_Suc_eq queue_of_def gateway_ok_def table_ok_def queue_ok_def wf_link_def split: if_splits)

lemma drop_args: "mbb_xtv_call_z drop_request [(xtv_gwlink_id, False)] = Some (Inr [Some (XV_UInt 1)])"
proof -
  have "dec_of_nat 1 = ''1''" by code_simp
  then have "var_conv_uint ''1'' = Some 1" using var_conv_uint_dec [of 1] by (simp add: G_MAXUINT64_def)
  then show ?thesis
    by (simp add: drop_request_def mbb_xtv_call_z_def xml_tag_get_valuesv_def xtv_gwlink_id_def
      xtv_entry_def xml_tag_path_attr_def xml_tag_path_def g_strsplit_def xml_tag_get_child_def xml_tag_get_attr_def
      variant_get_string_def)
qed

lemma drop_gwlink_run: "\<exists>db net. drop_gwlink nsrv0 0 drop_request = Some (set_net (set_db nsrv0 db) net, None)"
proof -
  have "mbb_gwlink_get_by_id net3 1 = Some 32"
    by (simp add: mbb_gwlink_get_by_id_def module_get_def data_link_lookup_def net3_def)
  moreover have "\<exists>net. mbb_gwlink_remove net3 32 = Some net"
    by (simp add: mbb_gwlink_remove_def mbb_gwlink_detach_def module_detach_def data_link_steal_def data_link_lookup_def data_link_unlink_def
      mbb_gwlink_free_def mbb_gateway_del_link_def mbb_operator_del_link_def net3_def net_defs)
  moreover have "\<exists>db. mbb_db_gwlink_drop dbs0 0 1 = Some (db, True, None)"
    by (simp add: mbb_db_gwlink_drop_def dbs0_defs)
  moreover have "dm_heap (nw_links net3) 32 = Some ((net_gl 1 10 20)\<lparr>gl_op := 8\<rparr>)" "gl_id ((net_gl 1 10 20)\<lparr>gl_op := 8\<rparr>) = 1"
    by (simp_all add: net3_def net_defs)
  ultimately show ?thesis
    by (auto simp: drop_gwlink_def with_args_def drop_args nsrv0_def to_gint_id set_db_def set_net_def)
qed

lemma nsrv0_fresh: "fresh_address (srv_net nsrv0) 64" "fresh_net_ids nsrv0 t" "quiet_view 1 nsrv0"
proof -
  show "fresh_address (srv_net nsrv0) 64" by (simp add: fresh_address_def nsrv0_def net3_def)
  show "fresh_net_ids nsrv0 t"
    using fetch_inserted0 [of t]
    by (auto simp: fresh_net_ids_def nsrv0_def mbb_db_operator_add_def mbb_db_gateway_add_def mbb_db_gwlink_add_def mbb_db_insert_ret_def
      split: option.splits bind_splits dest: leD)
  show "quiet_view 1 nsrv0" by (simp add: quiet_view_def mbb_var_get_priv_def nsrv0_def)
qed

theorem net_commands_inv_witness:
  "\<exists>st'. drop_gwlink nsrv0 0 drop_request = Some (st', None) \<and> net_inv (srv_net st')"
proof -
  obtain st' where r: "drop_gwlink nsrv0 0 drop_request = Some (st', None)" using drop_gwlink_run by auto
  have "(''mbb-drop-gwlink'', drop_gwlink, MBB_CAP_WHEEL) \<in>
      set (net_commands 64 0 (\<lambda>_. []) \<lparr>xe_cal = undefined, xe_re_new = \<lambda>_. None\<rparr> (\<lambda>_ _. False) 1)"
    by (simp add: net_commands_defs)
  from net_commands_inv [OF this r _ nsrv0_fresh] net3_inv r show ?thesis by (simp add: nsrv0_def)
qed

end
