(* ===== verification/Ownership.thy ===== *)
theory Ownership
  imports Data_Link
begin

text \<open>
  Objects that name their owner, and owners that list their objects: the units of a consumer
  (\<open>con\<close> of \<open>mbbd/mbbunit.h\<close>, \<open>units\<close> of \<open>mbbd/mbbconsumer.h\<close>) and the consumers of a user (\<open>user\<close> of
  \<open>mbbd/mbbconsumer.h\<close>, \<open>childs\<close> of \<open>mbbd/mbbuser.h\<close>). A NULL owner is 0. The locale states what
  holds of both fields, and that the ways in which the commands change them keep it so.
\<close>

text \<open>The lists hold exactly the objects that name the owner, and no owner that is named is gone.\<close>

definition owned :: "('c \<Rightarrow> gpointer) \<Rightarrow> ('p \<Rightarrow> gpointer list) \<Rightarrow> 'p heap \<Rightarrow> 'c heap \<Rightarrow> bool" where
  "owned owner childs P C \<longleftrightarrow>
     (\<forall>a x. P a = Some x \<longrightarrow> a \<noteq> 0 \<and> distinct (childs x) \<and>
        (\<forall>c. c \<in> set (childs x) \<longleftrightarrow> (\<exists>y. C c = Some y \<and> owner y = a))) \<and>
     (\<forall>c y. C c = Some y \<longrightarrow> owner y \<noteq> 0 \<longrightarrow> P (owner y) \<noteq> None)"

locale ownership =
  fixes owner :: "'c \<Rightarrow> gpointer" and childs :: "'p \<Rightarrow> gpointer list"
    and set_owner :: "gpointer \<Rightarrow> 'c \<Rightarrow> 'c" and set_list :: "gpointer list \<Rightarrow> 'p \<Rightarrow> 'p"
  assumes owner_set_owner [simp]: "owner (set_owner a y) = a"
    and childs_set_list [simp]: "childs (set_list cs x) = cs"
begin

lemma ownedD:
  assumes "owned owner childs P C"
  shows "P a = Some x \<Longrightarrow> a \<noteq> 0" "P a = Some x \<Longrightarrow> distinct (childs x)"
    "P a = Some x \<Longrightarrow> c \<in> set (childs x) \<longleftrightarrow> (\<exists>y. C c = Some y \<and> owner y = a)"
    "C c = Some y \<Longrightarrow> owner y \<noteq> 0 \<Longrightarrow> \<exists>x. P (owner y) = Some x"
  using assms unfolding owned_def by blast+

lemma ownedI:
  assumes "\<And>a x. P a = Some x \<Longrightarrow> a \<noteq> 0" "\<And>a x. P a = Some x \<Longrightarrow> distinct (childs x)"
    "\<And>a x c. P a = Some x \<Longrightarrow> c \<in> set (childs x) \<longleftrightarrow> (\<exists>y. C c = Some y \<and> owner y = a)"
    "\<And>c y. C c = Some y \<Longrightarrow> owner y \<noteq> 0 \<Longrightarrow> P (owner y) \<noteq> None"
  shows "owned owner childs P C"
  using assms unfolding owned_def by simp

text \<open>Owners come and go without objects, and a change elsewhere matters to no reference.\<close>

lemma new_owner:
  assumes ok: "owned owner childs P C" and a: "P a = None" "a \<noteq> 0" "childs x = []"
  shows "owned owner childs (P(a \<mapsto> x)) C"
proof -
  have "owner y \<noteq> a" if "C c = Some y" for c y using ownedD(4) [OF ok that] a by auto
  then show ?thesis using a ownedD [OF ok] by (intro ownedI) (auto split: if_splits)
qed

lemma drop_owner:
  assumes ok: "owned owner childs P C" and a: "P a = Some x" "childs x = []"
  shows "owned owner childs (P(a := None)) C"
proof -
  have "owner y \<noteq> a" if "C c = Some y" for c y using ownedD(3) [OF ok a(1), of c] a that by auto
  then show ?thesis using ownedD [OF ok] by (intro ownedI) (auto split: if_splits)
qed

lemma same_owner:
  assumes ok: "owned owner childs P C" and a: "P a = Some x" "childs x' = childs x"
  shows "owned owner childs (P(a \<mapsto> x')) C"
  using a ownedD [OF ok] by (intro ownedI) (auto split: if_splits)

lemma same_lists:
  assumes ok: "owned owner childs P C" and same: "\<And>a. map_option childs (P' a) = map_option childs (P a)"
  shows "owned owner childs P' C"
proof -
  have P: "\<exists>x. P a = Some x \<and> childs x = childs x'" if "P' a = Some x'" for a x' using that same [of a] by (cases "P a") auto
  have P': "P' a \<noteq> None" if "P a \<noteq> None" for a using that same [of a] by (cases "P a"; cases "P' a") auto
  show ?thesis
  proof (rule ownedI)
    fix a x'
    assume a: "P' a = Some x'"
    then obtain x where x: "P a = Some x" "childs x = childs x'" using P by blast
    show "a \<noteq> 0" "distinct (childs x')" "c \<in> set (childs x') \<longleftrightarrow> (\<exists>y. C c = Some y \<and> owner y = a)" for c
      using ownedD(1-3) [OF ok x(1)] x(2) by auto
  next
    show "P' (owner y) \<noteq> None" if "C c = Some y" "owner y \<noteq> 0" for c y using P' ownedD(4) [OF ok that] by auto
  qed
qed

lemma same_child:
  assumes ok: "owned owner childs P C" and c: "C c = Some y" "owner y' = owner y"
  shows "owned owner childs P (C(c \<mapsto> y'))"
  using c ownedD [OF ok] by (intro ownedI) (auto split: if_splits)

lemma new_child:
  assumes ok: "owned owner childs P C" and c: "C c = None" "owner y = 0"
  shows "owned owner childs P (C(c \<mapsto> y))"
proof -
  have "c \<notin> set (childs x)" if "P a = Some x" for a x using ownedD(3) [OF ok that] c by auto
  then show ?thesis using c ownedD [OF ok] by (intro ownedI) (auto split: if_splits)
qed

lemma drop_child:
  assumes ok: "owned owner childs P C" and c: "C c = Some y" "owner y = 0"
  shows "owned owner childs P (C(c := None))"
proof -
  have "c \<notin> set (childs x)" if "P a = Some x" for a x using ownedD(1,3) [OF ok that] c by auto
  then show ?thesis using c ownedD [OF ok] by (intro ownedI) (auto split: if_splits)
qed

text \<open>An object without owner gets one, and an owned object loses it.\<close>

lemma attach:
  assumes ok: "owned owner childs P C" and c: "\<And>y. C c = Some y \<Longrightarrow> owner y = 0" and a: "P a = Some x"
  shows "owned owner childs (P(a \<mapsto> set_list (c # childs x) x)) (C(c \<mapsto> set_owner a y'))"
proof -
  have "c \<notin> set (childs x')" if "P b = Some x'" for b x' using ownedD(1,3) [OF ok that] c by auto
  then show ?thesis using a ownedD [OF ok] by (intro ownedI) (auto split: if_splits)
qed

lemma detach:
  assumes ok: "owned owner childs P C" and c: "C c = Some y" and a: "P (owner y) = Some x"
  shows "owned owner childs (P(owner y \<mapsto> set_list (remove1 c (childs x)) x)) (C(c \<mapsto> set_owner 0 y'))"
proof -
  have "c \<notin> set (childs x')" if "P b = Some x'" "b \<noteq> owner y" for b x' using ownedD(3) [OF ok that(1)] c that by auto
  moreover have "set (remove1 c (childs x)) = set (childs x) - {c}" using ownedD(2) [OF ok a] by (simp add: set_remove1_eq)
  ultimately show ?thesis using c a ownedD [OF ok] by (intro ownedI) (auto split: if_splits)
qed

end

end
