(* ===== verification/Account_Man.thy ===== *)
theory Account_Man
  imports Command
begin

text \<open>
  The commands on consumers and units: \<open>mbbd/mbbconsumerman.c\<close> and \<open>mbbd/mbbunitman.c\<close>. A
  consumer may belong to a user, whose list of consumers is part of the users and groups; a
  unit may belong to a consumer. New objects live at the address \<open>p\<close> that the allocator gives;
  \<open>now\<close> is the result of \<open>time\<close>.
\<close>

section \<open>Definitions\<close>

definition MBB_TIME_UNSET :: time_t where "MBB_TIME_UNSET = - 2"

subsection \<open>Consumers\<close>

definition gather_consumer :: "('v, 'w, 'i) app_srv \<Rightarrow> bool \<Rightarrow> gpointer \<Rightarrow> xml_tag \<Rightarrow> xml_tag option" where
  "gather_consumer st show_all p tag =
     do { con \<leftarrow> get_con (srv_acc st) p;
          if \<not> show_all \<and> c_end con \<noteq> 0 then Some tag
          else
            do { let xt = xml_tag_new ''consumer''
                   [(''id'', variant_new_int (c_id con)), (''name'', variant_new_string (Some (c_name con))),
                    (''start'', variant_new_long (c_start con)), (''end'', variant_new_long (c_end con))] None;
                 xt \<leftarrow> (if c_user con = 0 then Some xt
                        else map_option (\<lambda>u. xml_tag_set_attr xt ''user'' (variant_new_string (Some (u_name u))))
                               (dm_heap (acl_users (sv_acl st)) (c_user con)));
                 Some (xml_tag_add_child tag xt) } }"

text \<open>The consumers of a user whose name matches.\<close>

definition user_show_consumers ::
  "('v, 'w, 'i) app_srv \<Rightarrow> (string \<Rightarrow> bool) option \<Rightarrow> bool \<Rightarrow> gpointer list \<Rightarrow> xml_tag \<Rightarrow> xml_tag option" where
  "user_show_consumers st re show_all childs tag =
     gather_all (\<lambda>p tag. do { con \<leftarrow> get_con (srv_acc st) p;
                              if (case re of None \<Rightarrow> True | Some re_ismatch \<Rightarrow> re_ismatch (c_name con))
                              then gather_consumer st show_all p tag else Some tag }) childs tag"

definition http_sorted :: "('v, 'w, 'i) app_srv \<Rightarrow> thread_id \<Rightarrow> string \<Rightarrow> xml_tag \<Rightarrow> xml_tag" where
  "http_sorted st t name ans = (if mbb_session_is_http st t then xml_tag_sort_by_attr ans name ''name'' else ans)"

definition show_consumers :: "ht_order \<Rightarrow> xtv_env \<Rightarrow> ('v, 'w, 'i) handler" where
  "show_consumers ord env st t tag =
     with_args st tag [(xtv_user_name, True), (xtv_regex_value env, True)] (\<lambda>vs.
       do { (name, re) \<leftarrow> (case vs of [n, r] \<Rightarrow> Some (xv_str n, xv_regex r) | _ \<Rightarrow> None);
            (case name of
               None \<Rightarrow>
                 do { ans \<leftarrow> gather_all (gather_consumer st True) (ord (mbb_consumer_forregex (srv_acc st) (dl_regex re))) mbb_xml_msg_ok;
                      Some (st, Some (http_sorted st t ''consumer'' ans)) }
             | Some name \<Rightarrow>
                 (case mbb_user_get_by_name (sv_acl st) name of
                    None \<Rightarrow> reply_msg st MBB_MSG_UNKNOWN_USER []
                  | Some user \<Rightarrow>
                      do { u \<leftarrow> dm_heap (acl_users (sv_acl st)) user;
                           ans \<leftarrow> user_show_consumers st re True (u_childs u) mbb_xml_msg_ok;
                           Some (st, Some (http_sorted st t ''consumer'' ans)) })) })"

definition self_show_consumers :: "xtv_env \<Rightarrow> ('v, 'w, 'i) handler" where
  "self_show_consumers env st t tag =
     with_args st tag [(xtv_regex_value env, True)] (\<lambda>vs.
       do { re \<leftarrow> (case vs of [r] \<Rightarrow> Some (xv_regex r) | _ \<Rightarrow> None);
            uid \<leftarrow> mbb_thread_get_uid st t;
            (case mbb_user_get_by_id (sv_acl st) uid of
               None \<Rightarrow> reply_msg st MBB_MSG_SELF_NOT_EXISTS []
             | Some user \<Rightarrow>
                 do { u \<leftarrow> dm_heap (acl_users (sv_acl st)) user;
                      ans \<leftarrow> user_show_consumers st re False (u_childs u) mbb_xml_msg_ok;
                      Some (st, Some (http_sorted st t ''consumer'' ans)) }) })"

definition add_consumer :: "gpointer \<Rightarrow> time_t \<Rightarrow> ('v, 'w, 'i) handler" where
  "add_consumer p now st t tag =
     with_args st tag [(xtv_name_value, False)] (\<lambda>vs.
       do { name \<leftarrow> (case vs of [v] \<Rightarrow> xv_str v | _ \<Rightarrow> None);
            if mbb_consumer_get_by_name (srv_acc st) name \<noteq> None then reply_msg st MBB_MSG_NAME_EXISTS [PF_S (Some name)]
            else
              do { (db, i, e) \<leftarrow> mbb_db_consumer_add (srv_db st) t name now 0;
                   let st = set_db st db;
                   if i < 0 then reply_error st e
                   else
                     do { acc \<leftarrow> mbb_consumer_join (set_con (srv_acc st) p (Some (mbb_consumer_new i name now 0))) p;
                          Some (set_acc st acc, None) } } })"

definition drop_consumer :: "('v, 'w, 'i) handler" where
  "drop_consumer st t tag =
     with_args st tag [(xtv_name_value, False)] (\<lambda>vs.
       do { name \<leftarrow> (case vs of [v] \<Rightarrow> xv_str v | _ \<Rightarrow> None);
            (case mbb_consumer_get_by_name (srv_acc st) name of
               None \<Rightarrow> reply_msg st MBB_MSG_UNKNOWN_CONSUMER []
             | Some con \<Rightarrow>
                 do { c \<leftarrow> get_con (srv_acc st) con;
                      if c_units c \<noteq> [] then reply_msg st MBB_MSG_HAS_CHILDS []
                      else
                        do { (db, ok, e) \<leftarrow> mbb_db_consumer_drop (srv_db st) t (c_id c);
                             let st = set_db st db;
                             if \<not> ok then reply_error st e
                             else
                               do { acl \<leftarrow> (if c_user c = 0 then Some (sv_acl st)
                                           else do { u \<leftarrow> dm_heap (acl_users (sv_acl st)) (c_user c);
                                                     Some (set_user (sv_acl st) (c_user c) (Some (mbb_user_del_consumer u con))) });
                                    acc \<leftarrow> mbb_consumer_remove (srv_acc st) con;
                                    Some (set_acc (set_acl st acl) acc, None) } } }) })"

definition consumer_mod_name :: "('v, 'w, 'i) handler" where
  "consumer_mod_name st t tag =
     with_args st tag [(xtv_name_value, False), (xtv_newname_value, False)] (\<lambda>vs.
       do { name \<leftarrow> (case vs of [n, _] \<Rightarrow> xv_str n | _ \<Rightarrow> None);
            newname \<leftarrow> (case vs of [_, n] \<Rightarrow> xv_str n | _ \<Rightarrow> None);
            (case mbb_consumer_get_by_name (srv_acc st) name of
               None \<Rightarrow> reply_msg st MBB_MSG_UNKNOWN_CONSUMER []
             | Some con \<Rightarrow>
                 if mbb_consumer_get_by_name (srv_acc st) newname \<noteq> None
                 then reply_msg st MBB_MSG_NAME_EXISTS [PF_S (Some newname)]
                 else
                   do { c \<leftarrow> get_con (srv_acc st) con;
                        (db, ok, e) \<leftarrow> mbb_db_consumer_mod_name (srv_db st) t (c_id c) newname;
                        let st = set_db st db;
                        if \<not> ok then reply_error st e
                        else
                          do { (acc, r) \<leftarrow> mbb_consumer_mod_name (srv_acc st) con newname;
                               let st = set_acc st acc;
                               if \<not> r then reply_msg st MBB_MSG_UNPOSSIBLE [] else Some (st, None) } }) })"

definition consumer_mod_time :: "xtv_env \<Rightarrow> ('v, 'w, 'i) handler" where
  "consumer_mod_time env st t tag =
     with_args st tag [(xtv_name_value, False), (xtv_etime_start env, True), (xtv_etime_end env, True)] (\<lambda>vs.
       do { name \<leftarrow> (case vs of [n, _, _] \<Rightarrow> xv_str n | _ \<Rightarrow> None);
            start \<leftarrow> (case vs of [_, s, _] \<Rightarrow> Some (xv_time VAR_CONV_TIME_UNSET s) | _ \<Rightarrow> None);
            fin \<leftarrow> (case vs of [_, _, e] \<Rightarrow> Some (xv_time VAR_CONV_TIME_UNSET e) | _ \<Rightarrow> None);
            if start = VAR_CONV_TIME_UNSET \<and> fin = VAR_CONV_TIME_UNSET then reply_msg st MBB_MSG_TIME_MISSED []
            else if start = MBB_TIME_PARENT \<or> fin = MBB_TIME_PARENT then reply_msg st MBB_MSG_ORPHAN []
            else
              (case mbb_consumer_get_by_name (srv_acc st) name of
                 None \<Rightarrow> reply_msg st MBB_MSG_UNKNOWN_CONSUMER []
               | Some con \<Rightarrow>
                   do { c \<leftarrow> get_con (srv_acc st) con;
                        let start = (if start < 0 then c_start c else start);
                        let fin = (if fin < 0 then c_end c else fin);
                        if mbb_time_becmp start fin > 0 then reply_msg st MBB_MSG_TIME_ORDER []
                        else
                          do { (acc, ok) \<leftarrow> mbb_consumer_mod_time (srv_acc st) con start fin;
                               if \<not> ok then reply_msg (set_acc st acc) MBB_MSG_TIME_COLLISION []
                               else
                                 do { (db, ok, e) \<leftarrow> mbb_db_consumer_mod_time (srv_db st) t (c_id c) start fin;
                                      let st = set_acc (set_db st db) acc;
                                      if \<not> ok then reply_error st e else Some (st, None) } } }) })"

definition consumer_set_user :: "('v, 'w, 'i) handler" where
  "consumer_set_user st t tag =
     with_args st tag [(xtv_consumer_name, False), (xtv_user_name, False)] (\<lambda>vs.
       do { con_name \<leftarrow> (case vs of [n, _] \<Rightarrow> xv_str n | _ \<Rightarrow> None);
            uname \<leftarrow> (case vs of [_, n] \<Rightarrow> xv_str n | _ \<Rightarrow> None);
            (case mbb_consumer_get_by_name (srv_acc st) con_name of
               None \<Rightarrow> reply_msg st MBB_MSG_UNKNOWN_CONSUMER []
             | Some con \<Rightarrow>
                 (case mbb_user_get_by_name (sv_acl st) uname of
                    None \<Rightarrow> reply_msg st MBB_MSG_UNKNOWN_USER []
                  | Some user \<Rightarrow>
                      do { c \<leftarrow> get_con (srv_acc st) con;
                           u \<leftarrow> dm_heap (acl_users (sv_acl st)) user;
                           if c_user c \<noteq> 0
                           then do { ans \<leftarrow> mbb_xml_msg_error (Some ''consumer already has user'') []; Some (st, Some ans) }
                           else
                             do { (db, ok, e) \<leftarrow> mbb_db_consumer_set_user (srv_db st) t (c_id c) (u_id u);
                                  let st = set_db st db;
                                  if \<not> ok then reply_error st e
                                  else
                                    Some (set_acc (set_acl st (set_user (sv_acl st) user (Some (mbb_user_add_consumer u con))))
                                            (set_con (srv_acc st) con (Some (c\<lparr>c_user := user\<rparr>))), None) } })) })"

definition consumer_unset_user :: "('v, 'w, 'i) handler" where
  "consumer_unset_user st t tag =
     with_args st tag [(xtv_name_value, False)] (\<lambda>vs.
       do { name \<leftarrow> (case vs of [v] \<Rightarrow> xv_str v | _ \<Rightarrow> None);
            (case mbb_consumer_get_by_name (srv_acc st) name of
               None \<Rightarrow> reply_msg st MBB_MSG_UNKNOWN_CONSUMER []
             | Some con \<Rightarrow>
                 do { c \<leftarrow> get_con (srv_acc st) con;
                      if c_user c = 0 then Some (st, None)
                      else
                        do { (db, ok, e) \<leftarrow> mbb_db_consumer_unset_user (srv_db st) t (c_id c);
                             let st = set_db st db;
                             if \<not> ok then reply_error st e
                             else
                               do { u \<leftarrow> dm_heap (acl_users (sv_acl st)) (c_user c);
                                    Some (set_acc (set_acl st (set_user (sv_acl st) (c_user c) (Some (mbb_user_del_consumer u con))))
                                            (set_con (srv_acc st) con (Some (c\<lparr>c_user := 0\<rparr>))), None) } } }) })"

subsection \<open>Units\<close>

definition gather_unit :: "account \<Rightarrow> bool \<Rightarrow> gpointer \<Rightarrow> xml_tag \<Rightarrow> xml_tag option" where
  "gather_unit acc show_all p tag =
     do { u \<leftarrow> get_unit acc p;
          start \<leftarrow> mbb_unit_get_start acc p;
          fin \<leftarrow> mbb_unit_get_end acc p;
          if \<not> show_all \<and> fin \<noteq> 0 then Some tag
          else
            do { let xt = xml_tag_new ''unit''
                   [(''id'', variant_new_int (un_id u)), (''name'', variant_new_string (Some (un_name u))),
                    (''start'', variant_new_long start), (''end'', variant_new_long fin)] None;
                 xt \<leftarrow> (if un_con u = 0 then Some xt
                        else map_option (\<lambda>c. xml_tag_set_attr xt ''consumer'' (variant_new_string (Some (c_name c)))) (get_con acc (un_con u)));
                 let xt = (if un_start u < 0 then xml_tag_set_attr xt ''parent_start'' (variant_new_static_string (Some ''true'')) else xt);
                 let xt = (if un_end u < 0 then xml_tag_set_attr xt ''parent_end'' (variant_new_static_string (Some ''true'')) else xt);
                 Some (xml_tag_add_child tag xt) } }"

definition consumer_show_units ::
  "account \<Rightarrow> (string \<Rightarrow> bool) option \<Rightarrow> bool \<Rightarrow> gpointer \<Rightarrow> xml_tag \<Rightarrow> xml_tag option" where
  "consumer_show_units acc re show_all con tag =
     do { c \<leftarrow> get_con acc con;
          gather_all (\<lambda>p tag. do { u \<leftarrow> get_unit acc p;
                                   if (case re of None \<Rightarrow> True | Some re_ismatch \<Rightarrow> re_ismatch (un_name u))
                                   then gather_unit acc show_all p tag else Some tag }) (c_units c) tag }"

definition user_show_units ::
  "('v, 'w, 'i) app_srv \<Rightarrow> (string \<Rightarrow> bool) option \<Rightarrow> bool \<Rightarrow> gpointer \<Rightarrow> xml_tag \<Rightarrow> xml_tag option" where
  "user_show_units st re show_all user tag =
     do { u \<leftarrow> dm_heap (acl_users (sv_acl st)) user;
          gather_all (consumer_show_units (srv_acc st) re show_all) (u_childs u) tag }"

definition show_units :: "ht_order \<Rightarrow> xtv_env \<Rightarrow> ('v, 'w, 'i) handler" where
  "show_units ord env st t tag =
     with_args st tag [(xtv_user_name, True), (xtv_consumer_name, True), (xtv_regex_value env, True)] (\<lambda>vs.
       do { (uname, con_name, re) \<leftarrow> (case vs of [u, c, r] \<Rightarrow> Some (xv_str u, xv_str c, xv_regex r) | _ \<Rightarrow> None);
            (case (uname, con_name) of
               (Some _, Some _) \<Rightarrow> reply_msg st MBB_MSG_AMBIGUOUS_REQUEST []
             | (Some uname, None) \<Rightarrow>
                 (case mbb_user_get_by_name (sv_acl st) uname of
                    None \<Rightarrow> reply_msg st MBB_MSG_UNKNOWN_USER []
                  | Some user \<Rightarrow>
                      do { ans \<leftarrow> user_show_units st re True user mbb_xml_msg_ok; Some (st, Some (http_sorted st t ''unit'' ans)) })
             | (None, Some con_name) \<Rightarrow>
                 (case mbb_consumer_get_by_name (srv_acc st) con_name of
                    None \<Rightarrow> reply_msg st MBB_MSG_UNKNOWN_CONSUMER []
                  | Some con \<Rightarrow>
                      do { ans \<leftarrow> consumer_show_units (srv_acc st) re True con mbb_xml_msg_ok;
                           Some (st, Some (http_sorted st t ''unit'' ans)) })
             | (None, None) \<Rightarrow>
                 do { ans \<leftarrow> gather_all (gather_unit (srv_acc st) True) (ord (mbb_unit_forregex (srv_acc st) (dl_regex re))) mbb_xml_msg_ok;
                      Some (st, Some (http_sorted st t ''unit'' ans)) }) })"

definition self_show_units :: "xtv_env \<Rightarrow> ('v, 'w, 'i) handler" where
  "self_show_units env st t tag =
     with_args st tag [(xtv_consumer_name, True), (xtv_regex_value env, True)] (\<lambda>vs.
       do { (name, re) \<leftarrow> (case vs of [n, r] \<Rightarrow> Some (xv_str n, xv_regex r) | _ \<Rightarrow> None);
            uid \<leftarrow> mbb_thread_get_uid st t;
            (case mbb_user_get_by_id (sv_acl st) uid of
               None \<Rightarrow> reply_msg st MBB_MSG_SELF_NOT_EXISTS []
             | Some user \<Rightarrow>
                 (case name of
                    None \<Rightarrow>
                      do { ans \<leftarrow> user_show_units st re False user mbb_xml_msg_ok; Some (st, Some (http_sorted st t ''unit'' ans)) }
                  | Some name \<Rightarrow>
                      (case mbb_consumer_get_by_name (srv_acc st) name of
                         None \<Rightarrow> reply_msg st MBB_MSG_UNKNOWN_CONSUMER []
                       | Some con \<Rightarrow>
                           do { c \<leftarrow> get_con (srv_acc st) con;
                                if c_user c \<noteq> user then reply_msg st MBB_MSG_UNKNOWN_CONSUMER []
                                else
                                  do { ans \<leftarrow> consumer_show_units (srv_acc st) re False con mbb_xml_msg_ok;
                                       Some (st, Some (http_sorted st t ''unit'' ans)) } }))) })"

definition unit_show_self :: "('v, 'w, 'i) handler" where
  "unit_show_self st t tag =
     with_args st tag [(xtv_unit_name, False)] (\<lambda>vs.
       do { name \<leftarrow> (case vs of [v] \<Rightarrow> xv_str v | _ \<Rightarrow> None);
            (case mbb_unit_get_by_name (srv_acc st) name of
               None \<Rightarrow> reply_msg st MBB_MSG_UNKNOWN_UNIT []
             | Some p \<Rightarrow> do { ans \<leftarrow> gather_unit (srv_acc st) True p mbb_xml_msg_ok; Some (st, Some ans) }) })"

text \<open>\<open>unit_create\<close>; a NULL consumer is 0.\<close>

definition unit_create ::
  "gpointer \<Rightarrow> time_t \<Rightarrow> ('v, 'w, 'i) app_srv \<Rightarrow> thread_id \<Rightarrow> string \<Rightarrow> gpointer \<Rightarrow> bool
     \<Rightarrow> (('v, 'w, 'i) app_srv \<times> bool \<times> gerror option) option" where
  "unit_create p now st t name con inherit =
     do { let start = (if inherit \<and> con \<noteq> 0 then - 1 else now);
          let fin = (if con \<noteq> 0 then - 1 else 0);
          con_id \<leftarrow> (if con = 0 then Some (- 1) else map_option c_id (get_con (srv_acc st) con));
          (db, i, e) \<leftarrow> mbb_db_unit_add (srv_db st) t name con_id start fin;
          let st = set_db st db;
          if i < 0 then Some (st, False, e)
          else
            do { let u = mbb_unit_new i name start fin;
                 acc \<leftarrow> (if con = 0 then Some (set_unit (srv_acc st) p u)
                        else mbb_consumer_add_unit (set_unit (srv_acc st) p (u\<lparr>un_con := con\<rparr>)) con p);
                 acc \<leftarrow> mbb_unit_join acc p;
                 Some (set_acc st acc, True, None) } }"

definition add_unit :: "gpointer \<Rightarrow> time_t \<Rightarrow> ('v, 'w, 'i) handler" where
  "add_unit p now st t tag =
     with_args st tag [(xtv_name_value, False)] (\<lambda>vs.
       do { name \<leftarrow> (case vs of [v] \<Rightarrow> xv_str v | _ \<Rightarrow> None);
            if mbb_unit_get_by_name (srv_acc st) name \<noteq> None then reply_msg st MBB_MSG_NAME_EXISTS [PF_S (Some name)]
            else
              do { (st, ok, e) \<leftarrow> unit_create p now st t name 0 False;
                   if \<not> ok then reply_error st e else Some (st, None) } })"

text \<open>
  Removing a unit: the last reference frees it. Freeing a unit that still has networks would
  also withdraw them from the global map; \<open>drop_unit\<close> refuses such units, and \<open>None\<close> stands for
  that case here.
\<close>

definition mbb_unit_free :: "account \<Rightarrow> gpointer \<Rightarrow> account option" where
  "mbb_unit_free acc p =
     do { u \<leftarrow> get_unit acc p;
          if un_sep u \<noteq> [] then None
          else Some (acc\<lparr>ac_units := (ac_units acc)\<lparr>dm_heap := (dm_heap (ac_units acc))(p := None)\<rparr>\<rparr>) }"

definition mbb_unit_unref :: "account \<Rightarrow> gpointer \<Rightarrow> account option" where
  "mbb_unit_unref acc p =
     do { u \<leftarrow> get_unit acc p;
          let acc = set_unit acc p (u\<lparr>un_nref := un_nref u - 1\<rparr>);
          if un_nref u - 1 = 0 then mbb_unit_free acc p else Some acc }"

definition mbb_unit_remove :: "account \<Rightarrow> gpointer \<Rightarrow> account option" where
  "mbb_unit_remove acc p =
     do { u \<leftarrow> get_unit acc p;
          acc \<leftarrow> (if un_con u \<noteq> 0
                 then do { acc \<leftarrow> mbb_consumer_del_unit acc (un_con u) p; Some (set_unit acc p (u\<lparr>un_con := 0\<rparr>)) }
                 else Some acc);
          acc \<leftarrow> mbb_unit_detach acc p;
          mbb_unit_unref acc p }"

definition drop_unit :: "('v, 'w, 'i) handler" where
  "drop_unit st t tag =
     with_args st tag [(xtv_name_value, False)] (\<lambda>vs.
       do { name \<leftarrow> (case vs of [v] \<Rightarrow> xv_str v | _ \<Rightarrow> None);
            (case mbb_unit_get_by_name (srv_acc st) name of
               None \<Rightarrow> reply_msg st MBB_MSG_UNKNOWN_UNIT []
             | Some p \<Rightarrow>
                 do { u \<leftarrow> get_unit (srv_acc st) p;
                      if separator_count (un_sep u) \<noteq> 0 then reply_msg st MBB_MSG_HAS_CHILDS []
                      else
                        do { (db, ok, e) \<leftarrow> mbb_db_unit_drop (srv_db st) t (un_id u);
                             let st = set_db st db;
                             if \<not> ok then reply_error st e
                             else do { acc \<leftarrow> mbb_unit_remove (srv_acc st) p; Some (set_acc st acc, None) } } }) })"

definition unit_mod_name :: "('v, 'w, 'i) handler" where
  "unit_mod_name st t tag =
     with_args st tag [(xtv_name_value, False), (xtv_newname_value, False)] (\<lambda>vs.
       do { name \<leftarrow> (case vs of [n, _] \<Rightarrow> xv_str n | _ \<Rightarrow> None);
            newname \<leftarrow> (case vs of [_, n] \<Rightarrow> xv_str n | _ \<Rightarrow> None);
            (case mbb_unit_get_by_name (srv_acc st) name of
               None \<Rightarrow> reply_msg st MBB_MSG_UNKNOWN_UNIT []
             | Some p \<Rightarrow>
                 if mbb_unit_get_by_name (srv_acc st) newname \<noteq> None
                 then reply_msg st MBB_MSG_NAME_EXISTS [PF_S (Some newname)]
                 else
                   do { u \<leftarrow> get_unit (srv_acc st) p;
                        (db, ok, e) \<leftarrow> mbb_db_unit_mod_name (srv_db st) t (un_id u) newname;
                        let st = set_db st db;
                        if \<not> ok then reply_error st e
                        else
                          do { (acc, r) \<leftarrow> mbb_unit_mod_name (srv_acc st) p newname;
                               let st = set_acc st acc;
                               if \<not> r then reply_msg st MBB_MSG_UNPOSSIBLE [] else Some (st, None) } }) })"

definition unit_mod_time :: "xtv_env \<Rightarrow> ('v, 'w, 'i) handler" where
  "unit_mod_time env st t tag =
     with_args st tag [(xtv_name_value, False), (xtv_etime_start env, True), (xtv_etime_end env, True)] (\<lambda>vs.
       do { name \<leftarrow> (case vs of [n, _, _] \<Rightarrow> xv_str n | _ \<Rightarrow> None);
            start \<leftarrow> (case vs of [_, s, _] \<Rightarrow> Some (xv_time VAR_CONV_TIME_UNSET s) | _ \<Rightarrow> None);
            fin \<leftarrow> (case vs of [_, _, e] \<Rightarrow> Some (xv_time VAR_CONV_TIME_UNSET e) | _ \<Rightarrow> None);
            if start = VAR_CONV_TIME_UNSET \<and> fin = VAR_CONV_TIME_UNSET then reply_msg st MBB_MSG_TIME_MISSED []
            else
              (case mbb_unit_get_by_name (srv_acc st) name of
                 None \<Rightarrow> reply_msg st MBB_MSG_UNKNOWN_UNIT []
               | Some p \<Rightarrow>
                   do { u \<leftarrow> get_unit (srv_acc st) p;
                        if un_con u = 0 \<and> (start = MBB_TIME_PARENT \<or> fin = MBB_TIME_PARENT) then reply_msg st MBB_MSG_ORPHAN []
                        else
                          do { let start = (if start = MBB_TIME_UNSET then un_start u else start);
                               let fin = (if fin = MBB_TIME_UNSET then un_end u else fin);
                               bad \<leftarrow> (if un_con u \<noteq> 0
                                      then map_option (\<lambda>c. mbb_time_test_order start fin (c_start c) (c_end c)) (get_con (srv_acc st) (un_con u))
                                      else Some (if mbb_time_becmp start fin > 0 then Some MBB_MSG_INVALID_TIME_ORDER else None));
                               (case bad of
                                  Some no \<Rightarrow> reply_msg st no []
                                | None \<Rightarrow>
                                    do { (acc, ok) \<leftarrow> mbb_unit_mod_time (srv_acc st) p start fin;
                                         if \<not> ok then reply_msg (set_acc st acc) MBB_MSG_TIME_COLLISION []
                                         else
                                           do { (db, ok, e) \<leftarrow> mbb_db_unit_mod_time (srv_db st) t (un_id u) start fin;
                                                let st = set_acc (set_db st db) acc;
                                                if \<not> ok then reply_error st e else Some (st, None) } }) } }) })"

definition unit_set_consumer :: "('v, 'w, 'i) handler" where
  "unit_set_consumer st t tag =
     with_args st tag [(xtv_unit_name, False), (xtv_consumer_name, False)] (\<lambda>vs.
       do { unit_name \<leftarrow> (case vs of [n, _] \<Rightarrow> xv_str n | _ \<Rightarrow> None);
            con_name \<leftarrow> (case vs of [_, n] \<Rightarrow> xv_str n | _ \<Rightarrow> None);
            (case mbb_unit_get_by_name (srv_acc st) unit_name of
               None \<Rightarrow> reply_msg st MBB_MSG_UNKNOWN_UNIT []
             | Some p \<Rightarrow>
                 (case mbb_consumer_get_by_name (srv_acc st) con_name of
                    None \<Rightarrow> reply_msg st MBB_MSG_UNKNOWN_CONSUMER []
                  | Some con \<Rightarrow>
                      do { u \<leftarrow> get_unit (srv_acc st) p;
                           c \<leftarrow> get_con (srv_acc st) con;
                           if un_con u \<noteq> 0 then reply_msg st MBB_MSG_UNIT_HAS_CONSUMER []
                           else
                             do { (db, ok, e) \<leftarrow> mbb_db_unit_set_consumer (srv_db st) t (un_id u) (c_id c);
                                  let st = set_db st db;
                                  if \<not> ok then reply_error st e
                                  else
                                    do { acc \<leftarrow> mbb_unit_set_consumer (srv_acc st) p con;
                                         acc \<leftarrow> mbb_consumer_add_unit acc con p;
                                         Some (set_acc st acc, None) } } })) })"

definition unit_unset_consumer :: "('v, 'w, 'i) handler" where
  "unit_unset_consumer st t tag =
     with_args st tag [(xtv_name_value, False)] (\<lambda>vs.
       do { name \<leftarrow> (case vs of [v] \<Rightarrow> xv_str v | _ \<Rightarrow> None);
            (case mbb_unit_get_by_name (srv_acc st) name of
               None \<Rightarrow> reply_msg st MBB_MSG_UNKNOWN_UNIT []
             | Some p \<Rightarrow>
                 do { u \<leftarrow> get_unit (srv_acc st) p;
                      if un_con u = 0 then Some (st, None)
                      else
                        do { acc \<leftarrow> mbb_consumer_del_unit (srv_acc st) (un_con u) p;
                             (acc, done) \<leftarrow> mbb_unit_unset_consumer acc p;
                             (acc, db, e) \<leftarrow>
                               (if done then Some (acc, srv_db st, None)
                                else do { acc \<leftarrow> mbb_unit_inherit_time acc p;
                                          (acc, _) \<leftarrow> mbb_unit_unset_consumer acc p;
                                          u \<leftarrow> get_unit acc p;
                                          (db, _, e) \<leftarrow> mbb_db_unit_mod_time (srv_db st) t (un_id u) (un_start u) (un_end u);
                                          Some (acc, db, e) });
                             (db, e) \<leftarrow>
                               (if e = None then do { (db, _, e) \<leftarrow> mbb_db_unit_unset_consumer db t (un_id u); Some (db, e) }
                                else Some (db, e));
                             let st = set_acc (set_db st db) acc;
                             if e \<noteq> None then reply_error st e else Some (st, None) } }) })"

definition consumer_add_unit :: "gpointer \<Rightarrow> time_t \<Rightarrow> ('v, 'w, 'i) handler" where
  "consumer_add_unit p now st t tag =
     with_args st tag [(xtv_consumer_name, False), (xtv_unit_name, False), (xtv_unit_inherit, True)] (\<lambda>vs.
       do { con_name \<leftarrow> (case vs of [n, _, _] \<Rightarrow> xv_str n | _ \<Rightarrow> None);
            unit_name \<leftarrow> (case vs of [_, n, _] \<Rightarrow> xv_str n | _ \<Rightarrow> None);
            inherit \<leftarrow> (case vs of [_, _, b] \<Rightarrow> Some (xv_bool False b) | _ \<Rightarrow> None);
            (case mbb_consumer_get_by_name (srv_acc st) con_name of
               None \<Rightarrow> reply_msg st MBB_MSG_UNKNOWN_CONSUMER []
             | Some con \<Rightarrow>
                 do { c \<leftarrow> get_con (srv_acc st) con;
                      if \<not> inherit \<and> c_end c \<noteq> 0 then reply_msg st MBB_MSG_CONSUMER_FREEZED [PF_S (Some con_name)]
                      else if mbb_unit_get_by_name (srv_acc st) unit_name \<noteq> None
                      then reply_msg st MBB_MSG_NAME_EXISTS [PF_S (Some unit_name)]
                      else
                        do { (st, ok, e) \<leftarrow> unit_create p now st t unit_name con inherit;
                             if \<not> ok then reply_error st e else Some (st, None) } }) })"

definition gather_mapped_unit :: "account \<Rightarrow> gpointer \<Rightarrow> xml_tag \<Rightarrow> xml_tag option" where
  "gather_mapped_unit acc p tag = do { m \<leftarrow> mbb_unit_mapped acc p; if m then gather_unit acc True p tag else Some tag }"

definition gather_nomapped_units :: "account \<Rightarrow> gpointer \<Rightarrow> xml_tag \<Rightarrow> xml_tag option" where
  "gather_nomapped_units acc p tag = do { m \<leftarrow> mbb_unit_mapped acc p; if \<not> m then gather_unit acc True p tag else Some tag }"

definition show_mapped_units :: "ht_order \<Rightarrow> ('v, 'w, 'i) handler" where
  "show_mapped_units ord st t tag =
     do { ans \<leftarrow> gather_all (gather_mapped_unit (srv_acc st)) (ord (mbb_unit_foreach (srv_acc st))) mbb_xml_msg_ok; Some (st, Some ans) }"

definition show_nomapped_units :: "ht_order \<Rightarrow> ('v, 'w, 'i) handler" where
  "show_nomapped_units ord st t tag =
     do { ans \<leftarrow> gather_all (gather_nomapped_units (srv_acc st)) (ord (mbb_unit_foreach (srv_acc st))) mbb_xml_msg_ok; Some (st, Some ans) }"

definition unit_local_do :: "bool \<Rightarrow> ('v, 'w, 'i) handler" where
  "unit_local_do local st t tag =
     with_args st tag [(xtv_name_value, False)] (\<lambda>vs.
       do { name \<leftarrow> (case vs of [v] \<Rightarrow> xv_str v | _ \<Rightarrow> None);
            (case mbb_unit_get_by_name (srv_acc st) name of
               None \<Rightarrow> reply_msg st MBB_MSG_UNKNOWN_UNIT []
             | Some p \<Rightarrow>
                 do { u \<leftarrow> get_unit (srv_acc st) p;
                      if un_local u = local then Some (st, None)
                      else
                        do { (db, ok, e) \<leftarrow> mbb_db_unit_mod_local (srv_db st) t (un_id u) local;
                             let st = set_db st db;
                             if \<not> ok then reply_error st e
                             else
                               do { acc \<leftarrow> (if local then mbb_unit_local_add (srv_acc st) p else mbb_unit_local_del (srv_acc st) p);
                                    Some (set_acc st acc, None) } } }) })"

definition unit_local_add :: "('v, 'w, 'i) handler" where
  "unit_local_add st t tag = unit_local_do True st t tag"

definition unit_local_del :: "('v, 'w, 'i) handler" where
  "unit_local_del st t tag = unit_local_do False st t tag"

subsection \<open>The tables of commands\<close>

definition consumer_commands ::
  "gpointer \<Rightarrow> time_t \<Rightarrow> ht_order \<Rightarrow> xtv_env \<Rightarrow> (string \<times> ('v, 'w, 'i) handler \<times> guint32) list" where
  "consumer_commands p now ord env =
     [(''mbb-show-consumers'', show_consumers ord env, MBB_CAP_ADMIN),
      (''mbb-self-show-consumers'', self_show_consumers env, MBB_CAP_CONS),
      (''mbb-add-consumer'', add_consumer p now, MBB_CAP_ADMIN),
      (''mbb-drop-consumer'', drop_consumer, MBB_CAP_WHEEL),
      (''mbb-consumer-mod-name'', consumer_mod_name, MBB_CAP_ADMIN),
      (''mbb-consumer-mod-time'', consumer_mod_time env, MBB_CAP_ADMIN),
      (''mbb-consumer-set-user'', consumer_set_user, MBB_CAP_ADMIN),
      (''mbb-consumer-unset-user'', consumer_unset_user, MBB_CAP_ADMIN)]"

text \<open>
  \<open>mbb-show-local-units\<close> is left out: \<open>show_local_units\<close> hands the answer to \<open>gather_unit\<close> where it
  expects a structure that holds the answer.
\<close>

definition unit_commands ::
  "gpointer \<Rightarrow> time_t \<Rightarrow> ht_order \<Rightarrow> xtv_env \<Rightarrow> (string \<times> ('v, 'w, 'i) handler \<times> guint32) list" where
  "unit_commands p now ord env =
     [(''mbb-show-units'', show_units ord env, MBB_CAP_ADMIN),
      (''mbb-unit-show-self'', unit_show_self, MBB_CAP_ADMIN),
      (''mbb-add-unit'', add_unit p now, MBB_CAP_ADMIN),
      (''mbb-drop-unit'', drop_unit, MBB_CAP_WHEEL),
      (''mbb-unit-mod-name'', unit_mod_name, MBB_CAP_ADMIN),
      (''mbb-unit-mod-time'', unit_mod_time env, MBB_CAP_ADMIN),
      (''mbb-unit-set-consumer'', unit_set_consumer, MBB_CAP_ADMIN),
      (''mbb-unit-unset-consumer'', unit_unset_consumer, MBB_CAP_ADMIN),
      (''mbb-consumer-add-unit'', consumer_add_unit p now, MBB_CAP_ADMIN),
      (''mbb-show-mapped-units'', show_mapped_units ord, MBB_CAP_ADMIN),
      (''mbb-show-nomapped-units'', show_nomapped_units ord, MBB_CAP_ADMIN),
      (''mbb-unit-local-add'', unit_local_add, MBB_CAP_WHEEL),
      (''mbb-unit-local-del'', unit_local_del, MBB_CAP_WHEEL),
      (''mbb-self-show-units'', self_show_units env, MBB_CAP_CONS)]"

definition account_commands ::
  "gpointer \<Rightarrow> time_t \<Rightarrow> ht_order \<Rightarrow> xtv_env \<Rightarrow> (string \<times> ('v, 'w, 'i) handler \<times> guint32) list" where
  "account_commands p now ord env = consumer_commands p now ord env @ unit_commands p now ord env"

lemmas account_commands_defs = account_commands_def consumer_commands_def unit_commands_def

end
