(* ===== verification/Account_Inv.thy ===== *)
theory Account_Inv
  imports Account_Man Ownership
begin

text \<open>
  What the commands on consumers and units keep. The references between users, consumers and units
  are two instances of \<open>ownership\<close>; together with the registries and the table of local units they
  form the invariant \<open>acc_inv\<close>. Each operation that the commands call keeps it, then each command,
  and the last theorem is about all commands of \<open>mbbd/mbbconsumerman.c\<close> and \<open>mbbd/mbbunitman.c\<close>.
\<close>

section \<open>References between users, consumers and units\<close>

interpretation consumer_units: ownership un_con c_units "\<lambda>a u. u\<lparr>un_con := a\<rparr>" "\<lambda>l c. c\<lparr>c_units := l\<rparr>"
  by unfold_locales simp_all

interpretation user_consumers: ownership c_user u_childs "\<lambda>a c. c\<lparr>c_user := a\<rparr>" "\<lambda>l u. u\<lparr>u_childs := l\<rparr>"
  by unfold_locales simp_all

text \<open>The table of local units holds the registered units that are marked so, by number.\<close>

definition local_ok :: "account \<Rightarrow> gpointer set \<Rightarrow> bool" where
  "local_ok acc S \<longleftrightarrow> (\<forall>i p. (case ac_local acc of None \<Rightarrow> None | Some ht \<Rightarrow> ht i) = Some p \<longleftrightarrow>
     p \<in> S \<and> (\<exists>u. get_unit acc p = Some u \<and> un_local u \<and> un_id u = i))"

text \<open>
  Consumers in memory are registered and have times; of the units those in \<open>S\<close> are registered,
  others may still be held by a frozen map. References agree.
\<close>

definition timed :: "mbb_consumer \<Rightarrow> bool" where
  "timed c \<longleftrightarrow> 0 \<le> c_start c \<and> 0 \<le> c_end c"

definition acc_inv :: "acl \<Rightarrow> account \<Rightarrow> gpointer set \<Rightarrow> bool" where
  "acc_inv acl acc S \<longleftrightarrow> module_ok consumer_entries (ac_cons acc) (dom (dm_heap (ac_cons acc))) \<and>
     module_ok unit_entries (ac_units acc) S \<and> local_ok acc S \<and> (\<forall>c \<in> ran (dm_heap (ac_cons acc)). timed c) \<and>
     owned c_user u_childs (dm_heap (acl_users acl)) (dm_heap (ac_cons acc)) \<and>
     owned un_con c_units (dm_heap (ac_cons acc)) (dm_heap (ac_units acc))"

lemma acc_invD:
  assumes "acc_inv acl acc S"
  shows "module_ok consumer_entries (ac_cons acc) (dom (dm_heap (ac_cons acc)))" "module_ok unit_entries (ac_units acc) S" "local_ok acc S"
    "owned c_user u_childs (dm_heap (acl_users acl)) (dm_heap (ac_cons acc))"
    "owned un_con c_units (dm_heap (ac_cons acc)) (dm_heap (ac_units acc))" "\<And>c. c \<in> ran (dm_heap (ac_cons acc)) \<Longrightarrow> timed c"
  using assms by (simp_all add: acc_inv_def)

lemma acc_invI:
  assumes "module_ok consumer_entries (ac_cons acc) (dom (dm_heap (ac_cons acc)))" "module_ok unit_entries (ac_units acc) S" "local_ok acc S"
    "owned c_user u_childs (dm_heap (acl_users acl)) (dm_heap (ac_cons acc))"
    "owned un_con c_units (dm_heap (ac_cons acc)) (dm_heap (ac_units acc))" "\<And>c. c \<in> ran (dm_heap (ac_cons acc)) \<Longrightarrow> timed c"
  shows "acc_inv acl acc S"
  using assms by (simp add: acc_inv_def)

lemma set_acc_simps [simp]:
  "ac_units (set_con acc p v) = ac_units acc" "ac_cons (set_unit acc p u) = ac_cons acc"
  "dm_heap (ac_cons (set_con acc p v)) = (dm_heap (ac_cons acc))(p := v)" "dm_link (ac_cons (set_con acc p v)) = dm_link (ac_cons acc)"
  "dm_heap (ac_units (set_unit acc p u)) = (dm_heap (ac_units acc))(p \<mapsto> u)" "dm_link (ac_units (set_unit acc p u)) = dm_link (ac_units acc)"
  "ac_local (set_con acc p v) = ac_local acc" "ac_local (set_unit acc p u) = ac_local acc"
  "ac_entries (set_con acc p v) = ac_entries acc" "ac_entries (set_unit acc p u) = ac_entries acc"
  by (simp_all add: set_con_def set_unit_def)

lemma same_consumer_keys:
  assumes "module_ok consumer_entries m (dom (dm_heap m))" "dm_heap m p = Some c" "dm_heap m' = (dm_heap m)(p \<mapsto> c')"
    "dm_link m' = dm_link m" "c_id c' = c_id c" "c_name c' = c_name c"
  shows "module_ok consumer_entries m' (dom (dm_heap m'))"
proof -
  have "dom (dm_heap m') = dom (dm_heap m)" using assms(2,3) by auto
  moreover have "module_ok consumer_entries m' (dom (dm_heap m))"
    by (rule module_ok_same_keys [OF assms(1-4)])
      (use assms(5-) in \<open>auto simp: consumer_entries_def std_entries_def less_Suc_eq numeral_eq_Suc\<close>)
  ultimately show ?thesis by simp
qed

lemma same_unit_keys:
  assumes "module_ok unit_entries m S" "dm_heap m p = Some u" "dm_heap m' = (dm_heap m)(p \<mapsto> u')"
    "dm_link m' = dm_link m" "un_id u' = un_id u" "un_name u' = un_name u"
  shows "module_ok unit_entries m' S"
  by (rule module_ok_same_keys [OF assms(1-4)])
    (use assms(5-) in \<open>auto simp: unit_entries_def std_entries_def less_Suc_eq numeral_eq_Suc\<close>)

lemma local_ok_cong:
  assumes "local_ok acc S" "ac_local acc' = ac_local acc"
    "\<And>p. p \<in> S \<Longrightarrow> map_option (\<lambda>u. (un_local u, un_id u)) (get_unit acc' p) = map_option (\<lambda>u. (un_local u, un_id u)) (get_unit acc p)"
  shows "local_ok acc' S"
  unfolding local_ok_def assms(2)
proof (intro allI)
  fix i p
  have "p \<in> S \<Longrightarrow> (\<exists>u. get_unit acc' p = Some u \<and> un_local u \<and> un_id u = i) \<longleftrightarrow> (\<exists>u. get_unit acc p = Some u \<and> un_local u \<and> un_id u = i)"
    using assms(3) [of p] by (cases "get_unit acc' p"; cases "get_unit acc p") auto
  then show "(case ac_local acc of None \<Rightarrow> None | Some ht \<Rightarrow> ht i) = Some p \<longleftrightarrow>
      p \<in> S \<and> (\<exists>u. get_unit acc' p = Some u \<and> un_local u \<and> un_id u = i)"
    using assms(1) unfolding local_ok_def by blast
qed

subsection \<open>Consumers\<close>

lemma set_con_inv:
  assumes inv: "acc_inv acl acc S" and c: "get_con acc con = Some c"
    and same: "c_id c' = c_id c" "c_name c' = c_name c" "c_units c' = c_units c" "timed c'"
    and users: "owned c_user u_childs (dm_heap (acl_users acl')) ((dm_heap (ac_cons acc))(con \<mapsto> c'))"
  shows "acc_inv acl' (set_con acc con (Some c')) S"
proof (rule acc_invI)
  note c' = c [unfolded get_con_def]
  show "module_ok consumer_entries (ac_cons (set_con acc con (Some c'))) (dom (dm_heap (ac_cons (set_con acc con (Some c')))))"
    by (rule same_consumer_keys [OF acc_invD(1) [OF inv] c' _ _ same(1,2)]) simp_all
  show "owned un_con c_units (dm_heap (ac_cons (set_con acc con (Some c')))) (dm_heap (ac_units (set_con acc con (Some c'))))"
    using consumer_units.same_owner [OF acc_invD(5) [OF inv] c' same(3)] by simp
  show "timed x" if "x \<in> ran (dm_heap (ac_cons (set_con acc con (Some c'))))" for x
    using that same(4) acc_invD(6) [OF inv] by (auto simp: ran_def split: if_splits)
  show "local_ok (set_con acc con (Some c')) S"
    by (rule local_ok_cong [OF acc_invD(3) [OF inv]]) (simp_all add: get_unit_def)
qed (use inv users in \<open>simp_all add: acc_inv_def\<close>)

lemma retime_consumer_inv:
  assumes inv: "acc_inv acl acc S" and r: "mbb_consumer_mod_time acc con s e = Some (acc', ok)" and t: "0 \<le> s" "0 \<le> e"
  shows "acc_inv acl acc' S"
proof -
  have "acc_inv acl (set_con acc con (Some (c\<lparr>c_start := s, c_end := e\<rparr>))) S" if "get_con acc con = Some c" for c
    by (rule set_con_inv [OF inv that]) (use user_consumers.same_child [OF acc_invD(4) [OF inv]] that t in \<open>simp_all add: get_con_def timed_def\<close>)
  with r inv show ?thesis by (auto simp: mbb_consumer_mod_time_def split: bind_splits if_splits)
qed

lemma join_consumer_inv:
  assumes inv: "acc_inv acl acc S" and new: "mbb_consumer_get_by_name acc name = None"
      "\<And>q c. dm_heap (ac_cons acc) q = Some c \<Longrightarrow> c_id c \<noteq> i" "dm_heap (ac_cons acc) p = None" "p \<noteq> 0" "0 \<le> now"
    and join: "mbb_consumer_join (set_con acc p (Some (mbb_consumer_new i name now 0))) p = Some acc'"
  shows "acc_inv acl acc' S"
proof -
  let ?c = "mbb_consumer_new i name now 0"
  obtain m where m: "module_join consumer_entries (ac_cons (set_con acc p (Some ?c))) p = Some m" "acc' = (set_con acc p (Some ?c))\<lparr>ac_cons := m\<rparr>"
    using join by (auto simp: mbb_consumer_join_def split: bind_splits)
  have "c_name c \<noteq> name" if "dm_heap (ac_cons acc) q = Some c" for q c
    using that new(1) consumers.get_by_name [OF acc_invD(1) [OF inv, unfolded consumer_entries_def], of name q]
    by (auto simp: mbb_consumer_get_by_name_def)
  then have fresh: "fresh_keys consumer_entries (dm_heap (ac_cons acc)) (dom (dm_heap (ac_cons acc))) p ?c"
    using new(2) unfolding consumer_entries_def consumers.fresh_std by (auto simp: mbb_consumer_new_def)
  have add: "module_ok consumer_entries m (dom (dm_heap m))" "dm_heap m = (dm_heap (ac_cons acc))(p \<mapsto> ?c)"
    using module_add_ok [OF acc_invD(1) [OF inv] _ fresh _ _ m(1)] new(3) by (simp_all add: domIff)
  show ?thesis
  proof (rule acc_invI)
    show "local_ok acc' S" by (rule local_ok_cong [OF acc_invD(3) [OF inv]]) (simp_all add: m(2) get_unit_def)
    show "timed x" if "x \<in> ran (dm_heap (ac_cons acc'))" for x
      using that new(5) acc_invD(6) [OF inv] by (auto simp: m(2) add(2) ran_def timed_def mbb_consumer_new_def split: if_splits)
    show "owned c_user u_childs (dm_heap (acl_users acl)) (dm_heap (ac_cons acc'))"
      using user_consumers.new_child [OF acc_invD(4) [OF inv] new(3), of ?c] by (simp add: m(2) add(2) mbb_consumer_new_def)
    show "owned un_con c_units (dm_heap (ac_cons acc')) (dm_heap (ac_units acc'))"
      using consumer_units.new_owner [OF acc_invD(5) [OF inv] new(3,4), of ?c] by (simp add: m(2) add(2) mbb_consumer_new_def)
  qed (use acc_invD [OF inv] add(1) m(2) in simp_all)
qed

lemma timed_at: "acc_inv acl acc S \<Longrightarrow> dm_heap (ac_cons acc) con = Some c \<Longrightarrow> timed c"
  using acc_invD(6) [of acl acc S c] by (auto simp: ran_def)

lemma timed_update:
  assumes "acc_inv acl acc S" "dm_heap (ac_cons acc) con = Some c" "c_start c' = c_start c" "c_end c' = c_end c"
    "x \<in> ran ((dm_heap (ac_cons acc))(con \<mapsto> c'))"
  shows "timed x"
  using assms(3-5) timed_at [OF assms(1,2)] timed_at [OF assms(1)] by (auto simp: ran_def timed_def split: if_splits)

lemma rename_consumer_inv:
  assumes inv: "acc_inv acl acc S" and c: "get_con acc con = Some c" and r: "mbb_consumer_mod_name acc con n = Some (acc', r)"
  shows "acc_inv acl acc' S"
proof -
  note c' = c [unfolded get_con_def]
  obtain m where m: "acc' = acc\<lparr>ac_cons := m\<rparr>" "module_ok consumer_entries m (dom (dm_heap (ac_cons acc)))"
      "dm_heap m = (if r then (dm_heap (ac_cons acc))(con \<mapsto> c\<lparr>c_name := n\<rparr>) else dm_heap (ac_cons acc))"
    using consumers.mod_name [OF acc_invD(1) [OF inv, unfolded consumer_entries_def] _ c', of n] r c'
    by (auto simp: mbb_consumer_mod_name_def consumer_entries_def split: bind_splits)
  show ?thesis
  proof (rule acc_invI)
    show "local_ok acc' S" by (rule local_ok_cong [OF acc_invD(3) [OF inv]]) (simp_all add: m(1) get_unit_def)
    have "dom (dm_heap m) = dom (dm_heap (ac_cons acc))" using m(3) c' by auto
    then show "module_ok consumer_entries (ac_cons acc') (dom (dm_heap (ac_cons acc')))" using m(1,2) by simp
    show "owned c_user u_childs (dm_heap (acl_users acl)) (dm_heap (ac_cons acc'))"
      using acc_invD(4) [OF inv] user_consumers.same_child [OF acc_invD(4) [OF inv] c', of "c\<lparr>c_name := n\<rparr>"] by (simp add: m(1,3))
    show "owned un_con c_units (dm_heap (ac_cons acc')) (dm_heap (ac_units acc'))"
      using acc_invD(5) [OF inv] consumer_units.same_owner [OF acc_invD(5) [OF inv] c', of "c\<lparr>c_name := n\<rparr>"] by (simp add: m(1,3))
    show "timed x" if "x \<in> ran (dm_heap (ac_cons acc'))" for x
      using that timed_update [OF inv c', of "c\<lparr>c_name := n\<rparr>" x] acc_invD(6) [OF inv, of x] by (simp add: m(1,3) split: if_splits)
  qed (use acc_invD(2) [OF inv] m(1) in simp)
qed

text \<open>The consumer leaves its user, where it has one.\<close>

lemma leave_user:
  assumes ok: "owned c_user u_childs U C" and c: "C con = Some c"
    and U': "if c_user c = 0 then U' = U else \<exists>u. U (c_user c) = Some u \<and> U' = U(c_user c \<mapsto> mbb_user_del_consumer u con)"
  shows "owned c_user u_childs U' (C(con \<mapsto> c\<lparr>c_user := 0\<rparr>))"
proof (cases "c_user c = 0")
  case True
  with U' user_consumers.same_child [OF ok c, of "c\<lparr>c_user := 0\<rparr>"] show ?thesis by simp
next
  case False
  with U' user_consumers.detach [OF ok c] show ?thesis by (auto simp: mbb_user_del_consumer_def)
qed

lemma remove_consumer_inv:
  assumes inv: "acc_inv acl acc S" and c: "get_con acc con = Some c" "c_units c = []"
    and users: "owned c_user u_childs (dm_heap (acl_users acl')) ((dm_heap (ac_cons acc))(con \<mapsto> c\<lparr>c_user := 0\<rparr>))"
    and rm: "mbb_consumer_remove acc con = Some acc'"
  shows "acc_inv acl' acc' S"
proof -
  note c' = c(1) [unfolded get_con_def]
  obtain m where m: "module_detach consumer_entries (ac_cons acc) con = Some m" "acc' = set_con (acc\<lparr>ac_cons := m\<rparr>) con None"
    using rm by (auto simp: mbb_consumer_remove_def mbb_consumer_detach_def split: bind_splits)
  have sf: "self_first consumer_entries" by (simp add: consumer_entries_def)
  have h: "dm_heap (ac_cons acc') = (dm_heap (ac_cons acc))(con := None)"
    using module_drop_ok(1) [OF acc_invD(1) [OF inv] sf m(1)] m(2) by simp
  show ?thesis
  proof (rule acc_invI)
    show "module_ok consumer_entries (ac_cons acc') (dom (dm_heap (ac_cons acc')))"
      using module_drop_ok(3) [OF acc_invD(1) [OF inv] sf m(1), of "ac_cons acc'" None] m(2) h by simp
    show "local_ok acc' S" by (rule local_ok_cong [OF acc_invD(3) [OF inv]]) (simp_all add: m(2) get_unit_def)
    show "owned c_user u_childs (dm_heap (acl_users acl')) (dm_heap (ac_cons acc'))"
      using user_consumers.drop_child [OF users, of con "c\<lparr>c_user := 0\<rparr>"] by (simp add: h)
    show "owned un_con c_units (dm_heap (ac_cons acc')) (dm_heap (ac_units acc'))"
      unfolding h using consumer_units.drop_owner [OF acc_invD(5) [OF inv] c' c(2)] by (simp add: m(2))
    show "timed x" if "x \<in> ran (dm_heap (ac_cons acc'))" for x
      using that acc_invD(6) [OF inv] unfolding h by (auto simp: ran_def split: if_splits)
  qed (use acc_invD(2) [OF inv] m(2) in simp)
qed

lemma set_user_inv:
  assumes inv: "acc_inv acl acc S" and c: "get_con acc con = Some c" "c_user c = 0" and u: "dm_heap (acl_users acl) user = Some u"
  shows "acc_inv (set_user acl user (Some (mbb_user_add_consumer u con))) (set_con acc con (Some (c\<lparr>c_user := user\<rparr>))) S"
proof (rule set_con_inv [OF inv c(1)])
  note c' = c(1) [unfolded get_con_def] and ok = acc_invD(4) [OF inv]
  have "con \<notin> set (u_childs u)" using user_consumers.ownedD(1,3) [OF ok u] c' c(2) by auto
  then show "owned c_user u_childs (dm_heap (acl_users (set_user acl user (Some (mbb_user_add_consumer u con)))))
      ((dm_heap (ac_cons acc))(con \<mapsto> c\<lparr>c_user := user\<rparr>))"
    using user_consumers.attach [OF ok _ u, of con c] c' c(2) by (simp add: set_user_def mbb_user_add_consumer_def)
  show "timed (c\<lparr>c_user := user\<rparr>)" using timed_at [OF inv c'] by (simp add: timed_def)
qed simp_all

lemma unset_user_inv:
  assumes inv: "acc_inv acl acc S" and c: "get_con acc con = Some c" "c_user c \<noteq> 0" and u: "dm_heap (acl_users acl) (c_user c) = Some u"
  shows "acc_inv (set_user acl (c_user c) (Some (mbb_user_del_consumer u con))) (set_con acc con (Some (c\<lparr>c_user := 0\<rparr>))) S"
proof (rule set_con_inv [OF inv c(1)])
  show "timed (c\<lparr>c_user := 0\<rparr>)" using timed_at [OF inv c(1) [unfolded get_con_def]] by (simp add: timed_def)
qed (use leave_user [OF acc_invD(4) [OF inv] c(1) [unfolded get_con_def]] c(2) u in \<open>simp_all add: set_user_def\<close>)

subsection \<open>Units\<close>

lemma set_unit_inv:
  assumes inv: "acc_inv acl acc S" and u: "get_unit acc p = Some u"
    and same: "un_id u' = un_id u" "un_name u' = un_name u" "un_local u' = un_local u"
    and units: "owned un_con c_units (dm_heap (ac_cons acc)) ((dm_heap (ac_units acc))(p \<mapsto> u'))"
  shows "acc_inv acl (set_unit acc p u') S"
proof (rule acc_invI)
  show "module_ok unit_entries (ac_units (set_unit acc p u')) S"
    by (rule same_unit_keys [OF acc_invD(2) [OF inv] u [unfolded get_unit_def] _ _ same(1,2)]) simp_all
  show "local_ok (set_unit acc p u') S"
    by (rule local_ok_cong [OF acc_invD(3) [OF inv]]) (use u same in \<open>simp_all add: get_unit_def\<close>)
qed (use acc_invD [OF inv] units in simp_all)

lemma retime_unit_inv:
  assumes inv: "acc_inv acl acc S" and r: "mbb_unit_mod_time acc p s e = Some (acc', ok)"
  shows "acc_inv acl acc' S"
proof -
  have "acc_inv acl (set_unit acc p (u\<lparr>un_start := s, un_end := e\<rparr>)) S" if "get_unit acc p = Some u" for u
    by (rule set_unit_inv [OF inv that]) (use consumer_units.same_child [OF acc_invD(5) [OF inv]] that in \<open>simp_all add: get_unit_def\<close>)
  with r inv show ?thesis by (auto simp: mbb_unit_mod_time_def split: bind_splits if_splits)
qed

lemma rename_unit_inv:
  assumes inv: "acc_inv acl acc S" and p: "p \<in> S" "get_unit acc p = Some u" and r: "mbb_unit_mod_name acc p n = Some (acc', r)"
  shows "acc_inv acl acc' S"
proof -
  note u = p(2) [unfolded get_unit_def]
  obtain m where m: "acc' = acc\<lparr>ac_units := m\<rparr>" "module_ok unit_entries m S"
      "dm_heap m = (if r then (dm_heap (ac_units acc))(p \<mapsto> u\<lparr>un_name := n\<rparr>) else dm_heap (ac_units acc))"
    using units.mod_name [OF acc_invD(2) [OF inv, unfolded unit_entries_def] p(1) u, of n] r u
    by (auto simp: mbb_unit_mod_name_def unit_entries_def split: bind_splits)
  show ?thesis
  proof (rule acc_invI)
    show "local_ok acc' S" by (rule local_ok_cong [OF acc_invD(3) [OF inv]]) (use u in \<open>simp_all add: m(1,3) get_unit_def\<close>)
    show "owned un_con c_units (dm_heap (ac_cons acc')) (dm_heap (ac_units acc'))"
      using acc_invD(5) [OF inv] consumer_units.same_child [OF acc_invD(5) [OF inv] u, of "u\<lparr>un_name := n\<rparr>"] by (simp add: m(1,3))
  qed (use acc_invD [OF inv] m(1,2) in simp_all)
qed

text \<open>A unit gets a consumer, and loses it.\<close>

lemma self_update [simp]: "un_con u = a \<Longrightarrow> u\<lparr>un_con := a\<rparr> = u"
  by (cases u) simp

lemma attach_unit_inv:
  assumes inv: "acc_inv acl acc S" and u: "get_unit acc p = Some u" "un_con u = 0" and c: "get_con acc con = Some c"
    and set: "mbb_unit_set_consumer acc p con = Some acc1" "mbb_consumer_add_unit acc1 con p = Some acc'"
  shows "acc_inv acl acc' S"
proof -
  note u' = u(1) [unfolded get_unit_def] and c' = c [unfolded get_con_def] and ok = acc_invD(5) [OF inv]
  have "p \<notin> set (c_units c)" using consumer_units.ownedD(1,3) [OF ok c'] u' u(2) by auto
  then have acc': "acc' = set_con (set_unit acc p (u\<lparr>un_con := con\<rparr>)) con (Some (c\<lparr>c_units := p # c_units c\<rparr>))"
    using set u(1) c by (auto simp: mbb_unit_set_consumer_def mbb_consumer_add_unit_def get_con_def)
  show ?thesis
  proof (rule acc_invI)
    show "module_ok consumer_entries (ac_cons acc') (dom (dm_heap (ac_cons acc')))"
      by (rule same_consumer_keys [OF acc_invD(1) [OF inv] c', where c' = "c\<lparr>c_units := p # c_units c\<rparr>"]) (simp_all add: acc')
    show "module_ok unit_entries (ac_units acc') S"
      by (rule same_unit_keys [OF acc_invD(2) [OF inv] u', where u' = "u\<lparr>un_con := con\<rparr>"]) (simp_all add: acc')
    show "local_ok acc' S"
      by (rule local_ok_cong [OF acc_invD(3) [OF inv]]) (use u(1) in \<open>simp_all add: acc' get_unit_def\<close>)
    show "owned c_user u_childs (dm_heap (acl_users acl)) (dm_heap (ac_cons acc'))"
      using user_consumers.same_child [OF acc_invD(4) [OF inv] c', of "c\<lparr>c_units := p # c_units c\<rparr>"] by (simp add: acc')
    show "owned un_con c_units (dm_heap (ac_cons acc')) (dm_heap (ac_units acc'))"
      using consumer_units.attach [OF ok _ c', of p u] u' u(2) by (simp add: acc')
    show "timed x" if "x \<in> ran (dm_heap (ac_cons acc'))" for x
      using that timed_update [OF inv c', of "c\<lparr>c_units := p # c_units c\<rparr>" x] by (simp add: acc')
  qed
qed

lemma detach_unit_inv:
  assumes inv: "acc_inv acl acc S" and u: "get_unit acc p = Some u" "un_con u \<noteq> 0" and c: "get_con acc (un_con u) = Some c"
    and same: "un_id u' = un_id u" "un_name u' = un_name u" "un_local u' = un_local u" "un_con u' = 0"
    and acc': "acc' = set_unit (set_con acc (un_con u) (Some (c\<lparr>c_units := remove1 p (c_units c)\<rparr>))) p u'"
  shows "acc_inv acl acc' S"
proof -
  note u1 = u(1) [unfolded get_unit_def] and c1 = c [unfolded get_con_def] and ok = acc_invD(5) [OF inv]
  let ?c = "c\<lparr>c_units := remove1 p (c_units c)\<rparr>"
  show ?thesis
  proof (rule acc_invI)
    show "module_ok consumer_entries (ac_cons acc') (dom (dm_heap (ac_cons acc')))"
      by (rule same_consumer_keys [OF acc_invD(1) [OF inv] c1, where c' = ?c]) (simp_all add: acc')
    show "module_ok unit_entries (ac_units acc') S"
      by (rule same_unit_keys [OF acc_invD(2) [OF inv] u1 _ _ same(1,2)]) (simp_all add: acc')
    show "local_ok acc' S"
      by (rule local_ok_cong [OF acc_invD(3) [OF inv]]) (use u(1) same in \<open>simp_all add: acc' get_unit_def\<close>)
    show "owned c_user u_childs (dm_heap (acl_users acl)) (dm_heap (ac_cons acc'))"
      using user_consumers.same_child [OF acc_invD(4) [OF inv] c1, of ?c] by (simp add: acc')
    show "owned un_con c_units (dm_heap (ac_cons acc')) (dm_heap (ac_units acc'))"
      using consumer_units.detach [OF ok u1 c1, of u'] same(4) by (simp add: acc')
    show "timed x" if "x \<in> ran (dm_heap (ac_cons acc'))" for x
      using that timed_update [OF inv c1, of ?c x] by (simp add: acc')
  qed
qed

text \<open>Registered units have different numbers and names.\<close>

lemma unit_ids_unique:
  assumes "module_ok unit_entries m S" "p \<in> S" "dm_heap m p = Some u" "q \<in> S" "dm_heap m q = Some v" "un_id u = un_id v"
  shows "q = p"
  using assms(2-) units.get_by_id [OF assms(1) [unfolded unit_entries_def], of "un_id u" p]
    units.get_by_id [OF assms(1) [unfolded unit_entries_def], of "un_id u" q] by auto

lemma registered: "acc_inv acl acc S \<Longrightarrow> p \<in> S \<Longrightarrow> dm_heap (ac_units acc) p \<noteq> None"
  using acc_invD(2) [of acl acc S] by (simp add: module_ok_def)

lemma named_unit: "acc_inv acl acc S \<Longrightarrow> mbb_unit_get_by_name acc name = Some p \<Longrightarrow> p \<in> S"
  using units.get_by_name [OF acc_invD(2) [of acl acc S, unfolded unit_entries_def], of name p] by (simp add: mbb_unit_get_by_name_def)

text \<open>What the table of local units says of one unit.\<close>

definition local_at :: "mbb_unit heap \<Rightarrow> int \<Rightarrow> gpointer \<Rightarrow> bool" where
  "local_at h i p \<longleftrightarrow> (\<exists>u. h p = Some u \<and> un_local u \<and> un_id u = i)"

lemma local_at_update [simp]: "local_at (h(p \<mapsto> u)) i q \<longleftrightarrow> (if q = p then un_local u \<and> un_id u = i else local_at h i q)"
  by (simp add: local_at_def)

lemma local_at_here: "h p = Some u \<Longrightarrow> local_at h i p \<longleftrightarrow> un_local u \<and> un_id u = i"
  by (simp add: local_at_def)

lemma local_ok_at:
  "local_ok acc S \<longleftrightarrow> (\<forall>i p. (case ac_local acc of None \<Rightarrow> None | Some ht \<Rightarrow> ht i) = Some p \<longleftrightarrow> p \<in> S \<and> local_at (dm_heap (ac_units acc)) i p)"
  by (simp only: local_ok_def local_at_def get_unit_def)

text \<open>A unit enters the table of local units, and leaves it.\<close>

lemma local_unique:
  assumes "module_ok unit_entries (ac_units acc) S" "p \<in> S" "get_unit acc p = Some u" "q \<in> S" "q \<noteq> p"
  shows "\<not> local_at (dm_heap (ac_units acc)) (un_id u) q"
  using assms(5) unit_ids_unique [OF assms(1,2) assms(3) [unfolded get_unit_def] assms(4)] by (auto simp: local_at_def)

lemma local_add_inv:
  assumes inv: "acc_inv acl acc S" and p: "p \<in> S" and add: "mbb_unit_local_add acc p = Some acc'"
  shows "acc_inv acl acc' S"
proof -
  obtain u where u: "get_unit acc p = Some u" using registered [OF inv p] by (auto simp: get_unit_def)
  define ht where "ht = (case ac_local acc of None \<Rightarrow> Map.empty | Some ht \<Rightarrow> ht)"
  have acc': "acc' = set_unit (acc\<lparr>ac_local := Some (ht(un_id u \<mapsto> p))\<rparr>) p (u\<lparr>un_local := True\<rparr>)"
    using add u by (simp add: mbb_unit_local_add_def ht_def)
  have "(case ac_local acc of None \<Rightarrow> None | Some ht \<Rightarrow> ht i) = ht i" for i by (simp add: ht_def split: option.splits)
  then have ht: "ht i = Some q \<longleftrightarrow> q \<in> S \<and> local_at (dm_heap (ac_units acc)) i q" for i q
    using acc_invD(3) [OF inv] by (simp add: local_ok_at)
  show ?thesis
  proof (rule acc_invI)
    show "module_ok unit_entries (ac_units acc') S"
      by (rule same_unit_keys [OF acc_invD(2) [OF inv] u [unfolded get_unit_def], where u' = "u\<lparr>un_local := True\<rparr>"]) (simp_all add: acc')
    show "local_ok acc' S"
      unfolding local_ok_at
    proof (intro allI)
      fix i q
      show "(case ac_local acc' of None \<Rightarrow> None | Some ht \<Rightarrow> ht i) = Some q \<longleftrightarrow> q \<in> S \<and> local_at (dm_heap (ac_units acc')) i q"
        using local_unique [OF acc_invD(2) [OF inv] p u, of q] ht [of i q] local_at_here [of "dm_heap (ac_units acc)" p u i] u p
        by (cases "q = p"; cases "i = un_id u") (simp_all add: acc' get_unit_def)
    qed
    show "owned un_con c_units (dm_heap (ac_cons acc')) (dm_heap (ac_units acc'))"
      using consumer_units.same_child [OF acc_invD(5) [OF inv] u [unfolded get_unit_def], of "u\<lparr>un_local := True\<rparr>"] by (simp add: acc')
  qed (use acc_invD [OF inv] in \<open>simp_all add: acc'\<close>)
qed

lemma local_del_parts:
  assumes ok: "local_ok acc S" "\<And>q. q \<in> S \<Longrightarrow> q \<noteq> p \<Longrightarrow> \<not> local_at (dm_heap (ac_units acc)) (un_id u) q"
    and p: "p \<in> S" "get_unit acc p = Some u" and del: "mbb_unit_local_del acc p = Some acc'"
  shows "ac_cons acc' = ac_cons acc" "local_ok acc' S" "dm_link (ac_units acc') = dm_link (ac_units acc)"
    "dm_heap (ac_units acc') = (dm_heap (ac_units acc))(p \<mapsto> u\<lparr>un_local := False\<rparr>)"
proof -
  show "ac_cons acc' = ac_cons acc" "dm_link (ac_units acc') = dm_link (ac_units acc)"
    using del p(2) by (auto simp: mbb_unit_local_del_def split: option.splits)
  have none: "\<not> un_local u" if "ac_local acc = None"
    using ok(1) p that by (auto simp: local_ok_at local_at_def get_unit_def)
  then have "u\<lparr>un_local := False\<rparr> = u" if "ac_local acc = None" using that by (cases u) simp
  then show "dm_heap (ac_units acc') = (dm_heap (ac_units acc))(p \<mapsto> u\<lparr>un_local := False\<rparr>)"
    using del p(2) by (auto simp: mbb_unit_local_del_def get_unit_def fun_upd_idem split: option.splits)
  show "local_ok acc' S"
  proof (cases "ac_local acc")
    case None
    with del ok(1) show ?thesis by (simp add: mbb_unit_local_del_def)
  next
    case (Some ht)
    have acc': "acc' = set_unit (acc\<lparr>ac_local := Some (ht(un_id u := None))\<rparr>) p (u\<lparr>un_local := False\<rparr>)"
      using del p(2) Some by (simp add: mbb_unit_local_del_def)
    have ht: "ht i = Some q \<longleftrightarrow> q \<in> S \<and> local_at (dm_heap (ac_units acc)) i q" for i q
      using ok(1) Some by (simp add: local_ok_at)
    show ?thesis unfolding local_ok_at
    proof (intro allI)
      fix i q
      show "(case ac_local acc' of None \<Rightarrow> None | Some ht \<Rightarrow> ht i) = Some q \<longleftrightarrow> q \<in> S \<and> local_at (dm_heap (ac_units acc')) i q"
        using ok(2) [of q] ht [of i q] local_at_here [of "dm_heap (ac_units acc)" p u i] p
        by (cases "q = p"; cases "i = un_id u") (simp_all add: acc' get_unit_def)
    qed
  qed
qed

lemma local_del_inv:
  assumes inv: "acc_inv acl acc S" and p: "p \<in> S" and del: "mbb_unit_local_del acc p = Some acc'"
  shows "acc_inv acl acc' S"
proof -
  obtain u where u: "get_unit acc p = Some u" using registered [OF inv p] by (auto simp: get_unit_def)
  note acc' = local_del_parts [OF acc_invD(3) [OF inv] local_unique [OF acc_invD(2) [OF inv] p u] p u del]
  show ?thesis
  proof (rule acc_invI)
    show "module_ok unit_entries (ac_units acc') S"
      by (rule same_unit_keys [OF acc_invD(2) [OF inv] u [unfolded get_unit_def] acc'(4,3)]) simp_all
    show "owned un_con c_units (dm_heap (ac_cons acc')) (dm_heap (ac_units acc'))"
      using consumer_units.same_child [OF acc_invD(5) [OF inv] u [unfolded get_unit_def], of "u\<lparr>un_local := False\<rparr>"] by (simp add: acc')
  qed (use acc_invD [OF inv] acc' in simp_all)
qed

text \<open>A new unit is registered, alone or as a unit of a consumer.\<close>

lemma join_unit_inv:
  assumes inv: "acc_inv acl acc S" and new: "mbb_unit_get_by_name acc (un_name u) = None" "dm_heap (ac_units acc) p = None" "\<not> un_local u"
      "\<And>q y. q \<in> S \<Longrightarrow> dm_heap (ac_units acc) q = Some y \<Longrightarrow> un_id y \<noteq> un_id u"
    and acc1: "dm_heap (ac_units acc1) = (dm_heap (ac_units acc))(p \<mapsto> u)" "dm_link (ac_units acc1) = dm_link (ac_units acc)"
      "ac_local acc1 = ac_local acc" "module_ok consumer_entries (ac_cons acc1) (dom (dm_heap (ac_cons acc1)))"
      "owned c_user u_childs (dm_heap (acl_users acl)) (dm_heap (ac_cons acc1))"
      "owned un_con c_units (dm_heap (ac_cons acc1)) (dm_heap (ac_units acc1))" "\<And>c. c \<in> ran (dm_heap (ac_cons acc1)) \<Longrightarrow> timed c"
    and join: "mbb_unit_join acc1 p = Some acc'"
  shows "acc_inv acl acc' (insert p S)"
proof -
  have pS: "p \<notin> S" using registered [OF inv, of p] new(2) by auto
  obtain m where m: "module_join unit_entries (ac_units acc1) p = Some m" using join by (auto simp: mbb_unit_join_def split: bind_splits)
  have "un_name y \<noteq> un_name u" if "q \<in> S" "dm_heap (ac_units acc) q = Some y" for q y
    using that new(1) units.get_by_name [OF acc_invD(2) [OF inv, unfolded unit_entries_def], of "un_name u" q]
    by (auto simp: mbb_unit_get_by_name_def)
  then have "fresh_keys unit_entries (dm_heap (ac_units acc)) S p u"
    using new(4) unfolding unit_entries_def units.fresh_std by auto
  from module_add_ok [OF acc_invD(2) [OF inv] pS this acc1(1,2) m]
  have add: "module_ok unit_entries m (insert p S)" "dm_heap m = (dm_heap (ac_units acc))(p \<mapsto> u)" by simp_all
  have acc': "acc' = acc1\<lparr>ac_units := m\<rparr>" using join m add(2) new(3) by (simp add: mbb_unit_join_def get_unit_def)
  show ?thesis
  proof (rule acc_invI)
    show "local_ok acc' (insert p S)" unfolding local_ok_at
    proof (intro allI)
      fix i q
      show "(case ac_local acc' of None \<Rightarrow> None | Some ht \<Rightarrow> ht i) = Some q \<longleftrightarrow> q \<in> insert p S \<and> local_at (dm_heap (ac_units acc')) i q"
        using acc_invD(3) [OF inv] pS new(3) unfolding local_ok_at by (simp add: acc' acc1(3) add(2))
    qed
  qed (use add acc1 in \<open>simp_all add: acc'\<close>)
qed

lemma new_unit_inv:
  assumes inv: "acc_inv acl acc S" and new: "mbb_unit_get_by_name acc name = None" "dm_heap (ac_units acc) p = None"
      "\<And>q y. q \<in> S \<Longrightarrow> dm_heap (ac_units acc) q = Some y \<Longrightarrow> un_id y \<noteq> i"
    and join: "mbb_unit_join (set_unit acc p (mbb_unit_new i name s e)) p = Some acc'"
  shows "acc_inv acl acc' (insert p S)"
  by (rule join_unit_inv [OF inv _ new(2), of "mbb_unit_new i name s e", OF _ _ _ _ _ _ _ _ _ _ join])
    (use new acc_invD [OF inv] consumer_units.new_child [OF acc_invD(5) [OF inv] new(2)] in \<open>simp_all add: mbb_unit_new_def\<close>)

lemma new_unit_of_consumer_inv:
  assumes inv: "acc_inv acl acc S" and new: "mbb_unit_get_by_name acc name = None" "dm_heap (ac_units acc) p = None"
      "\<And>q y. q \<in> S \<Longrightarrow> dm_heap (ac_units acc) q = Some y \<Longrightarrow> un_id y \<noteq> i"
    and add: "mbb_consumer_add_unit (set_unit acc p ((mbb_unit_new i name s e)\<lparr>un_con := con\<rparr>)) con p = Some acc1"
    and join: "mbb_unit_join acc1 p = Some acc'"
  shows "acc_inv acl acc' (insert p S)"
proof -
  let ?u = "(mbb_unit_new i name s e)\<lparr>un_con := con\<rparr>"
  obtain c where c: "dm_heap (ac_cons acc) con = Some c" using add by (auto simp: mbb_consumer_add_unit_def get_con_def split: bind_splits)
  let ?c = "c\<lparr>c_units := p # c_units c\<rparr>"
  have "p \<notin> set (c_units c)" using consumer_units.ownedD(3) [OF acc_invD(5) [OF inv] c] new(2) by auto
  then have acc1: "acc1 = set_con (set_unit acc p ?u) con (Some ?c)" using add c by (simp add: mbb_consumer_add_unit_def get_con_def)
  show ?thesis
  proof (rule join_unit_inv [OF inv _ new(2), of ?u, OF _ _ _ _ _ _ _ _ _ _ join])
    show "module_ok consumer_entries (ac_cons acc1) (dom (dm_heap (ac_cons acc1)))"
      by (rule same_consumer_keys [OF acc_invD(1) [OF inv] c, where c' = ?c]) (simp_all add: acc1)
    show "owned c_user u_childs (dm_heap (acl_users acl)) (dm_heap (ac_cons acc1))"
      using user_consumers.same_child [OF acc_invD(4) [OF inv] c, of ?c] by (simp add: acc1)
    show "owned un_con c_units (dm_heap (ac_cons acc1)) (dm_heap (ac_units acc1))"
      using consumer_units.attach [OF acc_invD(5) [OF inv] _ c, of p "mbb_unit_new i name s e"] new(2) by (simp add: acc1)
    show "timed x" if "x \<in> ran (dm_heap (ac_cons acc1))" for x using that timed_update [OF inv c, of ?c x] by (simp add: acc1)
  qed (use new in \<open>simp_all add: acc1 mbb_unit_new_def\<close>)
qed

text \<open>A unit that is dropped leaves its consumer, the registry and the table of local units.\<close>

lemma withdraw_unit_inv:
  assumes inv: "acc_inv acl acc S" and p: "p \<in> S" "get_unit acc p = Some u" "un_con u = 0"
    and rm: "mbb_unit_detach acc p = Some acc1" "mbb_unit_unref acc1 p = Some acc'"
  shows "acc_inv acl acc' (S - {p})"
proof -
  note u = p(2) [unfolded get_unit_def]
  obtain m where m: "module_detach unit_entries (ac_units acc) p = Some m"
      "(if un_local u then mbb_unit_local_del (acc\<lparr>ac_units := m\<rparr>) p else Some (acc\<lparr>ac_units := m\<rparr>)) = Some acc1"
  proof -
    have "dm_link (ac_units acc) \<noteq> None" using acc_invD(2) [OF inv] p(1) by (auto simp: module_ok_def split: option.splits)
    then show ?thesis using rm(1) that u module_drop_ok(1) [OF acc_invD(2) [OF inv]]
      by (auto simp: mbb_unit_detach_def get_unit_def unit_entries_def Let_def split: bind_splits option.splits)
  qed
  have sf: "self_first unit_entries" by (simp add: unit_entries_def)
  note drop = module_drop_ok [OF acc_invD(2) [OF inv] sf m(1)]
  let ?u = "if un_local u then u\<lparr>un_local := False\<rparr> else u"
  have loc: "local_ok (acc\<lparr>ac_units := m\<rparr>) S"
    by (rule local_ok_cong [OF acc_invD(3) [OF inv]]) (simp_all add: get_unit_def drop(1))
  have "ac_cons acc1 = ac_cons acc \<and> local_ok acc1 S \<and> dm_link (ac_units acc1) = dm_link m \<and>
      dm_heap (ac_units acc1) = (dm_heap (ac_units acc))(p \<mapsto> ?u)"
  proof (cases "un_local u")
    case True
    with m(2) have "mbb_unit_local_del (acc\<lparr>ac_units := m\<rparr>) p = Some acc1" by simp
    from local_del_parts [OF loc _ p(1) _ this, of u] True local_unique [OF acc_invD(2) [OF inv] p(1,2)] show ?thesis
      by (simp add: drop(1) get_unit_def u)
  next
    case False
    with m(2) loc u show ?thesis by (auto simp: drop(1) fun_upd_idem)
  qed
  then have acc1: "ac_cons acc1 = ac_cons acc" "local_ok acc1 S" "dm_link (ac_units acc1) = dm_link m"
      "dm_heap (ac_units acc1) = (dm_heap (ac_units acc))(p \<mapsto> ?u)" by simp_all
  have "\<not> local_at (dm_heap (ac_units acc1)) i p" for i by (simp add: acc1(4))
  then have loc1: "local_ok acc1 (S - {p})" using acc1(2) unfolding local_ok_at by (metis Diff_iff singletonD)
  define v where "v = dm_heap (ac_units acc') p"
  have v: "dm_heap (ac_units acc') = (dm_heap (ac_units acc))(p := v)" "dm_link (ac_units acc') = dm_link m"
      "ac_cons acc' = ac_cons acc" "ac_local acc' = ac_local acc1" "\<And>x. v = Some x \<Longrightarrow> un_con x = 0"
    using rm(2) acc1 p(3) by (auto simp: v_def mbb_unit_unref_def mbb_unit_free_def get_unit_def Let_def split: bind_splits if_splits)
  show ?thesis
  proof (rule acc_invI)
    show "module_ok unit_entries (ac_units acc') (S - {p})" using drop(3) [OF _ v(2), of v] v(1) drop(1) by simp
    show "local_ok acc' (S - {p})"
      by (rule local_ok_cong [OF loc1 v(4)]) (simp add: get_unit_def v(1) acc1(4))
    show "owned un_con c_units (dm_heap (ac_cons acc')) (dm_heap (ac_units acc'))"
      using consumer_units.drop_child [OF acc_invD(5) [OF inv] u p(3)] consumer_units.same_child [OF acc_invD(5) [OF inv] u] v(5) p(3)
      by (cases v) (simp_all add: v(1,3))
  qed (use acc_invD [OF inv] v(3) in simp_all)
qed

lemma remove_unit_inv:
  assumes inv: "acc_inv acl acc S" and p: "p \<in> S" and rm: "mbb_unit_remove acc p = Some acc'"
  shows "acc_inv acl acc' (S - {p})"
proof -
  obtain u where u: "get_unit acc p = Some u" using registered [OF inv p] by (auto simp: get_unit_def)
  show ?thesis
  proof (cases "un_con u = 0")
    case True
    with rm u withdraw_unit_inv [OF inv p u] show ?thesis by (auto simp: mbb_unit_remove_def split: bind_splits)
  next
    case False
    then obtain c where c: "get_con acc (un_con u) = Some c"
      using consumer_units.ownedD(4) [OF acc_invD(5) [OF inv] u [unfolded get_unit_def]] by (auto simp: get_con_def)
    let ?acc = "set_unit (set_con acc (un_con u) (Some (c\<lparr>c_units := remove1 p (c_units c)\<rparr>))) p (u\<lparr>un_con := 0\<rparr>)"
    have "acc_inv acl ?acc S" by (rule detach_unit_inv [OF inv u False c, where u' = "u\<lparr>un_con := 0\<rparr>"]) simp_all
    from withdraw_unit_inv [OF this p, of "u\<lparr>un_con := 0\<rparr>"] rm u False c show ?thesis
      by (auto simp: mbb_unit_remove_def mbb_consumer_del_unit_def get_unit_def split: bind_splits)
  qed
qed

text \<open>
  A unit loses its consumer, as \<open>unit_unset_consumer\<close> does it: where the times of the unit are those
  of the consumer they are copied first, and then the second attempt succeeds.
\<close>

lemma unset_consumer_inv:
  assumes inv: "acc_inv acl acc S" and u: "get_unit acc p = Some u" "un_con u \<noteq> 0"
    and del: "mbb_consumer_del_unit acc (un_con u) p = Some acc1"
  shows "mbb_unit_unset_consumer acc1 p = Some (acc2, True) \<Longrightarrow> acc_inv acl acc2 S"
    "mbb_unit_unset_consumer acc1 p = Some (acc2, False) \<Longrightarrow> mbb_unit_inherit_time acc2 p = Some acc3 \<Longrightarrow>
       mbb_unit_unset_consumer acc3 p = Some (acc4, ok) \<Longrightarrow> acc_inv acl acc4 S"
proof -
  obtain c where c: "get_con acc (un_con u) = Some c"
    using consumer_units.ownedD(4) [OF acc_invD(5) [OF inv] u(1) [unfolded get_unit_def]] u(2) by (auto simp: get_con_def)
  then have acc1: "acc1 = set_con acc (un_con u) (Some (c\<lparr>c_units := remove1 p (c_units c)\<rparr>))" using del by (simp add: mbb_consumer_del_unit_def)
  have fin: "acc_inv acl (set_unit acc1 p u') S" if "un_id u' = un_id u" "un_name u' = un_name u" "un_local u' = un_local u" "un_con u' = 0" for u'
    by (rule detach_unit_inv [OF inv u c that]) (simp add: acc1)
  have u1: "get_unit acc1 p = Some u" "get_con acc1 (un_con u) = Some (c\<lparr>c_units := remove1 p (c_units c)\<rparr>)"
    using u by (simp_all add: acc1 get_unit_def get_con_def)
  show "acc_inv acl acc2 S" if "mbb_unit_unset_consumer acc1 p = Some (acc2, True)"
    using that u1 by (auto simp: mbb_unit_unset_consumer_def intro!: fin split: if_splits)
  show "acc_inv acl acc4 S" if h: "mbb_unit_unset_consumer acc1 p = Some (acc2, False)" "mbb_unit_inherit_time acc2 p = Some acc3"
    "mbb_unit_unset_consumer acc3 p = Some (acc4, ok)"
  proof -
    let ?u = "u\<lparr>un_start := if un_start u < 0 then c_start c else un_start u, un_end := if un_end u < 0 then c_end c else un_end u\<rparr>"
    have "acc2 = acc1" using h(1) u1 by (auto simp: mbb_unit_unset_consumer_def split: if_splits)
    then have "acc3 = set_unit acc1 p ?u" using h(2) u1 u(2) by (auto simp: mbb_unit_inherit_time_def Let_def)
    moreover have "0 \<le> un_start ?u" "0 \<le> un_end ?u" using timed_at [OF inv c [unfolded get_con_def]] by (simp_all add: timed_def)
    ultimately have "acc4 = set_unit acc1 p (?u\<lparr>un_con := 0\<rparr>)" using h(3) by (simp add: mbb_unit_unset_consumer_def get_unit_def set_unit_def)
    then show ?thesis by (simp add: fin)
  qed
qed

section \<open>The commands keep the references\<close>

text \<open>The allocator and the database give an address and numbers that are not in use.\<close>

definition fresh_acc_address :: "account \<Rightarrow> gpointer \<Rightarrow> bool" where
  "fresh_acc_address acc p \<longleftrightarrow> p \<noteq> 0 \<and> dm_heap (ac_cons acc) p = None \<and> dm_heap (ac_units acc) p = None"

definition fresh_acc_ids :: "('v, 'w, 'i) app_srv \<Rightarrow> thread_id \<Rightarrow> bool" where
  "fresh_acc_ids st t \<longleftrightarrow>
     (\<forall>name s e db i err. mbb_db_consumer_add (srv_db st) t name s e = Some (db, i, err) \<longrightarrow> 0 \<le> i \<longrightarrow>
        (\<forall>q c. dm_heap (ac_cons (srv_acc st)) q = Some c \<longrightarrow> c_id c \<noteq> i)) \<and>
     (\<forall>name con_id s e db i err. mbb_db_unit_add (srv_db st) t name con_id s e = Some (db, i, err) \<longrightarrow> 0 \<le> i \<longrightarrow>
        (\<forall>q u. dm_heap (ac_units (srv_acc st)) q = Some u \<longrightarrow> un_id u \<noteq> i))"

lemma fresh_acc_idsD:
  assumes "fresh_acc_ids st t" "0 \<le> i"
  shows "mbb_db_consumer_add (srv_db st) t name s e = Some (db, i, err) \<Longrightarrow> dm_heap (ac_cons (srv_acc st)) q = Some c \<Longrightarrow> c_id c \<noteq> i"
    "mbb_db_unit_add (srv_db st) t name con_id s e = Some (db, i, err) \<Longrightarrow> dm_heap (ac_units (srv_acc st)) q = Some u \<Longrightarrow> un_id u \<noteq> i"
  using assms unfolding fresh_acc_ids_def by blast+

text \<open>The references agree after the command, and a command that answers with a message has changed none.\<close>

definition srv_acc_ok :: "('v, 'w, 'i) app_srv \<Rightarrow> bool" where
  "srv_acc_ok st \<longleftrightarrow> (\<exists>S. acc_inv (sv_acl st) (srv_acc st) S)"

definition acc_kept :: "('v, 'w, 'i) app_srv \<Rightarrow> ('v, 'w, 'i) app_srv \<times> xml_tag option \<Rightarrow> bool" where
  "acc_kept st r \<longleftrightarrow> srv_acc_ok (fst r) \<and> (snd r \<noteq> None \<longrightarrow> srv_acc (fst r) = srv_acc st \<and> sv_acl (fst r) = sv_acl st)"

lemma srv_acc_okI: "acc_inv (sv_acl st) (srv_acc st) S \<Longrightarrow> srv_acc_ok st"
  by (auto simp: srv_acc_ok_def)

lemma acc_kept_same [simp]:
  "srv_acc_ok st \<Longrightarrow> acc_kept st (st, a)" "srv_acc_ok st \<Longrightarrow> acc_kept st (set_db st db, a)"
  "srv_acc_ok st \<Longrightarrow> acc_kept st (set_acc st (srv_acc st), a)" "srv_acc_ok st \<Longrightarrow> acc_kept st (set_acc (set_db st db) (srv_acc st), a)"
  by (simp_all add: acc_kept_def srv_acc_ok_def)

lemma acc_kept_done: "acc_inv acl acc S \<Longrightarrow> sv_acl s = acl \<Longrightarrow> acc_kept st (set_acc s acc, None)"
  by (auto simp: acc_kept_def srv_acc_ok_def)

lemma acc_kept_db: "acc_inv (sv_acl st) acc S \<Longrightarrow> acc_kept st (set_acc (set_db st db) acc, None)"
  by (rule acc_kept_done) simp_all

lemma acc_name_refused:
  "mbb_consumer_mod_name acc con n = Some (acc', False) \<Longrightarrow> acc' = acc"
  "mbb_unit_mod_name acc p n = Some (acc', False) \<Longrightarrow> acc' = acc"
  by (auto simp: mbb_consumer_mod_name_def mbb_unit_mod_name_def module_mod_name_def Let_def split: bind_splits option.splits if_splits)

lemmas acc_dests = reply_msg_outcome reply_error_outcome acc_name_refused

lemma add_consumer_kept:
  assumes "add_consumer p now st t tag = Some r" and inv: "acc_inv (sv_acl st) (srv_acc st) S"
    and fresh: "fresh_acc_address (srv_acc st) p" "fresh_acc_ids st t" and now: "0 \<le> now"
  shows "acc_kept st r"
  using assms(1) unfolding add_consumer_def
proof (cases rule: with_args_cases)
  case (good vs)
  have step: "acc_kept st (set_acc (set_db st db) acc, None)" if "mbb_consumer_get_by_name (srv_acc st) name = None"
    "mbb_db_consumer_add (srv_db st) t name now 0 = Some (db, i, e)" "0 \<le> i"
    "mbb_consumer_join (set_con (srv_acc st) p (Some (mbb_consumer_new i name now 0))) p = Some acc" for name db i e acc
    by (rule acc_kept_done, rule join_consumer_inv [OF inv that(1) _ _ _ now that(4)])
      (use fresh_acc_idsD(1) [OF fresh(2) that(3,2)] fresh(1) in \<open>auto simp: fresh_acc_address_def\<close>)
  show ?thesis
    by (insert good srv_acc_okI [OF inv]) (auto simp: Let_def not_less split: bind_splits if_splits dest!: acc_dests intro: step)
qed (simp add: srv_acc_okI [OF inv])

lemma drop_consumer_kept:
  assumes "drop_consumer st t tag = Some r" and inv: "acc_inv (sv_acl st) (srv_acc st) S"
  shows "acc_kept st r"
  using assms(1) unfolding drop_consumer_def
proof (cases rule: with_args_cases)
  case (good vs)
  have "acc_kept st (set_acc (set_acl (set_db st db) acl) acc, None)"
    if "get_con (srv_acc st) con = Some c" "c_units c = []" "mbb_consumer_remove (srv_acc st) con = Some acc"
      "if c_user c = 0 then acl = sv_acl st
       else \<exists>u. dm_heap (acl_users (sv_acl st)) (c_user c) = Some u \<and> acl = set_user (sv_acl st) (c_user c) (Some (mbb_user_del_consumer u con))"
    for db acl acc con c
  proof (rule acc_kept_done [of acl acc S])
    have "owned c_user u_childs (dm_heap (acl_users acl)) ((dm_heap (ac_cons (srv_acc st)))(con \<mapsto> c\<lparr>c_user := 0\<rparr>))"
      by (rule leave_user [OF acc_invD(4) [OF inv] that(1) [unfolded get_con_def]]) (use that(4) in \<open>auto simp: set_user_def split: if_splits\<close>)
    from remove_consumer_inv [OF inv that(1,2) this that(3)] show "acc_inv acl acc S" .
  qed simp
  with good srv_acc_okI [OF inv] show ?thesis
    by (auto simp: Let_def split: bind_splits if_splits option.splits dest!: acc_dests)
qed (simp add: srv_acc_okI [OF inv])

lemma consumer_mod_name_kept:
  assumes "consumer_mod_name st t tag = Some r" and inv: "acc_inv (sv_acl st) (srv_acc st) S"
  shows "acc_kept st r"
  using assms(1) unfolding consumer_mod_name_def
proof (cases rule: with_args_cases)
  case (good vs)
  have step: "acc_kept st (set_acc (set_db st db) acc, None)"
    if "get_con (srv_acc st) con = Some c" "mbb_consumer_mod_name (srv_acc st) con n = Some (acc, b)" for con c n acc b db
    by (rule acc_kept_db [OF rename_consumer_inv [OF inv that]])
  show ?thesis
    by (insert good srv_acc_okI [OF inv])
      (auto simp: Let_def split: bind_splits if_splits option.splits dest!: acc_dests; rule step; assumption)
qed (simp add: srv_acc_okI [OF inv])

lemma consumer_mod_time_kept:
  assumes "consumer_mod_time env st t tag = Some r" and inv: "acc_inv (sv_acl st) (srv_acc st) S"
  shows "srv_acc_ok (fst r)"
  using assms(1) unfolding consumer_mod_time_def
proof (cases rule: with_args_cases)
  case (good vs)
  have step: "srv_acc_ok (set_acc s acc)"
    if "mbb_consumer_mod_time (srv_acc st) con b e = Some (acc, ok)" "get_con (srv_acc st) con = Some c"
      "b = c_start c \<or> 0 \<le> b" "e = c_end c \<or> 0 \<le> e" "sv_acl s = sv_acl st"
    for con c b e acc ok s
  proof (rule srv_acc_okI [where S = S])
    have "acc_inv (sv_acl st) acc S"
      by (rule retime_consumer_inv [OF inv that(1)]) (use that timed_at [OF inv that(2) [unfolded get_con_def]] in \<open>auto simp: timed_def\<close>)
    then show "acc_inv (sv_acl (set_acc s acc)) (srv_acc (set_acc s acc)) S" using that(5) by simp
  qed
  show ?thesis
    by (insert good srv_acc_okI [OF inv])
      (auto simp: Let_def not_less split: bind_splits if_split_asm option.splits dest!: acc_dests dest: step; simp add: step)
qed (simp add: srv_acc_okI [OF inv])

lemma consumer_user_kept:
  assumes inv: "acc_inv (sv_acl st) (srv_acc st) S"
  shows "consumer_set_user st t tag = Some r \<Longrightarrow> acc_kept st r" "consumer_unset_user st t tag = Some r \<Longrightarrow> acc_kept st r"
proof -
  note ok = srv_acc_okI [OF inv]
  have set: "acc_kept st (set_acc (set_acl (set_db st db) (set_user (sv_acl st) user (Some (mbb_user_add_consumer u con))))
      (set_con (srv_acc st) con (Some (c\<lparr>c_user := user\<rparr>))), None)"
    if "get_con (srv_acc st) con = Some c" "c_user c = 0" "dm_heap (acl_users (sv_acl st)) user = Some u" for db user u con c
    by (rule acc_kept_done, rule set_user_inv [OF inv that]) simp
  have unset: "acc_kept st (set_acc (set_acl (set_db st db) (set_user (sv_acl st) (c_user c) (Some (mbb_user_del_consumer u con))))
      (set_con (srv_acc st) con (Some (c\<lparr>c_user := 0\<rparr>))), None)"
    if "get_con (srv_acc st) con = Some c" "c_user c \<noteq> 0" "dm_heap (acl_users (sv_acl st)) (c_user c) = Some u" for db u con c
    by (rule acc_kept_done, rule unset_user_inv [OF inv that]) simp
  show "acc_kept st r" if "consumer_set_user st t tag = Some r"
    using that ok unfolding consumer_set_user_def
    by (elim with_args_cases) (auto simp: Let_def split: bind_splits if_splits option.splits dest!: acc_dests intro: set)
  show "acc_kept st r" if "consumer_unset_user st t tag = Some r"
    using that ok unfolding consumer_unset_user_def
    by (elim with_args_cases) (auto simp: Let_def split: bind_splits if_splits option.splits dest!: acc_dests intro: unset)
qed

text \<open>Creating a unit either fails and changes nothing but the database, or registers it.\<close>

lemma unit_create_kept:
  assumes run: "unit_create p now st t name con inherit = Some (st', ok, e)" and inv: "acc_inv (sv_acl st) (srv_acc st) S"
    and fresh: "fresh_acc_address (srv_acc st) p" "fresh_acc_ids st t" and name: "mbb_unit_get_by_name (srv_acc st) name = None"
  shows "if ok then acc_kept st (st', None) else \<exists>db. st' = set_db st db"
proof -
  have new: "dm_heap (ac_units (srv_acc st)) p = None" using fresh(1) by (simp add: fresh_acc_address_def)
  note ids = fresh_acc_idsD(2) [OF fresh(2)]
  have alone: "acc_kept st (set_acc (set_db st db) acc, None)"
    if "mbb_unit_join (set_unit (srv_acc st) p (mbb_unit_new i name s f)) p = Some acc"
      "mbb_db_unit_add (srv_db st) t name con_id s f = Some (db, i, er)" "0 \<le> i" for con_id s f db i er acc
    by (rule acc_kept_db, rule new_unit_inv [OF inv name new _ that(1)]) (rule ids [OF that(3,2)])
  have joined: "acc_kept st (set_acc (set_db st db) acc, None)"
    if "mbb_consumer_add_unit (set_unit (srv_acc st) p ((mbb_unit_new i name s f)\<lparr>un_con := con\<rparr>)) con p = Some acc1"
      "mbb_unit_join acc1 p = Some acc" "mbb_db_unit_add (srv_db st) t name con_id s f = Some (db, i, er)" "0 \<le> i"
    for con_id s f db i er acc acc1
    by (rule acc_kept_db, rule new_unit_of_consumer_inv [OF inv name new _ that(1,2)]) (rule ids [OF that(4,3)])
  show ?thesis
    using run unfolding unit_create_def
    by (auto simp: Let_def not_less split: bind_splits if_split_asm intro: alone joined)
qed

lemma add_unit_kept:
  assumes inv: "acc_inv (sv_acl st) (srv_acc st) S" and fresh: "fresh_acc_address (srv_acc st) p" "fresh_acc_ids st t"
  shows "add_unit p now st t tag = Some r \<Longrightarrow> acc_kept st r" "consumer_add_unit p now st t tag = Some r \<Longrightarrow> acc_kept st r"
proof -
  note make = unit_create_kept [OF _ inv fresh] and ok = srv_acc_okI [OF inv]
  show "acc_kept st r" if "add_unit p now st t tag = Some r"
    using that ok unfolding add_unit_def
    by (elim with_args_cases, simp) (auto split: bind_splits if_splits dest!: acc_dests; drule (1) make; auto)
  show "acc_kept st r" if "consumer_add_unit p now st t tag = Some r"
    using that ok unfolding consumer_add_unit_def
    by (elim with_args_cases, simp) (auto split: bind_splits if_splits option.splits dest!: acc_dests; drule (1) make; auto)
qed

lemma drop_unit_kept:
  assumes "drop_unit st t tag = Some r" and inv: "acc_inv (sv_acl st) (srv_acc st) S"
  shows "acc_kept st r"
  using assms(1) unfolding drop_unit_def
proof (cases rule: with_args_cases)
  case (good vs)
  have step: "acc_kept st (set_acc (set_db st db) acc, None)"
    if "mbb_unit_get_by_name (srv_acc st) name = Some p" "mbb_unit_remove (srv_acc st) p = Some acc" for name p acc db
    by (rule acc_kept_db [OF remove_unit_inv [OF inv named_unit [OF inv that(1)] that(2)]])
  show ?thesis
    by (insert good srv_acc_okI [OF inv])
      (auto simp: Let_def split: bind_splits if_splits option.splits dest!: acc_dests; rule step; assumption)
qed (simp add: srv_acc_okI [OF inv])

lemma unit_mod_name_kept:
  assumes "unit_mod_name st t tag = Some r" and inv: "acc_inv (sv_acl st) (srv_acc st) S"
  shows "acc_kept st r"
  using assms(1) unfolding unit_mod_name_def
proof (cases rule: with_args_cases)
  case (good vs)
  have step: "acc_kept st (set_acc (set_db st db) acc, None)"
    if "mbb_unit_get_by_name (srv_acc st) name = Some p" "get_unit (srv_acc st) p = Some u"
      "mbb_unit_mod_name (srv_acc st) p n = Some (acc, b)" for name p u n acc b db
    by (rule acc_kept_db [OF rename_unit_inv [OF inv named_unit [OF inv that(1)] that(2,3)]])
  show ?thesis
    by (insert good srv_acc_okI [OF inv])
      (auto simp: Let_def split: bind_splits if_splits option.splits dest!: acc_dests; rule step; assumption)
qed (simp add: srv_acc_okI [OF inv])

lemma unit_mod_time_kept:
  assumes "unit_mod_time env st t tag = Some r" and inv: "acc_inv (sv_acl st) (srv_acc st) S"
  shows "srv_acc_ok (fst r)"
  using assms(1) unfolding unit_mod_time_def
proof (cases rule: with_args_cases)
  case (good vs)
  have step: "srv_acc_ok (set_acc s acc)"
    if "mbb_unit_mod_time (srv_acc st) p b e = Some (acc, ok)" "sv_acl s = sv_acl st" for p b e acc ok s
    by (rule srv_acc_okI [where S = S]) (use retime_unit_inv [OF inv that(1)] that(2) in simp)
  show ?thesis
    by (insert good srv_acc_okI [OF inv])
      (auto simp: Let_def split: bind_splits if_split_asm option.splits dest!: acc_dests; simp add: step)
qed (simp add: srv_acc_okI [OF inv])

lemma unit_set_consumer_kept:
  assumes "unit_set_consumer st t tag = Some r" and inv: "acc_inv (sv_acl st) (srv_acc st) S"
  shows "acc_kept st r"
  using assms(1) unfolding unit_set_consumer_def
proof (cases rule: with_args_cases)
  case (good vs)
  have step: "acc_kept st (set_acc (set_db st db) acc, None)"
    if "get_unit (srv_acc st) p = Some u" "un_con u = 0" "get_con (srv_acc st) con = Some c"
      "mbb_unit_set_consumer (srv_acc st) p con = Some acc1" "mbb_consumer_add_unit acc1 con p = Some acc" for p u con c acc1 acc db
    by (rule acc_kept_db [OF attach_unit_inv [OF inv that]])
  show ?thesis
    by (insert good srv_acc_okI [OF inv])
      (auto simp: Let_def split: bind_splits if_splits option.splits dest!: acc_dests; rule step; assumption)
qed (simp add: srv_acc_okI [OF inv])

lemma unit_local_kept:
  assumes "unit_local_do loc st t tag = Some r" and inv: "acc_inv (sv_acl st) (srv_acc st) S"
  shows "acc_kept st r"
  using assms(1) unfolding unit_local_do_def
proof (cases rule: with_args_cases)
  case (good vs)
  have step: "acc_kept st (set_acc (set_db st db) acc, None)"
    if "mbb_unit_get_by_name (srv_acc st) name = Some p"
      "mbb_unit_local_add (srv_acc st) p = Some acc \<or> mbb_unit_local_del (srv_acc st) p = Some acc" for name p acc db
    by (rule acc_kept_db [where S = S])
      (use that(2) local_add_inv [OF inv named_unit [OF inv that(1)]] local_del_inv [OF inv named_unit [OF inv that(1)]] in blast)
  show ?thesis
    by (insert good srv_acc_okI [OF inv], cases loc)
      ((auto simp: Let_def split: bind_splits if_split_asm option.splits dest!: acc_dests; (rule step, assumption, simp))+)
qed (simp add: srv_acc_okI [OF inv])

lemma unit_unset_consumer_kept:
  assumes "unit_unset_consumer st t tag = Some r" and inv: "acc_inv (sv_acl st) (srv_acc st) S"
  shows "srv_acc_ok (fst r)"
  using assms(1) unfolding unit_unset_consumer_def
proof (cases rule: with_args_cases)
  case (good vs)
  have direct: "srv_acc_ok (set_acc s acc2)"
    if "get_unit (srv_acc st) p = Some u" "un_con u \<noteq> 0" "mbb_consumer_del_unit (srv_acc st) (un_con u) p = Some acc1"
      "mbb_unit_unset_consumer acc1 p = Some (acc2, True)" "sv_acl s = sv_acl st" for p u acc1 acc2 s
    by (rule srv_acc_okI [where S = S]) (use unset_consumer_inv(1) [OF inv that(1-4)] that(5) in simp)
  have copied: "srv_acc_ok (set_acc s acc4)"
    if "get_unit (srv_acc st) p = Some u" "un_con u \<noteq> 0" "mbb_consumer_del_unit (srv_acc st) (un_con u) p = Some acc1"
      "mbb_unit_unset_consumer acc1 p = Some (acc2, False)" "mbb_unit_inherit_time acc2 p = Some acc3"
      "mbb_unit_unset_consumer acc3 p = Some (acc4, ok)" "sv_acl s = sv_acl st" for p u acc1 acc2 acc3 acc4 ok s
    by (rule srv_acc_okI [where S = S]) (use unset_consumer_inv(2) [OF inv that(1-6)] that(7) in simp)
  show ?thesis
    by (insert good srv_acc_okI [OF inv])
      (auto simp: Let_def split: bind_splits if_split_asm option.splits dest!: acc_dests;
        (rule direct; simp; fail | rule copied; simp; fail))
qed (simp add: srv_acc_okI [OF inv])

text \<open>The commands that only answer.\<close>

lemma show_accounts_kept:
  assumes inv: "acc_inv (sv_acl st) (srv_acc st) S"
  shows "show_consumers ord env st t tag = Some r \<Longrightarrow> acc_kept st r" "self_show_consumers env st t tag = Some r \<Longrightarrow> acc_kept st r"
    "show_units ord env st t tag = Some r \<Longrightarrow> acc_kept st r" "self_show_units env st t tag = Some r \<Longrightarrow> acc_kept st r"
    "unit_show_self st t tag = Some r \<Longrightarrow> acc_kept st r"
    "show_mapped_units ord st t tag = Some r \<Longrightarrow> acc_kept st r" "show_nomapped_units ord st t tag = Some r \<Longrightarrow> acc_kept st r"
  using srv_acc_okI [OF inv]
  by (auto simp: show_consumers_def self_show_consumers_def show_units_def self_show_units_def unit_show_self_def
    show_mapped_units_def show_nomapped_units_def with_args_def split: bind_splits sum.splits option.splits if_split_asm dest!: acc_dests)

lemma consumer_commands_kept:
  assumes cmd: "(name, h, cap) \<in> set (consumer_commands p now ord env)" and run: "h st t tag = Some r"
    and inv: "acc_inv (sv_acl st) (srv_acc st) S" and fresh: "fresh_acc_address (srv_acc st) p" "fresh_acc_ids st t" and now: "0 \<le> now"
  shows "acc_kept st r \<or> name = ''mbb-consumer-mod-time'' \<and> srv_acc_ok (fst r)"
  using cmd run unfolding consumer_commands_def
  by (auto dest: show_accounts_kept(1,2) [OF inv] add_consumer_kept [OF _ inv fresh now] drop_consumer_kept [OF _ inv]
    consumer_mod_name_kept [OF _ inv] consumer_mod_time_kept [OF _ inv] consumer_user_kept [OF inv])

lemma unit_commands_kept:
  assumes cmd: "(name, h, cap) \<in> set (unit_commands p now ord env)" and run: "h st t tag = Some r"
    and inv: "acc_inv (sv_acl st) (srv_acc st) S" and fresh: "fresh_acc_address (srv_acc st) p" "fresh_acc_ids st t"
  shows "acc_kept st r \<or> name \<in> {''mbb-unit-mod-time'', ''mbb-unit-unset-consumer''} \<and> srv_acc_ok (fst r)"
  using cmd run unfolding unit_commands_def list.set insert_iff empty_iff prod.inject
  by (elim disjE conjE FalseE; hypsubst)
    (simp_all add: show_accounts_kept(3-) [OF inv] add_unit_kept [OF inv fresh] drop_unit_kept [OF _ inv]
      unit_mod_name_kept [OF _ inv] unit_mod_time_kept [OF _ inv] unit_set_consumer_kept [OF _ inv] unit_unset_consumer_kept [OF _ inv]
      unit_local_kept [OF _ inv] unit_local_add_def unit_local_del_def)

lemma acc_refs:
  assumes "srv_acc_ok st"
  shows "get_unit (srv_acc st) q = Some u \<Longrightarrow> un_con u \<noteq> 0 \<Longrightarrow> \<exists>c. get_con (srv_acc st) (un_con u) = Some c \<and> q \<in> set (c_units c)"
    "get_con (srv_acc st) q = Some c \<Longrightarrow> c_user c \<noteq> 0 \<Longrightarrow> \<exists>x. dm_heap (acl_users (sv_acl st)) (c_user c) = Some x \<and> q \<in> set (u_childs x)"
    "get_con (srv_acc st) q = Some c \<Longrightarrow> r \<in> set (c_units c) \<Longrightarrow> \<exists>u. get_unit (srv_acc st) r = Some u \<and> un_con u = q"
proof -
  obtain S where inv: "acc_inv (sv_acl st) (srv_acc st) S" using assms by (auto simp: srv_acc_ok_def)
  note un = consumer_units.ownedD [OF acc_invD(5) [OF inv]] and co = user_consumers.ownedD [OF acc_invD(4) [OF inv]]
  show "get_unit (srv_acc st) q = Some u \<Longrightarrow> un_con u \<noteq> 0 \<Longrightarrow> \<exists>c. get_con (srv_acc st) (un_con u) = Some c \<and> q \<in> set (c_units c)"
    using un(4) [of q u] un(3) [of "un_con u" _ q] by (auto simp: get_unit_def get_con_def)
  show "get_con (srv_acc st) q = Some c \<Longrightarrow> c_user c \<noteq> 0 \<Longrightarrow> \<exists>x. dm_heap (acl_users (sv_acl st)) (c_user c) = Some x \<and> q \<in> set (u_childs x)"
    using co(4) [of q c] co(3) [of "c_user c" _ q] by (auto simp: get_con_def)
  show "get_con (srv_acc st) q = Some c \<Longrightarrow> r \<in> set (c_units c) \<Longrightarrow> \<exists>u. get_unit (srv_acc st) r = Some u \<and> un_con u = q"
    using un(3) [of q c r] by (simp add: get_unit_def get_con_def)
qed

text \<open>
  C24. The commands on consumers and units keep the references between users, consumers and units:
  the registries hold unique numbers and names, the table of local units holds exactly the
  registered units marked as local, every unit that names a consumer is in the list of a
  consumer that exists, every consumer that names a user is in the list of a user that exists,
  and the units in a list name the consumer that holds it. A command that answers with a
  message has changed none of this, except the three commands that change times before the
  statement of the database runs. The allocator and the database give an address and numbers
  that are not in use.
\<close>

theorem account_commands_inv:
  assumes cmd: "(name, h, cap) \<in> set (account_commands p now ord env)" and run: "h st t tag = Some (st', ans)"
    and ok: "srv_acc_ok st" and fresh: "fresh_acc_address (srv_acc st) p" "fresh_acc_ids st t" and now: "0 \<le> now"
  shows "srv_acc_ok st' \<and>
     (ans \<noteq> None \<and> name \<notin> {''mbb-consumer-mod-time'', ''mbb-unit-mod-time'', ''mbb-unit-unset-consumer''} \<longrightarrow>
        srv_acc st' = srv_acc st \<and> sv_acl st' = sv_acl st) \<and>
     (\<forall>q u. get_unit (srv_acc st') q = Some u \<and> un_con u \<noteq> 0 \<longrightarrow>
        (\<exists>c. get_con (srv_acc st') (un_con u) = Some c \<and> q \<in> set (c_units c))) \<and>
     (\<forall>q c. get_con (srv_acc st') q = Some c \<and> c_user c \<noteq> 0 \<longrightarrow>
        (\<exists>x. dm_heap (acl_users (sv_acl st')) (c_user c) = Some x \<and> q \<in> set (u_childs x))) \<and>
     (\<forall>q c r. get_con (srv_acc st') q = Some c \<and> r \<in> set (c_units c) \<longrightarrow> (\<exists>u. get_unit (srv_acc st') r = Some u \<and> un_con u = q))"
proof -
  obtain S where inv: "acc_inv (sv_acl st) (srv_acc st) S" using ok by (auto simp: srv_acc_ok_def)
  have k: "srv_acc_ok st'" "ans \<noteq> None \<and> name \<notin> {''mbb-consumer-mod-time'', ''mbb-unit-mod-time'', ''mbb-unit-unset-consumer''} \<longrightarrow>
        srv_acc st' = srv_acc st \<and> sv_acl st' = sv_acl st"
    using cmd consumer_commands_kept [of name h cap, OF _ run inv fresh now] unit_commands_kept [of name h cap, OF _ run inv fresh]
    by (fastforce simp: account_commands_def acc_kept_def)+
  with acc_refs [OF k(1)] show ?thesis by blast
qed

text \<open>A unit without consumer gets one.\<close>

definition account1 :: account where
  "account1 = \<lparr>
     ac_units = \<lparr>dm_link = Some \<lparr>dl_tables = [[Key_Ptr 32 \<mapsto> 32], [Key_Int 1 \<mapsto> 32], [Key_Str ''u'' \<mapsto> 32]], dl_destroy = True\<rparr>,
       dm_heap = [32 \<mapsto> mbb_unit_new 1 ''u'' 5 0]\<rparr>,
     ac_cons = \<lparr>dm_link = Some \<lparr>dl_tables = [[Key_Ptr 16 \<mapsto> 16], [Key_Int 2 \<mapsto> 16], [Key_Str ''c'' \<mapsto> 16]], dl_destroy = True\<rparr>,
       dm_heap = [16 \<mapsto> mbb_consumer_new 2 ''c'' 0 0]\<rparr>,
     ac_entries = Map.empty, ac_pool = None, ac_local = None\<rparr>"

definition csrv0 :: "(unit, string list, unit mbb_db_iter) app_srv" where
  "csrv0 = \<lparr>sv_mem = \<lparr>ap_vars = (), ap_net = net0, ap_acc = account1, ap_db = dbs0\<rparr>, sv_acl = acl0,
     sv_threads = Map.empty, sv_sessions = Map.empty, sv_session_id = 1, sv_session_ht = None, sv_var_queue = [], sv_vars = Map.empty,
     sv_var_ht = None, sv_cache_global = None, sv_modules = \<lparr>dm_link = None, dm_heap = Map.empty\<rparr>, sv_infos = Map.empty,
     sv_cur_info = None, sv_mod_key = \<lambda>_. None, sv_funcs = Map.empty, sv_func_ht = None,
     sv_auth_methods = None, sv_auth_heap = Map.empty, sv_auth_keys = None, sv_key_lifetime = 60\<rparr>"

definition join_request :: xml_tag where
  "join_request = Xml_Tag ''request'' [] None
     [(''unit'', [Xml_Tag ''unit'' [(''name'', VARIANT_STRING (Some ''u''))] None []]),
      (''consumer'', [Xml_Tag ''consumer'' [(''name'', VARIANT_STRING (Some ''c''))] None []])]"

lemma csrv0_simps: "srv_acc csrv0 = account1" "srv_db csrv0 = dbs0" "sv_acl csrv0 = acl0"
  by (simp_all add: csrv0_def)

lemma account1_ok:
  fixes st :: "(unit, string list, unit mbb_db_iter) app_srv"
  assumes st: "srv_acc st = account1" "srv_db st = dbs0" "sv_acl st = acl0"
  shows "srv_acc_ok st" "fresh_acc_address (srv_acc st) 64" "fresh_acc_ids st t"
proof -
  have "acc_inv acl0 account1 {32}"
  proof (rule acc_invI)
    show "local_ok account1 {32}" by (simp add: local_ok_def account1_def get_unit_def mbb_unit_new_def)
    show "owned c_user u_childs (dm_heap (acl_users acl0)) (dm_heap (ac_cons account1))"
      by (auto simp: owned_def account1_def acl0_def bob_def mbb_consumer_new_def split: if_splits)
    show "owned un_con c_units (dm_heap (ac_cons account1)) (dm_heap (ac_units account1))"
      by (auto simp: owned_def account1_def mbb_unit_new_def mbb_consumer_new_def split: if_splits)
    show "timed c" if "c \<in> ran (dm_heap (ac_cons account1))" for c
      using that by (auto simp: account1_def timed_def mbb_consumer_new_def)
  qed (auto simp: module_ok_def links_def account1_def mbb_unit_new_def mbb_consumer_new_def unit_entries_def consumer_entries_def
    std_entries_def less_Suc_eq split: if_splits)
  then show "srv_acc_ok st" by (auto simp: srv_acc_ok_def st)
  show "fresh_acc_address (srv_acc st) 64" by (simp add: fresh_acc_address_def st account1_def)
  show "fresh_acc_ids st t"
    using fetch_inserted0 [of t]
    by (auto simp: fresh_acc_ids_def st mbb_db_consumer_add_def mbb_db_unit_add_def mbb_db_insert_ret_def
      split: option.splits bind_splits if_splits dest: leD)
qed

lemma unit_set_consumer_run:
  fixes st :: "(unit, string list, unit mbb_db_iter) app_srv"
  assumes st: "srv_acc st = account1" "srv_db st = dbs0"
  shows "\<exists>st'. unit_set_consumer st 0 join_request = Some (st', None)"
proof -
  have args: "mbb_xtv_call_z join_request [(xtv_unit_name, False), (xtv_consumer_name, False)] = Some (Inr [Some (XV_Str ''u''), Some (XV_Str ''c'')])"
    by (simp add: join_request_def mbb_xtv_call_z_def xml_tag_get_valuesv_def xtv_unit_name_def xtv_consumer_name_def
      xtv_entry_def xml_tag_path_attr_def xml_tag_path_def g_strsplit_def xml_tag_get_child_def xml_tag_get_attr_def
      variant_get_string_def var_conv_str_def)
  have "mbb_unit_get_by_name account1 ''u'' = Some 32" "mbb_consumer_get_by_name account1 ''c'' = Some 16"
    by (simp_all add: mbb_unit_get_by_name_def mbb_consumer_get_by_name_def module_get_def data_link_lookup_def account1_def)
  moreover have "\<exists>db. mbb_db_unit_set_consumer dbs0 0 1 2 = Some (db, True, None)"
    by (simp add: mbb_db_unit_set_consumer_def statement_defs dbs0_defs)
  moreover have "get_unit account1 32 = Some (mbb_unit_new 1 ''u'' 5 0)" "get_con account1 16 = Some (mbb_consumer_new 2 ''c'' 0 0)"
    by (simp_all add: account1_def get_unit_def get_con_def)
  ultimately show ?thesis
    by (auto simp: unit_set_consumer_def with_args_def args mbb_unit_new_def mbb_consumer_new_def mbb_unit_set_consumer_def
      mbb_consumer_add_unit_def get_con_def xv_str_def st)
qed

theorem account_commands_inv_witness: "\<exists>st'. unit_set_consumer csrv0 0 join_request = Some (st', None) \<and> srv_acc_ok st'"
proof -
  obtain st' where r: "unit_set_consumer csrv0 0 join_request = Some (st', None)" using unit_set_consumer_run [OF csrv0_simps(1,2)] by auto
  have "(''mbb-unit-set-consumer'', unit_set_consumer, MBB_CAP_ADMIN) \<in>
      set (account_commands 64 0 (\<lambda>_. []) \<lparr>xe_cal = undefined, xe_re_new = \<lambda>_. None\<rparr>)"
    by (simp add: account_commands_defs)
  from account_commands_inv [OF this r account1_ok [OF csrv0_simps]] r show ?thesis by simp
qed

end
