(* ===== verification/Server_State.thy ===== *)
theory Server_State
  imports Account_Inv Net_Man Acl_Man
begin

text \<open>
  The commands of all managers together. Each table of commands keeps the invariant of its own
  objects; this theory shows what each leaves alone of the others: the commands on the network
  change neither users nor accounts, the commands on accounts change of the users only the
  lists of their consumers, and the commands on users drop no user that has consumers. So every
  command keeps the consistency of the whole memory of the server.
\<close>

section \<open>What the commands leave alone\<close>

text \<open>Commands on operators, gateways and links.\<close>

definition net_frame :: "('v, 'w, 'i) app_srv \<Rightarrow> ('v, 'w, 'i) app_srv \<times> xml_tag option \<Rightarrow> bool" where
  "net_frame st r \<longleftrightarrow> sv_acl (fst r) = sv_acl st \<and> srv_acc (fst r) = srv_acc st"

lemma net_frame_simps [simp]:
  "net_frame st (st, a)" "net_frame st (set_db s db, a) \<longleftrightarrow> net_frame st (s, a)" "net_frame st (set_net s net, a) \<longleftrightarrow> net_frame st (s, a)"
  by (simp_all add: net_frame_def)

lemmas net_changes = add_operator_def drop_operator_def operator_mod_name_def add_gateway_def drop_gateway_def gateway_mod_name_def
  drop_gwlink_def show_operators_def show_gateways_def gateway_show_gwlinks_def

lemma net_commands_frame1:
  shows "add_operator p st t tag = Some r \<Longrightarrow> net_frame st r" "drop_operator st t tag = Some r \<Longrightarrow> net_frame st r"
    "operator_mod_name st t tag = Some r \<Longrightarrow> net_frame st r" "add_gateway p st t tag = Some r \<Longrightarrow> net_frame st r"
    "drop_gateway st t tag = Some r \<Longrightarrow> net_frame st r" "gateway_mod_name st t tag = Some r \<Longrightarrow> net_frame st r"
    "drop_gwlink st t tag = Some r \<Longrightarrow> net_frame st r" "show_operators ord st t tag = Some r \<Longrightarrow> net_frame st r"
    "show_gateways ord st t tag = Some r \<Longrightarrow> net_frame st r" "gateway_show_gwlinks st t tag = Some r \<Longrightarrow> net_frame st r"
  unfolding net_changes
  by (auto simp: with_args_def Let_def split: bind_splits sum.splits option.splits if_split_asm dest!: net_dests)

lemma net_commands_frame2: "add_gwlink p now st t tag = Some r \<Longrightarrow> net_frame st r" "gwlink_mod_time env st t tag = Some r \<Longrightarrow> net_frame st r"
  unfolding add_gwlink_def gwlink_mod_time_def
  by (auto simp: with_args_def Let_def split: bind_splits sum.splits option.splits if_split_asm dest!: net_dests)

text \<open>Commands on consumers and units.\<close>

definition acc_frame :: "('v, 'w, 'i) app_srv \<Rightarrow> ('v, 'w, 'i) app_srv \<times> xml_tag option \<Rightarrow> bool" where
  "acc_frame st r \<longleftrightarrow> srv_net (fst r) = srv_net st \<and> (sv_acl (fst r) = sv_acl st \<or>
     (\<exists>p u l. dm_heap (acl_users (sv_acl st)) p = Some u \<and> sv_acl (fst r) = set_user (sv_acl st) p (Some (u\<lparr>u_childs := l\<rparr>))))"

lemma acc_frame_simps [simp]:
  "acc_frame st (st, a)" "acc_frame st (set_db s db, a) \<longleftrightarrow> acc_frame st (s, a)" "acc_frame st (set_acc s net, a) \<longleftrightarrow> acc_frame st (s, a)"
  by (simp_all add: acc_frame_def)

lemma net_commands_frame3:
  assumes "quiet_view gwiv_var st"
  shows "show_gwlinks bool_at gwiv_var ord st t tag = Some r \<Longrightarrow> net_frame st r"
    "operator_show_gwlinks bool_at gwiv_var st t tag = Some r \<Longrightarrow> net_frame st r"
  using gather_gwlinks_kept [OF assms]
  by (auto simp: show_gwlinks_def operator_show_gwlinks_def net_frame_def with_args_def
    split: bind_splits sum.splits option.splits dest!: net_dests)

lemma net_commands_frame:
  assumes cmd: "(name, h, cap) \<in> set (net_commands p now ord env bool_at gwiv_var)" and run: "h st t tag = Some r"
    and quiet: "quiet_view gwiv_var st"
  shows "net_frame st r"
  using cmd run unfolding net_commands_defs set_append list.set Un_iff insert_iff empty_iff prod.inject
  by (elim disjE conjE FalseE; hypsubst) (simp_all add: net_commands_frame1 net_commands_frame2 net_commands_frame3 [OF quiet])

lemma acc_frame_childs:
  assumes "dm_heap (acl_users (sv_acl st)) p = Some u"
  shows "acc_frame st (set_acl (set_db st db) (set_user (sv_acl st) p (Some (mbb_user_add_consumer u con))), a)"
    "acc_frame st (set_acl (set_db st db) (set_user (sv_acl st) p (Some (mbb_user_del_consumer u con))), a)"
proof -
  have *: "\<exists>l. mbb_user_add_consumer u con = u\<lparr>u_childs := l\<rparr>" "\<exists>l. mbb_user_del_consumer u con = u\<lparr>u_childs := l\<rparr>"
    by (cases u; auto simp: mbb_user_add_consumer_def mbb_user_del_consumer_def)+
  show "acc_frame st (set_acl (set_db st db) (set_user (sv_acl st) p (Some (mbb_user_add_consumer u con))), a)"
    using assms *(1) unfolding acc_frame_def by fastforce
  show "acc_frame st (set_acl (set_db st db) (set_user (sv_acl st) p (Some (mbb_user_del_consumer u con))), a)"
    using assms *(2) unfolding acc_frame_def by fastforce
qed

lemma consumer_commands_frame1:
  "show_consumers ord env st t tag = Some r \<Longrightarrow> acc_frame st r" "self_show_consumers env st t tag = Some r \<Longrightarrow> acc_frame st r"
  "add_consumer p now st t tag = Some r \<Longrightarrow> acc_frame st r" "drop_consumer st t tag = Some r \<Longrightarrow> acc_frame st r"
  "consumer_mod_name st t tag = Some r \<Longrightarrow> acc_frame st r" "consumer_mod_time env st t tag = Some r \<Longrightarrow> acc_frame st r"
  "consumer_set_user st t tag = Some r \<Longrightarrow> acc_frame st r" "consumer_unset_user st t tag = Some r \<Longrightarrow> acc_frame st r"
  unfolding show_consumers_def self_show_consumers_def add_consumer_def drop_consumer_def consumer_mod_name_def consumer_mod_time_def
    consumer_set_user_def consumer_unset_user_def
  by (auto simp: with_args_def Let_def acc_frame_childs split: bind_splits sum.splits option.splits if_split_asm dest!: acc_dests)

lemma unit_create_frame: "unit_create p now st t name con inherit = Some (st', ok, e) \<Longrightarrow> acc_frame st (st', a)"
  by (auto simp: unit_create_def Let_def split: bind_splits if_split_asm)

lemma unit_commands_frame1:
  "show_units ord env st t tag = Some r \<Longrightarrow> acc_frame st r" "self_show_units env st t tag = Some r \<Longrightarrow> acc_frame st r"
  "unit_show_self st t tag = Some r \<Longrightarrow> acc_frame st r" "show_mapped_units ord st t tag = Some r \<Longrightarrow> acc_frame st r"
  "show_nomapped_units ord st t tag = Some r \<Longrightarrow> acc_frame st r"
  "add_unit p now st t tag = Some r \<Longrightarrow> acc_frame st r" "consumer_add_unit p now st t tag = Some r \<Longrightarrow> acc_frame st r"
  "drop_unit st t tag = Some r \<Longrightarrow> acc_frame st r" "unit_local_do loc st t tag = Some r \<Longrightarrow> acc_frame st r"
  unfolding show_units_def self_show_units_def unit_show_self_def show_mapped_units_def show_nomapped_units_def add_unit_def
    consumer_add_unit_def drop_unit_def unit_local_do_def
  by (auto simp: with_args_def Let_def unit_create_frame split: bind_splits sum.splits option.splits if_split_asm dest!: acc_dests)

lemma unit_commands_frame2:
  "unit_mod_name st t tag = Some r \<Longrightarrow> acc_frame st r" "unit_mod_time env st t tag = Some r \<Longrightarrow> acc_frame st r"
  "unit_set_consumer st t tag = Some r \<Longrightarrow> acc_frame st r" "unit_unset_consumer st t tag = Some r \<Longrightarrow> acc_frame st r"
  unfolding unit_mod_name_def unit_mod_time_def unit_set_consumer_def unit_unset_consumer_def
  by (auto simp: with_args_def Let_def split: bind_splits sum.splits option.splits if_split_asm dest!: acc_dests)

lemma account_commands_frame:
  assumes cmd: "(name, h, cap) \<in> set (account_commands p now ord env)" and run: "h st t tag = Some r"
  shows "acc_frame st r"
  using cmd run unfolding account_commands_defs set_append list.set Un_iff insert_iff empty_iff prod.inject
  by (elim disjE conjE FalseE; hypsubst)
    (simp_all add: consumer_commands_frame1 unit_commands_frame1 unit_commands_frame2 unit_local_add_def unit_local_del_def)

lemma childs_acl_inv:
  assumes inv: "acl_inv acl U G" and u: "dm_heap (acl_users acl) p = Some u"
  shows "acl_inv (set_user acl p (Some (u\<lparr>u_childs := l\<rparr>))) U G"
proof -
  have ok: "module_ok user_entries (acl_users acl) U" "module_ok group_entries (acl_groups acl) G" "members_ok acl U G"
    using inv by (simp_all add: acl_inv_def acl_ok_def)
  have "module_ok user_entries (acl_users (set_user acl p (Some (u\<lparr>u_childs := l\<rparr>)))) U"
    by (rule module_ok_same_keys [OF ok(1) u, where x' = "u\<lparr>u_childs := l\<rparr>"])
      (auto simp: set_user_def user_entries_def std_entries_def less_Suc_eq numeral_eq_Suc)
  moreover have "members_ok (set_user acl p (Some (u\<lparr>u_childs := l\<rparr>))) U G"
    using ok(3) u by (auto simp: members_ok_def)
  ultimately show ?thesis using inv ok by (simp add: acl_inv_def acl_ok_def)
qed

text \<open>Only a user without consumers is dropped, and no other change of users touches their lists.\<close>

lemma same_users_acc_ok:
  assumes ok: "srv_acc_ok st" and st': "srv_acc st' = srv_acc st"
    "\<And>p. map_option u_childs (dm_heap (acl_users (sv_acl st')) p) = map_option u_childs (dm_heap (acl_users (sv_acl st)) p)"
  shows "srv_acc_ok st'"
proof -
  obtain S where inv: "acc_inv (sv_acl st) (srv_acc st) S" using ok by (auto simp: srv_acc_ok_def)
  have "acc_inv (sv_acl st') (srv_acc st') S"
    by (rule acc_invI) (use acc_invD [OF inv] st'(1) user_consumers.same_lists [OF acc_invD(4) [OF inv] st'(2)] in simp_all)
  then show ?thesis by (rule srv_acc_okI)
qed

lemma acl_change_accounts:
  assumes "acl_change t cmd st st'" "srv_acc_ok st"
  shows "srv_acc_ok st' \<and> srv_net st' = srv_net st"
  using assms(1)
proof (cases rule: acl_change.cases)
  case (Add_User name secret db i e p acl)
  obtain S where inv: "acc_inv (sv_acl st) (srv_acc st) S" using assms(2) by (auto simp: srv_acc_ok_def)
  have "dm_heap (acl_users acl) = (dm_heap (acl_users (sv_acl st)))(p \<mapsto> mbb_user_new i name secret)"
    using Add_User by (auto simp: mbb_user_join_def module_join_def Let_def split: bind_splits)
  then have "owned c_user u_childs (dm_heap (acl_users acl)) (dm_heap (ac_cons (srv_acc st)))"
    using user_consumers.new_owner [OF acc_invD(4) [OF inv], of p "mbb_user_new i name secret"] Add_User
    by (simp add: fresh_user_address_def mbb_user_new_def)
  then have "acc_inv acl (srv_acc st) S" by (intro acc_invI) (use acc_invD [OF inv] in simp_all)
  then show ?thesis using Add_User by (auto simp: srv_acc_ok_def)
next
  case (Drop_User name user u db e acl)
  obtain S where inv: "acc_inv (sv_acl st) (srv_acc st) S" using assms(2) by (auto simp: srv_acc_ok_def)
  define v where "v = dm_heap (acl_users acl) user"
  have h: "dm_heap (acl_users acl) = (dm_heap (acl_users (sv_acl st)))(user := v)" "\<And>x. v = Some x \<Longrightarrow> u_childs x = []"
    using Drop_User by (auto simp: v_def mbb_user_remove_def mbb_user_detach_def mbb_user_unref_def module_detach_def detach_loop.simps [of _ _ 0] Let_def
      split: bind_splits option.splits if_splits)
  have "owned c_user u_childs (dm_heap (acl_users acl)) (dm_heap (ac_cons (srv_acc st)))"
    using user_consumers.drop_owner [OF acc_invD(4) [OF inv] Drop_User(4,5)] user_consumers.same_owner [OF acc_invD(4) [OF inv] Drop_User(4)] h(2) Drop_User(5)
    unfolding h(1) by (cases v) simp_all
  then have "acc_inv acl (srv_acc st) S" by (intro acc_invI) (use acc_invD [OF inv] in simp_all)
  then show ?thesis using Drop_User by (auto simp: srv_acc_ok_def)
next
  case (Rename_User name user u newname db e acl)
  then show ?thesis by (auto intro!: same_users_acc_ok [OF assms(2)] simp: mbb_user_mod_name_def module_mod_name_def Let_def split: bind_splits option.splits if_splits)
next
  case (Set_Pass name user u secret db e acl)
  then show ?thesis by (auto intro!: same_users_acc_ok [OF assms(2)] simp: mbb_user_mod_pass_def)
next
  case (Own_Pass uid user u secret db e acl)
  then show ?thesis by (auto intro!: same_users_acc_ok [OF assms(2)] simp: mbb_user_mod_pass_def)
next
  case (Rename_Group name grp g newname db e acl)
  then show ?thesis by (auto intro!: same_users_acc_ok [OF assms(2)] simp: mbb_group_mod_name_def split: bind_splits)
next
  case (Join_Group gname grp g name user u db e acl)
  then show ?thesis by (auto intro!: same_users_acc_ok [OF assms(2)] simp: mbb_group_add_user_def Let_def split: bind_splits if_splits option.splits)
next
  case (Leave_Group gname grp g name user u db e acl)
  then show ?thesis by (auto intro!: same_users_acc_ok [OF assms(2)] simp: mbb_group_del_user_def Let_def split: bind_splits if_splits option.splits)
qed

section \<open>One command after the other\<close>

definition server_inv :: "('v, 'w, 'i) app_srv \<Rightarrow> bool" where
  "server_inv st \<longleftrightarrow> (\<exists>U G. acl_inv (sv_acl st) U G) \<and> net_inv (srv_net st) \<and> srv_acc_ok st"

text \<open>
  A thread runs a command of one of the tables. The allocator gives an address and the database
  numbers that are not in use.
\<close>

inductive server_step :: "('v, 'w, 'i) app_srv \<Rightarrow> ('v, 'w, 'i) app_srv \<Rightarrow> bool" where
  Acl_Command: "(name, h, cap) \<in> set (acl_commands p ord env) \<Longrightarrow> h st t tag = Some (st', ans) \<Longrightarrow>
    fresh_user_address (sv_acl st) p \<Longrightarrow> fresh_ids st t \<Longrightarrow> server_step st st'"
| Net_Command: "(name, h, cap) \<in> set (net_commands p now ord env bool_at gwiv_var) \<Longrightarrow> h st t tag = Some (st', ans) \<Longrightarrow>
    fresh_address (srv_net st) p \<Longrightarrow> fresh_net_ids st t \<Longrightarrow> quiet_view gwiv_var st \<Longrightarrow> server_step st st'"
| Account_Command: "(name, h, cap) \<in> set (account_commands p now ord env) \<Longrightarrow> h st t tag = Some (st', ans) \<Longrightarrow>
    fresh_acc_address (srv_acc st) p \<Longrightarrow> fresh_acc_ids st t \<Longrightarrow> 0 \<le> now \<Longrightarrow> server_step st st'"

lemma server_step_inv:
  assumes "server_step st st'" "server_inv st"
  shows "server_inv st'"
  using assms(1)
proof (cases rule: server_step.cases)
  case (Acl_Command name h cap p ord env t tag ans)
  obtain U G where inv: "acl_inv (sv_acl st) U G" "net_inv (srv_net st)" "srv_acc_ok st" using assms(2) by (auto simp: server_inv_def)
  have "acl_outcome t name st (st', ans)" by (rule acl_commands_outcome [OF Acl_Command])
  then consider db where "st' = set_db st db" | "acl_change t name st st'" by (auto simp: acl_outcome_def)
  then show ?thesis
  proof cases
    case 1
    with assms(2) show ?thesis by (simp add: server_inv_def srv_acc_ok_def)
  next
    case 2
    from acl_change_inv [OF this inv(1)] acl_change_accounts [OF this inv(3)] inv(2) show ?thesis by (auto simp: server_inv_def)
  qed
next
  case (Net_Command name h cap p now ord env bool_at gwiv_var t tag ans)
  have inv: "net_inv (srv_net st)" using assms(2) by (simp add: server_inv_def)
  have "net_inv (srv_net st')" using net_commands_kept [OF Net_Command(1,2) inv Net_Command(3-5)] by (auto simp: net_kept_def)
  moreover have "net_frame st (st', ans)" by (rule net_commands_frame [OF Net_Command(1,2,5)])
  ultimately show ?thesis using assms(2) by (simp add: server_inv_def net_frame_def srv_acc_ok_def)
next
  case (Account_Command name h cap p now ord env t tag ans)
  obtain S where inv: "acc_inv (sv_acl st) (srv_acc st) S" using assms(2) by (auto simp: server_inv_def srv_acc_ok_def)
  have "srv_acc_ok st'"
    using Account_Command(1) consumer_commands_kept [of name h cap p now ord env, OF _ Account_Command(2) inv Account_Command(3-)]
      unit_commands_kept [of name h cap p now ord env, OF _ Account_Command(2) inv Account_Command(3,4)]
    by (simp add: account_commands_def acc_kept_def) blast
  moreover have "acc_frame st (st', ans)" by (rule account_commands_frame [OF Account_Command(1,2)])
  ultimately show ?thesis using assms(2) childs_acl_inv [of "sv_acl st"] by (fastforce simp: server_inv_def acc_frame_def)
qed

lemma server_steps_inv:
  assumes "server_step\<^sup>*\<^sup>* st st'" "server_inv st"
  shows "server_inv st'"
  using assms by (induction rule: rtranclp_induct) (auto intro: server_step_inv)

end
