(* ===== verification/Mbb_Task.thy ===== *)
theory Mbb_Task
  imports Command
begin

text \<open>
  Background tasks: \<open>mbbd/mbbtask.c\<close>. A task is a thread that calls the functions of a hook until
  its work is done or it is cancelled; commands stop it, let it run again or cancel it. The
  first part are the functions as they are, the second the interleaving of the thread with the
  commands, in the steps that the mutex and the condition of the task leave.
\<close>

section \<open>Definitions\<close>

subsection \<open>Tasks and hooks\<close>

text \<open>The functions of a hook work on the data \<open>'d\<close> of the task; \<open>None\<close> stands for undefined behaviour.\<close>

record 'd mbb_task_hook =
  th_init :: "('d \<Rightarrow> ('d \<times> bool) option) option"
  th_fini :: "('d \<Rightarrow> 'd option) option"
  th_work :: "('d \<Rightarrow> ('d \<times> bool) option) option"

record mbb_task =
  tk_name :: string
  tk_id :: guint32
  tk_cancel :: bool
  tk_run :: bool
  tk_user :: gpointer
  tk_start :: time_t
  tk_sid :: gint
  tk_mod :: "gpointer option"

text \<open>The static variables of the file beside the rest of the server: \<open>task_id\<close>, \<open>ht\<close> and \<open>task_key\<close>.\<close>

record 'm task_srv =
  ts_srv :: "'m srv"
  ts_tasks :: "gpointer \<rightharpoonup> mbb_task"
  ts_task_id :: guint32
  ts_ht :: "(guint32 \<rightharpoonup> gpointer) option"
  ts_key :: "thread_id \<Rightarrow> gpointer option"

definition put_task :: "'m task_srv \<Rightarrow> gpointer \<Rightarrow> mbb_task \<Rightarrow> 'm task_srv" where
  "put_task ts p task = ts\<lparr>ts_tasks := (ts_tasks ts)(p \<mapsto> task)\<rparr>"

text \<open>What a thread knows of its own task; a thread that is no task has none.\<close>

definition mbb_task_get_id :: "'m task_srv \<Rightarrow> thread_id \<Rightarrow> gint option" where
  "mbb_task_get_id ts t =
     (case ts_key ts t of None \<Rightarrow> Some (- 1) | Some p \<Rightarrow> do { task \<leftarrow> ts_tasks ts p; Some (to_gint (uint (tk_id task))) })"

definition mbb_task_get_tid :: "'m task_srv \<Rightarrow> thread_id \<Rightarrow> gint option" where
  "mbb_task_get_tid ts t = (case ts_key ts t of None \<Rightarrow> Some (- 1) | Some p \<Rightarrow> do { task \<leftarrow> ts_tasks ts p; Some (tk_sid task) })"

definition mbb_task_get_user :: "'m task_srv \<Rightarrow> thread_id \<Rightarrow> gpointer option option" where
  "mbb_task_get_user ts t = (case ts_key ts t of None \<Rightarrow> Some None | Some p \<Rightarrow> do { task \<leftarrow> ts_tasks ts p; Some (Some (tk_user task)) })"

definition mbb_task_get_name :: "'m task_srv \<Rightarrow> thread_id \<Rightarrow> string option option" where
  "mbb_task_get_name ts t = (case ts_key ts t of None \<Rightarrow> Some None | Some p \<Rightarrow> do { task \<leftarrow> ts_tasks ts p; Some (Some (tk_name task)) })"

text \<open>
  \<open>mbb_task_new\<close> at the address \<open>p\<close> and the time \<open>now\<close>. The user is that of the session of the
  thread or, for a task that starts a task, of the task; without either, NULL is dereferenced.
\<close>

definition mbb_task_new :: "'m task_srv \<Rightarrow> thread_id \<Rightarrow> gpointer \<Rightarrow> time_t \<Rightarrow> string \<Rightarrow> 'm task_srv option" where
  "mbb_task_new ts t p now name =
     do { let tid = mbb_thread_get_tid (ts_srv ts) t;
          sid \<leftarrow> (if tid \<ge> 0 then Some tid else mbb_task_get_tid ts t);
          usr \<leftarrow> (if tid \<ge> 0 then Some (mbb_thread_get_user (ts_srv ts) t) else mbb_task_get_user ts t);
          user \<leftarrow> usr;
          acl \<leftarrow> mbb_user_ref (sv_acl (ts_srv ts)) user;
          let srv = (ts_srv ts)\<lparr>sv_acl := acl\<rparr>;
          let md = mbb_module_last_used srv t;
          (srv, _) \<leftarrow> mbb_module_use srv t md;
          let i = ts_task_id ts;
          let ht = (case ts_ht ts of None \<Rightarrow> Map.empty | Some ht \<Rightarrow> ht);
          Some (put_task (ts\<lparr>ts_srv := srv, ts_task_id := i + 1, ts_ht := Some (ht(i \<mapsto> p))\<rparr>) p
            \<lparr>tk_name = name, tk_id = i, tk_cancel = False, tk_run = True, tk_user = user, tk_start = now, tk_sid = sid, tk_mod = md\<rparr>) }"

definition mbb_task_free :: "'m task_srv \<Rightarrow> thread_id \<Rightarrow> gpointer \<Rightarrow> 'm task_srv option" where
  "mbb_task_free ts t p =
     do { task \<leftarrow> ts_tasks ts p;
          let ht = (case ts_ht ts of None \<Rightarrow> None | Some ht \<Rightarrow> Some (ht(tk_id task := None)));
          srv \<leftarrow> mbb_module_unuse (ts_srv ts) t (tk_mod task);
          acl \<leftarrow> mbb_user_unref (sv_acl srv) (tk_user task);
          Some (ts\<lparr>ts_srv := srv\<lparr>sv_acl := acl\<rparr>, ts_ht := ht, ts_tasks := (ts_tasks ts)(p := None)\<rparr>) }"

definition mbb_task_get :: "'m task_srv \<Rightarrow> guint32 \<Rightarrow> gpointer option" where
  "mbb_task_get ts i = (case ts_ht ts of None \<Rightarrow> None | Some ht \<Rightarrow> ht i)"

subsection \<open>The thread of a task\<close>

text \<open>
  The loop of \<open>mbb_task_work\<close>: \<open>poll\<close> is \<open>task_poll\<close> of the task, whose result depends on the
  commands that run meanwhile. A loop that does not end, and undefined behaviour, are \<open>None\<close>.
\<close>

partial_function (option) task_loop :: "('d \<Rightarrow> ('d \<times> bool) option) \<Rightarrow> ('d \<Rightarrow> 'd \<times> bool) \<Rightarrow> 'd \<Rightarrow> 'd option" where
  "task_loop work poll d =
     do { (d, more) \<leftarrow> work d;
          if \<not> more then Some d
          else (let (d, go) = poll d in if go then task_loop work poll d else Some d) }"

text \<open>The result says whether the initialisation succeeded; \<open>fini\<close> is only called then.\<close>

definition mbb_task_work :: "'d mbb_task_hook \<Rightarrow> ('d \<Rightarrow> 'd \<times> bool) \<Rightarrow> 'd \<Rightarrow> ('d \<times> bool) option" where
  "mbb_task_work hook poll d =
     do { (d, ok) \<leftarrow> (case th_init hook of None \<Rightarrow> Some (d, True) | Some init \<Rightarrow> init d);
          if \<not> ok then Some (d, False)
          else
            do { work \<leftarrow> th_work hook;
                 d \<leftarrow> task_loop work poll d;
                 d \<leftarrow> (case th_fini hook of None \<Rightarrow> Some d | Some fini \<Rightarrow> fini d);
                 Some (d, True) } }"

text \<open>
  \<open>mbb_task_create\<close>; \<open>started\<close> says whether the thread could be created. If not, the data are
  given back with \<open>fini\<close>; the number of the task is returned only for a thread that runs.
\<close>

definition mbb_task_create ::
  "'m task_srv \<Rightarrow> thread_id \<Rightarrow> gpointer \<Rightarrow> time_t \<Rightarrow> bool \<Rightarrow> string \<Rightarrow> 'd mbb_task_hook \<Rightarrow> 'd \<Rightarrow> ('m task_srv \<times> 'd \<times> gint) option" where
  "mbb_task_create ts t p now started name hook d =
     (if th_work hook = None then Some (ts, d, - 1)
      else
        do { ts \<leftarrow> mbb_task_new ts t p now name;
             if \<not> started
             then do { d \<leftarrow> (case th_fini hook of None \<Rightarrow> Some d | Some fini \<Rightarrow> fini d);
                       ts \<leftarrow> mbb_task_free ts t p;
                       Some (ts, d, - 1) }
             else do { task \<leftarrow> ts_tasks ts p; Some (ts, d, to_gint (uint (tk_id task))) } })"

subsection \<open>Commands\<close>

text \<open>
  The parts of the commands that hold the mutex of the task, and whether they signal its
  condition (\<open>mbb_task_resume\<close>): \<open>None\<close> when the task already is in the state asked for.
\<close>

definition do_run_locked :: "bool \<Rightarrow> mbb_task \<Rightarrow> (mbb_task \<times> bool) option" where
  "do_run_locked run task = (if tk_run task = run then None else Some (task\<lparr>tk_run := run\<rparr>, run))"

definition cancel_locked :: "mbb_task \<Rightarrow> mbb_task \<times> bool" where
  "cancel_locked task = (if \<not> tk_run task then (task\<lparr>tk_run := True\<rparr>, True) else (task, False))"

definition task_do_run :: "bool \<Rightarrow> 'm task_srv \<Rightarrow> xml_tag \<Rightarrow> 'm task_srv reply" where
  "task_do_run run ts tag =
     with_args ts tag [(xtv_task_id, False)] (\<lambda>vs.
       do { i \<leftarrow> (case vs of [Some (XV_UInt i)] \<Rightarrow> Some i | _ \<Rightarrow> None);
            (case mbb_task_get ts i of
               None \<Rightarrow> reply_msg ts MBB_MSG_UNKNOWN_TASK []
             | Some p \<Rightarrow>
                 do { task \<leftarrow> ts_tasks ts p;
                      (case do_run_locked run task of
                         None \<Rightarrow>
                           do { ans \<leftarrow> mbb_xml_msg_error (Some ''task is already %s'') [PF_S (Some (if run then ''run'' else ''stop''))];
                                Some (ts, Some ans) }
                       | Some (task, _) \<Rightarrow> Some (put_task ts p task, None)) }) })"

definition task_run :: "'m task_srv \<Rightarrow> xml_tag \<Rightarrow> 'm task_srv reply" where "task_run ts tag = task_do_run True ts tag"
definition task_stop :: "'m task_srv \<Rightarrow> xml_tag \<Rightarrow> 'm task_srv reply" where "task_stop ts tag = task_do_run False ts tag"

definition task_cancel :: "'m task_srv \<Rightarrow> xml_tag \<Rightarrow> 'm task_srv reply" where
  "task_cancel ts tag =
     with_args ts tag [(xtv_task_id, False)] (\<lambda>vs.
       do { i \<leftarrow> (case vs of [Some (XV_UInt i)] \<Rightarrow> Some i | _ \<Rightarrow> None);
            (case mbb_task_get ts i of
               None \<Rightarrow> reply_msg ts MBB_MSG_UNKNOWN_TASK []
             | Some p \<Rightarrow>
                 do { task \<leftarrow> ts_tasks ts p;
                      let (task, _) = cancel_locked (task\<lparr>tk_cancel := True\<rparr>);
                      Some (put_task ts p task, None) }) })"

definition gather_task :: "'m task_srv \<Rightarrow> gpointer \<Rightarrow> xml_tag \<Rightarrow> xml_tag option" where
  "gather_task ts p tag =
     do { task \<leftarrow> ts_tasks ts p;
          u \<leftarrow> dm_heap (acl_users (sv_acl (ts_srv ts))) (tk_user task);
          Some (xml_tag_new_child tag ''task''
            [(''id'', variant_new_int (to_gint (uint (tk_id task)))), (''name'', variant_new_static_string (Some (tk_name task))),
             (''sid'', variant_new_int (tk_sid task)),
             (''state'', variant_new_static_string (Some (if tk_run task then ''run'' else ''stop''))),
             (''start'', variant_new_long (tk_start task)), (''user'', variant_new_alloc_string (Some (u_name u)))]) }"

definition show_tasks :: "ht_order \<Rightarrow> 'm task_srv \<Rightarrow> xml_tag \<Rightarrow> 'm task_srv reply" where
  "show_tasks ord ts tag =
     do { ans \<leftarrow> (case ts_ht ts of
                    None \<Rightarrow> Some mbb_xml_msg_ok
                  | Some ht \<Rightarrow> gather_all (gather_task ts) (ord (ran ht)) mbb_xml_msg_ok);
          Some (ts, Some ans) }"

definition task_commands :: "ht_order \<Rightarrow> (string \<times> ('m task_srv \<Rightarrow> xml_tag \<Rightarrow> 'm task_srv reply) \<times> guint32) list" where
  "task_commands ord =
     [(''mbb-task-run'', task_run, MBB_CAP_WHEEL), (''mbb-task-stop'', task_stop, MBB_CAP_WHEEL),
      (''mbb-task-cancel'', task_cancel, MBB_CAP_WHEEL), (''mbb-show-tasks'', show_tasks ord, MBB_CAP_ADMIN)]"

subsection \<open>Pausing\<close>

text \<open>
  Where the thread is: in its own work, about to lock the mutex in \<open>mbb_task_pause\<close>, waiting for
  the condition, behind \<open>mbb_task_pause\<close>, or past the loop because \<open>task_poll\<close> returned FALSE.
\<close>

datatype task_pc = Work | Enter | Wait | Leave | Stopped

text \<open>\<open>task_poll\<close> up to the pause, the condition of the loop in \<open>mbb_task_pause\<close>, and \<open>task_poll\<close> after it.\<close>

definition poll_entry :: "mbb_task \<Rightarrow> task_pc" where
  "poll_entry task = (if \<not> tk_run task then Enter else if tk_cancel task then Stopped else Work)"

definition pause_check :: "mbb_task \<Rightarrow> task_pc" where
  "pause_check task = (if \<not> tk_run task \<and> \<not> tk_cancel task then Wait else Leave)"

definition poll_exit :: "mbb_task \<Rightarrow> task_pc" where
  "poll_exit task = (if tk_cancel task then Stopped else Work)"

text \<open>Signalling the condition sends a waiting thread back to the mutex.\<close>

definition mbb_task_resume :: "task_pc \<Rightarrow> task_pc" where
  "mbb_task_resume pc = (if pc = Wait then Enter else pc)"

text \<open>
  The task, where its thread is, and how many threads in \<open>task_cancel\<close> have set the flag and not
  yet taken the mutex. The condition may also wake the thread without a signal.
\<close>

type_synonym task_state = "mbb_task \<times> task_pc \<times> nat"

inductive task_step :: "task_state \<Rightarrow> task_state \<Rightarrow> bool" where
  Poll: "task_step (task, Work, n) (task, poll_entry task, n)"
| Check: "task_step (task, Enter, n) (task, pause_check task, n)"
| Spurious: "task_step (task, Wait, n) (task, Enter, n)"
| Exit: "task_step (task, Leave, n) (task, poll_exit task, n)"
| Do_Run: "do_run_locked run task = Some (task', sig) \<Longrightarrow>
    task_step (task, pc, n) (task', if sig then mbb_task_resume pc else pc, n)"
| Cancel_Flag: "task_step (task, pc, n) (task\<lparr>tk_cancel := True\<rparr>, pc, n + 1)"
| Cancel_Lock: "cancel_locked task = (task', sig) \<Longrightarrow>
    task_step (task, pc, n + 1) (task', if sig then mbb_task_resume pc else pc, n)"

section \<open>No lost wake-up\<close>

inductive_cases task_stepE: "task_step s s'"

text \<open>A thread waits only while the task is stopped and no completed command has cancelled it.\<close>

definition task_inv :: "task_state \<Rightarrow> bool" where
  "task_inv s \<longleftrightarrow> (case s of (task, pc, n) \<Rightarrow> pc = Wait \<longrightarrow> \<not> tk_run task \<and> (tk_cancel task \<longrightarrow> 0 < n))"

lemma task_step_inv: "task_step s s' \<Longrightarrow> task_inv s \<Longrightarrow> task_inv s'"
  by (induction rule: task_step.induct)
    (auto simp: task_inv_def poll_entry_def pause_check_def poll_exit_def mbb_task_resume_def do_run_locked_def cancel_locked_def split: if_splits)

lemma task_reach_inv:
  assumes "task_step\<^sup>*\<^sup>* (task, Work, n) s"
  shows "task_inv s"
  using assms
proof (induction rule: rtranclp_induct)
  case base
  show ?case by (simp add: task_inv_def)
next
  case (step s s')
  then show ?case using task_step_inv by blast
qed

text \<open>The steps of the thread itself, and how many of them a run has.\<close>

definition own_step :: "task_state \<Rightarrow> task_state option" where
  "own_step s = (case s of (task, pc, n) \<Rightarrow>
     (case pc of Work \<Rightarrow> Some (task, poll_entry task, n) | Enter \<Rightarrow> Some (task, pause_check task, n)
      | Leave \<Rightarrow> Some (task, poll_exit task, n) | _ \<Rightarrow> None))"

inductive task_run_steps :: "nat \<Rightarrow> task_state \<Rightarrow> task_state \<Rightarrow> bool" where
  Start: "task_run_steps 0 s s"
| Own: "task_run_steps k s s1 \<Longrightarrow> own_step s1 = Some s2 \<Longrightarrow> task_run_steps (Suc k) s s2"
| Other: "task_run_steps k s s1 \<Longrightarrow> task_step s1 s2 \<Longrightarrow> task_run_steps k s s2"

text \<open>How many steps a cancelled thread still needs.\<close>

fun steps_left :: "task_pc \<Rightarrow> nat" where
  "steps_left Work = 3" | "steps_left Enter = 2" | "steps_left Leave = 1" | "steps_left _ = 0"

lemma cancelled_own:
  assumes "own_step (task, pc, n) = Some (task', pc', n')" "tk_cancel task"
  shows "task' = task" "pc' \<noteq> Wait" "steps_left pc' < steps_left pc"
  using assms by (auto simp: own_step_def poll_entry_def pause_check_def poll_exit_def split: task_pc.splits if_splits)

lemma cancelled_step:
  assumes "task_step (task, pc, n) (task', pc', n')" "tk_cancel task" "pc \<noteq> Wait"
  shows "tk_cancel task'" "pc' \<noteq> Wait" "steps_left pc' \<le> steps_left pc"
  using assms by (auto elim!: task_stepE simp: poll_entry_def pause_check_def poll_exit_def mbb_task_resume_def do_run_locked_def
    cancel_locked_def split: if_splits)

lemma cancelled_run:
  assumes "task_run_steps k s s'" "tk_cancel (fst s)" "fst (snd s) \<noteq> Wait"
  shows "tk_cancel (fst s') \<and> fst (snd s') \<noteq> Wait \<and> k + steps_left (fst (snd s')) \<le> steps_left (fst (snd s))"
  using assms
proof (induction rule: task_run_steps.induct)
  case (Own k s s1 s2)
  then show ?case using cancelled_own by (cases s1; cases s2) (fastforce dest: cancelled_own)
next
  case (Other k s s1 s2)
  then show ?case by (cases s1; cases s2) (fastforce dest: cancelled_step)
qed simp

text \<open>
  C28. Stopping, running and cancelling a task from other threads loses no wake-up: whenever its
  thread waits, the task is stopped, and no cancelling command has finished. Once one has, the
  thread never waits again, it can always take its next step, and after at most three of them
  it has left its loop, whatever commands run in between.
\<close>

theorem task_cancel_ends:
  assumes reach: "task_step\<^sup>*\<^sup>* (task0, Work, n0) (task, pc, n)"
  shows "(pc = Wait \<longrightarrow> \<not> tk_run task \<and> (tk_cancel task \<longrightarrow> 0 < n)) \<and>
     (tk_cancel task \<and> n = 0 \<longrightarrow> (\<forall>k task' pc' n'. task_run_steps k (task, pc, n) (task', pc', n') \<longrightarrow>
        k \<le> 3 \<and> pc' \<noteq> Wait \<and> (pc' = Stopped \<or> own_step (task', pc', n') \<noteq> None)))"
proof -
  have w: "pc = Wait \<longrightarrow> \<not> tk_run task \<and> (tk_cancel task \<longrightarrow> 0 < n)" using task_reach_inv [OF reach] by (simp add: task_inv_def)
  have "k \<le> 3 \<and> pc' \<noteq> Wait \<and> (pc' = Stopped \<or> own_step (task', pc', n') \<noteq> None)"
    if "tk_cancel task" "n = 0" "task_run_steps k (task, pc, n) (task', pc', n')" for k task' pc' n'
  proof -
    have c: "pc' \<noteq> Wait" "k + steps_left pc' \<le> steps_left pc" using cancelled_run [OF that(3)] that w by auto
    moreover have "steps_left pc \<le> 3" by (cases pc) simp_all
    moreover have "pc' = Stopped \<or> own_step (task', pc', n') \<noteq> None" using c(1) by (cases pc') (simp_all add: own_step_def)
    ultimately show ?thesis by linarith
  qed
  with w show ?thesis by blast
qed

definition task1 :: mbb_task where
  "task1 = \<lparr>tk_name = ''netflow'', tk_id = 1, tk_cancel = False, tk_run = True, tk_user = 100, tk_start = 0, tk_sid = 1, tk_mod = None\<rparr>"

text \<open>A task is stopped, its thread waits, and it is cancelled.\<close>

theorem task_cancel_ends_witness:
  "task_step\<^sup>*\<^sup>* (task1, Work, 0) (task1\<lparr>tk_cancel := True\<rparr>, Enter, 0) \<and>
   (\<exists>k \<le> 3. task_run_steps k (task1\<lparr>tk_cancel := True\<rparr>, Enter, 0) (task1\<lparr>tk_cancel := True\<rparr>, Stopped, 0))"
proof -
  let ?s = "task1\<lparr>tk_run := False\<rparr>"
  have "task_step (task1, Work, 0) (?s, Work, 0)"
    using Do_Run [of False task1 ?s False Work 0] by (simp add: do_run_locked_def task1_def)
  moreover have "task_step (?s, Work, 0) (?s, Enter, 0)" using Poll [of ?s 0] by (simp add: poll_entry_def)
  moreover have "task_step (?s, Enter, 0) (?s, Wait, 0)" using Check [of ?s 0] by (simp add: pause_check_def task1_def)
  moreover have "task_step (?s, Wait, 0) (?s\<lparr>tk_cancel := True\<rparr>, Wait, 1)" using Cancel_Flag [of ?s Wait 0] by simp
  moreover have "task_step (?s\<lparr>tk_cancel := True\<rparr>, Wait, 1) (task1\<lparr>tk_cancel := True\<rparr>, Enter, 0)"
    using Cancel_Lock [of "?s\<lparr>tk_cancel := True\<rparr>" "task1\<lparr>tk_cancel := True\<rparr>" True Wait 0] by (simp add: cancel_locked_def mbb_task_resume_def task1_def)
  ultimately have r: "task_step\<^sup>*\<^sup>* (task1, Work, 0) (task1\<lparr>tk_cancel := True\<rparr>, Enter, 0)"
    by (meson converse_rtranclp_into_rtranclp rtranclp.rtrancl_refl)
  have "task_run_steps 0 (task1\<lparr>tk_cancel := True\<rparr>, Enter, 0) (task1\<lparr>tk_cancel := True\<rparr>, Enter, 0)" by (rule Start)
  then have "task_run_steps (Suc 0) (task1\<lparr>tk_cancel := True\<rparr>, Enter, 0) (task1\<lparr>tk_cancel := True\<rparr>, Leave, 0)"
    by (rule Own) (simp add: own_step_def pause_check_def)
  then have "task_run_steps (Suc (Suc 0)) (task1\<lparr>tk_cancel := True\<rparr>, Enter, 0) (task1\<lparr>tk_cancel := True\<rparr>, Stopped, 0)"
    by (rule Own) (simp add: own_step_def poll_exit_def)
  moreover from this have "Suc (Suc 0) \<le> 3" using task_cancel_ends [OF r] by simp
  ultimately show ?thesis using r by blast
qed

section \<open>The registry of tasks\<close>

text \<open>A task that was created is found under its number until it is freed.\<close>

lemma task_created:
  assumes "mbb_task_create ts t p now True name hook d = Some (ts', d', i)" "0 \<le> i"
  shows "\<exists>task. ts_tasks ts' p = Some task \<and> mbb_task_get ts' (tk_id task) = Some p \<and> tk_run task \<and> \<not> tk_cancel task \<and> tk_name task = name \<and>
     i = to_gint (uint (tk_id task)) \<and> d' = d"
  using assms by (auto simp: mbb_task_create_def mbb_task_new_def mbb_task_get_def put_task_def Let_def split: bind_splits if_splits option.splits)

lemma task_freed:
  assumes "mbb_task_free ts t p = Some ts'" "ts_tasks ts p = Some task"
  shows "ts_tasks ts' p = None" "mbb_task_get ts' (tk_id task) = None"
  using assms by (auto simp: mbb_task_free_def mbb_task_get_def Let_def split: bind_splits option.splits)

text \<open>A loop whose work says after finitely many rounds that it is done ends, because it is done or because it was told to.\<close>

lemma task_loop_ends:
  assumes work: "\<And>d. P d \<Longrightarrow> \<exists>d' more. work d = Some (d', more) \<and> (more \<longrightarrow> m d' < m d \<and> P d')"
    and poll: "\<And>d. P d \<Longrightarrow> P (fst (poll d)) \<and> m (fst (poll d)) = (m d :: nat)"
  shows "P d \<Longrightarrow> \<exists>d'. task_loop work poll d = Some d' \<and> (\<exists>d0. P d0 \<and> (work d0 = Some (d', False) \<or> poll d0 = (d', False)))"
proof (induction "m d" arbitrary: d rule: less_induct)
  case less
  obtain d1 more where w: "work d = Some (d1, more)" "more \<longrightarrow> m d1 < m d \<and> P d1" using work [OF less.prems] by auto
  show ?case
  proof (cases more)
    case False
    with w less.prems show ?thesis by (subst task_loop.simps) auto
  next
    case True
    obtain d2 go where d2: "poll d1 = (d2, go)" by (cases "poll d1")
    with True w poll [of d1] have "m d2 < m d" "P d2" "P d1" by simp_all
    then show ?thesis
    proof (cases go)
      case True
      with less.hyps [OF \<open>m d2 < m d\<close> \<open>P d2\<close>] w \<open>more\<close> d2 show ?thesis by (subst task_loop.simps) simp
    next
      case False
      with w \<open>more\<close> d2 \<open>P d1\<close> show ?thesis by (subst task_loop.simps) auto
    qed
  qed
qed

end
