(* ===== verification/Stat.thy ===== *)
theory Stat
  imports Mbb_Task "HOL-Library.Signed_Division"
begin

text \<open>
  Traffic statistics: \<open>mbbd/modules/stat/mbbstat.c\<close>. A pool sums the bytes of the flows by hour, for
  each unit, each link, and each pair of both, and writes the sums to the database in one
  transaction. A hash table is the list of its records; the order in which it is iterated
  is a parameter.
\<close>

section \<open>Definitions\<close>

record mbb_stat_entry =
  se_unit_id :: guint32
  se_link_id :: guint32
  se_nbyte_in :: guint64
  se_nbyte_out :: guint64
  se_point :: time_t

record stat_rec =
  sr_nbyte_in :: guint64
  sr_nbyte_out :: guint64

record double_key =
  dk_point :: time_t
  dk_aid :: guint32
  dk_bid :: guint32

record single_key =
  sk_point :: time_t
  sk_id :: guint32

type_synonym 'k stat_ht = "('k \<times> stat_rec) list"

record mbb_stat_pool =
  sp_ustat :: "single_key stat_ht"
  sp_lstat :: "single_key stat_ht"
  sp_ulstat :: "double_key stat_ht"

definition double_key_equal :: "double_key \<Rightarrow> double_key \<Rightarrow> bool" where
  "double_key_equal a b =
     (if dk_aid a \<noteq> dk_aid b then False else if dk_bid a \<noteq> dk_bid b then False else if dk_point a \<noteq> dk_point b then False else True)"

definition double_key_hash :: "double_key \<Rightarrow> guint32" where
  "double_key_hash key = ucast (ucast (dk_aid key OR push_bit 20 (dk_bid key)) XOR (word_of_int (dk_point key) :: 64 word))"

definition single_key_equal :: "single_key \<Rightarrow> single_key \<Rightarrow> bool" where
  "single_key_equal a b = (if sk_id a \<noteq> sk_id b then False else if sk_point a \<noteq> sk_point b then False else True)"

definition single_key_hash :: "single_key \<Rightarrow> guint32" where
  "single_key_hash key = ucast (ucast (push_bit 10 (sk_id key)) OR (word_of_int (sk_point key) :: 64 word))"

definition mbb_stat_pool_new :: mbb_stat_pool where
  "mbb_stat_pool_new = \<lparr>sp_ustat = [], sp_lstat = [], sp_ulstat = []\<rparr>"

text \<open>The remainder of C has the sign of the dividend.\<close>

definition mbb_stat_extract_hour :: "time_t \<Rightarrow> time_t" where
  "mbb_stat_extract_hour t = t - t smod 3600"

text \<open>The record of a key is looked up with the equality of the table, and created with zeros.\<close>

fun stat_lookup :: "('k \<Rightarrow> 'k \<Rightarrow> bool) \<Rightarrow> 'k stat_ht \<Rightarrow> 'k \<Rightarrow> stat_rec option" where
  "stat_lookup eq [] key = None"
| "stat_lookup eq ((k, r) # ht) key = (if eq k key then Some r else stat_lookup eq ht key)"

fun stat_replace :: "('k \<Rightarrow> 'k \<Rightarrow> bool) \<Rightarrow> 'k stat_ht \<Rightarrow> 'k \<Rightarrow> stat_rec \<Rightarrow> 'k stat_ht" where
  "stat_replace eq [] key r = []"
| "stat_replace eq ((k, r') # ht) key r = (if eq k key then (k, r) # ht else (k, r') # stat_replace eq ht key r)"

definition rec_update :: "('k \<Rightarrow> 'k \<Rightarrow> bool) \<Rightarrow> 'k stat_ht \<Rightarrow> 'k \<Rightarrow> stat_rec \<Rightarrow> 'k stat_ht" where
  "rec_update eq ht key data =
     (let zero = \<lparr>sr_nbyte_in = 0, sr_nbyte_out = 0\<rparr>;
          (ht, r) = (case stat_lookup eq ht key of None \<Rightarrow> ((key, zero) # ht, zero) | Some r \<Rightarrow> (ht, r))
      in stat_replace eq ht key
           \<lparr>sr_nbyte_in = sr_nbyte_in r + sr_nbyte_in data, sr_nbyte_out = sr_nbyte_out r + sr_nbyte_out data\<rparr>)"

definition mbb_stat_feed :: "mbb_stat_pool \<Rightarrow> mbb_stat_entry \<Rightarrow> mbb_stat_pool" where
  "mbb_stat_feed pool entry =
     (let r = \<lparr>sr_nbyte_in = se_nbyte_in entry, sr_nbyte_out = se_nbyte_out entry\<rparr>;
          point = mbb_stat_extract_hour (se_point entry)
      in pool\<lparr>sp_ustat := rec_update single_key_equal (sp_ustat pool) \<lparr>sk_point = point, sk_id = se_unit_id entry\<rparr> r,
              sp_lstat := rec_update single_key_equal (sp_lstat pool) \<lparr>sk_point = point, sk_id = se_link_id entry\<rparr> r,
              sp_ulstat := rec_update double_key_equal (sp_ulstat pool)
                \<lparr>dk_point = point, dk_aid = se_unit_id entry, dk_bid = se_link_id entry\<rparr> r\<rparr>)"

subsection \<open>Writing the sums\<close>

definition rec_save_query :: "('w, 'i) dbs \<Rightarrow> thread_id \<Rightarrow> string \<Rightarrow> (('w, 'i) dbs \<times> bool) option" where
  "rec_save_query st t query = do { (st, ok, _) \<leftarrow> mbb_db_query st t query None; Some (st, ok) }"

definition unit_link_rec_save :: "('w, 'i) dbs \<Rightarrow> thread_id \<Rightarrow> double_key \<times> stat_rec \<Rightarrow> (('w, 'i) dbs \<times> bool) option" where
  "unit_link_rec_save st t kr =
     (let (key, r) = kr in
      do { query \<leftarrow> query_function (db_escape_func st t) ''update_unit_link_stat'' (Some ''ddqqt'')
             [Va_Int (to_gint (uint (dk_aid key))), Va_Int (to_gint (uint (dk_bid key))), Va_Uint64 (sr_nbyte_in r),
              Va_Uint64 (sr_nbyte_out r), Va_Long (dk_point key)];
           rec_save_query st t query })"

definition unit_rec_save :: "('w, 'i) dbs \<Rightarrow> thread_id \<Rightarrow> single_key \<times> stat_rec \<Rightarrow> (('w, 'i) dbs \<times> bool) option" where
  "unit_rec_save st t kr =
     (let (key, r) = kr in
      do { query \<leftarrow> query_function (db_escape_func st t) ''update_unit_stat'' (Some ''dqqt'')
             [Va_Int (to_gint (uint (sk_id key))), Va_Uint64 (sr_nbyte_in r), Va_Uint64 (sr_nbyte_out r), Va_Long (sk_point key)];
           rec_save_query st t query })"

definition link_rec_save :: "('w, 'i) dbs \<Rightarrow> thread_id \<Rightarrow> single_key \<times> stat_rec \<Rightarrow> (('w, 'i) dbs \<times> bool) option" where
  "link_rec_save st t kr =
     (let (key, r) = kr in
      do { query \<leftarrow> query_function (db_escape_func st t) ''update_link_stat'' (Some ''dqqt'')
             [Va_Int (to_gint (uint (sk_id key))), Va_Uint64 (sr_nbyte_in r), Va_Uint64 (sr_nbyte_out r), Va_Long (sk_point key)];
           rec_save_query st t query })"

definition mbb_stat_pool_init :: "('w, 'i) dbs \<Rightarrow> thread_id \<Rightarrow> ('w, 'i) dbs \<times> bool" where
  "mbb_stat_pool_init st t = (let (st, ok, _) = mbb_db_dup_conn st t in (st, ok))"

definition stat_db_begin :: "('w, 'i) dbs \<Rightarrow> thread_id \<Rightarrow> (('w, 'i) dbs \<times> bool) option" where
  "stat_db_begin st t = do { (st, ok, _) \<leftarrow> mbb_db_begin st t; Some (st, ok) }"

definition stat_db_rollback :: "('w, 'i) dbs \<Rightarrow> thread_id \<Rightarrow> ('w, 'i) dbs option" where
  "stat_db_rollback st t = do { (st, _) \<leftarrow> mbb_db_rollback st t; Some st }"

definition stat_db_commit :: "('w, 'i) dbs \<Rightarrow> thread_id \<Rightarrow> ('w, 'i) dbs option" where
  "stat_db_commit st t = do { (st, _) \<leftarrow> mbb_db_commit st t; Some st }"

text \<open>
  Before each record the task may be stopped or cancelled: \<open>poll n\<close> is the answer of the \<open>n\<close>-th
  call of \<open>mbb_task_poll_state\<close>. The flag says whether all records were written.
\<close>

fun save_records ::
  "(nat \<Rightarrow> bool) \<Rightarrow> (('w, 'i) dbs \<Rightarrow> 'r \<Rightarrow> (('w, 'i) dbs \<times> bool) option) \<Rightarrow> ('w, 'i) dbs \<Rightarrow> nat \<Rightarrow> 'r list
     \<Rightarrow> (('w, 'i) dbs \<times> nat \<times> bool) option" where
  "save_records poll save st n [] = Some (st, n, True)"
| "save_records poll save st n (r # rs) =
     (if \<not> poll n then Some (st, Suc n, False)
      else do { (st, ok) \<leftarrow> save st r;
                if \<not> ok then Some (st, Suc n, False) else save_records poll save st (Suc n) rs })"

text \<open>The mutex of the function, which lets one pool be written at a time, makes it one step.\<close>

definition mbb_stat_pool_save ::
  "(single_key stat_ht \<Rightarrow> single_key stat_ht) \<Rightarrow> (double_key stat_ht \<Rightarrow> double_key stat_ht) \<Rightarrow> (nat \<Rightarrow> bool) \<Rightarrow> ('w, 'i) dbs \<Rightarrow> nat
     \<Rightarrow> thread_id \<Rightarrow> mbb_stat_pool \<Rightarrow> (('w, 'i) dbs \<times> nat) option" where
  "mbb_stat_pool_save ord ord2 poll st n t pool =
     (if \<not> poll n then Some (st, Suc n)
      else
        do { (st, ok) \<leftarrow> stat_db_begin st t;
             if \<not> ok then Some (st, Suc n)
             else
               do { (st, n, ok) \<leftarrow> save_records poll (\<lambda>st. unit_rec_save st t) st (Suc n) (ord (sp_ustat pool));
                    (st, n, ok) \<leftarrow> (if \<not> ok then Some (st, n, False)
                                  else save_records poll (\<lambda>st. link_rec_save st t) st n (ord (sp_lstat pool)));
                    (st, n, ok) \<leftarrow> (if \<not> ok then Some (st, n, False)
                                  else save_records poll (\<lambda>st. unit_link_rec_save st t) st n (ord2 (sp_ulstat pool)));
                    st \<leftarrow> (if ok then stat_db_commit st t else stat_db_rollback st t);
                    Some (st, n) } })"

text \<open>\<open>printf\<close> with the conversion for 64 bit numbers that the condition uses.\<close>

fun lld_vprintf :: vprintf_func where
  "lld_vprintf [] va = Some []"
| "lld_vprintf (c # fmt) va =
     (if c \<noteq> CHR 0x25 then map_option (Cons c) (lld_vprintf fmt va)
      else
        (case fmt of
           a # b # d # fmt' \<Rightarrow>
             (case va of
                Va_Uint64 n # va' \<Rightarrow>
                  if [a, b, d] = ''lld'' then map_option (append (dec_of_int (sint n))) (lld_vprintf fmt' va') else None
              | _ \<Rightarrow> None)
         | _ \<Rightarrow> None))"

definition stat_table_clean :: "('w, 'i) dbs \<Rightarrow> thread_id \<Rightarrow> string \<Rightarrow> time_t \<Rightarrow> time_t \<Rightarrow> (('w, 'i) dbs \<times> db_result) option" where
  "stat_table_clean st t table start fin =
     do { query \<leftarrow> query_update_ap lld_vprintf (db_escape_func st t) table (Some ''qq'') ''nbyte_in''
            [Va_Uint64 0, Va_Str (Some ''nbyte_out''), Va_Uint64 0, Va_Str (Some ''point >= %lld and point < %lld''),
             Va_Uint64 (word_of_int start), Va_Uint64 (word_of_int fin)];
          mbb_db_query st t query None }"

text \<open>The loop over the tables.\<close>

fun wipe_tables :: "('w, 'i) dbs \<Rightarrow> thread_id \<Rightarrow> time_t \<Rightarrow> time_t \<Rightarrow> string list \<Rightarrow> (('w, 'i) dbs \<times> db_result) option" where
  "wipe_tables st t start fin [] = Some (st, True, None)"
| "wipe_tables st t start fin (table # tables) =
     do { (st, ok, e) \<leftarrow> stat_table_clean st t table start fin;
          if \<not> ok then Some (st, False, e) else wipe_tables st t start fin tables }"

definition mbb_stat_db_wipe :: "('w, 'i) dbs \<Rightarrow> thread_id \<Rightarrow> time_t \<Rightarrow> time_t \<Rightarrow> (('w, 'i) dbs \<times> db_result) option" where
  "mbb_stat_db_wipe st t start fin =
     do { (st, ok, e) \<leftarrow> mbb_db_begin st t;
          if \<not> ok then Some (st, False, e)
          else
            do { (st, ok, e) \<leftarrow> wipe_tables st t start fin [''unit_stat'', ''link_stat'', ''unit_link_stat''];
                 if \<not> ok then do { (st, _) \<leftarrow> mbb_db_rollback st t; Some (st, False, e) }
                 else do { (st, _) \<leftarrow> mbb_db_commit st t; Some (st, True, None) } } }"

section \<open>The sums\<close>

text \<open>
  The tables of a pool differ only in their keys. For a table whose equality is that of the keys,
  feeding a list of items leaves one record for each key that occurs, with the sums of its
  items; the keys differ, and the sums of all records are those of all items.
\<close>

definition rec_sum :: "('e \<Rightarrow> guint64) \<Rightarrow> ('e \<Rightarrow> guint64) \<Rightarrow> 'e list \<Rightarrow> stat_rec" where
  "rec_sum f g es = \<lparr>sr_nbyte_in = sum_list (map f es), sr_nbyte_out = sum_list (map g es)\<rparr>"

definition feed_table :: "('k \<Rightarrow> 'k \<Rightarrow> bool) \<Rightarrow> ('e \<Rightarrow> 'k) \<Rightarrow> ('e \<Rightarrow> guint64) \<Rightarrow> ('e \<Rightarrow> guint64) \<Rightarrow> 'e list \<Rightarrow> 'k stat_ht" where
  "feed_table eq key f g es = foldl (\<lambda>ht e. rec_update eq ht (key e) \<lparr>sr_nbyte_in = f e, sr_nbyte_out = g e\<rparr>) [] es"

locale stat_table =
  fixes key_equal :: "'k \<Rightarrow> 'k \<Rightarrow> bool"
  assumes key_equal_iff: "key_equal a b \<longleftrightarrow> a = b"
begin

lemma lookup_map_of: "stat_lookup key_equal ht k = map_of ht k"
  by (induction ht) (auto simp: key_equal_iff)

lemma replace_map_of: "map_of ht k \<noteq> None \<Longrightarrow> map_of (stat_replace key_equal ht k r) = (map_of ht)(k \<mapsto> r)"
  by (induction ht) (auto simp: key_equal_iff fun_upd_twist)

lemma replace_keys: "map fst (stat_replace key_equal ht k r) = map fst ht"
  by (induction ht) (auto simp: key_equal_iff)

lemma update_map_of:
  "map_of (rec_update key_equal ht k d) = (map_of ht)(k \<mapsto>
     \<lparr>sr_nbyte_in = (case map_of ht k of None \<Rightarrow> 0 | Some r \<Rightarrow> sr_nbyte_in r) + sr_nbyte_in d,
      sr_nbyte_out = (case map_of ht k of None \<Rightarrow> 0 | Some r \<Rightarrow> sr_nbyte_out r) + sr_nbyte_out d\<rparr>)"
  by (auto simp: rec_update_def lookup_map_of replace_map_of key_equal_iff Let_def split: option.splits)

lemma update_distinct: "distinct (map fst ht) \<Longrightarrow> distinct (map fst (rec_update key_equal ht k d))"
  by (auto simp: rec_update_def lookup_map_of replace_keys Let_def map_of_eq_None_iff split: option.splits)

lemma table_snoc:
  "feed_table key_equal key f g (es @ [e]) = rec_update key_equal (feed_table key_equal key f g es) (key e) \<lparr>sr_nbyte_in = f e, sr_nbyte_out = g e\<rparr>"
  by (simp add: feed_table_def)

lemma table_distinct: "distinct (map fst (feed_table key_equal key f g es))"
  by (induction es rule: rev_induct) (simp_all add: table_snoc update_distinct, simp add: feed_table_def)

lemma table_lookup:
  "map_of (feed_table key_equal key f g es) k = (if k \<in> key ` set es then Some (rec_sum f g (filter (\<lambda>e. key e = k) es)) else None)"
proof (induction es rule: rev_induct)
  case Nil
  then show ?case by (simp add: feed_table_def)
next
  case (snoc e es)
  have "filter (\<lambda>e. key e = k) es = []" if "k \<notin> key ` set es"
    using that by (auto simp: filter_empty_conv)
  with snoc show ?case
    by (cases "k = key e"; cases "k \<in> key ` set es") (auto simp: table_snoc update_map_of rec_sum_def)
qed

lemma replace_sum:
  fixes h :: "stat_rec \<Rightarrow> guint64"
  assumes "map_of ht k = Some r0"
  shows "sum_list (map (h \<circ> snd) (stat_replace key_equal ht k r)) = sum_list (map (h \<circ> snd) ht) - h r0 + h r"
  using assms by (induction ht) (auto simp: key_equal_iff split: if_splits)

lemma update_sum:
  "sum_list (map (sr_nbyte_in \<circ> snd) (rec_update key_equal ht k d)) = sum_list (map (sr_nbyte_in \<circ> snd) ht) + sr_nbyte_in d"
  "sum_list (map (sr_nbyte_out \<circ> snd) (rec_update key_equal ht k d)) = sum_list (map (sr_nbyte_out \<circ> snd) ht) + sr_nbyte_out d"
  by (auto simp: rec_update_def lookup_map_of replace_sum key_equal_iff Let_def split: option.splits)

lemma table_total:
  "sum_list (map (sr_nbyte_in \<circ> snd) (feed_table key_equal key f g es)) = sum_list (map f es)"
  "sum_list (map (sr_nbyte_out \<circ> snd) (feed_table key_equal key f g es)) = sum_list (map g es)"
  by (induction es rule: rev_induct) (simp_all only: table_snoc update_sum, simp_all add: feed_table_def)

end

interpretation single_table: stat_table single_key_equal
  by unfold_locales (auto simp: single_key_equal_def intro!: single_key.equality)

interpretation double_table: stat_table double_key_equal
  by unfold_locales (auto simp: double_key_equal_def intro!: double_key.equality)

text \<open>Keys that the tables take for equal have the same hash, as the hash table needs.\<close>

lemma stat_keys_hash:
  "single_key_equal a b \<Longrightarrow> single_key_hash a = single_key_hash b"
  "double_key_equal c d \<Longrightarrow> double_key_hash c = double_key_hash d"
  by (simp_all add: single_table.key_equal_iff double_table.key_equal_iff)

definition entry_hour :: "mbb_stat_entry \<Rightarrow> time_t" where
  "entry_hour e = mbb_stat_extract_hour (se_point e)"

definition fed_pool :: "mbb_stat_entry list \<Rightarrow> mbb_stat_pool" where
  "fed_pool es = foldl mbb_stat_feed mbb_stat_pool_new es"

lemma fed_pool_tables:
  "sp_ustat (fed_pool es) = feed_table single_key_equal (\<lambda>e. \<lparr>sk_point = entry_hour e, sk_id = se_unit_id e\<rparr>) se_nbyte_in se_nbyte_out es"
  "sp_lstat (fed_pool es) = feed_table single_key_equal (\<lambda>e. \<lparr>sk_point = entry_hour e, sk_id = se_link_id e\<rparr>) se_nbyte_in se_nbyte_out es"
  "sp_ulstat (fed_pool es) = feed_table double_key_equal
     (\<lambda>e. \<lparr>dk_point = entry_hour e, dk_aid = se_unit_id e, dk_bid = se_link_id e\<rparr>) se_nbyte_in se_nbyte_out es"
  by (induction es rule: rev_induct) (simp_all add: fed_pool_def feed_table_def mbb_stat_pool_new_def mbb_stat_feed_def entry_hour_def Let_def)

lemma extract_hour:
  assumes "0 \<le> t"
  shows "3600 dvd mbb_stat_extract_hour t" "mbb_stat_extract_hour t \<le> t" "t < mbb_stat_extract_hour t + 3600"
  using assms by (simp_all add: mbb_stat_extract_hour_def smod_int_alt_def sgn_if minus_mod_eq_mult_div)

text \<open>
  C29. After a list of entries has been fed to a new pool, each of its three tables has exactly one
  record for every hour and unit, hour and link, or hour, unit and link that occurs, with the
  sums of the bytes of these entries (modulo the width of the counters), and no bytes are lost
  or counted twice: the sums over all records of each table are the sums over all entries.
\<close>

theorem stat_pool_sums:
  fixes es :: "mbb_stat_entry list"
  defines "pool \<equiv> fed_pool es"
  shows "(\<forall>h u. map_of (sp_ustat pool) \<lparr>sk_point = h, sk_id = u\<rparr> =
       (let xs = filter (\<lambda>e. entry_hour e = h \<and> se_unit_id e = u) es in if xs = [] then None else Some (rec_sum se_nbyte_in se_nbyte_out xs))) \<and>
     (\<forall>h l. map_of (sp_lstat pool) \<lparr>sk_point = h, sk_id = l\<rparr> =
       (let xs = filter (\<lambda>e. entry_hour e = h \<and> se_link_id e = l) es in if xs = [] then None else Some (rec_sum se_nbyte_in se_nbyte_out xs))) \<and>
     (\<forall>h u l. map_of (sp_ulstat pool) \<lparr>dk_point = h, dk_aid = u, dk_bid = l\<rparr> =
       (let xs = filter (\<lambda>e. entry_hour e = h \<and> se_unit_id e = u \<and> se_link_id e = l) es
        in if xs = [] then None else Some (rec_sum se_nbyte_in se_nbyte_out xs))) \<and>
     distinct (map fst (sp_ustat pool)) \<and> distinct (map fst (sp_lstat pool)) \<and> distinct (map fst (sp_ulstat pool)) \<and>
     rec_sum (sr_nbyte_in \<circ> snd) (sr_nbyte_out \<circ> snd) (sp_ustat pool) = rec_sum se_nbyte_in se_nbyte_out es \<and>
     rec_sum (sr_nbyte_in \<circ> snd) (sr_nbyte_out \<circ> snd) (sp_lstat pool) = rec_sum se_nbyte_in se_nbyte_out es \<and>
     rec_sum (sr_nbyte_in \<circ> snd) (sr_nbyte_out \<circ> snd) (sp_ulstat pool) = rec_sum se_nbyte_in se_nbyte_out es"
  unfolding pool_def fed_pool_tables rec_sum_def
  by (auto simp: single_table.table_lookup double_table.table_lookup single_table.table_distinct double_table.table_distinct
    single_table.table_total double_table.table_total rec_sum_def Let_def filter_empty_conv image_iff)

section \<open>Writing is one transaction\<close>

text \<open>The statements of a pool, and what a list of statements does to the database up to the first that fails.\<close>

definition single_text :: "string \<Rightarrow> single_key \<times> stat_rec \<Rightarrow> string" where
  "single_text f kr = (case kr of (key, r) \<Rightarrow>
     ''select '' @ f @ ''('' @ dec_of_int (to_gint (uint (sk_id key))) @ '', '' @ dec_of_nat (unat (sr_nbyte_in r)) @ '', '' @
     dec_of_nat (unat (sr_nbyte_out r)) @ '', '' @ time_text (sk_point key) @ '');'')"

definition double_text :: "double_key \<times> stat_rec \<Rightarrow> string" where
  "double_text kr = (case kr of (key, r) \<Rightarrow>
     ''select update_unit_link_stat('' @ dec_of_int (to_gint (uint (dk_aid key))) @ '', '' @ dec_of_int (to_gint (uint (dk_bid key))) @
     '', '' @ dec_of_nat (unat (sr_nbyte_in r)) @ '', '' @ dec_of_nat (unat (sr_nbyte_out r)) @ '', '' @ time_text (dk_point key) @ '');'')"

definition pool_statements ::
  "(single_key stat_ht \<Rightarrow> single_key stat_ht) \<Rightarrow> (double_key stat_ht \<Rightarrow> double_key stat_ht) \<Rightarrow> mbb_stat_pool \<Rightarrow> string list" where
  "pool_statements ord ord2 pool =
     map (single_text ''update_unit_stat'') (ord (sp_ustat pool)) @ map (single_text ''update_link_stat'') (ord (sp_lstat pool)) @
     map double_text (ord2 (sp_ulstat pool))"

fun exec_all :: "('w, 'i) mbb_db \<Rightarrow> gpointer \<Rightarrow> string list \<Rightarrow> 'w \<Rightarrow> 'w \<times> bool" where
  "exec_all db conn [] w = (w, True)"
| "exec_all db conn (s # ss) w = (let (w, ok, _) = db_query db conn s None w in if ok then exec_all db conn ss w else (w, False))"

definition private_conn :: "('w, 'i) dbs \<Rightarrow> thread_id \<Rightarrow> ('w, 'i) mbb_db \<Rightarrow> gpointer \<Rightarrow> bool" where
  "private_conn st t db conn \<longleftrightarrow> db_drv st = Some db \<and> db_priv st t = conn \<and> conn \<noteq> 0 \<and> conn \<noteq> db_conn st"

lemma private_world [simp]: "private_conn (st\<lparr>db_world := w\<rparr>) t db conn = private_conn st t db conn"
  by (simp add: private_conn_def)

lemma private_query:
  "private_conn st t db conn \<Longrightarrow>
     mbb_db_query st t q f = (case db_query db conn q f (db_world st) of (w, r) \<Rightarrow> Some (st\<lparr>db_world := w\<rparr>, r))"
  by (auto simp: private_conn_def mbb_db_query_def db_get_conn_def db_query_lock_def db_query_unlock_def Let_def split: prod.splits)

lemma private_call:
  "private_conn st t db conn \<Longrightarrow>
     make_call st t (Some f) open = (case f conn (db_world st) of (w, r) \<Rightarrow> Some (st\<lparr>db_world := w\<rparr>, r))"
  by (auto simp: private_conn_def make_call_def db_get_conn_def db_query_lock_def db_query_unlock_def Let_def split: prod.splits)

lemma function_texts:
  "query_function esc f (Some ''dqqt'') [Va_Int i, Va_Uint64 a, Va_Uint64 b, Va_Long p] =
     Some (''select '' @ f @ ''('' @ dec_of_int i @ '', '' @ dec_of_nat (unat a) @ '', '' @ dec_of_nat (unat b) @ '', '' @ time_text p @ '');'')"
  "query_function esc f (Some ''ddqqt'') [Va_Int i, Va_Int j, Va_Uint64 a, Va_Uint64 b, Va_Long p] =
     Some (''select '' @ f @ ''('' @ dec_of_int i @ '', '' @ dec_of_int j @ '', '' @ dec_of_nat (unat a) @ '', '' @ dec_of_nat (unat b) @
       '', '' @ time_text p @ '');'')"
  by (simp_all add: query_function_def query_function_ap_def append_args.simps buf_append_arg_def qfmt_def time_text_def)

definition saves :: "('w, 'i) mbb_db \<Rightarrow> gpointer \<Rightarrow> ('r \<Rightarrow> string) \<Rightarrow> ('w, 'i) dbs \<Rightarrow> 'r \<Rightarrow> (('w, 'i) dbs \<times> bool) option" where
  "saves db conn text st r = (case db_query db conn (text r) None (db_world st) of (w, ok, e) \<Rightarrow> Some (st\<lparr>db_world := w\<rparr>, ok))"

lemma rec_saves:
  assumes "private_conn st t db conn"
  shows "unit_rec_save st t kr = saves db conn (single_text ''update_unit_stat'') st kr"
    "link_rec_save st t kr = saves db conn (single_text ''update_link_stat'') st kr"
    "unit_link_rec_save st t kd = saves db conn double_text st kd"
  using private_query [OF assms]
  by (auto simp: unit_rec_save_def link_rec_save_def unit_link_rec_save_def rec_save_query_def saves_def function_texts single_text_def
    double_text_def Let_def split: prod.splits)

text \<open>The same while the task is asked before each statement whether it may go on.\<close>

fun exec_poll :: "(nat \<Rightarrow> bool) \<Rightarrow> ('w, 'i) mbb_db \<Rightarrow> gpointer \<Rightarrow> nat \<Rightarrow> string list \<Rightarrow> 'w \<Rightarrow> 'w \<times> nat \<times> bool" where
  "exec_poll poll db conn n [] w = (w, n, True)"
| "exec_poll poll db conn n (s # ss) w =
     (if \<not> poll n then (w, Suc n, False)
      else let (w, ok, _) = db_query db conn s None w in if ok then exec_poll poll db conn (Suc n) ss w else (w, Suc n, False))"

lemma save_records_poll:
  assumes "\<And>w r. save (st\<lparr>db_world := w\<rparr>) r = saves db conn text (st\<lparr>db_world := w\<rparr>) r"
  shows "save_records poll save (st\<lparr>db_world := w\<rparr>) n rs =
    (case exec_poll poll db conn n (map text rs) w of (w, n, ok) \<Rightarrow> Some (st\<lparr>db_world := w\<rparr>, n, ok))"
  by (induction rs arbitrary: w n) (auto simp: assms saves_def Let_def split: prod.splits)

lemma exec_poll_append:
  "exec_poll poll db conn n (xs @ ys) w =
     (case exec_poll poll db conn n xs w of (w, n, ok) \<Rightarrow> if ok then exec_poll poll db conn n ys w else (w, n, False))"
  by (induction xs arbitrary: w n) (auto simp: Let_def split: prod.splits)

lemma exec_poll_prefix:
  assumes "exec_poll poll db conn n ss w = (w', n', ok)"
  shows "\<exists>k. w' = fst (exec_all db conn (take k ss) w)"
    and "ok \<Longrightarrow> exec_all db conn ss w = (w', True)"
    and "\<forall>i. poll i \<Longrightarrow> snd (exec_all db conn ss w) \<Longrightarrow> ok"
proof -
  show "\<exists>k. w' = fst (exec_all db conn (take k ss) w)" using assms
  proof (induction ss arbitrary: w n)
    case (Cons s ss)
    obtain w1 ok1 e where q: "db_query db conn s None w = (w1, ok1, e)" by (cases "db_query db conn s None w") auto
    show ?case
    proof (cases "poll n \<and> ok1")
      case True
      with Cons q obtain k where "w' = fst (exec_all db conn (take k ss) w1)" by auto
      with True q show ?thesis by (intro exI [of _ "Suc k"]) simp
    next
      case False
      with Cons.prems q show ?thesis by (intro exI [of _ "if poll n then 1 else 0"]) (auto split: if_splits)
    qed
  qed simp
  show "ok \<Longrightarrow> exec_all db conn ss w = (w', True)" using assms
    by (induction ss arbitrary: w n) (auto simp: Let_def split: prod.splits if_splits)
  show "\<forall>i. poll i \<Longrightarrow> snd (exec_all db conn ss w) \<Longrightarrow> ok" using assms
    by (induction ss arbitrary: w n) (auto simp: Let_def split: prod.splits if_splits)
qed

lemma pool_save_eq:
  assumes conn: "private_conn st t db conn" and "db_begin db = Some b" "db_rollback db = Some r" "db_commit db = Some c"
  shows "mbb_stat_pool_save ord ord2 poll st n t pool =
    (if \<not> poll n then Some (st, Suc n)
     else case b conn (db_world st) of (w, ok, _) \<Rightarrow>
       if \<not> ok then Some (st\<lparr>db_world := w\<rparr>, Suc n)
       else case exec_poll poll db conn (Suc n) (pool_statements ord ord2 pool) w of (w, n, ok) \<Rightarrow>
         Some (st\<lparr>db_world := fst (if ok then c conn w else r conn w)\<rparr>, n))"
proof -
  have saves:
    "save_records poll (\<lambda>st. unit_rec_save st t) (st\<lparr>db_world := w\<rparr>) n rs =
       (case exec_poll poll db conn n (map (single_text ''update_unit_stat'') rs) w of (w, n, ok) \<Rightarrow> Some (st\<lparr>db_world := w\<rparr>, n, ok))"
    "save_records poll (\<lambda>st. link_rec_save st t) (st\<lparr>db_world := w\<rparr>) n rs =
       (case exec_poll poll db conn n (map (single_text ''update_link_stat'') rs) w of (w, n, ok) \<Rightarrow> Some (st\<lparr>db_world := w\<rparr>, n, ok))"
    "save_records poll (\<lambda>st. unit_link_rec_save st t) (st\<lparr>db_world := w\<rparr>) n rs2 =
       (case exec_poll poll db conn n (map double_text rs2) w of (w, n, ok) \<Rightarrow> Some (st\<lparr>db_world := w\<rparr>, n, ok))" for w n rs rs2
    by (intro save_records_poll rec_saves; simp add: conn)+
  have d: "db_drv st = Some db" using conn by (simp add: private_conn_def)
  have p: "private_conn (st\<lparr>db_world := w\<rparr>) t db conn" for w using conn by simp
  show ?thesis
    by (auto simp: mbb_stat_pool_save_def stat_db_begin_def stat_db_commit_def stat_db_rollback_def mbb_db_begin_def mbb_db_rollback_def
      mbb_db_commit_def d assms private_call [OF conn] private_call [OF p] saves pool_statements_def exec_poll_append split: prod.splits)
qed

text \<open>
  C35. Writing a pool over the connection of the task always returns, changes nothing but the
  database, and is one transaction there: nothing is sent when the task is already cancelled,
  only \<open>begin\<close> when that fails, and otherwise either all statements of the pool, each of them
  accepted, and \<open>commit\<close>, or a part of them and \<open>rollback\<close>. A task that is not cancelled and whose
  statements are all accepted commits.
\<close>

theorem stat_pool_save_transaction:
  assumes "private_conn st t db conn" "db_begin db = Some b" "db_rollback db = Some r" "db_commit db = Some c"
    and "b conn (db_world st) = (w1, ok, e)" and ss: "ss = pool_statements ord ord2 pool"
  shows "\<exists>w' n'. mbb_stat_pool_save ord ord2 poll st n t pool = Some (st\<lparr>db_world := w'\<rparr>, n') \<and>
    (if \<not> poll n then w' = db_world st
     else if \<not> ok then w' = w1
     else (\<exists>k. w' = fst (r conn (fst (exec_all db conn (take k ss) w1)))) \<or>
       (\<exists>w2. exec_all db conn ss w1 = (w2, True) \<and> w' = fst (c conn w2))) \<and>
    (\<forall>w2. (\<forall>i. poll i) \<and> ok \<and> exec_all db conn ss w1 = (w2, True) \<longrightarrow> w' = fst (c conn w2))"
proof -
  obtain w2 n' ok' where x: "exec_poll poll db conn (Suc n) ss w1 = (w2, n', ok')" by (cases "exec_poll poll db conn (Suc n) ss w1") auto
  note pre = exec_poll_prefix [OF x] and eq = pool_save_eq [OF assms(1-4), of ord ord2 poll n pool]
  show ?thesis
  proof (cases "poll n \<and> ok")
    case False
    with eq assms(5) show ?thesis by (cases "poll n") (auto intro: exI [of _ "db_world st"] exI [of _ w1])
  next
    case True
    with eq assms(5) x have "mbb_stat_pool_save ord ord2 poll st n t pool = Some (st\<lparr>db_world := fst (if ok' then c conn w2 else r conn w2)\<rparr>, n')"
      by (simp add: ss)
    with pre True show ?thesis by (intro exI [of _ "fst (if ok' then c conn w2 else r conn w2)"] exI [of _ n']) auto
  qed
qed

definition pool0 :: mbb_stat_pool where
  "pool0 = mbb_stat_feed mbb_stat_pool_new \<lparr>se_unit_id = 4, se_link_id = 6, se_nbyte_in = 15, se_nbyte_out = 0, se_point = 5\<rparr>"

lemma pool0_statements:
  "pool_statements (\<lambda>x. x) (\<lambda>x. x) pool0 = [''select update_unit_stat(4, 15, 0, 0);'', ''select update_link_stat(6, 15, 0, 0);'',
     ''select update_unit_link_stat(4, 6, 15, 0, 0);'']"
proof -
  have d: "dec_of_nat 15 = ''15''" "dec_of_nat 0 = ''0''" "dec_of_int 4 = ''4''" "dec_of_int 6 = ''6''" "dec_of_int 0 = ''0''"
    by code_simp+
  have "mbb_stat_extract_hour 5 = 0" by code_simp
  then show ?thesis
    by (simp add: pool0_def pool_statements_def mbb_stat_feed_def mbb_stat_pool_new_def rec_update_def single_key_equal_def double_key_equal_def
      single_text_def double_text_def time_text_def to_gint_def d Let_def)
qed

lemma pq0_exec: "conn \<noteq> 0 \<Longrightarrow> silent_exec pq0 q conn w = (w @ [q], True, None)" "conn \<noteq> 0 \<Longrightarrow> pq_query pq0 conn q None w = (w @ [q], True, None)"
  by (simp_all add: dbs0_defs)

lemma pq0_exec_all: "conn \<noteq> 0 \<Longrightarrow> exec_all (pg_db pq0) conn ss w = (w @ ss, True)"
  by (induction ss arbitrary: w) (simp_all add: pg_db_def pq0_exec)

theorem stat_pool_save_transaction_witness:
  "private_conn dbs0 2 (pg_db pq0) 9 \<and>
   (\<exists>n'. mbb_stat_pool_save (\<lambda>x. x) (\<lambda>x. x) (\<lambda>_. True) dbs0 0 2 pool0 = Some (dbs0\<lparr>db_world :=
      [''begin'', ''select update_unit_stat(4, 15, 0, 0);'', ''select update_link_stat(6, 15, 0, 0);'',
       ''select update_unit_link_stat(4, 6, 15, 0, 0);'', ''commit'']\<rparr>, n'))"
proof -
  let ?id = "\<lambda>x. x" and ?x = "silent_exec pq0"
  let ?ss = "pool_statements ?id ?id pool0"
  have p: "private_conn dbs0 2 (pg_db pq0) 9" by (simp add: private_conn_def dbs0_def)
  have b: "?x ''begin'' 9 (db_world dbs0) = ([''begin''], True, None)" by (simp add: pq0_exec dbs0_def)
  have d: "db_begin (pg_db pq0) = Some (?x ''begin'')" "db_rollback (pg_db pq0) = Some (?x ''rollback'')" "db_commit (pg_db pq0) = Some (?x ''commit'')"
    by (simp_all add: pg_db_def)
  have "\<exists>n'. mbb_stat_pool_save ?id ?id (\<lambda>_. True) dbs0 0 2 pool0 = Some (dbs0\<lparr>db_world := [''begin''] @ ?ss @ [''commit'']\<rparr>, n')"
    using stat_pool_save_transaction [of dbs0 2 "pg_db pq0" 9 "?x ''begin''" "?x ''rollback''" "?x ''commit''" "[''begin'']" True None
        ?ss ?id ?id pool0 "\<lambda>_. True" 0] p b d by (auto simp: pq0_exec pq0_exec_all)
  with p show ?thesis by (simp only: pool0_statements append.simps simp_thms)
qed

end
