(* ===== verification/Stat_Man.thy ===== *)
theory Stat_Man
  imports Stat Net_Man
begin

text \<open>
  The commands on traffic statistics: \<open>mbbd/modules/stat/main.c\<close>. Time arguments are checked and
  rounded with the calendar, which is a parameter, and one \<open>select\<close> is written from a table of
  tables and conditions; consumers see the sums of their own units only.
\<close>

section \<open>Definitions\<close>

record stat_opt =
  so_block_size :: guint32
  so_human :: bool
  so_start :: time_t
  so_end :: time_t
  so_step :: "string option"

record sqi =
  sqi_tables :: string
  sqi_field :: string
  sqi_cond :: "string option"
  sqi_opt_cond :: "string option"

definition size_syms :: "(string \<times> nat) list" where
  "size_syms = [(''b'', 0), (''k'', 10), (''m'', 20), (''g'', 30)]"

definition SQI_UNIT :: sqi where
  "SQI_UNIT = \<lparr>sqi_tables = ''unit_stat s, units u'', sqi_field = ''u.unit_name'', sqi_cond = Some ''s.unit_id = u.unit_id'', sqi_opt_cond = None\<rparr>"

definition SQI_CONSUMER :: sqi where
  "SQI_CONSUMER = \<lparr>sqi_tables = ''unit_stat s, units u, consumers c'', sqi_field = ''c.consumer_name'',
     sqi_cond = Some ''s.unit_id = u.unit_id and u.consumer_id = c.consumer_id'', sqi_opt_cond = None\<rparr>"

definition SQI_OPER :: sqi where
  "SQI_OPER = \<lparr>sqi_tables = ''link_stat s, gwlinks l, operators o'', sqi_field = ''o.oper_name'',
     sqi_cond = Some ''s.gwlink_id = l.gwlink_id and l.oper_id = o.oper_id'', sqi_opt_cond = None\<rparr>"

definition SQI_LINK :: sqi where
  "SQI_LINK = \<lparr>sqi_tables = ''link_stat s'', sqi_field = ''gwlink_id'', sqi_cond = None, sqi_opt_cond = None\<rparr>"

definition SQI_GW :: sqi where
  "SQI_GW = \<lparr>sqi_tables = ''link_stat s, gwlinks l, gateways g'', sqi_field = ''g.gw_name'',
     sqi_cond = Some ''s.gwlink_id = l.gwlink_id and l.gw_id = g.gw_id'', sqi_opt_cond = None\<rparr>"

text \<open>One child for each row of the result; a result without an end is \<open>None\<close>.\<close>

partial_function (option) import_rows :: "('w, 'i) mbb_db \<Rightarrow> (string \<times> gint) list \<Rightarrow> 'i \<Rightarrow> xml_tag \<Rightarrow> ('i \<times> xml_tag) option" where
  "import_rows db cols iter tag =
     (let (iter, more) = db_iter_next db iter
      in if \<not> more then Some (iter, tag)
         else import_rows db cols iter
           (xml_tag_new_child tag ''stat'' (map (\<lambda>(a, n). (a, variant_new_string (db_iter_get_value db iter n))) cols)))"

definition import_stat :: "('w, 'i) mbb_db \<Rightarrow> 'i \<Rightarrow> xml_tag \<Rightarrow> ('i \<times> xml_tag) option" where
  "import_stat db iter tag = import_rows db [(''name'', 0), (''in'', 1), (''out'', 2)] iter tag"

definition import_dstat :: "('w, 'i) mbb_db \<Rightarrow> 'i \<Rightarrow> xml_tag \<Rightarrow> ('i \<times> xml_tag) option" where
  "import_dstat db iter tag = import_rows db [(''name'', 0), (''in'', 1), (''out'', 2), (''point'', 3)] iter tag"

definition stat_exec_query :: "('v, 'w, 'i) app_srv \<Rightarrow> thread_id \<Rightarrow> string \<Rightarrow> bool \<Rightarrow> bool \<Rightarrow> ('v, 'w, 'i) app_srv reply" where
  "stat_exec_query st t query bystep reorder =
     do { (dbs, iter, e) \<leftarrow> mbb_db_query_iter (srv_db st) t query;
          let st = set_db st dbs;
          (case iter of
             None \<Rightarrow> reply_error st e
           | Some iter \<Rightarrow>
               do { db \<leftarrow> db_drv dbs;
                    (iter, tag) \<leftarrow> (if bystep then import_dstat else import_stat) db iter mbb_xml_msg_ok;
                    let st = set_db st (dbs\<lparr>db_world := db_iter_free db iter (db_world dbs)\<rparr>);
                    Some (st, Some (if reorder then hd (xml_tag_reorder_all [tag]) else tag)) }) }"

subsection \<open>The statement\<close>

text \<open>\<open>query_format\<close>, \<open>query_append_format\<close> and \<open>query_append\<close> on the buffer of the thread.\<close>

definition add_fmt :: "escape_func \<Rightarrow> string \<Rightarrow> va_list \<Rightarrow> string \<Rightarrow> string option" where
  "add_fmt esc fmt va buf = query_format_full esc buf True (Some fmt) va"

definition add_txt :: "escape_func \<Rightarrow> string \<Rightarrow> string \<Rightarrow> string option" where
  "add_txt esc txt buf = add_fmt esc ''%S'' [Va_Str (Some txt)] buf"

definition va_time :: "time_t \<Rightarrow> va_arg" where "va_time x = Va_Long x"

definition POINT_IN_COND :: string where "POINT_IN_COND = ''s.point >= %t and s.point < %t''"

definition POINT_BY_COND :: string where
  "POINT_BY_COND = ''s.point >= ptou(d.date) and s.point < ptou(d.date + '' @ [CHR 0x27] @ ''1 %S'' @ [CHR 0x27] @ '')''"

definition TO_CHAR :: string where
  "TO_CHAR = '', to_char(d.date, '' @ [CHR 0x27] @ ''YYYY-MM-DD HH24-MI'' @ [CHR 0x27] @ '')''"

definition stat_select :: "escape_func \<Rightarrow> sqi \<Rightarrow> stat_opt \<Rightarrow> string \<Rightarrow> string option" where
  "stat_select esc sqi so buf =
     do { buf \<leftarrow> query_format_full esc buf False (Some ''select %S'') [Va_Str (Some (sqi_field sqi))];
          buf \<leftarrow> (if \<not> so_human so \<or> so_block_size so = 1 then add_txt esc '', sum(nbyte_in), sum(nbyte_out)'' buf
                 else do { buf \<leftarrow> add_fmt esc '', round(sum(nbyte_in) / %d, 3)'' [Va_Int (to_gint (uint (so_block_size so)))] buf;
                           add_fmt esc '', round(sum(nbyte_out) / %d, 3)'' [Va_Int (to_gint (uint (so_block_size so)))] buf });
          (case so_step so of
             None \<Rightarrow> add_fmt esc '' from %S'' [Va_Str (Some (sqi_tables sqi))] buf
           | Some step \<Rightarrow>
               do { buf \<leftarrow> (if \<not> so_human so then add_txt esc '', ptou(d.date)'' buf else add_txt esc TO_CHAR buf);
                    add_fmt esc '' from %S, dates d'' [Va_Str (Some (sqi_tables sqi))] buf }) }"

fun add_names :: "escape_func \<Rightarrow> string list \<Rightarrow> string \<Rightarrow> string option" where
  "add_names esc [] buf = Some buf"
| "add_names esc (n # ns) buf = do { buf \<leftarrow> add_fmt esc '', %s'' [Va_Str (Some n)] buf; add_names esc ns buf }"

definition stat_where :: "escape_func \<Rightarrow> sqi \<Rightarrow> string list \<Rightarrow> stat_opt \<Rightarrow> string \<Rightarrow> string option" where
  "stat_where esc sqi nlist so buf =
     do { buf \<leftarrow> add_txt esc '' where '' buf;
          buf \<leftarrow> (case nlist of
                   [] \<Rightarrow> Some buf
                 | n # ns \<Rightarrow>
                     do { buf \<leftarrow> add_fmt esc ''%S in (%s'' [Va_Str (Some (sqi_field sqi)), Va_Str (Some n)] buf;
                          buf \<leftarrow> add_names esc ns buf;
                          add_txt esc '') and '' buf });
          buf \<leftarrow> (case sqi_cond sqi of
                   None \<Rightarrow> Some buf
                 | Some c \<Rightarrow>
                     do { buf \<leftarrow> add_fmt esc ''%S and '' [Va_Str (Some c)] buf;
                          (case sqi_opt_cond sqi of None \<Rightarrow> Some buf | Some c \<Rightarrow> add_fmt esc ''%S and '' [Va_Str (Some c)] buf) });
          (case so_step so of
             Some step \<Rightarrow> add_fmt esc POINT_BY_COND [Va_Str (Some step)] buf
           | None \<Rightarrow> add_fmt esc POINT_IN_COND [va_time (so_start so), va_time (so_end so)] buf) }"

definition stat_query :: "escape_func \<Rightarrow> sqi \<Rightarrow> string list \<Rightarrow> stat_opt \<Rightarrow> string \<Rightarrow> string option" where
  "stat_query esc sqi nlist so buf =
     do { buf \<leftarrow> stat_select esc sqi so buf;
          buf \<leftarrow> stat_where esc sqi nlist so buf;
          buf \<leftarrow> add_fmt esc '' group by %S'' [Va_Str (Some (sqi_field sqi))] buf;
          buf \<leftarrow> (if so_step so \<noteq> None then add_txt esc '', d.date'' buf else Some buf);
          buf \<leftarrow> (if so_human so
                 then if so_step so = None then add_fmt esc '' order by %S'' [Va_Str (Some (sqi_field sqi))] buf
                      else add_fmt esc '' order by d.date, %S'' [Va_Str (Some (sqi_field sqi))] buf
                 else Some buf);
          add_txt esc '';'' buf }"

definition stat_fetch :: "('v, 'w, 'i) app_srv \<Rightarrow> thread_id \<Rightarrow> sqi \<Rightarrow> string list \<Rightarrow> stat_opt \<Rightarrow> ('v, 'w, 'i) app_srv reply" where
  "stat_fetch st t sqi nlist so =
     do { query \<leftarrow> stat_query (db_escape_func (srv_db st) t) sqi nlist so [];
          stat_exec_query st t query (so_step so \<noteq> None) (so_human so) }"

definition create_view_dates :: "('w, 'i) dbs \<Rightarrow> thread_id \<Rightarrow> time_t \<Rightarrow> time_t \<Rightarrow> string \<Rightarrow> (('w, 'i) dbs \<times> db_result) option" where
  "create_view_dates db t start fin step =
     do { query \<leftarrow> query_function (db_escape_func db t) ''create_view_dates'' (Some ''sstt'')
            [Va_Str (Some ''dates''), Va_Str (Some step), va_time start, va_time fin];
          mbb_db_query db t query None }"

definition drop_view_dates :: "('w, 'i) dbs \<Rightarrow> thread_id \<Rightarrow> ('w, 'i) dbs option" where
  "drop_view_dates db t = do { (db, _) \<leftarrow> mbb_db_query db t ''drop view dates;'' None; Some db }"

subsection \<open>Time arguments\<close>

text \<open>What the function uses of the C library and of GLib besides \<open>calendar\<close>; a date is day, month and year.\<close>

type_synonym gdate = "int \<times> int \<times> int"

record date_env =
  de_localtime :: "time_t \<Rightarrow> tm"
  de_add_days :: "gdate \<Rightarrow> gdate"
  de_add_months :: "gdate \<Rightarrow> gdate"
  de_add_years :: "gdate \<Rightarrow> gdate"
  de_to_tm :: "gdate \<Rightarrow> tm"

definition step_name :: "string list" where "step_name = [''hour'', ''day'', ''month'', ''year'']"

definition parse_period :: "calendar \<Rightarrow> date_env \<Rightarrow> time_t \<Rightarrow> string \<Rightarrow> (xml_tag + time_t \<times> time_t) option" where
  "parse_period cal de start period =
     (let tm = (de_localtime de start)\<lparr>tm_sec := 0, tm_min := 0, tm_hour := 0\<rparr>
      in case (if period = ''day'' then Some (de_add_days de, tm)
               else if period = ''month'' then Some (de_add_months de, tm\<lparr>tm_mday := 1\<rparr>)
               else if period = ''year'' then Some (de_add_years de, tm\<lparr>tm_mday := 1, tm_mon := 0\<rparr>)
               else None) of
           None \<Rightarrow> do { ans \<leftarrow> mbb_xml_msg_error (Some ''invalid period value'') []; Some (Inl ans) }
         | Some (date_inc, tm) \<Rightarrow>
             (let d = tm_mday tm; m = tm_mon tm + 1; y = tm_year tm + 1900
              in if \<not> cal_date_valid_dmy cal d m y
                 then do { ans \<leftarrow> mbb_xml_msg_error (Some ''g_date_valid_dmy(%d, %d, %d) failed'') [PF_D d, PF_D m, PF_D y]; Some (Inl ans) }
                 else Some (Inr (cal_mktime cal tm, cal_mktime cal (de_to_tm de (date_inc (d, m, y)))))))"

definition parse_time_args ::
  "calendar \<Rightarrow> date_env \<Rightarrow> time_t \<Rightarrow> time_t \<Rightarrow> string option \<Rightarrow> string option \<Rightarrow> (xml_tag + time_t \<times> time_t) option" where
  "parse_time_args cal de start fin period step =
     (if (case step of None \<Rightarrow> False | Some s \<Rightarrow> s \<notin> set step_name)
      then do { ans \<leftarrow> mbb_xml_msg_error (Some ''invalid step name'') []; Some (Inl ans) }
      else
        (case period of
           None \<Rightarrow>
             if fin = VAR_CONV_TIME_UNSET then Some (Inr (start, start + 1))
             else if start \<ge> fin then do { ans \<leftarrow> mbb_xml_msg MBB_MSG_INVALID_TIME_ORDER []; Some (Inl ans) }
             else Some (Inr (start, fin))
         | Some p \<Rightarrow>
             if fin \<noteq> VAR_CONV_TIME_UNSET then do { ans \<leftarrow> mbb_xml_msg_error (Some ''exclusive arguments'') []; Some (Inl ans) }
             else parse_period cal de start p))"

subsection \<open>Commands\<close>

definition get_name_list :: "variant list \<Rightarrow> string list option" where
  "get_name_list list = (if \<forall>v \<in> set list. variant_get_string v \<noteq> None then Some (map (\<lambda>v. the (variant_get_string v)) list) else None)"

definition so_size_conv :: "string \<Rightarrow> guint32 option" where
  "so_size_conv arg = map_option (\<lambda>p. push_bit p 1) (map_of size_syms arg)"

definition stat_opt_parse :: "xml_tag \<Rightarrow> (xml_tag + guint32 \<times> bool) option" where
  "stat_opt_parse tag =
     do { r \<leftarrow> mbb_xtv_call_z tag [(xtv_entry (Some ''opt'') ''size'' (conv_with XV_UInt so_size_conv), True),
            (xtv_entry (Some ''opt'') ''human'' conv_bool, True)];
          (case r of
             Inl ans \<Rightarrow> Some (Inl ans)
           | Inr [s, h] \<Rightarrow> Some (Inr ((case s of Some (XV_UInt n) \<Rightarrow> n | _ \<Rightarrow> 1), xv_bool False h))
           | _ \<Rightarrow> None) }"

text \<open>The part of \<open>stat_common\<close> behind the arguments.\<close>

definition stat_answer :: "('v, 'w, 'i) app_srv \<Rightarrow> thread_id \<Rightarrow> sqi \<Rightarrow> string list \<Rightarrow> stat_opt \<Rightarrow> ('v, 'w, 'i) app_srv reply" where
  "stat_answer st t sqi nlist so =
     (let (db, ok, e) = mbb_db_dup_conn_once (srv_db st) t; st = set_db st db
      in if \<not> ok then reply_error st e
         else
           (case so_step so of
              None \<Rightarrow> stat_fetch st t sqi nlist so
            | Some step \<Rightarrow>
                do { (db, ok, e) \<leftarrow> create_view_dates (srv_db st) t (so_start so) (so_end so) step;
                     let st = set_db st db;
                     if \<not> ok then reply_error st e
                     else
                       do { (st, ans) \<leftarrow> stat_fetch st t sqi nlist so;
                            db \<leftarrow> drop_view_dates (srv_db st) t;
                            Some (set_db st db, ans) } }))"

definition stat_common :: "xtv_env \<Rightarrow> date_env \<Rightarrow> sqi \<Rightarrow> ('v, 'w, 'i) handler" where
  "stat_common env de sqi st t tag =
     with_args st tag [(xtv_time_start env, False), (xtv_time_end env, True), (xtv_time_period, True), (xtv_time_step, True)] (\<lambda>vs.
       case vs of
         [Some (XV_Time start), fin, period, step] \<Rightarrow>
           do { r \<leftarrow> parse_time_args (xe_cal env) de start (xv_time VAR_CONV_TIME_UNSET fin) (xv_str period) (xv_str step);
                (case r of
                   Inl ans \<Rightarrow> Some (st, Some ans)
                 | Inr (start, fin) \<Rightarrow>
                     do { r \<leftarrow> stat_opt_parse tag;
                          (case r of
                             Inl ans \<Rightarrow> Some (st, Some ans)
                           | Inr (bsize, human) \<Rightarrow>
                               do { nlist \<leftarrow> get_name_list (xml_tag_path_attr_list tag ''name'' ''value'');
                                    stat_answer st t sqi nlist
                                      \<lparr>so_block_size = bsize, so_human = human, so_start = start, so_end = fin, so_step = xv_str step\<rparr> }) }) }
       | _ \<Rightarrow> None)"

definition stat_unit :: "xtv_env \<Rightarrow> date_env \<Rightarrow> ('v, 'w, 'i) handler" where "stat_unit env de = stat_common env de SQI_UNIT"
definition stat_consumer :: "xtv_env \<Rightarrow> date_env \<Rightarrow> ('v, 'w, 'i) handler" where "stat_consumer env de = stat_common env de SQI_CONSUMER"
definition stat_link :: "xtv_env \<Rightarrow> date_env \<Rightarrow> ('v, 'w, 'i) handler" where "stat_link env de = stat_common env de SQI_LINK"
definition stat_operator :: "xtv_env \<Rightarrow> date_env \<Rightarrow> ('v, 'w, 'i) handler" where "stat_operator env de = stat_common env de SQI_OPER"
definition stat_gateway :: "xtv_env \<Rightarrow> date_env \<Rightarrow> ('v, 'w, 'i) handler" where "stat_gateway env de = stat_common env de SQI_GW"

definition self_sqi_init :: "gint \<Rightarrow> string \<Rightarrow> sqi" where
  "self_sqi_init uid name =
     \<lparr>sqi_tables = sqi_tables SQI_CONSUMER, sqi_field = name, sqi_cond = sqi_cond SQI_CONSUMER,
      sqi_opt_cond = Some (''c.user_id = '' @ dec_of_int uid)\<rparr>"

definition self_stat_unit :: "xtv_env \<Rightarrow> date_env \<Rightarrow> ('v, 'w, 'i) handler" where
  "self_stat_unit env de st t tag =
     do { uid \<leftarrow> mbb_thread_get_uid st t; stat_common env de (self_sqi_init uid ''u.unit_name'') st t tag }"

definition self_stat_consumer :: "xtv_env \<Rightarrow> date_env \<Rightarrow> ('v, 'w, 'i) handler" where
  "self_stat_consumer env de st t tag =
     do { uid \<leftarrow> mbb_thread_get_uid st t; stat_common env de (self_sqi_init uid ''c.consumer_name'') st t tag }"

definition stat_wipe :: "xtv_env \<Rightarrow> date_env \<Rightarrow> ('v, 'w, 'i) handler" where
  "stat_wipe env de st t tag =
     with_args st tag [(xtv_time_start env, False), (xtv_time_end env, True), (xtv_time_period, True)] (\<lambda>vs.
       case vs of
         [Some (XV_Time start), fin, period] \<Rightarrow>
           do { r \<leftarrow> parse_time_args (xe_cal env) de start (xv_time VAR_CONV_TIME_UNSET fin) (xv_str period) None;
                (case r of
                   Inl ans \<Rightarrow> Some (st, Some ans)
                 | Inr (start, fin) \<Rightarrow>
                     do { (db, ok, e) \<leftarrow> mbb_stat_db_wipe (srv_db st) t start fin;
                          let st = set_db st db;
                          if \<not> ok then reply_error st e else Some (st, None) }) }
       | _ \<Rightarrow> None)"

definition stat_commands :: "xtv_env \<Rightarrow> date_env \<Rightarrow> (string \<times> ('v, 'w, 'i) handler \<times> guint32) list" where
  "stat_commands env de =
     [(''mbb-stat-unit'', stat_unit env de, MBB_CAP_ADMIN), (''mbb-stat-consumer'', stat_consumer env de, MBB_CAP_ADMIN),
      (''mbb-stat-operator'', stat_operator env de, MBB_CAP_ADMIN), (''mbb-stat-link'', stat_link env de, MBB_CAP_ADMIN),
      (''mbb-stat-gateway'', stat_gateway env de, MBB_CAP_ADMIN), (''mbb-stat-wipe'', stat_wipe env de, MBB_CAP_WHEEL),
      (''mbb-self-stat-unit'', self_stat_unit env de, MBB_CAP_CONS), (''mbb-self-stat-consumer'', self_stat_consumer env de, MBB_CAP_CONS)]"

section \<open>What the statements select\<close>

text \<open>The statement in one piece.\<close>

definition size_text :: "stat_opt \<Rightarrow> string \<Rightarrow> string" where
  "size_text so f = (if \<not> so_human so \<or> so_block_size so = 1 then ''sum('' @ f @ '')''
     else ''round(sum('' @ f @ '') / '' @ dec_of_int (to_gint (uint (so_block_size so))) @ '', 3)'')"

definition span_text :: "stat_opt \<Rightarrow> string" where
  "span_text so = (case so_step so of
     None \<Rightarrow> ''s.point >= '' @ time_text (so_start so) @ '' and s.point < '' @ time_text (so_end so)
   | Some step \<Rightarrow> ''s.point >= ptou(d.date) and s.point < ptou(d.date + '' @ [CHR 0x27] @ ''1 '' @ step @ [CHR 0x27] @ '')'')"

definition filter_text :: "escape_func \<Rightarrow> string \<Rightarrow> string list \<Rightarrow> string" where
  "filter_text esc field nlist =
     (if nlist = [] then [] else field @ '' in ('' @ join (map (\<lambda>n. quoted esc (Some n)) nlist) @ '') and '')"

definition select_text :: "escape_func \<Rightarrow> sqi \<Rightarrow> string list \<Rightarrow> stat_opt \<Rightarrow> string list \<Rightarrow> string" where
  "select_text esc sqi nlist so conds =
     ''select '' @ sqi_field sqi @ '', '' @ size_text so ''nbyte_in'' @ '', '' @ size_text so ''nbyte_out'' @
     (if so_step so = None then [] else if so_human so then TO_CHAR else '', ptou(d.date)'') @
     '' from '' @ sqi_tables sqi @ (if so_step so = None then [] else '', dates d'') @
     '' where '' @ filter_text esc (sqi_field sqi) nlist @ concat (map (\<lambda>c. c @ '' and '') conds) @ span_text so @
     '' group by '' @ sqi_field sqi @ (if so_step so = None then [] else '', d.date'') @
     (if so_human so then '' order by '' @ (if so_step so = None then [] else ''d.date, '') @ sqi_field sqi else []) @ '';''"

lemma add_txt [simp]: "add_txt esc txt buf = Some (buf @ txt)"
  by (simp add: add_txt_def add_fmt_def query_format_full_def qfmt_def)

lemma add_names: "add_names esc ns buf = Some (buf @ prefixed (map (\<lambda>n. quoted esc (Some n)) ns))"
  by (induction ns arbitrary: buf) (simp_all add: add_fmt_def query_format_full_def qfmt_def prefixed_def)

lemma stat_select_text:
  "stat_select esc sqi so buf = Some (''select '' @ sqi_field sqi @ '', '' @ size_text so ''nbyte_in'' @ '', '' @ size_text so ''nbyte_out'' @
     (if so_step so = None then [] else if so_human so then TO_CHAR else '', ptou(d.date)'') @
     '' from '' @ sqi_tables sqi @ (if so_step so = None then [] else '', dates d''))"
  by (cases "so_step so") (simp_all add: stat_select_def size_text_def add_fmt_def query_format_full_def qfmt_def)

lemma stat_where_text:
  assumes "sqi_cond sqi = None \<longrightarrow> sqi_opt_cond sqi = None"
  shows "stat_where esc sqi nlist so buf = Some (buf @ '' where '' @ filter_text esc (sqi_field sqi) nlist @
     concat (map (\<lambda>c. c @ '' and '') (opt_list (sqi_cond sqi) @ opt_list (sqi_opt_cond sqi))) @ span_text so)"
  using assms
  by (cases nlist; cases "sqi_cond sqi"; cases "sqi_opt_cond sqi"; cases "so_step so")
    (simp_all add: stat_where_def filter_text_def span_text_def add_fmt_def query_format_full_def qfmt_def add_names join_Cons
      POINT_BY_COND_def POINT_IN_COND_def va_time_def time_text_def)

lemma stat_query_text:
  assumes "sqi_cond sqi = None \<longrightarrow> sqi_opt_cond sqi = None"
  shows "stat_query esc sqi nlist so buf = Some (select_text esc sqi nlist so (opt_list (sqi_cond sqi) @ opt_list (sqi_opt_cond sqi)))"
  using stat_where_text [OF assms]
  by (cases "so_step so"; cases "so_human so")
    (simp_all add: stat_query_def stat_select_text select_text_def add_fmt_def query_format_full_def qfmt_def)

lemma parse_time_accepted:
  assumes "parse_time_args cal de start fin period step = Some (Inr (a, b))"
  shows "case step of None \<Rightarrow> True | Some s \<Rightarrow> s \<in> set step_name" "period = None \<Longrightarrow> a = start \<and> a < b"
  using assms by (auto simp: parse_time_args_def split: if_splits option.splits bind_splits)

lemma stat_common_cases:
  assumes "stat_common env de sqi st t tag = Some r"
  obtains (refused) ans where "r = (st, Some ans)"
  | (answered) nlist so where "stat_answer st t sqi nlist so = Some r" "case so_step so of None \<Rightarrow> True | Some s \<Rightarrow> s \<in> set step_name"
  using assms unfolding stat_common_def
  by (elim with_args_cases, blast)
    (auto split: list.splits option.splits xv.splits bind_splits sum.splits dest!: parse_time_accepted(1))


definition stat_request :: xml_tag where
  "stat_request = Xml_Tag ''request'' [] None [(''time'', [Xml_Tag ''time'' [(''start'', VARIANT_STRING (Some ''now''))] None []])]"

definition env1 :: xtv_env where
  "env1 = \<lparr>xe_cal = \<lparr>cal_now = 0, cal_strptime = (\<lambda>_ _ _. None), cal_date_valid_dmy = (\<lambda>_ _ _. True), cal_mktime = (\<lambda>_. 0)\<rparr>, xe_re_new = (\<lambda>_. None)\<rparr>"

lemma stat_request_args:
  "mbb_xtv_call_z stat_request [(xtv_time_start env1, False), (xtv_time_end env1, True), (xtv_time_period, True), (xtv_time_step, True)] =
     Some (Inr [Some (XV_Time 0), None, None, None])"
  "stat_opt_parse stat_request = Some (Inr (1, False))"
  "xml_tag_path_attr_list stat_request ''name'' ''value'' = []"
  by (simp_all add: stat_request_def mbb_xtv_call_z_def xml_tag_get_valuesv_def xtv_time_start_def xtv_time_end_def xtv_time_period_def
      xtv_time_step_def xtv_entry_def xml_tag_path_attr_def xml_tag_path_def g_strsplit_def xml_tag_get_child_def xml_tag_get_attr_def
      variant_get_string_def var_conv_time_def env1_def stat_opt_parse_def xml_tag_path_attr_list_def xml_tag_path_go_def xv_bool_def)

lemma stat_answer0:
  assumes "so_step so = None" and cond: "sqi_cond sqi = None \<longrightarrow> sqi_opt_cond sqi = None"
  shows "\<exists>st' ans. stat_answer nsrv0 2 sqi nlist so = Some (st', ans) \<and> st' \<noteq> nsrv0"
proof -
  have c: "db_get_conn (srv_db nsrv0) 2 = (9, None)" "db_drv (srv_db nsrv0) = Some (pg_db pq0)" "db_conn (srv_db nsrv0) = 7" "db_world (srv_db nsrv0) = []"
    by (simp_all add: nsrv0_def dbs0_def db_get_conn_def)
  have e: "set_db nsrv0 (srv_db nsrv0) = nsrv0" by (simp add: set_db_def)
  obtain q where q: "stat_query (db_escape_func (srv_db nsrv0) 2) sqi nlist so [] = Some q"
    using stat_query_text [OF cond] by blast
  have it: "mbb_db_query_iter (srv_db nsrv0) 2 q = Some ((srv_db nsrv0)\<lparr>db_world := [q]\<rparr>, Some (iter_new pq0 ()), None)"
    by (simp add: mbb_db_query_iter_def c db_query_lock_def db_query_unlock_def) (simp add: pg_db_def pq_query_iter_def dbs0_defs)
  have rows: "import_stat (pg_db pq0) (iter_new pq0 ()) tag = Some ((iter_new pq0 ())\<lparr>it_current_row := 0\<rparr>, tag)" for tag
    unfolding import_stat_def by (subst import_rows.simps) (simp add: pg_db_def pq_iter_next_def iter_new_def pq0_def)
  have ne: "set_db nsrv0 ((srv_db nsrv0)\<lparr>db_world := [q]\<rparr>) \<noteq> nsrv0"
    by (metis c(4) dbs.ext_inject dbs.surjective dbs.update_convs(7) list.distinct(1) set_state_simps(5))
  have "db_iter_free (pg_db pq0) i w = w" for i and w :: "string list" by (simp add: pg_db_def pq_iter_free_def pq0_def)
  moreover have "set_db (set_db nsrv0 a) b = set_db nsrv0 b" for a b by (simp add: set_db_def)
  ultimately show ?thesis
    by (simp add: stat_answer_def mbb_db_dup_conn_once_def c e ne assms stat_fetch_def q stat_exec_query_def it rows Let_def)
qed

definition de1 :: date_env where
  "de1 = \<lparr>de_localtime = (\<lambda>_. tm0), de_add_days = (\<lambda>(d, m, y). (d + 1, m, y)), de_add_months = (\<lambda>(d, m, y). (d, m + 1, y)),
     de_add_years = (\<lambda>(d, m, y). (d, m, y + 1)), de_to_tm = (\<lambda>(d, m, y). tm0\<lparr>tm_mday := d, tm_mon := m - 1, tm_year := y - 1900\<rparr>)\<rparr>"


end
