(* ===== verification/Netflow.thy ===== *)
theory Netflow
  imports Stat_Man Umap Account_Man
begin

text \<open>
  Accounting of flows: \<open>flow.c\<close>, \<open>pathtree.c\<close> and \<open>calcstat.c\<close> of \<open>mbbd/modules/netflow\<close>. A task
  reads files of flows; each flow is charged to the units of its two ends that the frozen map
  names, on the link of the gateway that exported it. The files and the library that reads
  them (\<open>ftlib\<close>), and the search for file names, are parameters.
\<close>

section \<open>Definitions\<close>

subsection \<open>Files of flows\<close>

definition FLOW_HEADER_SIZE :: guint32 where "FLOW_HEADER_SIZE = 28"

datatype FlowField = FLOW_FIELD_PROTO | FLOW_FIELD_PORT

text \<open>The fields a file may have, as far as the program asks for them.\<close>

datatype ft_xfield = FT_SRCADDR | FT_DSTADDR | FT_DOCTETS | FT_EXADDR | FT_DPKTS | FT_NEXTHOP | FT_INPUT | FT_OUTPUT
  | FT_UNIX_SECS | FT_UNIX_NSECS | FT_SYSUPTIME | FT_FIRST | FT_PROT | FT_SRCPORT

text \<open>A record of a file; reading beyond the fields of the file is not part of the model.\<close>

record ft_rec =
  fr_srcaddr :: ipv4_t
  fr_dstaddr :: ipv4_t
  fr_exaddr :: ipv4_t
  fr_dOctets :: guint32
  fr_dPkts :: guint32
  fr_input :: "16 word"
  fr_output :: "16 word"
  fr_srcport :: "16 word"
  fr_dstport :: "16 word"
  fr_prot :: "8 word"
  fr_sysUpTime :: guint32
  fr_unix_secs :: guint32
  fr_unix_nsecs :: guint32
  fr_First :: guint32

record ft_file =
  ff_fields :: "ft_xfield set"
  ff_count :: guint32
  ff_recs :: "ft_rec list"

text \<open>What opening a file gives: an error of the system, no stream of flows, or one.\<close>

datatype ft_open = Open_Failed string | No_Stream | Stream ft_file

record flow_data =
  fd_srcaddr :: ipv4_t
  fd_dstaddr :: ipv4_t
  fd_exaddr :: ipv4_t
  fd_nbytes :: guint32
  fd_input :: "16 word"
  fd_output :: "16 word"
  fd_srcport :: "16 word option"
  fd_dstport :: "16 word option"
  fd_proto :: "8 word option"
  fd_begin :: time_t

datatype FlowError = FLOW_ERROR_OPEN_FAILED | FLOW_ERROR_INIT_FAILED | FLOW_ERROR_POOR_FLOW

record flow_stream =
  fl_recs :: "ft_rec list"
  fl_mask :: "FlowField set"
  fl_length :: guint32
  fl_cur :: guint32

definition FT_REQ_FIELDS :: "ft_xfield set" where
  "FT_REQ_FIELDS = {FT_SRCADDR, FT_DSTADDR, FT_DOCTETS, FT_EXADDR, FT_DPKTS, FT_NEXTHOP, FT_INPUT, FT_OUTPUT,
     FT_UNIX_SECS, FT_UNIX_NSECS, FT_SYSUPTIME, FT_FIRST}"

definition flow_stream_new :: "(string \<Rightarrow> ft_open) \<Rightarrow> string \<Rightarrow> FlowField set \<Rightarrow> (FlowError \<times> string) + flow_stream" where
  "flow_stream_new ft path msk =
     (let xfield_mask = FT_REQ_FIELDS;
          xfield_mask = (if FLOW_FIELD_PROTO \<in> msk then xfield_mask \<union> {FT_PROT} else xfield_mask);
          xfield_mask = (if FLOW_FIELD_PORT \<in> msk then xfield_mask \<union> {FT_SRCPORT, FT_DSTADDR} else xfield_mask)
      in case ft path of
           Open_Failed msg \<Rightarrow> Inl (FLOW_ERROR_OPEN_FAILED, ''open failed: '' @ msg)
         | No_Stream \<Rightarrow> Inl (FLOW_ERROR_INIT_FAILED, ''invalid stream'')
         | Stream file \<Rightarrow>
             if \<not> xfield_mask \<subseteq> ff_fields file then Inl (FLOW_ERROR_POOR_FLOW, ''required fields are missing'')
             else Inr \<lparr>fl_recs = ff_recs file, fl_mask = msk, fl_length = ff_count file, fl_cur = 0\<rparr>)"

definition flow_stream_length :: "flow_stream \<Rightarrow> guint32" where "flow_stream_length flow = fl_length flow"

definition flow_stream_tell :: "flow_stream \<Rightarrow> guint32" where "flow_stream_tell flow = fl_cur flow"

text \<open>
  \<open>ftltime\<close> of the library computes the second of the start of a flow. The number of bytes has
  the headers of the packets added, in 32 bits.
\<close>

definition flow_stream_read ::
  "(guint32 \<Rightarrow> guint32 \<Rightarrow> guint32 \<Rightarrow> guint32 \<Rightarrow> time_t) \<Rightarrow> flow_stream \<Rightarrow> flow_stream \<times> flow_data option" where
  "flow_stream_read ftltime flow =
     (case fl_recs flow of
        [] \<Rightarrow> (flow, None)
      | r # rs \<Rightarrow>
          (flow\<lparr>fl_recs := rs, fl_cur := fl_cur flow + 1\<rparr>,
           Some \<lparr>fd_srcaddr = fr_srcaddr r, fd_dstaddr = fr_dstaddr r, fd_exaddr = fr_exaddr r,
             fd_nbytes = fr_dOctets r + fr_dPkts r * FLOW_HEADER_SIZE, fd_input = fr_input r, fd_output = fr_output r,
             fd_srcport = (if FLOW_FIELD_PORT \<in> fl_mask flow then Some (fr_srcport r) else None),
             fd_dstport = (if FLOW_FIELD_PORT \<in> fl_mask flow then Some (fr_dstport r) else None),
             fd_proto = (if FLOW_FIELD_PROTO \<in> fl_mask flow then Some (fr_prot r) else None),
             fd_begin = ftltime (fr_sysUpTime r) (fr_unix_secs r) (fr_unix_nsecs r) (fr_First r)\<rparr>))"

subsection \<open>Paths\<close>

definition DIR_MARK :: char where "DIR_MARK = CHR ''@''"

definition cmpstringp :: "string \<Rightarrow> string \<Rightarrow> int" where "cmpstringp a b = strcmp a b"

text \<open>\<open>qsort\<close> with \<open>cmpstringp\<close>; equal paths cannot be told apart.\<close>

fun path_insert :: "string \<Rightarrow> string list \<Rightarrow> string list" where
  "path_insert x [] = [x]"
| "path_insert x (y # ys) = (if cmpstringp x y \<le> 0 then x # y # ys else y # path_insert x ys)"

definition path_sort :: "string list \<Rightarrow> string list" where "path_sort xs = foldr path_insert xs []"

text \<open>The files below a directory that \<open>ftw\<close> finds, sorted when there are several.\<close>

definition do_ftw :: "(string \<Rightarrow> string list) \<Rightarrow> string list \<Rightarrow> string \<Rightarrow> string list" where
  "do_ftw ftw array dirpath = (let xs = ftw dirpath in array @ (if length xs > 1 then path_sort xs else xs))"

fun walk_dirs :: "(string \<Rightarrow> string list) \<Rightarrow> string list \<Rightarrow> string list \<Rightarrow> string list" where
  "walk_dirs ftw array [] = array"
| "walk_dirs ftw array (d # ds) = walk_dirs ftw (if d \<noteq> [] \<and> last d = CHR ''/'' then do_ftw ftw array d else array) ds"

text \<open>
  One pattern of the list: \<open>rpath\<close> is the directory for patterns that are not absolute, \<open>glob\<close>
  gives the paths that match.
\<close>

definition walk_pattern ::
  "(string \<Rightarrow> string list) \<Rightarrow> (string \<Rightarrow> string list) \<Rightarrow> string option \<Rightarrow> string list \<Rightarrow> string \<Rightarrow> string list" where
  "walk_pattern glob ftw rpath array str =
     (if length str = 0 then array
      else
        (let dir = (peek str = DIR_MARK); str = (if dir then tl str else str)
         in if dir \<and> str = [] then array
            else
              (case (if peek str \<noteq> CHR ''/'' then map_option (\<lambda>r. r @ str) rpath else Some str) of
                 None \<Rightarrow> array
               | Some str \<Rightarrow> if \<not> dir then array @ glob str else walk_dirs ftw array (glob str))))"

record path_tree =
  pt_array :: "string list"
  pt_cur :: nat

definition path_tree_walk ::
  "(string \<Rightarrow> string list) \<Rightarrow> (string \<Rightarrow> string list) \<Rightarrow> string option \<Rightarrow> string list \<Rightarrow> path_tree option" where
  "path_tree_walk glob ftw rpath patterns =
     (let array = foldl (walk_pattern glob ftw rpath) [] patterns
      in if length array = 0 then None else Some \<lparr>pt_array = array, pt_cur = 0\<rparr>)"

definition path_tree_next :: "path_tree \<Rightarrow> path_tree \<times> string option" where
  "path_tree_next pt =
     (if pt_cur pt \<ge> length (pt_array pt) then (pt, None) else (pt\<lparr>pt_cur := pt_cur pt + 1\<rparr>, Some (pt_array pt ! pt_cur pt)))"

subsection \<open>Charging a flow\<close>

definition get_link_id :: "network \<Rightarrow> ipv4_t \<Rightarrow> guint32 \<Rightarrow> time_t \<Rightarrow> gint option" where
  "get_link_id net gw link_no t =
     do { link \<leftarrow> mbb_gateway_find_link net gw link_no t;
          (case link of None \<Rightarrow> Some (- 1) | Some p \<Rightarrow> do { gl \<leftarrow> dm_heap (nw_links net) p; Some (gl_id gl) }) }"

definition islocal :: "account \<Rightarrow> gpointer option \<Rightarrow> bool option" where
  "islocal acc unit = (case unit of None \<Rightarrow> Some False | Some p \<Rightarrow> do { u \<leftarrow> get_unit acc p; Some (un_local u) })"

text \<open>\<open>process_flow_data\<close>, in its two halves: the source sends, the destination receives.\<close>

definition charge ::
  "account \<Rightarrow> network \<Rightarrow> flow_data \<Rightarrow> gpointer option \<Rightarrow> gpointer option \<Rightarrow> 16 word \<Rightarrow> guint64 \<Rightarrow> guint64 \<Rightarrow> mbb_stat_pool
     \<Rightarrow> mbb_stat_pool option" where
  "charge acc net fd una unb no nbyte_in nbyte_out pool =
     (case una of
        None \<Rightarrow> Some pool
      | Some p \<Rightarrow>
          do { l \<leftarrow> islocal acc unb;
               if l then Some pool
               else
                 do { i \<leftarrow> get_link_id net (fd_exaddr fd) (ucast no) (fd_begin fd);
                      if i < 0 then Some pool
                      else
                        do { u \<leftarrow> get_unit acc p;
                             Some (mbb_stat_feed pool
                               \<lparr>se_unit_id = word_of_int (un_id u), se_link_id = word_of_int i, se_nbyte_in = nbyte_in,
                                se_nbyte_out = nbyte_out, se_point = fd_begin fd\<rparr>) } } })"

definition process_flow_data :: "account \<Rightarrow> network \<Rightarrow> umap_entry list \<Rightarrow> flow_data \<Rightarrow> mbb_stat_pool \<Rightarrow> mbb_stat_pool option" where
  "process_flow_data acc net umap fd pool =
     do { let una = mbb_umap_find umap (fd_srcaddr fd) (fd_begin fd);
          let unb = mbb_umap_find umap (fd_dstaddr fd) (fd_begin fd);
          pool \<leftarrow> charge acc net fd una unb (fd_output fd) 0 (ucast (fd_nbytes fd)) pool;
          charge acc net fd unb una (fd_input fd) (ucast (fd_nbytes fd)) 0 pool }"

subsection \<open>Frozen maps\<close>

text \<open>A frozen map holds a reference to the unit of each of its entries and gives them back when it is freed.\<close>

definition mbb_unit_ref :: "account \<Rightarrow> gpointer \<Rightarrow> account option" where
  "mbb_unit_ref acc p = do { u \<leftarrow> get_unit acc p; Some (set_unit acc p (u\<lparr>un_nref := un_nref u + 1\<rparr>)) }"

fun fold_acc :: "(account \<Rightarrow> gpointer \<Rightarrow> account option) \<Rightarrow> account \<Rightarrow> gpointer list \<Rightarrow> account option" where
  "fold_acc f acc [] = Some acc"
| "fold_acc f acc (p # ps) = do { acc \<leftarrow> f acc p; fold_acc f acc ps }"

definition umap_units :: "umap_entry list \<Rightarrow> gpointer list" where
  "umap_units umap = concat (map (\<lambda>e. map ud_unit (ue_data e)) umap)"

definition entry_owner :: "account \<Rightarrow> gpointer \<Rightarrow> gpointer" where
  "entry_owner acc p = (case ac_entries acc p of None \<Rightarrow> 0 | Some e \<Rightarrow> pe_owner e)"

definition umap_take :: "account \<Rightarrow> mbb_map \<Rightarrow> (account \<times> umap_entry list option) option" where
  "umap_take acc global_map =
     (case mbb_umap_create (entry_owner acc) global_map of
        None \<Rightarrow> Some (acc, None)
      | Some umap \<Rightarrow> do { acc \<leftarrow> fold_acc mbb_unit_ref acc (umap_units umap); Some (acc, Some umap) })"

definition mbb_umap_free :: "account \<Rightarrow> umap_entry list \<Rightarrow> account option" where
  "mbb_umap_free acc umap = fold_acc mbb_unit_unref acc (umap_units umap)"

subsection \<open>Tasks\<close>

text \<open>
  What the tasks use of the world: the files, the library, the order of the hash tables, and the
  answers of \<open>mbb_task_poll_state\<close>.
\<close>

record flow_env =
  fe_files :: "string \<Rightarrow> ft_open"
  fe_ftltime :: "guint32 \<Rightarrow> guint32 \<Rightarrow> guint32 \<Rightarrow> guint32 \<Rightarrow> time_t"
  fe_ord :: "single_key stat_ht \<Rightarrow> single_key stat_ht"
  fe_ord2 :: "double_key stat_ht \<Rightarrow> double_key stat_ht"
  fe_poll :: "nat \<Rightarrow> bool"

text \<open>
  The data of both tasks: the span is that of an updating task, the plain task has none. The
  number counts the calls of \<open>mbb_task_poll_state\<close>. Beside its own data a task works on the
  memory of the server, which other threads change while it polls.
\<close>

record base_task_data =
  bt_pool :: "mbb_stat_pool option"
  bt_pt :: path_tree
  bt_flow :: "flow_stream option"
  bt_umap :: "umap_entry list"
  bt_span :: "(time_t \<times> time_t) option"
  bt_polls :: nat

type_synonym ('v, 'w, 'i) base_task = "base_task_data \<times> ('v, 'w, 'i) app"

definition path_tree_open_next :: "flow_env \<Rightarrow> base_task_data \<Rightarrow> base_task_data \<times> bool" where
  "path_tree_open_next E td =
     (case path_tree_next (bt_pt td) of
        (pt, None) \<Rightarrow> (td\<lparr>bt_pt := pt\<rparr>, False)
      | (pt, Some fname) \<Rightarrow>
          (case flow_stream_new (fe_files E) fname {} of
             Inr flow \<Rightarrow> (td\<lparr>bt_pt := pt, bt_flow := Some flow, bt_pool := Some mbb_stat_pool_new\<rparr>, True)
           | Inl e \<Rightarrow> (td\<lparr>bt_pt := pt, bt_flow := None\<rparr>, True)))"

definition update_task_init :: "thread_id \<Rightarrow> time_t \<times> time_t \<Rightarrow> ('v, 'w, 'i) base_task \<Rightarrow> (('v, 'w, 'i) base_task \<times> bool) option" where
  "update_task_init t span d =
     (let (td, app) = d in
      do { (db, ok, e) \<leftarrow> mbb_stat_db_wipe (ap_db app) t (fst span) (snd span); Some ((td, app\<lparr>ap_db := db\<rparr>), ok) })"

definition base_task_init :: "thread_id \<Rightarrow> ('v, 'w, 'i) base_task \<Rightarrow> (('v, 'w, 'i) base_task \<times> bool) option" where
  "base_task_init t d =
     (let (td, app) = d; (db, ok) = mbb_stat_pool_init (ap_db app) t; app = app\<lparr>ap_db := db\<rparr>
      in if \<not> ok then Some ((td, app), False)
         else (case bt_span td of None \<Rightarrow> Some ((td, app), True) | Some span \<Rightarrow> update_task_init t span (td, app)))"

text \<open>Both work functions charge the next flow; the updating one only flows that begin in its span.\<close>

definition flow_work :: "flow_env \<Rightarrow> (flow_data \<Rightarrow> bool) \<Rightarrow> ('v, 'w, 'i) base_task \<Rightarrow> (('v, 'w, 'i) base_task \<times> bool) option" where
  "flow_work E takes d =
     (let (td, app) = d in
      do { flow \<leftarrow> bt_flow td;
           let (flow, fd) = flow_stream_read (fe_ftltime E) flow;
           let td = td\<lparr>bt_flow := Some flow\<rparr>;
           (case fd of
              None \<Rightarrow> Some ((td, app), False)
            | Some fd \<Rightarrow>
                if \<not> takes fd then Some ((td, app), True)
                else
                  do { pool \<leftarrow> bt_pool td;
                       pool \<leftarrow> process_flow_data (ap_acc app) (ap_net app) (bt_umap td) fd pool;
                       Some ((td\<lparr>bt_pool := Some pool\<rparr>, app), True) }) })"

definition update_task_work :: "flow_env \<Rightarrow> time_t \<times> time_t \<Rightarrow> ('v, 'w, 'i) base_task \<Rightarrow> (('v, 'w, 'i) base_task \<times> bool) option" where
  "update_task_work E span d = flow_work E (\<lambda>fd. fst span \<le> fd_begin fd \<and> fd_begin fd < snd span) d"

definition plain_task_work :: "flow_env \<Rightarrow> ('v, 'w, 'i) base_task \<Rightarrow> (('v, 'w, 'i) base_task \<times> bool) option" where
  "plain_task_work E d = flow_work E (\<lambda>fd. True) d"

definition op_work :: "flow_env \<Rightarrow> ('v, 'w, 'i) base_task \<Rightarrow> (('v, 'w, 'i) base_task \<times> bool) option" where
  "op_work E d = (case bt_span (fst d) of None \<Rightarrow> plain_task_work E d | Some span \<Rightarrow> update_task_work E span d)"

definition base_task_work :: "flow_env \<Rightarrow> thread_id \<Rightarrow> ('v, 'w, 'i) base_task \<Rightarrow> (('v, 'w, 'i) base_task \<times> bool) option" where
  "base_task_work E t d =
     (case bt_flow (fst d) of
        None \<Rightarrow> (let (td, more) = path_tree_open_next E (fst d) in Some ((td, snd d), more))
      | Some _ \<Rightarrow>
          do { (d, more) \<leftarrow> op_work E d;
               if more then Some (d, True)
               else
                 do { let td = (fst d)\<lparr>bt_flow := None\<rparr>;
                      pool \<leftarrow> bt_pool td;
                      (db, n) \<leftarrow> mbb_stat_pool_save (fe_ord E) (fe_ord2 E) (fe_poll E) (ap_db (snd d)) (bt_polls td) t pool;
                      Some ((td\<lparr>bt_pool := None, bt_polls := n\<rparr>, (snd d)\<lparr>ap_db := db\<rparr>), True) } })"

definition base_task_free :: "('v, 'w, 'i) base_task \<Rightarrow> ('v, 'w, 'i) base_task option" where
  "base_task_free d =
     (let (td, app) = d in
      do { acc \<leftarrow> mbb_umap_free (ap_acc app) (bt_umap td);
           Some (td\<lparr>bt_pool := None, bt_flow := None, bt_pt := \<lparr>pt_array = [], pt_cur = 0\<rparr>, bt_umap := []\<rparr>, app\<lparr>ap_acc := acc\<rparr>) })"

definition base_task_hook :: "flow_env \<Rightarrow> thread_id \<Rightarrow> (('v, 'w, 'i) base_task) mbb_task_hook" where
  "base_task_hook E t = \<lparr>th_init = Some (base_task_init t), th_fini = Some base_task_free, th_work = Some (base_task_work E t)\<rparr>"

definition base_task_data_new :: "umap_entry list \<Rightarrow> path_tree \<Rightarrow> (time_t \<times> time_t) option \<Rightarrow> base_task_data" where
  "base_task_data_new umap pt span = \<lparr>bt_pool = None, bt_pt = pt, bt_flow = None, bt_umap = umap, bt_span = span, bt_polls = 0\<rparr>"

record feed_task_data =
  ft_pool :: "mbb_stat_pool option"
  ft_flow :: flow_stream
  ft_umap :: "umap_entry list"
  ft_polls :: nat
  ft_freed :: bool

type_synonym ('v, 'w, 'i) feed_task = "feed_task_data \<times> ('v, 'w, 'i) app"

definition feed_stat_init :: "thread_id \<Rightarrow> ('v, 'w, 'i) feed_task \<Rightarrow> (('v, 'w, 'i) feed_task \<times> bool) option" where
  "feed_stat_init t d =
     (let (td, app) = d; (db, ok) = mbb_stat_pool_init (ap_db app) t; app = app\<lparr>ap_db := db\<rparr>
      in if \<not> ok then Some ((td, app), False) else Some ((td\<lparr>ft_pool := Some mbb_stat_pool_new\<rparr>, app), True))"

definition feed_stat_work :: "flow_env \<Rightarrow> thread_id \<Rightarrow> ('v, 'w, 'i) feed_task \<Rightarrow> (('v, 'w, 'i) feed_task \<times> bool) option" where
  "feed_stat_work E t d =
     (let (td, app) = d; (flow, fd) = flow_stream_read (fe_ftltime E) (ft_flow td); td = td\<lparr>ft_flow := flow\<rparr> in
      do { pool \<leftarrow> ft_pool td;
           (case fd of
              Some fd \<Rightarrow>
                do { pool \<leftarrow> process_flow_data (ap_acc app) (ap_net app) (ft_umap td) fd pool;
                     Some ((td\<lparr>ft_pool := Some pool\<rparr>, app), True) }
            | None \<Rightarrow>
                do { (db, n) \<leftarrow> mbb_stat_pool_save (fe_ord E) (fe_ord2 E) (fe_poll E) (ap_db app) (ft_polls td) t pool;
                     Some ((td\<lparr>ft_pool := None, ft_polls := n\<rparr>, app\<lparr>ap_db := db\<rparr>), False) }) })"

text \<open>Freeing the data a second time is undefined.\<close>

definition feed_stat_free :: "('v, 'w, 'i) feed_task \<Rightarrow> ('v, 'w, 'i) feed_task option" where
  "feed_stat_free d =
     (let (td, app) = d in
      if ft_freed td then None
      else do { acc \<leftarrow> mbb_umap_free (ap_acc app) (ft_umap td);
                Some (td\<lparr>ft_pool := None, ft_umap := [], ft_freed := True\<rparr>, app\<lparr>ap_acc := acc\<rparr>) })"

definition feed_stat_hook :: "flow_env \<Rightarrow> thread_id \<Rightarrow> (('v, 'w, 'i) feed_task) mbb_task_hook" where
  "feed_stat_hook E t = \<lparr>th_init = Some (feed_stat_init t), th_fini = Some feed_stat_free, th_work = Some (feed_stat_work E t)\<rparr>"

subsection \<open>Commands\<close>

text \<open>
  The server with its tasks and the global map. \<open>dir_at\<close> reads the text behind the session
  variable at \<open>nf_data_var\<close>; the new thread has the number \<open>t'\<close>, its task the address \<open>p\<close>.
\<close>

record ('v, 'w, 'i) nf_srv =
  ns_ts :: "('v, 'w, 'i) app task_srv"
  ns_map :: mbb_map

record ('v, 'w, 'i) nf_env =
  ne_flow :: flow_env
  ne_glob :: "string \<Rightarrow> string list"
  ne_ftw :: "string \<Rightarrow> string list"
  ne_dir_at :: "gpointer \<Rightarrow> ('v, 'w, 'i) app \<Rightarrow> string option"
  ne_data_var :: gpointer
  ne_xtv :: xtv_env
  ne_dates :: date_env
  ne_task :: gpointer
  ne_thread :: thread_id
  ne_now :: time_t
  ne_started :: bool

definition nf_app :: "('v, 'w, 'i) nf_srv \<Rightarrow> ('v, 'w, 'i) app" where "nf_app st = sv_mem (ts_srv (ns_ts st))"

definition nf_set_app :: "('v, 'w, 'i) nf_srv \<Rightarrow> ('v, 'w, 'i) app \<Rightarrow> ('v, 'w, 'i) nf_srv" where
  "nf_set_app st app = st\<lparr>ns_ts := (ns_ts st)\<lparr>ts_srv := (ts_srv (ns_ts st))\<lparr>sv_mem := app\<rparr>\<rparr>\<rparr>"

definition mbb_xml_msg_task_id :: "gint \<Rightarrow> xml_tag" where
  "mbb_xml_msg_task_id i = xml_tag_new_child mbb_xml_msg_ok ''task'' [(''id'', variant_new_int i)]"

definition netflow_get_data_dir ::
  "('v, 'w, 'i) nf_env \<Rightarrow> ('v, 'w, 'i) nf_srv \<Rightarrow> thread_id \<Rightarrow> (('v, 'w, 'i) nf_srv \<times> string option) option" where
  "netflow_get_data_dir N st t =
     do { (srv, data) \<leftarrow> mbb_session_var_get_data (ts_srv (ns_ts st)) t (ne_data_var N);
          Some (st\<lparr>ns_ts := (ns_ts st)\<lparr>ts_srv := srv\<rparr>\<rparr>, ne_dir_at N data (sv_mem srv)) }"

definition nf_error :: "'s \<Rightarrow> string \<Rightarrow> 's reply" where
  "nf_error st msg = do { ans \<leftarrow> mbb_xml_msg_error (Some msg) []; Some (st, Some ans) }"

fun file_tags :: "string list \<Rightarrow> xml_tag \<Rightarrow> xml_tag" where
  "file_tags [] tag = tag"
| "file_tags (s # ss) tag = file_tags ss (xml_tag_new_child tag ''file'' [(''path'', variant_new_string (Some s))])"

definition netflow_file_list ::
  "('v, 'w, 'i) nf_env \<Rightarrow> ('v, 'w, 'i) nf_srv \<Rightarrow> thread_id \<Rightarrow> xml_tag \<Rightarrow> ('v, 'w, 'i) nf_srv reply" where
  "netflow_file_list N st t tag =
     (let list = xml_tag_path_attr_list tag ''glob'' ''value''
      in if list = [] then Some (st, Some mbb_xml_msg_ok)
         else
           do { (st, rpath) \<leftarrow> netflow_get_data_dir N st t;
                patterns \<leftarrow> get_name_list (rev list);
                Some (st, Some (case path_tree_walk (ne_glob N) (ne_ftw N) rpath patterns of
                   None \<Rightarrow> mbb_xml_msg_ok
                 | Some pt \<Rightarrow> file_tags (drop (pt_cur pt) (pt_array pt)) mbb_xml_msg_ok)) })"

text \<open>The map that is frozen takes references under the lock of the readers.\<close>

definition nf_take_umap :: "('v, 'w, 'i) nf_srv \<Rightarrow> (('v, 'w, 'i) nf_srv \<times> umap_entry list option) option" where
  "nf_take_umap st =
     do { (acc, umap) \<leftarrow> umap_take (ap_acc (nf_app st)) (ns_map st);
          Some (nf_set_app st ((nf_app st)\<lparr>ap_acc := acc\<rparr>), umap) }"

definition base_task_do ::
  "('v, 'w, 'i) nf_env \<Rightarrow> ('v, 'w, 'i) nf_srv \<Rightarrow> thread_id \<Rightarrow> string list \<Rightarrow> (time_t \<times> time_t) option \<Rightarrow> ('v, 'w, 'i) nf_srv reply" where
  "base_task_do N st t patterns span =
     do { (st, rpath) \<leftarrow> netflow_get_data_dir N st t;
          (case path_tree_walk (ne_glob N) (ne_ftw N) rpath patterns of
             None \<Rightarrow> nf_error st ''no such files''
           | Some pt \<Rightarrow>
               do { (st, umap) \<leftarrow> nf_take_umap st;
                    (case umap of
                       None \<Rightarrow> nf_error st ''empty inet map''
                     | Some umap \<Rightarrow>
                         do { (ts, d, i) \<leftarrow> mbb_task_create (ns_ts st) t (ne_task N) (ne_now N) (ne_started N)
                                (if span = None then ''netflow-stat-plain'' else ''netflow-stat-update'')
                                (base_task_hook (ne_flow N) (ne_thread N)) (base_task_data_new umap pt span, nf_app st);
                              let st = nf_set_app (st\<lparr>ns_ts := ts\<rparr>) (snd d);
                              if i < 0 then reply_msg st MBB_MSG_TASK_CREATE_FAILED [] else Some (st, Some (mbb_xml_msg_task_id i)) }) }) }"

definition netflow_get_glob_list :: "xml_tag \<Rightarrow> variant list option" where
  "netflow_get_glob_list tag = (let list = xml_tag_path_attr_list tag ''glob'' ''value'' in if list = [] then None else Some list)"

definition update_stat :: "('v, 'w, 'i) nf_env \<Rightarrow> ('v, 'w, 'i) nf_srv \<Rightarrow> thread_id \<Rightarrow> xml_tag \<Rightarrow> ('v, 'w, 'i) nf_srv reply" where
  "update_stat N st t tag =
     with_args st tag [(xtv_time_start (ne_xtv N), False), (xtv_time_end (ne_xtv N), True), (xtv_time_period, True)] (\<lambda>vs.
       case vs of
         [Some (XV_Time start), fin, period] \<Rightarrow>
           do { r \<leftarrow> parse_time_args (xe_cal (ne_xtv N)) (ne_dates N) start (xv_time VAR_CONV_TIME_UNSET fin) (xv_str period) None;
                (case r of
                   Inl ans \<Rightarrow> Some (st, Some ans)
                 | Inr span \<Rightarrow>
                     (case netflow_get_glob_list tag of
                        None \<Rightarrow> nf_error st ''nothing to do''
                      | Some list \<Rightarrow> do { patterns \<leftarrow> get_name_list list; base_task_do N st t patterns (Some span) })) }
       | _ \<Rightarrow> None)"

definition plain_stat :: "('v, 'w, 'i) nf_env \<Rightarrow> ('v, 'w, 'i) nf_srv \<Rightarrow> thread_id \<Rightarrow> xml_tag \<Rightarrow> ('v, 'w, 'i) nf_srv reply" where
  "plain_stat N st t tag =
     (case netflow_get_glob_list tag of
        None \<Rightarrow> nf_error st ''nothing to do''
      | Some list \<Rightarrow> do { patterns \<leftarrow> get_name_list list; base_task_do N st t patterns None })"

definition flow_from_tag ::
  "('v, 'w, 'i) nf_env \<Rightarrow> ('v, 'w, 'i) nf_srv \<Rightarrow> thread_id \<Rightarrow> xml_tag \<Rightarrow> (('v, 'w, 'i) nf_srv \<times> (xml_tag + flow_stream)) option" where
  "flow_from_tag N st t tag =
     (case xml_tag_path_attr tag (Some ''file'') ''name'' of
        None \<Rightarrow> do { ans \<leftarrow> mbb_xml_msg_error (Some ''file argument missed'') []; Some (st, Inl ans) }
      | Some var \<Rightarrow>
          do { tmp \<leftarrow> variant_get_string var;
               (st, name) \<leftarrow> (if peek tmp = CHR ''/'' then Some (st, Some tmp)
                             else do { (st, dir) \<leftarrow> netflow_get_data_dir N st t; Some (st, map_option (\<lambda>s. s @ tmp) dir) });
               (case name of
                  None \<Rightarrow> do { ans \<leftarrow> mbb_xml_msg_error (Some ''netflow data dir not set'') []; Some (st, Inl ans) }
                | Some name \<Rightarrow>
                    (case flow_stream_new (fe_files (ne_flow N)) name {} of
                       Inr flow \<Rightarrow> Some (st, Inr flow)
                     | Inl (e, msg) \<Rightarrow> do { ans \<leftarrow> mbb_xml_msg_error (Some ''invalid netflow file: %s'') [PF_S (Some msg)]; Some (st, Inl ans) })) })"

definition feed_stat :: "('v, 'w, 'i) nf_env \<Rightarrow> ('v, 'w, 'i) nf_srv \<Rightarrow> thread_id \<Rightarrow> xml_tag \<Rightarrow> ('v, 'w, 'i) nf_srv reply" where
  "feed_stat N st t tag =
     do { (st, flow) \<leftarrow> flow_from_tag N st t tag;
          (case flow of
             Inl ans \<Rightarrow> Some (st, Some ans)
           | Inr flow \<Rightarrow>
               do { (st, umap) \<leftarrow> nf_take_umap st;
                    (case umap of
                       None \<Rightarrow> nf_error st ''empty inet map''
                     | Some umap \<Rightarrow>
                         do { (ts, d, i) \<leftarrow> mbb_task_create (ns_ts st) t (ne_task N) (ne_now N) (ne_started N) ''netflow-stat-feed''
                                (feed_stat_hook (ne_flow N) (ne_thread N))
                                (\<lparr>ft_pool = None, ft_flow = flow, ft_umap = umap, ft_polls = 0, ft_freed = False\<rparr>, nf_app st);
                              if i < 0
                              then do { d \<leftarrow> feed_stat_free d;
                                        reply_msg (nf_set_app (st\<lparr>ns_ts := ts\<rparr>) (snd d)) MBB_MSG_TASK_CREATE_FAILED [] }
                              else Some (nf_set_app (st\<lparr>ns_ts := ts\<rparr>) (snd d), Some (mbb_xml_msg_task_id i)) }) }) }"

end
