(* ===== verification/Flow_Charge.thy ===== *)
theory Flow_Charge
  imports Netflow
begin

text \<open>
  What the tasks of \<open>Netflow\<close> achieve: the bytes of the flows are summed for exactly the units
  and links that the frozen map and the gateways name, the references of a frozen map balance,
  and a task ends whatever other threads do between its rounds.
\<close>

section \<open>Charging\<close>

text \<open>
  What a flow is charged to, independent of the data structures: \<open>unit_at\<close> is the unit that the
  frozen map names for an address when the flow begins, \<open>flow_link\<close> says that the gateway which
  exported the flow has a link with an interface number that is valid then.
\<close>

definition unit_at :: "account \<Rightarrow> umap_entry list \<Rightarrow> ipv4_t \<Rightarrow> time_t \<Rightarrow> mbb_unit option" where
  "unit_at acc umap ip t = (case mbb_umap_find umap ip t of None \<Rightarrow> None | Some p \<Rightarrow> get_unit acc p)"

definition flow_link :: "network \<Rightarrow> flow_data \<Rightarrow> 16 word \<Rightarrow> int \<Rightarrow> bool" where
  "flow_link net fd no i \<longleftrightarrow> (\<exists>p gl g. dm_heap (nw_links net) p = Some gl \<and> gl_id gl = i \<and> gl_link gl = ucast no \<and>
     link_admits gl (fd_begin fd) \<and> dm_heap (nw_gws net) (gl_gw gl) = Some g \<and> gw_addr g = fd_exaddr fd)"

definition charged :: "account \<Rightarrow> network \<Rightarrow> umap_entry list \<Rightarrow> flow_data \<Rightarrow> ipv4_t \<Rightarrow> ipv4_t \<Rightarrow> 16 word \<Rightarrow> guint32 \<Rightarrow> guint32 \<Rightarrow> bool" where
  "charged acc net umap fd this that no u l \<longleftrightarrow>
     (\<exists>x. unit_at acc umap this (fd_begin fd) = Some x \<and> word_of_int (un_id x) = u) \<and>
     (\<forall>y. unit_at acc umap that (fd_begin fd) = Some y \<longrightarrow> \<not> un_local y) \<and>
     (\<exists>i \<ge> 0. flow_link net fd no i \<and> word_of_int i = l)"

definition sends :: "account \<Rightarrow> network \<Rightarrow> umap_entry list \<Rightarrow> flow_data \<Rightarrow> guint32 \<Rightarrow> guint32 \<Rightarrow> bool" where
  "sends acc net umap fd u l = charged acc net umap fd (fd_srcaddr fd) (fd_dstaddr fd) (fd_output fd) u l"

definition receives :: "account \<Rightarrow> network \<Rightarrow> umap_entry list \<Rightarrow> flow_data \<Rightarrow> guint32 \<Rightarrow> guint32 \<Rightarrow> bool" where
  "receives acc net umap fd u l = charged acc net umap fd (fd_dstaddr fd) (fd_srcaddr fd) (fd_input fd) u l"

definition units_alive :: "account \<Rightarrow> umap_entry list \<Rightarrow> bool" where
  "units_alive acc umap \<longleftrightarrow> (\<forall>p \<in> set (umap_units umap). get_unit acc p \<noteq> None)"

lemma find_link_defined:
  assumes inv: "net_inv net" and t: "t \<noteq> 0"
  shows "\<exists>r. mbb_gateway_find_link net ip link t = Some r"
proof (cases "mbb_gateway_get_by_addr net ip")
  case (Some gw)
  then obtain g where g: "dm_heap (nw_gws net) gw = Some g" using get_by_addr [OF net_invD(1) [OF inv], of ip gw] by auto
  with get_link_finds [OF g refs_okD(2) [OF net_invD(4) [OF inv] g] t, of link] Some show ?thesis
    by (auto simp: mbb_gateway_find_link_def)
qed (simp add: mbb_gateway_find_link_def)

lemma get_link_id_spec:
  assumes inv: "net_inv net" and t: "fd_begin fd \<noteq> 0"
  obtains i where "get_link_id net (fd_exaddr fd) (ucast no) (fd_begin fd) = Some i"
    "\<And>j. 0 \<le> j \<Longrightarrow> flow_link net fd no j \<longleftrightarrow> i = j"
proof -
  obtain r where r: "mbb_gateway_find_link net (fd_exaddr fd) (ucast no) (fd_begin fd) = Some r" using find_link_defined [OF assms] by blast
  note ex = find_link_exact [OF inv t, of "fd_exaddr fd" "ucast no", unfolded r]
  show thesis
  proof (cases r)
    case None
    with ex have "\<not> flow_link net fd no j" for j by (auto simp: flow_link_def)
    with that [of "- 1"] r None show ?thesis by (simp add: get_link_id_def)
  next
    case (Some p)
    with ex obtain gl where gl: "dm_heap (nw_links net) p = Some gl" by auto
    have "flow_link net fd no j \<longleftrightarrow> gl_id gl = j" for j
      using ex Some gl unfolding flow_link_def by (metis option.inject)
    with that [of "gl_id gl"] r Some gl show ?thesis by (simp add: get_link_id_def)
  qed
qed

text \<open>The entry that one half of \<open>process_flow_data\<close> feeds, if any.\<close>

definition charge_entry ::
  "account \<Rightarrow> network \<Rightarrow> umap_entry list \<Rightarrow> flow_data \<Rightarrow> ipv4_t \<Rightarrow> ipv4_t \<Rightarrow> 16 word \<Rightarrow> guint64 \<Rightarrow> guint64 \<Rightarrow> mbb_stat_entry list" where
  "charge_entry acc net umap fd this that no a b =
     (case (unit_at acc umap this (fd_begin fd), unit_at acc umap that (fd_begin fd), get_link_id net (fd_exaddr fd) (ucast no) (fd_begin fd)) of
        (Some x, y, Some i) \<Rightarrow>
          if (case y of None \<Rightarrow> False | Some y \<Rightarrow> un_local y) \<or> i < 0 then []
          else [\<lparr>se_unit_id = word_of_int (un_id x), se_link_id = word_of_int i, se_nbyte_in = a, se_nbyte_out = b, se_point = fd_begin fd\<rparr>]
      | _ \<Rightarrow> [])"

lemma data_search_unit: "data_search_loop t ds = Some p \<Longrightarrow> p \<in> ud_unit ` set ds"
  by (induction ds) (auto split: if_splits)

lemma umap_find_unit:
  assumes "mbb_umap_find umap ip t = Some p" "umap_sorted umap"
  shows "p \<in> set (umap_units umap)"
proof -
  obtain e where e: "umap_bsearch umap ip = Some e" "umap_data_search (ue_data e) t = Some p"
    using assms(1) by (auto simp: mbb_umap_find_def split: option.splits)
  have "p \<in> ud_unit ` set (ue_data e)"
    using e(2) by (cases "ue_data e") (auto split: if_splits dest: data_search_unit)
  moreover have "e \<in> set umap" using umap_bsearch_spec [OF assms(2), of ip] e(1) by simp
  ultimately show ?thesis by (auto simp: umap_units_def)
qed

lemma charge_eq:
  assumes "net_inv net" "fd_begin fd \<noteq> 0" "units_alive acc umap" "umap_sorted umap"
  shows "charge acc net fd (mbb_umap_find umap this (fd_begin fd)) (mbb_umap_find umap that (fd_begin fd)) no a b pool =
     Some (foldl mbb_stat_feed pool (charge_entry acc net umap fd this that no a b))"
proof -
  have alive: "\<exists>u. get_unit acc p = Some u" if "mbb_umap_find umap ip (fd_begin fd) = Some p" for ip p
    using that assms(3,4) umap_find_unit by (force simp: units_alive_def)
  obtain i where "get_link_id net (fd_exaddr fd) (ucast no) (fd_begin fd) = Some i" using get_link_id_spec [OF assms(1,2)] by metis
  then show ?thesis
    by (auto simp: charge_def charge_entry_def unit_at_def islocal_def dest: alive split: option.splits)
qed

lemma charge_entry_charged:
  assumes "net_inv net" "fd_begin fd \<noteq> 0"
  shows "filter (\<lambda>e. entry_hour e = h \<and> se_unit_id e = u \<and> se_link_id e = l) (charge_entry acc net umap fd this that no a b) =
    (if mbb_stat_extract_hour (fd_begin fd) = h \<and> charged acc net umap fd this that no u l
     then [\<lparr>se_unit_id = u, se_link_id = l, se_nbyte_in = a, se_nbyte_out = b, se_point = fd_begin fd\<rparr>] else [])"
proof -
  obtain i where i: "get_link_id net (fd_exaddr fd) (ucast no) (fd_begin fd) = Some i" "\<And>j. 0 \<le> j \<Longrightarrow> flow_link net fd no j \<longleftrightarrow> i = j"
    using get_link_id_spec [OF assms] by metis
  then have "(\<exists>i \<ge> 0. flow_link net fd no i \<and> word_of_int i = l) \<longleftrightarrow> 0 \<le> i \<and> word_of_int i = l" by auto
  then show ?thesis using i(1)
    by (auto simp: charge_entry_def charged_def entry_hour_def split: option.splits)
qed

text \<open>Charging a list of flows, as a task does with the flows of a file.\<close>

fun process_all :: "account \<Rightarrow> network \<Rightarrow> umap_entry list \<Rightarrow> flow_data list \<Rightarrow> mbb_stat_pool \<Rightarrow> mbb_stat_pool option" where
  "process_all acc net umap [] pool = Some pool"
| "process_all acc net umap (fd # fds) pool = do { pool \<leftarrow> process_flow_data acc net umap fd pool; process_all acc net umap fds pool }"

definition flow_entries :: "account \<Rightarrow> network \<Rightarrow> umap_entry list \<Rightarrow> flow_data \<Rightarrow> mbb_stat_entry list" where
  "flow_entries acc net umap fd =
     charge_entry acc net umap fd (fd_srcaddr fd) (fd_dstaddr fd) (fd_output fd) 0 (ucast (fd_nbytes fd)) @
     charge_entry acc net umap fd (fd_dstaddr fd) (fd_srcaddr fd) (fd_input fd) (ucast (fd_nbytes fd)) 0"

lemma process_all_eq:
  assumes "net_inv net" "units_alive acc umap" "umap_sorted umap" "\<forall>fd \<in> set fds. fd_begin fd \<noteq> 0"
  shows "process_all acc net umap fds pool = Some (foldl mbb_stat_feed pool (concat (map (flow_entries acc net umap) fds)))"
  using assms(4)
  by (induction fds arbitrary: pool) (auto simp: process_flow_data_def charge_eq [OF assms(1) _ assms(2,3)] flow_entries_def Let_def)

text \<open>The flows that a unit sent or received over a link in an hour, and their bytes.\<close>

definition bytes :: "flow_data list \<Rightarrow> guint64" where "bytes fds = sum_list (map (\<lambda>fd. ucast (fd_nbytes fd)) fds)"

lemma entries_sums:
  fixes acc umap h u l
  assumes "net_inv net" "\<forall>fd \<in> set fds. fd_begin fd \<noteq> 0"
  defines "out \<equiv> filter (\<lambda>fd. mbb_stat_extract_hour (fd_begin fd) = h \<and> sends acc net umap fd u l) fds"
    and "inn \<equiv> filter (\<lambda>fd. mbb_stat_extract_hour (fd_begin fd) = h \<and> receives acc net umap fd u l) fds"
    and "es \<equiv> filter (\<lambda>e. entry_hour e = h \<and> se_unit_id e = u \<and> se_link_id e = l) (concat (map (flow_entries acc net umap) fds))"
  shows "es = [] \<longleftrightarrow> out = [] \<and> inn = []" "rec_sum se_nbyte_in se_nbyte_out es = \<lparr>sr_nbyte_in = bytes inn, sr_nbyte_out = bytes out\<rparr>"
proof -
  have "(es = [] \<longleftrightarrow> out = [] \<and> inn = []) \<and> rec_sum se_nbyte_in se_nbyte_out es = \<lparr>sr_nbyte_in = bytes inn, sr_nbyte_out = bytes out\<rparr>"
    unfolding out_def inn_def es_def using assms(2)
    by (induction fds) (auto simp: flow_entries_def charge_entry_charged [OF assms(1)] sends_def receives_def rec_sum_def bytes_def)
  then show "es = [] \<longleftrightarrow> out = [] \<and> inn = []" "rec_sum se_nbyte_in se_nbyte_out es = \<lparr>sr_nbyte_in = bytes inn, sr_nbyte_out = bytes out\<rparr>"
    by simp_all
qed

text \<open>
  C10. Charging a list of flows never fails while the network is consistent and the units of the
  frozen map are alive, and a new pool then has for every hour, unit and link exactly the bytes
  of the flows that began in that hour: sent, where the map names the unit for the source, the
  link is the one of the exporting gateway for the outgoing interface at that time and the
  other end is no local unit; received, with source and destination exchanged and the incoming
  interface. Where no flow qualifies there is no record.
\<close>

theorem flows_charged:
  assumes "net_inv net" "units_alive acc umap" "umap_sorted umap" "\<forall>fd \<in> set fds. fd_begin fd \<noteq> 0"
  shows "\<exists>pool. process_all acc net umap fds mbb_stat_pool_new = Some pool \<and>
    (\<forall>h u l. map_of (sp_ulstat pool) \<lparr>dk_point = h, dk_aid = u, dk_bid = l\<rparr> =
       (let out = filter (\<lambda>fd. mbb_stat_extract_hour (fd_begin fd) = h \<and> sends acc net umap fd u l) fds;
            inn = filter (\<lambda>fd. mbb_stat_extract_hour (fd_begin fd) = h \<and> receives acc net umap fd u l) fds
        in if out = [] \<and> inn = [] then None else Some \<lparr>sr_nbyte_in = bytes inn, sr_nbyte_out = bytes out\<rparr>))"
proof -
  let ?es = "concat (map (flow_entries acc net umap) fds)"
  have "process_all acc net umap fds mbb_stat_pool_new = Some (fed_pool ?es)"
    using process_all_eq [OF assms] by (simp add: fed_pool_def)
  moreover have "map_of (sp_ulstat (fed_pool ?es)) \<lparr>dk_point = h, dk_aid = u, dk_bid = l\<rparr> =
      (let xs = filter (\<lambda>e. entry_hour e = h \<and> se_unit_id e = u \<and> se_link_id e = l) ?es
       in if xs = [] then None else Some (rec_sum se_nbyte_in se_nbyte_out xs))" for h u l
    by (auto simp: fed_pool_tables double_table.table_lookup Let_def filter_empty_conv image_iff)
  ultimately show ?thesis
    unfolding Let_def entries_sums [OF assms(1,4)] by blast
qed

text \<open>A unit sends 100 bytes over a link.\<close>

definition acc2 :: account where
  "acc2 = account0\<lparr>ac_units := \<lparr>dm_link = None, dm_heap = [32 \<mapsto> mbb_unit_new 1 ''u'' 0 0]\<rparr>\<rparr>"

definition umap2 :: "umap_entry list" where
  "umap2 = [\<lparr>ue_data = [\<lparr>ud_unit = 32, ud_min = 0, ud_max = 0\<rparr>], ue_min = 5, ue_max = 5\<rparr>]"

definition flow2 :: flow_data where
  "flow2 = \<lparr>fd_srcaddr = 5, fd_dstaddr = 6, fd_exaddr = 10, fd_nbytes = 100, fd_input = 4, fd_output = 3, fd_srcport = None,
     fd_dstport = None, fd_proto = None, fd_begin = 15\<rparr>"

lemma world2: "units_alive acc2 umap2" "umap_sorted umap2"
  by (simp_all add: units_alive_def umap_units_def umap2_def acc2_def get_unit_def umap_sorted_def)

lemma flow2_charged: "sends acc2 net3 umap2 flow2 1 1" "\<not> receives acc2 net3 umap2 flow2 1 1"
proof -
  have f: "mbb_umap_find umap2 5 15 = Some 32" "mbb_umap_find umap2 6 15 = None"
    by (simp_all add: mbb_umap_find_def umap2_def umap_bsearch_def bsearch_loop.simps)
  have "flow_link net3 flow2 3 1"
    unfolding flow_link_def
    by (rule exI [of _ 32]) (simp add: net3_def net_defs flow2_def link_admits_def admits_def)
  with f show "sends acc2 net3 umap2 flow2 1 1"
    by (auto simp: sends_def charged_def unit_at_def flow2_def acc2_def get_unit_def mbb_unit_new_def intro!: exI [of _ 1])
  show "\<not> receives acc2 net3 umap2 flow2 1 1" using f by (simp add: receives_def charged_def unit_at_def flow2_def)
qed

theorem flows_charged_witness:
  "\<exists>pool. process_all acc2 net3 umap2 [flow2] mbb_stat_pool_new = Some pool \<and>
     map_of (sp_ulstat pool) \<lparr>dk_point = 0, dk_aid = 1, dk_bid = 1\<rparr> = Some \<lparr>sr_nbyte_in = 0, sr_nbyte_out = 100\<rparr>"
proof -
  have "mbb_stat_extract_hour (fd_begin flow2) = 0" by (simp add: flow2_def) code_simp
  with flows_charged [OF net3_inv world2, of "[flow2]"] flow2_charged show ?thesis
    by (force simp: Let_def bytes_def flow2_def)
qed

section \<open>References of a frozen map\<close>

text \<open>The account with the references of a list of units added.\<close>

definition with_refs :: "account \<Rightarrow> gpointer list \<Rightarrow> account" where
  "with_refs acc ps = acc\<lparr>ac_units := (ac_units acc)\<lparr>dm_heap :=
     (\<lambda>p. map_option (\<lambda>u. u\<lparr>un_nref := un_nref u + int (count_list ps p)\<rparr>) (dm_heap (ac_units acc) p))\<rparr>\<rparr>"

lemma with_refs_Nil: "with_refs acc [] = acc"
  by (simp add: with_refs_def option.map_ident)

lemma fold_ref:
  "\<forall>p \<in> set ps. get_unit acc p \<noteq> None \<Longrightarrow> fold_acc mbb_unit_ref (with_refs acc qs) ps = Some (with_refs acc (rev ps @ qs))"
proof (induction ps arbitrary: qs)
  case (Cons p ps)
  obtain u where u: "get_unit acc p = Some u" using Cons.prems by auto
  have "mbb_unit_ref (with_refs acc qs) p = Some (with_refs acc (p # qs))"
    using u by (auto simp: mbb_unit_ref_def with_refs_def get_unit_def set_unit_def fun_eq_iff)
  with Cons show ?case by simp
qed simp

lemma fold_unref:
  assumes "\<And>p u. get_unit acc p = Some u \<Longrightarrow> 0 < un_nref u"
  shows "\<forall>p \<in> set ps. get_unit acc p \<noteq> None \<Longrightarrow> fold_acc mbb_unit_unref (with_refs acc (ps @ qs)) ps = Some (with_refs acc qs)"
proof (induction ps)
  case (Cons p ps)
  obtain u where u: "get_unit acc p = Some u" "0 < un_nref u" using Cons.prems assms by auto
  have "mbb_unit_unref (with_refs acc (p # ps @ qs)) p = Some (with_refs acc (ps @ qs))"
    using u by (auto simp: mbb_unit_unref_def with_refs_def get_unit_def set_unit_def fun_eq_iff Let_def)
  with Cons show ?case by simp
qed simp

lemma with_refs_rev: "with_refs acc (rev ps) = with_refs acc ps"
  by (simp add: with_refs_def)

text \<open>A frozen map that is made and freed leaves the counts of all units as they were.\<close>

lemma umap_refs_balance:
  assumes "umap_take acc gm = Some (acc', Some umap)" "\<And>p u. get_unit acc p = Some u \<Longrightarrow> 0 < un_nref u"
    and alive: "units_alive acc umap"
  shows "mbb_umap_free acc' umap = Some acc"
proof -
  let ?ps = "umap_units umap"
  have a: "\<forall>p \<in> set ?ps. get_unit acc p \<noteq> None" using alive by (simp add: units_alive_def)
  have "acc' = with_refs acc ?ps"
    using assms(1) fold_ref [OF a, of "[]"] by (auto simp: umap_take_def with_refs_Nil with_refs_rev split: option.splits bind_splits)
  then show ?thesis using fold_unref [OF assms(2) a, where qs = "[]"] by (simp add: mbb_umap_free_def with_refs_Nil)
qed

section \<open>A task ends\<close>

text \<open>What is left to read: the flows of the open file and its end, and two rounds more than the flows of each further file.\<close>

definition file_left :: "flow_env \<Rightarrow> string \<Rightarrow> nat" where
  "file_left E f = 2 + (case fe_files E f of Stream x \<Rightarrow> length (ff_recs x) | _ \<Rightarrow> 0)"

definition task_left :: "flow_env \<Rightarrow> base_task_data \<Rightarrow> nat" where
  "task_left E td = (case bt_flow td of None \<Rightarrow> 0 | Some f \<Rightarrow> Suc (length (fl_recs f))) +
     sum_list (map (file_left E) (drop (pt_cur (bt_pt td)) (pt_array (bt_pt td))))"

definition task_ok :: "thread_id \<Rightarrow> ('w, 'i) mbb_db \<Rightarrow> gpointer \<Rightarrow> ('v, 'w, 'i) base_task \<Rightarrow> bool" where
  "task_ok t db conn d \<longleftrightarrow> (bt_flow (fst d) \<noteq> None \<longrightarrow> bt_pool (fst d) \<noteq> None) \<and> net_inv (ap_net (snd d)) \<and>
     units_alive (ap_acc (snd d)) (bt_umap (fst d)) \<and> umap_sorted (bt_umap (fst d)) \<and> private_conn (ap_db (snd d)) t db conn"

lemma open_next:
  assumes "path_tree_open_next E td = (td', go)" "bt_flow td = None"
  shows "go \<longrightarrow> task_left E td' < task_left E td" "\<not> go \<longrightarrow> td' = td \<and> length (pt_array (bt_pt td)) \<le> pt_cur (bt_pt td)"
    "bt_flow td' \<noteq> None \<longrightarrow> bt_pool td' \<noteq> None" "bt_umap td' = bt_umap td"
proof -
  have "drop (pt_cur (bt_pt td)) (pt_array (bt_pt td)) = pt_array (bt_pt td) ! pt_cur (bt_pt td) # drop (Suc (pt_cur (bt_pt td))) (pt_array (bt_pt td))"
    if "pt_cur (bt_pt td) < length (pt_array (bt_pt td))" using that by (simp add: Cons_nth_drop_Suc)
  then show "go \<longrightarrow> task_left E td' < task_left E td" "\<not> go \<longrightarrow> td' = td \<and> length (pt_array (bt_pt td)) \<le> pt_cur (bt_pt td)"
    "bt_flow td' \<noteq> None \<longrightarrow> bt_pool td' \<noteq> None" "bt_umap td' = bt_umap td"
    using assms
    by (auto simp: path_tree_open_next_def path_tree_next_def flow_stream_new_def task_left_def file_left_def Let_def
      split: if_splits sum.splits ft_open.splits)
qed

lemma flow_work_ok:
  assumes ok: "task_ok t db conn d" "bt_flow (fst d) \<noteq> None" and times: "\<And>a b c d. fe_ftltime E a b c d \<noteq> 0"
  obtains td go where "flow_work E takes d = Some ((td, snd d), go)" "task_ok t db conn (td, snd d)" "bt_flow td \<noteq> None" "bt_pool td \<noteq> None"
    "bt_pt td = bt_pt (fst d)" "go \<longrightarrow> task_left E td < task_left E (fst d)" "\<not> go \<longrightarrow> task_left E td = task_left E (fst d)"
proof -
  obtain flow pool where f: "bt_flow (fst d) = Some flow" "bt_pool (fst d) = Some pool" using ok by (auto simp: task_ok_def)
  show thesis
  proof (cases "fl_recs flow")
    case Nil
    with f ok that [of "(fst d)\<lparr>bt_flow := Some flow\<rparr>" False] show ?thesis
      by (cases d) (auto simp: flow_work_def flow_stream_read_def task_ok_def task_left_def Let_def)
  next
    case (Cons r rs)
    obtain flow' fd where r: "flow_stream_read (fe_ftltime E) flow = (flow', Some fd)" "fl_recs flow' = rs" "fd_begin fd \<noteq> 0"
      using Cons times by (auto simp: flow_stream_read_def)
    obtain pool' where p: "process_flow_data (ap_acc (snd d)) (ap_net (snd d)) (bt_umap (fst d)) fd pool = Some pool'"
      using process_all_eq [of "ap_net (snd d)" "ap_acc (snd d)" "bt_umap (fst d)" "[fd]" pool] ok r(3)
      by (auto simp: task_ok_def split: bind_splits)
    show ?thesis
      using f ok r p Cons that [of "(if takes fd then (fst d)\<lparr>bt_flow := Some flow', bt_pool := Some pool'\<rparr> else (fst d)\<lparr>bt_flow := Some flow'\<rparr>)" True]
      by (cases d) (auto simp: flow_work_def task_ok_def task_left_def Let_def split: if_splits)
  qed
qed

lemma pool_save_returns:
  assumes "private_conn st t db conn" "db_begin db = Some b" "db_rollback db = Some r" "db_commit db = Some c"
  shows "\<exists>w n'. mbb_stat_pool_save ord ord2 poll st n t pool = Some (st\<lparr>db_world := w\<rparr>, n')"
proof (cases "poll n")
  case True
  obtain w ok e where "b conn (db_world st) = (w, ok, e)" by (cases "b conn (db_world st)") auto
  with True show ?thesis using pool_save_eq [OF assms, of ord ord2 poll n pool] by (auto split: prod.splits if_splits)
next
  case False
  then show ?thesis using pool_save_eq [OF assms, of ord ord2 poll n pool] by (auto intro!: exI [of _ "db_world st"])
qed

text \<open>One round of a task: its new state, and whether it goes on.\<close>

definition round_ok :: "flow_env \<Rightarrow> thread_id \<Rightarrow> ('w, 'i) mbb_db \<Rightarrow> gpointer \<Rightarrow> ('v, 'w, 'i) base_task \<Rightarrow> ('v, 'w, 'i) base_task \<Rightarrow> bool \<Rightarrow> bool" where
  "round_ok E t db conn d d' go \<longleftrightarrow> task_ok t db conn d' \<and>
     (if go then task_left E (fst d') < task_left E (fst d) else d' = d \<and> task_left E (fst d) = 0)"

lemma open_round:
  assumes "task_ok t db conn (td, app)" "bt_flow td = None"
  shows "\<exists>d' go. base_task_work E t (td, app) = Some (d', go) \<and> round_ok E t db conn (td, app) d' go"
proof -
  obtain td' go where n: "path_tree_open_next E td = (td', go)" by (cases "path_tree_open_next E td")
  then have "base_task_work E t (td, app) = Some ((td', app), go)" by (simp add: base_task_work_def assms(2))
  moreover have "task_ok t db conn (td', app)" using open_next [OF n assms(2)] assms(1) by (simp add: task_ok_def)
  moreover have "task_left E td = 0" if "length (pt_array (bt_pt td)) \<le> pt_cur (bt_pt td)" using that assms(2) by (simp add: task_left_def)
  ultimately show ?thesis using open_next [OF n assms(2)] by (auto simp: round_ok_def)
qed

lemma op_work_eq:
  "op_work E (td, app) = flow_work E (\<lambda>fd. case bt_span td of None \<Rightarrow> True | Some span \<Rightarrow> fst span \<le> fd_begin fd \<and> fd_begin fd < snd span) (td, app)"
  by (cases "bt_span td") (simp_all add: op_work_def plain_task_work_def update_task_work_def)

lemma flow_round:
  assumes ok: "task_ok t db conn (td, app)" "bt_flow td = Some flow" and times: "\<And>a b c d. fe_ftltime E a b c d \<noteq> 0"
    and tr: "db_begin db = Some b" "db_rollback db = Some r" "db_commit db = Some c"
  shows "\<exists>d'. base_task_work E t (td, app) = Some (d', True) \<and> round_ok E t db conn (td, app) d' True"
proof -
  have "bt_flow (fst (td, app)) \<noteq> None" using ok(2) by simp
  from flow_work_ok [OF ok(1) this times, where takes = "\<lambda>fd. case bt_span td of None \<Rightarrow> True | Some span \<Rightarrow> fst span \<le> fd_begin fd \<and> fd_begin fd < snd span",
      folded op_work_eq, unfolded fst_conv snd_conv] obtain td' go where
    w: "op_work E (td, app) = Some ((td', app), go)" and k: "task_ok t db conn (td', app)" "bt_flow td' \<noteq> None" "bt_pool td' \<noteq> None"
    and l: "go \<longrightarrow> task_left E td' < task_left E td" "\<not> go \<longrightarrow> task_left E td' = task_left E td"
    by metis
  show ?thesis
  proof (cases go)
    case True
    with w k(1) l(1) ok(2) show ?thesis by (simp add: base_task_work_def round_ok_def)
  next
    case False
    obtain pool where pool: "bt_pool td' = Some pool" using k(3) by auto
    have conn: "private_conn (ap_db app) t db conn" using k(1) by (simp add: task_ok_def)
    obtain w' n where s: "mbb_stat_pool_save (fe_ord E) (fe_ord2 E) (fe_poll E) (ap_db app) (bt_polls td') t pool = Some ((ap_db app)\<lparr>db_world := w'\<rparr>, n)"
      using pool_save_returns [OF conn tr] by blast
    let ?d = "(td'\<lparr>bt_flow := None, bt_pool := None, bt_polls := n\<rparr>, app\<lparr>ap_db := (ap_db app)\<lparr>db_world := w'\<rparr>\<rparr>)"
    have "base_task_work E t (td, app) = Some (?d, True)"
      using False w ok(2) pool s by (simp add: base_task_work_def)
    moreover have "task_ok t db conn ?d" using k(1) by (simp add: task_ok_def)
    moreover have "task_left E (fst ?d) < task_left E td'" using k(2) by (auto simp: task_left_def)
    ultimately show ?thesis using False l(2) by (auto simp: round_ok_def)
  qed
qed

lemma base_work_ok:
  assumes ok: "task_ok t db conn d" and "\<And>a b c d. fe_ftltime E a b c d \<noteq> 0"
    and "db_begin db = Some b" "db_rollback db = Some r" "db_commit db = Some c"
  shows "\<exists>d' go. base_task_work E t d = Some (d', go) \<and> round_ok E t db conn d d' go"
proof (cases d)
  case (Pair td app)
  show ?thesis
  proof (cases "bt_flow td")
    case None
    from open_round [OF ok [unfolded Pair] None] show ?thesis unfolding Pair .
  next
    case (Some flow)
    from flow_round [OF ok [unfolded Pair] Some assms(2-5)] show ?thesis unfolding Pair by blast
  qed
qed


definition env2 :: flow_env where
  "env2 = \<lparr>fe_files = (\<lambda>f. if f = ''a'' then Stream \<lparr>ff_fields = FT_REQ_FIELDS, ff_count = 1, ff_recs = [\<lparr>fr_srcaddr = 5, fr_dstaddr = 6,
       fr_exaddr = 10, fr_dOctets = 72, fr_dPkts = 1, fr_input = 4, fr_output = 3, fr_srcport = 0, fr_dstport = 0, fr_prot = 6,
       fr_sysUpTime = 0, fr_unix_secs = 15, fr_unix_nsecs = 0, fr_First = 0\<rparr>]\<rparr> else No_Stream),
     fe_ftltime = (\<lambda>a b c d. 15), fe_ord = (\<lambda>x. x), fe_ord2 = (\<lambda>x. x), fe_poll = (\<lambda>_. True)\<rparr>"

definition task2 :: "(unit, string list, unit mbb_db_iter) base_task" where
  "task2 = (base_task_data_new umap2 \<lparr>pt_array = [''a'', ''b''], pt_cur = 0\<rparr> None, \<lparr>ap_vars = (), ap_net = net3, ap_acc = acc2, ap_db = dbs0\<rparr>)"


text \<open>A task that feeds one file and cannot be started gives its data back twice.\<close>

lemma feed_task_freed_twice:
  assumes "flow_from_tag N st t tag = Some (st1, Inr flow)" "nf_take_umap st1 = Some (st2, Some umap)" "\<not> ne_started N"
  shows "feed_stat N st t tag = None"
  using assms
  by (auto simp: feed_stat_def mbb_task_create_def feed_stat_hook_def feed_stat_free_def Let_def split: bind_splits prod.splits)

end
