(* ===== verification/Db_Load.thy ===== *)
theory Db_Load
  imports Acl_Man Net_Man Account_Man
begin

text \<open>
  Loading the stored objects at start: \<open>mbbd/mbbdbload.c\<close>. Each table is read with one query, and
  each row becomes an object that is registered and joined to the objects it names.
\<close>

section \<open>Definitions\<close>

datatype MbbDbLoadError = MBB_DB_LOAD_ERROR_INVALID | MBB_DB_LOAD_ERROR_INSIDE

definition load_error :: "MbbDbLoadError \<Rightarrow> string \<Rightarrow> gerror" where
  "load_error code msg =
     \<lparr>ge_domain = ''mbb-db-load-error-quark'', ge_code = (case code of MBB_DB_LOAD_ERROR_INVALID \<Rightarrow> 0 | MBB_DB_LOAD_ERROR_INSIDE \<Rightarrow> 1),
      ge_message = msg\<rparr>"

subsection \<open>Values\<close>

definition check_isnull :: "string option \<Rightarrow> gerror option" where
  "check_isnull s = (if s = None then Some (load_error MBB_DB_LOAD_ERROR_INVALID ''unexpected null value'') else None)"

definition load_uint :: "string option \<Rightarrow> gerror + guint32" where
  "load_uint s =
     (case (check_isnull s, s) of
        (Some e, _) \<Rightarrow> Inl e
      | (None, Some s) \<Rightarrow>
          (case var_conv_uint s of
             None \<Rightarrow> Inl (load_error MBB_DB_LOAD_ERROR_INVALID (''invalid integer: '' @ s))
           | Some n \<Rightarrow> Inr n)
      | (None, None) \<Rightarrow> Inr 0)"

text \<open>A NULL leaves the value that the caller has stored.\<close>

definition load_int :: "gint \<Rightarrow> string option \<Rightarrow> gerror + gint" where
  "load_int dflt s =
     (case s of
        None \<Rightarrow> Inr dflt
      | Some s \<Rightarrow>
          (case var_conv_int s of
             None \<Rightarrow> Inl (load_error MBB_DB_LOAD_ERROR_INVALID (''invalid integer: '' @ s))
           | Some n \<Rightarrow> Inr n))"

definition load_time :: "time_t \<Rightarrow> string option \<Rightarrow> gerror + time_t" where
  "load_time dflt s =
     (case s of
        None \<Rightarrow> Inr dflt
      | Some s \<Rightarrow>
          (case var_conv_utime s of
             None \<Rightarrow> Inl (load_error MBB_DB_LOAD_ERROR_INVALID (''invalid integer: '' @ s))
           | Some n \<Rightarrow> Inr n))"

definition load_bool :: "string option \<Rightarrow> gerror + bool" where
  "load_bool s =
     (case (check_isnull s, s) of
        (Some e, _) \<Rightarrow> Inl e
      | (None, Some s) \<Rightarrow>
          if s = ''t'' \<or> s = ''true'' then Inr True
          else if s = ''f'' \<or> s = ''false'' then Inr False
          else Inl (load_error MBB_DB_LOAD_ERROR_INVALID (''invalid bool: '' @ s))
      | (None, None) \<Rightarrow> Inr False)"

subsection \<open>Reading a table\<close>

text \<open>
  A row gives the text of each column. Loading a row fails with an error, or gives the new state
  and the objects put into the trash; undefined behaviour is \<open>None\<close>.
\<close>

type_synonym row = "gint \<Rightarrow> string option"
type_synonym 's load_result = "(gerror + 's \<times> gpointer list) option"

definition attempt :: "gerror + 'a \<Rightarrow> ('a \<Rightarrow> 's load_result) \<Rightarrow> 's load_result" where
  "attempt r f = (case r of Inl e \<Rightarrow> Some (Inl e) | Inr x \<Rightarrow> f x)"

partial_function (option) load_loop ::
  "('w, 'i) mbb_db \<Rightarrow> ('s \<Rightarrow> row \<Rightarrow> 's load_result) \<Rightarrow> 'i \<Rightarrow> 's \<Rightarrow> gpointer list \<Rightarrow> ('i \<times> 's \<times> gpointer list \<times> gerror option) option" where
  "load_loop db func iter st trash =
     (let (iter, more) = db_iter_next db iter
      in if \<not> more then Some (iter, st, trash, None)
         else do { r \<leftarrow> func st (db_iter_get_value db iter);
                   (case r of
                      Inl e \<Rightarrow> Some (iter, st, trash, Some e)
                    | Inr (st, ps) \<Rightarrow> load_loop db func iter st (ps @ trash)) })"

fun trash_empty :: "('s \<Rightarrow> gpointer \<Rightarrow> 's option) \<Rightarrow> 's \<Rightarrow> gpointer list \<Rightarrow> 's option" where
  "trash_empty destroy st [] = Some st"
| "trash_empty destroy st (p # ps) = do { st \<leftarrow> destroy st p; trash_empty destroy st ps }"

definition mbb_db_load ::
  "string \<Rightarrow> (('v, 'w, 'i) app_srv \<Rightarrow> row \<Rightarrow> ('v, 'w, 'i) app_srv load_result) \<Rightarrow>
     (('v, 'w, 'i) app_srv \<Rightarrow> gpointer \<Rightarrow> ('v, 'w, 'i) app_srv option) \<Rightarrow>
     ('v, 'w, 'i) app_srv \<Rightarrow> thread_id \<Rightarrow> (('v, 'w, 'i) app_srv \<times> bool \<times> gerror option) option" where
  "mbb_db_load query func destroy st t =
     do { (dbs, iter, e) \<leftarrow> mbb_db_query_iter (srv_db st) t query;
          let st = set_db st dbs;
          (case iter of
             None \<Rightarrow> Some (st, False, e)
           | Some iter \<Rightarrow>
               do { db \<leftarrow> db_drv dbs;
                    (iter, st, trash, e) \<leftarrow> load_loop db func iter st [];
                    let st = set_db st ((srv_db st)\<lparr>db_world := db_iter_free db iter (db_world (srv_db st))\<rparr>);
                    (case e of
                       Some e \<Rightarrow> do { st \<leftarrow> trash_empty destroy st trash; Some (st, False, Some e) }
                     | None \<Rightarrow> Some (st, True, None)) }) }"

definition guint_id :: "guint32 \<Rightarrow> gint" where "guint_id i = to_gint (uint i)"

subsection \<open>Users and groups\<close>

text \<open>The address of a new object is given by the allocator \<open>new\<close>.\<close>

definition QUERY_USERS :: string where "QUERY_USERS = ''select user_id, user_name, user_secret from users''"

definition load_users :: "(('v, 'w, 'i) app_srv \<Rightarrow> gpointer) \<Rightarrow> ('v, 'w, 'i) app_srv \<Rightarrow> row \<Rightarrow> ('v, 'w, 'i) app_srv load_result" where
  "load_users new st row =
     attempt (load_uint (row 0)) (\<lambda>i.
       do { name \<leftarrow> row 1;
            let p = new st;
            acl \<leftarrow> mbb_user_join (set_user (sv_acl st) p (Some (mbb_user_new (guint_id i) name (row 2)))) p;
            Some (Inr (set_acl st acl, [p])) })"

definition mbb_db_load_users where
  "mbb_db_load_users new st t = mbb_db_load QUERY_USERS (load_users new)
     (\<lambda>st p. map_option (set_acl st) (mbb_user_remove (sv_acl st) p)) st t"

definition QUERY_GROUPS :: string where "QUERY_GROUPS = ''select group_id, group_name from groups''"

definition load_groups :: "(('v, 'w, 'i) app_srv \<Rightarrow> gpointer) \<Rightarrow> ('v, 'w, 'i) app_srv \<Rightarrow> row \<Rightarrow> ('v, 'w, 'i) app_srv load_result" where
  "load_groups new st row =
     attempt (load_uint (row 0)) (\<lambda>i.
       do { name \<leftarrow> row 1;
            let p = new st;
            acl \<leftarrow> mbb_group_join (set_group (sv_acl st) p (Some (mbb_group_new (guint_id i) name))) p;
            Some (Inr (set_acl st acl, [p])) })"

definition mbb_db_load_groups where
  "mbb_db_load_groups new st t = mbb_db_load QUERY_GROUPS (load_groups new)
     (\<lambda>st p. map_option (set_acl st) (mbb_group_remove (sv_acl st) p)) st t"

definition QUERY_GROUPS_POOL :: string where "QUERY_GROUPS_POOL = ''select group_id, user_id from groups_pool''"

definition load_groups_pool :: "('v, 'w, 'i) app_srv \<Rightarrow> row \<Rightarrow> ('v, 'w, 'i) app_srv load_result" where
  "load_groups_pool st row =
     attempt (load_uint (row 0)) (\<lambda>g. attempt (load_uint (row 1)) (\<lambda>u.
       (case mbb_group_get_by_id (sv_acl st) (guint_id g) of
          None \<Rightarrow> Some (Inr (st, []))
        | Some grp \<Rightarrow>
            (case mbb_user_get_by_id (sv_acl st) (guint_id u) of
               None \<Rightarrow> Some (Inr (st, []))
             | Some user \<Rightarrow> do { acl \<leftarrow> mbb_group_add_user (sv_acl st) grp user; Some (Inr (set_acl st acl, [])) }))))"

definition mbb_db_load_groups_pool where
  "mbb_db_load_groups_pool st t = mbb_db_load QUERY_GROUPS_POOL load_groups_pool (\<lambda>st p. Some st) st t"

subsection \<open>Consumers and units\<close>

definition QUERY_CONSUMERS :: string where
  "QUERY_CONSUMERS = ''select consumer_id, consumer_name, user_id, time_start, time_end from consumers''"

definition load_consumers :: "(('v, 'w, 'i) app_srv \<Rightarrow> gpointer) \<Rightarrow> ('v, 'w, 'i) app_srv \<Rightarrow> row \<Rightarrow> ('v, 'w, 'i) app_srv load_result" where
  "load_consumers new st row =
     attempt (load_uint (row 0)) (\<lambda>i. attempt (load_int (- 1) (row 2)) (\<lambda>uid. attempt (load_time 0 (row 3)) (\<lambda>start. attempt (load_time 0 (row 4)) (\<lambda>fin.
       do { name \<leftarrow> row 1;
            let p = new st;
            acc \<leftarrow> mbb_consumer_join (set_con (srv_acc st) p (Some (mbb_consumer_new (guint_id i) name start fin))) p;
            let st = set_acc st acc;
            (case (if uid \<ge> 0 then mbb_user_get_by_id (sv_acl st) uid else None) of
               None \<Rightarrow> Some (Inr (st, [p]))
             | Some user \<Rightarrow>
                 do { u \<leftarrow> dm_heap (acl_users (sv_acl st)) user;
                      c \<leftarrow> get_con (srv_acc st) p;
                      Some (Inr (set_acc (set_acl st (set_user (sv_acl st) user (Some (mbb_user_add_consumer u p))))
                        (set_con (srv_acc st) p (Some (c\<lparr>c_user := user\<rparr>))), [p])) }) }))))"

definition mbb_db_load_consumers where
  "mbb_db_load_consumers new st t = mbb_db_load QUERY_CONSUMERS (load_consumers new)
     (\<lambda>st p. map_option (set_acc st) (mbb_consumer_remove (srv_acc st) p)) st t"

definition QUERY_ACCUNITS :: string where
  "QUERY_ACCUNITS = ''select unit_id, unit_name, consumer_id, local, time_start, time_end from units''"

definition load_units :: "(('v, 'w, 'i) app_srv \<Rightarrow> gpointer) \<Rightarrow> ('v, 'w, 'i) app_srv \<Rightarrow> row \<Rightarrow> ('v, 'w, 'i) app_srv load_result" where
  "load_units new st row =
     attempt (load_uint (row 0)) (\<lambda>i. attempt (load_int (- 1) (row 2)) (\<lambda>cid. attempt (load_bool (row 3)) (\<lambda>loc.
     attempt (load_time (- 1) (row 4)) (\<lambda>start. attempt (load_time (- 1) (row 5)) (\<lambda>fin.
       do { name \<leftarrow> row 1;
            let p = new st;
            acc \<leftarrow> mbb_unit_join (set_unit (srv_acc st) p ((mbb_unit_new (guint_id i) name start fin)\<lparr>un_local := loc\<rparr>)) p;
            (case (if cid \<ge> 0 then mbb_consumer_get_by_id acc cid else None) of
               None \<Rightarrow> Some (Inr (set_acc st acc, [p]))
             | Some con \<Rightarrow>
                 do { acc \<leftarrow> mbb_consumer_add_unit acc con p;
                      u \<leftarrow> get_unit acc p;
                      Some (Inr (set_acc st (set_unit acc p (u\<lparr>un_con := con\<rparr>)), [p])) }) })))))"

definition mbb_db_load_units where
  "mbb_db_load_units new st t = mbb_db_load QUERY_ACCUNITS (load_units new)
     (\<lambda>st p. map_option (set_acc st) (mbb_unit_remove (srv_acc st) p)) st t"

text \<open>
  The networks of units. When a later row fails, the networks read before are withdrawn from their
  units. Nothing is mapped while the tables are loaded, so no entry has nodes in the global map
  then; an entry with nodes is \<open>None\<close>.
\<close>

definition mbb_unit_del_inet :: "account \<Rightarrow> gpointer \<Rightarrow> gpointer \<Rightarrow> account option" where
  "mbb_unit_del_inet st uni entry =
     do { u \<leftarrow> get_unit st uni;
          if \<not> separator_has (un_sep u) entry then Some st
          else
            do { x \<leftarrow> ac_entries st entry;
                 m \<leftarrow> map_remove_custom (Some (un_map u)) (\<lambda>d. d = entry);
                 if pe_nodes x \<noteq> [] then None
                 else
                   do { pool \<leftarrow> ac_pool st;
                        let (pool, h) = mbb_inet_pool_del pool (ac_entries st) (pe_id x);
                        Some ((set_unit st uni (u\<lparr>un_sep := separator_del (un_sep u) entry, un_map := m\<rparr>))\<lparr>ac_pool := Some pool, ac_entries := h\<rparr>) } } }"

definition mbb_inet_pool_entry_delete :: "account \<Rightarrow> gpointer \<Rightarrow> account option" where
  "mbb_inet_pool_entry_delete st entry = do { x \<leftarrow> ac_entries st entry; mbb_unit_del_inet st (pe_owner x) entry }"

definition QUERY_UNIT_IP_POOL :: string where
  "QUERY_UNIT_IP_POOL = ''select self_id, unit_id, inet_addr, inet_flag, time_start, time_end, nice from unit_ip_pool''"

definition load_ip_pool :: "(('v, 'w, 'i) app_srv \<Rightarrow> gpointer) \<Rightarrow> ('v, 'w, 'i) app_srv \<Rightarrow> row \<Rightarrow> ('v, 'w, 'i) app_srv load_result" where
  "load_ip_pool new st row =
     attempt (load_uint (row 0)) (\<lambda>i. attempt (load_uint (row 1)) (\<lambda>uid.
       (case mbb_unit_get_by_id (srv_acc st) (guint_id uid) of
          None \<Rightarrow> Some (Inl (load_error MBB_DB_LOAD_ERROR_INSIDE (''no such unit '' @ dec_of_int (guint_id uid))))
        | Some uni \<Rightarrow>
            do { text \<leftarrow> row 2;
                 (case atoinet text of
                    None \<Rightarrow> Some (Inl (load_error MBB_DB_LOAD_ERROR_INVALID (''invalid inet: '' @ text)))
                  | Some inet \<Rightarrow>
                      attempt (load_bool (row 3)) (\<lambda>flag. attempt (load_time (- 1) (row 4)) (\<lambda>start. attempt (load_time (- 1) (row 5)) (\<lambda>fin.
                      attempt (load_uint (row 6)) (\<lambda>nice.
                        do { let p = new st;
                             let acc = (srv_acc st)\<lparr>ac_entries := (ac_entries (srv_acc st))(p \<mapsto>
                                   \<lparr>pe_id = guint_id i, pe_inet = inet, pe_flag = flag, pe_start = start, pe_end = fin,
                                    pe_nice = unat nice, pe_owner = uni, pe_nodes = []\<rparr>)\<rparr>;
                             acc \<leftarrow> mbb_unit_add_inet acc uni p;
                             Some (Inr (set_acc st acc, [p])) }))))) })))"

definition mbb_db_load_unit_inet_pool where
  "mbb_db_load_unit_inet_pool new st t = mbb_db_load QUERY_UNIT_IP_POOL (load_ip_pool new)
     (\<lambda>st p. map_option (set_acc st) (mbb_inet_pool_entry_delete (srv_acc st) p)) st t"

subsection \<open>Gateways, operators and links\<close>

definition QUERY_GATEWAYS :: string where "QUERY_GATEWAYS = ''select gw_id, gw_name, gw_ip from gateways''"

definition load_gateway :: "(('v, 'w, 'i) app_srv \<Rightarrow> gpointer) \<Rightarrow> ('v, 'w, 'i) app_srv \<Rightarrow> row \<Rightarrow> ('v, 'w, 'i) app_srv load_result" where
  "load_gateway new st row =
     attempt (load_uint (row 0)) (\<lambda>i.
       do { text \<leftarrow> row 2;
            (case atoipv4 text of
               None \<Rightarrow> Some (Inl (load_error MBB_DB_LOAD_ERROR_INVALID (''invalid inet: '' @ text)))
             | Some inet \<Rightarrow>
                 do { name \<leftarrow> row 1;
                      let p = new st;
                      net \<leftarrow> mbb_gateway_join (set_gw (srv_net st) p (Some (mbb_gateway_new (guint_id i) name (addr inet)))) p;
                      Some (Inr (set_net st net, [p])) }) })"

definition mbb_db_load_gateways where
  "mbb_db_load_gateways new st t = mbb_db_load QUERY_GATEWAYS (load_gateway new)
     (\<lambda>st p. map_option (set_net st) (mbb_gateway_remove (srv_net st) p)) st t"

definition QUERY_OPERATORS :: string where "QUERY_OPERATORS = ''select oper_id, oper_name from operators''"

definition load_operator :: "(('v, 'w, 'i) app_srv \<Rightarrow> gpointer) \<Rightarrow> ('v, 'w, 'i) app_srv \<Rightarrow> row \<Rightarrow> ('v, 'w, 'i) app_srv load_result" where
  "load_operator new st row =
     attempt (load_uint (row 0)) (\<lambda>i.
       do { name \<leftarrow> row 1;
            let p = new st;
            net \<leftarrow> mbb_operator_join (set_op (srv_net st) p (Some (mbb_operator_new (guint_id i) name))) p;
            Some (Inr (set_net st net, [p])) })"

definition mbb_db_load_operators where
  "mbb_db_load_operators new st t = mbb_db_load QUERY_OPERATORS (load_operator new)
     (\<lambda>st p. map_option (set_net st) (mbb_operator_remove (srv_net st) p)) st t"

definition QUERY_GWLINKS :: string where
  "QUERY_GWLINKS = ''select gwlink_id, oper_id, gw_id, link, time_start, time_end from gwlinks''"

text \<open>A link that the gateway refuses is registered and listed by its operator all the same.\<close>

definition load_gwlink :: "(('v, 'w, 'i) app_srv \<Rightarrow> gpointer) \<Rightarrow> ('v, 'w, 'i) app_srv \<Rightarrow> row \<Rightarrow> ('v, 'w, 'i) app_srv load_result" where
  "load_gwlink new st row =
     attempt (load_uint (row 0)) (\<lambda>i. attempt (load_uint (row 1)) (\<lambda>op_id. attempt (load_uint (row 2)) (\<lambda>gw_id. attempt (load_uint (row 3)) (\<lambda>link.
     attempt (load_time 0 (row 4)) (\<lambda>start. attempt (load_time 0 (row 5)) (\<lambda>fin.
       (case mbb_gateway_get_by_id (srv_net st) (guint_id gw_id) of
          None \<Rightarrow> Some (Inl (load_error MBB_DB_LOAD_ERROR_INSIDE (''no such gateway '' @ dec_of_int (guint_id gw_id))))
        | Some gw \<Rightarrow>
            (case mbb_operator_get_by_id (srv_net st) (guint_id op_id) of
               None \<Rightarrow> Some (Inl (load_error MBB_DB_LOAD_ERROR_INSIDE (''no such operator '' @ dec_of_int (guint_id op_id))))
             | Some op \<Rightarrow>
                 do { let p = new st;
                      let gl = (mbb_gwlink_new (guint_id i))\<lparr>gl_gw := gw, gl_op := op, gl_link := link, gl_start := start, gl_end := fin\<rparr>;
                      net \<leftarrow> mbb_gwlink_join (set_gl (srv_net st) p (Some gl)) p;
                      (net, ok, _) \<leftarrow> mbb_gateway_add_link net gw p;
                      net \<leftarrow> mbb_operator_add_link net op p;
                      Some (Inr (set_net st net, [p])) }))))))))"

definition mbb_db_load_gwlinks where
  "mbb_db_load_gwlinks new st t = mbb_db_load QUERY_GWLINKS (load_gwlink new)
     (\<lambda>st p. map_option (set_net st) (mbb_gwlink_remove (srv_net st) p)) st t"

subsection \<open>The order of \<open>main.c\<close>\<close>

text \<open>The program ends with a message at the first table that cannot be loaded.\<close>

type_synonym ('v, 'w, 'i) load_step = "('v, 'w, 'i) app_srv \<Rightarrow> thread_id \<Rightarrow> (('v, 'w, 'i) app_srv \<times> bool \<times> gerror option) option"

fun load_all :: "('v, 'w, 'i) load_step list \<Rightarrow> ('v, 'w, 'i) load_step" where
  "load_all [] st t = Some (st, True, None)"
| "load_all (f # fs) st t = do { (st, ok, e) \<leftarrow> f st t; if \<not> ok then Some (st, False, e) else load_all fs st t }"

definition load_tables :: "(('v, 'w, 'i) app_srv \<Rightarrow> gpointer) \<Rightarrow> ('v, 'w, 'i) load_step list" where
  "load_tables new =
     [mbb_db_load_users new, mbb_db_load_groups new, mbb_db_load_groups_pool, mbb_db_load_consumers new, mbb_db_load_units new,
      mbb_db_load_unit_inet_pool new, mbb_db_load_gateways new, mbb_db_load_operators new, mbb_db_load_gwlinks new]"

end
