(* ===== verification/Load_Net.thy ===== *)
theory Load_Net
  imports Db_Load
begin

text \<open>
  What loading the tables of gateways, operators and links achieves: from a database that keeps
  its constraints, the network is consistent and holds exactly the stored objects.
\<close>

section \<open>Reading all rows\<close>

text \<open>An iterator that gives a list of rows and then ends.\<close>

inductive iter_rows :: "('w, 'i) mbb_db \<Rightarrow> 'i \<Rightarrow> row list \<Rightarrow> bool" for db where
  End: "db_iter_next db it = (it', False) \<Longrightarrow> iter_rows db it []"
| Row: "db_iter_next db it = (it', True) \<Longrightarrow> iter_rows db it' rows \<Longrightarrow> iter_rows db it (db_iter_get_value db it' # rows)"

lemma load_loop_all:
  assumes "iter_rows db it rows"
    and step: "\<And>seen row rest st. table = seen @ row # rest \<Longrightarrow> P seen st \<Longrightarrow> \<exists>st' ps. func st row = Some (Inr (st', ps)) \<and> P (seen @ [row]) st'"
  shows "table = seen @ rows \<Longrightarrow> P seen st \<Longrightarrow> \<exists>it' st' tr. load_loop db func it st trash = Some (it', st', tr, None) \<and> P table st'"
  using assms(1)
proof (induction arbitrary: seen st trash rule: iter_rows.induct)
  case (End it it')
  then show ?case by (subst load_loop.simps) simp
next
  case (Row it it' rows)
  obtain st' ps where f: "func st (db_iter_get_value db it') = Some (Inr (st', ps))" "P (seen @ [db_iter_get_value db it']) st'"
    using step [OF Row.prems] by blast
  from Row.IH [OF _ f(2), of "ps @ trash"] Row.prems(1) f(1) Row.hyps(1) show ?case by (subst load_loop.simps) simp
qed

text \<open>A database that answers every query with the rows of a table, in any state of the world.\<close>

definition db_answers :: "('w, 'i) dbs \<Rightarrow> thread_id \<Rightarrow> (string \<Rightarrow> row list) \<Rightarrow> bool" where
  "db_answers dbs t tables \<longleftrightarrow> (\<exists>db. db_drv dbs = Some db \<and>
     (\<forall>w q. \<exists>w' it. mbb_db_query_iter (dbs\<lparr>db_world := w\<rparr>) t q = Some (dbs\<lparr>db_world := w'\<rparr>, Some it, None) \<and> iter_rows db it (tables q)))"

lemma db_answers_world [simp]: "db_answers (dbs\<lparr>db_world := w\<rparr>) t tables = db_answers dbs t tables"
  by (simp add: db_answers_def)

lemma mbb_db_load_all:
  fixes st :: "('v, 'w, 'i) app_srv"
  assumes ans: "db_answers (srv_db st) t tables"
    and step: "\<And>seen row rest st. tables q = seen @ row # rest \<Longrightarrow> P seen (srv_net st) \<Longrightarrow>
      \<exists>net ps. func st row = Some (Inr (set_net st net, ps)) \<and> P (seen @ [row]) net"
    and start: "P [] (srv_net st)"
  shows "\<exists>st'. mbb_db_load q func destroy st t = Some (st', True, None) \<and> P (tables q) (srv_net st') \<and> db_answers (srv_db st') t tables"
proof -
  let ?ans = "\<lambda>st :: ('v, 'w, 'i) app_srv. db_answers (srv_db st) t tables"
  obtain db w it where q: "mbb_db_query_iter (srv_db st) t q = Some ((srv_db st)\<lparr>db_world := w\<rparr>, Some it, None)" "iter_rows db it (tables q)"
      "db_drv (srv_db st) = Some db"
    using ans unfolding db_answers_def by (metis dbs.surjective dbs.update_convs(7))
  let ?st = "set_db st ((srv_db st)\<lparr>db_world := w\<rparr>)"
  have "\<exists>it' st' tr. load_loop db func it ?st [] = Some (it', st', tr, None) \<and> P (tables q) (srv_net st') \<and> ?ans st'"
  proof (rule load_loop_all [where P = "\<lambda>seen st. P seen (srv_net st) \<and> ?ans st" and seen = "[]", OF q(2)])
    fix seen row rest and st :: "('v, 'w, 'i) app_srv"
    assume "tables q = seen @ row # rest" "P seen (srv_net st) \<and> ?ans st"
    with step [of seen row rest st] show "\<exists>st' ps. func st row = Some (Inr (st', ps)) \<and> P (seen @ [row]) (srv_net st') \<and> ?ans st'" by force
  qed (use start ans in simp_all)
  with q show ?thesis by (auto simp: mbb_db_load_def)
qed

section \<open>What the rows say and what the network holds\<close>

definition gw_row :: "row \<Rightarrow> (int \<times> string \<times> ipv4_t) option" where
  "gw_row row = (case (load_uint (row 0), row 1, Option.bind (row 2) atoipv4) of
     (Inr i, Some name, Some inet) \<Rightarrow> Some (guint_id i, name, addr inet) | _ \<Rightarrow> None)"

definition op_row :: "row \<Rightarrow> (int \<times> string) option" where
  "op_row row = (case (load_uint (row 0), row 1) of (Inr i, Some name) \<Rightarrow> Some (guint_id i, name) | _ \<Rightarrow> None)"

text \<open>A link with its number, operator, gateway, number at the gateway and period.\<close>

definition gl_row :: "row \<Rightarrow> (int \<times> int \<times> int \<times> guint32 \<times> time_t \<times> time_t) option" where
  "gl_row row = (case (load_uint (row 0), load_uint (row 1), load_uint (row 2), load_uint (row 3), load_time 0 (row 4), load_time 0 (row 5)) of
     (Inr i, Inr op, Inr gw, Inr link, Inr start, Inr fin) \<Rightarrow> Some (guint_id i, guint_id op, guint_id gw, link, start, fin) | _ \<Rightarrow> None)"

definition gateways_in :: "network \<Rightarrow> (int \<times> string \<times> ipv4_t) set" where
  "gateways_in net = (\<lambda>g. (gw_id g, gw_name g, gw_addr g)) ` ran (dm_heap (nw_gws net))"

definition operators_in :: "network \<Rightarrow> (int \<times> string) set" where
  "operators_in net = (\<lambda>x. (op_id x, op_name x)) ` ran (dm_heap (nw_ops net))"

definition link_view :: "(gpointer \<Rightarrow> int) \<Rightarrow> (gpointer \<Rightarrow> int) \<Rightarrow> mbb_gwlink \<Rightarrow> int \<times> int \<times> int \<times> guint32 \<times> time_t \<times> time_t" where
  "link_view oid gid gl = (gl_id gl, oid (gl_op gl), gid (gl_gw gl), gl_link gl, gl_start gl, gl_end gl)"

definition gwlinks_in :: "network \<Rightarrow> (int \<times> int \<times> int \<times> guint32 \<times> time_t \<times> time_t) set" where
  "gwlinks_in net = link_view (\<lambda>p. op_id (the (dm_heap (nw_ops net) p))) (\<lambda>p. gw_id (the (dm_heap (nw_gws net) p))) ` ran (dm_heap (nw_links net))"

definition net_size :: "network \<Rightarrow> nat" where
  "net_size net = card (dom (dm_heap (nw_gws net))) + card (dom (dm_heap (nw_ops net))) + card (dom (dm_heap (nw_links net)))"

text \<open>The network is consistent and holds exactly what these rows say.\<close>

definition net_loaded :: "network \<Rightarrow> row list \<Rightarrow> row list \<Rightarrow> row list \<Rightarrow> bool" where
  "net_loaded net gws ops lnks \<longleftrightarrow> net_inv net \<and> Some ` gateways_in net = gw_row ` set gws \<and> Some ` operators_in net = op_row ` set ops \<and>
     Some ` gwlinks_in net = gl_row ` set lnks \<and> net_size net = length gws + length ops + length lnks"

lemma net_loadedD:
  assumes "net_loaded net gws ops lnks"
  shows "net_inv net" "Some ` gateways_in net = gw_row ` set gws" "Some ` operators_in net = op_row ` set ops"
    "Some ` gwlinks_in net = gl_row ` set lnks" "net_size net = length gws + length ops + length lnks"
  using assms by (simp_all add: net_loaded_def)

text \<open>
  The constraints of the tables: every row can be read, numbers, names and addresses are unique,
  a link names an operator and a gateway of the tables, and the links of a gateway with the same
  number have no time in common.
\<close>

definition gw_table_ok :: "row list \<Rightarrow> bool" where
  "gw_table_ok rows \<longleftrightarrow> None \<notin> gw_row ` set rows \<and> distinct (map (fst \<circ> the \<circ> gw_row) rows) \<and>
     distinct (map (fst \<circ> snd \<circ> the \<circ> gw_row) rows) \<and> distinct (map (snd \<circ> snd \<circ> the \<circ> gw_row) rows)"

definition op_table_ok :: "row list \<Rightarrow> bool" where
  "op_table_ok rows \<longleftrightarrow> None \<notin> op_row ` set rows \<and> distinct (map (fst \<circ> the \<circ> op_row) rows) \<and> distinct (map (snd \<circ> the \<circ> op_row) rows)"

definition gl_row_ok :: "row list \<Rightarrow> row list \<Rightarrow> row \<Rightarrow> bool" where
  "gl_row_ok gws ops row = (case gl_row row of
     None \<Rightarrow> False
   | Some (_, op, gw, _, start, fin) \<Rightarrow>
       op \<in> (fst \<circ> the \<circ> op_row) ` set ops \<and> gw \<in> (fst \<circ> the \<circ> gw_row) ` set gws \<and> (start = 0 \<or> fin = 0 \<or> start \<le> fin))"

definition gl_rows_apart :: "row \<Rightarrow> row \<Rightarrow> bool" where
  "gl_rows_apart r s = (case (gl_row r, gl_row s) of
     (Some (i, _, gw, link, start, fin), Some (i', _, gw', link', start', fin')) \<Rightarrow>
       i \<noteq> i' \<and> (gw = gw' \<and> link = link' \<longrightarrow> (\<nexists>t. admits start fin t \<and> admits start' fin' t))
   | _ \<Rightarrow> True)"

definition gl_table_ok :: "row list \<Rightarrow> row list \<Rightarrow> row list \<Rightarrow> bool" where
  "gl_table_ok gws ops rows \<longleftrightarrow> list_all (gl_row_ok gws ops) rows \<and> sorted_wrt gl_rows_apart rows"

text \<open>An allocator that has room for a number of objects.\<close>

definition alloc_ok :: "nat \<Rightarrow> (('v, 'w, 'i) app_srv \<Rightarrow> gpointer) \<Rightarrow> bool" where
  "alloc_ok n new \<longleftrightarrow> (\<forall>st. net_size (srv_net st) < n \<longrightarrow> fresh_address (srv_net st) (new st))"

lemma alloc_okD: "alloc_ok n new \<Longrightarrow> net_size (srv_net st) < n \<Longrightarrow> fresh_address (srv_net st) (new st)"
  by (simp add: alloc_ok_def)

lemma image_ran_upd: "h p = Some x \<Longrightarrow> f y = f x \<Longrightarrow> f ` ran (h(p \<mapsto> y)) = f ` ran h"
  unfolding ran_def by (auto simp: image_iff split: if_splits) (metis option.inject)+

lemma ran_none: "ran h = {} \<longleftrightarrow> h = Map.empty"
  by (auto simp: ran_def fun_eq_iff) (metis option.exhaust)

lemma image_the_row:
  assumes "Some ` f ` S = r ` set rows"
  shows "(h \<circ> the \<circ> r) ` set rows = (h \<circ> f) ` S"
  unfolding image_comp [symmetric] assms [symmetric] by (simp add: image_image)

section \<open>Gateways\<close>

lemma gateway_joins:
  assumes inv: "net_inv net" and new: "mbb_gateway_get_by_name net name = None" "mbb_gateway_get_by_addr net ip = None"
      "\<And>q g. dm_heap (nw_gws net) q = Some g \<Longrightarrow> gw_id g \<noteq> i" and p: "fresh_address net p"
  shows "\<exists>net'. mbb_gateway_join (set_gw net p (Some (mbb_gateway_new i name ip))) p = Some net' \<and> net_inv net' \<and>
    dm_heap (nw_gws net') = (dm_heap (nw_gws net))(p \<mapsto> mbb_gateway_new i name ip) \<and> nw_links net' = nw_links net \<and> nw_ops net' = nw_ops net"
proof -
  let ?net = "set_gw net p (Some (mbb_gateway_new i name ip))"
  have p': "p \<notin> dom (dm_heap (nw_gws net))" "dm_heap (nw_gws net) p = None" "p \<noteq> 0" using p by (auto simp: fresh_address_def)
  have "module_ok gateway_entries (nw_gws ?net) (dom (dm_heap (nw_gws net)))"
    by (rule module_ok_elsewhere [OF net_invD(1) [OF inv] p'(1)]) simp_all
  moreover have "fresh_keys gateway_entries (dm_heap (nw_gws ?net)) (dom (dm_heap (nw_gws net))) p (mbb_gateway_new i name ip)"
    using fresh_gateway [OF inv new] by (auto simp: fresh_keys_def)
  ultimately obtain m where m: "module_join gateway_entries (nw_gws ?net) p = Some m" "dm_heap m = dm_heap (nw_gws ?net)"
    using module_join_ok [of gateway_entries "nw_gws ?net" "dom (dm_heap (nw_gws net))" p] by auto
  then have j: "mbb_gateway_join ?net p = Some (?net\<lparr>nw_gws := m\<rparr>)" by (simp add: mbb_gateway_join_def)
  from join_gateway_inv [OF inv new p'(2,3) j] m j show ?thesis by simp
qed

lemma load_gateway_step:
  assumes new: "alloc_ok n new" "length table \<le> n" and rows: "gw_table_ok table" "table = seen @ row # rest"
    and seen: "net_loaded (srv_net st) seen [] []"
  shows "\<exists>net ps. load_gateway new st row = Some (Inr (set_net st net, ps)) \<and> net_loaded net (seen @ [row]) [] []"
proof -
  let ?net = "srv_net st" and ?G = "dm_heap (nw_gws (srv_net st))"
  note inv = net_loadedD(1) [OF seen]
  obtain i name ip where v: "gw_row row = Some (i, name, ip)"
    using rows by (cases "gw_row row") (auto simp: gw_table_ok_def image_iff)
  have old: "gw_id g \<noteq> i" "gw_name g \<noteq> name" "gw_addr g \<noteq> ip" if "?G q = Some g" for q g
  proof -
    have "Some (gw_id g, gw_name g, gw_addr g) \<in> gw_row ` set seen"
      unfolding net_loadedD(2) [OF seen, symmetric] gateways_in_def using ranI [of ?G, OF that] by (intro imageI image_eqI) simp_all
    then obtain r where r: "Some (gw_id g, gw_name g, gw_addr g) = gw_row r" "r \<in> set seen" by (rule imageE)
    have "fst (the (gw_row r)) \<noteq> fst (the (gw_row row))" "fst (snd (the (gw_row r))) \<noteq> fst (snd (the (gw_row row)))"
      "snd (snd (the (gw_row r))) \<noteq> snd (snd (the (gw_row row)))"
      using rows(1) r(2) unfolding gw_table_ok_def rows(2) by (auto simp: image_iff)
    with v r(1) [symmetric] show "gw_id g \<noteq> i" "gw_name g \<noteq> name" "gw_addr g \<noteq> ip" by simp_all
  qed
  have no: "mbb_gateway_get_by_name ?net name = None" "mbb_gateway_get_by_addr ?net ip = None"
    using old gateway_get_by_name [OF net_invD(1) [OF inv], of name] get_by_addr [OF net_invD(1) [OF inv], of ip] by (meson not_None_eq)+
  have fresh: "fresh_address ?net (new st)" using alloc_okD [OF new(1)] net_loadedD(5) [OF seen] new(2) rows(2) by simp
  from gateway_joins [OF inv no _ this, of i] old(1) obtain net' where
    n: "mbb_gateway_join (set_gw ?net (new st) (Some (mbb_gateway_new i name ip))) (new st) = Some net'" "net_inv net'"
      "dm_heap (nw_gws net') = ?G(new st \<mapsto> mbb_gateway_new i name ip)" "nw_links net' = nw_links ?net" "nw_ops net' = nw_ops ?net"
    by blast
  have free: "?G (new st) = None" using fresh by (simp add: fresh_address_def)
  have none: "dm_heap (nw_links ?net) = Map.empty" using net_loadedD(4) [OF seen] by (simp add: gwlinks_in_def ran_none)
  have "net_loaded net' (seen @ [row]) [] []"
    using net_loadedD [OF seen] n(2) v free none
    by (simp add: net_loaded_def gateways_in_def operators_in_def gwlinks_in_def net_size_def n(3-5) mbb_gateway_new_def domIff)
  moreover obtain k s inet where r: "load_uint (row 0) = Inr k" "row 1 = Some name" "row 2 = Some s" "atoipv4 s = Some inet" "i = guint_id k" "ip = addr inet"
    using v by (auto simp: gw_row_def split: sum.splits option.splits bind_splits)
  then have "load_gateway new st row = Some (Inr (set_net st net', [new st]))"
    using n(1) by (simp add: load_gateway_def attempt_def)
  ultimately show ?thesis by blast
qed

section \<open>Operators\<close>

lemma operator_joins:
  assumes inv: "net_inv net" and new: "mbb_operator_get_by_name net name = None"
      "\<And>q x. dm_heap (nw_ops net) q = Some x \<Longrightarrow> op_id x \<noteq> i" and names: "\<And>q x. dm_heap (nw_ops net) q = Some x \<Longrightarrow> op_name x \<noteq> name"
    and p: "fresh_address net p"
  shows "\<exists>net'. mbb_operator_join (set_op net p (Some (mbb_operator_new i name))) p = Some net' \<and> net_inv net' \<and>
    dm_heap (nw_ops net') = (dm_heap (nw_ops net))(p \<mapsto> mbb_operator_new i name) \<and> nw_links net' = nw_links net \<and> nw_gws net' = nw_gws net"
proof -
  let ?net = "set_op net p (Some (mbb_operator_new i name))"
  have p': "p \<notin> dom (dm_heap (nw_ops net))" "dm_heap (nw_ops net) p = None" "p \<noteq> 0" using p by (auto simp: fresh_address_def)
  have "module_ok operator_entries (nw_ops ?net) (dom (dm_heap (nw_ops net)))"
    by (rule module_ok_elsewhere [OF net_invD(3) [OF inv] p'(1)]) simp_all
  moreover have "fresh_keys operator_entries (dm_heap (nw_ops ?net)) (dom (dm_heap (nw_ops net))) p (mbb_operator_new i name)"
    using new(2) names p' unfolding operator_entries_def operators.fresh_std by (auto simp: mbb_operator_new_def)
  ultimately obtain m where m: "module_join operator_entries (nw_ops ?net) p = Some m" "dm_heap m = dm_heap (nw_ops ?net)"
    using module_join_ok [of operator_entries "nw_ops ?net" "dom (dm_heap (nw_ops net))" p] by auto
  then have j: "mbb_operator_join ?net p = Some (?net\<lparr>nw_ops := m\<rparr>)" by (simp add: mbb_operator_join_def)
  from join_operator_inv [OF inv new p'(2,3) j] m j show ?thesis by simp
qed

lemma load_operator_step:
  assumes new: "alloc_ok n new" "length gws + length table \<le> n" and rows: "op_table_ok table" "table = seen @ row # rest"
    and seen: "net_loaded (srv_net st) gws seen []"
  shows "\<exists>net ps. load_operator new st row = Some (Inr (set_net st net, ps)) \<and> net_loaded net gws (seen @ [row]) []"
proof -
  let ?net = "srv_net st" and ?O = "dm_heap (nw_ops (srv_net st))"
  note inv = net_loadedD(1) [OF seen]
  obtain i name where v: "op_row row = Some (i, name)"
    using rows by (cases "op_row row") (auto simp: op_table_ok_def image_iff)
  have old: "op_id x \<noteq> i" "op_name x \<noteq> name" if "?O q = Some x" for q x
  proof -
    have "Some (op_id x, op_name x) \<in> op_row ` set seen"
      unfolding net_loadedD(3) [OF seen, symmetric] operators_in_def using ranI [of ?O, OF that] by (intro imageI image_eqI) simp_all
    then obtain r where r: "Some (op_id x, op_name x) = op_row r" "r \<in> set seen" by (rule imageE)
    have "fst (the (op_row r)) \<noteq> fst (the (op_row row))" "snd (the (op_row r)) \<noteq> snd (the (op_row row))"
      using rows(1) r(2) unfolding op_table_ok_def rows(2) by (auto simp: image_iff)
    with v r(1) [symmetric] show "op_id x \<noteq> i" "op_name x \<noteq> name" by simp_all
  qed
  have no: "mbb_operator_get_by_name ?net name = None"
    using old(2) operators.get_by_name [OF net_invD(3) [OF inv, unfolded operator_entries_def], of name]
    by (cases "mbb_operator_get_by_name ?net name") (fastforce simp: mbb_operator_get_by_name_def)+
  have fresh: "fresh_address ?net (new st)" using alloc_okD [OF new(1)] net_loadedD(5) [OF seen] new(2) rows(2) by simp
  from operator_joins [OF inv no _ _ this, of i] old obtain net' where
    n: "mbb_operator_join (set_op ?net (new st) (Some (mbb_operator_new i name))) (new st) = Some net'" "net_inv net'"
      "dm_heap (nw_ops net') = ?O(new st \<mapsto> mbb_operator_new i name)" "nw_links net' = nw_links ?net" "nw_gws net' = nw_gws ?net"
    by blast
  have free: "?O (new st) = None" using fresh by (simp add: fresh_address_def)
  have none: "dm_heap (nw_links ?net) = Map.empty" using net_loadedD(4) [OF seen] by (simp add: gwlinks_in_def ran_none)
  have "net_loaded net' gws (seen @ [row]) []"
    using net_loadedD [OF seen] n(2) v free none
    by (simp add: net_loaded_def gateways_in_def operators_in_def gwlinks_in_def net_size_def n(3-5) mbb_operator_new_def domIff)
  moreover obtain k where r: "load_uint (row 0) = Inr k" "row 1 = Some name" "i = guint_id k"
    using v by (auto simp: op_row_def split: sum.splits option.splits)
  then have "load_operator new st row = Some (Inr (set_net st net', [new st]))"
    using n(1) by (simp add: load_operator_def attempt_def)
  ultimately show ?thesis by blast
qed

section \<open>Links\<close>

text \<open>A link with a new number that no other link of its gateway overlaps is registered and taken at both ends.\<close>

lemma gwlink_joins:
  assumes inv: "net_inv net" and gw: "dm_heap (nw_gws net) (gl_gw gl) = Some g" and op: "dm_heap (nw_ops net) (gl_op gl) = Some x"
    and p: "dm_heap (nw_links net) p = None" and wf: "wf_link gl"
    and i: "\<And>q y. dm_heap (nw_links net) q = Some y \<Longrightarrow> gl_id y \<noteq> gl_id gl"
    and free: "\<forall>c \<in> set (queue_of g (gl_link gl)). \<not> overlaps (dm_heap (nw_links net)) gl c"
  shows "\<exists>nt1 nt2 old net' g'. mbb_gwlink_join (set_gl net p (Some gl)) p = Some nt1 \<and> mbb_gateway_add_link nt1 (gl_gw gl) p = Some (nt2, True, old) \<and>
    mbb_operator_add_link nt2 (gl_op gl) p = Some net' \<and> net_inv net' \<and>
    dm_heap (nw_links net') = (dm_heap (nw_links net))(p \<mapsto> gl) \<and>
    dm_heap (nw_gws net') = (dm_heap (nw_gws net))(gl_gw gl \<mapsto> g') \<and> gw_id g' = gw_id g \<and> gw_name g' = gw_name g \<and> gw_addr g' = gw_addr g \<and>
    dm_heap (nw_ops net') = (dm_heap (nw_ops net))(gl_op gl \<mapsto> x\<lparr>op_links := p # op_links x\<rparr>)"
proof -
  let ?L = "dm_heap (nw_links net)" and ?net = "set_gl net p (Some gl)" and ?x = "x\<lparr>op_links := p # op_links x\<rparr>"
  note refs = net_invD(4) [OF inv] and g = refs_okD(2) [OF net_invD(4) [OF inv] gw]
  have p': "p \<notin> dom ?L" using p by auto
  have fresh: "fresh_keys gwlink_entries h (dom ?L) p gl" if "\<And>q. q \<in> dom ?L \<Longrightarrow> h q = ?L q" for h
    using i that by (fastforce simp: fresh_keys_def gwlink_entries_def less_Suc_eq)
  have "module_ok gwlink_entries (nw_links ?net) (dom ?L)"
    by (rule module_ok_elsewhere [OF net_invD(2) [OF inv] p']) simp_all
  then obtain m where m: "module_join gwlink_entries (nw_links ?net) p = Some m"
    using module_join_ok [of gwlink_entries "nw_links ?net" "dom ?L" p gl] fresh [of "?L(p \<mapsto> gl)"] p' by (force simp: domIff)
  have links: "module_ok gwlink_entries m (dom (dm_heap m))" "dm_heap m = ?L(p \<mapsto> gl)"
    using module_add_ok [OF net_invD(2) [OF inv] p' fresh [OF refl] _ _ m] by simp_all
  let ?nt1 = "?net\<lparr>nw_links := m\<rparr>"
  have out: "p \<notin> set (queue_of g k)" for k using refs_okD(3) [OF refs gw, of p k] p by simp
  have "\<forall>c \<in> set (queue_of g (gl_link gl)). \<not> overlaps (?L(p \<mapsto> gl)) gl c"
    using free out [of "gl_link gl"] by (auto simp: overlaps_def)
  then obtain g' old where g': "mbb_gateway_add_link ?nt1 (gl_gw gl) p = Some (set_gw ?nt1 (gl_gw gl) (Some g'), True, old)" "gateway_ok (?L(p \<mapsto> gl)) g'"
      "mset (queue_of g' (gl_link gl)) = add_mset p (mset (queue_of g (gl_link gl)))" "\<And>k. k \<noteq> gl_link gl \<Longrightarrow> queue_of g' k = queue_of g k"
    using add_link_admitted [of ?nt1 "gl_gw gl" g p gl] gw wf gateway_ok_absent [OF g out, of "Some gl"]
    by (auto simp: links(2) fun_upd_same simp del: fun_upd_apply)
  have "set (queue_of g' k) = (if k = gl_link gl then insert p (set (queue_of g k)) else set (queue_of g k))" for k
    using g'(3) g'(4) [of k] by (auto dest: arg_cong [where f = set_mset])
  note refs' = refs_new_link [OF refs p gw g'(2) refl this op refl]
  have keys: "gw_id g' = gw_id g" "gw_name g' = gw_name g" "gw_addr g' = gw_addr g"
    using gateway_keys_kept(1) [OF g'(1), of g g'] gw by simp_all
  let ?nt3 = "set_op (set_gw ?nt1 (gl_gw gl) (Some g')) (gl_op gl) (Some ?x)"
  have ops: "module_ok operator_entries (nw_ops ?nt3) (dom (dm_heap (nw_ops ?nt3)))"
    by (rule same_operator_keys [where x' = ?x, OF net_invD(3) [OF inv] op]) simp_all
  have gws: "module_ok gateway_entries (nw_gws ?nt3) (dom (dm_heap (nw_gws ?nt3)))"
    by (rule same_gateway_keys [OF net_invD(1) [OF inv] gw _ _ keys]) simp_all
  have "net_inv ?nt3" using gws links ops refs' unfolding net_inv_def by (simp del: dom_fun_upd)
  with m g'(1) op links(2) keys show ?thesis
    by (intro exI [of _ ?nt1] exI [of _ "set_gw ?nt1 (gl_gw gl) (Some g')"] exI [of _ old] exI [of _ ?nt3] exI [of _ g'])
      (simp add: mbb_gwlink_join_def mbb_operator_add_link_def)
qed

text \<open>What the network holds after that.\<close>

lemma net_loaded_link:
  assumes seen: "net_loaded net gws ops seen" and inv: "net_inv net'" and new: "dm_heap (nw_links net) p = None"
    and gw: "dm_heap (nw_gws net) (gl_gw gl) = Some g" and op: "dm_heap (nw_ops net) (gl_op gl) = Some x"
    and h: "dm_heap (nw_links net') = (dm_heap (nw_links net))(p \<mapsto> gl)" "dm_heap (nw_gws net') = (dm_heap (nw_gws net))(gl_gw gl \<mapsto> g')"
      "gw_id g' = gw_id g" "gw_name g' = gw_name g" "gw_addr g' = gw_addr g"
      "dm_heap (nw_ops net') = (dm_heap (nw_ops net))(gl_op gl \<mapsto> x\<lparr>op_links := ls\<rparr>)"
    and row: "gl_row row = Some (gl_id gl, op_id x, gw_id g, gl_link gl, gl_start gl, gl_end gl)"
  shows "net_loaded net' gws ops (seen @ [row])"
proof -
  have "gateways_in net' = gateways_in net" "operators_in net' = operators_in net"
    unfolding gateways_in_def operators_in_def h(2,6) by (rule image_ran_upd; use gw op h in simp)+
  moreover have "(\<lambda>q. op_id (the (dm_heap (nw_ops net') q))) = (\<lambda>q. op_id (the (dm_heap (nw_ops net) q)))"
    "(\<lambda>q. gw_id (the (dm_heap (nw_gws net') q))) = (\<lambda>q. gw_id (the (dm_heap (nw_gws net) q)))"
    using gw op h by (auto simp: fun_eq_iff)
  then have "Some ` gwlinks_in net' = gl_row ` set (seen @ [row])"
    using net_loadedD(4) [OF seen] gw op new row by (simp add: gwlinks_in_def h(1) link_view_def)
  moreover have "net_size net' = Suc (net_size net)"
    using gw op new by (simp add: net_size_def h domIff insert_absorb)
  ultimately show ?thesis using net_loadedD [OF seen] inv by (simp add: net_loaded_def)
qed

text \<open>The rows of a table whose links are apart.\<close>

lemma net_loaded_apart:
  assumes seen: "net_loaded net gws ops seen" and apart: "sorted_wrt gl_rows_apart (seen @ row # rest)"
    and v: "gl_row row = Some (i, oi, gi, link, start, fin)" and y: "dm_heap (nw_links net) q = Some y"
  shows "gl_id y \<noteq> i \<and> (gw_id (the (dm_heap (nw_gws net) (gl_gw y))) = gi \<and> gl_link y = link \<longrightarrow> (\<nexists>t. link_admits y t \<and> admits start fin t))"
proof -
  let ?v = "link_view (\<lambda>p. op_id (the (dm_heap (nw_ops net) p))) (\<lambda>p. gw_id (the (dm_heap (nw_gws net) p))) y"
  have "Some ?v \<in> gl_row ` set seen"
    unfolding net_loadedD(4) [OF seen, symmetric] gwlinks_in_def using ranI [of "dm_heap (nw_links net)", OF y] by (intro imageI)
  then obtain r where r: "Some ?v = gl_row r" "r \<in> set seen" by (rule imageE)
  have "gl_rows_apart r row" using apart r(2) by (simp add: sorted_wrt_append)
  with v r(1) [symmetric] show ?thesis by (auto simp: gl_rows_apart_def link_view_def link_admits_def)
qed

lemma load_gwlink_step:
  assumes new: "alloc_ok n new" "length gws + length ops + length table \<le> n"
    and rows: "gl_table_ok gws ops table" "table = seen @ row # rest" and seen: "net_loaded (srv_net st) gws ops seen"
  shows "\<exists>net ps. load_gwlink new st row = Some (Inr (set_net st net, ps)) \<and> net_loaded net gws ops (seen @ [row])"
proof -
  let ?net = "srv_net st" and ?G = "dm_heap (nw_gws (srv_net st))" and ?O = "dm_heap (nw_ops (srv_net st))" and ?L = "dm_heap (nw_links (srv_net st))"
  note inv = net_loadedD(1) [OF seen] and refs = net_invD(4) [OF net_loadedD(1) [OF seen]]
  obtain i oi gi link start fin where v: "gl_row row = Some (i, oi, gi, link, start, fin)"
    and ends: "oi \<in> (fst \<circ> the \<circ> op_row) ` set ops" "gi \<in> (fst \<circ> the \<circ> gw_row) ` set gws" "start = 0 \<or> fin = 0 \<or> start \<le> fin"
    using rows unfolding gl_table_ok_def gl_row_ok_def by (auto split: option.splits)
  have "gi \<in> gw_id ` ran ?G"
    using ends(2) unfolding image_the_row [OF net_loadedD(2) [OF seen, unfolded gateways_in_def]] by (simp add: comp_def)
  then obtain gw g where gw: "?G gw = Some g" "gw_id g = gi" by (auto simp: ran_def)
  have "oi \<in> op_id ` ran ?O"
    using ends(1) unfolding image_the_row [OF net_loadedD(3) [OF seen, unfolded operators_in_def]] by (simp add: comp_def)
  then obtain op x where op: "?O op = Some x" "op_id x = oi" by (auto simp: ran_def)
  have get: "mbb_gateway_get_by_id ?net gi = Some gw" "mbb_operator_get_by_id ?net oi = Some op"
    using gw op module_get_iff [OF net_invD(1) [OF inv], of 1 "Key_Int gi" gw] module_get_iff [OF net_invD(3) [OF inv], of 1 "Key_Int oi" op]
    by (auto simp: mbb_gateway_get_by_id_def mbb_operator_get_by_id_def gateway_entries_def operator_entries_def std_entries_def)
  let ?gl = "(mbb_gwlink_new i)\<lparr>gl_gw := gw, gl_op := op, gl_link := link, gl_start := start, gl_end := fin\<rparr>"
  have old: "gl_id y \<noteq> i \<and> (gw_id (the (?G (gl_gw y))) = gi \<and> gl_link y = link \<longrightarrow> (\<nexists>t. link_admits y t \<and> admits start fin t))"
    if "?L q = Some y" for q y
    by (rule net_loaded_apart [OF seen _ v that, of rest]) (use rows in \<open>simp add: gl_table_ok_def\<close>)
  have fresh: "fresh_address ?net (new st)" using alloc_okD [OF new(1)] net_loadedD(5) [OF seen] new(2) rows(2) by simp
  have free: "\<forall>c \<in> set (queue_of g link). \<not> overlaps ?L ?gl c"
    using old gw refs_okD(3) [OF refs gw(1), of _ link] by (fastforce simp: overlaps_def link_admits_def)
  have wf: "wf_link ?gl" using ends(3) by (simp add: wf_link_def)
  obtain nt1 nt2 old net' g' where
    n: "mbb_gwlink_join (set_gl ?net (new st) (Some ?gl)) (new st) = Some nt1" "mbb_gateway_add_link nt1 gw (new st) = Some (nt2, True, old)"
      "mbb_operator_add_link nt2 op (new st) = Some net'" "net_inv net'"
    and h: "dm_heap (nw_links net') = ?L(new st \<mapsto> ?gl)" "dm_heap (nw_gws net') = ?G(gw \<mapsto> g')"
      "gw_id g' = gw_id g" "gw_name g' = gw_name g" "gw_addr g' = gw_addr g" "dm_heap (nw_ops net') = ?O(op \<mapsto> x\<lparr>op_links := new st # op_links x\<rparr>)"
    using gwlink_joins [OF inv, of ?gl g x "new st"] gw(1) op(1) fresh wf old free by (auto simp: fresh_address_def mbb_gwlink_new_def)
  have "net_loaded net' gws ops (seen @ [row])"
    by (rule net_loaded_link [where gl = ?gl and g = g and g' = g' and x = x and p = "new st" and ls = "new st # op_links x", OF seen n(4)])
      (use fresh gw op v h in \<open>simp_all add: fresh_address_def mbb_gwlink_new_def\<close>)
  moreover obtain k ko kg where "load_uint (row 0) = Inr k" "load_uint (row 1) = Inr ko" "load_uint (row 2) = Inr kg" "load_uint (row 3) = Inr link"
      "load_time 0 (row 4) = Inr start" "load_time 0 (row 5) = Inr fin" "i = guint_id k" "oi = guint_id ko" "gi = guint_id kg"
    using v by (auto simp: gl_row_def split: sum.splits)
  then have "load_gwlink new st row = Some (Inr (set_net st net', [new st]))"
    using n(1-3) get by (simp add: load_gwlink_def attempt_def)
  ultimately show ?thesis by blast
qed

section \<open>The three tables\<close>


text \<open>A database with one gateway, one operator and two links of one number with different periods.\<close>

definition row_of :: "string list \<Rightarrow> row" where
  "row_of xs i = (if 0 \<le> i \<and> nat i < length xs then Some (xs ! nat i) else None)"

definition tables0 :: "string \<Rightarrow> row list" where
  "tables0 q =
     (if q = QUERY_GATEWAYS then [row_of [''1'', ''gw'', ipv4toa 167772161]]
      else if q = QUERY_OPERATORS then [row_of [''1'', ''op'']]
      else if q = QUERY_GWLINKS then [row_of [''1'', ''1'', ''1'', ''5'', ''10'', ''20''], row_of [''2'', ''1'', ''1'', ''5'', ''30'', ''0'']]
      else [])"

definition table_db :: "(unit, row \<times> row list) mbb_db" where
  "table_db = \<lparr>db_name = ''tables'', db_open = \<lambda>_ w. (w, 7, None), db_query = \<lambda>_ _ _ w. (w, True, None), db_escape = None,
     db_query_iter = \<lambda>_ q w. (w, Some (\<lambda>_. None, tables0 q), None),
     db_iter_next = \<lambda>(r, rs). (case rs of [] \<Rightarrow> ((r, []), False) | r # rs \<Rightarrow> ((r, rs), True)),
     db_iter_get_nrow = \<lambda>(r, rs). int (length rs), db_iter_get_ncol = \<lambda>_. 0, db_iter_get_value = fst, db_iter_free = \<lambda>_ w. w,
     db_begin = None, db_rollback = None, db_commit = None, db_close_conn = \<lambda>_ w. w\<rparr>"

definition lsrv0 :: "(unit, unit, row \<times> row list) app_srv" where
  "lsrv0 = \<lparr>sv_mem = \<lparr>ap_vars = (), ap_net = \<lparr>nw_gws = \<lparr>dm_link = None, dm_heap = Map.empty\<rparr>, nw_links = \<lparr>dm_link = None, dm_heap = Map.empty\<rparr>,
       nw_ops = \<lparr>dm_link = None, dm_heap = Map.empty\<rparr>\<rparr>, ap_acc = account0,
       ap_db = \<lparr>db_ht = None, db_drv = Some table_db, db_conn = 7, db_auth = None, db_priv = \<lambda>_. 0, db_mutex = None, db_world = ()\<rparr>\<rparr>, sv_acl = acl0,
     sv_threads = Map.empty, sv_sessions = Map.empty, sv_session_id = 1, sv_session_ht = None, sv_var_queue = [], sv_vars = Map.empty,
     sv_var_ht = None, sv_cache_global = None, sv_modules = \<lparr>dm_link = None, dm_heap = Map.empty\<rparr>, sv_infos = Map.empty,
     sv_cur_info = None, sv_mod_key = \<lambda>_. None, sv_funcs = Map.empty, sv_func_ht = None,
     sv_auth_methods = None, sv_auth_heap = Map.empty, sv_auth_keys = None, sv_key_lifetime = 60\<rparr>"

definition new0 :: "('v, 'w, 'i) app_srv \<Rightarrow> gpointer" where
  "new0 st = (case find (fresh_address (srv_net st)) [1, 2, 3, 4] of Some p \<Rightarrow> p | None \<Rightarrow> 0)"

lemma new0_fresh: "alloc_ok 4 new0"
  unfolding alloc_ok_def
proof (intro allI impI)
  fix st :: "('v, 'w, 'i) app_srv"
  let ?net = "srv_net st" let ?D = "dom (dm_heap (nw_gws ?net)) \<union> dom (dm_heap (nw_ops ?net)) \<union> dom (dm_heap (nw_links ?net))"
  assume few: "net_size ?net < 4"
  have D: "card ?D \<le> net_size ?net"
    unfolding net_size_def by (rule order_trans [OF card_Un_le]) (simp add: card_Un_le)
  have "card {1, 2, 3, 4 :: gpointer} = 4" by simp
  with few D have "\<not> card {1, 2, 3, 4 :: gpointer} \<le> card ?D" by linarith
  then have "\<not> {1, 2, 3, 4} \<subseteq> ?D" using card_mono [of ?D "{1, 2, 3, 4}"] finite by blast
  then obtain p where p: "p \<in> {1, 2, 3, 4}" "p \<notin> ?D" by blast
  then have "fresh_address ?net p" unfolding fresh_address_def by (auto simp: domIff)
  with p(1) have "find (fresh_address ?net) [1, 2, 3, 4] \<noteq> None" unfolding find_None_iff by auto
  then obtain q where "find (fresh_address ?net) [1, 2, 3, 4] = Some q" by blast
  moreover from this have "fresh_address ?net q" unfolding find_Some_iff by blast
  ultimately show "fresh_address ?net (new0 st)" by (simp add: new0_def)
qed

lemma rows_end: "iter_rows table_db (r, rs) rs"
proof (induction rs arbitrary: r)
  case Nil
  show ?case by (rule iter_rows.End) (simp add: table_db_def)
next
  case (Cons a rs)
  from iter_rows.Row [OF _ Cons.IH [of a], of "(r, a # rs)"] show ?case by (simp add: table_db_def)
qed

lemmas number_defs = load_uint_def load_time_def check_isnull_def var_conv_uint_def var_conv_utime_def str_conv_to_uint64_def ascii_strtoull_def
  dec_value_def G_MAXUINT64_def G_MAXLONG_def ascii_isdigit_def ascii_isspace_def ascii_digit_value_def guint_id_def to_gint_def signed_take_bit_def

lemma queries_differ:
  "QUERY_OPERATORS \<noteq> QUERY_GATEWAYS" "QUERY_GWLINKS \<noteq> QUERY_GATEWAYS" "QUERY_GWLINKS \<noteq> QUERY_OPERATORS"
  by (simp_all add: QUERY_OPERATORS_def QUERY_GATEWAYS_def QUERY_GWLINKS_def)

lemma tables0_rows:
  "map gw_row (tables0 QUERY_GATEWAYS) = [Some (1, ''gw'', 167772161)]"
  "map op_row (tables0 QUERY_OPERATORS) = [Some (1, ''op'')]"
  "map gl_row (tables0 QUERY_GWLINKS) = [Some (1, 1, 1, 5, 10, 20), Some (2, 1, 1, 5, 30, 0)]"
proof -
  have "atoipv4 (ipv4toa 167772161) = Some \<lparr>addr = 167772161, mask = 32\<rparr>"
    using strtoipv4_ipv4toa [of "[]" 167772161] by (simp add: atoipv4_def ascii_isgraph_def)
  then show "map gw_row (tables0 QUERY_GATEWAYS) = [Some (1, ''gw'', 167772161)]"
    by (simp add: tables0_def gw_row_def row_of_def number_defs)
  show "map op_row (tables0 QUERY_OPERATORS) = [Some (1, ''op'')]"
    by (simp add: tables0_def queries_differ op_row_def row_of_def number_defs)
  show "map gl_row (tables0 QUERY_GWLINKS) = [Some (1, 1, 1, 5, 10, 20), Some (2, 1, 1, 5, 30, 0)]"
    by (simp add: tables0_def queries_differ gl_row_def row_of_def number_defs)
qed

lemma lsrv0_answers: "db_answers (srv_db lsrv0) 0 tables0"
  unfolding db_answers_def
proof (intro exI [of _ table_db] conjI allI)
  show "db_drv (srv_db lsrv0) = Some table_db" by (simp add: lsrv0_def)
  fix w q
  have iter: "db_query_iter table_db c q () = ((), Some (\<lambda>_. None, tables0 q), None)" for c by (simp add: table_db_def)
  show "\<exists>w' it. mbb_db_query_iter ((srv_db lsrv0)\<lparr>db_world := w\<rparr>) 0 q = Some ((srv_db lsrv0)\<lparr>db_world := w'\<rparr>, Some it, None) \<and>
      iter_rows table_db it (tables0 q)"
    by (rule exI [of _ w], rule exI [of _ "(\<lambda>_. None, tables0 q)"])
      (simp add: rows_end lsrv0_def mbb_db_query_iter_def db_get_conn_def db_query_lock_def db_query_unlock_def
        rec_mutex_lock_def rec_mutex_unlock_def iter)
qed

lemma tables0_ok:
  "gw_table_ok (tables0 QUERY_GATEWAYS)" "op_table_ok (tables0 QUERY_OPERATORS)"
  "gl_table_ok (tables0 QUERY_GATEWAYS) (tables0 QUERY_OPERATORS) (tables0 QUERY_GWLINKS)"
proof -
  note rows = tables0_rows [unfolded tables0_def, simplified queries_differ, simplified]
  show "gw_table_ok (tables0 QUERY_GATEWAYS)" "op_table_ok (tables0 QUERY_OPERATORS)"
    using rows by (simp_all add: gw_table_ok_def op_table_ok_def tables0_def queries_differ)
  show "gl_table_ok (tables0 QUERY_GATEWAYS) (tables0 QUERY_OPERATORS) (tables0 QUERY_GWLINKS)"
    using rows by (auto simp: gl_table_ok_def gl_row_ok_def gl_rows_apart_def tables0_def queries_differ admits_def)
qed


end
