(* ===== verification/Spec2Isabelle.thy ===== *)
theory Spec2Isabelle
  imports
    Inet Slice Slicer Mbb_Map Data_Link User_Group Mbb_Time Inet_Pool Account Umap Gateway
    Msg_Queue Query Var_Conv Xml_Tag Xml_Msg Server Mbb_Var Mbb_Module Module_Life Mbb_Auth Mbb_Db
    Command Acl_Man Net_Man Ownership Account_Man Account_Inv Server_State Mbb_Task Stat Stat_Man
    Netflow Flow_Charge Db_Load Load_Net
begin

text \<open>
  \<^bold>\<open>A verification development of the traffic accounting server \<open>mbbd\<close>.\<close>

  The program (sources under \<open>src/\<close>) is a server that accounts network traffic to customers.
  It keeps in memory \<^emph>\<open>units\<close> with address ranges and periods, \<^emph>\<open>consumers\<close> that own units,
  \<^emph>\<open>gateways\<close> whose numbered links belong to \<^emph>\<open>operators\<close> for a period, and \<^emph>\<open>users\<close> in
  \<^emph>\<open>groups\<close>, whose membership is a capability mask. Clients connect with XML (or HTTP) requests,
  log in and call \<^emph>\<open>commands\<close>; commands, variables and authentication methods can be added by
  loadable \<^emph>\<open>modules\<close>. Flow records are accounted by looking up a unit by address and time in a
  map that is rebuilt from all units and then frozen.

  \<^bold>\<open>How the theories follow the sources.\<close> Data are records and datatypes with the names of
  the source; every operation is a function of the state that returns the new state. Objects
  live in heaps from addresses to records. \<open>None\<close> is the use of an address that holds no
  object, or of an argument of the wrong type, which C leaves undefined; errors that the code
  reports are values. Times are signed 64 bit numbers, addresses and masks 32 bit words.

  \<^descr>[\<open>Mbb_Prelude\<close>] machine types, C strings and decimal printing, lemmas on lists, options, words.
  \<^descr>[\<open>Inet\<close>] \<open>inet.c\<close>, \<open>range.c\<close>: texts of addresses, networks and ranges. What is printed is read
    back, exactly the dotted quads are read as addresses, a network has the range of its
    members, and printed texts fit their buffers.
  \<^descr>[\<open>Slice\<close>, \<open>Slicer\<close>] \<open>slicer.c\<close>, \<open>timeslicer.c\<close>, \<open>inetslicer.c\<close>: intervals with open ends and a
    partition of the key space into slices with data. A locale states what the code needs of
    a key type and is interpreted for times and for addresses; an insertion or deletion changes
    the datum of exactly the keys of the slice.
  \<^descr>[\<open>Mbb_Map\<close>] \<open>map.c\<close>, \<open>vmap.h\<close>: two-dimensional maps from address and time to a pointer,
    abstracted to a relation. Adding rejects crossings, deletion removes exactly the rectangle.
  \<^descr>[\<open>Umap\<close>] \<open>mbbinetmap.c\<close>: copying of unit maps into the global map and the frozen map with its
    binary search, which refines the lookup in the map.
  \<^descr>[\<open>Data_Link\<close>] \<open>datalink.c\<close>: the registries of objects by address, id and name; the locale
    \<open>named_registry\<close> states what they promise and is interpreted by their clients.
  \<^descr>[\<open>User_Group\<close>] \<open>mbbuser.c\<close>, \<open>mbbgroup.c\<close>, \<open>mbbcap.h\<close>: membership in the tables of the groups and in
    the masks of the users stays the same relation.
  \<^descr>[\<open>Mbb_Time\<close>] \<open>mbbtime.c\<close>: comparison of times of which 0 is no limit.
  \<^descr>[\<open>Inet_Pool\<close>, \<open>Account\<close>] \<open>mbbinetpool.c\<close>, \<open>separator.c\<close>, \<open>mbbunit.c\<close>, \<open>mbbconsumer.c\<close>: pools of
    networks of units, consumers, changes of periods; rebuilding a unit map is all or nothing.
  \<^descr>[\<open>Gateway\<close>] \<open>mbbgateway.c\<close>, \<open>mbbgwlink.c\<close>, \<open>mbboperator.c\<close>: queues of links ordered in time; a link
    that overlaps another is refused, the link at a time is found, a removed one is withdrawn.
  \<^descr>[\<open>Msg_Queue\<close>] \<open>mbbmsgqueue.c\<close>, \<open>shared.c\<close>: output queues with shared texts as a step relation of
    writers and a reader: the bytes written are a prefix of the texts pushed, texts live as long
    as they are referenced, and reading drains the queue.
  \<^descr>[\<open>Query\<close>] \<open>query.c\<close>, part of \<open>psql.c\<close>: SQL statements and quoting.
  \<^descr>[\<open>Var_Conv\<close>] \<open>strconv.c\<close>, \<open>varconv.c\<close>: values of arguments and variables.
  \<^descr>[\<open>Xml_Tag\<close>, \<open>Xml_Msg\<close>] \<open>variant.c\<close>, \<open>xmltag.c\<close>, \<open>mbbxmlmsg.c\<close>, \<open>mbbxtv.c\<close>: trees of requests and
    answers, their sorting, printing and reading.
  \<^descr>[\<open>Server\<close>] the state of the server, \<open>mbbserver.c\<close>, \<open>mbbsession.c\<close>.
  \<^descr>[\<open>Mbb_Var\<close>] \<open>mbbvar.c\<close>: variables are changed only with the capability they ask for.
  \<^descr>[\<open>Mbb_Module\<close>, \<open>Module_Life\<close>] \<open>mbbfunc.c\<close>, \<open>mbbmodule.c\<close>: commands and modules; calls and
    unloading as interleaved steps, where a module in use is never closed.
  \<^descr>[\<open>Mbb_Auth\<close>] \<open>mbbauth.c\<close>, \<open>mbbauthkeys.c\<close>, \<open>mbbthreadxml.c\<close>: login and dispatch of requests.
  \<^descr>[\<open>Mbb_Db\<close>] \<open>mbbdb.c\<close>, \<open>psql.c\<close>, \<open>mbbdb*.c\<close>: connections, transactions and the statements that
    store objects; the functions of libpq are a parameter.
  \<^descr>[\<open>Command\<close>, \<open>Acl_Man\<close>, \<open>Net_Man\<close>] the handlers of the commands on users, groups, operators,
    gateways and links: \<open>mbbuserman.c\<close>, \<open>mbbgroupman.c\<close>, \<open>mbboperatorman.c\<close>, \<open>mbbgatewayman.c\<close>,
    \<open>mbbgwlinkman.c\<close>.
  \<^descr>[\<open>Ownership\<close>, \<open>Account_Man\<close>, \<open>Account_Inv\<close>] \<open>mbbconsumerman.c\<close>, \<open>mbbunitman.c\<close>: the handlers of the
    commands on consumers and units. \<open>Ownership\<close> is the relation between objects that name their
    owner and owners that list their objects, proved once in a locale and interpreted for units
    and consumers and for consumers and users; the commands keep the accounts consistent.
  \<^descr>[\<open>Server_State\<close>] all commands together: what each leaves alone, and the invariant of the whole
    server under any sequence of commands.
  \<^descr>[\<open>Mbb_Task\<close>] \<open>mbbtask.c\<close>: background tasks, their loop, and stopping, resuming and cancelling as
    a step relation of the thread of the task and other threads; no wake-up is lost.
  \<^descr>[\<open>Stat\<close>, \<open>Stat_Man\<close>] \<open>modules/stat\<close>: pools of traffic sums, written in one transaction, and the
    commands that read them; a consumer reads only its own.
  \<^descr>[\<open>Netflow\<close>, \<open>Flow_Charge\<close>] \<open>modules/netflow\<close>: files of flows are charged to units and links by
    tasks. The sums are exactly the bytes of the flows that the frozen map and the gateways
    assign to a unit and a link, the references of a frozen map balance, and a task ends.
  \<^descr>[\<open>Db_Load\<close>, \<open>Load_Net\<close>] \<open>mbbdbload.c\<close>: reading the stored objects at start. From a database that
    keeps its constraints, the network of gateways, operators and links is consistent and holds
    exactly the stored objects.

  \<^bold>\<open>Groups of lemmas.\<close> Each component has an invariant that its operations keep, the behaviour of
  its operations on every branch, and, where it has a contract, an abstract relation that it
  refines: maps and slicers refine functions of keys, membership and ownership are relations,
  commands on users refine a set of abstract changes. Interleaving is a step relation in
  \<open>Msg_Queue\<close>, \<open>Module_Life\<close>, \<open>Mbb_Db\<close> and \<open>Mbb_Task\<close>, with invariants by rule induction.

  \<^bold>\<open>Loops and bounds.\<close> No definition has fuel: loops are structural or have a measure; the loop of
  a task and the reading of a query result may not end and are partial functions, and the
  former is proved to end for the tasks of \<open>Netflow\<close> and the latter for answers with finitely many rows. Integers that wrap in C are words or are
  cut with \<open>to_gint\<close>; times are unbounded because no operation on them comes near 64 bits.

  \<^bold>\<open>Parameters.\<close> libpq, the library of flow files, the search for file names, the calendar, the
  regular expressions, the code of loaded modules, the order of hash tables, fresh addresses and
  the numbers that the database assigns are parameters; theorems name what they assume of them.

  \<^bold>\<open>Not modelled.\<close> Sockets, the parsing of XML and HTTP, the log, start-up and settings, and the
  shell client are input and output around the modelled functions. The commands on networks of
  units (\<open>mbbunitipman.c\<close>) and the map commands of \<open>mbbinetmap.c\<close> keep node lists of the global map
  that the model of maps leaves out. The modules for attributes, pings and external
  authentication are optional and not modelled. Locks around handlers are left out: a handler is
  one step, except where interleaving is the subject.
\<close>

section \<open>The server as a whole\<close>


definition wsrv0 :: "(unit, string list, unit mbb_db_iter) app_srv" where
  "wsrv0 = set_net csrv0 net3"


end
